(* ===== verification/GM_Prelude.thy ===== *)
theory GM_Prelude
  imports Main "HOL-Library.Word" "HOL-Library.Multiset" "HOL-Library.AList" "HOL-Library.Char_ord" "HOL-Library.List_Lexorder"
begin

text \<open>
  Shared vocabulary of the development: the Go standard library functions the source uses on
  strings and numbers, errors as values, time, and the stable sort of \<open>sort.SliceStable\<close>.

  Conventions. A Go \<open>string\<close> is a list of bytes (\<^typ>\<open>string\<close>); \<open>strings.TrimSpace\<close>, \<open>ToLower\<close> and
  \<open>EqualFold\<close> are modelled on the ASCII range (identifiers, versions, addresses and statuses of
  the source are ASCII). An instant \<open>time.Time\<close> is the number of nanoseconds since Go's zero time, so that
  \<open>IsZero\<close> is equality with 0, and a \<open>*time.Time\<close> is an option. A pair \<open>(value, error)\<close> is a sum
  with the error on the left. An error made by \<open>errors.New\<close> or \<open>fmt.Errorf\<close> is kept as its format
  and its arguments; where the source's message is Chinese, the format is an English key of it.
\<close>

named_theorems go_string \<open>facts about the Go string functions\<close>
named_theorems go_sort \<open>facts about the stable sort\<close>

subsection \<open>Errors and results\<close>

datatype go_error =
    Error string
  | Errorf string "string list"
  | Wrap string "string list" go_error

type_synonym 'a result = "go_error + 'a"

fun sprintf :: "string \<Rightarrow> string list \<Rightarrow> string" where
  "sprintf [] args = []"
| "sprintf [c] args = [c]"
| "sprintf (c # d # cs) args =
     (if c = CHR ''%''
      then (case args of [] \<Rightarrow> c # d # sprintf cs [] | a # rest \<Rightarrow> a @ sprintf cs rest)
      else c # sprintf (d # cs) args)"

fun error_text :: "go_error \<Rightarrow> string" where
  "error_text (Error s) = s"
| "error_text (Errorf f args) = sprintf f args"
| "error_text (Wrap f args e) = sprintf f (args @ [error_text e])"

definition is_ok :: "'e + 'a \<Rightarrow> bool" where
  "is_ok r = (case r of Inl _ \<Rightarrow> False | Inr _ \<Rightarrow> True)"

lemma is_ok_simps [simp]: "\<not> is_ok (Inl e)" "is_ok (Inr x)"
  by (simp_all add: is_ok_def)

lemma is_ok_iff: "is_ok r \<longleftrightarrow> (\<exists>x. r = Inr x)"
  by (cases r) auto

subsection \<open>Time\<close>

type_synonym go_time = int
type_synonym duration = int

abbreviation second :: duration where "second \<equiv> 1000000000"
abbreviation minute :: duration where "minute \<equiv> 60 * second"

text \<open>\<open>t.Format(time.RFC3339)\<close> drops the fraction of a second; on UTC instants the order of the
  formatted texts is the order of the whole seconds.\<close>

definition unix_sec :: "go_time \<Rightarrow> int" where
  "unix_sec t = t div second"

lemma unix_sec_mono: "s \<le> t \<Longrightarrow> unix_sec s \<le> unix_sec t"
  by (simp add: unix_sec_def zdiv_mono1)

lemma unix_sec_add_seconds: "unix_sec (t + k * second) = unix_sec t + k"
  by (simp add: unix_sec_def)

text \<open>A lookup in a Go map: the zero value of an absent key.\<close>

definition map_get :: "'v \<Rightarrow> ('k \<Rightarrow> 'v option) \<Rightarrow> 'k \<Rightarrow> 'v" where
  "map_get zero m k = (case m k of None \<Rightarrow> zero | Some v \<Rightarrow> v)"

subsection \<open>Characters and strings\<close>

definition char_code :: "char \<Rightarrow> nat" where
  "char_code c = of_char c"

definition is_space :: "char \<Rightarrow> bool" where
  "is_space c \<longleftrightarrow> c \<in> set [CHR 0x09, CHR 0x0A, CHR 0x0B, CHR 0x0C, CHR 0x0D, CHR 0x20]"

definition trim_space :: "string \<Rightarrow> string" where
  "trim_space s = rev (dropWhile is_space (rev (dropWhile is_space s)))"

definition lower_char :: "char \<Rightarrow> char" where
  "lower_char c = (if 65 \<le> char_code c \<and> char_code c \<le> 90 then char_of (char_code c + 32) else c)"

definition upper_char :: "char \<Rightarrow> char" where
  "upper_char c = (if 97 \<le> char_code c \<and> char_code c \<le> 122 then char_of (char_code c - 32) else c)"

definition to_lower :: "string \<Rightarrow> string" where "to_lower = map lower_char"
definition to_upper :: "string \<Rightarrow> string" where "to_upper = map upper_char"

definition equal_fold :: "string \<Rightarrow> string \<Rightarrow> bool" where
  "equal_fold s t \<longleftrightarrow> to_lower s = to_lower t"

definition has_prefix :: "string \<Rightarrow> string \<Rightarrow> bool" where
  "has_prefix s p \<longleftrightarrow> take (length p) s = p"

definition has_suffix :: "string \<Rightarrow> string \<Rightarrow> bool" where
  "has_suffix s p \<longleftrightarrow> has_prefix (rev s) (rev p)"

definition trim_prefix :: "string \<Rightarrow> string \<Rightarrow> string" where
  "trim_prefix s p = (if has_prefix s p then drop (length p) s else s)"

definition trim_suffix :: "string \<Rightarrow> string \<Rightarrow> string" where
  "trim_suffix s p = (if has_suffix s p then take (length s - length p) s else s)"

fun contains :: "string \<Rightarrow> string \<Rightarrow> bool" where
  "contains [] p = (p = [])"
| "contains (c # cs) p = (has_prefix (c # cs) p \<or> contains cs p)"

text \<open>\<open>strings.LastIndex\<close> used as a cut: what follows the last occurrence of \<open>p\<close>, if there is one.\<close>

fun after_last :: "string \<Rightarrow> string \<Rightarrow> string option" where
  "after_last [] p = (if p = [] then Some [] else None)"
| "after_last (c # cs) p =
     (case after_last cs p of
        Some rest \<Rightarrow> Some rest
      | None \<Rightarrow> if has_prefix (c # cs) p then Some (drop (length p) (c # cs)) else None)"

text \<open>\<open>strings.Split\<close> with a one-byte separator, and \<open>strings.SplitN(s, sep, 2)\<close>.\<close>

fun split_on :: "char \<Rightarrow> string \<Rightarrow> string list" where
  "split_on c [] = [[]]"
| "split_on c (x # xs) =
     (if x = c then [] # split_on c xs
      else (case split_on c xs of [] \<Rightarrow> [[x]] | w # ws \<Rightarrow> (x # w) # ws))"

definition split_n2 :: "char \<Rightarrow> string \<Rightarrow> string list" where
  "split_n2 c s = (if c \<in> set s then [takeWhile (\<lambda>x. x \<noteq> c) s, tl (dropWhile (\<lambda>x. x \<noteq> c) s)] else [s])"

fun join :: "string \<Rightarrow> string list \<Rightarrow> string" where
  "join sep [] = []"
| "join sep [x] = x"
| "join sep (x # y # zs) = x @ sep @ join sep (y # zs)"

definition replace_char :: "char \<Rightarrow> string \<Rightarrow> string \<Rightarrow> string" where
  "replace_char c r s = concat (map (\<lambda>x. if x = c then r else [x]) s)"

lemma split_on_nonempty [simp]: "split_on c s \<noteq> []"
  by (cases s) (auto split: list.splits)

lemma split_on_no_sep [go_string]: "c \<notin> set s \<Longrightarrow> split_on c s = [s]"
  by (induction s) auto

lemma split_on_append [go_string]: "c \<notin> set s \<Longrightarrow> split_on c (s @ c # t) = s # split_on c t"
  by (induction s) auto

lemma split_on_pieces: "w \<in> set (split_on c s) \<Longrightarrow> c \<notin> set w"
proof (induction s arbitrary: w)
  case Nil
  then show ?case by simp
next
  case (Cons x xs)
  obtain v vs where vs: "split_on c xs = v # vs"
    by (metis list.exhaust split_on_nonempty)
  with Cons show ?case by (auto split: if_splits)
qed

lemma join_split_on: "join [c] (split_on c s) = s"
proof (induction s)
  case Nil
  then show ?case by simp
next
  case (Cons x xs)
  obtain v vs where vs: "split_on c xs = v # vs"
    by (metis list.exhaust split_on_nonempty)
  with Cons show ?case by (cases vs) auto
qed

lemma split_on_join:
  "ws \<noteq> [] \<Longrightarrow> \<forall>w \<in> set ws. c \<notin> set w \<Longrightarrow> split_on c (join [c] ws) = ws"
  by (induction "[c]" ws rule: join.induct) (auto simp: go_string)

lemma dropWhile_id_hd: "xs = [] \<or> \<not> P (hd xs) \<Longrightarrow> dropWhile P xs = xs"
  by (cases xs) auto

lemma dropWhile_none: "\<forall>x \<in> set xs. \<not> P x \<Longrightarrow> dropWhile P xs = xs"
  by (cases xs) auto

lemma trim_space_id [go_string]: "\<forall>c \<in> set s. \<not> is_space c \<Longrightarrow> trim_space s = s"
proof -
  assume s: "\<forall>c \<in> set s. \<not> is_space c"
  then have "dropWhile is_space s = s" "dropWhile is_space (rev s) = rev s"
    by (simp_all add: dropWhile_none)
  then show ?thesis by (simp add: trim_space_def)
qed

lemma trim_space_Nil [simp]: "trim_space [] = []"
  by (simp add: trim_space_def)

lemma set_trim_space: "set (trim_space s) \<subseteq> set s"
  unfolding trim_space_def by (metis set_dropWhileD set_rev subsetI)

lemma trim_space_empty_iff: "trim_space s = [] \<longleftrightarrow> (\<forall>c \<in> set s. is_space c)"
proof -
  have "(\<forall>c \<in> set (dropWhile is_space s). is_space c) \<longleftrightarrow> (\<forall>c \<in> set s. is_space c)"
    by (metis UnE set_append set_dropWhileD set_takeWhileD takeWhile_dropWhile_id)
  then show ?thesis by (auto simp: trim_space_def)
qed

lemma trim_space_idem [simp]: "trim_space (trim_space s) = trim_space s"
proof (cases "trim_space s = []")
  case False
  let ?l = "dropWhile is_space s"
  from False have l: "?l \<noteq> []" by (metis dropWhile.simps(1) rev.simps(1) trim_space_def)
  then have hd_l: "\<not> is_space (hd ?l)" by (rule hd_dropWhile)
  let ?r = "dropWhile is_space (rev ?l)"
  from False have r: "?r \<noteq> []" by (metis rev.simps(1) trim_space_def)
  then have hd_r: "\<not> is_space (hd ?r)" by (rule hd_dropWhile)
  obtain p where p: "rev ?l = p @ ?r" by (metis takeWhile_dropWhile_id)
  then have "?l = rev ?r @ rev p" by (metis rev_append rev_rev_ident)
  with r have "hd (rev ?r) = hd ?l" by (metis hd_append2 rev_is_Nil_conv)
  with hd_l have "dropWhile is_space (rev ?r) = rev ?r" by (metis dropWhile_id_hd)
  moreover have "dropWhile is_space ?r = ?r" using hd_r by (metis dropWhile_id_hd)
  ultimately show ?thesis by (simp only: trim_space_def rev_rev_ident)
qed simp

lemma equal_fold_refl [simp]: "equal_fold s s"
  by (simp add: equal_fold_def)

lemma equal_fold_sym: "equal_fold s t \<Longrightarrow> equal_fold t s"
  by (simp add: equal_fold_def)

lemma equal_fold_trans: "equal_fold s t \<Longrightarrow> equal_fold t u \<Longrightarrow> equal_fold s u"
  by (simp add: equal_fold_def)

subsection \<open>Numbers in text\<close>

definition is_digit :: "char \<Rightarrow> bool" where
  "is_digit c \<longleftrightarrow> 48 \<le> char_code c \<and> char_code c \<le> 57"

definition digit_char :: "nat \<Rightarrow> char" where
  "digit_char d = char_of (48 + d)"

fun show_nat :: "nat \<Rightarrow> string" where
  "show_nat n = (if n < 10 then [digit_char n] else show_nat (n div 10) @ [digit_char (n mod 10)])"

declare show_nat.simps [simp del]

definition show_int :: "int \<Rightarrow> string" where
  "show_int i = (if i < 0 then CHR ''-'' # show_nat (nat (- i)) else show_nat (nat i))"

definition digits_value :: "string \<Rightarrow> nat" where
  "digits_value s = foldl (\<lambda>n c. n * 10 + (char_code c - 48)) 0 s"

text \<open>\<open>strconv.ParseUint(s, 10, 64)\<close>: digits only, and a value of 64 bits.\<close>

definition parse_uint64 :: "string \<Rightarrow> 64 word option" where
  "parse_uint64 s =
     (if s \<noteq> [] \<and> list_all is_digit s \<and> int (digits_value s) < 2 ^ 64
      then Some (of_nat (digits_value s)) else None)"

text \<open>\<open>strconv.Atoi\<close> on a 64-bit platform: an optional sign, digits, and a value of the \<open>int64\<close> range.\<close>

definition parse_digits :: "string \<Rightarrow> nat option" where
  "parse_digits s = (if s \<noteq> [] \<and> list_all is_digit s then Some (digits_value s) else None)"

definition atoi :: "string \<Rightarrow> int option" where
  "atoi s =
     (case s of
        [] \<Rightarrow> None
      | c # cs \<Rightarrow>
          (if c = CHR ''-'' then
             (case parse_digits cs of None \<Rightarrow> None
              | Some n \<Rightarrow> if int n \<le> 2 ^ 63 then Some (- int n) else None)
           else
             (case parse_digits (if c = CHR ''+'' then cs else s) of None \<Rightarrow> None
              | Some n \<Rightarrow> if int n < 2 ^ 63 then Some (int n) else None)))"

lemma char_code_digit [simp]: "d < 10 \<Longrightarrow> char_code (digit_char d) = 48 + d"
  by (simp add: char_code_def digit_char_def)

lemma is_digit_digit [simp]: "d < 10 \<Longrightarrow> is_digit (digit_char d)"
  by (simp add: is_digit_def)

lemma show_nat_digits: "list_all is_digit (show_nat n)"
proof (induction n rule: show_nat.induct)
  case (1 n)
  then show ?case by (subst show_nat.simps) simp
qed

lemma show_nat_chars: "c \<in> set (show_nat n) \<Longrightarrow> is_digit c"
  using show_nat_digits [of n] by (auto simp: list_all_iff)

lemma show_nat_nonempty [simp]: "show_nat n \<noteq> []"
  by (subst show_nat.simps) simp

lemma digits_value_snoc: "digits_value (s @ [c]) = digits_value s * 10 + (char_code c - 48)"
  by (simp add: digits_value_def)

lemma digits_value_show_nat [simp]: "digits_value (show_nat n) = n"
proof (induction n rule: show_nat.induct)
  case (1 n)
  show ?case
  proof (cases "n < 10")
    case True
    then show ?thesis by (subst show_nat.simps) (simp add: digits_value_def)
  next
    case False
    with 1 show ?thesis by (subst show_nat.simps) (simp add: digits_value_snoc)
  qed
qed

lemma parse_uint64_show: "n < 2 ^ 64 \<Longrightarrow> parse_uint64 (show_nat n) = Some (of_nat n)"
  by (simp add: parse_uint64_def show_nat_digits)

lemma digit_not_sign: "is_digit c \<Longrightarrow> c \<noteq> CHR ''-'' \<and> c \<noteq> CHR ''+''"
  by (auto simp: is_digit_def char_code_def)

lemma atoi_show_nat: "n < 2 ^ 63 \<Longrightarrow> atoi (show_nat n) = Some (int n)"
proof -
  assume n: "n < 2 ^ 63"
  obtain c cs where s: "show_nat n = c # cs" by (cases "show_nat n") auto
  with show_nat_digits [of n] have "is_digit c" and all: "list_all is_digit (c # cs)" by auto
  with s n show ?thesis
    using digits_value_show_nat [of n] digit_not_sign [of c]
    by (simp add: atoi_def parse_digits_def)
qed

subsection \<open>Sums over nested lists\<close>

lemma sum_list_map_concat:
  fixes g :: "'a \<Rightarrow> 'b :: comm_monoid_add"
  shows "sum_list (map g (concat (map h xs))) = sum_list (map (\<lambda>x. sum_list (map g (h x))) xs)"
  by (induction xs) auto

subsection \<open>The stable sort of \<open>sort.SliceStable\<close>\<close>

text \<open>
  \<open>sort.SliceStable\<close> returns the one arrangement of the slice that is ordered by \<open>lt\<close> and keeps
  equivalent elements in their order, when \<open>lt\<close> is a strict weak order. Insertion computes it.
  \<open>sort.Slice\<close> promises the order only; where the source uses it, the theorems below speak of the
  order, and the model takes the stable arrangement.
\<close>

fun insert_stable :: "('a \<Rightarrow> 'a \<Rightarrow> bool) \<Rightarrow> 'a \<Rightarrow> 'a list \<Rightarrow> 'a list" where
  "insert_stable lt x [] = [x]"
| "insert_stable lt x (y # ys) = (if lt y x then y # insert_stable lt x ys else x # y # ys)"

definition stable_sort :: "('a \<Rightarrow> 'a \<Rightarrow> bool) \<Rightarrow> 'a list \<Rightarrow> 'a list" where
  "stable_sort lt xs = foldr (insert_stable lt) xs []"

lemma stable_sort_simps [simp]:
  "stable_sort lt [] = []"
  "stable_sort lt (x # xs) = insert_stable lt x (stable_sort lt xs)"
  by (simp_all add: stable_sort_def)

lemma set_insert_stable [simp]: "set (insert_stable lt x ys) = insert x (set ys)"
  by (induction ys) auto

lemma set_stable_sort [simp, go_sort]: "set (stable_sort lt xs) = set xs"
  by (induction xs) auto

lemma length_insert_stable [simp]: "length (insert_stable lt x ys) = Suc (length ys)"
  by (induction ys) auto

lemma length_stable_sort [simp, go_sort]: "length (stable_sort lt xs) = length xs"
  by (induction xs) auto

lemma stable_sort_Nil_iff [simp]: "stable_sort lt xs = [] \<longleftrightarrow> xs = []"
  by (metis length_0_conv length_stable_sort)

lemma map_insert_stable:
  "(\<And>a b. lt' (f a) (f b) = lt a b) \<Longrightarrow>
   map f (insert_stable lt x ys) = insert_stable lt' (f x) (map f ys)"
  by (induction ys) auto

lemma mset_insert_stable [simp]: "mset (insert_stable lt x ys) = add_mset x (mset ys)"
  by (induction ys) auto

lemma mset_stable_sort [simp, go_sort]: "mset (stable_sort lt xs) = mset xs"
  by (induction xs) auto

text \<open>The order is a locale, so that each comparison function of the source proves its two laws once.\<close>

locale weak_order =
  fixes lt :: "'a \<Rightarrow> 'a \<Rightarrow> bool"
  assumes lt_asym: "lt a b \<Longrightarrow> \<not> lt b a"
    and not_lt_trans: "\<not> lt b a \<Longrightarrow> \<not> lt c b \<Longrightarrow> \<not> lt c a"
begin

lemma sorted_insert_stable:
  "sorted_wrt (\<lambda>a b. \<not> lt b a) ys \<Longrightarrow> sorted_wrt (\<lambda>a b. \<not> lt b a) (insert_stable lt x ys)"
  by (induction ys) (auto dest: lt_asym, metis not_lt_trans)

lemma sorted_stable_sort: "sorted_wrt (\<lambda>a b. \<not> lt b a) (stable_sort lt xs)"
  by (induction xs) (auto intro: sorted_insert_stable)

lemma hd_stable_sort_least:
  assumes "x \<in> set xs"
  shows "\<not> lt x (hd (stable_sort lt xs))"
proof (cases "stable_sort lt xs")
  case Nil
  with assms show ?thesis by simp
next
  case (Cons y ys)
  with assms have "x = y \<or> x \<in> set ys"
    using set_stable_sort [of lt xs] by auto
  moreover have "\<not> lt y y" by (auto dest: lt_asym)
  ultimately show ?thesis using sorted_stable_sort [of xs] Cons by auto
qed

text \<open>Elements the order does not separate keep their places relative to each other.\<close>

lemma filter_insert_stable:
  "sorted_wrt (\<lambda>a b. \<not> lt b a) ys \<Longrightarrow> \<forall>y. P y \<longrightarrow> \<not> lt y x \<Longrightarrow>
   filter P (insert_stable lt x ys) = filter P (x # ys)"
  by (induction ys) auto

lemma filter_insert_stable_other: "\<not> P x \<Longrightarrow> filter P (insert_stable lt x ys) = filter P ys"
  by (induction ys) auto

lemma stable_sort_stable:
  "filter (\<lambda>y. \<not> lt y z \<and> \<not> lt z y) (stable_sort lt xs) = filter (\<lambda>y. \<not> lt y z \<and> \<not> lt z y) xs"
proof (induction xs)
  case Nil
  then show ?case by simp
next
  case (Cons x xs)
  show ?case
  proof (cases "\<not> lt x z \<and> \<not> lt z x")
    case True
    have "filter (\<lambda>y. \<not> lt y z \<and> \<not> lt z y) (insert_stable lt x (stable_sort lt xs)) =
          filter (\<lambda>y. \<not> lt y z \<and> \<not> lt z y) (x # stable_sort lt xs)"
      using True by (intro filter_insert_stable sorted_stable_sort) (metis not_lt_trans)
    with True Cons show ?thesis by simp
  next
    case False
    with Cons show ?thesis by (auto simp: filter_insert_stable_other)
  qed
qed

end

text \<open>A comparison by a key is such an order.\<close>

lemma weak_order_key: "weak_order (\<lambda>a b. (key a :: 'k :: linorder) < key b)"
  by unfold_locales auto

lemma sorted_stable_sort_key:
  "sorted_wrt (\<lambda>a b. key a \<le> key b) (stable_sort (\<lambda>a b. (key a :: 'k :: linorder) < key b) xs)"
proof -
  have "sorted_wrt (\<lambda>a b. \<not> key b < key a) (stable_sort (\<lambda>a b. key a < key b) xs)"
    by (rule weak_order.sorted_stable_sort [OF weak_order_key])
  then show ?thesis by (simp add: not_less)
qed

end
