(* ===== verification/Gtid_Set.thy ===== *)
theory Gtid_Set
  imports GM_Prelude
begin

text \<open>
  The GTID set algebra of \<open>internal/app/architecture_executor.go\<close>: \<open>parseGTIDSet\<close>, \<open>gtidSetSubset\<close> and
  \<open>gtidTransactionCount\<close>. Interval bounds are \<open>uint64\<close>, so they are 64-bit words and \<open>end + 1\<close> wraps.
  The abstract meaning of a set is the set of transactions \<open>(uuid, number)\<close> its text denotes
  (\<open>gtid_txns\<close>, read off the text without sorting or merging); the theorems show that the merged
  form denotes the same transactions and that the subset test decides inclusion of them.
\<close>

record gtid_interval =
  iv_start :: "64 word"
  iv_end :: "64 word"

type_synonym gtid_map = "(string \<times> gtid_interval list) list"

subsection \<open>The parser\<close>

text \<open>One \<open>start\<close> or \<open>start-end\<close> piece; \<open>None\<close> is the loop's \<open>continue\<close>.\<close>

definition parse_interval :: "string \<Rightarrow> gtid_interval option" where
  "parse_interval raw =
     (let bounds = split_n2 (CHR ''-'') raw in
      case parse_uint64 (bounds ! 0) of
        None \<Rightarrow> None
      | Some start \<Rightarrow>
          (if length bounds = 2
           then (case parse_uint64 (bounds ! 1) of
                   None \<Rightarrow> None
                 | Some e \<Rightarrow> if e < start then None else Some \<lparr>iv_start = start, iv_end = e\<rparr>)
           else Some \<lparr>iv_start = start, iv_end = start\<rparr>))"

definition append_interval :: "string \<Rightarrow> gtid_interval \<Rightarrow> gtid_map \<Rightarrow> gtid_map" where
  "append_interval uuid iv m = AList.map_default uuid [iv] (\<lambda>ivs. ivs @ [iv]) m"

fun parse_pieces :: "string \<Rightarrow> string list \<Rightarrow> gtid_map \<Rightarrow> gtid_map" where
  "parse_pieces uuid [] m = m"
| "parse_pieces uuid (raw # raws) m =
     parse_pieces uuid raws
       (case parse_interval raw of None \<Rightarrow> m | Some iv \<Rightarrow> append_interval uuid iv m)"

fun parse_sources :: "string list \<Rightarrow> gtid_map \<Rightarrow> gtid_map" where
  "parse_sources [] m = m"
| "parse_sources (source # sources) m =
     (let parts = split_on (CHR '':'') (trim_space source) in
      parse_sources sources
        (if length parts < 2 then m else parse_pieces (to_lower (hd parts)) (tl parts) m))"

subsection \<open>Merging the intervals of a source\<close>

definition merge_step :: "gtid_interval list \<Rightarrow> gtid_interval \<Rightarrow> gtid_interval list" where
  "merge_step merged iv =
     (if merged = [] \<or> iv_end (last merged) + 1 < iv_start iv then merged @ [iv]
      else if iv_end (last merged) < iv_end iv
           then butlast merged @ [(last merged)\<lparr>iv_end := iv_end iv\<rparr>]
           else merged)"

definition merge_intervals :: "gtid_interval list \<Rightarrow> gtid_interval list" where
  "merge_intervals ivs = foldl merge_step [] (stable_sort (\<lambda>a b. iv_start a < iv_start b) ivs)"

definition parseGTIDSet :: "string \<Rightarrow> gtid_map" where
  "parseGTIDSet s = map (\<lambda>(uuid, ivs). (uuid, merge_intervals ivs)) (parse_sources (split_on (CHR '','') s) [])"

definition gtid_lookup :: "gtid_map \<Rightarrow> string \<Rightarrow> gtid_interval list" where
  "gtid_lookup m uuid = (case map_of m uuid of None \<Rightarrow> [] | Some ivs \<Rightarrow> ivs)"

definition iv_contains :: "gtid_interval \<Rightarrow> gtid_interval \<Rightarrow> bool" where
  "iv_contains candidate iv \<longleftrightarrow> iv_start candidate \<le> iv_start iv \<and> iv_end iv \<le> iv_end candidate"

definition gtidSetSubset :: "string \<Rightarrow> string \<Rightarrow> bool" where
  "gtidSetSubset sub super =
     (if trim_space sub = [] then True
      else (let small = parseGTIDSet sub; large = parseGTIDSet super in
            list_all (\<lambda>(uuid, ivs).
              list_all (\<lambda>iv. list_ex (\<lambda>c. iv_contains c iv) (gtid_lookup large uuid)) ivs) small))"

subsection \<open>Counting the transactions of a set\<close>

text \<open>Here a piece whose upper bound does not parse counts its lower bound; the sum is a \<open>uint64\<close>.\<close>

definition piece_count :: "string \<Rightarrow> 64 word" where
  "piece_count raw =
     (let bounds = split_n2 (CHR ''-'') raw in
      case parse_uint64 (bounds ! 0) of
        None \<Rightarrow> 0
      | Some start \<Rightarrow>
          (let e = (if length bounds = 2
                    then (case parse_uint64 (bounds ! 1) of None \<Rightarrow> start | Some p \<Rightarrow> p)
                    else start)
           in if start \<le> e then e - start + 1 else 0))"

definition gtidTransactionCount :: "string \<Rightarrow> 64 word" where
  "gtidTransactionCount s =
     sum_list (map (\<lambda>source. sum_list (map piece_count (tl (split_on (CHR '':'') (trim_space source)))))
       (split_on (CHR '','') s))"

subsection \<open>What a set denotes\<close>

definition iv_set :: "gtid_interval \<Rightarrow> (64 word) set" where
  "iv_set iv = {iv_start iv .. iv_end iv}"

definition ivs_set :: "gtid_interval list \<Rightarrow> (64 word) set" where
  "ivs_set ivs = (\<Union>iv \<in> set ivs. iv_set iv)"

definition map_txns :: "gtid_map \<Rightarrow> (string \<times> 64 word) set" where
  "map_txns m = {(u, n). n \<in> ivs_set (gtid_lookup m u)}"

definition pieces_txns :: "string \<Rightarrow> string list \<Rightarrow> (string \<times> 64 word) set" where
  "pieces_txns uuid raws = {uuid} \<times> {n. \<exists>raw \<in> set raws. \<exists>iv. parse_interval raw = Some iv \<and> n \<in> iv_set iv}"

definition source_txns :: "string \<Rightarrow> (string \<times> 64 word) set" where
  "source_txns source =
     (let parts = split_on (CHR '':'') (trim_space source) in pieces_txns (to_lower (hd parts)) (tl parts))"

definition gtid_txns :: "string \<Rightarrow> (string \<times> 64 word) set" where
  "gtid_txns s = (\<Union>source \<in> set (split_on (CHR '','') s). source_txns source)"

lemma ivs_set_simps [simp]:
  "ivs_set [] = {}" "ivs_set (iv # ivs) = iv_set iv \<union> ivs_set ivs" "ivs_set (xs @ ys) = ivs_set xs \<union> ivs_set ys"
  by (auto simp: ivs_set_def)

lemma parse_interval_valid: "parse_interval raw = Some iv \<Longrightarrow> iv_start iv \<le> iv_end iv"
  by (auto simp: parse_interval_def Let_def split: option.splits if_splits)

subsection \<open>The parsed map denotes the same transactions\<close>

lemma gtid_lookup_append:
  "gtid_lookup (append_interval uuid iv m) u = (if u = uuid then gtid_lookup m u @ [iv] else gtid_lookup m u)"
  by (induction m) (auto simp: append_interval_def gtid_lookup_def split: option.splits)

lemma map_txns_append: "map_txns (append_interval uuid iv m) = map_txns m \<union> {uuid} \<times> iv_set iv"
  by (auto simp: map_txns_def gtid_lookup_append split: if_splits)

lemma map_txns_Nil [simp]: "map_txns [] = {}"
  by (simp add: map_txns_def gtid_lookup_def)

lemma map_txns_parse_pieces: "map_txns (parse_pieces uuid raws m) = map_txns m \<union> pieces_txns uuid raws"
  by (induction raws arbitrary: m) (auto simp: pieces_txns_def map_txns_append split: option.splits)

lemma source_txns_short: "length (split_on (CHR '':'') (trim_space source)) < 2 \<Longrightarrow> source_txns source = {}"
  by (cases "split_on (CHR '':'') (trim_space source)")
    (auto simp: source_txns_def pieces_txns_def Let_def)

lemma map_txns_parse_sources:
  "map_txns (parse_sources sources m) = map_txns m \<union> (\<Union>source \<in> set sources. source_txns source)"
proof (induction sources arbitrary: m)
  case Nil
  then show ?case by simp
next
  case (Cons source sources)
  show ?case
  proof (cases "length (split_on (CHR '':'') (trim_space source)) < 2")
    case True
    with Cons show ?thesis by (simp add: Let_def source_txns_short)
  next
    case False
    with Cons show ?thesis
      by (simp add: Let_def map_txns_parse_pieces) (auto simp: source_txns_def Let_def)
  qed
qed

text \<open>Every interval of the parsed map is non-empty.\<close>

definition ivs_valid :: "gtid_interval list \<Rightarrow> bool" where
  "ivs_valid ivs \<longleftrightarrow> (\<forall>iv \<in> set ivs. iv_start iv \<le> iv_end iv)"

definition map_valid :: "gtid_map \<Rightarrow> bool" where
  "map_valid m \<longleftrightarrow> (\<forall>(u, ivs) \<in> set m. ivs_valid ivs) \<and> distinct (map fst m)"

lemma map_default_keys: "set (map fst (AList.map_default k v f m)) = insert k (set (map fst m))"
  by (induction m) auto

lemma map_default_distinct: "distinct (map fst m) \<Longrightarrow> distinct (map fst (AList.map_default k v f m))"
proof (induction m)
  case (Cons p m)
  then show ?case using map_default_keys [of k v f m] by auto
qed simp

lemma map_default_vals:
  "\<lbrakk>\<forall>(u, x) \<in> set m. P x; P v; \<And>x. P x \<Longrightarrow> P (f x)\<rbrakk> \<Longrightarrow> \<forall>(u, x) \<in> set (AList.map_default k v f m). P x"
  by (induction m) auto

lemma map_valid_append:
  "map_valid m \<Longrightarrow> iv_start iv \<le> iv_end iv \<Longrightarrow> map_valid (append_interval uuid iv m)"
  unfolding map_valid_def append_interval_def
  by (intro conjI map_default_vals map_default_distinct) (auto simp: ivs_valid_def)

lemma map_valid_parse_pieces: "map_valid m \<Longrightarrow> map_valid (parse_pieces uuid raws m)"
  by (induction raws arbitrary: m)
    (auto split: option.splits intro: map_valid_append parse_interval_valid)

lemma map_valid_parse_sources: "map_valid m \<Longrightarrow> map_valid (parse_sources sources m)"
  by (induction sources arbitrary: m) (auto simp: Let_def intro: map_valid_parse_pieces)

subsection \<open>Merging keeps the numbers and leaves gaps\<close>

definition iv_before :: "gtid_interval \<Rightarrow> gtid_interval \<Rightarrow> bool" where
  "iv_before a b \<longleftrightarrow> iv_start a \<le> iv_start b \<and> iv_end a + 1 < iv_start b"

definition ivs_normal :: "gtid_interval list \<Rightarrow> bool" where
  "ivs_normal ivs \<longleftrightarrow> sorted_wrt iv_before ivs \<and> ivs_valid ivs"

lemma iv_set_extend:
  assumes "iv_start l \<le> iv_start iv" "\<not> iv_end l + 1 < iv_start iv" "iv_end l < iv_end iv"
  shows "iv_set (l\<lparr>iv_end := iv_end iv\<rparr>) = iv_set l \<union> iv_set iv"
proof
  show "iv_set (l\<lparr>iv_end := iv_end iv\<rparr>) \<subseteq> iv_set l \<union> iv_set iv"
  proof
    fix n assume n: "n \<in> iv_set (l\<lparr>iv_end := iv_end iv\<rparr>)"
    show "n \<in> iv_set l \<union> iv_set iv"
    proof (cases "n \<le> iv_end l")
      case True
      with n show ?thesis by (simp add: iv_set_def)
    next
      case False
      then have "iv_end l + 1 \<le> n" by (simp add: inc_le)
      with n assms(2) show ?thesis by (auto simp: iv_set_def not_less)
    qed
  qed
  show "iv_set l \<union> iv_set iv \<subseteq> iv_set (l\<lparr>iv_end := iv_end iv\<rparr>)"
    using assms by (auto simp: iv_set_def)
qed

lemma merge_step_snoc:
  "merge_step (ms @ [l]) iv =
     (if iv_end l + 1 < iv_start iv then ms @ [l, iv]
      else if iv_end l < iv_end iv then ms @ [l\<lparr>iv_end := iv_end iv\<rparr>] else ms @ [l])"
  by (simp add: merge_step_def)

lemma merge_step_normal:
  assumes "ivs_normal merged" "iv_start iv \<le> iv_end iv" "\<forall>m \<in> set merged. iv_start m \<le> iv_start iv"
  shows "ivs_normal (merge_step merged iv)"
    and "\<forall>m \<in> set (merge_step merged iv). iv_start m \<le> iv_start iv"
    and "ivs_set (merge_step merged iv) = ivs_set merged \<union> iv_set iv"
proof (atomize (full), cases merged rule: rev_cases)
  case Nil
  with assms(2) show "ivs_normal (merge_step merged iv) \<and>
      (\<forall>m \<in> set (merge_step merged iv). iv_start m \<le> iv_start iv) \<and>
      ivs_set (merge_step merged iv) = ivs_set merged \<union> iv_set iv"
    by (simp add: merge_step_def ivs_normal_def ivs_valid_def)
next
  case (snoc ms l)
  from assms(1) snoc have before: "\<forall>m \<in> set ms. iv_before m l" and ms: "sorted_wrt iv_before ms"
    and valid: "ivs_valid (ms @ [l])"
    by (auto simp: ivs_normal_def sorted_wrt_append)
  from assms(3) snoc have l: "iv_start l \<le> iv_start iv" and le: "\<forall>m \<in> set ms. iv_start m \<le> iv_start iv" by auto
  have keep: "\<not> iv_end l + 1 < iv_start iv \<Longrightarrow> \<not> iv_end l < iv_end iv \<Longrightarrow> iv_set iv \<subseteq> iv_set l"
    using l by (auto simp: iv_set_def)
  have app: "iv_end l + 1 < iv_start iv \<Longrightarrow> \<forall>m \<in> set (ms @ [l]). iv_before m iv"
    using before l by (fastforce simp: iv_before_def)
  have ext: "\<forall>m \<in> set ms. iv_before m (l\<lparr>iv_end := iv_end iv\<rparr>)"
    using before by (simp add: iv_before_def)
  show "ivs_normal (merge_step merged iv) \<and>
      (\<forall>m \<in> set (merge_step merged iv). iv_start m \<le> iv_start iv) \<and>
      ivs_set (merge_step merged iv) = ivs_set merged \<union> iv_set iv"
    unfolding snoc merge_step_snoc
    using ms before valid l le assms(2) app ext keep iv_set_extend [of l iv]
    by (auto simp: ivs_normal_def ivs_valid_def sorted_wrt_append)
qed

lemma foldl_merge_normal:
  assumes "ivs_normal merged" "ivs_valid ivs" "sorted_wrt (\<lambda>a b. iv_start a \<le> iv_start b) ivs"
    and "\<forall>m \<in> set merged. \<forall>iv \<in> set ivs. iv_start m \<le> iv_start iv"
  shows "ivs_normal (foldl merge_step merged ivs) \<and>
    ivs_set (foldl merge_step merged ivs) = ivs_set merged \<union> ivs_set ivs"
  using assms
proof (induction ivs arbitrary: merged)
  case Nil
  then show ?case by simp
next
  case (Cons iv ivs)
  from Cons.prems have v: "iv_start iv \<le> iv_end iv" and le: "\<forall>m \<in> set merged. iv_start m \<le> iv_start iv"
    by (auto simp: ivs_valid_def)
  note step = merge_step_normal [OF Cons.prems(1) v le]
  from Cons.prems(2,3) have rest: "ivs_valid ivs" "sorted_wrt (\<lambda>a b. iv_start a \<le> iv_start b) ivs"
    and "\<forall>j \<in> set ivs. iv_start iv \<le> iv_start j"
    by (auto simp: ivs_valid_def)
  with step(2) have "\<forall>m \<in> set (merge_step merged iv). \<forall>j \<in> set ivs. iv_start m \<le> iv_start j"
    by fastforce
  from Cons.IH [OF step(1) rest this] step(3) show ?case by auto
qed

lemma merge_intervals_normal:
  assumes "ivs_valid ivs"
  shows "ivs_normal (merge_intervals ivs)" and "ivs_set (merge_intervals ivs) = ivs_set ivs"
proof -
  let ?s = "stable_sort (\<lambda>a b. iv_start a < iv_start b) ivs"
  have "ivs_normal (foldl merge_step [] ?s) \<and> ivs_set (foldl merge_step [] ?s) = ivs_set [] \<union> ivs_set ?s"
    using assms
    by (intro foldl_merge_normal sorted_stable_sort_key) (auto simp: ivs_normal_def ivs_valid_def)
  then show "ivs_normal (merge_intervals ivs)" "ivs_set (merge_intervals ivs) = ivs_set ivs"
    by (simp_all add: merge_intervals_def ivs_set_def)
qed

text \<open>
  In a merged list the gaps are real, so an interval covered by the whole list is covered by one of
  its members: the subset test may look at the members one by one. The wrap of \<open>end + 1\<close> at
  \<open>2^64 - 1\<close> leaves overlapping members behind, but then an earlier one reaches the last number.
\<close>

lemma iv_set_nonempty: "iv_start iv \<le> iv_end iv \<Longrightarrow> iv_start iv \<in> iv_set iv \<and> iv_end iv \<in> iv_set iv"
  by (simp add: iv_set_def)

lemma ivs_normal_pair:
  assumes "ivs_normal ivs" "c \<in> set ivs" "d \<in> set ivs" "c \<noteq> d"
  shows "iv_before c d \<or> iv_before d c"
proof -
  from assms(2,3) obtain i j where "i < length ivs" "c = ivs ! i" "j < length ivs" "d = ivs ! j"
    by (metis in_set_conv_nth)
  with assms(1,4) show ?thesis
    by (metis ivs_normal_def linorder_neqE_nat sorted_wrt_iff_nth_less)
qed

lemma word_inc_greater: "(x :: 64 word) < y \<Longrightarrow> x < x + 1"
  by (metis inc_less_eq_self_iff_eq not_le word_n1_ge)

lemma normal_covers_by_member:
  assumes normal: "ivs_normal ivs" and iv: "iv_start iv \<le> iv_end iv"
  shows "iv_set iv \<subseteq> ivs_set ivs \<longleftrightarrow> (\<exists>c \<in> set ivs. iv_contains c iv)"
proof
  assume sub: "iv_set iv \<subseteq> ivs_set ivs"
  then obtain c where c: "c \<in> set ivs" "iv_start iv \<in> iv_set c"
    using iv_set_nonempty [OF iv] by (auto simp: ivs_set_def)
  show "\<exists>c \<in> set ivs. iv_contains c iv"
  proof (cases "iv_end iv \<le> iv_end c")
    case True
    with c show ?thesis by (auto simp: iv_contains_def iv_set_def)
  next
    case False
    then have beyond: "iv_end c < iv_end c + 1" "iv_end c + 1 \<le> iv_end iv"
      by (auto simp: not_le inc_le intro: word_inc_greater)
    from c(2) have start_c: "iv_start c \<le> iv_start iv" "iv_start iv \<le> iv_end c" by (auto simp: iv_set_def)
    with beyond have "iv_end c + 1 \<in> iv_set iv" by (auto simp: iv_set_def)
    with sub obtain d where d: "d \<in> set ivs" "iv_start d \<le> iv_end c + 1" "iv_end c + 1 \<le> iv_end d"
      by (auto simp: ivs_set_def iv_set_def)
    have "d \<noteq> c" using d(3) beyond(1) by auto
    then consider "iv_before c d" | "iv_before d c" using ivs_normal_pair [OF normal c(1) d(1)] by auto
    then show ?thesis
    proof cases
      case 1
      with d(2) show ?thesis by (auto simp: iv_before_def dest: leD)
    next
      case 2
      have "\<not> iv_end d < iv_end d + 1"
        using 2 d(3) beyond(1) start_c by (auto simp: iv_before_def)
      then have "iv_end iv \<le> iv_end d" using word_inc_greater by (meson not_le)
      with 2 start_c have "iv_contains d iv" by (auto simp: iv_before_def iv_contains_def)
      with d(1) show ?thesis ..
    qed
  qed
next
  assume "\<exists>c \<in> set ivs. iv_contains c iv"
  then obtain c where c: "c \<in> set ivs" "iv_contains c iv" ..
  then have "iv_set iv \<subseteq> iv_set c" by (auto simp: iv_contains_def iv_set_def)
  with c(1) show "iv_set iv \<subseteq> ivs_set ivs" by (auto simp: ivs_set_def)
qed

subsection \<open>The subset test decides inclusion of the transactions\<close>

lemma parse_sources_valid: "map_valid (parse_sources sources [])"
  by (rule map_valid_parse_sources) (simp add: map_valid_def)

lemma map_of_merged:
  "map_of (map (\<lambda>(uuid, ivs). (uuid, merge_intervals ivs)) m) u = map_option merge_intervals (map_of m u)"
  by (induction m) auto

lemma merge_intervals_Nil [simp]: "merge_intervals [] = []"
  by (simp add: merge_intervals_def)

lemma gtid_lookup_merged:
  "gtid_lookup (map (\<lambda>(uuid, ivs). (uuid, merge_intervals ivs)) m) u = merge_intervals (gtid_lookup m u)"
  by (cases "map_of m u") (simp_all add: gtid_lookup_def map_of_merged)

lemma gtid_lookup_valid: "map_valid m \<Longrightarrow> ivs_valid (gtid_lookup m u)"
  by (auto simp: map_valid_def gtid_lookup_def ivs_valid_def split: option.splits dest: map_of_SomeD)

lemma parsed_normal: "ivs_normal (gtid_lookup (parseGTIDSet s) u)"
  unfolding parseGTIDSet_def gtid_lookup_merged
  by (intro merge_intervals_normal(1) gtid_lookup_valid parse_sources_valid)

lemma map_txns_parsed: "map_txns (parseGTIDSet s) = gtid_txns s"
proof -
  have "map_txns (parseGTIDSet s) = map_txns (parse_sources (split_on (CHR '','') s) [])"
    unfolding parseGTIDSet_def map_txns_def gtid_lookup_merged
    by (simp add: merge_intervals_normal(2) gtid_lookup_valid parse_sources_valid)
  then show ?thesis by (simp add: map_txns_parse_sources gtid_txns_def)
qed

lemma parsed_distinct: "distinct (map fst (parseGTIDSet s))"
  using parse_sources_valid [of "split_on (CHR '','') s"]
  by (simp add: parseGTIDSet_def map_valid_def comp_def split_beta)

lemma gtid_txns_blank: "trim_space s = [] \<Longrightarrow> gtid_txns s = {}"
proof -
  assume blank: "trim_space s = []"
  have "\<not> is_space (CHR '','')" by (simp add: is_space_def)
  with blank have "CHR '','' \<notin> set s" by (meson trim_space_empty_iff)
  with blank show ?thesis by (simp add: gtid_txns_def go_string source_txns_def pieces_txns_def)
qed

lemma gtid_lookup_entry: "distinct (map fst m) \<Longrightarrow> (u, ivs) \<in> set m \<Longrightarrow> gtid_lookup m u = ivs"
  by (simp add: gtid_lookup_def)

lemma gtid_lookup_in: "iv \<in> set (gtid_lookup m u) \<Longrightarrow> (u, gtid_lookup m u) \<in> set m"
  by (auto simp: gtid_lookup_def split: option.splits dest: map_of_SomeD)

lemma parsed_subset_iff:
  "list_all (\<lambda>(uuid, ivs). list_all (\<lambda>iv. list_ex (\<lambda>c. iv_contains c iv) (gtid_lookup (parseGTIDSet t) uuid)) ivs)
     (parseGTIDSet s) \<longleftrightarrow> map_txns (parseGTIDSet s) \<subseteq> map_txns (parseGTIDSet t)" (is "?test \<longleftrightarrow> ?incl")
proof -
  have "?test \<longleftrightarrow> (\<forall>(u, ivs) \<in> set (parseGTIDSet s). \<forall>iv \<in> set ivs.
      \<exists>c \<in> set (gtid_lookup (parseGTIDSet t) u). iv_contains c iv)"
    by (simp add: list_all_iff list_ex_iff)
  also have "\<dots> \<longleftrightarrow> (\<forall>u. \<forall>iv \<in> set (gtid_lookup (parseGTIDSet s) u).
      \<exists>c \<in> set (gtid_lookup (parseGTIDSet t) u). iv_contains c iv)"
    using gtid_lookup_entry [OF parsed_distinct [of s]] gtid_lookup_in [of _ "parseGTIDSet s"]
    by fastforce
  also have "\<dots> \<longleftrightarrow> (\<forall>u. \<forall>iv \<in> set (gtid_lookup (parseGTIDSet s) u).
      iv_set iv \<subseteq> ivs_set (gtid_lookup (parseGTIDSet t) u))"
    using parsed_normal [of s] normal_covers_by_member [OF parsed_normal [of t]]
    by (simp add: ivs_normal_def ivs_valid_def)
  also have "\<dots> \<longleftrightarrow> ?incl"
    by (simp add: map_txns_def ivs_set_def subset_eq) blast
  finally show ?thesis .
qed

lemma gtidSetSubset_incl: "gtidSetSubset s t \<longleftrightarrow> gtid_txns s \<subseteq> gtid_txns t"
proof (cases "trim_space s = []")
  case True
  then show ?thesis by (simp add: gtidSetSubset_def gtid_txns_blank)
next
  case False
  then show ?thesis
    by (simp add: gtidSetSubset_def Let_def parsed_subset_iff map_txns_parsed)
qed

lemma gtidSetSubset_refl [simp]: "gtidSetSubset s s"
  by (simp add: gtidSetSubset_incl)

lemma gtidSetSubset_trans: "gtidSetSubset r s \<Longrightarrow> gtidSetSubset s t \<Longrightarrow> gtidSetSubset r t"
  by (auto simp: gtidSetSubset_incl)

text \<open>C4: \<open>gtidSetSubset\<close> decides inclusion of the sets of transactions the two texts denote, for any
  texts: repeated sources, overlapping, adjacent, reversed and unreadable intervals included; so it is
  a preorder, and a set with a transaction the other lacks is never accepted.\<close>

theorem gtidSetSubset_iff:
  "(gtidSetSubset s t \<longleftrightarrow> gtid_txns s \<subseteq> gtid_txns t) \<and>
   (gtidSetSubset r s \<and> gtidSetSubset s t \<longrightarrow> gtidSetSubset r t)"
  using gtidSetSubset_incl gtidSetSubset_trans by blast

theorem gtidSetSubset_iff_witness:
  "gtidSetSubset ''u:1-2'' ''u:1-3'' \<and> gtidSetSubset ''u:1-3'' ''u:1-5'' \<and> gtidSetSubset ''u:1-2'' ''u:1-5''"
proof -
  have "gtidSetSubset ''u:1-2'' ''u:1-3''" "gtidSetSubset ''u:1-3'' ''u:1-5''" by code_simp+
  then show ?thesis using gtidSetSubset_iff [of "''u:1-3''" "''u:1-5''" "''u:1-2''"] by blast
qed

subsection \<open>The count is the number of transactions\<close>

text \<open>
  The text MySQL prints for \<open>gtid_executed\<close> names every transaction once. For such a text the
  counter is the cardinality of the denoted set, as a \<open>uint64\<close>.
\<close>

definition gtid_tokens :: "string \<Rightarrow> (string \<times> string) list" where
  "gtid_tokens s = concat (map (\<lambda>source.
     (let parts = split_on (CHR '':'') (trim_space source) in map (Pair (to_lower (hd parts))) (tl parts)))
     (split_on (CHR '','') s))"

definition token_txns :: "string \<times> string \<Rightarrow> (string \<times> 64 word) set" where
  "token_txns tok = {fst tok} \<times> (case parse_interval (snd tok) of None \<Rightarrow> {} | Some iv \<Rightarrow> iv_set iv)"

definition piece_clean :: "string \<Rightarrow> bool" where
  "piece_clean raw \<longleftrightarrow>
     (let bounds = split_n2 (CHR ''-'') raw in
      parse_uint64 (bounds ! 0) \<noteq> None \<longrightarrow> length bounds = 2 \<longrightarrow> parse_uint64 (bounds ! 1) \<noteq> None)"

definition names_once :: "string \<Rightarrow> bool" where
  "names_once s \<longleftrightarrow> list_all (\<lambda>tok. piece_clean (snd tok)) (gtid_tokens s) \<and>
     sorted_wrt (\<lambda>p q. token_txns p \<inter> token_txns q = {}) (gtid_tokens s)"

lemma gtid_txns_tokens: "gtid_txns s = (\<Union>tok \<in> set (gtid_tokens s). token_txns tok)"
  by (auto simp: gtid_txns_def gtid_tokens_def source_txns_def pieces_txns_def token_txns_def Let_def
      split: option.splits) fastforce+

lemma count_tokens: "gtidTransactionCount s = sum_list (map (\<lambda>tok. piece_count (snd tok)) (gtid_tokens s))"
  by (simp add: gtidTransactionCount_def gtid_tokens_def Let_def comp_def sum_list_map_concat)

lemma card_word_interval:
  assumes "(a :: 64 word) \<le> b"
  shows "card {a..b} = unat b - unat a + 1"
proof -
  have "unat ` {a..b} = {unat a..unat b}"
  proof
    show "{unat a..unat b} \<subseteq> unat ` {a..b}"
    proof
      fix n assume n: "n \<in> {unat a..unat b}"
      then have "n < 2 ^ 64" using unsigned_less [of b, where ?'a = nat] by simp
      then have "unat (of_nat n :: 64 word) = n" by (simp add: unat_of_nat)
      with n show "n \<in> unat ` {a..b}"
        by (intro image_eqI [of _ _ "of_nat n"]) (simp_all add: word_le_nat_alt)
    qed
  qed (auto simp: word_le_nat_alt)
  moreover have "inj_on unat {a..b}" by (rule inj_onI) (simp add: word_unat_eq_iff)
  ultimately have "card {a..b} = card {unat a..unat b}" by (metis card_image)
  with assms show ?thesis by (simp add: word_le_nat_alt)
qed

lemma card_iv_set: "iv_start iv \<le> iv_end iv \<Longrightarrow> of_nat (card (iv_set iv)) = iv_end iv - iv_start iv + 1"
  by (simp add: iv_set_def card_word_interval word_le_nat_alt of_nat_diff)

lemma piece_count_card: "piece_clean (snd tok) \<Longrightarrow> piece_count (snd tok) = of_nat (card (token_txns tok))"
  by (auto simp: piece_clean_def piece_count_def token_txns_def parse_interval_def Let_def card_cartesian_product
      card_iv_set not_less not_le split: option.splits)

lemma card_disjoint_list:
  "sorted_wrt (\<lambda>p q. f p \<inter> f q = {}) xs \<Longrightarrow> \<forall>x \<in> set xs. finite (f x) \<Longrightarrow>
   card (\<Union>x \<in> set xs. f x) = sum_list (map (\<lambda>x. card (f x)) xs)"
proof (induction xs)
  case (Cons x xs)
  then have "f x \<inter> (\<Union>y \<in> set xs. f y) = {}" by auto
  with Cons show ?case by (simp add: card_Un_disjoint)
qed simp

lemma finite_token_txns: "finite (token_txns tok)"
  by (auto simp: token_txns_def iv_set_def split: option.splits)

lemma of_nat_sum_list_map:
  "sum_list (map (\<lambda>x. of_nat (f x)) xs) = (of_nat (sum_list (map f xs)) :: 64 word)"
  by (induction xs) auto

text \<open>\<open>gtidTransactionCount\<close> is the number of transactions the text denotes (as a \<open>uint64\<close>) whenever the
  text names each of them once, as the server prints \<open>gtid_executed\<close>.\<close>

theorem gtid_count_card:
  assumes "names_once s"
  shows "gtidTransactionCount s = of_nat (card (gtid_txns s))"
proof -
  have "gtidTransactionCount s = sum_list (map (\<lambda>tok. of_nat (card (token_txns tok))) (gtid_tokens s))"
    using assms unfolding count_tokens
    by (intro arg_cong [where f = sum_list] map_cong) (auto simp: names_once_def list_all_iff piece_count_card)
  also have "\<dots> = of_nat (sum_list (map (\<lambda>tok. card (token_txns tok)) (gtid_tokens s)))"
    by (rule of_nat_sum_list_map)
  also have "\<dots> = of_nat (card (gtid_txns s))"
    using assms by (simp add: gtid_txns_tokens card_disjoint_list names_once_def finite_token_txns)
  finally show ?thesis .
qed

theorem gtid_count_card_witness:
  "names_once ''a:5,b:5'' \<and> gtidTransactionCount ''a:5,b:5'' = of_nat (card (gtid_txns ''a:5,b:5''))"
proof -
  have "gtid_tokens ''a:5,b:5'' = [(''a'', ''5''), (''b'', ''5'')]" by code_simp
  moreover have "piece_clean ''5''" by code_simp
  ultimately have "names_once ''a:5,b:5''" by (auto simp: names_once_def token_txns_def)
  with gtid_count_card show ?thesis by blast
qed

end
