(* ===== verification/HA_Domain.thy ===== *)
theory HA_Domain
  imports GM_Prelude
begin

text \<open>
  The data of the high-availability domain: \<open>internal/domain/ha\<close> (constants, policies, VIP
  configuration and binding state, failover event, candidate score, architecture request, plan and
  run), the machine of \<open>internal/domain/machine\<close> and the instance of \<open>internal/mysql/instance.go\<close>.
  Each Go struct is a record with the fields of the source in the order of the source; a Go string
  constant is an abbreviation of its text, since the source compares such fields with arbitrary
  stored strings. A \<open>map[string]string\<close> is an association list.
\<close>

subsection \<open>Constants\<close>

abbreviation DefaultFailoverMode :: string where "DefaultFailoverMode \<equiv> ''safe''"
abbreviation DefaultSwitchStrategy :: string where "DefaultSwitchStrategy \<equiv> ''safe-wait-replay-auto''"
abbreviation VipRouteModeL2ARP :: string where "VipRouteModeL2ARP \<equiv> ''L2_ARP''"
abbreviation VipRouteModeManual :: string where "VipRouteModeManual \<equiv> ''MANUAL''"
abbreviation VipRouteModeBGP :: string where "VipRouteModeBGP \<equiv> ''BGP''"
abbreviation VipRouteModeCloudAPI :: string where "VipRouteModeCloudAPI \<equiv> ''CLOUD_API''"

abbreviation VipStatusUnknown :: string where "VipStatusUnknown \<equiv> ''UNKNOWN''"
abbreviation VipStatusUnbound :: string where "VipStatusUnbound \<equiv> ''UNBOUND''"
abbreviation VipStatusBound :: string where "VipStatusBound \<equiv> ''BOUND''"
abbreviation VipStatusConflict :: string where "VipStatusConflict \<equiv> ''CONFLICT''"
abbreviation VipStatusMismatch :: string where "VipStatusMismatch \<equiv> ''MISMATCH''"
abbreviation VipStatusFailed :: string where "VipStatusFailed \<equiv> ''FAILED''"

abbreviation FailoverStatusInit :: string where "FailoverStatusInit \<equiv> ''INIT''"
abbreviation FailoverStatusAcquireLock :: string where "FailoverStatusAcquireLock \<equiv> ''ACQUIRE_FAILOVER_LOCK''"
abbreviation FailoverStatusFenceOldMaster :: string where "FailoverStatusFenceOldMaster \<equiv> ''FENCE_OLD_MASTER''"
abbreviation FailoverStatusDone :: string where "FailoverStatusDone \<equiv> ''DONE''"
abbreviation FailoverStatusFailed :: string where "FailoverStatusFailed \<equiv> ''FAILED''"

abbreviation ArchitectureStandalone :: string where "ArchitectureStandalone \<equiv> ''standalone''"
abbreviation ArchitectureMasterSlave :: string where "ArchitectureMasterSlave \<equiv> ''master_slave''"
abbreviation ArchitectureDualMaster :: string where "ArchitectureDualMaster \<equiv> ''dual_master''"
abbreviation ArchitectureMultiMaster :: string where "ArchitectureMultiMaster \<equiv> ''multi_master''"

abbreviation ArchitectureRunPending :: string where "ArchitectureRunPending \<equiv> ''pending''"
abbreviation ArchitectureRunRunning :: string where "ArchitectureRunRunning \<equiv> ''running''"
abbreviation ArchitectureRunWaitingForce :: string where "ArchitectureRunWaitingForce \<equiv> ''waiting_force_confirmation''"
abbreviation ArchitectureRunSucceeded :: string where "ArchitectureRunSucceeded \<equiv> ''success''"
abbreviation ArchitectureRunFailed :: string where "ArchitectureRunFailed \<equiv> ''failed''"

abbreviation StatusRunning :: string where "StatusRunning \<equiv> ''running''"

subsection \<open>Machines and instances\<close>

record machine =
  mach_ID :: string
  mach_Name :: string
  mach_IP :: string
  mach_SSHPort :: int
  mach_SSHUser :: string
  mach_CredentialID :: string
  mach_Cluster :: string
  mach_AgentInstallDir :: string
  mach_Status :: string
  mach_LastError :: string
  mach_CreatedAt :: go_time
  mach_UpdatedAt :: go_time

text \<open>The zero value of the struct: what a Go map lookup of an absent key returns.\<close>

definition no_machine :: machine where
  "no_machine = \<lparr>mach_ID = [], mach_Name = [], mach_IP = [], mach_SSHPort = 0, mach_SSHUser = [],
     mach_CredentialID = [], mach_Cluster = [], mach_AgentInstallDir = [], mach_Status = [],
     mach_LastError = [], mach_CreatedAt = 0, mach_UpdatedAt = 0\<rparr>"

record instance_rec =
  inst_MachineID :: string
  inst_Port :: int
  inst_ServerID :: int
  inst_MySQLUser :: string
  inst_InstanceDir :: string
  inst_DataDir :: string
  inst_BinlogDir :: string
  inst_RedoDir :: string
  inst_UndoDir :: string
  inst_TmpDir :: string
  inst_BaseDir :: string
  inst_Profile :: string
  inst_PackageName :: string
  inst_Version :: string
  inst_Architecture :: string
  inst_SystemdUnit :: string
  inst_MyCnfPath :: string
  inst_SocketPath :: string
  inst_Status :: string
  inst_LastTaskID :: string
  inst_UpdatedAt :: go_time

subsection \<open>VIP configuration and binding state\<close>

record vip_config =
  vc_ID :: int
  vc_ClusterID :: string
  vc_VIPName :: string
  vc_VIPAddress :: string
  vc_VIPPrefix :: int
  vc_VIPRouteMode :: string
  vc_VIPManageMode :: string
  vc_DefaultInterface :: string
  vc_AllowManualAdopt :: bool
  vc_PreemptEnabled :: bool
  vc_ArpingEnabled :: bool
  vc_ArpingCount :: int
  vc_CheckAfterBind :: bool
  vc_ExternalCheckEnabled :: bool
  vc_BGPEnabled :: bool
  vc_BGPLocalAS :: int
  vc_BGPPeerAS :: int
  vc_BGPPeerAddress :: string
  vc_BGPRouterID :: string
  vc_BGPCommunity :: string
  vc_Enabled :: bool
  vc_CreatedAt :: go_time
  vc_UpdatedAt :: go_time

definition no_config :: vip_config where
  "no_config = \<lparr>vc_ID = 0, vc_ClusterID = [], vc_VIPName = [], vc_VIPAddress = [], vc_VIPPrefix = 0,
     vc_VIPRouteMode = [], vc_VIPManageMode = [], vc_DefaultInterface = [], vc_AllowManualAdopt = False,
     vc_PreemptEnabled = False, vc_ArpingEnabled = False, vc_ArpingCount = 0, vc_CheckAfterBind = False,
     vc_ExternalCheckEnabled = False, vc_BGPEnabled = False, vc_BGPLocalAS = 0, vc_BGPPeerAS = 0,
     vc_BGPPeerAddress = [], vc_BGPRouterID = [], vc_BGPCommunity = [], vc_Enabled = False,
     vc_CreatedAt = 0, vc_UpdatedAt = 0\<rparr>"

record vip_binding =
  vb_TaskID :: string
  vb_ID :: int
  vb_ClusterID :: string
  vb_VIPConfigID :: int
  vb_VIPAddress :: string
  vb_ExpectedHolderInstanceID :: string
  vb_ExpectedHolderMachineID :: string
  vb_CurrentHolderInstanceID :: string
  vb_CurrentHolderMachineID :: string
  vb_CurrentInterface :: string
  vb_VIPStatus :: string
  vb_DetectedHolders :: string
  vb_LastCheckResult :: string
  vb_LastError :: string
  vb_CreatedAt :: go_time
  vb_UpdatedAt :: go_time

definition no_binding :: vip_binding where
  "no_binding = \<lparr>vb_TaskID = [], vb_ID = 0, vb_ClusterID = [], vb_VIPConfigID = 0, vb_VIPAddress = [],
     vb_ExpectedHolderInstanceID = [], vb_ExpectedHolderMachineID = [], vb_CurrentHolderInstanceID = [],
     vb_CurrentHolderMachineID = [], vb_CurrentInterface = [], vb_VIPStatus = [], vb_DetectedHolders = [],
     vb_LastCheckResult = [], vb_LastError = [], vb_CreatedAt = 0, vb_UpdatedAt = 0\<rparr>"

record net_iface =
  ni_MachineID :: string
  ni_InterfaceName :: string
  ni_MACAddress :: string
  ni_IPv4Addresses :: string
  ni_IPv6Addresses :: string
  ni_NetworkRole :: string
  ni_IsUp :: bool
  ni_MTU :: int
  ni_SpeedMbps :: int
  ni_Gateway :: string
  ni_VLANID :: string
  ni_SubnetCIDR :: string
  ni_CanBindVIP :: bool
  ni_VIPBindPriority :: int

subsection \<open>Policies and the failover event\<close>

record failover_policy =
  fp_ClusterID :: string
  fp_FailoverMode :: string
  fp_SwitchStrategy :: string
  fp_AutoFailoverEnabled :: bool
  fp_WaitRelayReplayEnabled :: bool
  fp_WaitRelayReplayTimeoutSeconds :: int
  fp_RequireDelayZeroBeforePromote :: bool
  fp_MaxAllowedDelaySeconds :: int
  fp_ReselectCandidateAfterReplay :: bool
  fp_RequireOldMasterFence :: bool
  fp_BinlogRescueEnabled :: bool
  fp_BinlogRescueTimeoutSeconds :: int
  fp_AllowDataLoss :: bool
  fp_StopOnBinlogRescueFailure :: bool

record network_policy =
  np_ClusterID :: string
  np_NetworkTopology :: string
  np_VIPRouteMode :: string
  np_RequireSameSubnetForL2VIP :: bool
  np_AllowMultiNIC :: bool
  np_AutoDetectVIPInterface :: bool
  np_BusinessNetworkCIDR :: string
  np_ReplicationNetworkCIDR :: string
  np_ManagementNetworkCIDR :: string

record failover_event =
  fe_FailoverID :: string
  fe_ClusterID :: string
  fe_OldMasterInstanceID :: string
  fe_OldMasterMachineID :: string
  fe_OldMasterIP :: string
  fe_FirstCandidateInstanceID :: string
  fe_FirstCandidateMachineID :: string
  fe_FinalNewMasterInstanceID :: string
  fe_FinalNewMasterMachineID :: string
  fe_FinalNewMasterIP :: string
  fe_Mode :: string
  fe_SwitchStrategy :: string
  fe_Status :: string
  fe_Reason :: string
  fe_RiskLevel :: string
  fe_RiskSummary :: string
  fe_OldMasterFenced :: bool
  fe_RelayReplayWaited :: bool
  fe_RelayReplaySuccess :: bool
  fe_BinlogRescueAttempted :: bool
  fe_BinlogRescueSuccess :: bool
  fe_VIPMoved :: bool
  fe_StartedAt :: go_time
  fe_UpdatedAt :: go_time
  fe_FinishedAt :: go_time

definition no_event :: failover_event where
  "no_event = \<lparr>fe_FailoverID = [], fe_ClusterID = [], fe_OldMasterInstanceID = [], fe_OldMasterMachineID = [],
     fe_OldMasterIP = [], fe_FirstCandidateInstanceID = [], fe_FirstCandidateMachineID = [],
     fe_FinalNewMasterInstanceID = [], fe_FinalNewMasterMachineID = [], fe_FinalNewMasterIP = [],
     fe_Mode = [], fe_SwitchStrategy = [], fe_Status = [], fe_Reason = [], fe_RiskLevel = [],
     fe_RiskSummary = [], fe_OldMasterFenced = False, fe_RelayReplayWaited = False,
     fe_RelayReplaySuccess = False, fe_BinlogRescueAttempted = False, fe_BinlogRescueSuccess = False,
     fe_VIPMoved = False, fe_StartedAt = 0, fe_UpdatedAt = 0, fe_FinishedAt = 0\<rparr>"

subsection \<open>Candidate scores\<close>

record candidate =
  cs_ClusterID :: string
  cs_InstanceID :: string
  cs_MachineID :: string
  cs_Hostname :: string
  cs_IP :: string
  cs_Port :: int
  cs_Eligible :: bool
  cs_RejectReasons :: "string list"
  cs_DataFreshnessScore :: int
  cs_RelayReceivedScore :: int
  cs_RelayExecutedScore :: int
  cs_DelaySeconds :: int
  cs_ElectionPriority :: int
  cs_HealthScore :: int
  cs_RiskPenalty :: int
  cs_FinalScore :: int
  cs_GTIDMode :: bool
  cs_ExecutedGTIDSet :: string
  cs_RetrievedGTIDSet :: string
  cs_MissingGTIDSet :: string
  cs_RelayMasterLogFile :: string
  cs_ExecMasterLogPos :: int
  cs_ReadMasterLogPos :: int
  cs_NeedRelayReplay :: bool
  cs_CanBindVIP :: bool
  cs_VIPInterface :: string

definition no_candidate :: candidate where
  "no_candidate = \<lparr>cs_ClusterID = [], cs_InstanceID = [], cs_MachineID = [], cs_Hostname = [], cs_IP = [],
     cs_Port = 0, cs_Eligible = False, cs_RejectReasons = [], cs_DataFreshnessScore = 0,
     cs_RelayReceivedScore = 0, cs_RelayExecutedScore = 0, cs_DelaySeconds = 0, cs_ElectionPriority = 0,
     cs_HealthScore = 0, cs_RiskPenalty = 0, cs_FinalScore = 0, cs_GTIDMode = False,
     cs_ExecutedGTIDSet = [], cs_RetrievedGTIDSet = [], cs_MissingGTIDSet = [], cs_RelayMasterLogFile = [],
     cs_ExecMasterLogPos = 0, cs_ReadMasterLogPos = 0, cs_NeedRelayReplay = False, cs_CanBindVIP = False,
     cs_VIPInterface = []\<rparr>"

subsection \<open>Architecture adjustment: request and plan\<close>

record arch_node =
  an_MachineID :: string
  an_Port :: int
  an_Role :: string
  an_SourceMachineID :: string
  an_DelaySeconds :: int
  an_ElectionPriority :: int

record arch_request =
  ar_Architecture :: string
  ar_CurrentArchitecture :: string
  ar_CurrentMasterMachineID :: string
  ar_PreferredNewMasterMachineID :: string
  ar_MoveVIP :: bool
  ar_InitializeVIP :: bool
  ar_VIPOnly :: bool
  ar_ForceAfterTimeout :: bool
  ar_ManagementUsers :: "string list"
  ar_RootPassword :: string
  ar_RootPasswords :: "(string \<times> string) list"
  ar_MaintenanceDetachedMachineIDs :: "string list"
  ar_ReplicationUser :: string
  ar_ReplicationPassword :: string
  ar_Nodes :: "arch_node list"

text \<open>The display texts \<open>Name\<close> and \<open>Description\<close> of a plan step are Chinese labels and are left out.\<close>

record plan_step =
  ps_Order :: nat
  ps_Code :: string
  ps_Destructive :: bool
  ps_RequiresConfirmation :: bool

record arch_plan =
  pl_PlanID :: string
  pl_ClusterID :: string
  pl_Architecture :: string
  pl_SelectedCandidate :: candidate
  pl_RankedCandidates :: "candidate list"
  pl_Steps :: "plan_step list"
  pl_VIPRouteMode :: string
  pl_VIPAddresses :: "string list"
  pl_WaitDelayTimeoutSeconds :: int
  pl_RequiresForceConfirmation :: bool
  pl_Executable :: bool
  pl_BlockingReasons :: "string list"
  pl_Warnings :: "string list"
  pl_CreatedAt :: go_time

subsection \<open>Architecture runs\<close>

text \<open>The display name of a step result is left out; \<open>nil\<close> times are \<open>None\<close>.\<close>

record arch_step_result =
  sr_Code :: string
  sr_Status :: string
  sr_TaskIDs :: "string list"
  sr_Message :: string
  sr_StartedAt :: go_time
  sr_FinishedAt :: "go_time option"

record arch_run =
  rn_RunID :: string
  rn_ClusterID :: string
  rn_Status :: string
  rn_CurrentStep :: string
  rn_Plan :: arch_plan
  rn_Request :: arch_request
  rn_StepResults :: "arch_step_result list"
  rn_TaskIDs :: "string list"
  rn_ForceConfirmed :: bool
  rn_Error :: string
  rn_CreatedAt :: go_time
  rn_UpdatedAt :: go_time
  rn_FinishedAt :: "go_time option"

end
