(* ===== verification/HA_Lock.thy ===== *)
theory HA_Lock
  imports HA_Domain
begin

text \<open>
  The cluster-wide failover lock of \<open>internal/infrastructure/persistence/sqlite/ha_repo.go\<close>
  (\<open>AcquireFailoverLock\<close>, \<open>RenewFailoverLock\<close>, \<open>ReleaseFailoverLock\<close>): one row per cluster in the table
  \<open>failover_lock\<close>, a lease that another owner may take over once it has expired. Times in the table
  are RFC3339 texts, hence whole seconds. The contract of such a lease is the locale \<open>lease_lock\<close>; the
  mutual exclusion argument is made there once and interpreted on the table operations.
\<close>

subsection \<open>The lease contract\<close>

definition lease_live :: "int \<Rightarrow> int option \<Rightarrow> bool" where
  "lease_live t e = (case e of None \<Rightarrow> True | Some x \<Rightarrow> t < x)"

lemma lease_live_simps [simp]: "lease_live t None" "lease_live t (Some x) \<longleftrightarrow> t < x"
  by (simp_all add: lease_live_def)

text \<open>
  \<open>lease tab k\<close> is the recorded owner of \<open>k\<close> with the second its lease ends. A client's own belief is
  the deadline of its last successful acquire or renew; \<open>agrees\<close> says that a belief whose deadline
  has not passed is the recorded lease.
\<close>

locale lease_lock =
  fixes acquire :: "go_time \<Rightarrow> 'k \<Rightarrow> 'id \<Rightarrow> 'o \<Rightarrow> duration \<Rightarrow> 't \<Rightarrow> 'e + 't"
    and renew :: "go_time \<Rightarrow> 'k \<Rightarrow> 'id \<Rightarrow> duration \<Rightarrow> 't \<Rightarrow> 'e + 't"
    and release :: "'k \<Rightarrow> 'id \<Rightarrow> 't \<Rightarrow> 't"
    and lease :: "'t \<Rightarrow> 'k \<Rightarrow> ('id \<times> int option) option"
  assumes acquire_lease: "acquire t k i own ttl tab = Inr tab' \<Longrightarrow> lease tab' k = Some (i, Some (unix_sec (t + ttl)))"
    and acquire_frame: "acquire t k i own ttl tab = Inr tab' \<Longrightarrow> k' \<noteq> k \<Longrightarrow> lease tab' k' = lease tab k'"
    and acquire_blocked: "lease tab k = Some (j, e) \<Longrightarrow> lease_live (unix_sec t) e \<Longrightarrow> \<not> is_ok (acquire t k i own ttl tab)"
    and acquire_free: "(\<And>j e. lease tab k = Some (j, e) \<Longrightarrow> \<not> lease_live (unix_sec t) e) \<Longrightarrow> is_ok (acquire t k i own ttl tab)"
    and renew_owner: "renew t k i ttl tab = Inr tab' \<Longrightarrow> \<exists>e. lease tab k = Some (i, e)"
    and renew_lease: "renew t k i ttl tab = Inr tab' \<Longrightarrow> lease tab' k = Some (i, Some (unix_sec (t + ttl)))"
    and renew_frame: "renew t k i ttl tab = Inr tab' \<Longrightarrow> k' \<noteq> k \<Longrightarrow> lease tab' k' = lease tab k'"
    and release_own: "lease tab k = Some (i, e) \<Longrightarrow> lease (release k i tab) k = None"
    and release_other: "lease tab k = Some (j, e) \<Longrightarrow> j \<noteq> i \<Longrightarrow> lease (release k i tab) k = Some (j, e)"
    and release_none: "lease tab k = None \<Longrightarrow> lease (release k i tab) k = None"
    and release_frame: "k' \<noteq> k \<Longrightarrow> lease (release k i tab) k' = lease tab k'"
begin

definition agrees :: "go_time \<Rightarrow> 't \<Rightarrow> ('k \<Rightarrow> 'id \<Rightarrow> int option) \<Rightarrow> bool" where
  "agrees t tab belief \<longleftrightarrow>
     (\<forall>k i d. belief k i = Some d \<longrightarrow> unix_sec t < d \<longrightarrow> lease tab k = Some (i, Some d))"

lemma agrees_exclusive:
  assumes "agrees t tab belief"
    and "belief k i = Some d" "unix_sec t < d" "belief k j = Some d'" "unix_sec t < d'"
  shows "i = j"
  using assms unfolding agrees_def by (metis option.inject prod.inject)

lemma agrees_init: "(\<And>k i. belief k i = None) \<Longrightarrow> agrees t tab belief"
  by (simp add: agrees_def)

lemma agrees_later: "agrees t tab belief \<Longrightarrow> t \<le> t' \<Longrightarrow> agrees t' tab belief"
  unfolding agrees_def by (meson order.strict_trans1 unix_sec_mono)

lemma agrees_acquire:
  assumes ag: "agrees t tab belief" and ok: "acquire t k i own ttl tab = Inr tab'"
  shows "agrees t tab' (belief(k := (belief k)(i := Some (unix_sec (t + ttl)))))"
  unfolding agrees_def
proof (intro allI impI)
  fix k' j d
  assume b: "(belief(k := (belief k)(i := Some (unix_sec (t + ttl))))) k' j = Some d" and live: "unix_sec t < d"
  show "lease tab' k' = Some (j, Some d)"
  proof (cases "k' = k")
    case False
    with b live ag have "lease tab k' = Some (j, Some d)" by (simp add: agrees_def)
    with acquire_frame [OF ok False] show ?thesis by simp
  next
    case True
    show ?thesis
    proof (cases "j = i")
      case True
      with b \<open>k' = k\<close> acquire_lease [OF ok] show ?thesis by simp
    next
      case False
      with b live ag \<open>k' = k\<close> have "lease tab k = Some (j, Some d)" by (simp add: agrees_def)
      from acquire_blocked [OF this] live have "\<not> is_ok (acquire t k i own ttl tab)" by simp
      with ok show ?thesis by simp
    qed
  qed
qed

lemma agrees_renew:
  assumes ag: "agrees t tab belief" and ok: "renew t k i ttl tab = Inr tab'"
  shows "agrees t tab' (belief(k := (belief k)(i := Some (unix_sec (t + ttl)))))"
proof -
  obtain e where owner: "lease tab k = Some (i, e)" using renew_owner [OF ok] ..
  show ?thesis
    using ag renew_lease [OF ok] renew_frame [OF ok] owner
    unfolding agrees_def by (metis fun_upd_apply option.inject prod.inject)
qed

lemma agrees_release:
  assumes ag: "agrees t tab belief"
  shows "agrees t (release k i tab) (belief(k := (belief k)(i := None)))"
  using ag release_frame release_other
  unfolding agrees_def by (metis fun_upd_apply option.distinct(1))

text \<open>A section run between acquire and release leaves the lease free, whatever happened to the other keys.\<close>

lemma released_free:
  assumes "lease tab k = Some (i, e)"
  shows "is_ok (acquire t k j own ttl (release k i tab))"
  by (rule acquire_free) (simp add: release_own [OF assms])

end

subsection \<open>The table operations\<close>

record lock_row =
  lr_failover_id :: string
  lr_lock_owner :: string
  lr_locked_at :: int
  lr_expires_at :: "int option"

type_synonym lock_table = "string \<Rightarrow> lock_row option"

definition lock_insert :: "go_time \<Rightarrow> string \<Rightarrow> string \<Rightarrow> string \<Rightarrow> duration \<Rightarrow> lock_table \<Rightarrow> lock_table" where
  "lock_insert now cid fid own ttl tab =
     tab(cid := Some \<lparr>lr_failover_id = fid, lr_lock_owner = own, lr_locked_at = unix_sec now,
                      lr_expires_at = Some (unix_sec (now + ttl))\<rparr>)"

definition acquire_lock :: "go_time \<Rightarrow> string \<Rightarrow> string \<Rightarrow> string \<Rightarrow> duration \<Rightarrow> lock_table \<Rightarrow> lock_table result" where
  "acquire_lock now cid fid own ttl tab =
     (case tab cid of
        None \<Rightarrow> Inr (lock_insert now cid fid own ttl tab)
      | Some row \<Rightarrow>
          (case lr_expires_at row of
             None \<Rightarrow> Inl (Errorf ''failover lock for cluster %s is already held'' [cid])
           | Some e \<Rightarrow>
               if e \<le> unix_sec now then Inr (lock_insert now cid fid own ttl tab)
               else Inl (Errorf ''failover lock for cluster %s is already held'' [cid])))"

definition renew_lock :: "go_time \<Rightarrow> string \<Rightarrow> string \<Rightarrow> duration \<Rightarrow> lock_table \<Rightarrow> lock_table result" where
  "renew_lock now cid fid ttl tab =
     (case tab cid of
        Some row \<Rightarrow>
          (if lr_failover_id row = fid
           then Inr (tab(cid := Some (row\<lparr>lr_expires_at := Some (unix_sec (now + ttl))\<rparr>)))
           else Inl (Errorf ''failover lock for cluster %s is no longer owned by %s'' [cid, fid]))
      | None \<Rightarrow> Inl (Errorf ''failover lock for cluster %s is no longer owned by %s'' [cid, fid]))"

definition release_lock :: "string \<Rightarrow> string \<Rightarrow> lock_table \<Rightarrow> lock_table" where
  "release_lock cid fid tab =
     (case tab cid of
        None \<Rightarrow> tab
      | Some row \<Rightarrow> if lr_failover_id row = fid then tab(cid := None) else tab)"

definition table_lease :: "lock_table \<Rightarrow> string \<Rightarrow> (string \<times> int option) option" where
  "table_lease tab cid = map_option (\<lambda>row. (lr_failover_id row, lr_expires_at row)) (tab cid)"

lemmas lock_defs = acquire_lock_def renew_lock_def release_lock_def lock_insert_def table_lease_def lease_live_def

interpretation failover_lock: lease_lock acquire_lock renew_lock release_lock table_lease
  by unfold_locales (auto simp: lock_defs split: option.splits if_splits)

subsection \<open>Managers competing for one table\<close>

text \<open>
  Any number of executions (named by their lock id) acquire, renew and release at any time; the
  last component records for each of them the second until which its last successful call
  entitles it to act.
\<close>

inductive lock_reach :: "go_time \<Rightarrow> lock_table \<Rightarrow> (string \<Rightarrow> string \<Rightarrow> int option) \<Rightarrow> bool" where
  lock_start: "lock_reach t (\<lambda>_. None) (\<lambda>_ _. None)"
| lock_tick: "lock_reach t tab belief \<Longrightarrow> t \<le> t' \<Longrightarrow> lock_reach t' tab belief"
| lock_acquire: "lock_reach t tab belief \<Longrightarrow> acquire_lock t cid fid own ttl tab = Inr tab' \<Longrightarrow>
     lock_reach t tab' (belief(cid := (belief cid)(fid := Some (unix_sec (t + ttl)))))"
| lock_renew: "lock_reach t tab belief \<Longrightarrow> renew_lock t cid fid ttl tab = Inr tab' \<Longrightarrow>
     lock_reach t tab' (belief(cid := (belief cid)(fid := Some (unix_sec (t + ttl)))))"
| lock_release: "lock_reach t tab belief \<Longrightarrow>
     lock_reach t (release_lock cid fid tab) (belief(cid := (belief cid)(fid := None)))"

lemma lock_reach_agrees: "lock_reach t tab belief \<Longrightarrow> failover_lock.agrees t tab belief"
proof (induction rule: lock_reach.induct)
  case (lock_start t)
  show ?case by (rule failover_lock.agrees_init) simp
next
  case (lock_tick t tab belief t')
  then show ?case by (blast intro: failover_lock.agrees_later)
next
  case lock_acquire
  then show ?case by (blast intro: failover_lock.agrees_acquire)
next
  case lock_renew
  then show ?case by (blast intro: failover_lock.agrees_renew)
next
  case lock_release
  then show ?case by (blast intro: failover_lock.agrees_release)
qed

text \<open>C3: However many managers acquire, renew and release at whatever times, at no time do two different
  executions hold an unexpired lease of the same cluster.\<close>

theorem failover_lock_exclusive:
  assumes "lock_reach t tab belief"
    and "belief cid f = Some d" "unix_sec t < d"
    and "belief cid g = Some d'" "unix_sec t < d'"
  shows "f = g"
  using failover_lock.agrees_exclusive [OF lock_reach_agrees [OF assms(1)] assms(2-5)] .

theorem failover_lock_exclusive_witness:
  "\<exists>t tab belief. lock_reach t tab belief \<and> belief ''c1'' ''op-1'' = Some 300 \<and> unix_sec t < 300 \<and>
     (\<forall>g d. belief ''c1'' g = Some d \<and> unix_sec t < d \<longrightarrow> g = ''op-1'')"
proof -
  define tab where "tab = lock_insert 0 ''c1'' ''op-1'' ''gmha-manager'' (300 * second) (\<lambda>_. None)"
  define belief where "belief = (\<lambda>_ _. None)(''c1'' := (\<lambda>_. None)(''op-1'' := Some (unix_sec (0 + 300 * second))))"
  have "acquire_lock 0 ''c1'' ''op-1'' ''gmha-manager'' (300 * second) (\<lambda>_. None) = Inr tab"
    by (simp add: acquire_lock_def tab_def)
  from lock_acquire [OF lock_start this] have reach: "lock_reach 0 tab belief"
    unfolding belief_def by simp
  have mine: "belief ''c1'' ''op-1'' = Some 300" and now: "unix_sec 0 < 300"
    by (simp_all add: belief_def unix_sec_def)
  have "\<forall>g d. belief ''c1'' g = Some d \<and> unix_sec 0 < d \<longrightarrow> g = ''op-1''"
    using failover_lock_exclusive [OF reach _ _ mine now] by blast
  with reach mine now show ?thesis by blast
qed

end
