(* ===== verification/Candidate_Selection.thy ===== *)
theory Candidate_Selection
  imports HA_Domain Gtid_Set
begin

text \<open>
  The offline choice of a new master in \<open>internal/app/ha_service.go\<close>: \<open>BuildScoresFromInstances\<close>,
  \<open>CandidateSelector.Select\<close> and the replay check \<open>RelayReplayComplete\<close>. A Go map from machine ids to
  machines is a partial function; its lookup of an absent key is the zero machine. The scores, Go ints, are
  unbounded integers: only priorities and delays near the limits of 64 bits would wrap.
\<close>

subsection \<open>Scores of the registered instances\<close>

definition instanceID :: "instance_rec \<Rightarrow> string" where
  "instanceID inst = sprintf ''%s:%d'' [inst_MachineID inst, show_int (inst_Port inst)]"

definition server_id_count :: "instance_rec list \<Rightarrow> int \<Rightarrow> nat" where
  "server_id_count instances sid = length (filter (\<lambda>i. inst_ServerID i = sid) instances)"

definition build_score ::
  "string \<Rightarrow> instance_rec list \<Rightarrow> (string \<Rightarrow> machine option) \<Rightarrow> string \<Rightarrow> instance_rec \<Rightarrow> candidate" where
  "build_score clusterID instances machines old inst =
     (let m = map_get no_machine machines (inst_MachineID inst);
          score = no_candidate\<lparr>cs_ClusterID := clusterID, cs_InstanceID := instanceID inst,
            cs_MachineID := inst_MachineID inst, cs_Hostname := mach_Name m, cs_IP := mach_IP m,
            cs_Port := inst_Port inst, cs_Eligible := True, cs_DataFreshnessScore := 100,
            cs_RelayReceivedScore := 100, cs_RelayExecutedScore := 100, cs_HealthScore := 100,
            cs_CanBindVIP := True\<rparr>;
          score = (if inst_MachineID inst = old
                   then score\<lparr>cs_Eligible := False,
                              cs_RejectReasons := cs_RejectReasons score @ [''candidate is old master'']\<rparr>
                   else score)
      in if server_id_count instances (inst_ServerID inst) > 1
         then score\<lparr>cs_Eligible := False,
                    cs_RejectReasons := cs_RejectReasons score @ [''server_id is not unique'']\<rparr>
         else score)"

definition BuildScoresFromInstances ::
  "string \<Rightarrow> instance_rec list \<Rightarrow> (string \<Rightarrow> machine option) \<Rightarrow> string \<Rightarrow> candidate list" where
  "BuildScoresFromInstances clusterID instances machines old =
     map (build_score clusterID instances machines old) instances"

lemma build_score_fields [simp]:
  "cs_MachineID (build_score c is ms old i) = inst_MachineID i"
  "cs_Port (build_score c is ms old i) = inst_Port i"
  "cs_InstanceID (build_score c is ms old i) = instanceID i"
  "cs_Eligible (build_score c is ms old i) \<longleftrightarrow> inst_MachineID i \<noteq> old \<and> server_id_count is (inst_ServerID i) \<le> 1"
  "cs_RejectReasons (build_score c is ms old i) =
     (if inst_MachineID i = old then [''candidate is old master''] else []) @
     (if server_id_count is (inst_ServerID i) > 1 then [''server_id is not unique''] else [])"
  by (simp_all add: build_score_def Let_def no_candidate_def)

lemma server_id_count_unique:
  assumes "server_id_count xs (inst_ServerID i) \<le> 1"
    and "a < length xs" "b < length xs"
    and "inst_ServerID (xs ! a) = inst_ServerID i" "inst_ServerID (xs ! b) = inst_ServerID i"
  shows "a = b"
proof (rule ccontr)
  let ?S = "{k. k < length xs \<and> inst_ServerID (xs ! k) = inst_ServerID i}"
  assume "a \<noteq> b"
  then have "card {a, b} = 2" by simp
  moreover have "card {a, b} \<le> card ?S"
    by (rule card_mono) (use assms in auto)
  ultimately show False
    using assms(1) by (simp add: server_id_count_def length_filter_conv_card)
qed

subsection \<open>Ranking\<close>

definition with_final_score :: "candidate \<Rightarrow> candidate" where
  "with_final_score c =
     (if \<not> cs_Eligible c then c\<lparr>cs_FinalScore := -1000000\<rparr>
      else
        let dataScore = cs_DataFreshnessScore c * 100000 + cs_RelayReceivedScore c * 1000 + cs_RelayExecutedScore c;
            delayPenalty = cs_DelaySeconds c * 100;
            delayPenalty = (if cs_NeedRelayReplay c then delayPenalty + 50 else delayPenalty)
        in c\<lparr>cs_FinalScore := dataScore + cs_ElectionPriority c + cs_HealthScore c - cs_RiskPenalty c - delayPenalty\<rparr>)"

definition ranks_before :: "candidate \<Rightarrow> candidate \<Rightarrow> bool" where
  "ranks_before a b =
     (if cs_Eligible a \<noteq> cs_Eligible b then cs_Eligible a
      else if cs_DataFreshnessScore a \<noteq> cs_DataFreshnessScore b
           then cs_DataFreshnessScore a > cs_DataFreshnessScore b
      else if cs_RelayReceivedScore a \<noteq> cs_RelayReceivedScore b
           then cs_RelayReceivedScore a > cs_RelayReceivedScore b
      else if cs_RelayExecutedScore a \<noteq> cs_RelayExecutedScore b
           then cs_RelayExecutedScore a > cs_RelayExecutedScore b
      else if cs_DelaySeconds a \<noteq> cs_DelaySeconds b then cs_DelaySeconds a < cs_DelaySeconds b
      else cs_FinalScore a > cs_FinalScore b)"

interpretation candidate_order: weak_order ranks_before
  by unfold_locales (auto simp: ranks_before_def split: if_splits)

text \<open>The three results of the Go function: the winner (zero on error), the ranking, and the error.\<close>

definition Select_candidate :: "candidate list \<Rightarrow> candidate \<times> candidate list \<times> go_error option" where
  "Select_candidate scores =
     (let ranked = stable_sort ranks_before (map with_final_score scores)
      in if ranked = [] \<or> \<not> cs_Eligible (hd ranked)
         then (no_candidate, ranked, Some (Error ''no eligible candidate''))
         else (hd ranked, ranked, None))"

lemma with_final_score_keeps [simp]:
  "cs_Eligible (with_final_score c) = cs_Eligible c"
  "cs_MachineID (with_final_score c) = cs_MachineID c"
  "cs_Port (with_final_score c) = cs_Port c"
  "cs_InstanceID (with_final_score c) = cs_InstanceID c"
  "cs_DataFreshnessScore (with_final_score c) = cs_DataFreshnessScore c"
  "cs_RelayReceivedScore (with_final_score c) = cs_RelayReceivedScore c"
  "cs_RelayExecutedScore (with_final_score c) = cs_RelayExecutedScore c"
  "cs_DelaySeconds (with_final_score c) = cs_DelaySeconds c"
  "cs_NeedRelayReplay (with_final_score c) = cs_NeedRelayReplay c"
  by (simp_all add: with_final_score_def Let_def)

lemma Select_candidate_ranked: "fst (snd (Select_candidate scores)) = stable_sort ranks_before (map with_final_score scores)"
  by (simp add: Select_candidate_def Let_def)

lemma eligible_ranks_first:
  "cs_Eligible a \<Longrightarrow> \<not> ranks_before a b \<Longrightarrow> cs_Eligible b"
  by (auto simp: ranks_before_def split: if_splits)

lemma Select_candidate_error_iff:
  "snd (snd (Select_candidate scores)) \<noteq> None \<longleftrightarrow> (\<forall>c \<in> set scores. \<not> cs_Eligible c)"
proof
  assume err: "snd (snd (Select_candidate scores)) \<noteq> None"
  let ?r = "stable_sort ranks_before (map with_final_score scores)"
  show "\<forall>c \<in> set scores. \<not> cs_Eligible c"
  proof
    fix c assume c: "c \<in> set scores"
    then have "?r \<noteq> []" by auto
    with err have head: "\<not> cs_Eligible (hd ?r)"
      by (simp add: Select_candidate_def Let_def split: if_splits)
    have "\<not> ranks_before (with_final_score c) (hd ?r)"
      using c by (intro candidate_order.hd_stable_sort_least) auto
    with head show "\<not> cs_Eligible c" by (metis eligible_ranks_first with_final_score_keeps(1))
  qed
next
  assume none: "\<forall>c \<in> set scores. \<not> cs_Eligible c"
  let ?r = "stable_sort ranks_before (map with_final_score scores)"
  have "?r \<noteq> [] \<Longrightarrow> hd ?r \<in> set ?r" by (rule hd_in_set)
  then have "?r = [] \<or> \<not> cs_Eligible (hd ?r)" using none by auto
  then show "snd (snd (Select_candidate scores)) \<noteq> None"
    unfolding Select_candidate_def Let_def by simp
qed

lemma select_winner:
  assumes "Select_candidate scores = (best, ranked, None)"
  shows "cs_Eligible best" "best \<in> with_final_score ` set scores"
    "d \<in> set scores \<Longrightarrow> \<not> ranks_before (with_final_score d) best"
proof -
  let ?r = "stable_sort ranks_before (map with_final_score scores)"
  from assms have ok: "?r \<noteq> []" "cs_Eligible (hd ?r)" "best = hd ?r"
    by (auto simp add: Select_candidate_def Let_def split: if_splits)
  then show "cs_Eligible best" by simp
  have "hd ?r \<in> set ?r" using ok(1) by (rule hd_in_set)
  then show "best \<in> with_final_score ` set scores" using ok(3) by simp
  show "\<not> ranks_before (with_final_score d) best" if "d \<in> set scores"
    unfolding ok(3) by (rule candidate_order.hd_stable_sort_least) (use that in auto)
qed

text \<open>C1: \<open>CandidateSelector.Select\<close> reports no error exactly when some candidate is eligible; its
  winner is then eligible, carries the scores of one of the inputs, and no candidate of the input
  ranks before it in the order freshness, received relay, executed relay, delay, final score.\<close>

theorem select_candidate_best:
  assumes "c \<in> set scores" and "cs_Eligible c"
  shows "\<exists>best ranked. Select_candidate scores = (best, ranked, None) \<and>
           cs_Eligible best \<and> best \<in> with_final_score ` set scores \<and>
           (\<forall>d \<in> set scores. \<not> ranks_before (with_final_score d) best) \<and>
           mset ranked = mset (map with_final_score scores) \<and>
           sorted_wrt (\<lambda>a b. \<not> ranks_before b a) ranked"
proof -
  let ?r = "stable_sort ranks_before (map with_final_score scores)"
  have "\<not> (\<forall>c \<in> set scores. \<not> cs_Eligible c)" using assms by blast
  then have "snd (snd (Select_candidate scores)) = None"
    using Select_candidate_error_iff by blast
  then have ok: "?r \<noteq> [] \<and> cs_Eligible (hd ?r)" and res: "Select_candidate scores = (hd ?r, ?r, None)"
    by (simp_all add: Select_candidate_def Let_def split: if_splits)
  have best: "\<forall>d \<in> set scores. \<not> ranks_before (with_final_score d) (hd ?r)"
  proof
    fix d assume "d \<in> set scores"
    then show "\<not> ranks_before (with_final_score d) (hd ?r)"
      by (intro candidate_order.hd_stable_sort_least) simp
  qed
  have "hd ?r \<in> set ?r" using ok by (intro hd_in_set) blast
  then have "hd ?r \<in> with_final_score ` set scores" by simp
  with ok best show ?thesis
    unfolding res by (intro exI conjI) (auto simp: candidate_order.sorted_stable_sort mset_stable_sort)
qed

theorem select_candidate_best_witness:
  "\<exists>best ranked. Select_candidate [no_candidate, no_candidate\<lparr>cs_Eligible := True, cs_DelaySeconds := 3\<rparr>] = (best, ranked, None)"
  using select_candidate_best
    [of "no_candidate\<lparr>cs_Eligible := True, cs_DelaySeconds := 3\<rparr>"
        "[no_candidate, no_candidate\<lparr>cs_Eligible := True, cs_DelaySeconds := 3\<rparr>]"] by auto

text \<open>C25: The candidate chosen for a failover from the registered instances is never the old master,
  and no other registered instance has its server id.\<close>

theorem built_choice_safe:
  assumes "Select_candidate (BuildScoresFromInstances cid instances machines old) = (best, ranked, None)"
  shows "cs_MachineID best \<noteq> old \<and>
         (\<exists>k < length instances. cs_InstanceID best = instanceID (instances ! k) \<and>
            cs_MachineID best = inst_MachineID (instances ! k) \<and>
            (\<forall>j < length instances. inst_ServerID (instances ! j) = inst_ServerID (instances ! k) \<longrightarrow> j = k))"
proof -
  obtain i where i: "i \<in> set instances"
    and b: "best = with_final_score (build_score cid instances machines old i)"
    using select_winner(2) [OF assms] by (auto simp: BuildScoresFromInstances_def)
  from select_winner(1) [OF assms] b have "cs_Eligible (with_final_score (build_score cid instances machines old i))" by metis
  then have elig: "inst_MachineID i \<noteq> old" "server_id_count instances (inst_ServerID i) \<le> 1"
    by simp_all
  from i obtain k where k: "k < length instances" "instances ! k = i" by (auto simp: in_set_conv_nth)
  with elig have "\<forall>j < length instances. inst_ServerID (instances ! j) = inst_ServerID (instances ! k) \<longrightarrow> j = k"
    using server_id_count_unique by blast
  moreover have "cs_MachineID best = inst_MachineID (instances ! k)" "cs_InstanceID best = instanceID (instances ! k)"
    using b k by simp_all
  ultimately show ?thesis using elig(1) k by metis
qed

definition a_running_instance :: instance_rec where
  "a_running_instance = \<lparr>inst_MachineID = ''m2'', inst_Port = 3306, inst_ServerID = 2, inst_MySQLUser = [],
     inst_InstanceDir = [], inst_DataDir = [], inst_BinlogDir = [], inst_RedoDir = [], inst_UndoDir = [],
     inst_TmpDir = [], inst_BaseDir = [], inst_Profile = [], inst_PackageName = [], inst_Version = [],
     inst_Architecture = [], inst_SystemdUnit = [], inst_MyCnfPath = [], inst_SocketPath = [],
     inst_Status = StatusRunning, inst_LastTaskID = [], inst_UpdatedAt = 0\<rparr>"

theorem built_choice_safe_witness:
  "\<exists>best ranked. Select_candidate (BuildScoresFromInstances ''c1'' [a_running_instance] (\<lambda>_. None) ''m1'') = (best, ranked, None) \<and>
     cs_MachineID best \<noteq> ''m1''"
proof -
  let ?r = "Select_candidate (BuildScoresFromInstances ''c1'' [a_running_instance] (\<lambda>_. None) ''m1'')"
  have "snd (snd ?r) = None" by code_simp
  then have run: "?r = (fst ?r, fst (snd ?r), None)" by (metis prod.collapse)
  show ?thesis using built_choice_safe [OF run] run by blast
qed

subsection \<open>Replay of the relay log\<close>

record relay_status =
  rl_SQLRunning :: bool
  rl_LastSQLError :: string
  rl_DelaySeconds :: int
  rl_GTIDMode :: bool
  rl_ExecutedGTIDSet :: string
  rl_RetrievedGTIDSet :: string
  rl_ExecMasterLogPos :: int
  rl_ReadMasterLogPos :: int

definition RelayReplayComplete :: "relay_status \<Rightarrow> go_error option" where
  "RelayReplayComplete st =
     (if \<not> rl_SQLRunning st then Some (Error ''replication SQL thread is not running'')
      else if trim_space (rl_LastSQLError st) \<noteq> [] then Some (Errorf ''replication SQL error: %s'' [rl_LastSQLError st])
      else if rl_DelaySeconds st \<noteq> 0
      then Some (Errorf ''replication delay is %d seconds'' [show_int (rl_DelaySeconds st)])
      else if rl_GTIDMode st \<and> rl_RetrievedGTIDSet st \<noteq> [] \<and> rl_ExecutedGTIDSet st \<noteq> rl_RetrievedGTIDSet st
      then Some (Error ''retrieved GTID set has not been fully executed'')
      else if \<not> rl_GTIDMode st \<and> rl_ReadMasterLogPos st > 0 \<and> rl_ExecMasterLogPos st < rl_ReadMasterLogPos st
      then Some (Errorf ''relay log not replayed: exec pos %d read pos %d''
             [show_int (rl_ExecMasterLogPos st), show_int (rl_ReadMasterLogPos st)])
      else None)"

text \<open>C34: \<open>RelayReplayComplete\<close> with GTIDs never accepts a replica that still has retrieved transactions to
  execute, but it is not complete: it compares the texts, so it refuses a replica whose executed set
  strictly contains the retrieved one.\<close>

theorem replay_check_sound_incomplete:
  "(RelayReplayComplete st = None \<and> rl_GTIDMode st \<longrightarrow>
      rl_SQLRunning st \<and> rl_DelaySeconds st = 0 \<and>
      (rl_RetrievedGTIDSet st = [] \<or> gtidSetSubset (rl_RetrievedGTIDSet st) (rl_ExecutedGTIDSet st))) \<and>
   (\<exists>late. rl_SQLRunning late \<and> rl_LastSQLError late = [] \<and> rl_DelaySeconds late = 0 \<and> rl_GTIDMode late \<and>
      gtidSetSubset (rl_RetrievedGTIDSet late) (rl_ExecutedGTIDSet late) \<and> RelayReplayComplete late \<noteq> None)"
proof
  show "RelayReplayComplete st = None \<and> rl_GTIDMode st \<longrightarrow>
      rl_SQLRunning st \<and> rl_DelaySeconds st = 0 \<and>
      (rl_RetrievedGTIDSet st = [] \<or> gtidSetSubset (rl_RetrievedGTIDSet st) (rl_ExecutedGTIDSet st))"
    by (auto simp: RelayReplayComplete_def split: if_splits)
  let ?late = "\<lparr>rl_SQLRunning = True, rl_LastSQLError = [], rl_DelaySeconds = 0, rl_GTIDMode = True,
     rl_ExecutedGTIDSet = ''u:1-5'', rl_RetrievedGTIDSet = ''u:3-5'', rl_ExecMasterLogPos = 0, rl_ReadMasterLogPos = 0\<rparr>"
  have "gtidSetSubset ''u:3-5'' ''u:1-5''" by code_simp
  then show "\<exists>late. rl_SQLRunning late \<and> rl_LastSQLError late = [] \<and> rl_DelaySeconds late = 0 \<and> rl_GTIDMode late \<and>
      gtidSetSubset (rl_RetrievedGTIDSet late) (rl_ExecutedGTIDSet late) \<and> RelayReplayComplete late \<noteq> None"
    by (intro exI [of _ ?late]) (simp add: RelayReplayComplete_def trim_space_def)
qed

theorem replay_check_sound_incomplete_witness:
  "RelayReplayComplete \<lparr>rl_SQLRunning = True, rl_LastSQLError = [], rl_DelaySeconds = 0, rl_GTIDMode = True,
     rl_ExecutedGTIDSet = ''u:1-5'', rl_RetrievedGTIDSet = ''u:1-5'', rl_ExecMasterLogPos = 0, rl_ReadMasterLogPos = 0\<rparr> = None \<and>
   gtidSetSubset ''u:1-5'' ''u:1-5''"
  using replay_check_sound_incomplete [of "\<lparr>rl_SQLRunning = True, rl_LastSQLError = [], rl_DelaySeconds = 0, rl_GTIDMode = True,
     rl_ExecutedGTIDSet = ''u:1-5'', rl_RetrievedGTIDSet = ''u:1-5'', rl_ExecMasterLogPos = 0, rl_ReadMasterLogPos = 0\<rparr>"]
  by (simp add: RelayReplayComplete_def trim_space_def)

end
