(* ===== verification/Net_IP.thy ===== *)
theory Net_IP
  imports GM_Prelude
begin

text \<open>
  The parts of Go's \<open>net\<close> package that the VIP code relies on: \<open>net.ParseIP\<close>, \<open>IP.To4\<close>,
  \<open>net.ParseCIDR\<close> and \<open>IPNet.Contains\<close>, and \<open>ipInCIDR\<close> of \<open>internal/app/ha_service.go\<close> on top of them.
  An address is its sixteen bytes; an IPv4 address is stored in the form \<open>::ffff:a.b.c.d\<close>, as in Go.
\<close>

type_synonym ip = "8 word list"

subsection \<open>Parsing\<close>

definition dec_octet :: "string \<Rightarrow> 8 word option" where
  "dec_octet s =
     (if s = [] \<or> length s > 3 \<or> \<not> list_all is_digit s \<or> (length s > 1 \<and> hd s = CHR ''0'') \<or> digits_value s > 255
      then None else Some (of_nat (digits_value s)))"

definition parse_ipv4_fields :: "string \<Rightarrow> 8 word list option" where
  "parse_ipv4_fields s =
     (let fs = map dec_octet (split_on (CHR ''.'') s)
      in if length fs = 4 \<and> (\<forall>f \<in> set fs. f \<noteq> None) then Some (map the fs) else None)"

definition v4_prefix :: ip where
  "v4_prefix = replicate 10 0 @ [0xff, 0xff]"

definition hex_value :: "char \<Rightarrow> nat option" where
  "hex_value c =
     (let n = char_code c
      in if 48 \<le> n \<and> n \<le> 57 then Some (n - 48)
         else if 97 \<le> n \<and> n \<le> 102 then Some (n - 87)
         else if 65 \<le> n \<and> n \<le> 70 then Some (n - 55)
         else None)"

fun take_hex :: "string \<Rightarrow> nat \<Rightarrow> nat \<times> nat \<times> string" where
  "take_hex [] acc = (acc, 0, [])"
| "take_hex (c # s) acc =
     (case hex_value c of
        None \<Rightarrow> (acc, 0, c # s)
      | Some d \<Rightarrow> (case take_hex s (acc * 16 + d) of (v, k, rest) \<Rightarrow> (v, Suc k, rest)))"

lemma take_hex_shorter: "take_hex s acc = (v, k, rest) \<Longrightarrow> length rest + k = length s"
  by (induction s acc arbitrary: v k rest rule: take_hex.induct) (auto split: option.splits prod.splits)

text \<open>
  The loop of \<open>netip.parseIPv6\<close>: \<open>i\<close> bytes are filled, \<open>ell\<close> is the byte position of the ellipsis once
  seen. A group has at most four hex digits; a group followed by a dot starts a trailing IPv4 address,
  which may only fill the last four bytes.
\<close>

function ipv6_loop :: "string \<Rightarrow> 8 word list \<Rightarrow> nat option \<Rightarrow> (8 word list \<times> nat option \<times> string) option" where
  "ipv6_loop s bs ell =
     (if length bs \<ge> 16 then Some (bs, ell, s)
      else
        (case take_hex s 0 of (v, k, rest) \<Rightarrow>
           if k = 0 \<or> k > 4 then None
           else if rest \<noteq> [] \<and> hd rest = CHR ''.'' then
             (if (ell = None \<and> length bs \<noteq> 12) \<or> length bs + 4 > 16 then None
              else (case parse_ipv4_fields s of
                      None \<Rightarrow> None
                    | Some q \<Rightarrow> Some (bs @ q, ell, [])))
           else
             let bs' = bs @ [of_nat (v div 256), of_nat (v mod 256)]
             in (case rest of
                   [] \<Rightarrow> Some (bs', ell, [])
                 | c # r \<Rightarrow>
                     if c \<noteq> CHR '':'' \<or> r = [] then None
                     else if hd r = CHR '':'' then
                       (if ell \<noteq> None then None
                        else if tl r = [] then Some (bs', Some (length bs'), [])
                        else ipv6_loop (tl r) bs' (Some (length bs')))
                     else ipv6_loop r bs' ell)))"
  by pat_completeness auto
termination
  by (relation "measure (\<lambda>(s, _, _). length s)") (auto dest!: take_hex_shorter [OF sym])

definition parse_ipv6 :: "string \<Rightarrow> ip option" where
  "parse_ipv6 s =
     (let start = (case s of a # b # r \<Rightarrow> if a = CHR '':'' \<and> b = CHR '':'' then Some r else None | _ \<Rightarrow> None);
          result = (case start of
                      Some r \<Rightarrow> if r = [] then Some ([], Some 0, []) else ipv6_loop r [] (Some 0)
                    | None \<Rightarrow> ipv6_loop s [] None)
      in case result of
           None \<Rightarrow> None
         | Some (bs, ell, rest) \<Rightarrow>
             if rest \<noteq> [] then None
             else if length bs < 16 then
               (case ell of
                  None \<Rightarrow> None
                | Some e \<Rightarrow> Some (take e bs @ replicate (16 - length bs) 0 @ drop e bs))
             else if ell \<noteq> None then None
             else Some bs)"

text \<open>The first dot or colon decides the family; a percent sign before both is an error.\<close>

definition ip_family :: "string \<Rightarrow> char option" where
  "ip_family s = find (\<lambda>c. c = CHR ''.'' \<or> c = CHR '':'' \<or> c = CHR ''%'') s"

definition ParseIP :: "string \<Rightarrow> ip option" where
  "ParseIP s =
     (case ip_family s of
        None \<Rightarrow> None
      | Some c \<Rightarrow>
          if c = CHR ''.'' then map_option (\<lambda>q. v4_prefix @ q) (parse_ipv4_fields s)
          else if c = CHR '':'' then parse_ipv6 s
          else None)"

definition To4 :: "ip \<Rightarrow> 8 word list option" where
  "To4 a = (if length a = 4 then Some a
            else if length a = 16 \<and> take 12 a = v4_prefix then Some (drop 12 a)
            else None)"

subsection \<open>Networks\<close>

fun cidr_mask :: "nat \<Rightarrow> nat \<Rightarrow> 8 word list" where
  "cidr_mask ones 0 = []"
| "cidr_mask ones (Suc k) =
     (if ones \<ge> 8 then 0xff # cidr_mask (ones - 8) k
      else of_nat (256 - 2 ^ (8 - ones)) # cidr_mask 0 k)"

definition mask_bytes :: "8 word list \<Rightarrow> 8 word list \<Rightarrow> 8 word list" where
  "mask_bytes a m = map2 (\<lambda>x y. and x y) a m"

definition ip_Mask :: "ip \<Rightarrow> 8 word list \<Rightarrow> 8 word list" where
  "ip_Mask a m = (if length m = 4 \<and> length a = 16 \<and> take 12 a = v4_prefix
                  then mask_bytes (drop 12 a) m else mask_bytes a m)"

definition ParseCIDR :: "string \<Rightarrow> (8 word list \<times> 8 word list) option" where
  "ParseCIDR s =
     (if CHR ''/'' \<notin> set s then None
      else
        let addr = takeWhile (\<lambda>c. c \<noteq> CHR ''/'') s;
            mlen = tl (dropWhile (\<lambda>c. c \<noteq> CHR ''/'') s)
        in case ParseIP addr of
             None \<Rightarrow> None
           | Some a \<Rightarrow>
               let bitlen = (if ip_family addr = Some (CHR ''.'') then 32 else 128 :: nat)
               in if mlen = [] \<or> \<not> list_all is_digit mlen \<or> digits_value mlen > bitlen then None
                  else let m = cidr_mask (digits_value mlen) (bitlen div 8)
                       in Some (ip_Mask a m, m))"

definition IPNet_Contains :: "8 word list \<times> 8 word list \<Rightarrow> ip \<Rightarrow> bool" where
  "IPNet_Contains n a =
     (case n of (number, nm) \<Rightarrow>
        let nn = (case To4 number of Some q \<Rightarrow> q | None \<Rightarrow> number);
            m = (if length nm = 16 \<and> length nn = 4 then drop 12 nm else nm);
            x = (case To4 a of Some q \<Rightarrow> q | None \<Rightarrow> a)
        in length m = length nn \<and> length x = length nn \<and> mask_bytes nn m = mask_bytes x m)"

definition ipInCIDR :: "string \<Rightarrow> string \<Rightarrow> bool" where
  "ipInCIDR ipValue cidr =
     (case ParseIP (trim_space ipValue) of
        None \<Rightarrow> False
      | Some a \<Rightarrow>
          (case ParseCIDR (trim_space cidr) of
             None \<Rightarrow> False
           | Some n \<Rightarrow> IPNet_Contains n a))"

subsection \<open>Membership bit by bit\<close>

text \<open>Bit \<open>i\<close> of an address, counted from the most significant one.\<close>

definition addr_bit :: "8 word list \<Rightarrow> nat \<Rightarrow> bool" where
  "addr_bit q i = bit (q ! (i div 8)) (7 - i mod 8)"

lemma partial_mask: "n < 8 \<Longrightarrow> (of_nat (256 - 2 ^ (8 - n)) :: 8 word) = not (mask (8 - n))"
proof -
  assume "n < 8"
  then have "n \<in> {0, 1, 2, 3, 4, 5, 6, 7}" by auto
  then show ?thesis by (auto simp: mask_eq_exp_minus_1)
qed

lemma length_cidr_mask [simp]: "length (cidr_mask n k) = k"
  by (induction n k rule: cidr_mask.induct) simp_all

lemma bit_cidr_mask:
  "j < k \<Longrightarrow> b < 8 \<Longrightarrow> bit (cidr_mask n k ! j) b \<longleftrightarrow> 8 * j + (7 - b) < n"
proof (induction n k arbitrary: j rule: cidr_mask.induct)
  case (1 n)
  then show ?case by simp
next
  case (2 n k)
  show ?case
  proof (cases "n \<ge> 8")
    case True
    have "(0xff :: 8 word) = mask 8" by (simp add: mask_eq_exp_minus_1)
    then have ff: "bit (0xff :: 8 word) b" using \<open>b < 8\<close> by (simp only: bit_mask_iff) simp
    show ?thesis
    proof (cases j)
      case 0
      with True ff show ?thesis by simp
    next
      case (Suc i)
      with True 2 have "bit (cidr_mask (n - 8) k ! i) b \<longleftrightarrow> 8 * i + (7 - b) < n - 8" by simp
      with True Suc show ?thesis by auto
    qed
  next
    case False
    show ?thesis
    proof (cases j)
      case 0
      have "bit (of_nat (256 - 2 ^ (8 - n)) :: 8 word) b \<longleftrightarrow> 8 - n \<le> b"
        unfolding partial_mask [OF False [unfolded not_le]] using \<open>b < 8\<close>
        by (simp add: bit_not_iff bit_mask_iff not_less possible_bit_word)
      with 0 False \<open>b < 8\<close> show ?thesis by simp linarith
    next
      case (Suc i)
      with False 2 show ?thesis by simp
    qed
  qed
qed

lemma mask_bytes_eq_iff:
  assumes "length p = k" "length q = k"
  shows "mask_bytes p (cidr_mask n k) = mask_bytes q (cidr_mask n k) \<longleftrightarrow>
         (\<forall>i < min n (8 * k). addr_bit p i = addr_bit q i)"
proof -
  have pos: "(\<forall>j < k. \<forall>b < 8. P j b) \<longleftrightarrow> (\<forall>i < 8 * k. P (i div 8) (7 - i mod 8))" for P
  proof safe
    fix i assume "\<forall>j < k. \<forall>b < 8. P j b" "i < 8 * k"
    then show "P (i div 8) (7 - i mod 8)" by auto
  next
    fix j b :: nat assume all: "\<forall>i < 8 * k. P (i div 8) (7 - i mod 8)" and "j < k" "b < 8"
    then have "8 * j + (7 - b) < 8 * k" by linarith
    with all have "P ((8 * j + (7 - b)) div 8) (7 - (8 * j + (7 - b)) mod 8)" by blast
    moreover have "(8 * j + (7 - b)) div 8 = j" "(8 * j + (7 - b)) mod 8 = 7 - b" by simp_all
    ultimately show "P j b" using \<open>b < 8\<close> by simp
  qed
  have "mask_bytes p (cidr_mask n k) = mask_bytes q (cidr_mask n k) \<longleftrightarrow>
        (\<forall>j < k. and (p ! j) (cidr_mask n k ! j) = and (q ! j) (cidr_mask n k ! j))"
    using assms by (auto simp: mask_bytes_def list_eq_iff_nth_eq)
  also have "\<dots> \<longleftrightarrow> (\<forall>j < k. \<forall>b < 8. 8 * j + (7 - b) < n \<longrightarrow> bit (p ! j) b = bit (q ! j) b)"
    by (auto simp: bit_eq_iff bit_and_iff bit_cidr_mask possible_bit_word)
  also have "\<dots> \<longleftrightarrow> (\<forall>i < 8 * k. i < n \<longrightarrow> addr_bit p i = addr_bit q i)"
    unfolding pos addr_bit_def by (intro all_cong imp_cong refl) (simp add: mult_div_mod_eq)
  finally show ?thesis by auto
qed

definition show_ipv4 :: "8 word list \<Rightarrow> string" where
  "show_ipv4 q = join ''.'' (map (\<lambda>b. show_nat (unat b)) q)"

lemma unat_octet: "unat (b :: 8 word) < 256"
  using unsigned_less [of b, where ?'a = nat] by simp

lemma show_nat_octet:
  assumes "n < 256"
  shows "length (show_nat n) \<le> 3" "length (show_nat n) > 1 \<Longrightarrow> hd (show_nat n) \<noteq> CHR ''0''"
proof -
  have zero: "digit_char d \<noteq> CHR ''0''" if "d < 10" "d \<noteq> 0" for d
  proof
    assume "digit_char d = CHR ''0''"
    then have "char_code (digit_char d) = char_code (CHR ''0'')" by simp
    with that show False unfolding char_code_digit [OF that(1)] by (simp add: char_code_def)
  qed
  consider "n < 10" | "10 \<le> n" "n < 100" | "100 \<le> n" by linarith
  then have "length (show_nat n) \<le> 3 \<and> (length (show_nat n) > 1 \<longrightarrow> hd (show_nat n) \<noteq> CHR ''0'')"
  proof cases
    case 1
    then show ?thesis by (simp add: show_nat.simps [of n])
  next
    case 2
    then have d: "n div 10 < 10" "n div 10 \<noteq> 0" by auto
    then show ?thesis using 2
      by (simp add: show_nat.simps [of n] show_nat.simps [of "n div 10"] zero)
  next
    case 3
    then have d: "10 \<le> n div 10" "n div 10 div 10 < 10" "n div 10 div 10 \<noteq> 0" using assms by auto
    then show ?thesis using 3
      by (simp add: show_nat.simps [of n] show_nat.simps [of "n div 10"] show_nat.simps [of "n div 10 div 10"] zero)
  qed
  then show "length (show_nat n) \<le> 3" "length (show_nat n) > 1 \<Longrightarrow> hd (show_nat n) \<noteq> CHR ''0''" by auto
qed

lemma dec_octet_show [simp]: "dec_octet (show_nat (unat b)) = Some b"
  using show_nat_octet [OF unat_octet [of b]] unat_octet [of b] show_nat_digits [of "unat b"]
  by (auto simp: dec_octet_def)

lemma digit_neq: "is_digit c \<Longrightarrow> c \<noteq> CHR ''.'' \<and> c \<noteq> CHR '':'' \<and> c \<noteq> CHR ''%'' \<and> c \<noteq> CHR ''/'' \<and> \<not> is_space c"
  by (auto simp: is_digit_def is_space_def char_code_def)

lemma show_ipv4_4:
  "show_ipv4 [a, b, c, d] = show_nat (unat a) @ CHR ''.'' # show_nat (unat b) @ CHR ''.'' # show_nat (unat c) @ CHR ''.'' # show_nat (unat d)"
  by (simp add: show_ipv4_def)

lemma length4: "length q = 4 \<Longrightarrow> \<exists>a b c d. q = [a, b, c, d]"
  by (auto simp: length_Suc_conv eval_nat_numeral)

lemma split_show_ipv4: "split_on (CHR ''.'') (show_ipv4 q) = map (\<lambda>b. show_nat (unat b)) q" if "q \<noteq> []"
  unfolding show_ipv4_def using that digit_neq show_nat_chars
  by (intro split_on_join) auto

lemma show_ipv4_chars: "c \<in> set (show_ipv4 q) \<Longrightarrow> is_digit c \<or> c = CHR ''.''"
proof -
  have "set (join ''.'' ws) \<subseteq> insert (CHR ''.'') (\<Union>(set ` set ws))" for ws
    by (induction "''.''" ws rule: join.induct) auto
  then show "c \<in> set (show_ipv4 q) \<Longrightarrow> is_digit c \<or> c = CHR ''.''"
    unfolding show_ipv4_def using show_nat_chars by fastforce
qed

lemma ip_family_v4: "length q = 4 \<Longrightarrow> ip_family (show_ipv4 q) = Some (CHR ''.'')"
proof -
  assume "length q = 4"
  then obtain a b c d where q: "q = [a, b, c, d]" using length4 by blast
  have skip: "\<forall>x \<in> set xs. is_digit x \<Longrightarrow> ip_family (xs @ CHR ''.'' # ys) = Some (CHR ''.'')" for xs ys
    using digit_neq by (induction xs) (auto simp: ip_family_def)
  show ?thesis unfolding q show_ipv4_4 by (rule skip) (blast intro: show_nat_chars)
qed

lemma ParseIP_show [simp]: "length q = 4 \<Longrightarrow> ParseIP (show_ipv4 q) = Some (v4_prefix @ q)"
  by (auto simp: ParseIP_def ip_family_v4 parse_ipv4_fields_def split_show_ipv4 Let_def o_def list_eq_iff_nth_eq)

lemma To4_v4 [simp]: "length q = 4 \<Longrightarrow> To4 (v4_prefix @ q) = Some q" "length q = 4 \<Longrightarrow> To4 q = Some q"
  by (simp_all add: To4_def v4_prefix_def)

lemma ParseCIDR_v4:
  assumes "length q = 4" "n \<le> 32"
  shows "ParseCIDR (show_ipv4 q @ CHR ''/'' # show_nat n) = Some (mask_bytes q (cidr_mask n 4), cidr_mask n 4)"
proof -
  have slash: "\<forall>c \<in> set (show_ipv4 q). c \<noteq> CHR ''/''"
    using show_ipv4_chars digit_neq by fastforce
  then have "takeWhile (\<lambda>c. c \<noteq> CHR ''/'') (show_ipv4 q @ CHR ''/'' # show_nat n) = show_ipv4 q"
    and "dropWhile (\<lambda>c. c \<noteq> CHR ''/'') (show_ipv4 q @ CHR ''/'' # show_nat n) = CHR ''/'' # show_nat n"
    by (simp_all add: takeWhile_append2 dropWhile_append2)
  with assms show ?thesis
    by (simp add: ParseCIDR_def Let_def ip_family_v4 show_nat_digits ip_Mask_def v4_prefix_def)
qed

text \<open>C26: An interface whose subnet is \<open>b.b.b.b/n\<close> is taken for a VIP \<open>a.a.a.a\<close> exactly when the first
  \<open>n\<close> bits of the two addresses agree.\<close>

theorem ipInCIDR_v4_iff:
  assumes "length a = 4" "length b = 4" "n \<le> 32"
  shows "ipInCIDR (show_ipv4 a) (show_ipv4 b @ CHR ''/'' # show_nat n) \<longleftrightarrow>
         (\<forall>i < n. addr_bit a i = addr_bit b i)"
proof -
  have t1: "trim_space (show_ipv4 a) = show_ipv4 a"
    using show_ipv4_chars digit_neq by (intro trim_space_id) (fastforce simp: is_space_def char_code_def)
  have t2: "trim_space (show_ipv4 b @ CHR ''/'' # show_nat n) = show_ipv4 b @ CHR ''/'' # show_nat n"
    using show_ipv4_chars show_nat_chars digit_neq
    by (intro trim_space_id) (fastforce simp: is_space_def char_code_def)
  have len: "length (mask_bytes b (cidr_mask n 4)) = 4" using assms by (simp add: mask_bytes_def)
  have idem: "mask_bytes (mask_bytes b m) m = mask_bytes b m" for m
    by (auto simp: mask_bytes_def list_eq_iff_nth_eq bit_eq_iff bit_and_iff)
  have "ipInCIDR (show_ipv4 a) (show_ipv4 b @ CHR ''/'' # show_nat n) \<longleftrightarrow>
        mask_bytes b (cidr_mask n 4) = mask_bytes a (cidr_mask n 4)"
    unfolding ipInCIDR_def t1 t2 using assms
    by (simp add: ParseCIDR_v4 IPNet_Contains_def Let_def len idem)
  also have "\<dots> \<longleftrightarrow> (\<forall>i < n. addr_bit a i = addr_bit b i)"
    using mask_bytes_eq_iff [OF assms(2,1), of n] assms(3) by auto
  finally show ?thesis .
qed

theorem ipInCIDR_v4_iff_witness:
  "ipInCIDR (show_ipv4 [10, 1, 2, 3]) (show_ipv4 [10, 1, 0, 0] @ CHR ''/'' # show_nat 16)"
proof -
  have "[10, 1, 2, 3] ! (i div 8) = ([10, 1, 0, 0] :: 8 word list) ! (i div 8)" if "i < 16" for i :: nat
  proof -
    have "i div 8 = 0 \<or> i div 8 = 1" using that by linarith
    then show ?thesis by auto
  qed
  then show ?thesis
    using ipInCIDR_v4_iff [of "[10, 1, 2, 3]" "[10, 1, 0, 0]" 16] by (simp add: addr_bit_def)
qed

end
