(* ===== verification/Op_Monad.thy ===== *)
theory Op_Monad
  imports GM_Prelude
begin

text \<open>
  The shape of the methods that read and change state: a method is a function from the state to a
  result (error or value) and the new state. \<open>on_ok\<close> is \<open>x, err := m(); if err != nil { return err }\<close>,
  \<open>with_result\<close> is a call whose error the code looks at or drops (\<open>_ = m()\<close>), \<open>fold_ok\<close> is a loop
  that returns on the first error. \<open>valid P m Q\<close> is the partial Hoare triple over the result and
  \<open>preserves I m\<close> the triple of an invariant; their rules are collected in \<open>op_rules\<close>.
\<close>

type_synonym ('s, 'a) op = "'s \<Rightarrow> 'a result \<times> 's"

named_theorems op_rules \<open>rules that decompose a triple along the structure of a method\<close>

definition ret :: "'a \<Rightarrow> ('s, 'a) op" where
  "ret x w = (Inr x, w)"

definition fail_with :: "go_error \<Rightarrow> ('s, 'a) op" where
  "fail_with e w = (Inl e, w)"

definition on_ok :: "('s, 'a) op \<Rightarrow> ('a \<Rightarrow> ('s, 'b) op) \<Rightarrow> ('s, 'b) op" where
  "on_ok m f w = (case m w of (Inl e, w') \<Rightarrow> (Inl e, w') | (Inr x, w') \<Rightarrow> f x w')"

definition with_result :: "('s, 'a) op \<Rightarrow> ('a result \<Rightarrow> ('s, 'b) op) \<Rightarrow> ('s, 'b) op" where
  "with_result m f w = (case m w of (r, w') \<Rightarrow> f r w')"

definition get_state :: "('s, 's) op" where
  "get_state w = (Inr w, w)"

definition modify :: "('s \<Rightarrow> 's) \<Rightarrow> ('s, unit) op" where
  "modify f w = (Inr (), f w)"

definition gets :: "('s \<Rightarrow> 'a) \<Rightarrow> ('s, 'a) op" where
  "gets f w = (Inr (f w), w)"

fun fold_ok :: "('x \<Rightarrow> 'a \<Rightarrow> ('s, 'a) op) \<Rightarrow> 'x list \<Rightarrow> 'a \<Rightarrow> ('s, 'a) op" where
  "fold_ok f [] a = ret a"
| "fold_ok f (x # xs) a = on_ok (f x a) (fold_ok f xs)"

definition for_ok :: "('x \<Rightarrow> ('s, unit) op) \<Rightarrow> 'x list \<Rightarrow> ('s, unit) op" where
  "for_ok f xs = fold_ok (\<lambda>x _. f x) xs ()"

lemmas op_defs = ret_def fail_with_def on_ok_def with_result_def get_state_def modify_def gets_def

lemma for_ok_simps [simp]:
  "for_ok f [] = ret ()"
  "for_ok f (x # xs) = on_ok (f x) (\<lambda>_. for_ok f xs)"
  by (simp_all add: for_ok_def fun_eq_iff on_ok_def split: prod.splits sum.splits)

lemma op_simps [simp]:
  "ret x w = (Inr x, w)"
  "fail_with e w = (Inl e, w)"
  "get_state w = (Inr w, w)"
  "modify g w = (Inr (), g w)"
  "gets h w = (Inr (h w), w)"
  by (simp_all add: op_defs)

lemma on_ok_eq:
  "m w = (Inl e, w') \<Longrightarrow> on_ok m f w = (Inl e, w')"
  "m w = (Inr x, w') \<Longrightarrow> on_ok m f w = f x w'"
  by (simp_all add: on_ok_def)

lemma on_ok_ret [simp]: "on_ok (ret x) f = f x"
  by (simp add: op_defs fun_eq_iff)

lemma on_ok_fail [simp]: "on_ok (fail_with e) f = fail_with e"
  by (simp add: op_defs fun_eq_iff)

lemma on_ok_gets [simp]: "on_ok (gets h) f w = f (h w) w"
  by (simp add: op_defs)

lemma on_ok_modify [simp]: "on_ok (modify g) f w = f () (g w)"
  by (simp add: op_defs)

text \<open>The simplifier unfolds an unapplied \<open>ret x\<close> to a pair.\<close>

lemma pair_run [simp]:
  "on_ok (Pair (Inr x)) f = f x" "on_ok (Pair (Inl e)) f = Pair (Inl e)" "with_result (Pair r) g = g r"
  by (simp_all add: on_ok_def with_result_def fun_eq_iff)

lemma with_result_run: "m w = (r, w') \<Longrightarrow> with_result m f w = f r w'"
  by (simp add: with_result_def)

lemma with_result_simps [simp]:
  "with_result (ret x) f = f (Inr x)" "with_result (fail_with e) f = f (Inl e)"
  by (simp_all add: op_defs fun_eq_iff)

lemma on_ok_InrD:
  "on_ok m f w = (Inr y, w'') \<Longrightarrow> \<exists>x w'. m w = (Inr x, w') \<and> f x w' = (Inr y, w'')"
  by (auto simp: on_ok_def split: prod.splits sum.splits)

lemma on_ok_cases:
  assumes "on_ok m f w = (r, w'')"
  obtains (err) e where "m w = (Inl e, w'')" "r = Inl e"
    | (ok) x w' where "m w = (Inr x, w')" "f x w' = (r, w'')"
  using assms by (auto simp: on_ok_def split: prod.splits sum.splits)

lemma on_ok_assoc: "on_ok (on_ok m f) g = on_ok m (\<lambda>x. on_ok (f x) g)"
  by (simp add: on_ok_def fun_eq_iff split: prod.splits sum.splits)

subsection \<open>Triples\<close>

definition valid :: "('s \<Rightarrow> bool) \<Rightarrow> ('s, 'a) op \<Rightarrow> ('a result \<Rightarrow> 's \<Rightarrow> bool) \<Rightarrow> bool" where
  "valid P m Q \<longleftrightarrow> (\<forall>w r w'. P w \<longrightarrow> m w = (r, w') \<longrightarrow> Q r w')"

abbreviation preserves :: "('s \<Rightarrow> bool) \<Rightarrow> ('s, 'a) op \<Rightarrow> bool" where
  "preserves I m \<equiv> valid I m (\<lambda>_. I)"

lemma validI: "(\<And>w r w'. P w \<Longrightarrow> m w = (r, w') \<Longrightarrow> Q r w') \<Longrightarrow> valid P m Q"
  by (simp add: valid_def)

lemma validD: "valid P m Q \<Longrightarrow> P w \<Longrightarrow> m w = (r, w') \<Longrightarrow> Q r w'"
  by (simp add: valid_def)

lemma valid_ret [op_rules]: "(\<And>w. P w \<Longrightarrow> Q (Inr x) w) \<Longrightarrow> valid P (ret x) Q"
  by (simp add: valid_def)

lemma valid_fail [op_rules]: "(\<And>w. P w \<Longrightarrow> Q (Inl e) w) \<Longrightarrow> valid P (fail_with e) Q"
  by (simp add: valid_def)

lemma valid_modify [op_rules]: "(\<And>w. P w \<Longrightarrow> Q (Inr ()) (g w)) \<Longrightarrow> valid P (modify g) Q"
  by (simp add: valid_def)

lemma valid_gets [op_rules]: "(\<And>w. P w \<Longrightarrow> Q (Inr (h w)) w) \<Longrightarrow> valid P (gets h) Q"
  by (simp add: valid_def)

lemma valid_weaken: "valid P m Q \<Longrightarrow> (\<And>w. P' w \<Longrightarrow> P w) \<Longrightarrow> (\<And>r w. Q r w \<Longrightarrow> Q' r w) \<Longrightarrow> valid P' m Q'"
  unfolding valid_def by blast

lemma valid_on_ok:
  assumes "valid P m R" and "\<And>x. valid (R (Inr x)) (f x) Q" and "\<And>e w. R (Inl e) w \<Longrightarrow> Q (Inl e) w"
  shows "valid P (on_ok m f) Q"
  using assms unfolding valid_def by (blast elim: on_ok_cases)

lemma valid_with_result:
  assumes "valid P m R" and "\<And>r. valid (R r) (f r) Q"
  shows "valid P (with_result m f) Q"
  using assms unfolding valid_def with_result_def by (auto split: prod.splits)

lemma preserves_on_ok [op_rules]:
  "preserves I m \<Longrightarrow> (\<And>x. preserves I (f x)) \<Longrightarrow> preserves I (on_ok m f)"
  by (rule valid_on_ok [where R = "\<lambda>_. I"])

lemma preserves_with_result [op_rules]:
  "preserves I m \<Longrightarrow> (\<And>r. preserves I (f r)) \<Longrightarrow> preserves I (with_result m f)"
  by (rule valid_with_result [where R = "\<lambda>_. I"])

lemma preserves_fold_ok [op_rules]:
  assumes "\<And>x a. x \<in> set xs \<Longrightarrow> preserves I (f x a)"
  shows "preserves I (fold_ok f xs a)"
  using assms
proof (induction xs arbitrary: a)
  case Nil
  show ?case unfolding fold_ok.simps by (rule valid_ret)
next
  case (Cons x xs)
  then show ?case unfolding fold_ok.simps by (intro preserves_on_ok) auto
qed

text \<open>The accumulator of a loop may carry a condition of its own.\<close>

lemma valid_fold_ok:
  assumes "\<And>x a. x \<in> set xs \<Longrightarrow> valid (P a) (f x a) (\<lambda>r w. case r of Inl e \<Rightarrow> E w | Inr b \<Rightarrow> P b w)"
  shows "valid (P a) (fold_ok f xs a) (\<lambda>r w. case r of Inl e \<Rightarrow> E w | Inr b \<Rightarrow> P b w)"
  using assms
proof (induction xs arbitrary: a)
  case Nil
  show ?case unfolding fold_ok.simps by (rule valid_ret) simp
next
  case (Cons x xs)
  show ?case
    unfolding fold_ok.simps
  proof (rule valid_on_ok)
    show "valid (P a) (f x a) (\<lambda>r w. case r of Inl e \<Rightarrow> E w | Inr b \<Rightarrow> P b w)"
      using Cons.prems by simp
  next
    fix b
    have "valid (P b) (fold_ok f xs b) (\<lambda>r w. case r of Inl e \<Rightarrow> E w | Inr b \<Rightarrow> P b w)"
      using Cons.prems by (intro Cons.IH) simp
    then show "valid (\<lambda>w. case Inr b of Inl e \<Rightarrow> E w | Inr b \<Rightarrow> P b w) (fold_ok f xs b)
        (\<lambda>r w. case r of Inl e \<Rightarrow> E w | Inr b \<Rightarrow> P b w)" by simp
  qed simp
qed

lemma preserves_for_ok [op_rules]:
  "(\<And>x. x \<in> set xs \<Longrightarrow> preserves I (f x)) \<Longrightarrow> preserves I (for_ok f xs)"
  unfolding for_ok_def by (rule preserves_fold_ok)

lemma preserves_if [op_rules]:
  "preserves I m \<Longrightarrow> preserves I m' \<Longrightarrow> preserves I (if b then m else m')"
  by simp

lemma preserves_case_option [op_rules]:
  "preserves I m \<Longrightarrow> (\<And>x. preserves I (f x)) \<Longrightarrow> preserves I (case z of None \<Rightarrow> m | Some x \<Rightarrow> f x)"
  by (cases z) auto

lemma preserves_case_sum [op_rules]:
  "(\<And>e. preserves I (g e)) \<Longrightarrow> (\<And>x. preserves I (f x)) \<Longrightarrow> preserves I (case z of Inl e \<Rightarrow> g e | Inr x \<Rightarrow> f x)"
  by (cases z) auto

lemma preserves_case_prod [op_rules]:
  "(\<And>x y. preserves I (f x y)) \<Longrightarrow> preserves I (case z of (x, y) \<Rightarrow> f x y)"
  by (cases z) auto

text \<open>What every call of a loop leaves alone, the loop leaves alone.\<close>

lemma frameD:
  assumes "\<And>c. preserves (\<lambda>w. f w = c) m" and "m w = (r, w')"
  shows "f w' = f w"
  using validD [OF assms(1) refl assms(2)] by simp

text \<open>A loop that ends without an error ran every iteration without an error.\<close>

lemma for_ok_InrD:
  assumes "for_ok f xs w = (Inr u, w')"
    and step: "\<And>x v v'. x \<in> set xs \<Longrightarrow> f x v = (Inr (), v') \<Longrightarrow> R x v'"
    and keep: "\<And>x y. x \<in> set xs \<Longrightarrow> valid (R y) (f x) (\<lambda>_. R y)"
  shows "\<forall>x \<in> set xs. R x w'"
  using assms(1) step keep
proof (induction xs arbitrary: w)
  case Nil
  then show ?case by simp
next
  case (Cons x xs)
  from Cons.prems(1) obtain v where x: "f x w = (Inr (), v)" and xs: "for_ok f xs v = (Inr u, w')"
    by (auto dest: on_ok_InrD)
  have "\<forall>y \<in> set xs. R y w'"
    using Cons.prems by (intro Cons.IH [OF xs]) auto
  moreover have "R x w'"
  proof -
    have "R x v" using Cons.prems(2) x by simp
    moreover have "valid (R x) (for_ok f xs) (\<lambda>_. R x)"
      using Cons.prems(3) by (intro preserves_for_ok) simp
    ultimately show ?thesis using xs by (meson validD)
  qed
  ultimately show ?case by simp
qed

end
