(* ===== verification/Mysql_Version.thy ===== *)
theory Mysql_Version
  imports GM_Prelude
begin

text \<open>
  The version rules of \<open>internal/mysql/version_compatibility.go\<close>: parsing, the order, the supported
  release families, the capabilities of a release, the options a release knows and the upgrades
  that are allowed. Labels and descriptions shown to users are left out.
\<close>

subsection \<open>Versions and their order\<close>

datatype mysqlVersion = MysqlVersion (Major: int) (Minor: int) (Patch: int)

definition parse_part :: "string \<Rightarrow> int option" where
  "parse_part part =
     (if part = [] then None
      else (case atoi part of None \<Rightarrow> None | Some v \<Rightarrow> if v < 0 then None else Some v))"

definition invalid_version :: "string \<Rightarrow> go_error" where
  "invalid_version raw = Error (''invalid mysql version: '' @ raw)"

definition parseMySQLVersion :: "string \<Rightarrow> mysqlVersion result" where
  "parseMySQLVersion raw =
     (case map parse_part (split_on (CHR ''.'') (trim_space raw)) of
        [Some a, Some b] \<Rightarrow> Inr (MysqlVersion a b 0)
      | [Some a, Some b, Some c] \<Rightarrow> Inr (MysqlVersion a b c)
      | _ \<Rightarrow> Inl (invalid_version raw))"

definition compareMySQLVersion :: "mysqlVersion \<Rightarrow> mysqlVersion \<Rightarrow> int" where
  "compareMySQLVersion a b =
     (if Major a \<noteq> Major b then (if Major a < Major b then -1 else 1)
      else if Minor a \<noteq> Minor b then (if Minor a < Minor b then -1 else 1)
      else if Patch a \<noteq> Patch b then (if Patch a < Patch b then -1 else 1)
      else 0)"

instantiation mysqlVersion :: linorder
begin

definition less_eq_mysqlVersion :: "mysqlVersion \<Rightarrow> mysqlVersion \<Rightarrow> bool" where
  "a \<le> b \<longleftrightarrow> Major a < Major b \<or>
     Major a = Major b \<and> (Minor a < Minor b \<or> Minor a = Minor b \<and> Patch a \<le> Patch b)"

definition less_mysqlVersion :: "mysqlVersion \<Rightarrow> mysqlVersion \<Rightarrow> bool" where
  "(a :: mysqlVersion) < b \<longleftrightarrow> a \<le> b \<and> \<not> b \<le> a"

instance
  by standard (auto simp: less_eq_mysqlVersion_def less_mysqlVersion_def intro: mysqlVersion.expand)

end

lemmas version_order = less_eq_mysqlVersion_def less_mysqlVersion_def

lemma compare_order [simp]:
  "compareMySQLVersion a b < 0 \<longleftrightarrow> a < b"
  "compareMySQLVersion a b \<le> 0 \<longleftrightarrow> a \<le> b"
  "compareMySQLVersion a b > 0 \<longleftrightarrow> b < a"
  "compareMySQLVersion a b \<ge> 0 \<longleftrightarrow> b \<le> a"
  "compareMySQLVersion a b = 0 \<longleftrightarrow> a = b"
  by (auto simp: compareMySQLVersion_def version_order intro: mysqlVersion.expand)

subsection \<open>Supported releases\<close>

definition validateSupportedMySQLVersion :: "string \<Rightarrow> mysqlVersion result" where
  "validateSupportedMySQLVersion raw =
     (case parseMySQLVersion raw of
        Inl e \<Rightarrow> Inl e
      | Inr v \<Rightarrow>
          if Major v = 5 \<and> Minor v = 7 then
            (if Patch v < 9 then Inl (Errorf ''mysql %s is unsupported; minimum supported 5.7 version is 5.7.9'' [raw])
             else if Patch v > 44 then Inl (Errorf ''mysql %s does not exist in the completed MySQL 5.7 release line; maximum version is 5.7.44'' [raw])
             else Inr v)
          else if Major v = 8 then
            (if Minor v > 4 then Inl (Errorf ''mysql %s is not a released MySQL 8 series; supported 8.x series are 8.0 through 8.4'' [raw])
             else if compareMySQLVersion v (MysqlVersion 8 0 11) < 0
             then Inl (Errorf ''mysql %s is unsupported; minimum generally available 8.0 version is 8.0.11'' [raw])
             else Inr v)
          else if Major v = 9 then
            (if Minor v > 7 then Inl (Errorf ''mysql %s is not a released MySQL 9 series; supported 9.x series are 9.0 through 9.7'' [raw])
             else Inr v)
          else Inl (Errorf ''mysql %s is not verified; supported release families are 5.7, 8.x and 9.x'' [raw]))"

definition IsMySQL57 :: "string \<Rightarrow> bool" where
  "IsMySQL57 raw = (case validateSupportedMySQLVersion raw of Inl _ \<Rightarrow> False | Inr v \<Rightarrow> Major v = 5 \<and> Minor v = 7)"

definition mysqlReleaseTrack :: "mysqlVersion \<Rightarrow> string" where
  "mysqlReleaseTrack v =
     (if Major v = 5 \<and> Minor v = 7 then ''5.7 Legacy''
      else if Major v = 8 \<and> Minor v = 0 then ''8.0 Bugfix''
      else if Major v = 8 \<and> Minor v = 4 then ''8.4 LTS''
      else if Major v = 9 \<and> Minor v = 7 then ''9.7 LTS''
      else if Major v \<ge> 9 then ''9.x Innovation''
      else ''8.x Innovation'')"

subsection \<open>Capabilities\<close>

record version_capabilities =
  cap_Version :: string
  cap_ReleaseTrack :: string
  cap_Legacy57 :: bool
  cap_LegacyTransactionVariable :: bool
  cap_LegacyReplicationNames :: bool
  cap_LegacyRedoLog :: bool
  cap_SupportsClone :: bool
  cap_SupportsHistograms :: bool
  cap_SupportsSetPersist :: bool
  cap_SupportsDynamicPrivileges :: bool
  cap_SupportsPerconaToolkit :: bool
  cap_MinimumPerconaToolkit :: string
  cap_XtraBackupSeries :: string

definition CapabilitiesForVersion :: "string \<Rightarrow> version_capabilities result" where
  "CapabilitiesForVersion raw =
     (case validateSupportedMySQLVersion raw of
        Inl e \<Rightarrow> Inl e
      | Inr v \<Rightarrow>
          (let legacy57 = (Major v = 5);
               caps = \<lparr>cap_Version = trim_space raw, cap_ReleaseTrack = mysqlReleaseTrack v,
                 cap_Legacy57 = legacy57,
                 cap_LegacyTransactionVariable = (legacy57 \<and> compareMySQLVersion v (MysqlVersion 5 7 20) < 0),
                 cap_LegacyReplicationNames = (compareMySQLVersion v (MysqlVersion 8 0 26) < 0),
                 cap_LegacyRedoLog = (compareMySQLVersion v (MysqlVersion 8 0 30) < 0),
                 cap_SupportsClone = (compareMySQLVersion v (MysqlVersion 8 0 17) \<ge> 0),
                 cap_SupportsHistograms = (Major v \<ge> 8), cap_SupportsSetPersist = (Major v \<ge> 8),
                 cap_SupportsDynamicPrivileges = (compareMySQLVersion v (MysqlVersion 8 0 17) \<ge> 0),
                 cap_SupportsPerconaToolkit = True, cap_MinimumPerconaToolkit = ''3.7.1'',
                 cap_XtraBackupSeries = sprintf ''%d.%d'' [show_int (Major v), show_int (Minor v)]\<rparr>
           in Inr (if legacy57
                   then caps\<lparr>cap_MinimumPerconaToolkit := ''3.5.0'', cap_XtraBackupSeries := ''2.4''\<rparr>
                   else caps)))"

text \<open>The match of \<open>\s*(\d+\.\d+(?:\.\d+)?)\<close> at the start: the numeric prefix, split at its dots.\<close>

definition re_space :: "char \<Rightarrow> bool" where
  "re_space c \<longleftrightarrow> char_code c \<in> {9, 10, 12, 13, 32}"

definition numeric_prefix :: "string \<Rightarrow> string list option" where
  "numeric_prefix raw =
     (let s = dropWhile re_space raw; a = takeWhile is_digit s; r = dropWhile is_digit s
      in if a = [] then None
         else (case r of
                 [] \<Rightarrow> None
               | c # r' \<Rightarrow>
                   if c \<noteq> CHR ''.'' \<or> takeWhile is_digit r' = [] then None
                   else let b = takeWhile is_digit r'; q = dropWhile is_digit r'
                        in case q of
                             [] \<Rightarrow> Some [a, b]
                           | d # q' \<Rightarrow> if d = CHR ''.'' \<and> takeWhile is_digit q' \<noteq> []
                                      then Some [a, b, takeWhile is_digit q'] else Some [a, b]))"

text \<open>\<open>strconv.Atoi\<close> of digits whose error is dropped: a value out of range is cut to the largest \<open>int\<close>.\<close>

definition atoi_clamped :: "string \<Rightarrow> int" where
  "atoi_clamped s = (case atoi s of Some v \<Rightarrow> v | None \<Rightarrow> 2 ^ 63 - 1)"

definition SupportsHistogramForVersion :: "string \<Rightarrow> bool" where
  "SupportsHistogramForVersion raw =
     (case numeric_prefix raw of
        None \<Rightarrow> False
      | Some parts \<Rightarrow>
          if length parts = 2 then
            (let major = atoi_clamped (parts ! 0); minor = atoi_clamped (parts ! 1)
             in major = 8 \<and> minor \<le> 4 \<or> major = 9 \<and> minor \<le> 7)
          else (case CapabilitiesForVersion (join ''.'' parts) of Inl _ \<Rightarrow> False | Inr c \<Rightarrow> cap_SupportsHistograms c))"

definition SupportsCloneForVersion :: "string \<Rightarrow> bool" where
  "SupportsCloneForVersion raw = (case CapabilitiesForVersion raw of Inl _ \<Rightarrow> False | Inr c \<Rightarrow> cap_SupportsClone c)"

definition SupportsPerconaToolkit :: "string \<Rightarrow> bool" where
  "SupportsPerconaToolkit raw = (case CapabilitiesForVersion raw of Inl _ \<Rightarrow> False | Inr c \<Rightarrow> cap_SupportsPerconaToolkit c)"

definition dynamic_privileges :: "string list" where
  "dynamic_privileges = [''CONNECTION_ADMIN'', ''SYSTEM_VARIABLES_ADMIN'', ''REPLICATION_SLAVE_ADMIN'', ''BACKUP_ADMIN'', ''CLONE_ADMIN'']"

definition SupportsDynamicPrivilegeForVersion :: "string \<Rightarrow> string \<Rightarrow> bool" where
  "SupportsDynamicPrivilegeForVersion raw privilege =
     (case CapabilitiesForVersion raw of
        Inl _ \<Rightarrow> False
      | Inr c \<Rightarrow> cap_SupportsDynamicPrivileges c \<and> to_upper (trim_space privilege) \<in> set dynamic_privileges)"

subsection \<open>Upgrades\<close>

abbreviation MySQL57UpgradeBridgeVersion :: string where "MySQL57UpgradeBridgeVersion \<equiv> ''5.7.44''"

definition upgrade_route :: "string \<Rightarrow> string \<Rightarrow> mysqlVersion \<Rightarrow> mysqlVersion \<Rightarrow> go_error option" where
  "upgrade_route current target from_v to_v =
     (if compareMySQLVersion to_v from_v \<le> 0
      then Some (Errorf ''target MySQL %s must be newer than current %s; downgrade and same-version replacement are not supported'' [target, current])
      else if Major from_v = 5 then
        (if Major to_v = 5 then None
         else
           let bridge = (case parseMySQLVersion MySQL57UpgradeBridgeVersion of Inl _ \<Rightarrow> MysqlVersion 0 0 0 | Inr b \<Rightarrow> b)
           in if Minor from_v \<noteq> 7 \<or> compareMySQLVersion from_v bridge < 0
              then Some (Errorf ''MySQL %s cannot be upgraded directly to %s: upgrade to MySQL %s first'' [current, target, MySQL57UpgradeBridgeVersion])
              else if Major to_v \<noteq> 8 \<or> Minor to_v \<noteq> 0
              then Some (Errorf ''MySQL %s can only be upgraded to MySQL 8.0 first, not directly to %s'' [current, target])
              else None)
      else if Major from_v = 8 \<and> Minor from_v < 4 \<and> Major to_v > 8
      then Some (Error ''upgrade the current MySQL 8.x release to the latest 8.4 LTS before entering MySQL 9.x'')
      else None)"

definition ValidateUpgradeCompatibility :: "string \<Rightarrow> string \<Rightarrow> go_error option" where
  "ValidateUpgradeCompatibility current target =
     (case validateSupportedMySQLVersion current of
        Inl e \<Rightarrow> Some (Wrap ''current version: %w'' [] e)
      | Inr from_v \<Rightarrow>
          (case validateSupportedMySQLVersion target of
             Inl e \<Rightarrow> Some (Wrap ''target version: %w'' [] e)
           | Inr to_v \<Rightarrow> upgrade_route current target from_v to_v))"

subsection \<open>Options of a release\<close>

record parameter_field =
  pf_Key :: string
  pf_Options :: "string list"

definition RuntimeParameterGroupsForVersion :: "string \<Rightarrow> parameter_field list list result" where
  "RuntimeParameterGroupsForVersion raw =
     (case validateSupportedMySQLVersion raw of
        Inl e \<Rightarrow> Inl e
      | Inr v \<Rightarrow> Inr (
          (if Major v = 5
           then [[\<lparr>pf_Key = ''default_authentication_plugin'', pf_Options = [''mysql_native_password'']\<rparr>]] else []) @
          (if Major v = 8 \<and> Minor v < 4
           then [[\<lparr>pf_Key = ''default_authentication_plugin'', pf_Options = [''caching_sha2_password'', ''mysql_native_password'']\<rparr>,
                  \<lparr>pf_Key = ''binlog_transaction_dependency_tracking'', pf_Options = [''COMMIT_ORDER'', ''WRITESET'', ''WRITESET_SESSION'']\<rparr>] @
                 (if Minor v < 3 then [\<lparr>pf_Key = ''transaction_write_set_extraction'', pf_Options = [''XXHASH64'', ''OFF'']\<rparr>] else [])]
           else []) @
          (if Major v = 8 \<and> Minor v = 4
           then [[\<lparr>pf_Key = ''restrict_fk_on_non_standard_key'', pf_Options = [''ON'', ''OFF'']\<rparr>],
                 [\<lparr>pf_Key = ''mysql_native_password'', pf_Options = [''OFF'', ''ON'']\<rparr>]]
           else []) @
          (if Major v \<ge> 9
           then [[\<lparr>pf_Key = ''restrict_fk_on_non_standard_key'', pf_Options = [''ON'', ''OFF'']\<rparr>]] else [])))"

definition versionSpecificFields :: "string \<Rightarrow> (string \<Rightarrow> parameter_field option) result" where
  "versionSpecificFields raw =
     (case RuntimeParameterGroupsForVersion raw of
        Inl e \<Rightarrow> Inl e
      | Inr groups \<Rightarrow> Inr (fold (\<lambda>f m. m(pf_Key f := Some f)) (concat groups) (\<lambda>_. None)))"

subsection \<open>Every supported release can be reached\<close>

text \<open>The releases the rules accept, and the moves between them.\<close>

definition supported_version :: "mysqlVersion \<Rightarrow> bool" where
  "supported_version v \<longleftrightarrow> 0 \<le> Minor v \<and> 0 \<le> Patch v \<and>
     (Major v = 5 \<and> Minor v = 7 \<and> 9 \<le> Patch v \<and> Patch v \<le> 44 \<or>
      Major v = 8 \<and> Minor v \<le> 4 \<and> (Minor v = 0 \<longrightarrow> 11 \<le> Patch v) \<or>
      Major v = 9 \<and> Minor v \<le> 7)"

definition allowed_upgrade :: "mysqlVersion \<Rightarrow> mysqlVersion \<Rightarrow> bool" where
  "allowed_upgrade a b \<longleftrightarrow> a < b \<and>
     (Major a = 5 \<and> Major b \<noteq> 5 \<longrightarrow> a = MysqlVersion 5 7 44 \<and> Major b = 8 \<and> Minor b = 0) \<and>
     (Major a = 8 \<and> Major b = 9 \<longrightarrow> Minor a = 4)"

lemma parse_part_nonneg: "parse_part p = Some v \<Longrightarrow> 0 \<le> v"
  by (auto simp: parse_part_def split: if_splits option.splits)

lemma parse_nonneg: "parseMySQLVersion raw = Inr v \<Longrightarrow> 0 \<le> Minor v \<and> 0 \<le> Patch v"
  by (auto simp: parseMySQLVersion_def dest!: parse_part_nonneg split: list.splits option.splits)

lemma validate_supported:
  "validateSupportedMySQLVersion raw = Inr v \<longleftrightarrow> parseMySQLVersion raw = Inr v \<and> supported_version v"
proof (cases "parseMySQLVersion raw")
  case (Inr u)
  then have "0 \<le> Minor u" "0 \<le> Patch u" using parse_nonneg by blast+
  moreover have "compareMySQLVersion u (MysqlVersion 8 0 11) < 0 \<longleftrightarrow> Minor u < 0 \<or> Minor u = 0 \<and> Patch u < 11"
    if "Major u = 8" using that by (simp add: compareMySQLVersion_def del: compare_order)
  ultimately show ?thesis
    using Inr by (cases "Major u = 8") (auto simp: validateSupportedMySQLVersion_def supported_version_def simp del: compare_order)
qed (simp add: validateSupportedMySQLVersion_def)

lemma supported_majors: "supported_version v \<Longrightarrow> Major v = 5 \<or> Major v = 8 \<or> Major v = 9"
  by (auto simp: supported_version_def)

lemma bridge_version: "parseMySQLVersion ''5.7.44'' = Inr (MysqlVersion 5 7 44)"
  by code_simp

lemma bridge_only:
  assumes "supported_version a" "Major a = 5"
  shows "Minor a = 7 \<and> \<not> a < MysqlVersion 5 7 44 \<longleftrightarrow> a = MysqlVersion 5 7 44"
  using assms by (cases a) (auto simp: supported_version_def version_order)

lemma upgrade_route_allowed:
  assumes "supported_version a" "supported_version b"
  shows "upgrade_route current target a b = None \<longleftrightarrow> allowed_upgrade a b"
proof -
  have "upgrade_route current target a b = None \<longleftrightarrow> a < b \<and>
      (Major a = 5 \<longrightarrow> Major b = 5 \<or> Minor a = 7 \<and> \<not> a < MysqlVersion 5 7 44 \<and> Major b = 8 \<and> Minor b = 0) \<and>
      (Major a \<noteq> 5 \<longrightarrow> \<not> (Major a = 8 \<and> Minor a < 4 \<and> Major b > 8))"
    by (auto simp: upgrade_route_def bridge_version not_le)
  then show ?thesis
    using bridge_only [OF assms(1)] supported_majors [OF assms(2)] assms(1)
    unfolding allowed_upgrade_def by (cases "Major a = 8") (auto simp: supported_version_def)
qed

text \<open>One accepted upgrade.\<close>

definition upgrades :: "string \<Rightarrow> string \<Rightarrow> bool" where
  "upgrades current target \<longleftrightarrow> ValidateUpgradeCompatibility current target = None"

lemma upgrades_iff:
  "upgrades current target \<longleftrightarrow>
     (\<exists>a b. validateSupportedMySQLVersion current = Inr a \<and> validateSupportedMySQLVersion target = Inr b \<and> allowed_upgrade a b)"
proof (cases "validateSupportedMySQLVersion current")
  case a: (Inr a)
  show ?thesis
  proof (cases "validateSupportedMySQLVersion target")
    case (Inr b)
    then have "supported_version a" "supported_version b" using a by (simp_all add: validate_supported)
    with a Inr show ?thesis by (simp add: upgrades_def ValidateUpgradeCompatibility_def upgrade_route_allowed)
  qed (use a in \<open>simp add: upgrades_def ValidateUpgradeCompatibility_def\<close>)
qed (simp add: upgrades_def ValidateUpgradeCompatibility_def)

text \<open>C36: An upgrade between two releases is accepted exactly when both are supported, the target is newer, and
  it neither leaves 5.7 other than from 5.7.44 into 8.0 nor enters 9.x from a release before 8.4.\<close>

theorem upgrade_accepted_iff:
  "ValidateUpgradeCompatibility current target = None \<longleftrightarrow>
     (\<exists>a b. parseMySQLVersion current = Inr a \<and> parseMySQLVersion target = Inr b \<and>
            supported_version a \<and> supported_version b \<and> allowed_upgrade a b)"
  using upgrades_iff [of current target] unfolding upgrades_def validate_supported by blast

lemma upgrades_same_start:
  assumes "validateSupportedMySQLVersion s = validateSupportedMySQLVersion s'" "upgrades\<^sup>+\<^sup>+ s t"
  shows "upgrades\<^sup>+\<^sup>+ s' t"
proof -
  from tranclpD [OF assms(2)] obtain u where "upgrades s u" "upgrades\<^sup>*\<^sup>* u t" by blast
  with assms(1) have "upgrades s' u" by (simp add: upgrades_iff)
  then show ?thesis using \<open>upgrades\<^sup>*\<^sup>* u t\<close> by (rule rtranclp_into_tranclp2)
qed

lemma waypoints:
  "validateSupportedMySQLVersion ''5.7.44'' = Inr (MysqlVersion 5 7 44)"
  "validateSupportedMySQLVersion ''8.0.11'' = Inr (MysqlVersion 8 0 11)"
  "validateSupportedMySQLVersion ''8.4.0'' = Inr (MysqlVersion 8 4 0)"
  by code_simp+

lemma upgrades_from_8:
  assumes a: "validateSupportedMySQLVersion s = Inr a" and b: "validateSupportedMySQLVersion t = Inr b"
    and "a < b" "Major a = 8"
  shows "upgrades\<^sup>+\<^sup>+ s t"
proof (cases "Major b = 9 \<and> Minor a < 4")
  case True
  then have "upgrades s ''8.4.0''" "upgrades ''8.4.0'' t"
    using assms waypoints(3) by (auto simp: upgrades_iff allowed_upgrade_def version_order)
  then show ?thesis by (meson tranclp.r_into_trancl tranclp.trancl_into_trancl)
next
  case False
  from a have "Minor a \<le> 4" using \<open>Major a = 8\<close> by (auto simp: validate_supported supported_version_def)
  with False assms have "upgrades s t" by (auto simp: upgrades_iff allowed_upgrade_def)
  then show ?thesis by (rule tranclp.r_into_trancl)
qed

text \<open>From the bridge version, the way into 8.0 and from there on.\<close>

lemma upgrades_from_bridge:
  assumes "validateSupportedMySQLVersion target = Inr b" "Major b \<noteq> 5"
  shows "upgrades\<^sup>+\<^sup>+ ''5.7.44'' target"
proof (cases "Major b = 8 \<and> Minor b = 0")
  case True
  with assms(1) waypoints(1) have "upgrades ''5.7.44'' target"
    by (auto simp: upgrades_iff allowed_upgrade_def version_order)
  then show ?thesis by (rule tranclp.r_into_trancl)
next
  case False
  from assms have b8: "Major b = 8 \<or> Major b = 9" "0 \<le> Minor b" "0 \<le> Patch b" "Major b = 8 \<and> Minor b = 0 \<longrightarrow> 11 \<le> Patch b"
    by (auto simp: validate_supported supported_version_def)
  have "upgrades ''5.7.44'' ''8.0.11''"
    unfolding upgrades_iff waypoints by (auto simp: upgrades_iff allowed_upgrade_def version_order)
  moreover have "upgrades\<^sup>+\<^sup>+ ''8.0.11'' target"
    using False b8 by (intro upgrades_from_8 [OF waypoints(2) assms(1)]) (auto simp: version_order)
  ultimately show ?thesis by (rule tranclp_into_tranclp2)
qed

text \<open>C37: Although many direct upgrades are refused, no installation is stuck: from every supported release
  every newer supported release is reached by a sequence of accepted upgrades.\<close>

theorem upgrade_path_exists:
  assumes "validateSupportedMySQLVersion current = Inr a" "validateSupportedMySQLVersion target = Inr b" "a < b"
  shows "upgrades\<^sup>+\<^sup>+ current target"
proof -
  consider (same) "Major a = 5" "Major b = 5" | (leave) "Major a = 5" "Major b \<noteq> 5" | (eight) "Major a = 8" | (nine) "Major a = 9"
    using assms(1) supported_majors [of a] by (auto simp: validate_supported)
  then show ?thesis
  proof cases
    case same
    with assms have "upgrades current target" by (auto simp: upgrades_iff allowed_upgrade_def)
    then show ?thesis by (rule tranclp.r_into_trancl)
  next
    case eight
    with assms show ?thesis by (intro upgrades_from_8)
  next
    case nine
    with assms have "upgrades current target"
      by (auto simp: upgrades_iff allowed_upgrade_def version_order)
    then show ?thesis by (rule tranclp.r_into_trancl)
  next
    case leave
    note up8 = upgrades_from_bridge [OF assms(2) leave(2)]
    show ?thesis
    proof (cases "a = MysqlVersion 5 7 44")
      case True
      with assms(1,2) up8 leave show ?thesis
        by (intro upgrades_same_start [OF _ up8]) (simp add: waypoints)
    next
      case False
      with leave assms(1) waypoints(1) have "upgrades current ''5.7.44''"
        by (cases a) (auto simp: upgrades_iff allowed_upgrade_def validate_supported supported_version_def version_order)
      with up8 show ?thesis by (metis tranclp_into_tranclp2)
    qed
  qed
qed

theorem upgrade_path_exists_witness: "upgrades\<^sup>+\<^sup>+ ''5.7.44'' ''8.4.0'' \<and> \<not> upgrades ''5.7.44'' ''8.4.0''"
proof
  show "upgrades\<^sup>+\<^sup>+ ''5.7.44'' ''8.4.0''"
    by (rule upgrade_path_exists [OF waypoints(1) waypoints(3)]) (simp add: version_order)
  show "\<not> upgrades ''5.7.44'' ''8.4.0''"
    by (simp add: upgrades_iff waypoints allowed_upgrade_def)
qed

end
