(* ===== verification/Mysql_Accounts.thy ===== *)
theory Mysql_Accounts
  imports Mysql_Version
begin

text \<open>
  The managed MySQL accounts: \<open>internal/mysql/accounts.go\<close> (normalisation, validation, the statements that
  create and grant an account, the initialisation run) and the presets of
  \<open>internal/app/mysql_service.go\<close>. A nil slice of privileges is \<open>None\<close>. The database is an argument: the outcome of
  connecting, and a function from the statements already executed to the error of the next one.
\<close>

abbreviation AccountRoleMonitor :: string where "AccountRoleMonitor \<equiv> ''monitor''"
abbreviation AccountRoleMHA :: string where "AccountRoleMHA \<equiv> ''mha''"
abbreviation AccountRoleBackup :: string where "AccountRoleBackup \<equiv> ''backup''"
abbreviation DefaultAccountPassword :: string where "DefaultAccountPassword \<equiv> ''3306niubi''"
abbreviation DefaultAccountHost :: string where "DefaultAccountHost \<equiv> ''%''"

subsection \<open>Specifications\<close>

record account_spec =
  as_Role :: string
  as_Username :: string
  as_Password :: string
  as_Host :: string
  as_Enabled :: bool
  as_ExtendedBackup :: bool
  as_Privileges :: "string list option"

definition priv_list :: "account_spec \<Rightarrow> string list" where
  "priv_list s = (case as_Privileges s of None \<Rightarrow> [] | Some ps \<Rightarrow> ps)"

definition normalizeRole :: "string \<Rightarrow> string" where
  "normalizeRole role = to_lower (trim_space role)"

definition AvailablePrivileges :: "string list" where
  "AvailablePrivileges = [''SELECT'', ''INSERT'', ''UPDATE'', ''DELETE'', ''CREATE'', ''CREATE USER'', ''ALTER'', ''DROP'',
     ''SHOW VIEW'', ''TRIGGER'', ''EVENT'', ''PROCESS'', ''RELOAD'', ''LOCK TABLES'', ''REPLICATION CLIENT'',
     ''REPLICATION SLAVE'', ''SUPER'', ''CONNECTION_ADMIN'', ''SYSTEM_VARIABLES_ADMIN'', ''REPLICATION_SLAVE_ADMIN'',
     ''BACKUP_ADMIN'', ''CLONE_ADMIN'']"

definition mha_privileges :: "string list" where
  "mha_privileges = [''CREATE'', ''CREATE USER'', ''ALTER'', ''DROP'', ''INSERT'', ''UPDATE'', ''DELETE'', ''SELECT'',
     ''SHOW VIEW'', ''TRIGGER'', ''EVENT'', ''PROCESS'', ''RELOAD'', ''LOCK TABLES'', ''REPLICATION CLIENT'',
     ''REPLICATION SLAVE'', ''CONNECTION_ADMIN'', ''SYSTEM_VARIABLES_ADMIN'', ''REPLICATION_SLAVE_ADMIN'',
     ''BACKUP_ADMIN'', ''CLONE_ADMIN'']"

definition DefaultPrivileges :: "string \<Rightarrow> string list" where
  "DefaultPrivileges role =
     (let r = normalizeRole role
      in if r = AccountRoleMonitor then [''SELECT'', ''PROCESS'', ''REPLICATION CLIENT'']
         else if r = AccountRoleMHA then mha_privileges
         else if r = AccountRoleBackup then [''SELECT'', ''PROCESS'', ''RELOAD'', ''LOCK TABLES'', ''REPLICATION CLIENT'']
         else [''SELECT''])"

definition default_spec :: "string \<Rightarrow> account_spec" where
  "default_spec role = \<lparr>as_Role = role, as_Username = role, as_Password = DefaultAccountPassword,
     as_Host = DefaultAccountHost, as_Enabled = True, as_ExtendedBackup = False,
     as_Privileges = Some (DefaultPrivileges role)\<rparr>"

definition DefaultAccountSpecs :: "account_spec list" where
  "DefaultAccountSpecs = map default_spec [AccountRoleMonitor, AccountRoleMHA, AccountRoleBackup]"

fun normalize_privs :: "string list \<Rightarrow> string list \<Rightarrow> string list" where
  "normalize_privs seen [] = []"
| "normalize_privs seen (raw # raws) =
     (let item = to_upper (trim_space raw)
      in if item = [] \<or> item \<notin> set AvailablePrivileges \<or> item \<in> set seen then normalize_privs seen raws
         else item # normalize_privs (item # seen) raws)"

definition normalizePrivileges :: "string list \<Rightarrow> string list" where
  "normalizePrivileges items = normalize_privs [] items"

definition append_required :: "string list \<Rightarrow> string list \<Rightarrow> string list" where
  "append_required items required = items @ filter (\<lambda>r. r \<notin> set items) required"

definition ensureManagementPrivileges :: "string list \<Rightarrow> string list" where
  "ensureManagementPrivileges items = append_required items (DefaultPrivileges AccountRoleMHA)"

text \<open>The accounts by role, with the order in which the roles first appear.\<close>

type_synonym account_map = "string \<Rightarrow> account_spec option"

definition merge_spec :: "string \<Rightarrow> account_spec \<Rightarrow> account_spec \<Rightarrow> account_spec" where
  "merge_spec role item base0 =
     (let base = base0\<lparr>as_Role := role\<rparr>;
          base = (if trim_space (as_Username item) \<noteq> [] then base\<lparr>as_Username := trim_space (as_Username item)\<rparr> else base);
          base = (if trim_space (as_Password item) \<noteq> [] then base\<lparr>as_Password := as_Password item\<rparr> else base);
          base = (if trim_space (as_Host item) \<noteq> [] then base\<lparr>as_Host := trim_space (as_Host item)\<rparr> else base);
          base = base\<lparr>as_Enabled := as_Enabled item, as_ExtendedBackup := as_ExtendedBackup item\<rparr>;
          base = (case as_Privileges item of None \<Rightarrow> base | Some ps \<Rightarrow> base\<lparr>as_Privileges := Some (normalizePrivileges ps)\<rparr>)
      in if role = AccountRoleMHA then base\<lparr>as_Privileges := Some (ensureManagementPrivileges (priv_list base))\<rparr> else base)"

definition empty_spec :: "string \<Rightarrow> bool \<Rightarrow> account_spec" where
  "empty_spec role enabled = \<lparr>as_Role = role, as_Username = [], as_Password = [], as_Host = [],
     as_Enabled = enabled, as_ExtendedBackup = False, as_Privileges = None\<rparr>"

definition merge_item :: "account_spec \<Rightarrow> account_map \<times> string list \<Rightarrow> account_map \<times> string list" where
  "merge_item item st =
     (case st of (byRole, order) \<Rightarrow>
        let role = normalizeRole (as_Role item)
        in if role = [] then st
           else (case byRole role of
                   Some base \<Rightarrow> (byRole(role := Some (merge_spec role item base)), order)
                 | None \<Rightarrow> (byRole(role := Some (merge_spec role item (empty_spec role (as_Enabled item)))), order @ [role])))"

definition default_map :: "account_map \<times> string list" where
  "default_map = fold (\<lambda>d (m, order). (m(normalizeRole (as_Role d) := Some d), order @ [normalizeRole (as_Role d)]))
     DefaultAccountSpecs (\<lambda>_. None, [])"

definition fill_spec :: "string \<Rightarrow> account_spec \<Rightarrow> account_spec" where
  "fill_spec role item =
     (let item = (if trim_space (as_Username item) = [] then item\<lparr>as_Username := role\<rparr> else item);
          item = (if trim_space (as_Password item) = [] then item\<lparr>as_Password := DefaultAccountPassword\<rparr> else item)
      in if trim_space (as_Host item) = [] then item\<lparr>as_Host := DefaultAccountHost\<rparr> else item)"

fun collect_specs :: "account_map \<Rightarrow> string list \<Rightarrow> string list \<Rightarrow> account_spec list" where
  "collect_specs m seen [] = []"
| "collect_specs m seen (role # order) =
     (if role \<in> set seen then collect_specs m seen order
      else (case m role of
              None \<Rightarrow> fill_spec role (empty_spec [] False)
            | Some item \<Rightarrow> fill_spec role item) # collect_specs m (role # seen) order)"

definition NormalizeAccountSpecs :: "account_spec list \<Rightarrow> account_spec list" where
  "NormalizeAccountSpecs input =
     (case fold merge_item input default_map of (m, order) \<Rightarrow> collect_specs m [] order)"

subsection \<open>Validation\<close>

definition name_start :: "char \<Rightarrow> bool" where
  "name_start c \<longleftrightarrow> is_digit c \<or> (65 \<le> char_code c \<and> char_code c \<le> 90) \<or> (97 \<le> char_code c \<and> char_code c \<le> 122) \<or> c = CHR ''_''"

text \<open>The regular expressions \<open>accountNameRE\<close> and \<open>accountHostRE\<close>.\<close>

definition account_name_ok :: "string \<Rightarrow> bool" where
  "account_name_ok s =
     (case s of [] \<Rightarrow> False
      | c # cs \<Rightarrow> name_start c \<and> length cs \<le> 63 \<and> list_all (\<lambda>x. name_start x \<or> x \<in> set ''.-'') cs)"

definition account_host_ok :: "string \<Rightarrow> bool" where
  "account_host_ok s \<longleftrightarrow> s \<noteq> [] \<and> list_all (\<lambda>x. name_start x \<or> x \<in> set ''%.-:/'') s"

definition validatePrivileges :: "string list option \<Rightarrow> go_error option" where
  "validatePrivileges items =
     (case items of
        None \<Rightarrow> None
      | Some ps \<Rightarrow> if length ps \<noteq> length (normalizePrivileges ps)
                   then Some (Error ''contains unsupported or duplicate privilege'') else None)"

definition validate_spec :: "account_spec \<Rightarrow> go_error option" where
  "validate_spec item =
     (if \<not> as_Enabled item then None
      else if normalizeRole (as_Role item) = [] then Some (Error ''account role is required'')
      else if \<not> account_name_ok (as_Username item)
      then Some (Errorf ''invalid mysql account username for role %s: %s'' [as_Role item, as_Username item])
      else if \<not> account_host_ok (as_Host item)
      then Some (Errorf ''invalid mysql account host for role %s: %s'' [as_Role item, as_Host item])
      else if trim_space (as_Password item) = []
      then Some (Errorf ''mysql account password is required for role %s'' [as_Role item])
      else (case validatePrivileges (as_Privileges item) of
              None \<Rightarrow> None
            | Some e \<Rightarrow> Some (Wrap ''invalid mysql privileges for role %s: %w'' [as_Role item] e)))"

fun ValidateAccountSpecs :: "account_spec list \<Rightarrow> go_error option" where
  "ValidateAccountSpecs [] = None"
| "ValidateAccountSpecs (item # items) =
     (case validate_spec item of Some e \<Rightarrow> Some e | None \<Rightarrow> ValidateAccountSpecs items)"

subsection \<open>Statements\<close>

definition sqlString :: "string \<Rightarrow> string" where
  "sqlString v = [CHR 0x27] @ replace_char (CHR 0x27) [CHR 0x27, CHR 0x27] v @ [CHR 0x27]"

definition accountIdent :: "string \<Rightarrow> string \<Rightarrow> string" where
  "accountIdent username host = sqlString username @ ''@'' @ sqlString host"

definition grantSQL :: "account_spec \<Rightarrow> string list \<Rightarrow> string" where
  "grantSQL spec privileges =
     sprintf ''GRANT %s ON *.* TO %s'' [join '', '' privileges, accountIdent (as_Username spec) (as_Host spec)] @
     (if normalizeRole (as_Role spec) = AccountRoleMHA then '' WITH GRANT OPTION'' else [])"

definition filterStaticPrivileges :: "string list \<Rightarrow> string list" where
  "filterStaticPrivileges items = filter (\<lambda>p. p \<notin> set dynamic_privileges) (normalizePrivileges items)"

definition filterDynamicPrivileges :: "string list \<Rightarrow> string list" where
  "filterDynamicPrivileges items = filter (\<lambda>p. p \<in> set dynamic_privileges) (normalizePrivileges items)"

definition basePrivileges :: "account_spec \<Rightarrow> string list" where
  "basePrivileges spec =
     (case as_Privileges spec of
        Some ps \<Rightarrow> filterStaticPrivileges ps
      | None \<Rightarrow> filterStaticPrivileges (DefaultPrivileges (as_Role spec)))"

definition dynamicPrivileges :: "account_spec \<Rightarrow> string list" where
  "dynamicPrivileges spec =
     (case as_Privileges spec of
        Some ps \<Rightarrow> filterDynamicPrivileges ps
      | None \<Rightarrow>
          (let ps = DefaultPrivileges (as_Role spec)
           in filterDynamicPrivileges
                (if as_Role spec = AccountRoleBackup \<and> as_ExtendedBackup spec then ps @ [''BACKUP_ADMIN''] else ps)))"

definition dynamicPrivilegesForVersion :: "account_spec \<Rightarrow> string \<Rightarrow> string list" where
  "dynamicPrivilegesForVersion spec ver = filter (SupportsDynamicPrivilegeForVersion ver) (dynamicPrivileges spec)"

definition containsPrivilege :: "string list \<Rightarrow> string \<Rightarrow> bool" where
  "containsPrivilege items wanted = list_ex (\<lambda>i. equal_fold (trim_space i) wanted) items"

text \<open>A release the rules do not know has no capability at all.\<close>

definition granted_base :: "account_spec \<Rightarrow> string \<Rightarrow> string list" where
  "granted_base spec ver =
     (let base = basePrivileges spec;
          legacyAdmin = (case CapabilitiesForVersion ver of Inl _ \<Rightarrow> True | Inr c \<Rightarrow> \<not> cap_SupportsDynamicPrivileges c)
      in if legacyAdmin \<and> normalizeRole (as_Role spec) = AccountRoleMHA \<and> \<not> containsPrivilege base ''SUPER''
         then base @ [''SUPER''] else base)"

definition accountSQLStepsForVersion :: "account_spec \<Rightarrow> string \<Rightarrow> (string \<times> string) list" where
  "accountSQLStepsForVersion spec ver =
     (let user = accountIdent (as_Username spec) (as_Host spec);
          base = granted_base spec ver;
          dynamic = dynamicPrivilegesForVersion spec ver
      in [(''create_user'', ''CREATE USER IF NOT EXISTS '' @ user @ '' IDENTIFIED BY '' @ sqlString (as_Password spec)),
          (''alter_user'', ''ALTER USER '' @ user @ '' IDENTIFIED BY '' @ sqlString (as_Password spec))] @
         (if base \<noteq> [] then [(''grant_base'', grantSQL spec base)] else []) @
         (if dynamic \<noteq> [] then [(''grant_dynamic'', grantSQL spec dynamic)] else []) @
         [(''flush_privileges'', ''FLUSH PRIVILEGES'')])"

definition accountSQLSteps :: "account_spec \<Rightarrow> (string \<times> string) list" where
  "accountSQLSteps spec = accountSQLStepsForVersion spec ''8.0.35''"

subsection \<open>Initialisation\<close>

record sql_error =
  se_Number :: "nat option"
  se_Text :: string

record init_item =
  ii_Role :: string
  ii_Username :: string
  ii_Host :: string
  ii_Enabled :: bool
  ii_Skipped :: bool
  ii_UserCreated :: bool
  ii_PasswordUpdated :: bool
  ii_Granted :: bool
  ii_Success :: bool
  ii_Retryable :: bool
  ii_Error :: string
  ii_ExecutedSteps :: "string list"

record init_result =
  ir_Enabled :: bool
  ir_Success :: bool
  ir_PartialSuccess :: bool
  ir_Retryable :: bool
  ir_Summary :: string
  ir_Items :: "init_item list"

definition no_init_item :: init_item where
  "no_init_item = \<lparr>ii_Role = [], ii_Username = [], ii_Host = [], ii_Enabled = False, ii_Skipped = False,
     ii_UserCreated = False, ii_PasswordUpdated = False, ii_Granted = False, ii_Success = False,
     ii_Retryable = False, ii_Error = [], ii_ExecutedSteps = []\<rparr>"

text \<open>The database: the error of the next statement, given the statements executed before it.\<close>

type_synonym sql_db = "string list \<Rightarrow> string \<Rightarrow> sql_error option"

definition isRetryableMySQLError :: "sql_error \<Rightarrow> bool" where
  "isRetryableMySQLError err =
     (if se_Number err = Some 1045 then False
      else let text = to_lower (se_Text err)
           in contains text ''connection refused'' \<or> contains text ([CHR ''c'', CHR ''a'', CHR ''n'', CHR 0x27] @ ''t connect'') \<or>
              contains text ''i/o timeout'' \<or> contains text ''timeout'' \<or> contains text ''connection reset'')"

definition classifyAccountStepError :: "string \<Rightarrow> sql_error \<Rightarrow> string" where
  "classifyAccountStepError step err =
     (if step = ''create_user'' then ''creating the account failed: '' @ se_Text err
      else if step = ''alter_user'' then ''updating the password failed: '' @ se_Text err
      else if step = ''grant_base'' \<or> step = ''grant_dynamic'' then ''granting failed: '' @ se_Text err
      else step @ '' failed: '' @ se_Text err)"

definition step_done :: "string \<Rightarrow> init_item \<Rightarrow> init_item" where
  "step_done name item0 =
     (let item = item0\<lparr>ii_ExecutedSteps := ii_ExecutedSteps item0 @ [name]\<rparr>
      in if name = ''create_user'' then item\<lparr>ii_UserCreated := True\<rparr>
         else if name = ''alter_user'' then item\<lparr>ii_PasswordUpdated := True\<rparr>
         else if name = ''grant_base'' \<or> name = ''grant_dynamic'' then item\<lparr>ii_Granted := True\<rparr>
         else item)"

fun run_steps :: "sql_db \<Rightarrow> string list \<Rightarrow> (string \<times> string) list \<Rightarrow> init_item \<Rightarrow> init_item \<times> string list" where
  "run_steps db log [] item = (item\<lparr>ii_Success := True\<rparr>, log)"
| "run_steps db log ((name, sql) # steps) item =
     (case db log sql of
        Some err \<Rightarrow> (item\<lparr>ii_Error := classifyAccountStepError name err, ii_Retryable := isRetryableMySQLError err,
                          ii_Success := False\<rparr>, log @ [sql])
      | None \<Rightarrow> run_steps db (log @ [sql]) steps (step_done name item))"

definition initializeOne :: "sql_db \<Rightarrow> string \<Rightarrow> string list \<Rightarrow> account_spec \<Rightarrow> init_item \<times> string list" where
  "initializeOne db ver log spec =
     (let item = no_init_item\<lparr>ii_Role := as_Role spec, ii_Username := as_Username spec, ii_Host := as_Host spec,
                               ii_Enabled := as_Enabled spec\<rparr>
      in if \<not> as_Enabled spec
         then (item\<lparr>ii_Skipped := True, ii_Success := True, ii_ExecutedSteps := [''skipped'']\<rparr>, log)
         else run_steps db log (accountSQLStepsForVersion spec ver) item)"

fun initialize_all :: "sql_db \<Rightarrow> string \<Rightarrow> string list \<Rightarrow> account_spec list \<Rightarrow> init_item list \<times> string list" where
  "initialize_all db ver log [] = ([], log)"
| "initialize_all db ver log (spec # specs) =
     (case initializeOne db ver log spec of
        (item, log') \<Rightarrow> (case initialize_all db ver log' specs of (items, log'') \<Rightarrow> (item # items, log'')))"

definition accountInitConnectFailure :: "sql_error \<Rightarrow> init_result" where
  "accountInitConnectFailure err =
     \<lparr>ir_Enabled = True, ir_Success = False, ir_PartialSuccess = False, ir_Retryable = isRetryableMySQLError err,
      ir_Summary = ''connecting to MySQL failed: '' @ se_Text err,
      ir_Items = [no_init_item\<lparr>ii_Enabled := True, ii_Success := False, ii_Retryable := isRetryableMySQLError err,
                               ii_Error := ''connecting failed: '' @ se_Text err\<rparr>]\<rparr>"

definition counted :: "init_item list \<Rightarrow> init_item list" where
  "counted items = filter (\<lambda>i. ii_Enabled i \<and> \<not> ii_Skipped i) items"

definition init_summary :: "init_item list \<Rightarrow> init_result" where
  "init_summary items =
     (let enabledCount = length (counted items);
          successCount = length (filter ii_Success (counted items));
          ok = (enabledCount = successCount)
      in \<lparr>ir_Enabled = True, ir_Success = ok,
          ir_PartialSuccess = (successCount > 0 \<and> successCount < enabledCount),
          ir_Retryable = list_ex ii_Retryable (counted items),
          ir_Summary = sprintf (if ok then ''account initialisation finished: success=%d/%d''
                                else ''account initialisation partly failed: success=%d/%d'')
                         [show_nat successCount, show_nat enabledCount],
          ir_Items = items\<rparr>)"

definition Initialize :: "sql_error option \<Rightarrow> sql_db \<Rightarrow> string \<Rightarrow> account_spec list \<Rightarrow> init_result \<times> string list" where
  "Initialize connect db ver specs0 =
     (let specs = NormalizeAccountSpecs specs0
      in case ValidateAccountSpecs specs of
           Some err \<Rightarrow>
             (\<lparr>ir_Enabled = True, ir_Success = False, ir_PartialSuccess = False, ir_Retryable = False,
               ir_Summary = ''invalid account configuration: '' @ error_text err,
               ir_Items = [no_init_item\<lparr>ii_Enabled := False, ii_Error := error_text err\<rparr>]\<rparr>, [])
         | None \<Rightarrow>
             (case connect of
                Some err \<Rightarrow> (accountInitConnectFailure err, [])
              | None \<Rightarrow> (case initialize_all db ver [] specs of (items, log) \<Rightarrow> (init_summary items, log))))"

subsection \<open>Presets\<close>

definition defaultMySQLAccountPresets :: "account_spec list" where
  "defaultMySQLAccountPresets = map (\<lambda>role. \<lparr>as_Role = role, as_Username = role, as_Password = ''3306niubi'',
     as_Host = ''%'', as_Enabled = True, as_ExtendedBackup = False, as_Privileges = Some (DefaultPrivileges role)\<rparr>)
     [''monitor'', ''mha'', ''backup'']"

definition appendRequiredPrivileges :: "string list \<Rightarrow> string list \<Rightarrow> string list" where
  "appendRequiredPrivileges items required = append_required items required"

text \<open>Copying a slice with \<open>append([]string(nil), ...)\<close> turns an empty one into nil.\<close>

definition copy_slice :: "string list \<Rightarrow> string list option" where
  "copy_slice ps = (if ps = [] then None else Some ps)"

definition merge_preset :: "account_spec \<Rightarrow> account_map \<Rightarrow> account_map" where
  "merge_preset item byRole =
     (let role = to_lower (trim_space (as_Role item))
      in case byRole role of
           None \<Rightarrow> byRole
         | Some base0 \<Rightarrow>
             (let base = (if trim_space (as_Username item) \<noteq> [] then base0\<lparr>as_Username := trim_space (as_Username item)\<rparr> else base0);
                  base = (if as_Password item \<noteq> [] then base\<lparr>as_Password := as_Password item\<rparr> else base);
                  base = (if trim_space (as_Host item) \<noteq> [] then base\<lparr>as_Host := trim_space (as_Host item)\<rparr> else base);
                  base = base\<lparr>as_Enabled := as_Enabled item, as_ExtendedBackup := as_ExtendedBackup item\<rparr>;
                  base = (case as_Privileges item of None \<Rightarrow> base | Some ps \<Rightarrow> base\<lparr>as_Privileges := copy_slice ps\<rparr>);
                  base = (if role = ''mha''
                          then base\<lparr>as_Privileges := copy_slice (appendRequiredPrivileges (priv_list base) (DefaultPrivileges AccountRoleMHA))\<rparr>
                          else base)
              in byRole(role := Some base)))"

definition preset_of :: "account_map \<Rightarrow> string \<Rightarrow> account_spec" where
  "preset_of m role = (case m role of None \<Rightarrow> empty_spec [] False | Some s \<Rightarrow> s)"

definition normalizeMySQLAccountPresets :: "account_spec list \<Rightarrow> account_spec list" where
  "normalizeMySQLAccountPresets items =
     (let m = fold merge_preset items (fold (\<lambda>d m. m(as_Role d := Some d)) defaultMySQLAccountPresets (\<lambda>_. None))
      in [preset_of m ''monitor'', preset_of m ''mha'', preset_of m ''backup''])"

subsection \<open>What the managed accounts are granted\<close>

lemma normalize_privs_props:
  "set (normalize_privs seen raws) \<subseteq> set AvailablePrivileges - set seen \<and> distinct (normalize_privs seen raws)"
proof (induction raws arbitrary: seen)
  case (Cons raw raws)
  show ?case using Cons [of seen] Cons [of "to_upper (trim_space raw) # seen"] by (auto simp: Let_def)
qed simp

lemma normalizePrivileges_available: "set (normalizePrivileges ps) \<subseteq> set AvailablePrivileges"
  using normalize_privs_props [of "[]" ps] by (auto simp: normalizePrivileges_def)

lemma normalize_privs_keeps:
  "p \<in> set raws \<Longrightarrow> to_upper (trim_space p) = p \<Longrightarrow> p \<noteq> [] \<Longrightarrow> p \<in> set AvailablePrivileges \<Longrightarrow>
   p \<in> set (normalize_privs seen raws) \<union> set seen"
proof (induction raws arbitrary: seen)
  case (Cons raw raws)
  then show ?case
    using Cons.IH [of seen] Cons.IH [of "to_upper (trim_space raw) # seen"] by (auto simp: Let_def)
qed simp

lemma mha_privileges_plain: "list_all (\<lambda>p. to_upper (trim_space p) = p \<and> p \<noteq> [] \<and> p \<in> set AvailablePrivileges) mha_privileges"
  by code_simp

lemma normalizePrivileges_mha: "set mha_privileges \<subseteq> set ps \<Longrightarrow> set mha_privileges \<subseteq> set (normalizePrivileges ps)"
  using normalize_privs_keeps [of _ ps "[]"] mha_privileges_plain
  unfolding normalizePrivileges_def list_all_iff by fastforce

text \<open>The accounts of role \<open>mha\<close> keep all management privileges through the merge.\<close>

definition mha_complete :: "account_spec \<Rightarrow> bool" where
  "mha_complete s \<longleftrightarrow> (\<exists>ps. as_Privileges s = Some ps \<and> set mha_privileges \<subseteq> set ps)"

lemma DefaultPrivileges_mha [simp]: "DefaultPrivileges AccountRoleMHA = mha_privileges"
  by code_simp

lemma set_append_required [simp]: "set (append_required items required) = set items \<union> set required"
  by (auto simp: append_required_def)

lemma merge_spec_mha: "mha_complete (merge_spec AccountRoleMHA item base)"
  by (simp add: merge_spec_def Let_def mha_complete_def ensureManagementPrivileges_def)

lemma merge_item_mha:
  assumes "\<forall>s. m AccountRoleMHA = Some s \<longrightarrow> mha_complete s" "merge_item item (m, order) = (m', order')"
  shows "\<forall>s. m' AccountRoleMHA = Some s \<longrightarrow> mha_complete s"
  using assms merge_spec_mha by (auto simp: merge_item_def Let_def split: if_splits option.splits)

lemma fold_merge_mha:
  assumes "\<forall>s. m AccountRoleMHA = Some s \<longrightarrow> mha_complete s" "fold merge_item items (m, order) = (m', order')"
  shows "\<forall>s. m' AccountRoleMHA = Some s \<longrightarrow> mha_complete s"
  using assms
proof (induction items arbitrary: m order)
  case (Cons item items)
  obtain m1 o1 where step: "merge_item item (m, order) = (m1, o1)" by (metis prod.collapse)
  with Cons.prems have "fold merge_item items (m1, o1) = (m', order')" by simp
  with Cons.IH merge_item_mha [OF Cons.prems(1) step] show ?case by blast
qed simp

text \<open>Every entry of the map has the role of its key, and the roles of the defaults stay in the order.\<close>

definition map_sane :: "account_map \<times> string list \<Rightarrow> bool" where
  "map_sane st \<longleftrightarrow> (\<exists>s. fst st AccountRoleMHA = Some s \<and> as_Role s = AccountRoleMHA \<and> mha_complete s) \<and>
     AccountRoleMHA \<in> set (snd st)"

lemma merge_spec_role [simp]: "as_Role (merge_spec role item base) = role"
  by (simp add: merge_spec_def Let_def split: option.splits)

lemma merge_item_sane: "map_sane st \<Longrightarrow> map_sane (merge_item item st)"
  using merge_spec_mha by (cases st) (auto simp: merge_item_def map_sane_def Let_def split: option.splits)

lemma fold_merge_sane: "map_sane st \<Longrightarrow> map_sane (fold merge_item items st)"
  by (induction items arbitrary: st) (simp_all add: merge_item_sane)

lemma default_map_sane: "map_sane default_map"
proof -
  have "fst default_map AccountRoleMHA = Some (default_spec AccountRoleMHA) \<and> AccountRoleMHA \<in> set (snd default_map)"
    by code_simp
  then show ?thesis by (simp add: map_sane_def default_spec_def mha_complete_def)
qed

lemma collect_specs_mem:
  "role \<in> set order \<Longrightarrow> role \<notin> set seen \<Longrightarrow> m role = Some item \<Longrightarrow> fill_spec role item \<in> set (collect_specs m seen order)"
proof (induction order arbitrary: seen)
  case (Cons a order)
  then show ?case by (cases "a = role") (auto split: option.splits)
qed simp

lemma fill_spec_keeps [simp]:
  "as_Role (fill_spec role s) = as_Role s" "as_Privileges (fill_spec role s) = as_Privileges s"
  by (simp_all add: fill_spec_def Let_def)

definition granted :: "account_spec \<Rightarrow> string \<Rightarrow> string set" where
  "granted s ver = set (granted_base s ver) \<union> set (dynamicPrivilegesForVersion s ver)"

definition dynamic_release :: "string \<Rightarrow> bool" where
  "dynamic_release ver = (case CapabilitiesForVersion ver of Inl _ \<Rightarrow> False | Inr c \<Rightarrow> cap_SupportsDynamicPrivileges c)"

lemma dynamic_supported: "dynamic_release ver \<Longrightarrow> p \<in> set dynamic_privileges \<Longrightarrow> SupportsDynamicPrivilegeForVersion ver p"
proof -
  have "list_all (\<lambda>p. to_upper (trim_space p) = p) dynamic_privileges" by code_simp
  then show "dynamic_release ver \<Longrightarrow> p \<in> set dynamic_privileges \<Longrightarrow> SupportsDynamicPrivilegeForVersion ver p"
    by (auto simp: dynamic_release_def SupportsDynamicPrivilegeForVersion_def list_all_iff split: sum.splits)
qed

lemma mha_split:
  assumes "mha_complete s"
  shows "set mha_privileges - set dynamic_privileges \<subseteq> set (basePrivileges s)"
    and "set mha_privileges \<inter> set dynamic_privileges \<subseteq> set (dynamicPrivileges s)"
proof -
  from assms obtain ps where ps: "as_Privileges s = Some ps" "set mha_privileges \<subseteq> set ps" by (auto simp: mha_complete_def)
  from normalizePrivileges_mha [OF ps(2)] ps(1)
  show "set mha_privileges - set dynamic_privileges \<subseteq> set (basePrivileges s)"
    "set mha_privileges \<inter> set dynamic_privileges \<subseteq> set (dynamicPrivileges s)"
    by (auto simp: basePrivileges_def dynamicPrivileges_def filterStaticPrivileges_def filterDynamicPrivileges_def)
qed

lemma super_in_base:
  assumes "containsPrivilege (basePrivileges s) ''SUPER''"
  shows "''SUPER'' \<in> set (basePrivileges s)"
proof -
  have plain: "list_all (\<lambda>p. equal_fold (trim_space p) ''SUPER'' \<longrightarrow> p = ''SUPER'') AvailablePrivileges" by code_simp
  have "set (basePrivileges s) \<subseteq> set AvailablePrivileges"
    using normalizePrivileges_available by (auto simp: basePrivileges_def filterStaticPrivileges_def split: option.splits)
  with assms plain show ?thesis by (auto simp: containsPrivilege_def list_ex_iff list_all_iff)
qed

lemma granted_available: "granted s ver \<subseteq> set AvailablePrivileges"
proof -
  have "''SUPER'' \<in> set AvailablePrivileges" by code_simp
  then show ?thesis
    using normalizePrivileges_available
    by (auto simp: granted_def granted_base_def basePrivileges_def dynamicPrivilegesForVersion_def dynamicPrivileges_def
        filterStaticPrivileges_def filterDynamicPrivileges_def Let_def split: option.splits if_splits)
qed

definition required_privileges :: "string \<Rightarrow> string set" where
  "required_privileges ver =
     (if dynamic_release ver then set mha_privileges else insert ''SUPER'' (set mha_privileges - set dynamic_privileges))"

lemma required_granted:
  assumes "as_Role s = AccountRoleMHA" "mha_complete s"
  shows "required_privileges ver \<subseteq> granted s ver"
proof -
  have base: "set (basePrivileges s) \<subseteq> set (granted_base s ver)" by (auto simp: granted_base_def Let_def)
  show ?thesis
  proof (cases "dynamic_release ver")
    case True
    have "set (dynamicPrivileges s) \<inter> set dynamic_privileges \<subseteq> set (dynamicPrivilegesForVersion s ver)"
      using dynamic_supported [OF True] by (auto simp: dynamicPrivilegesForVersion_def)
    with True mha_split [OF assms(2)] base show ?thesis unfolding granted_def required_privileges_def by auto
  next
    case False
    have "normalizeRole (as_Role s) = AccountRoleMHA" unfolding assms(1) by code_simp
    with False have "''SUPER'' \<in> set (granted_base s ver)"
      using super_in_base by (auto simp: granted_base_def dynamic_release_def Let_def split: sum.splits)
    with False mha_split(1) [OF assms(2)] base show ?thesis unfolding granted_def required_privileges_def by auto
  qed
qed

text \<open>The statements of an account and the privileges its grants name.\<close>

definition statements_for :: "account_spec \<Rightarrow> string \<Rightarrow> string set" where
  "statements_for s ver = snd ` set (accountSQLStepsForVersion s ver)"

definition grant_statement :: "account_spec \<Rightarrow> string list \<Rightarrow> string" where
  "grant_statement s ps = ''GRANT '' @ join '', '' ps @ '' ON *.* TO '' @ accountIdent (as_Username s) (as_Host s) @ '' WITH GRANT OPTION''"

lemma management_grant:
  assumes "as_Role s = AccountRoleMHA"
  shows "grantSQL s ps = grant_statement s ps"
proof -
  have "normalizeRole AccountRoleMHA = AccountRoleMHA" by code_simp
  with assms show ?thesis by (simp add: grantSQL_def grant_statement_def)
qed

lemma granted_by_statements:
  assumes "as_Role s = AccountRoleMHA"
  shows "granted s ver \<subseteq> \<Union> {set ps | ps. grant_statement s ps \<in> statements_for s ver}"
proof -
  have "set ps \<subseteq> \<Union> {set ps | ps. grant_statement s ps \<in> statements_for s ver}"
    if "ps \<noteq> [] \<Longrightarrow> grant_statement s ps \<in> statements_for s ver" for ps
    using that by (cases "ps = []") auto
  then have "set (granted_base s ver) \<subseteq> \<Union> {set ps | ps. grant_statement s ps \<in> statements_for s ver}"
    "set (dynamicPrivilegesForVersion s ver) \<subseteq> \<Union> {set ps | ps. grant_statement s ps \<in> statements_for s ver}"
    using management_grant [OF assms] by (auto simp: statements_for_def accountSQLStepsForVersion_def Let_def)
  then show ?thesis unfolding granted_def by blast
qed

text \<open>The management account is enabled unless the last entry of its role in the request says otherwise.\<close>

definition management_enabled :: "account_spec list \<Rightarrow> bool" where
  "management_enabled input = (case find (\<lambda>i. normalizeRole (as_Role i) = AccountRoleMHA) (rev input) of
     None \<Rightarrow> True | Some i \<Rightarrow> as_Enabled i)"

lemma merged_enabled:
  "\<exists>s. fst (fold merge_item input default_map) AccountRoleMHA = Some s \<and> as_Enabled s = management_enabled input"
proof (induction input rule: rev_induct)
  case Nil
  have "fst default_map AccountRoleMHA = Some (default_spec AccountRoleMHA)" by code_simp
  then show ?case by (simp add: management_enabled_def default_spec_def)
next
  case (snoc item items)
  obtain m order where st: "fold merge_item items default_map = (m, order)" by fastforce
  with snoc obtain s where s: "m AccountRoleMHA = Some s" "as_Enabled s = management_enabled items" by auto
  have merged: "as_Enabled (merge_spec role item base) = as_Enabled item" for role base
    by (simp add: merge_spec_def Let_def split: option.splits)
  have run: "fold merge_item (items @ [item]) default_map = merge_item item (m, order)" using st by simp
  have "\<exists>s. fst (merge_item item (m, order)) AccountRoleMHA = Some s \<and> as_Enabled s = management_enabled (items @ [item])"
  proof (cases "normalizeRole (as_Role item) = AccountRoleMHA")
    case True
    then have "management_enabled (items @ [item]) = as_Enabled item" by (simp add: management_enabled_def)
    with True s merged show ?thesis by (simp add: merge_item_def Let_def)
  next
    case False
    then have "management_enabled (items @ [item]) = management_enabled items" by (simp add: management_enabled_def)
    with False s show ?thesis by (auto simp: merge_item_def Let_def split: option.split)
  qed
  then show ?case unfolding run .
qed

lemma normalized_management:
  "\<exists>s \<in> set (NormalizeAccountSpecs input). as_Role s = AccountRoleMHA \<and> mha_complete s \<and> as_Enabled s = management_enabled input"
proof -
  obtain m order where st: "fold merge_item input default_map = (m, order)" by fastforce
  then have "map_sane (m, order)" using fold_merge_sane [OF default_map_sane, of input] by simp
  then obtain s where s: "m AccountRoleMHA = Some s" "as_Role s = AccountRoleMHA" "mha_complete s" "AccountRoleMHA \<in> set order"
    by (auto simp: map_sane_def)
  have enabled: "as_Enabled s = management_enabled input" using merged_enabled [of input] st s(1) by auto
  have "fill_spec AccountRoleMHA s \<in> set (collect_specs m [] order)" using s by (intro collect_specs_mem) auto
  then show ?thesis using s st enabled
    by (intro bexI) (auto simp: NormalizeAccountSpecs_def mha_complete_def fill_spec_def Let_def)
qed

subsection \<open>What a successful initialisation has executed\<close>

fun clean :: "sql_db \<Rightarrow> string list \<Rightarrow> string list \<Rightarrow> bool" where
  "clean db log [] = True"
| "clean db log (sql # sqls) = (db log sql = None \<and> clean db (log @ [sql]) sqls)"

lemma clean_append: "clean db log (xs @ ys) \<longleftrightarrow> clean db log xs \<and> clean db (log @ xs) ys"
  by (induction xs arbitrary: log) auto

lemma step_done_success [simp]: "ii_Success (step_done name item) = ii_Success item"
  by (simp add: step_done_def Let_def)

lemma step_done_flags [simp]:
  "ii_Enabled (step_done name item) = ii_Enabled item" "ii_Skipped (step_done name item) = ii_Skipped item"
  by (simp_all add: step_done_def Let_def)

lemma run_steps_flags [simp]:
  "ii_Enabled (fst (run_steps db log steps item)) = ii_Enabled item"
  "ii_Skipped (fst (run_steps db log steps item)) = ii_Skipped item"
  by (induction db log steps item rule: run_steps.induct) (auto split: option.splits)

lemma run_steps_success: "ii_Success (fst (run_steps db log steps item)) \<longleftrightarrow> clean db log (map snd steps)"
  by (induction db log steps item rule: run_steps.induct) (auto split: option.splits)

lemma run_steps_log: "clean db log (map snd steps) \<Longrightarrow> snd (run_steps db log steps item) = log @ map snd steps"
  by (induction db log steps item rule: run_steps.induct) auto

definition statements_of :: "string \<Rightarrow> account_spec list \<Rightarrow> string list" where
  "statements_of ver specs = concat (map (\<lambda>s. map snd (accountSQLStepsForVersion s ver)) (filter as_Enabled specs))"

lemma initialize_all_success:
  "list_all ii_Success (counted (fst (initialize_all db ver log specs))) \<longleftrightarrow> clean db log (statements_of ver specs)"
proof (induction specs arbitrary: log)
  case (Cons s specs)
  obtain item log' where one: "initializeOne db ver log s = (item, log')" by fastforce
  obtain items log'' where rest: "initialize_all db ver log' specs = (items, log'')" by fastforce
  note IH = Cons.IH [of log', unfolded rest fst_conv]
  show ?case
  proof (cases "as_Enabled s")
    case True
    let ?steps = "accountSQLStepsForVersion s ver"
    from one True have run: "item = fst (run_steps db log ?steps (no_init_item\<lparr>ii_Role := as_Role s, ii_Username := as_Username s,
          ii_Host := as_Host s, ii_Enabled := as_Enabled s\<rparr>))" "log' = snd (run_steps db log ?steps (no_init_item\<lparr>ii_Role := as_Role s,
          ii_Username := as_Username s, ii_Host := as_Host s, ii_Enabled := as_Enabled s\<rparr>))"
      by (simp_all add: initializeOne_def Let_def)
    then have flags: "ii_Enabled item" "\<not> ii_Skipped item" "ii_Success item \<longleftrightarrow> clean db log (map snd ?steps)"
      using True by (simp_all add: run_steps_success no_init_item_def)
    have "clean db log (map snd ?steps) \<Longrightarrow> log' = log @ map snd ?steps" using run run_steps_log by metis
    with one rest True IH flags show ?thesis by (auto simp: counted_def statements_of_def clean_append)
  next
    case False
    with one have "log' = log" "\<not> ii_Enabled item" by (auto simp: initializeOne_def Let_def no_init_item_def)
    with one rest False IH show ?thesis by (simp add: counted_def statements_of_def)
  qed
qed (simp add: counted_def statements_of_def)

lemma init_summary_success: "ir_Success (init_summary items) \<longleftrightarrow> list_all ii_Success (counted items)"
proof -
  have "length (filter ii_Success xs) = length xs \<longleftrightarrow> list_all ii_Success xs" for xs
    by (metis filter_id_conv length_filter_less less_irrefl list_all_iff)
  then show ?thesis by (simp add: init_summary_def Let_def eq_commute)
qed

text \<open>The initialisation reports success exactly when the configuration is valid, the server could be
  reached and every statement of every enabled account, one account after the other, was executed
  without an error.\<close>

theorem initialize_success_iff:
  "ir_Success (fst (Initialize connect db ver input)) \<longleftrightarrow>
     ValidateAccountSpecs (NormalizeAccountSpecs input) = None \<and> connect = None \<and>
     clean db [] (statements_of ver (NormalizeAccountSpecs input))"
  unfolding Initialize_def Let_def initialize_all_success [symmetric]
  by (simp add: accountInitConnectFailure_def split_beta init_summary_success split: option.splits)

lemma initialize_all_log:
  "clean db log (statements_of ver specs) \<Longrightarrow> snd (initialize_all db ver log specs) = log @ statements_of ver specs"
proof (induction specs arbitrary: log)
  case (Cons s specs)
  then show ?case
    by (auto simp: initializeOne_def Let_def statements_of_def clean_append run_steps_log split_beta)
qed (simp add: statements_of_def)

lemma initialize_success_log:
  assumes "ir_Success (fst (Initialize connect db ver input))"
  shows "snd (Initialize connect db ver input) = statements_of ver (NormalizeAccountSpecs input)"
  using assms initialize_all_log unfolding initialize_success_iff
  by (auto simp: Initialize_def Let_def split_beta)

text \<open>C35: Whatever account specifications are given, the accounts that are initialised contain a management account. It is
  enabled unless the last entry of its role in the request disables it. Its statements grant it, with
  GRANT OPTION, at least the management privileges of the release: on a release with dynamic privileges the full list, on
  an older one the static ones and \<open>SUPER\<close>; and apart from creating the user, setting its password and the
  flush they are grants of whitelisted privileges only. When it is enabled and the initialisation reports
  success, all of its statements have been sent to the server.\<close>

theorem management_account_granted:
  "\<exists>s \<in> set (NormalizeAccountSpecs input). as_Role s = AccountRoleMHA \<and> as_Enabled s = management_enabled input \<and>
     required_privileges ver \<subseteq> \<Union> {set ps | ps. grant_statement s ps \<in> snd ` set (accountSQLStepsForVersion s ver)} \<and>
     (\<forall>sql \<in> snd ` set (accountSQLStepsForVersion s ver).
        sql \<in> {''CREATE USER IF NOT EXISTS '' @ accountIdent (as_Username s) (as_Host s) @ '' IDENTIFIED BY '' @ sqlString (as_Password s),
               ''ALTER USER '' @ accountIdent (as_Username s) (as_Host s) @ '' IDENTIFIED BY '' @ sqlString (as_Password s),
               ''FLUSH PRIVILEGES''} \<or>
        (\<exists>ps. sql = grant_statement s ps \<and> set ps \<subseteq> set AvailablePrivileges)) \<and>
     (ir_Success (fst (Initialize connect db ver input)) \<and> management_enabled input \<longrightarrow>
        snd ` set (accountSQLStepsForVersion s ver) \<subseteq> set (snd (Initialize connect db ver input)))"
proof -
  obtain s where s: "s \<in> set (NormalizeAccountSpecs input)" "as_Role s = AccountRoleMHA" "mha_complete s" "as_Enabled s = management_enabled input"
    using normalized_management by blast
  have cover: "required_privileges ver \<subseteq> \<Union> {set ps | ps. grant_statement s ps \<in> snd ` set (accountSQLStepsForVersion s ver)}"
    using required_granted [OF s(2,3), of ver] granted_by_statements [OF s(2), of ver] unfolding statements_for_def by (rule order_trans)
  have only: "sql \<in> {''CREATE USER IF NOT EXISTS '' @ accountIdent (as_Username s) (as_Host s) @ '' IDENTIFIED BY '' @ sqlString (as_Password s),
               ''ALTER USER '' @ accountIdent (as_Username s) (as_Host s) @ '' IDENTIFIED BY '' @ sqlString (as_Password s),
               ''FLUSH PRIVILEGES''} \<or>
        (\<exists>ps. sql = grant_statement s ps \<and> set ps \<subseteq> set AvailablePrivileges)" if "sql \<in> snd ` set (accountSQLStepsForVersion s ver)" for sql
    using that granted_available [of s ver] management_grant [OF s(2)]
    unfolding accountSQLStepsForVersion_def Let_def granted_def by (auto split: if_splits)
  have executed: "snd ` set (accountSQLStepsForVersion s ver) \<subseteq> set (snd (Initialize connect db ver input))"
    if "ir_Success (fst (Initialize connect db ver input))" "management_enabled input"
  proof -
    have "as_Enabled s" using that(2) s(4) by simp
    with s(1) have "set (map snd (accountSQLStepsForVersion s ver)) \<subseteq> set (statements_of ver (NormalizeAccountSpecs input))"
      unfolding statements_of_def set_concat by (intro Union_upper imageI) auto
    then show ?thesis unfolding initialize_success_log [OF that(1)] by simp
  qed
  show ?thesis using s(1,2,4) cover only executed by blast
qed

text \<open>An empty request on a server that accepts everything: the default management account of MySQL 8.0 is granted all of them.\<close>

lemma willing_clean: "clean (\<lambda>_ _. None) log sqls"
  by (induction sqls arbitrary: log) simp_all

lemma default_accounts_valid: "ValidateAccountSpecs (NormalizeAccountSpecs []) = None"
  by code_simp

theorem management_account_granted_witness:
  "\<exists>s. as_Role s = AccountRoleMHA \<and> as_Enabled s \<and>
     set mha_privileges \<subseteq> \<Union> {set ps | ps. grant_statement s ps \<in> set (snd (Initialize None (\<lambda>_ _. None) ''8.0.35'' []))}"
proof -
  let ?run = "Initialize None (\<lambda>_ _. None) ''8.0.35'' []"
  have success: "ir_Success (fst ?run)"
    by (simp add: initialize_success_iff default_accounts_valid willing_clean)
  have enabled: "management_enabled []" by (simp add: management_enabled_def)
  have "dynamic_release ''8.0.35''" by code_simp
  then have required: "required_privileges ''8.0.35'' = set mha_privileges" by (simp add: required_privileges_def)
  from management_account_granted [of "[]" "''8.0.35''" None "\<lambda>_ _. None"] obtain s where
    s: "as_Role s = AccountRoleMHA" "as_Enabled s"
      "set mha_privileges \<subseteq> \<Union> {set ps | ps. grant_statement s ps \<in> snd ` set (accountSQLStepsForVersion s ''8.0.35'')}"
      "snd ` set (accountSQLStepsForVersion s ''8.0.35'') \<subseteq> set (snd ?run)"
    unfolding required using success enabled by blast
  have "\<Union> {set ps | ps. grant_statement s ps \<in> snd ` set (accountSQLStepsForVersion s ''8.0.35'')} \<subseteq>
      \<Union> {set ps | ps. grant_statement s ps \<in> set (snd ?run)}"
    using s(4) by blast
  with s(1-3) show ?thesis by (intro exI [of _ s] conjI) (assumption | rule order_trans)+
qed

end
