(* ===== verification/HA_Repo.thy ===== *)
theory HA_Repo
  imports HA_Domain HA_Lock Op_Monad Mysql_Accounts
begin

text \<open>
  The state the high-availability services work on and the repository operations of
  \<open>internal/infrastructure/persistence/sqlite/ha_repo.go\<close>. \<open>world\<close> holds the clock, the tables as lists of
  rows (or maps by their unique key) and the log of everything sent to the agents. Every statement
  first takes the next entry of \<open>w_faults\<close>, the outcomes of the database calls to come: an entry
  \<open>Some e\<close> is a statement that fails with \<open>e\<close> and changes nothing, so a theorem over all worlds covers
  every pattern of database failures.
\<close>

subsection \<open>Agents\<close>

text \<open>
  The services reach a machine only through a task: create it, wait for its end. What the agent
  does is a parameter \<open>agent\<close> of the model: given all earlier calls with their replies it answers the
  next call. \<open>rp_Create\<close> is the id of the created task or the error of the creation, \<open>rp_Wait\<close> the
  finished task or the error of waiting, \<open>rp_Elapsed\<close> the time the call took.
\<close>

record task_detail =
  td_Status :: string
  td_Steps :: "string list"
  td_Events :: "string list"

abbreviation StatusSuccess :: string where "StatusSuccess \<equiv> ''success''"

text \<open>The operations of the task service the architecture executor uses besides: the tracking task of a run
  and its updates, the link from a run to its child tasks, and the removal of credentials from a finished command.
  The upgrade tasks of an instance carry a list of commands; they are created, waited for and read by separate calls.\<close>

datatype agent_call =
    TrackingTask (tracking_type: string) (tracking_display: string) (tracking_cluster: string)
  | FinalizeTracking (finalized_id: string) (finalized_created: nat) (finalized_failed: nat)
  | ExecTask (exec_ip: string) (exec_command: string) (exec_parent: string) (exec_operation: string)
      (exec_display: string) (exec_step: string) (exec_timeout: duration)
  | CreateRunTask arch_run
  | SyncRunTask arch_run
  | AttachTasks string "string list"
  | RedactCommand string
  | PrecheckTask (pre_machine: string) (pre_ip: string) (pre_port: int) (pre_package: string) (pre_parent: string) (pre_commands: "string list")
  | UpgradeTask (up_machine: string) (up_ip: string) (up_port: int) (up_package: string) (up_precheck: string) (up_parent: string)
      (up_commands: "string list") (up_rollback: string)
  | WaitTask string duration
  | ReadTask string

record agent_reply =
  rp_Create :: "string result"
  rp_Wait :: "task_detail result"
  rp_Elapsed :: nat

type_synonym agent_log = "(agent_call \<times> agent_reply) list"
type_synonym agent = "agent_log \<Rightarrow> agent_call \<Rightarrow> agent_reply"

definition exec_success :: "agent_reply \<Rightarrow> bool" where
  "exec_success r = (is_ok (rp_Create r) \<and> (case rp_Wait r of Inr d \<Rightarrow> td_Status d = StatusSuccess | Inl _ \<Rightarrow> False))"

subsection \<open>The state\<close>

record vip_oplog =
  vo_ClusterID :: string
  vo_FailoverID :: string
  vo_VIP :: string
  vo_Operation :: string
  vo_MachineID :: string
  vo_HostIP :: string
  vo_Interface :: string
  vo_Command :: string
  vo_ResultCode :: int
  vo_Status :: string

text \<open>What others do to a run while its execution waits for a confirmation, one entry a second: nothing, a
  confirmation of the named run, or the end of the waiting context.\<close>

datatype operator_event = NoEvent | ConfirmForce string string | StopWaiting

record world =
  w_clock :: go_time
  w_faults :: "go_error option list"
  w_next_id :: int
  w_machines :: "machine list"
  w_instances :: "instance_rec list"
  w_configs :: "vip_config list"
  w_bindings :: "vip_binding list"
  w_ifaces :: "net_iface list"
  w_locks :: lock_table
  w_events :: "failover_event list"
  w_oplog :: "vip_oplog list"
  w_policies :: "string \<Rightarrow> failover_policy option"
  w_networks :: "string \<Rightarrow> network_policy option"
  w_agent_log :: agent_log
  w_runs :: "(string \<times> arch_run) list"
  w_operator :: "operator_event list"
  w_presets :: "account_spec list"

type_synonym 'a act = "(world, 'a) op"

definition empty_world :: "go_time \<Rightarrow> world" where
  "empty_world t = \<lparr>w_clock = t, w_faults = [], w_next_id = 1, w_machines = [], w_instances = [],
     w_configs = [], w_bindings = [], w_ifaces = [], w_locks = (\<lambda>_. None), w_events = [], w_oplog = [],
     w_policies = (\<lambda>_. None), w_networks = (\<lambda>_. None), w_agent_log = [],
     w_runs = [], w_operator = [], w_presets = []\<rparr>"

definition db_call :: "unit act" where
  "db_call w = (case w_faults w of
      [] \<Rightarrow> (Inr (), w)
    | f # fs \<Rightarrow> (case f of None \<Rightarrow> (Inr (), w\<lparr>w_faults := fs\<rparr>) | Some e \<Rightarrow> (Inl e, w\<lparr>w_faults := fs\<rparr>)))"

definition statement :: "(world \<Rightarrow> world) \<Rightarrow> unit act" where
  "statement f = on_ok db_call (\<lambda>_. modify f)"

definition query :: "(world \<Rightarrow> 'a) \<Rightarrow> 'a act" where
  "query f = on_ok db_call (\<lambda>_. gets f)"

definition send :: "agent \<Rightarrow> agent_call \<Rightarrow> agent_reply act" where
  "send ag call w =
     (let r = ag (w_agent_log w) call
      in (Inr r, w\<lparr>w_agent_log := w_agent_log w @ [(call, r)], w_clock := w_clock w + int (rp_Elapsed r)\<rparr>))"

definition db_time :: "go_time \<Rightarrow> go_time" where
  "db_time t = unix_sec t * second"

lemma db_call_no_faults [simp]: "w_faults w = [] \<Longrightarrow> db_call w = (Inr (), w)"
  by (simp add: db_call_def)

lemma statement_no_faults [simp]: "w_faults w = [] \<Longrightarrow> statement f w = (Inr (), f w)"
  by (simp add: statement_def on_ok_def)

lemma query_no_faults [simp]: "w_faults w = [] \<Longrightarrow> query f w = (Inr (f w), w)"
  by (simp add: query_def on_ok_def)

text \<open>An invariant is stable under database calls when it ignores the faults, or admits none.\<close>

definition db_stable :: "(world \<Rightarrow> bool) \<Rightarrow> bool" where
  "db_stable I = preserves I db_call"

lemma db_stableI: "(\<And>w fs. I w \<Longrightarrow> I (w\<lparr>w_faults := fs\<rparr>)) \<Longrightarrow> db_stable I"
  unfolding db_stable_def valid_def db_call_def by (auto split: list.splits option.splits)

lemma db_stable_no_faults: "(\<And>w. I w \<Longrightarrow> w_faults w = []) \<Longrightarrow> db_stable I"
  unfolding db_stable_def valid_def by (auto simp: db_call_def)

lemma preserves_db_call [op_rules]: "db_stable I \<Longrightarrow> preserves I db_call"
  by (simp add: db_stable_def)

lemma preserves_statement:
  "db_stable I \<Longrightarrow> (\<And>w. I w \<Longrightarrow> I (f w)) \<Longrightarrow> preserves I (statement f)"
  unfolding statement_def by (intro op_rules)

lemma preserves_query [op_rules]: "db_stable I \<Longrightarrow> preserves I (query f)"
  unfolding query_def by (intro op_rules)

lemma statement_cases:
  assumes "statement f w = (r, w')"
  obtains (ok) fs where "r = Inr ()" "w' = f (w\<lparr>w_faults := fs\<rparr>)"
    | (fault) e fs where "r = Inl e" "w' = w\<lparr>w_faults := fs\<rparr>"
proof (cases "w_faults w")
  case Nil
  then have "w = w\<lparr>w_faults := []\<rparr>" by simp
  with Nil assms ok show ?thesis by (metis prod.inject statement_no_faults)
next
  case (Cons x xs)
  with assms ok fault show ?thesis
    by (auto simp: statement_def on_ok_def db_call_def split: option.splits)
qed

lemma db_call_cases:
  obtains (ok) fs where "db_call w = (Inr (), w\<lparr>w_faults := fs\<rparr>)" "w_faults w = [] \<longrightarrow> fs = []" | (fault) e fs where "db_call w = (Inl e, w\<lparr>w_faults := fs\<rparr>)"
proof (cases "w_faults w")
  case Nil
  then have "db_call w = (Inr (), w\<lparr>w_faults := []\<rparr>)" by simp
  then show ?thesis by (rule ok) simp
next
  case (Cons x xs)
  show ?thesis
  proof (cases x)
    case None
    with Cons have "db_call w = (Inr (), w\<lparr>w_faults := xs\<rparr>)" by (simp add: db_call_def)
    with Cons ok show ?thesis by simp
  next
    case (Some e)
    with Cons have "db_call w = (Inl e, w\<lparr>w_faults := xs\<rparr>)" by (simp add: db_call_def)
    then show ?thesis by (rule fault)
  qed
qed

lemma query_cases:
  assumes "query f w = (r, w')"
  obtains (ok) fs where "r = Inr (f (w\<lparr>w_faults := fs\<rparr>))" "w' = w\<lparr>w_faults := fs\<rparr>"
    | (fault) e fs where "r = Inl e" "w' = w\<lparr>w_faults := fs\<rparr>"
  using assms by (cases w rule: db_call_cases) (auto simp: query_def on_ok_def)

subsection \<open>Policies\<close>

definition default_failover_policy :: "string \<Rightarrow> failover_policy" where
  "default_failover_policy cid = \<lparr>fp_ClusterID = cid, fp_FailoverMode = DefaultFailoverMode,
     fp_SwitchStrategy = DefaultSwitchStrategy, fp_AutoFailoverEnabled = True,
     fp_WaitRelayReplayEnabled = True, fp_WaitRelayReplayTimeoutSeconds = 60,
     fp_RequireDelayZeroBeforePromote = True, fp_MaxAllowedDelaySeconds = 0,
     fp_ReselectCandidateAfterReplay = True, fp_RequireOldMasterFence = True,
     fp_BinlogRescueEnabled = True, fp_BinlogRescueTimeoutSeconds = 120, fp_AllowDataLoss = False,
     fp_StopOnBinlogRescueFailure = True\<rparr>"

definition default_network_policy :: "string \<Rightarrow> network_policy" where
  "default_network_policy cid = \<lparr>np_ClusterID = cid, np_NetworkTopology = ''L2'',
     np_VIPRouteMode = VipRouteModeL2ARP, np_RequireSameSubnetForL2VIP = True, np_AllowMultiNIC = True,
     np_AutoDetectVIPInterface = True, np_BusinessNetworkCIDR = [], np_ReplicationNetworkCIDR = [],
     np_ManagementNetworkCIDR = []\<rparr>"

definition zero_network_policy :: network_policy where
  "zero_network_policy = \<lparr>np_ClusterID = [], np_NetworkTopology = [], np_VIPRouteMode = [],
     np_RequireSameSubnetForL2VIP = False, np_AllowMultiNIC = False, np_AutoDetectVIPInterface = False,
     np_BusinessNetworkCIDR = [], np_ReplicationNetworkCIDR = [], np_ManagementNetworkCIDR = []\<rparr>"

definition insert_absent :: "string \<Rightarrow> 'v \<Rightarrow> (string \<Rightarrow> 'v option) \<Rightarrow> string \<Rightarrow> 'v option" where
  "insert_absent k v m = (case m k of None \<Rightarrow> m(k := Some v) | Some _ \<Rightarrow> m)"

text \<open>One call to the database with three insertions (the fencing policy, which nothing modelled here reads, is left out),
  taken as one step: it fails as a whole or not at all.\<close>

definition EnsureDefaultPolicies :: "string \<Rightarrow> unit act" where
  "EnsureDefaultPolicies clusterID =
     (let cid = trim_space clusterID
      in if cid = [] then fail_with (Error ''cluster_id is required'')
         else statement (\<lambda>w. w\<lparr>w_policies := insert_absent cid (default_failover_policy cid) (w_policies w),
                               w_networks := insert_absent cid (default_network_policy cid) (w_networks w)\<rparr>))"

definition one_row :: "'a option act \<Rightarrow> 'a act" where
  "one_row m = on_ok m (\<lambda>r. case r of None \<Rightarrow> fail_with (Error ''sql: no rows in result set'') | Some x \<Rightarrow> ret x)"

definition GetFailoverPolicy :: "string \<Rightarrow> failover_policy act" where
  "GetFailoverPolicy clusterID =
     on_ok (EnsureDefaultPolicies clusterID) (\<lambda>_.
       one_row (query (\<lambda>w. w_policies w (trim_space clusterID))))"

definition GetNetworkPolicy :: "string \<Rightarrow> network_policy act" where
  "GetNetworkPolicy clusterID =
     on_ok (EnsureDefaultPolicies clusterID) (\<lambda>_.
       one_row (query (\<lambda>w. w_networks w (trim_space clusterID))))"

subsection \<open>VIP configuration\<close>

definition ListVIPConfigs :: "string \<Rightarrow> vip_config list act" where
  "ListVIPConfigs clusterID = query (\<lambda>w.
     stable_sort (\<lambda>a b. vc_ID a < vc_ID b)
       (filter (\<lambda>c. vc_ClusterID c = trim_space clusterID \<and> vc_Enabled c) (w_configs w)))"

definition vip_config_defaults :: "vip_config \<Rightarrow> vip_config" where
  "vip_config_defaults cfg =
     (let cfg = (if vc_VIPName cfg = [] then cfg\<lparr>vc_VIPName := ''default''\<rparr> else cfg);
          cfg = (if vc_VIPPrefix cfg \<le> 0 then cfg\<lparr>vc_VIPPrefix := 24\<rparr> else cfg);
          cfg = (if vc_VIPManageMode cfg = [] then cfg\<lparr>vc_VIPManageMode := ''GMHA_MANAGED''\<rparr> else cfg)
      in if vc_ArpingCount cfg \<le> 0 then cfg\<lparr>vc_ArpingCount := 3\<rparr> else cfg)"

definition same_config_key :: "vip_config \<Rightarrow> vip_config \<Rightarrow> bool" where
  "same_config_key a b \<longleftrightarrow> vc_ClusterID a = vc_ClusterID b \<and> vc_VIPAddress a = vc_VIPAddress b"

definition upsert_config_row :: "vip_config \<Rightarrow> world \<Rightarrow> world" where
  "upsert_config_row cfg w =
     (if \<exists>c \<in> set (w_configs w). same_config_key c cfg
      then w\<lparr>w_configs := map (\<lambda>c. if same_config_key c cfg
               then cfg\<lparr>vc_ID := vc_ID c, vc_CreatedAt := vc_CreatedAt c, vc_UpdatedAt := w_clock w\<rparr>
               else c) (w_configs w)\<rparr>
      else w\<lparr>w_configs := w_configs w @ [cfg\<lparr>vc_ID := w_next_id w, vc_CreatedAt := w_clock w,
                                             vc_UpdatedAt := w_clock w\<rparr>],
             w_next_id := w_next_id w + 1\<rparr>)"

definition UpsertVIPConfig :: "vip_config \<Rightarrow> vip_config act" where
  "UpsertVIPConfig cfg0 =
     (let cfg = vip_config_defaults cfg0
      in on_ok (statement (upsert_config_row cfg)) (\<lambda>_.
           on_ok (ListVIPConfigs (vc_ClusterID cfg)) (\<lambda>items.
             case find (\<lambda>c. vc_VIPAddress c = vc_VIPAddress cfg) items of
               Some item \<Rightarrow> ret item
             | None \<Rightarrow> fail_with (Error ''saved VIP config not found''))))"

text \<open>The transaction of \<open>DeleteVIPConfig\<close>: begin, two deletes, commit; a failure of any of the four
  rolls both deletes back.\<close>

definition delete_config_rows :: "string \<Rightarrow> string \<Rightarrow> world \<Rightarrow> world" where
  "delete_config_rows cid vip w =
     w\<lparr>w_bindings := filter (\<lambda>b. \<not> (vb_ClusterID b = cid \<and> vb_VIPAddress b = vip)) (w_bindings w),
       w_configs := filter (\<lambda>c. \<not> (vc_ClusterID c = cid \<and> vc_VIPAddress c = vip)) (w_configs w)\<rparr>"

definition DeleteVIPConfig_repo :: "string \<Rightarrow> string \<Rightarrow> unit act" where
  "DeleteVIPConfig_repo clusterID vip =
     on_ok db_call (\<lambda>_. on_ok db_call (\<lambda>_. on_ok db_call (\<lambda>_.
       statement (delete_config_rows (trim_space clusterID) (trim_space vip)))))"

subsection \<open>VIP binding state\<close>

definition same_binding_key :: "vip_binding \<Rightarrow> vip_binding \<Rightarrow> bool" where
  "same_binding_key a b \<longleftrightarrow> vb_ClusterID a = vb_ClusterID b \<and> vb_VIPAddress a = vb_VIPAddress b"

text \<open>The task id of a state is not a column: a stored row has none.\<close>

definition binding_row :: "go_time \<Rightarrow> vip_binding \<Rightarrow> vip_binding" where
  "binding_row now st =
     st\<lparr>vb_TaskID := [], vb_VIPStatus := (if vb_VIPStatus st = [] then VipStatusUnknown else vb_VIPStatus st),
        vb_CreatedAt := db_time now, vb_UpdatedAt := db_time now\<rparr>"

definition upsert_binding_row :: "vip_binding \<Rightarrow> world \<Rightarrow> world" where
  "upsert_binding_row st w =
     (let row = binding_row (w_clock w) st
      in if \<exists>b \<in> set (w_bindings w). same_binding_key b st
         then w\<lparr>w_bindings := map (\<lambda>b. if same_binding_key b st
                  then row\<lparr>vb_ID := vb_ID b, vb_CreatedAt := vb_CreatedAt b\<rparr> else b) (w_bindings w)\<rparr>
         else w\<lparr>w_bindings := w_bindings w @ [row\<lparr>vb_ID := w_next_id w\<rparr>], w_next_id := w_next_id w + 1\<rparr>)"

definition UpsertVIPBindingState :: "vip_binding \<Rightarrow> unit act" where
  "UpsertVIPBindingState st = statement (upsert_binding_row st)"

definition GetVIPBindingStates :: "string \<Rightarrow> vip_binding list act" where
  "GetVIPBindingStates clusterID = query (\<lambda>w.
     stable_sort (\<lambda>a b. vb_VIPAddress a < vb_VIPAddress b)
       (filter (\<lambda>b. vb_ClusterID b = trim_space clusterID) (w_bindings w)))"

subsection \<open>Interfaces\<close>

definition iface_before :: "net_iface \<Rightarrow> net_iface \<Rightarrow> bool" where
  "iface_before a b =
     (if ni_CanBindVIP a \<noteq> ni_CanBindVIP b then ni_CanBindVIP a
      else if ni_VIPBindPriority a \<noteq> ni_VIPBindPriority b then ni_VIPBindPriority a > ni_VIPBindPriority b
      else ni_InterfaceName a < ni_InterfaceName b)"

interpretation iface_order: weak_order iface_before
  by unfold_locales (auto simp: iface_before_def split: if_splits)

definition ListMachineInterfaces :: "string \<Rightarrow> net_iface list act" where
  "ListMachineInterfaces machineID = query (\<lambda>w.
     stable_sort iface_before (filter (\<lambda>i. ni_MachineID i = trim_space machineID) (w_ifaces w)))"

subsection \<open>Locks, events and the operation log\<close>

definition lock_statement :: "(go_time \<Rightarrow> lock_table \<Rightarrow> lock_table result) \<Rightarrow> unit act" where
  "lock_statement f = on_ok db_call (\<lambda>_ w.
     case f (w_clock w) (w_locks w) of
       Inl e \<Rightarrow> (Inl e, w)
     | Inr tab \<Rightarrow> (Inr (), w\<lparr>w_locks := tab\<rparr>))"

definition AcquireFailoverLock :: "string \<Rightarrow> string \<Rightarrow> string \<Rightarrow> duration \<Rightarrow> unit act" where
  "AcquireFailoverLock cid fid own ttl = lock_statement (\<lambda>now. acquire_lock now cid fid own ttl)"

definition RenewFailoverLock :: "string \<Rightarrow> string \<Rightarrow> duration \<Rightarrow> unit act" where
  "RenewFailoverLock cid fid ttl = lock_statement (\<lambda>now. renew_lock now cid fid ttl)"

definition ReleaseFailoverLock :: "string \<Rightarrow> string \<Rightarrow> unit act" where
  "ReleaseFailoverLock cid fid = lock_statement (\<lambda>_ tab. Inr (release_lock cid fid tab))"

definition event_row :: "go_time \<Rightarrow> failover_event \<Rightarrow> failover_event" where
  "event_row now e =
     e\<lparr>fe_StartedAt := (if fe_StartedAt e = 0 then db_time now else db_time (fe_StartedAt e)),
       fe_UpdatedAt := db_time now,
       fe_FinishedAt := (if fe_FinishedAt e = 0 then 0 else db_time (fe_FinishedAt e))\<rparr>"

text \<open>On a conflict the columns of the old master, the mode, the strategy, the cluster and the start
  keep their first value.\<close>

definition merge_event :: "failover_event \<Rightarrow> failover_event \<Rightarrow> failover_event" where
  "merge_event old new =
     new\<lparr>fe_ClusterID := fe_ClusterID old, fe_OldMasterInstanceID := fe_OldMasterInstanceID old,
         fe_OldMasterMachineID := fe_OldMasterMachineID old, fe_OldMasterIP := fe_OldMasterIP old,
         fe_Mode := fe_Mode old, fe_SwitchStrategy := fe_SwitchStrategy old,
         fe_StartedAt := fe_StartedAt old\<rparr>"

definition upsert_event_row :: "failover_event \<Rightarrow> world \<Rightarrow> world" where
  "upsert_event_row e w =
     (let row = event_row (w_clock w) e
      in if \<exists>x \<in> set (w_events w). fe_FailoverID x = fe_FailoverID e
         then w\<lparr>w_events := map (\<lambda>x. if fe_FailoverID x = fe_FailoverID e then merge_event x row else x) (w_events w)\<rparr>
         else w\<lparr>w_events := w_events w @ [row]\<rparr>)"

definition SaveFailoverEvent :: "failover_event \<Rightarrow> unit act" where
  "SaveFailoverEvent e = statement (upsert_event_row e)"

definition GetFailoverEvent :: "string \<Rightarrow> string \<Rightarrow> (failover_event \<times> bool) act" where
  "GetFailoverEvent cid fid =
     on_ok (query (\<lambda>w. find (\<lambda>e. fe_ClusterID e = cid \<and> fe_FailoverID e = fid) (w_events w))) (\<lambda>r.
       case r of None \<Rightarrow> ret (no_event, False) | Some e \<Rightarrow> ret (e, True))"

definition InsertVIPOperationLog :: "vip_oplog \<Rightarrow> unit act" where
  "InsertVIPOperationLog row = statement (\<lambda>w. w\<lparr>w_oplog := w_oplog w @ [row]\<rparr>)"

subsection \<open>Architecture runs\<close>

text \<open>A run is stored as JSON: the credentials by machine and the maintenance list are never written. The
  cluster column of an existing row keeps its value, and a run is found by it: a row is the column with
  the run in the JSON. The other columns repeat fields of the JSON.\<close>

definition stored_request :: "arch_request \<Rightarrow> arch_request" where
  "stored_request req = req\<lparr>ar_RootPasswords := [], ar_MaintenanceDetachedMachineIDs := []\<rparr>"

definition stored_run :: "arch_run \<Rightarrow> arch_run" where
  "stored_run run = run\<lparr>rn_Request := stored_request (rn_Request run)\<rparr>"

definition upsert_run_row :: "arch_run \<Rightarrow> world \<Rightarrow> world" where
  "upsert_run_row run w =
     (if \<exists>x \<in> set (w_runs w). rn_RunID (snd x) = rn_RunID run
      then w\<lparr>w_runs := map (\<lambda>x. if rn_RunID (snd x) = rn_RunID run then (fst x, stored_run run) else x) (w_runs w)\<rparr>
      else w\<lparr>w_runs := w_runs w @ [(rn_ClusterID run, stored_run run)]\<rparr>)"

definition SaveArchitectureRun :: "arch_run \<Rightarrow> unit act" where
  "SaveArchitectureRun run = statement (upsert_run_row run)"

definition GetArchitectureRun :: "string \<Rightarrow> string \<Rightarrow> arch_run option act" where
  "GetArchitectureRun clusterID runID =
     query (\<lambda>w. map_option snd (find (\<lambda>x. fst x = trim_space clusterID \<and> rn_RunID (snd x) = trim_space runID) (w_runs w)))"

definition unfinished_run :: "arch_run \<Rightarrow> bool" where
  "unfinished_run run \<longleftrightarrow> rn_Status run \<in> {ArchitectureRunPending, ArchitectureRunRunning, ArchitectureRunWaitingForce}"

definition interrupted_run :: "go_time \<Rightarrow> arch_run \<Rightarrow> arch_run" where
  "interrupted_run now run = run\<lparr>rn_Status := ArchitectureRunFailed, rn_CurrentStep := ''manager_restart_recovery'',
     rn_Error := ''Manager restarted during architecture adjustment; credentials were not persisted. Inspect MySQL roles, replication and VIP holders, then create a fresh plan.'',
     rn_UpdatedAt := now, rn_FinishedAt := Some now\<rparr>"

definition MarkInterruptedArchitectureRuns :: "unit act" where
  "MarkInterruptedArchitectureRuns =
     on_ok (query (\<lambda>w. filter unfinished_run (map snd (w_runs w)))) (\<lambda>runs.
     on_ok (gets w_clock) (\<lambda>now. for_ok (\<lambda>run. SaveArchitectureRun (interrupted_run now run)) runs))"

subsection \<open>Account presets\<close>

definition presets_List :: "account_spec list act" where
  "presets_List = query w_presets"

definition preset_roles :: "string list" where
  "preset_roles = [''monitor'', ''mha'', ''backup'']"

definition preset_row :: "account_spec \<Rightarrow> account_spec" where
  "preset_row item = item\<lparr>as_Role := to_lower (trim_space (as_Role item)), as_Username := trim_space (as_Username item),
     as_Host := trim_space (as_Host item)\<rparr>"

definition upsert_preset_row :: "account_spec \<Rightarrow> world \<Rightarrow> world" where
  "upsert_preset_row row w =
     (if \<exists>x \<in> set (w_presets w). as_Role x = as_Role row
      then w\<lparr>w_presets := map (\<lambda>x. if as_Role x = as_Role row then row else x) (w_presets w)\<rparr>
      else w\<lparr>w_presets := w_presets w @ [row]\<rparr>)"

definition presets_Save :: "account_spec list \<Rightarrow> unit act" where
  "presets_Save items = for_ok (\<lambda>item.
     if as_Role (preset_row item) \<notin> set preset_roles then ret ()
     else statement (upsert_preset_row (preset_row item))) items"

definition AccountPresets :: "account_spec list act" where
  "AccountPresets = on_ok presets_List (\<lambda>items. ret (normalizeMySQLAccountPresets items))"

definition SaveAccountPresets :: "account_spec list \<Rightarrow> account_spec list act" where
  "SaveAccountPresets items =
     on_ok (presets_Save (normalizeMySQLAccountPresets items)) (\<lambda>_. AccountPresets)"

text \<open>The account the services manage instances with: the saved preset, or the default one when the presets
  cannot be read or are unusable.\<close>

definition usable_mha :: "account_spec \<Rightarrow> bool" where
  "usable_mha item \<longleftrightarrow> as_Role item = ''mha'' \<and> as_Enabled item \<and> trim_space (as_Username item) \<noteq> [] \<and> as_Password item \<noteq> []"

definition architectureManagementAccount :: "(string \<times> string) act" where
  "architectureManagementAccount = with_result presets_List (\<lambda>saved.
     let items = (case saved of Inl _ \<Rightarrow> defaultMySQLAccountPresets | Inr xs \<Rightarrow> normalizeMySQLAccountPresets xs)
     in ret (case find usable_mha items of
               Some item \<Rightarrow> (trim_space (as_Username item), as_Password item)
             | None \<Rightarrow> (''mha'', ''3306niubi'')))"

subsection \<open>Machines\<close>

definition machines_List :: "machine list act" where
  "machines_List = query (\<lambda>w. stable_sort (\<lambda>a b. mach_CreatedAt a > mach_CreatedAt b) (w_machines w))"

definition machines_GetByID :: "string \<Rightarrow> machine option act" where
  "machines_GetByID mid = query (\<lambda>w. find (\<lambda>m. mach_ID m = mid) (w_machines w))"

definition instances_List :: "instance_rec list act" where
  "instances_List = query (\<lambda>w. stable_sort (\<lambda>a b. inst_UpdatedAt a > inst_UpdatedAt b) (w_instances w))"

definition instances_Get :: "string \<Rightarrow> int \<Rightarrow> instance_rec option act" where
  "instances_Get mid port = query (\<lambda>w. find (\<lambda>i. inst_MachineID i = mid \<and> inst_Port i = port) (w_instances w))"

end
