(* ===== verification/Shell_Commands.thy ===== *)
theory Shell_Commands
  imports HA_Domain
begin

text \<open>
  The shell and SQL texts the manager sends to the agents: \<open>shellQuote\<close> (\<open>internal/app/vip_driver.go\<close>),
  \<open>vipScanCommand\<close> and \<open>vipScanInterface\<close> (\<open>ha_service.go\<close>), and the command builders at the end of
  \<open>architecture_executor.go\<close>. Besides the texts the theory holds a small reader of POSIX shell quoting
  and of SQL string literals, with which the quoting functions are shown to do their work.
\<close>

subsection \<open>Texts\<close>

text \<open>In a template a backquote stands for the double quote, a hash for the single quote and a question
  mark for the backslash; none of the three occurs in the texts themselves.\<close>

definition shtx_char :: "char \<Rightarrow> char" where
  "shtx_char c = (if c = CHR 0x60 then CHR 0x22 else if c = CHR ''#'' then CHR 0x27
                 else if c = CHR ''?'' then CHR 0x5C else c)"

definition shtx :: "string \<Rightarrow> string" where
  "shtx = map shtx_char"

definition shellQuote :: "string \<Rightarrow> string" where
  "shellQuote v = shtx ''#'' @ replace_char (CHR 0x27) (shtx ''#?##'') v @ shtx ''#''"

definition sqlLiteral :: "string \<Rightarrow> string" where
  "sqlLiteral v = shtx ''#'' @ replace_char (CHR 0x27) (shtx ''##'') v @ shtx ''#''"

definition sqlIdentifier :: "string \<Rightarrow> string" where
  "sqlIdentifier v = [CHR 0x60] @ replace_char (CHR 0x60) [CHR 0x60, CHR 0x60] v @ [CHR 0x60]"

subsection \<open>VIP scan\<close>

abbreviation vipScanMarker :: string where "vipScanMarker \<equiv> ''__GMHA_VIP_SCAN__''"

definition vipScanCommand :: "string \<Rightarrow> string" where
  "vipScanCommand vip =
     shtx ''iface=$(ip -o -4 addr show | awk -v vip='' @ shellQuote vip @
     shtx '' #$4 ~ (`^` vip `/`) {print $2; exit}#); printf #'' @ vipScanMarker @
     shtx ''%s?n# `${iface:-UNBOUND}`''"

definition scan_value :: "string \<Rightarrow> string option" where
  "scan_value message =
     (case after_last message vipScanMarker of
        None \<Rightarrow> None
      | Some rest \<Rightarrow>
          let value = trim_space (hd (split_n2 (CHR 0x0A) rest))
          in if value \<noteq> [] \<and> value \<noteq> ''UNBOUND'' then Some value else None)"

text \<open>The steps are read from the last one back.\<close>

fun first_scan_value :: "string list \<Rightarrow> string" where
  "first_scan_value [] = []"
| "first_scan_value (m # ms) = (case scan_value m of Some v \<Rightarrow> v | None \<Rightarrow> first_scan_value ms)"

definition vipScanInterface :: "string list \<Rightarrow> string" where
  "vipScanInterface steps = first_scan_value (rev steps)"

subsection \<open>Layer 2 commands\<close>

definition l2VIPInterface :: "vip_config \<Rightarrow> string" where
  "l2VIPInterface vip =
     (if trim_space (vc_DefaultInterface vip) \<noteq> [] then shellQuote (vc_DefaultInterface vip)
      else shtx ''$(ip route get '' @ shellQuote (vc_VIPAddress vip) @
           shtx '' | awk #{for(i=1;i<=NF;i++) if($i==`dev`){print $(i+1); exit}}#)'')"

definition l2VIPRemoveCommand :: "vip_config \<Rightarrow> string" where
  "l2VIPRemoveCommand vip =
     shtx ''ip -o -4 addr show | awk -v vip='' @ shellQuote (vc_VIPAddress vip) @
     shtx '' #$4 ~ (`^` vip `/`) {print $2, $4}# | while read -r iface cidr; do ip addr del `$cidr` dev `$iface` || exit 1; done; ! ip -o -4 addr show | awk #{print $4}# | cut -d/ -f1 | grep -Fxq '' @
     shellQuote (vc_VIPAddress vip)"

definition l2VIPBindCommand :: "vip_config \<Rightarrow> string" where
  "l2VIPBindCommand vip =
     (let count = (if vc_ArpingCount vip \<le> 0 then 3 else vc_ArpingCount vip)
      in shtx ''iface='' @ l2VIPInterface vip @
         shtx ''; [ -n `$iface` ] || exit 71; ip addr add '' @ shellQuote (vc_VIPAddress vip) @ shtx ''/'' @
         show_int (vc_VIPPrefix vip) @
         shtx '' dev `$iface`; ip link set `$iface` up; command -v arping >/dev/null 2>&1 || exit 72; arping -U -c '' @
         show_int count @ shtx '' -I `$iface` '' @ shellQuote (vc_VIPAddress vip) @
         shtx ''; ip -o addr show dev `$iface` | awk #{print $4}# | cut -d/ -f1 | grep -Fxq '' @
         shellQuote (vc_VIPAddress vip))"

subsection \<open>BGP commands\<close>

definition bgpVIPWithdrawCommand :: "vip_config \<Rightarrow> string" where
  "bgpVIPWithdrawCommand vip =
     (let prefix = vc_VIPAddress vip @ ''/32''
      in shtx ''command -v vtysh >/dev/null 2>&1 || exit 73; vtysh -c #configure terminal# -c '' @
         shellQuote (''router bgp '' @ show_int (vc_BGPLocalAS vip)) @
         shtx '' -c #address-family ipv4 unicast# -c '' @ shellQuote (''no network '' @ prefix) @
         shtx '' -c #end# -c #write memory#; ip addr del '' @ shellQuote prefix @
         shtx '' dev lo 2>/dev/null || true; ! ip -o addr show | awk #{print $4}# | grep -Fxq '' @
         shellQuote prefix)"

definition bgp_session :: "vip_config \<Rightarrow> machine \<Rightarrow> string list" where
  "bgp_session vip target =
     (let prefix = vc_VIPAddress vip @ ''/32'';
          routerID = (if vc_BGPRouterID vip = [] then mach_IP target else vc_BGPRouterID vip);
          localAS = show_int (vc_BGPLocalAS vip)
      in [''configure terminal'', ''router bgp '' @ localAS, ''bgp router-id '' @ routerID,
          ''neighbor '' @ vc_BGPPeerAddress vip @ '' remote-as '' @ show_int (vc_BGPPeerAS vip),
          ''address-family ipv4 unicast''] @
         (if vc_BGPCommunity vip \<noteq> []
          then [''exit-address-family'', ''route-map GMHA-VIP permit 10'',
                ''set community '' @ vc_BGPCommunity vip, ''router bgp '' @ localAS,
                ''address-family ipv4 unicast'', ''network '' @ prefix @ '' route-map GMHA-VIP'']
          else [''network '' @ prefix]) @
         [''end'', ''write memory''])"

definition bgpVIPAnnounceCommand :: "vip_config \<Rightarrow> machine \<Rightarrow> string" where
  "bgpVIPAnnounceCommand vip target =
     (let prefix = vc_VIPAddress vip @ ''/32'';
          vty = shtx ''vtysh'' @ concat (map (\<lambda>c. shtx '' -c '' @ shellQuote c) (bgp_session vip target))
      in shtx ''command -v vtysh >/dev/null 2>&1 || exit 73; ip addr add '' @ shellQuote prefix @
         shtx '' dev lo; ip link set lo up; '' @ vty @ shtx ''; vtysh -c '' @
         shellQuote (''show bgp ipv4 unicast neighbors '' @ vc_BGPPeerAddress vip) @
         shtx '' | grep -Fq #BGP state = Established#; vtysh -c '' @
         shellQuote (''show bgp ipv4 unicast neighbors '' @ vc_BGPPeerAddress vip @ '' advertised-routes'') @
         shtx '' | grep -Fq '' @ shellQuote prefix)"

subsection \<open>MySQL client commands\<close>

definition mysqlArchitectureClient :: "string \<Rightarrow> int \<Rightarrow> string" where
  "mysqlArchitectureClient password port0 =
     (let port = (if port0 \<le> 0 then 3306 else port0)
      in if password = []
         then ''mysql --defaults-extra-file=__GMHA_MYSQL_DEFAULTS_FILE__ --protocol=tcp --host=127.0.0.1 --port='' @
              show_int port @ '' --connect-timeout=5''
         else ''MYSQL_PWD='' @ shellQuote password @ '' mysql --protocol=tcp --host=127.0.0.1 --port='' @
              show_int port @ '' --user=root --connect-timeout=5'')"

definition mysqlArchitectureCommand :: "string \<Rightarrow> int \<Rightarrow> string \<Rightarrow> string" where
  "mysqlArchitectureCommand password port sql =
     mysqlArchitectureClient password port @ '' --batch --raw --skip-column-names --execute='' @ shellQuote sql"

definition mysqlArchitectureRootSocketClient :: "string \<Rightarrow> string \<Rightarrow> string" where
  "mysqlArchitectureRootSocketClient password socket =
     ''MYSQL_PWD='' @ shellQuote password @ '' mysql --protocol=socket --socket='' @ shellQuote socket @
     '' --user=root --connect-timeout=5''"

definition replicationStopResetShell :: "string \<Rightarrow> string" where
  "replicationStopResetShell client =
     ''('' @ client @ shtx '' --execute=#STOP REPLICA# >/dev/null 2>&1 || '' @ client @
     shtx '' --execute=#STOP SLAVE# >/dev/null 2>&1 || true); '' @
     ''('' @ client @ shtx '' --execute=#RESET REPLICA ALL# >/dev/null 2>&1 || '' @ client @
     shtx '' --execute=#RESET SLAVE ALL# >/dev/null 2>&1 || true); ''"

definition mysqlRolePersistenceCommand :: "string \<Rightarrow> bool \<Rightarrow> string" where
  "mysqlRolePersistenceCommand client readOnly =
     (let persistSQL = (if readOnly then ''SET PERSIST read_only=ON; SET PERSIST super_read_only=ON;''
                        else ''SET PERSIST super_read_only=OFF; SET PERSIST read_only=OFF;'');
          globalSQL = (if readOnly then ''SET GLOBAL read_only=ON; SET GLOBAL super_read_only=ON;''
                       else ''SET GLOBAL super_read_only=OFF; SET GLOBAL read_only=OFF;'')
      in ''('' @ client @ '' --batch --raw --execute='' @ shellQuote persistSQL @ '' >/dev/null 2>&1 || '' @
         client @ '' --batch --raw --execute='' @ shellQuote globalSQL @ '')'')"

definition standaloneDetachCommand :: "string \<Rightarrow> int \<Rightarrow> string" where
  "standaloneDetachCommand password port =
     (let client = mysqlArchitectureClient password port
      in client @ '' --batch --raw --execute='' @ shellQuote ''SET GLOBAL offline_mode=ON;'' @ ''; '' @
         replicationStopResetShell client @
         ''('' @ client @ '' --batch --raw --execute='' @
         shellQuote ''SET PERSIST auto_increment_increment=1; SET PERSIST auto_increment_offset=1;'' @
         '' >/dev/null 2>&1 || '' @ client @ '' --batch --raw --execute='' @
         shellQuote ''SET GLOBAL auto_increment_increment=1; SET GLOBAL auto_increment_offset=1;'' @ ''); '' @
         mysqlRolePersistenceCommand client False)"

definition verifyIndependentNodeCommand :: "string \<Rightarrow> int \<Rightarrow> string" where
  "verifyIndependentNodeCommand password port =
     mysqlArchitectureCommand password port
       (shtx ''SELECT IF(@@read_only=0 AND @@super_read_only=0 AND @@auto_increment_increment=1 AND @@auto_increment_offset=1 AND NOT EXISTS(SELECT 1 FROM performance_schema.replication_connection_configuration),#INDEPENDENT_OK#,#INDEPENDENT_BAD#);'') @
     '' | grep -Fxq INDEPENDENT_OK''"

definition architectureRootPassword :: "arch_request \<Rightarrow> string \<Rightarrow> string" where
  "architectureRootPassword req machineID =
     (case map_of (ar_RootPasswords req) machineID of
        None \<Rightarrow> ar_RootPassword req
      | Some p \<Rightarrow> if p = [] then ar_RootPassword req else p)"

text \<open>The users a session kill spares: each name once, trimmed, blanks dropped, in the order given.\<close>

fun distinct_trimmed :: "string list \<Rightarrow> string list \<Rightarrow> string list" where
  "distinct_trimmed seen [] = []"
| "distinct_trimmed seen (u # us) =
     (let user = trim_space u
      in if user \<noteq> [] \<and> user \<notin> set seen then user # distinct_trimmed (user # seen) us
         else distinct_trimmed seen us)"

definition spared_users :: "arch_request \<Rightarrow> string list" where
  "spared_users req =
     distinct_trimmed [] ([''root'', ''mysql.sys'', ''mysql.session'', ''mysql.infoschema'', ''event_scheduler'',
       ''system user'', ar_ReplicationUser req] @ ar_ManagementUsers req)"

definition killBusinessSessionsCommand :: "arch_request \<Rightarrow> string \<Rightarrow> int \<Rightarrow> string" where
  "killBusinessSessionsCommand req machineID port =
     (let sel = shtx ''ID<>CONNECTION_ID() AND USER IS NOT NULL AND COMMAND<>#Daemon# AND USER NOT IN ('' @
                join '','' (map sqlLiteral (spared_users req)) @ '')'';
          killQuery = shtx ''SELECT CONCAT(#KILL CONNECTION #,ID,#;#) FROM information_schema.PROCESSLIST WHERE '' @ sel;
          verifyQuery = ''SELECT COUNT(*) FROM information_schema.PROCESSLIST WHERE '' @ sel;
          client = mysqlArchitectureClient (architectureRootPassword req machineID) port;
          listing = client @ '' --batch --skip-column-names --execute='' @ shellQuote killQuery;
          apply_kill = client @ '' --batch --skip-column-names'';
          verify = client @ '' --batch --skip-column-names --execute='' @ shellQuote verifyQuery
      in shtx ''kill_errors=$(mktemp); trap #rm -f `$kill_errors`# EXIT; '' @
         shtx ''kill_sql=$('' @ listing @ shtx '') || exit 70; '' @
         shtx ''if [ -n `$kill_sql` ]; then printf #%s?n# `$kill_sql` | '' @ apply_kill @
         shtx '' >/dev/null 2>`$kill_errors` || true; fi; '' @
         shtx ''remaining=$('' @ verify @ shtx '') || exit 70; '' @
         shtx ''if [ `$remaining` != 0 ]; then cat `$kill_errors` >&2; echo `$remaining business session(s) remain after offline fencing` >&2; exit 79; fi; '' @
         shtx ''echo GMHA_BUSINESS_SESSIONS_CLEARED'')"

subsection \<open>What the shell sees outside the quotes\<close>

text \<open>
  The quoting state of a POSIX shell. \<open>sh_step\<close> returns the state after a character and the
  characters that stand outside single quotes and escapes, i.e. what the shell may interpret.
\<close>

datatype sh_mode = Plain | Single | Double | Plain_Escape | Double_Escape

fun sh_step :: "sh_mode \<Rightarrow> char \<Rightarrow> sh_mode \<times> string" where
  "sh_step Plain c =
     (if c = CHR 0x27 then (Single, []) else if c = CHR 0x22 then (Double, [])
      else if c = CHR 0x5C then (Plain_Escape, []) else (Plain, [c]))"
| "sh_step Single c = (if c = CHR 0x27 then (Plain, []) else (Single, []))"
| "sh_step Double c =
     (if c = CHR 0x22 then (Plain, []) else if c = CHR 0x5C then (Double_Escape, []) else (Double, [c]))"
| "sh_step Plain_Escape c = (Plain, [])"
| "sh_step Double_Escape c = (Double, [])"

fun sh_scan :: "sh_mode \<Rightarrow> string \<Rightarrow> sh_mode \<times> string" where
  "sh_scan m [] = (m, [])"
| "sh_scan m (c # s) =
     (case sh_step m c of (m', out) \<Rightarrow> (case sh_scan m' s of (m'', rest) \<Rightarrow> (m'', out @ rest)))"

definition sh_skeleton :: "string \<Rightarrow> string" where
  "sh_skeleton s = snd (sh_scan Plain s)"

lemma sh_scan_append:
  "sh_scan m (s @ t) = (fst (sh_scan (fst (sh_scan m s)) t), snd (sh_scan m s) @ snd (sh_scan (fst (sh_scan m s)) t))"
  by (induction s arbitrary: m) (auto split: prod.splits)

lemma sh_scan_single:
  "sh_scan Single (replace_char (CHR 0x27) (shtx ''#?##'') v @ shtx ''#'') = (Plain, [])"
proof (induction v)
  case Nil
  show ?case by (simp add: replace_char_def shtx_def shtx_char_def)
next
  case (Cons c v)
  have "replace_char (CHR 0x27) (shtx ''#?##'') (c # v) =
        (if c = CHR 0x27 then shtx ''#?##'' else [c]) @ replace_char (CHR 0x27) (shtx ''#?##'') v"
    by (simp add: replace_char_def)
  with Cons show ?case by (simp add: sh_scan_append shtx_def shtx_char_def)
qed

lemma sh_scan_quote [simp]: "sh_scan Plain (shellQuote v) = (Plain, [])"
proof -
  have "shellQuote v = CHR 0x27 # replace_char (CHR 0x27) (shtx ''#?##'') v @ shtx ''#''"
    by (simp add: shellQuote_def shtx_def shtx_char_def)
  then show ?thesis by (simp add: sh_scan_single)
qed

text \<open>A quoted value in a command changes nothing outside its own quotes.\<close>

lemma sh_scan_quoted_append [simp]: "sh_scan Plain (shellQuote v @ t) = sh_scan Plain t"
  by (simp add: sh_scan_append)

lemma sh_skeleton_append:
  "fst (sh_scan Plain s) = Plain \<Longrightarrow> sh_skeleton (s @ t) = sh_skeleton s @ sh_skeleton t"
  by (simp add: sh_skeleton_def sh_scan_append)

subsection \<open>Reading a word\<close>

text \<open>
  The word a POSIX shell builds from quoted and escaped characters, up to the first unquoted
  character that is not part of it; the flag says whether the reader is inside single quotes.
\<close>

definition word_char :: "char \<Rightarrow> bool" where
  "word_char c \<longleftrightarrow> is_digit c \<or> c \<in> set ''abcdefghijklmnopqrstuvwxyzABCDEFGHIJKLMNOPQRSTUVWXYZ_-./:=,+@''"

fun sh_word :: "bool \<Rightarrow> string \<Rightarrow> string \<times> string" where
  "sh_word q [] = ([], [])"
| "sh_word True (c # s) =
     (if c = CHR 0x27 then sh_word False s else (case sh_word True s of (w, r) \<Rightarrow> (c # w, r)))"
| "sh_word False (c # s) =
     (if c = CHR 0x27 then sh_word True s
      else if c = CHR 0x5C then
        (case s of [] \<Rightarrow> ([c], []) | d # s' \<Rightarrow> (case sh_word False s' of (w, r) \<Rightarrow> (d # w, r)))
      else if word_char c then (case sh_word False s of (w, r) \<Rightarrow> (c # w, r))
      else ([], c # s))"

definition ends_word :: "string \<Rightarrow> bool" where
  "ends_word r \<longleftrightarrow> (case r of [] \<Rightarrow> True | c # _ \<Rightarrow> c \<noteq> CHR 0x27 \<and> c \<noteq> CHR 0x5C \<and> \<not> word_char c)"

lemma sh_word_end: "ends_word r \<Longrightarrow> sh_word False r = ([], r)"
  by (cases r) (auto simp: ends_word_def)

lemma sh_word_single:
  "ends_word r \<Longrightarrow> sh_word True (replace_char (CHR 0x27) (shtx ''#?##'') v @ shtx ''#'' @ r) = (v, r)"
proof (induction v)
  case Nil
  then show ?case by (simp add: replace_char_def shtx_def shtx_char_def sh_word_end)
next
  case (Cons c v)
  have "replace_char (CHR 0x27) (shtx ''#?##'') (c # v) =
        (if c = CHR 0x27 then shtx ''#?##'' else [c]) @ replace_char (CHR 0x27) (shtx ''#?##'') v"
    by (simp add: replace_char_def)
  with Cons show ?case by (simp add: shtx_def shtx_char_def)
qed

text \<open>A quoted value is read back by the shell as exactly one word, the value itself, whatever
  characters it holds, and the text after it is untouched.\<close>

theorem shellQuote_word:
  assumes "ends_word r"
  shows "sh_word False (shellQuote v @ r) = (v, r)"
  using sh_word_single [OF assms, of v] by (simp add: shellQuote_def shtx_def shtx_char_def)

theorem shellQuote_word_witness:
  "sh_word False (shellQuote (shtx ''a#; reboot'') @ '' | awk'') = (shtx ''a#; reboot'', '' | awk'')"
  by (rule shellQuote_word) (simp add: ends_word_def word_char_def is_digit_def char_code_def)

text \<open>Two texts the shell reads alike: the same unquoted characters, ending outside all quotes.\<close>

definition sh_alike :: "string \<Rightarrow> string \<Rightarrow> bool" where
  "sh_alike s t \<longleftrightarrow> fst (sh_scan Plain s) = Plain \<and> sh_scan Plain s = sh_scan Plain t"

lemma sh_alike_append: "sh_alike s t \<Longrightarrow> sh_alike s' t' \<Longrightarrow> sh_alike (s @ s') (t @ t')"
  unfolding sh_alike_def by (metis sh_scan_append fst_conv)

lemma sh_alike_quote: "sh_alike (shellQuote v) (shellQuote w)"
  by (simp add: sh_alike_def)

lemma sh_alike_text: "fst (sh_scan Plain s) = Plain \<Longrightarrow> sh_alike s s"
  by (simp add: sh_alike_def)

lemma sh_alike_skeleton: "sh_alike s t \<Longrightarrow> sh_skeleton s = sh_skeleton t"
  by (simp add: sh_alike_def sh_skeleton_def)

lemma sh_scan_plain_text:
  "\<forall>c \<in> set s. c \<noteq> CHR 0x27 \<and> c \<noteq> CHR 0x22 \<and> c \<noteq> CHR 0x5C \<Longrightarrow> sh_scan Plain s = (Plain, s)"
  by (induction s) auto

lemma sh_alike_int: "sh_alike (show_int i) (show_int i)"
proof -
  have digit: "c \<noteq> CHR 0x27 \<and> c \<noteq> CHR 0x22 \<and> c \<noteq> CHR 0x5C" if "is_digit c" for c
    using that by (auto simp: is_digit_def char_code_def)
  have "\<forall>c \<in> set (show_int i). c \<noteq> CHR 0x27 \<and> c \<noteq> CHR 0x22 \<and> c \<noteq> CHR 0x5C"
    using digit show_nat_digits by (auto simp: show_int_def list_all_iff)
  then show ?thesis by (simp add: sh_alike_def sh_scan_plain_text)
qed

lemma sh_alike_if:
  "(b \<Longrightarrow> sh_alike s t) \<Longrightarrow> (\<not> b \<Longrightarrow> sh_alike s' t') \<Longrightarrow> b = b' \<Longrightarrow>
   sh_alike (if b then s else s') (if b' then t else t')"
  by simp

lemmas sh_alike_intros = sh_alike_append sh_alike_quote sh_alike_int sh_alike_text

lemma remove_alike: "sh_alike (l2VIPRemoveCommand c) (l2VIPRemoveCommand c')"
  unfolding l2VIPRemoveCommand_def by (intro sh_alike_intros) (simp_all add: shtx_def shtx_char_def)

lemma scan_alike: "sh_alike (vipScanCommand v) (vipScanCommand v')"
  unfolding vipScanCommand_def by (intro sh_alike_intros) (simp_all add: shtx_def shtx_char_def)

lemma withdraw_alike: "sh_alike (bgpVIPWithdrawCommand c) (bgpVIPWithdrawCommand c')"
  unfolding bgpVIPWithdrawCommand_def Let_def
  by (intro sh_alike_intros) (simp_all add: shtx_def shtx_char_def)

lemma interface_alike:
  "(trim_space (vc_DefaultInterface c) \<noteq> []) = (trim_space (vc_DefaultInterface c') \<noteq> []) \<Longrightarrow>
   sh_alike (l2VIPInterface c) (l2VIPInterface c')"
  unfolding l2VIPInterface_def
  by (intro sh_alike_if sh_alike_intros) (simp_all add: shtx_def shtx_char_def)

lemma bind_alike:
  assumes "(trim_space (vc_DefaultInterface c) \<noteq> []) = (trim_space (vc_DefaultInterface c') \<noteq> [])"
    and "vc_VIPPrefix c = vc_VIPPrefix c'" "vc_ArpingCount c = vc_ArpingCount c'"
  shows "sh_alike (l2VIPBindCommand c) (l2VIPBindCommand c')"
  unfolding l2VIPBindCommand_def Let_def assms(2,3)
  by (intro interface_alike [OF assms(1)] sh_alike_append sh_alike_quote sh_alike_int sh_alike_text)
    (simp_all add: shtx_def shtx_char_def)

lemma vty_alike:
  "length cs = length cs' \<Longrightarrow>
   sh_alike (concat (map (\<lambda>c. shtx '' -c '' @ shellQuote c) cs)) (concat (map (\<lambda>c. shtx '' -c '' @ shellQuote c) cs'))"
proof (induction cs cs' rule: list_induct2)
  case Nil
  show ?case by (simp add: sh_alike_def)
next
  case (Cons x xs y ys)
  have "sh_alike (shtx '' -c '') (shtx '' -c '')"
    by (rule sh_alike_text) (simp add: shtx_def shtx_char_def)
  with Cons show ?case
    unfolding list.map concat.simps by (intro sh_alike_append sh_alike_quote)
qed

lemma announce_alike:
  assumes "(vc_BGPCommunity c = []) = (vc_BGPCommunity c' = [])"
  shows "sh_alike (bgpVIPAnnounceCommand c m) (bgpVIPAnnounceCommand c' m')"
proof -
  have "length (bgp_session c m) = length (bgp_session c' m')"
    using assms by (simp add: bgp_session_def Let_def)
  then show ?thesis
    unfolding bgpVIPAnnounceCommand_def Let_def
    by (intro vty_alike sh_alike_append sh_alike_quote sh_alike_text) (simp_all add: shtx_def shtx_char_def)
qed

text \<open>C23: No address, interface, router id, peer, community or AS number of a configuration changes the part
  of a VIP command the shell interprets: outside the quotes the withdraw, scan and announce commands
  are fixed texts (the announce has one form with and one without a community), and the bind command
  depends on the prefix, the announcement count and whether an interface is given.\<close>

theorem vip_commands_injection_free:
  "sh_skeleton (l2VIPRemoveCommand c) = sh_skeleton (l2VIPRemoveCommand c') \<and>
   sh_skeleton (bgpVIPWithdrawCommand c) = sh_skeleton (bgpVIPWithdrawCommand c') \<and>
   sh_skeleton (vipScanCommand v) = sh_skeleton (vipScanCommand v') \<and>
   ((vc_BGPCommunity c = []) = (vc_BGPCommunity c' = []) \<longrightarrow>
      sh_skeleton (bgpVIPAnnounceCommand c m) = sh_skeleton (bgpVIPAnnounceCommand c' m')) \<and>
   ((trim_space (vc_DefaultInterface c) = []) = (trim_space (vc_DefaultInterface c') = []) \<and>
      vc_VIPPrefix c = vc_VIPPrefix c' \<and> vc_ArpingCount c = vc_ArpingCount c' \<longrightarrow>
      sh_skeleton (l2VIPBindCommand c) = sh_skeleton (l2VIPBindCommand c'))"
  using remove_alike withdraw_alike scan_alike announce_alike bind_alike
  by (intro conjI impI sh_alike_skeleton) simp_all

theorem vip_commands_injection_free_witness:
  "sh_skeleton (l2VIPBindCommand (no_config\<lparr>vc_VIPAddress := ''10.0.0.9''\<rparr>)) =
   sh_skeleton (l2VIPBindCommand (no_config\<lparr>vc_VIPAddress := shtx ''#; reboot; #''\<rparr>))"
  using vip_commands_injection_free
    [of "no_config\<lparr>vc_VIPAddress := ''10.0.0.9''\<rparr>" "no_config\<lparr>vc_VIPAddress := shtx ''#; reboot; #''\<rparr>"]
  by (simp add: no_config_def)

subsection \<open>SQL string literals\<close>

text \<open>
  How a MySQL server reads a string literal, the flag saying whether the backslash escapes, which it
  does unless the session runs with \<open>NO_BACKSLASH_ESCAPES\<close>.
\<close>

definition sql_escape :: "char \<Rightarrow> string" where
  "sql_escape d =
     (if d = CHR ''0'' then [CHR 0x00] else if d = CHR ''b'' then [CHR 0x08] else if d = CHR ''n'' then [CHR 0x0A]
      else if d = CHR ''r'' then [CHR 0x0D] else if d = CHR ''t'' then [CHR 0x09] else if d = CHR ''Z'' then [CHR 0x1A]
      else if d = CHR ''%'' \<or> d = CHR ''_'' then [CHR 0x5C, d] else [d])"

fun sql_read :: "bool \<Rightarrow> string \<Rightarrow> (string \<times> string) option" where
  "sql_read esc [] = None"
| "sql_read esc [c] = (if c = CHR 0x27 then Some ([], []) else None)"
| "sql_read esc (c # d # s) =
     (if c = CHR 0x27 then
        (if d = CHR 0x27 then map_option (\<lambda>(v, r). (c # v, r)) (sql_read esc s) else Some ([], d # s))
      else if esc \<and> c = CHR 0x5C then map_option (\<lambda>(v, r). (sql_escape d @ v, r)) (sql_read esc s)
      else map_option (\<lambda>(v, r). (c # v, r)) (sql_read esc (d # s)))"

definition sql_string :: "bool \<Rightarrow> string \<Rightarrow> (string \<times> string) option" where
  "sql_string esc s = (case s of [] \<Rightarrow> None | c # r \<Rightarrow> if c = CHR 0x27 then sql_read esc r else None)"

definition sql_double :: "string \<Rightarrow> string" where
  "sql_double v = replace_char (CHR 0x27) (shtx ''##'') v"

lemma sql_double_simps [simp]:
  "sql_double [] = []"
  "sql_double (c # v) = (if c = CHR 0x27 then CHR 0x27 # CHR 0x27 # sql_double v else c # sql_double v)"
  by (simp_all add: sql_double_def replace_char_def shtx_def shtx_char_def)

lemma sqlLiteral_double: "sqlLiteral v = CHR 0x27 # sql_double v @ [CHR 0x27]"
  by (simp add: sqlLiteral_def sql_double_def shtx_def shtx_char_def)

lemma sql_read_other: "c \<noteq> CHR 0x27 \<Longrightarrow> \<not> (esc \<and> c = CHR 0x5C) \<Longrightarrow> s \<noteq> [] \<Longrightarrow>
  sql_read esc (c # s) = map_option (\<lambda>(v, r). (c # v, r)) (sql_read esc s)"
  by (cases s) auto

lemma sql_read_double:
  assumes "esc \<longrightarrow> CHR 0x5C \<notin> set v" "r = [] \<or> hd r \<noteq> CHR 0x27"
  shows "sql_read esc (sql_double v @ CHR 0x27 # r) = Some (v, r)"
  using assms(1)
proof (induction v)
  case Nil
  with assms(2) show ?case by (cases r) auto
next
  case (Cons c v)
  then show ?case by (cases "c = CHR 0x27") (auto simp: sql_read_other)
qed

text \<open>C33: \<open>sqlLiteral\<close> is read back as the value when the server does not treat the backslash as an
  escape, and otherwise for every value without a backslash; but with the server's default a value
  that ends in a backslash leaves the literal open, so that no statement text after it closes it
  unless it holds a quote of its own.\<close>

theorem sqlLiteral_read:
  "(r = [] \<or> hd r \<noteq> CHR 0x27 \<longrightarrow> sql_string False (sqlLiteral v @ r) = Some (v, r)) \<and>
   (CHR 0x5C \<notin> set v \<and> (r = [] \<or> hd r \<noteq> CHR 0x27) \<longrightarrow> sql_string True (sqlLiteral v @ r) = Some (v, r)) \<and>
   (CHR 0x5C \<notin> set v \<and> CHR 0x27 \<notin> set r \<longrightarrow> sql_string True (sqlLiteral (v @ [CHR 0x5C]) @ r) = None)"
proof (intro conjI impI)
  show "r = [] \<or> hd r \<noteq> CHR 0x27 \<Longrightarrow> sql_string False (sqlLiteral v @ r) = Some (v, r)"
    using sql_read_double [of False v r] by (simp add: sql_string_def sqlLiteral_double)
  show "CHR 0x5C \<notin> set v \<and> (r = [] \<or> hd r \<noteq> CHR 0x27) \<Longrightarrow> sql_string True (sqlLiteral v @ r) = Some (v, r)"
    using sql_read_double [of True v r] by (simp add: sql_string_def sqlLiteral_double)
next
  assume *: "CHR 0x5C \<notin> set v \<and> CHR 0x27 \<notin> set r"
  have open_text: "CHR 0x27 \<notin> set s \<Longrightarrow> sql_read True s = None" for s
    by (induction True s rule: sql_read.induct) auto
  have "CHR 0x5C \<notin> set u \<Longrightarrow> sql_read True (sql_double (u @ [CHR 0x5C]) @ CHR 0x27 # r) = None" for u
    using * open_text by (induction u) (auto simp: sql_read_other)
  with * show "sql_string True (sqlLiteral (v @ [CHR 0x5C]) @ r) = None"
    by (simp add: sql_string_def sqlLiteral_double)
qed

theorem sqlLiteral_read_witness:
  "sql_string True (sqlLiteral ''it'' @ '';'') = Some (''it'', '';'') \<and>
   sql_string True (sqlLiteral [CHR ''p'', CHR 0x5C] @ '',X=1'') = None"
  using sqlLiteral_read [of "'';''" "''it''"] sqlLiteral_read [of "'',X=1''" "''p''"] by simp

end
