(* ===== verification/VIP_Service.thy ===== *)
theory VIP_Service
  imports HA_Repo Shell_Commands Net_IP
begin

text \<open>
  \<open>VIPService\<close> of \<open>internal/app/ha_service.go\<close>: the live scan, the ordered bind (withdraw everywhere,
  zero-holder barrier, bind, two verification rounds, rollback), the removal, adoption, and the lock
  held around them. A Go function that returns a value together with an error is an action whose
  result is the pair \<open>(value, error)\<close>. Chinese display and error texts are given in English.
\<close>

subsection \<open>Values with errors\<close>

type_synonym 'a multi = "'a \<times> go_error option"

definition or_return :: "'a act \<Rightarrow> 'z \<Rightarrow> ('a \<Rightarrow> 'z multi act) \<Rightarrow> 'z multi act" where
  "or_return m zero f = with_result m (\<lambda>r. case r of Inl e \<Rightarrow> ret (zero, Some e) | Inr x \<Rightarrow> f x)"

definition ignoring :: "'a act \<Rightarrow> 'b act \<Rightarrow> 'b act" where
  "ignoring m k = with_result m (\<lambda>_. k)"

definition deferring :: "('s, 'a) op \<Rightarrow> ('s, 'b) op \<Rightarrow> ('s, 'a) op" where
  "deferring m f w = (case m w of (r, w') \<Rightarrow> (r, snd (f w')))"

lemma preserves_or_return [op_rules]:
  "preserves I m \<Longrightarrow> (\<And>x. preserves I (f x)) \<Longrightarrow> preserves I (or_return m z f)"
  unfolding or_return_def by (intro op_rules)

lemma preserves_ignoring [op_rules]: "preserves I m \<Longrightarrow> preserves I k \<Longrightarrow> preserves I (ignoring m k)"
  unfolding ignoring_def by (intro op_rules)

lemma preserves_deferring [op_rules]: "preserves I m \<Longrightarrow> preserves I f \<Longrightarrow> preserves I (deferring m f)"
  unfolding valid_def deferring_def by (metis (mono_tags, lifting) case_prod_conv prod.collapse prod.inject)

subsection \<open>Scan\<close>

text \<open>The counters of created and failed tasks live beside the world until the tracking task is closed.\<close>

type_synonym scan_state = "world \<times> (nat \<times> nat)"

definition in_world :: "'a act \<Rightarrow> (scan_state, 'a) op" where
  "in_world m s = (case s of (w, c) \<Rightarrow> (case m w of (r, w') \<Rightarrow> (r, (w', c))))"

definition count_created :: "(scan_state, unit) op" where
  "count_created = modify (\<lambda>(w, (a, b)). (w, (Suc a, b)))"

definition count_failed :: "(scan_state, unit) op" where
  "count_failed = modify (\<lambda>(w, (a, b)). (w, (a, Suc b)))"

type_synonym holders = "(string \<times> string) list"

definition scan_machine :: "agent \<Rightarrow> string \<Rightarrow> string \<Rightarrow> machine \<Rightarrow> holders \<Rightarrow> (scan_state, holders) op" where
  "scan_machine ag parent vip m holders =
     on_ok (in_world (send ag (ExecTask (mach_IP m) (vipScanCommand vip) parent ''vip_scan''
              (''detect VIP '' @ vip) ''check the addresses of the machine'' (30 * second)))) (\<lambda>r.
       case rp_Create r of
         Inl e \<Rightarrow> on_ok count_failed (\<lambda>_. fail_with e)
       | Inr _ \<Rightarrow> on_ok count_created (\<lambda>_.
           case rp_Wait r of
             Inl _ \<Rightarrow> fail_with (Errorf ''VIP scan failed on %s'' [mach_Name m])
           | Inr d \<Rightarrow>
               if td_Status d \<noteq> StatusSuccess then fail_with (Errorf ''VIP scan failed on %s'' [mach_Name m])
               else let iface = vipScanInterface (td_Steps d)
                    in ret (if iface \<noteq> [] then holders @ [(mach_ID m, iface)] else holders)))"

definition scan_status :: "string \<Rightarrow> string list \<Rightarrow> string" where
  "scan_status expected holders =
     (if length holders > 1 then VipStatusConflict
      else if length holders = 1
           then (if expected \<noteq> [] \<and> hd holders \<noteq> expected then VipStatusMismatch else VipStatusBound)
      else VipStatusUnbound)"

definition scan_result :: "string \<Rightarrow> vip_config \<Rightarrow> string \<Rightarrow> string \<Rightarrow> go_time \<Rightarrow> holders \<Rightarrow> vip_binding" where
  "scan_result cid cfg parent expected now holders =
     (let ids = map fst holders;
          st = no_binding\<lparr>vb_TaskID := parent, vb_ClusterID := cid, vb_VIPConfigID := vc_ID cfg,
                 vb_VIPAddress := vc_VIPAddress cfg, vb_VIPStatus := scan_status expected ids,
                 vb_DetectedHolders := join '','' ids, vb_ExpectedHolderMachineID := expected,
                 vb_LastCheckResult := sprintf ''live Agent scan found %d holder(s)'' [show_nat (length ids)],
                 vb_CreatedAt := now, vb_UpdatedAt := now\<rparr>
      in if length ids = 1
         then st\<lparr>vb_CurrentHolderMachineID := hd ids,
                 vb_ExpectedHolderMachineID := (if expected = [] then hd ids else expected),
                 vb_CurrentInterface := snd (hd holders)\<rparr>
         else st)"

definition check_log :: "string \<Rightarrow> string \<Rightarrow> vip_oplog" where
  "check_log cid vip = \<lparr>vo_ClusterID = cid, vo_FailoverID = [], vo_VIP = vip, vo_Operation = ''CHECK'',
     vo_MachineID = [], vo_HostIP = [], vo_Interface = [], vo_Command = [], vo_ResultCode = 0, vo_Status = ''SUCCESS''\<rparr>"

definition expected_holder :: "vip_binding list \<Rightarrow> string \<Rightarrow> string" where
  "expected_holder previous vip =
     (case find (\<lambda>b. vb_VIPAddress b = vip) (rev previous) of
        None \<Rightarrow> vb_ExpectedHolderMachineID no_binding | Some b \<Rightarrow> vb_ExpectedHolderMachineID b)"

definition scan_config ::
  "agent \<Rightarrow> string \<Rightarrow> machine list \<Rightarrow> vip_binding list \<Rightarrow> string \<Rightarrow> vip_config \<Rightarrow> vip_binding list \<Rightarrow>
   (scan_state, vip_binding list) op" where
  "scan_config ag cid machines previous parent cfg out =
     on_ok (fold_ok (scan_machine ag parent (vc_VIPAddress cfg))
              (filter (\<lambda>m. mach_Cluster m = cid) machines) []) (\<lambda>holders.
     on_ok (in_world (gets w_clock)) (\<lambda>now.
       let st = scan_result cid cfg parent (expected_holder previous (vc_VIPAddress cfg)) now holders
       in on_ok (in_world (UpsertVIPBindingState st)) (\<lambda>_.
          with_result (in_world (InsertVIPOperationLog (check_log cid (vc_VIPAddress cfg)))) (\<lambda>_.
            ret (out @ [st])))))"

definition scan_body ::
  "agent \<Rightarrow> string \<Rightarrow> vip_config list \<Rightarrow> machine list \<Rightarrow> string \<Rightarrow> (scan_state, vip_binding list) op" where
  "scan_body ag cid configs machines parent =
     with_result (in_world (GetVIPBindingStates cid)) (\<lambda>r.
       let previous = (case r of Inl _ \<Rightarrow> [] | Inr bs \<Rightarrow> bs)
       in fold_ok (scan_config ag cid machines previous parent) configs [])"

definition with_counts :: "agent \<Rightarrow> string \<Rightarrow> (scan_state, 'a) op \<Rightarrow> 'a act" where
  "with_counts ag parent m w =
     (case m (w, (0, 0)) of
        (r, (w', (created, failed))) \<Rightarrow> (r, snd (send ag (FinalizeTracking parent created failed) w')))"

definition Scan :: "agent option \<Rightarrow> string \<Rightarrow> vip_binding list act" where
  "Scan tasks cid =
     (case tasks of
        None \<Rightarrow> fail_with (Error ''live VIP scan requires the Agent task executor'')
      | Some ag \<Rightarrow>
          on_ok (ListVIPConfigs cid) (\<lambda>configs.
            if configs = [] then ret []
            else on_ok machines_List (\<lambda>machines.
              on_ok (send ag (TrackingTask ''vip_scan'' ''scan the VIP bindings of the cluster'' cid)) (\<lambda>r.
                case rp_Create r of
                  Inl e \<Rightarrow> fail_with e
                | Inr parent \<Rightarrow> with_counts ag parent (scan_body ag cid configs machines parent)))))"

definition Status_vip :: "string \<Rightarrow> vip_binding list act" where
  "Status_vip cid = GetVIPBindingStates cid"

definition Validate_vip :: "agent option \<Rightarrow> string \<Rightarrow> vip_binding list act" where
  "Validate_vip tasks cid = Scan tasks cid"

subsection \<open>Machines and commands\<close>

definition clusterMachines :: "string \<Rightarrow> machine list act" where
  "clusterMachines cid =
     on_ok machines_List (\<lambda>items.
       let result = filter (\<lambda>m. mach_Cluster m = cid) items
       in if result = [] then fail_with (Errorf ''no machine of cluster %s can run VIP operations'' [cid])
          else ret result)"

fun last_event :: "string list \<Rightarrow> string" where
  "last_event [] = ''unknown error''"
| "last_event (e # es) = (if trim_space e \<noteq> [] then e else last_event es)"

definition emptyTaskError :: "task_detail \<Rightarrow> string" where
  "emptyTaskError d = last_event (rev (td_Events d))"

definition runCommand ::
  "agent option \<Rightarrow> machine \<Rightarrow> string \<Rightarrow> string \<Rightarrow> string \<Rightarrow> string \<Rightarrow> string multi act" where
  "runCommand tasks m operation display step command =
     (case tasks of
        None \<Rightarrow> ret ([], Some (Error ''VIP operations need the online Agent task channel''))
      | Some ag \<Rightarrow>
          on_ok (send ag (ExecTask (mach_IP m) command [] operation display step (45 * second))) (\<lambda>r.
            case rp_Create r of
              Inl e \<Rightarrow> ret ([], Some e)
            | Inr taskID \<Rightarrow>
                (case rp_Wait r of
                   Inl e \<Rightarrow> ret (taskID, Some e)
                 | Inr d \<Rightarrow>
                     if td_Status d \<noteq> StatusSuccess
                     then ret (taskID, Some (Errorf ''%s failed on %s: %s'' [display, mach_Name m, emptyTaskError d]))
                     else ret (taskID, None))))"

definition must_run ::
  "agent option \<Rightarrow> machine \<Rightarrow> string \<Rightarrow> string \<Rightarrow> string \<Rightarrow> string \<Rightarrow> string act" where
  "must_run tasks m operation display step command =
     on_ok (runCommand tasks m operation display step command) (\<lambda>(taskID, err).
       case err of None \<Rightarrow> ret taskID | Some e \<Rightarrow> fail_with e)"

subsection \<open>The operation lock\<close>

text \<open>
  While the operation runs, a goroutine renews the lease every minute until the first failure. It
  touches the lock row only, which the operation itself never reads, so its ticks are run after the
  operation, each at its own time; the fault list supplies their outcomes. A failed renewal cancels
  the context of the operation, whose remaining calls then fail: that is one of the replies and
  faults the operation is already open to.
\<close>

abbreviation lockTTL :: duration where "lockTTL \<equiv> 5 * minute"

definition renew_at :: "string \<Rightarrow> string \<Rightarrow> go_time \<Rightarrow> unit act" where
  "renew_at cid lockID t = on_ok db_call (\<lambda>_ w.
     case renew_lock t cid lockID lockTTL (w_locks w) of
       Inl e \<Rightarrow> (Inl e, w)
     | Inr tab \<Rightarrow> (Inr (), w\<lparr>w_locks := tab\<rparr>))"

definition renewal_ticks :: "go_time \<Rightarrow> go_time \<Rightarrow> go_time list" where
  "renewal_ticks start stop = map (\<lambda>i. start + (int i + 1) * minute) [0 ..< nat ((stop - start) div minute)]"

definition renewals :: "string \<Rightarrow> string \<Rightarrow> go_time \<Rightarrow> go_error option act" where
  "renewals cid lockID start =
     on_ok (gets w_clock) (\<lambda>stop.
       with_result (for_ok (renew_at cid lockID) (renewal_ticks start stop)) (\<lambda>r.
         case r of Inl e \<Rightarrow> ret (Some e) | Inr _ \<Rightarrow> ret None))"

definition vip_lock_id :: "string \<Rightarrow> string \<Rightarrow> string" where
  "vip_lock_id operation newid = ''vip-'' @ operation @ ''-'' @ trim_prefix newid ''fo-''"

definition withVIPOperationLock ::
  "string \<Rightarrow> string \<Rightarrow> string \<Rightarrow> 'z \<Rightarrow> 'z multi act \<Rightarrow> 'z multi act" where
  "withVIPOperationLock newid cid operation zero execute =
     (let lockID = vip_lock_id operation newid
      in with_result (AcquireFailoverLock cid lockID ''gmha-vip'' lockTTL) (\<lambda>r.
           case r of
             Inl e \<Rightarrow> ret (zero, Some (Wrap ''another high-availability operation runs on the cluster, VIP %s blocked: %w'' [operation] e))
           | Inr _ \<Rightarrow>
               on_ok (gets w_clock) (\<lambda>start.
               on_ok execute (\<lambda>(result, operationErr).
               on_ok (renewals cid lockID start) (\<lambda>lockErr.
               ignoring (ReleaseFailoverLock cid lockID)
                 (case lockErr of
                    Some e \<Rightarrow> ret (result, Some (Wrap ''the VIP operation lost the cluster lock and was stopped: %w'' [] e))
                  | None \<Rightarrow> ret (result, operationErr)))))))"

subsection \<open>Interface selection and drivers\<close>

record select_request =
  sr_ClusterID :: string
  sr_MachineID :: string
  sr_InstanceVIPInterface :: string
  sr_DefaultInterface :: string
  sr_VIPAddress :: string

definition no_interface_error :: go_error where
  "no_interface_error = Error ''unable to determine VIP interface; configure instance vip_interface, cluster_vip_config.default_interface, or machine_network_interface.can_bind_vip''"

definition Select_interface :: "select_request \<Rightarrow> string act" where
  "Select_interface req =
     (if trim_space (sr_InstanceVIPInterface req) \<noteq> [] then ret (trim_space (sr_InstanceVIPInterface req))
      else if trim_space (sr_DefaultInterface req) \<noteq> [] then ret (trim_space (sr_DefaultInterface req))
      else on_ok (ListMachineInterfaces (sr_MachineID req)) (\<lambda>interfaces.
        case find (\<lambda>i. ni_CanBindVIP i \<and> ni_IsUp i) interfaces of
          Some i \<Rightarrow> ret (ni_InterfaceName i)
        | None \<Rightarrow>
            on_ok (GetNetworkPolicy (sr_ClusterID req)) (\<lambda>network.
              if \<not> np_AutoDetectVIPInterface network then fail_with no_interface_error
              else (case find (\<lambda>i. ni_IsUp i \<and> ni_SubnetCIDR i \<noteq> [] \<and> ipInCIDR (sr_VIPAddress req) (ni_SubnetCIDR i)) interfaces of
                      Some i \<Rightarrow> ret (ni_InterfaceName i)
                    | None \<Rightarrow> fail_with no_interface_error))))"

datatype vip_driver =
    L2ARPVipDriver
  | NotImplementedVipDriver (driver_mode: string) (driver_message: string)
  | ArchitectureManagedVIPDriver (driver_mode: string)

definition vip_drivers :: "string \<Rightarrow> vip_driver option" where
  "vip_drivers mode =
     (if mode = VipRouteModeL2ARP then Some L2ARPVipDriver
      else if mode = VipRouteModeManual then Some (NotImplementedVipDriver VipRouteModeManual
             ''MANUAL VIP driver does not execute add/del; automatic failover is blocked'')
      else if mode = VipRouteModeBGP then Some (ArchitectureManagedVIPDriver VipRouteModeBGP)
      else if mode = VipRouteModeCloudAPI then Some (NotImplementedVipDriver VipRouteModeCloudAPI
             ''CLOUD_API VIP driver is not implemented; automatic failover is blocked'')
      else None)"

definition DriverFor :: "string \<Rightarrow> vip_config \<Rightarrow> vip_driver act" where
  "DriverFor cid cfg =
     on_ok (GetNetworkPolicy cid) (\<lambda>network.
       let mode = (if vc_VIPRouteMode cfg = [] then np_VIPRouteMode network else vc_VIPRouteMode cfg)
       in if equal_fold (np_NetworkTopology network) ''L3'' \<and> mode = VipRouteModeL2ARP
          then fail_with (Error ''network_topology=L3 cannot use L2_ARP VIP drift; configure the cluster BGP policy'')
          else (case vip_drivers mode of
                  None \<Rightarrow> fail_with (Errorf ''vip route mode %s is not supported'' [mode])
                | Some d \<Rightarrow> ret d))"

subsection \<open>Bind\<close>

definition withdraw_command :: "vip_config \<Rightarrow> string" where
  "withdraw_command cfg =
     (if vc_VIPRouteMode cfg = VipRouteModeBGP then bgpVIPWithdrawCommand cfg else l2VIPRemoveCommand cfg)"

definition bind_command :: "vip_config \<Rightarrow> machine \<Rightarrow> string" where
  "bind_command cfg target =
     (if vc_VIPRouteMode cfg = VipRouteModeBGP then bgpVIPAnnounceCommand cfg target else l2VIPBindCommand cfg)"

definition failed_binding :: "string \<Rightarrow> vip_config \<Rightarrow> machine \<Rightarrow> string \<Rightarrow> vip_binding" where
  "failed_binding cid cfg target err =
     no_binding\<lparr>vb_ClusterID := cid, vb_VIPConfigID := vc_ID cfg, vb_VIPAddress := vc_VIPAddress cfg,
                vb_ExpectedHolderMachineID := mach_ID target, vb_VIPStatus := VipStatusFailed,
                vb_LastError := err\<rparr>"

definition rollback_bind :: "agent option \<Rightarrow> vip_config \<Rightarrow> machine \<Rightarrow> string \<Rightarrow> string multi act" where
  "rollback_bind tasks cfg target step =
     runCommand tasks target ''vip_rollback'' (''roll back VIP '' @ vc_VIPAddress cfg) step (withdraw_command cfg)"

definition withdraw_machine :: "agent option \<Rightarrow> vip_config \<Rightarrow> machine \<Rightarrow> string act" where
  "withdraw_machine tasks cfg m =
     must_run tasks m ''vip_withdraw'' (''withdraw old VIP '' @ vc_VIPAddress cfg)
       ''make sure the old holder has released it'' (withdraw_command cfg)"

definition withdraw_all :: "agent option \<Rightarrow> vip_config \<Rightarrow> machine list \<Rightarrow> unit act" where
  "withdraw_all tasks cfg machines = for_ok (\<lambda>m. on_ok (withdraw_machine tasks cfg m) (\<lambda>_. ret ())) machines"

text \<open>One verification round: the early return of the function, or the verified state.\<close>

definition verify_round ::
  "agent option \<Rightarrow> string \<Rightarrow> vip_config \<Rightarrow> machine \<Rightarrow> nat \<Rightarrow> (vip_binding multi + vip_binding) act" where
  "verify_round tasks cid cfg target round =
     with_result (Scan tasks cid) (\<lambda>r.
       case r of
         Inl scanErr \<Rightarrow>
           (let failed = failed_binding cid cfg target
                  ''cluster-wide verification unavailable; new target binding was withdrawn''
            in ignoring (rollback_bind tasks cfg target ''verification unavailable, withdraw the VIP of the new node'')
                 (ignoring (UpsertVIPBindingState failed) (ret (Inl (failed, Some scanErr)))))
       | Inr states \<Rightarrow>
           (let none = no_binding\<lparr>vb_ClusterID := cid, vb_VIPConfigID := vc_ID cfg,
                         vb_VIPAddress := vc_VIPAddress cfg, vb_ExpectedHolderMachineID := mach_ID target\<rparr>;
                verified = (case find (\<lambda>st. vb_VIPAddress st = vc_VIPAddress cfg) states of
                              None \<Rightarrow> none | Some st \<Rightarrow> st)
            in if vb_VIPAddress verified = [] \<or> vb_VIPStatus verified \<noteq> VipStatusBound \<or>
                  vb_CurrentHolderMachineID verified \<noteq> mach_ID target
               then let bad = verified\<lparr>vb_VIPStatus := VipStatusFailed,
                          vb_LastError := sprintf ''round %d: single holder verification failed; the new binding was rolled back'' [show_nat round]\<rparr>
                    in ignoring (rollback_bind tasks cfg target ''single holder verification failed, withdraw the VIP of the new node'')
                         (ignoring (UpsertVIPBindingState bad)
                           (ret (Inl (bad, Some (Errorf ''VIP %s round %d: single holder check failed, current holders %s''
                              [vc_VIPAddress cfg, show_nat round, vb_DetectedHolders bad])))))
               else ret (Inr verified)))"

definition add_log :: "string \<Rightarrow> vip_config \<Rightarrow> machine \<Rightarrow> string \<Rightarrow> vip_oplog" where
  "add_log cid cfg target iface = \<lparr>vo_ClusterID = cid, vo_FailoverID = [], vo_VIP = vc_VIPAddress cfg,
     vo_Operation = ''ADD'', vo_MachineID = mach_ID target, vo_HostIP = mach_IP target, vo_Interface = iface,
     vo_Command = ''Agent managed automatic advertisement with two-round verification'', vo_ResultCode = 0,
     vo_Status = ''SUCCESS''\<rparr>"

definition after_bind ::
  "agent option \<Rightarrow> string \<Rightarrow> vip_config \<Rightarrow> machine \<Rightarrow> string \<Rightarrow> vip_binding multi act" where
  "after_bind tasks cid cfg target bindTaskID =
     on_ok (verify_round tasks cid cfg target 1) (\<lambda>r1.
       case r1 of
         Inl early \<Rightarrow> ret early
       | Inr _ \<Rightarrow>
           on_ok (verify_round tasks cid cfg target 2) (\<lambda>r2.
             case r2 of
               Inl early \<Rightarrow> ret early
             | Inr verified \<Rightarrow>
                 (let final = verified\<lparr>vb_TaskID := bindTaskID, vb_ExpectedHolderMachineID := mach_ID target,
                                vb_LastCheckResult := ''two consecutive cluster-wide scans verified one holder''\<rparr>
                  in ignoring (UpsertVIPBindingState final)
                       (ignoring (InsertVIPOperationLog (add_log cid cfg target (vb_CurrentInterface final)))
                         (ret (final, None))))))"

definition bind_target ::
  "agent option \<Rightarrow> string \<Rightarrow> machine list \<Rightarrow> machine \<Rightarrow> vip_config \<Rightarrow> vip_binding multi act" where
  "bind_target tasks cid machines target cfg =
     or_return (withdraw_all tasks cfg machines) no_binding (\<lambda>_.
     with_result (Scan tasks cid) (\<lambda>r.
       case r of
         Inl e \<Rightarrow> ret (no_binding, Some (Wrap ''VIP %s zero-holder barrier check failed: %w'' [vc_VIPAddress cfg] e))
       | Inr withdrawn \<Rightarrow>
           (case find (\<lambda>st. vb_VIPAddress st = vc_VIPAddress cfg \<and> vb_VIPStatus st \<noteq> VipStatusUnbound) withdrawn of
              Some st \<Rightarrow> ret (st, Some (Errorf ''VIP %s still has holders %s after the withdrawal, rebinding blocked''
                                 [vc_VIPAddress cfg, vb_DetectedHolders st]))
            | None \<Rightarrow>
                on_ok (runCommand tasks target ''vip_bind'' (''bind VIP '' @ vc_VIPAddress cfg)
                         ''bind and announce the VIP'' (bind_command cfg target)) (\<lambda>(bindTaskID, err).
                  case err of
                    Some e \<Rightarrow>
                      ignoring (UpsertVIPBindingState
                                  ((failed_binding cid cfg target (error_text e))\<lparr>vb_CurrentInterface := vc_DefaultInterface cfg\<rparr>))
                        (ret (no_binding, Some e))
                  | None \<Rightarrow> after_bind tasks cid cfg target bindTaskID))))"

definition bindLocked ::
  "agent option \<Rightarrow> string \<Rightarrow> string \<Rightarrow> vip_config \<Rightarrow> vip_binding multi act" where
  "bindLocked tasks cid targetMachineID cfg =
     or_return (clusterMachines cid) no_binding (\<lambda>machines.
       let target = (case find (\<lambda>m. mach_ID m = targetMachineID) machines of None \<Rightarrow> no_machine | Some m \<Rightarrow> m)
       in if mach_ID target = [] then ret (no_binding, Some (Error ''choose a machine of the cluster to hold the VIP''))
          else if vc_VIPRouteMode cfg = VipRouteModeL2ARP then
            or_return (Select_interface \<lparr>sr_ClusterID = cid, sr_MachineID = mach_ID target,
                         sr_InstanceVIPInterface = [], sr_DefaultInterface = vc_DefaultInterface cfg,
                         sr_VIPAddress = vc_VIPAddress cfg\<rparr>) no_binding (\<lambda>iface.
              bind_target tasks cid machines target (cfg\<lparr>vc_DefaultInterface := iface\<rparr>))
          else bind_target tasks cid machines target cfg)"

definition Bind ::
  "agent option \<Rightarrow> string \<Rightarrow> string \<Rightarrow> string \<Rightarrow> vip_config \<Rightarrow> vip_binding multi act" where
  "Bind tasks newid cid targetMachineID cfg =
     withVIPOperationLock newid cid ''bind'' no_binding (bindLocked tasks cid targetMachineID cfg)"

subsection \<open>Remove and adopt\<close>

definition delete_log :: "string \<Rightarrow> string \<Rightarrow> vip_oplog" where
  "delete_log cid vip = \<lparr>vo_ClusterID = cid, vo_FailoverID = [], vo_VIP = vip, vo_Operation = ''DELETE'',
     vo_MachineID = [], vo_HostIP = [], vo_Interface = [], vo_Command = ''Agent managed withdrawal'',
     vo_ResultCode = 0, vo_Status = ''SUCCESS''\<rparr>"

definition delete_all :: "agent option \<Rightarrow> vip_config \<Rightarrow> string \<Rightarrow> machine list \<Rightarrow> unit act" where
  "delete_all tasks cfg vip =
     for_ok (\<lambda>m. on_ok (must_run tasks m ''vip_delete'' (''delete VIP '' @ vip)
                        ''withdraw the VIP and verify its absence'' (withdraw_command cfg)) (\<lambda>_. ret ()))"

definition removal_check :: "agent option \<Rightarrow> string \<Rightarrow> string \<Rightarrow> unit act" where
  "removal_check tasks cid vip =
     on_ok (Scan tasks cid) (\<lambda>states.
       case find (\<lambda>st. vb_VIPAddress st = vip \<and> vb_VIPStatus st \<noteq> VipStatusUnbound) states of
         Some st \<Rightarrow> fail_with (Errorf ''VIP %s removal check failed, still held by %s'' [vip, vb_DetectedHolders st])
       | None \<Rightarrow> ignoring (InsertVIPOperationLog (delete_log cid vip)) (ret ()))"

definition find_config :: "string \<Rightarrow> vip_config list \<Rightarrow> vip_config" where
  "find_config vip configs = (case find (\<lambda>c. vc_VIPAddress c = vip) configs of None \<Rightarrow> no_config | Some c \<Rightarrow> c)"

definition removeLocked :: "agent option \<Rightarrow> string \<Rightarrow> string \<Rightarrow> unit act" where
  "removeLocked tasks cid vip =
     on_ok (ListVIPConfigs cid) (\<lambda>configs.
       let cfg = find_config vip configs
       in if vc_ID cfg = 0 then fail_with (Errorf ''VIP %s is not configured'' [vip])
          else on_ok (clusterMachines cid) (\<lambda>machines.
            on_ok (delete_all tasks cfg vip machines) (\<lambda>_. removal_check tasks cid vip)))"

definition Remove :: "agent option \<Rightarrow> string \<Rightarrow> string \<Rightarrow> string \<Rightarrow> unit multi act" where
  "Remove tasks newid cid vip =
     withVIPOperationLock newid cid ''delete'' ()
       (with_result (removeLocked tasks cid vip) (\<lambda>r.
          case r of Inl e \<Rightarrow> ret ((), Some e) | Inr _ \<Rightarrow> ret ((), None)))"

definition adopt_log :: "string \<Rightarrow> vip_config \<Rightarrow> vip_binding \<Rightarrow> vip_oplog" where
  "adopt_log cid cfg st = \<lparr>vo_ClusterID = cid, vo_FailoverID = [], vo_VIP = vc_VIPAddress cfg,
     vo_Operation = ''ADOPT'', vo_MachineID = vb_CurrentHolderMachineID st, vo_HostIP = [],
     vo_Interface = vb_CurrentInterface st, vo_Command = ''live Agent scan'', vo_ResultCode = 0,
     vo_Status = ''SUCCESS''\<rparr>"

definition Adopt :: "agent option \<Rightarrow> string \<Rightarrow> string \<Rightarrow> vip_binding act" where
  "Adopt tasks cid vip =
     on_ok (ListVIPConfigs cid) (\<lambda>configs.
       case find (\<lambda>c. vc_VIPAddress c = vip) configs of
         None \<Rightarrow> fail_with (Errorf ''vip %s is not configured for cluster %s'' [vip, cid])
       | Some cfg \<Rightarrow>
           on_ok (Scan tasks cid) (\<lambda>states.
             case find (\<lambda>st. vb_VIPAddress st = vip) states of
               None \<Rightarrow> fail_with (Errorf ''VIP %s was not returned by live scan'' [vip])
             | Some st \<Rightarrow>
                 if vb_VIPStatus st = VipStatusConflict
                 then fail_with (Errorf ''cannot adopt VIP %s while multiple holders are detected'' [vip])
                 else ignoring (InsertVIPOperationLog (adopt_log cid cfg st)) (ret st)))"

end
