(* ===== verification/VIP_Config.thy ===== *)
theory VIP_Config
  imports VIP_Service
begin

text \<open>
  The VIP configuration API of \<open>HAService\<close> in \<open>internal/app/ha_service.go\<close>: validation and automatic
  choice of the route mode (\<open>SaveVIPConfig\<close>, \<open>resolveAutomaticVIPMode\<close>), the apply and remove flows
  over the VIP service, and the deletion of the stored configuration.
\<close>

subsection \<open>Validation\<close>

definition iface_char :: "char \<Rightarrow> bool" where
  "iface_char c \<longleftrightarrow> (48 \<le> char_code c \<and> char_code c \<le> 57) \<or> (65 \<le> char_code c \<and> char_code c \<le> 90) \<or>
     (97 \<le> char_code c \<and> char_code c \<le> 122) \<or> c \<in> set ''_.:-''"

text \<open>The regular expressions \<open>[A-Za-z0-9_.:-]+\<close> and \<open>[0-9]{1,10}:[0-9]{1,10}\<close>, anchored at both ends.\<close>

definition iface_name_ok :: "string \<Rightarrow> bool" where
  "iface_name_ok s \<longleftrightarrow> s \<noteq> [] \<and> list_all iface_char s"

definition community_ok :: "string \<Rightarrow> bool" where
  "community_ok s =
     (case split_on (CHR '':'') s of
        [a, b] \<Rightarrow> list_all is_digit a \<and> list_all is_digit b \<and> 1 \<le> length a \<and> length a \<le> 10 \<and> 1 \<le> length b \<and> length b \<le> 10
      | _ \<Rightarrow> False)"

definition is_ipv4 :: "string \<Rightarrow> bool" where
  "is_ipv4 s = (case ParseIP s of None \<Rightarrow> False | Some a \<Rightarrow> To4 a \<noteq> None)"

definition no_bgp_neighbour :: "vip_config \<Rightarrow> bool" where
  "no_bgp_neighbour cfg \<longleftrightarrow>
     vc_BGPLocalAS cfg \<le> 0 \<or> vc_BGPPeerAS cfg \<le> 0 \<or> trim_space (vc_BGPPeerAddress cfg) = []"

definition bgp_template :: "vip_config \<Rightarrow> bool" where
  "bgp_template t \<longleftrightarrow> vc_VIPRouteMode t = VipRouteModeBGP \<and> vc_BGPLocalAS t > 0 \<and> vc_BGPPeerAS t > 0 \<and>
     trim_space (vc_BGPPeerAddress t) \<noteq> []"

definition reuse_template :: "vip_config list \<Rightarrow> vip_config \<Rightarrow> vip_config" where
  "reuse_template templates cfg =
     (case find bgp_template templates of
        None \<Rightarrow> cfg
      | Some t \<Rightarrow> cfg\<lparr>vc_BGPLocalAS := vc_BGPLocalAS t, vc_BGPPeerAS := vc_BGPPeerAS t,
                      vc_BGPPeerAddress := vc_BGPPeerAddress t, vc_BGPRouterID := vc_BGPRouterID t,
                      vc_BGPCommunity := vc_BGPCommunity t\<rparr>)"

text \<open>The template lookup, made only for a configuration without a neighbour; its error is dropped.\<close>

definition with_template :: "string \<Rightarrow> vip_config \<Rightarrow> vip_config act" where
  "with_template cid cfg =
     (if no_bgp_neighbour cfg
      then with_result (ListVIPConfigs cid) (\<lambda>r.
             case r of Inl _ \<Rightarrow> ret cfg | Inr templates \<Rightarrow> ret (reuse_template templates cfg))
      else ret cfg)"

definition resolveAutomaticVIPMode :: "string \<Rightarrow> vip_config \<Rightarrow> vip_config multi act" where
  "resolveAutomaticVIPMode cid cfg =
     with_result (GetNetworkPolicy cid) (\<lambda>rp.
       let policy = (case rp of Inl _ \<Rightarrow> zero_network_policy | Inr p \<Rightarrow> p);
           wantsBGP = (equal_fold (np_NetworkTopology policy) ''L3'' \<or> np_VIPRouteMode policy = VipRouteModeBGP \<or>
                       vc_VIPRouteMode cfg = VipRouteModeBGP)
       in if wantsBGP then
            on_ok (with_template cid cfg) (\<lambda>cfg.
              if no_bgp_neighbour cfg
              then ret (cfg, Some (Error ''the cluster is a layer 3 network without a reusable BGP neighbour policy; complete the network policy first''))
              else ret (cfg\<lparr>vc_VIPRouteMode := VipRouteModeBGP, vc_BGPEnabled := True, vc_ArpingEnabled := False\<rparr>, None))
          else ret (cfg\<lparr>vc_VIPRouteMode := VipRouteModeL2ARP, vc_ArpingEnabled := True, vc_BGPEnabled := False\<rparr>, None))"

definition route_mode_checked :: "vip_config \<Rightarrow> vip_config result" where
  "route_mode_checked cfg =
     (if vc_VIPRouteMode cfg = VipRouteModeL2ARP then Inr (cfg\<lparr>vc_ArpingEnabled := True\<rparr>)
      else if vc_VIPRouteMode cfg = VipRouteModeBGP then
        (let cfg = cfg\<lparr>vc_BGPEnabled := True\<rparr>
         in if vc_BGPLocalAS cfg \<le> 0 \<or> vc_BGPPeerAS cfg \<le> 0 \<or> \<not> is_ipv4 (vc_BGPPeerAddress cfg)
            then Inl (Error ''BGP mode requires local AS, peer AS and peer address'')
            else if vc_BGPRouterID cfg \<noteq> [] \<and> \<not> is_ipv4 (vc_BGPRouterID cfg)
            then Inl (Error ''BGP router ID must be an IPv4 address'')
            else if vc_BGPCommunity cfg \<noteq> [] \<and> \<not> community_ok (vc_BGPCommunity cfg)
            then Inl (Error ''BGP community must use ASN:value format'')
            else Inr cfg)
      else Inl (Errorf ''unsupported VIP route mode %s'' [vc_VIPRouteMode cfg]))"

text \<open>What \<open>SaveVIPConfig\<close> does once the mode is resolved.\<close>

definition completed_config :: "vip_config \<Rightarrow> vip_config" where
  "completed_config cfg =
     (if vc_ArpingCount cfg \<le> 0 then cfg\<lparr>vc_ArpingCount := 3\<rparr> else cfg)
       \<lparr>vc_Enabled := True, vc_CheckAfterBind := True, vc_ExternalCheckEnabled := True\<rparr>"

definition save_resolved :: "vip_config \<Rightarrow> vip_config act" where
  "save_resolved cfg0 =
     (case route_mode_checked cfg0 of
        Inl e \<Rightarrow> fail_with e
      | Inr cfg \<Rightarrow>
          if vc_DefaultInterface cfg \<noteq> [] \<and> \<not> iface_name_ok (vc_DefaultInterface cfg)
          then fail_with (Error ''invalid VIP network interface'')
          else UpsertVIPConfig (completed_config cfg))"

definition SaveVIPConfig :: "string \<Rightarrow> vip_config \<Rightarrow> vip_config act" where
  "SaveVIPConfig clusterID cfg0 =
     (let cfg = cfg0\<lparr>vc_ClusterID := trim_space clusterID, vc_VIPAddress := trim_space (vc_VIPAddress cfg0)\<rparr>
      in case ParseIP (vc_VIPAddress cfg) of
           None \<Rightarrow> fail_with (Error ''valid cluster and VIP address are required'')
         | Some parsedVIP \<Rightarrow>
             if vc_ClusterID cfg = [] then fail_with (Error ''valid cluster and VIP address are required'')
             else if To4 parsedVIP = None
             then fail_with (Error ''current automatic ARP and BGP VIP drivers require an IPv4 address'')
             else if vc_VIPPrefix cfg \<le> 0 \<or> vc_VIPPrefix cfg > 32
             then fail_with (Error ''IPv4 VIP prefix must be between 1 and 32'')
             else on_ok (resolveAutomaticVIPMode (vc_ClusterID cfg) cfg) (\<lambda>(cfg, err).
               case err of Some e \<Rightarrow> fail_with e | None \<Rightarrow> save_resolved cfg))"

definition HA_ListVIPConfigs :: "string \<Rightarrow> vip_config list act" where
  "HA_ListVIPConfigs clusterID = ListVIPConfigs (trim_space clusterID)"

definition ApplyVIPConfig ::
  "agent option \<Rightarrow> string \<Rightarrow> string \<Rightarrow> string \<Rightarrow> vip_config \<Rightarrow> vip_binding multi act" where
  "ApplyVIPConfig tasks newid clusterID targetMachineID cfg =
     or_return (SaveVIPConfig clusterID cfg) no_binding (\<lambda>saved.
       Bind tasks newid (trim_space clusterID) (trim_space targetMachineID) saved)"

definition DeleteVIPConfig :: "string \<Rightarrow> string \<Rightarrow> unit act" where
  "DeleteVIPConfig clusterID vip = DeleteVIPConfig_repo (trim_space clusterID) (trim_space vip)"

definition RemoveVIPConfig :: "agent option \<Rightarrow> string \<Rightarrow> string \<Rightarrow> string \<Rightarrow> unit act" where
  "RemoveVIPConfig tasks newid clusterID vip =
     on_ok (Remove tasks newid (trim_space clusterID) (trim_space vip)) (\<lambda>(_, err).
       case err of Some e \<Rightarrow> fail_with e | None \<Rightarrow> DeleteVIPConfig clusterID vip)"

subsection \<open>Every saved configuration is usable\<close>

definition config_usable :: "vip_config \<Rightarrow> bool" where
  "config_usable c \<longleftrightarrow>
     is_ipv4 (vc_VIPAddress c) \<and> 1 \<le> vc_VIPPrefix c \<and> vc_VIPPrefix c \<le> 32 \<and> vc_ArpingCount c > 0 \<and>
     (vc_DefaultInterface c = [] \<or> iface_name_ok (vc_DefaultInterface c)) \<and>
     (vc_VIPRouteMode c = VipRouteModeL2ARP \<or>
      vc_VIPRouteMode c = VipRouteModeBGP \<and> vc_BGPEnabled c \<and> vc_BGPLocalAS c > 0 \<and> vc_BGPPeerAS c > 0 \<and>
        is_ipv4 (vc_BGPPeerAddress c) \<and> (vc_BGPRouterID c = [] \<or> is_ipv4 (vc_BGPRouterID c)) \<and>
        (vc_BGPCommunity c = [] \<or> community_ok (vc_BGPCommunity c)))"

definition configs_usable :: "world \<Rightarrow> bool" where
  "configs_usable w \<longleftrightarrow> (\<forall>c \<in> set (w_configs w). config_usable c)"

lemma reuse_template_keeps [simp]:
  "vc_VIPAddress (reuse_template ts c) = vc_VIPAddress c" "vc_VIPPrefix (reuse_template ts c) = vc_VIPPrefix c"
  "vc_DefaultInterface (reuse_template ts c) = vc_DefaultInterface c"
  "vc_ClusterID (reuse_template ts c) = vc_ClusterID c"
  by (simp_all add: reuse_template_def split: option.splits)

lemma preserves_policies:
  assumes "db_stable I" "\<And>w p n. I w \<Longrightarrow> I (w\<lparr>w_policies := p, w_networks := n\<rparr>)"
  shows "preserves I (GetNetworkPolicy cid)" "preserves I (GetFailoverPolicy cid)"
  unfolding GetNetworkPolicy_def GetFailoverPolicy_def EnsureDefaultPolicies_def Let_def one_row_def
  using assms by (intro op_rules preserves_statement; simp)+

lemma preserves_with_template: "db_stable I \<Longrightarrow> preserves I (with_template cid cfg)"
  unfolding with_template_def ListVIPConfigs_def by (intro op_rules) simp_all

lemma preserves_resolve:
  "db_stable I \<Longrightarrow> (\<And>w p n. I w \<Longrightarrow> I (w\<lparr>w_policies := p, w_networks := n\<rparr>)) \<Longrightarrow> preserves I (resolveAutomaticVIPMode cid cfg)"
  unfolding resolveAutomaticVIPMode_def Let_def
  by (intro op_rules preserves_policies preserves_with_template) simp_all

lemma resolve_keeps:
  assumes "resolveAutomaticVIPMode cid cfg w = (Inr (cfg', e), w')"
  shows "vc_VIPAddress cfg' = vc_VIPAddress cfg \<and> vc_VIPPrefix cfg' = vc_VIPPrefix cfg \<and>
         vc_DefaultInterface cfg' = vc_DefaultInterface cfg \<and> vc_ClusterID cfg' = vc_ClusterID cfg"
proof -
  have tmpl: "vc_VIPAddress c = vc_VIPAddress cfg \<and> vc_VIPPrefix c = vc_VIPPrefix cfg \<and>
      vc_DefaultInterface c = vc_DefaultInterface cfg \<and> vc_ClusterID c = vc_ClusterID cfg"
    if "with_template cid cfg v = (Inr c, v')" for v v' c
    using that by (auto simp: with_template_def with_result_def split: if_splits prod.splits sum.splits)
  from assms show ?thesis
    unfolding resolveAutomaticVIPMode_def with_result_def Let_def
    by (auto split: prod.splits if_splits dest!: on_ok_InrD tmpl)
qed

lemma route_mode_checked_cases:
  assumes "route_mode_checked cfg = Inr cfg'"
  obtains (arp) "vc_VIPRouteMode cfg = VipRouteModeL2ARP" "cfg' = cfg\<lparr>vc_ArpingEnabled := True\<rparr>"
    | (bgp) "vc_VIPRouteMode cfg = VipRouteModeBGP" "cfg' = cfg\<lparr>vc_BGPEnabled := True\<rparr>"
        "0 < vc_BGPLocalAS cfg" "0 < vc_BGPPeerAS cfg" "is_ipv4 (vc_BGPPeerAddress cfg)"
        "vc_BGPRouterID cfg = [] \<or> is_ipv4 (vc_BGPRouterID cfg)"
        "vc_BGPCommunity cfg = [] \<or> community_ok (vc_BGPCommunity cfg)"
proof (cases "vc_VIPRouteMode cfg = VipRouteModeL2ARP")
  case True
  with assms arp show ?thesis by (simp add: route_mode_checked_def)
next
  case False
  with assms bgp show ?thesis
    unfolding route_mode_checked_def Let_def by (simp split: if_splits)
qed

lemma completed_config_fields [simp]:
  "vc_VIPAddress (completed_config c) = vc_VIPAddress c" "vc_VIPPrefix (completed_config c) = vc_VIPPrefix c"
  "vc_DefaultInterface (completed_config c) = vc_DefaultInterface c"
  "vc_VIPRouteMode (completed_config c) = vc_VIPRouteMode c" "vc_BGPEnabled (completed_config c) = vc_BGPEnabled c"
  "vc_BGPLocalAS (completed_config c) = vc_BGPLocalAS c" "vc_BGPPeerAS (completed_config c) = vc_BGPPeerAS c"
  "vc_BGPPeerAddress (completed_config c) = vc_BGPPeerAddress c" "vc_BGPRouterID (completed_config c) = vc_BGPRouterID c"
  "vc_BGPCommunity (completed_config c) = vc_BGPCommunity c" "0 < vc_ArpingCount (completed_config c)"
  by (simp_all add: completed_config_def)

lemma route_mode_checked_usable:
  assumes "route_mode_checked cfg = Inr cfg'" "is_ipv4 (vc_VIPAddress cfg)" "1 \<le> vc_VIPPrefix cfg" "vc_VIPPrefix cfg \<le> 32"
    and "vc_DefaultInterface cfg' = [] \<or> iface_name_ok (vc_DefaultInterface cfg')"
  shows "config_usable (completed_config cfg')"
  using assms(1)
proof (cases rule: route_mode_checked_cases)
  case arp
  with assms(2-5) show ?thesis unfolding config_usable_def by auto
next
  case bgp
  then have "vc_VIPAddress cfg' = vc_VIPAddress cfg" "vc_VIPPrefix cfg' = vc_VIPPrefix cfg"
    "vc_VIPRouteMode cfg' = VipRouteModeBGP" "vc_BGPEnabled cfg'" "0 < vc_BGPLocalAS cfg'" "0 < vc_BGPPeerAS cfg'"
    "is_ipv4 (vc_BGPPeerAddress cfg')" "vc_BGPRouterID cfg' = [] \<or> is_ipv4 (vc_BGPRouterID cfg')"
    "vc_BGPCommunity cfg' = [] \<or> community_ok (vc_BGPCommunity cfg')" by simp_all
  with assms(2-5) show ?thesis unfolding config_usable_def completed_config_fields by simp
qed

lemma defaults_usable: "config_usable c \<Longrightarrow> config_usable (vip_config_defaults c)"
  by (simp add: config_usable_def vip_config_defaults_def Let_def)

lemma row_usable [simp]:
  "config_usable (c\<lparr>vc_ID := i, vc_CreatedAt := s, vc_UpdatedAt := t\<rparr>) = config_usable c"
  by (simp add: config_usable_def)

lemma upsert_usable:
  assumes "config_usable c" "configs_usable w"
  shows "configs_usable (upsert_config_row c w)"
proof (cases "\<exists>d \<in> set (w_configs w). same_config_key d c")
  case True
  with assms show ?thesis unfolding configs_usable_def upsert_config_row_def
    by (simp only: if_True simp_thms) (auto simp del: image_eqI)
next
  case False
  then have "w_configs (upsert_config_row c w) =
      w_configs w @ [c\<lparr>vc_ID := w_next_id w, vc_CreatedAt := w_clock w, vc_UpdatedAt := w_clock w\<rparr>]"
    unfolding upsert_config_row_def by (subst if_not_P) simp_all
  with assms show ?thesis by (simp add: configs_usable_def)
qed

lemma db_stable_usable: "db_stable configs_usable"
  by (rule db_stableI) (simp add: configs_usable_def)

lemma ListVIPConfigs_valid:
  "valid configs_usable (ListVIPConfigs cid) (\<lambda>r w. configs_usable w \<and> (\<forall>cs. r = Inr cs \<longrightarrow> list_all config_usable cs))"
  unfolding ListVIPConfigs_def query_def
  by (rule valid_on_ok [OF preserves_db_call [OF db_stable_usable]])
     (auto simp: valid_def configs_usable_def list_all_iff)

lemma UpsertVIPConfig_valid:
  assumes "config_usable c"
  shows "valid configs_usable (UpsertVIPConfig c) (\<lambda>r w. configs_usable w \<and> (\<forall>d. r = Inr d \<longrightarrow> config_usable d))"
proof -
  have up: "preserves configs_usable (statement (upsert_config_row (vip_config_defaults c)))"
    using defaults_usable [OF assms] by (intro preserves_statement db_stable_usable upsert_usable)
  show ?thesis
    unfolding UpsertVIPConfig_def Let_def
    by (intro valid_on_ok [OF up] valid_on_ok [OF ListVIPConfigs_valid])
       (auto simp: valid_def list_all_iff find_Some_iff split: option.splits)
qed

lemma save_resolved_valid:
  assumes "is_ipv4 (vc_VIPAddress cfg)" "1 \<le> vc_VIPPrefix cfg" "vc_VIPPrefix cfg \<le> 32"
  shows "valid configs_usable (save_resolved cfg) (\<lambda>r w. configs_usable w \<and> (\<forall>d. r = Inr d \<longrightarrow> config_usable d))"
proof (cases "route_mode_checked cfg")
  case (Inl e)
  then show ?thesis by (simp add: save_resolved_def valid_def)
next
  case (Inr cfg')
  show ?thesis
  proof (cases "vc_DefaultInterface cfg' \<noteq> [] \<and> \<not> iface_name_ok (vc_DefaultInterface cfg')")
    case True
    with Inr show ?thesis by (simp add: save_resolved_def valid_def)
  next
    case False
    with Inr have "save_resolved cfg = UpsertVIPConfig (completed_config cfg')"
      by (auto simp: save_resolved_def)
    moreover have "config_usable (completed_config cfg')"
      using route_mode_checked_usable [OF Inr assms] False by blast
    ultimately show ?thesis using UpsertVIPConfig_valid by simp
  qed
qed

text \<open>A request is refused at once, or it has a usable address and prefix and the machine and mode are resolved.\<close>

lemma SaveVIPConfig_shape:
  fixes cid cfg
  defines "c \<equiv> cfg\<lparr>vc_ClusterID := trim_space cid, vc_VIPAddress := trim_space (vc_VIPAddress cfg)\<rparr>"
  obtains (refused) e where "SaveVIPConfig cid cfg = fail_with e"
    | (resolved) "is_ipv4 (vc_VIPAddress c)" "1 \<le> vc_VIPPrefix c" "vc_VIPPrefix c \<le> 32"
        "SaveVIPConfig cid cfg = on_ok (resolveAutomaticVIPMode (trim_space cid) c) (\<lambda>(cfg, err).
               case err of Some e \<Rightarrow> fail_with e | None \<Rightarrow> save_resolved cfg)"
proof (cases "\<exists>a. ParseIP (vc_VIPAddress c) = Some a \<and> vc_ClusterID c \<noteq> [] \<and> To4 a \<noteq> None \<and>
                1 \<le> vc_VIPPrefix c \<and> vc_VIPPrefix c \<le> 32")
  case True
  then show ?thesis by (intro resolved) (auto simp: SaveVIPConfig_def Let_def is_ipv4_def c_def)
next
  case False
  have "\<exists>e. SaveVIPConfig cid cfg = fail_with e"
  proof (cases "ParseIP (vc_VIPAddress c)")
    case None
    then show ?thesis by (auto simp: SaveVIPConfig_def Let_def c_def)
  next
    case (Some a)
    with False have "vc_ClusterID c = [] \<or> To4 a = None \<or> vc_VIPPrefix c \<le> 0 \<or> vc_VIPPrefix c > 32"
      by fastforce
    with Some show ?thesis unfolding SaveVIPConfig_def Let_def c_def by auto
  qed
  then show ?thesis using refused by blast
qed

text \<open>C24: Whatever configuration is saved, whatever the policy and the earlier configurations are and
  whichever statement fails: the stored VIP configurations stay usable, i.e. each has an IPv4 address,
  a prefix of 1 to 32, a positive announcement count, a plain interface name, and either the layer 2
  mode or the BGP mode with a complete neighbour; and a configuration returned as saved is usable.\<close>

theorem SaveVIPConfig_usable:
  assumes "configs_usable w" and "SaveVIPConfig cid cfg w = (r, w')"
  shows "configs_usable w' \<and> (\<forall>saved. r = Inr saved \<longrightarrow> config_usable saved)"
proof -
  let ?c = "cfg\<lparr>vc_ClusterID := trim_space cid, vc_VIPAddress := trim_space (vc_VIPAddress cfg)\<rparr>"
  have keep: "preserves configs_usable (resolveAutomaticVIPMode (trim_space cid) ?c)"
    by (intro preserves_resolve db_stable_usable) (simp add: configs_usable_def)
  show ?thesis
  proof (cases rule: SaveVIPConfig_shape [of cid cfg])
    case (refused e)
    with assms have "r = Inl e" "w' = w" by auto
    with assms(1) show ?thesis by simp
  next
    case resolved
    from assms(2) show ?thesis unfolding resolved(4)
    proof (cases rule: on_ok_cases)
      case err
      with validD [OF keep assms(1)] show ?thesis by simp
    next
      case (ok x v)
      obtain c' err where x: "x = (c', err)" by fastforce
      have v: "configs_usable v" using validD [OF keep assms(1) ok(1)] .
      show ?thesis
      proof (cases err)
        case None
        have "is_ipv4 (vc_VIPAddress c')" "1 \<le> vc_VIPPrefix c'" "vc_VIPPrefix c' \<le> 32"
          using resolve_keeps [OF ok(1) [unfolded x]] resolved(1-3) by simp_all
        then show ?thesis
          using validD [OF save_resolved_valid v] ok(2) None x by simp
      next
        case (Some e)
        with ok(2) x have "r = Inl e" "w' = v" by auto
        with v show ?thesis by simp
      qed
    qed
  qed
qed

lemma configs_usable_empty: "configs_usable (empty_world t)"
  by (simp add: configs_usable_def empty_world_def)

definition sample_config :: vip_config where
  "sample_config = no_config\<lparr>vc_VIPAddress := show_ipv4 [10, 0, 0, 9], vc_VIPPrefix := 24\<rparr>"

theorem SaveVIPConfig_usable_witness:
  "configs_usable (snd (SaveVIPConfig ''c1'' sample_config (empty_world 0)))"
  using SaveVIPConfig_usable [of "empty_world 0" "''c1''" sample_config]
  by (metis configs_usable_empty prod.collapse)

end
