(* ===== verification/VIP_Scan_Log.thy ===== *)
theory VIP_Scan_Log
  imports VIP_Config
begin

text \<open>
  What a scan leaves in the agent log. The commands that change a machine are the tasks of the log
  other than the scans and the tracking tasks; a scan adds none of them, and a scan that ends without an
  error has probed every machine of the cluster for every VIP it reports, its verdict being what the
  replies say. \<open>logged w v new\<close> says that the calls \<open>new\<close> are what the log gained between two states with the same
  machines and VIP configurations, so that the log of a run is read off its parts.
\<close>

subsection \<open>Scans change nothing on the machines\<close>

definition is_change :: "agent_call \<times> agent_reply \<Rightarrow> bool" where
  "is_change e = (case fst e of ExecTask _ _ _ op _ _ _ \<Rightarrow> op \<noteq> ''vip_scan'' | _ \<Rightarrow> False)"

definition quiet :: "agent_log \<Rightarrow> bool" where
  "quiet obs \<longleftrightarrow> list_all (\<lambda>e. \<not> is_change e) obs"

lemma quiet_simps [simp]: "quiet []" "quiet (e # obs) \<longleftrightarrow> \<not> is_change e \<and> quiet obs"
  "quiet (obs @ obs') \<longleftrightarrow> quiet obs \<and> quiet obs'"
  by (simp_all add: quiet_def)

definition scan_call :: "agent_call \<Rightarrow> bool" where
  "scan_call c = (case c of ExecTask _ _ _ op _ _ _ \<Rightarrow> op = ''vip_scan'' | _ \<Rightarrow> True)"

text \<open>An invariant that survives faults, scan calls, binding rows and log rows survives a scan.\<close>

definition scan_stable :: "(world \<Rightarrow> bool) \<Rightarrow> bool" where
  "scan_stable I \<longleftrightarrow> db_stable I \<and> (\<forall>ag c. scan_call c \<longrightarrow> preserves I (send ag c)) \<and>
     (\<forall>st w. I w \<longrightarrow> I (upsert_binding_row st w)) \<and> (\<forall>row w. I w \<longrightarrow> I (w\<lparr>w_oplog := w_oplog w @ [row]\<rparr>))"

lemma preserves_in_world [op_rules]:
  "preserves I m \<Longrightarrow> preserves (\<lambda>s. I (fst s)) (in_world m)"
  unfolding valid_def in_world_def by (auto split: prod.splits)

lemma preserves_counters [op_rules]:
  "preserves (\<lambda>s. I (fst s)) count_created" "preserves (\<lambda>s. I (fst s)) count_failed"
  unfolding count_created_def count_failed_def by (intro op_rules; auto)+

lemma preserves_scan_machine:
  assumes "scan_stable I"
  shows "preserves (\<lambda>s. I (fst s)) (scan_machine ag parent vip m hs)"
proof -
  have "preserves I (send ag (ExecTask ip cmd p ''vip_scan'' d s t))" for ip cmd p d s t
    using assms by (simp add: scan_stable_def scan_call_def)
  then show ?thesis unfolding scan_machine_def Let_def by (intro op_rules) simp_all
qed

lemma preserves_upsert_binding: "scan_stable I \<Longrightarrow> preserves I (UpsertVIPBindingState st)"
  unfolding UpsertVIPBindingState_def scan_stable_def by (intro preserves_statement) simp_all

lemma preserves_oplog: "scan_stable I \<Longrightarrow> preserves I (InsertVIPOperationLog row)"
  unfolding InsertVIPOperationLog_def scan_stable_def by (intro preserves_statement) simp_all

lemma preserves_scan_config:
  assumes "scan_stable I"
  shows "preserves (\<lambda>s. I (fst s)) (scan_config ag cid ms prev parent cfg out)"
  unfolding scan_config_def Let_def
  by (intro op_rules preserves_scan_machine [OF assms] preserves_upsert_binding [OF assms] preserves_oplog [OF assms]) simp_all

lemma preserves_with_counts:
  assumes "scan_stable I" "preserves (\<lambda>s. I (fst s)) m"
  shows "preserves I (with_counts ag parent m)"
proof (rule validI)
  fix w r w' assume I: "I w" and run: "with_counts ag parent m w = (r, w')"
  obtain r0 v a b where m: "m (w, (0, 0)) = (r0, (v, (a, b)))" by (metis prod.collapse)
  then have "I v" using validD [OF assms(2) _ m] I by simp
  moreover have "preserves I (send ag (FinalizeTracking parent a b))"
    using assms(1) by (simp add: scan_stable_def scan_call_def)
  moreover have "w' = snd (send ag (FinalizeTracking parent a b) v)"
    using run m by (simp add: with_counts_def)
  ultimately show "I w'" by (metis prod.collapse validD)
qed

lemma preserves_Scan:
  assumes "scan_stable I"
  shows "preserves I (Scan tasks cid)"
proof -
  have ff: "db_stable I" and track: "\<And>ag t d c. preserves I (send ag (TrackingTask t d c))"
    using assms by (simp_all add: scan_stable_def scan_call_def)
  have body: "preserves (\<lambda>s. I (fst s)) (scan_body ag cid configs machines par)" for ag configs machines par
    unfolding scan_body_def GetVIPBindingStates_def Let_def
    by (intro op_rules preserves_scan_config [OF assms] ff)
  show ?thesis
    unfolding Scan_def ListVIPConfigs_def machines_List_def
    by (intro op_rules track preserves_with_counts [OF assms body] ff)
qed

lemma upsert_binding_frame [simp]:
  "w_agent_log (upsert_binding_row st w) = w_agent_log w" "w_locks (upsert_binding_row st w) = w_locks w"
  "w_configs (upsert_binding_row st w) = w_configs w" "w_machines (upsert_binding_row st w) = w_machines w"
  "w_faults (upsert_binding_row st w) = w_faults w" "w_clock (upsert_binding_row st w) = w_clock w"
  "w_events (upsert_binding_row st w) = w_events w"
  by (simp_all add: upsert_binding_row_def Let_def)

lemma scan_stable_tables: "scan_stable (\<lambda>w. P (w_locks w) (w_configs w) (w_machines w) (w_events w))"
  by (auto intro!: db_stableI simp: scan_stable_def valid_def send_def Let_def)

subsection \<open>The log of a scan\<close>

definition logged :: "world \<Rightarrow> world \<Rightarrow> agent_log \<Rightarrow> bool" where
  "logged w v new \<longleftrightarrow> w_agent_log v = w_agent_log w @ new \<and> w_machines v = w_machines w \<and> w_configs v = w_configs w"

lemma logged_refl [simp]: "logged w w []"
  by (simp add: logged_def)

lemma logged_trans: "logged w v xs \<Longrightarrow> logged v u ys \<Longrightarrow> logged w u (xs @ ys)"
  by (simp add: logged_def)

lemma logged_frame [simp]:
  "logged w (v\<lparr>w_faults := fs\<rparr>) xs \<longleftrightarrow> logged w v xs" "logged w (v\<lparr>w_locks := tab\<rparr>) xs \<longleftrightarrow> logged w v xs"
  "logged w (v\<lparr>w_oplog := rows\<rparr>) xs \<longleftrightarrow> logged w v xs" "logged w (upsert_binding_row st v) xs \<longleftrightarrow> logged w v xs"
  "logged (w\<lparr>w_faults := fs\<rparr>) v xs \<longleftrightarrow> logged w v xs" "logged (w\<lparr>w_locks := tab\<rparr>) v xs \<longleftrightarrow> logged w v xs"
  by (simp_all add: logged_def)

lemma logged_send: "send ag c w = (r, v) \<Longrightarrow> \<exists>rep. r = Inr rep \<and> logged w v [(c, rep)]"
  by (auto simp: send_def Let_def logged_def)

lemma logged_query: "query f w = (r, v) \<Longrightarrow> logged w v []"
  by (erule query_cases) simp_all

lemma logged_upsert: "UpsertVIPBindingState st w = (r, v) \<Longrightarrow> logged w v []"
  unfolding UpsertVIPBindingState_def by (erule statement_cases) simp_all

lemma logged_oplog: "InsertVIPOperationLog row w = (r, v) \<Longrightarrow> logged w v []"
  unfolding InsertVIPOperationLog_def by (erule statement_cases) simp_all

text \<open>The machines of a cluster in the order of the repository and the VIPs a scan of the cluster covers.\<close>

definition vip_members :: "string \<Rightarrow> world \<Rightarrow> machine list" where
  "vip_members cid w = filter (\<lambda>m. mach_Cluster m = cid) (stable_sort (\<lambda>a b. mach_CreatedAt a > mach_CreatedAt b) (w_machines w))"

definition vip_listed :: "string \<Rightarrow> world \<Rightarrow> vip_config list" where
  "vip_listed cid w = stable_sort (\<lambda>a b. vc_ID a < vc_ID b)
     (filter (\<lambda>c. vc_ClusterID c = trim_space cid \<and> vc_Enabled c) (w_configs w))"

lemma vip_tables_logged: "logged w v xs \<Longrightarrow> vip_members cid v = vip_members cid w \<and> vip_listed cid v = vip_listed cid w"
  by (simp add: logged_def vip_members_def vip_listed_def)

definition scan_probe :: "string \<Rightarrow> string \<Rightarrow> machine \<Rightarrow> agent_call" where
  "scan_probe parent vip m = ExecTask (mach_IP m) (vipScanCommand vip) parent ''vip_scan''
     (''detect VIP '' @ vip) ''check the addresses of the machine'' (30 * second)"

definition found_iface :: "agent_reply \<Rightarrow> string" where
  "found_iface rep = (case rp_Wait rep of Inr d \<Rightarrow> vipScanInterface (td_Steps d) | Inl _ \<Rightarrow> [])"

fun finders :: "machine list \<Rightarrow> agent_reply list \<Rightarrow> string list" where
  "finders (m # ms) (rep # reps) = (if found_iface rep \<noteq> [] then [mach_ID m] else []) @ finders ms reps"
| "finders _ _ = []"

text \<open>The calls \<open>obs\<close> change no machine and hold, one after the other, a successful probe of each of the
  machines for the VIP; \<open>holders\<close> are the machines whose reply named an interface.\<close>

definition looked :: "string \<Rightarrow> machine list \<Rightarrow> agent_log \<Rightarrow> string list \<Rightarrow> bool" where
  "looked vip ms obs holders \<longleftrightarrow> quiet obs \<and>
     (\<exists>before after parent reps. obs = before @ zip (map (scan_probe parent vip) ms) reps @ after \<and>
        length reps = length ms \<and> list_all exec_success reps \<and> holders = finders ms reps)"

lemma looked_quiet: "looked vip ms obs holders \<Longrightarrow> quiet obs"
  by (simp add: looked_def)

lemma looked_within: "looked vip ms obs holders \<Longrightarrow> quiet xs \<Longrightarrow> quiet ys \<Longrightarrow> looked vip ms (xs @ obs @ ys) holders"
  unfolding looked_def by (metis append.assoc quiet_simps(3))

definition seen_as :: "string \<Rightarrow> machine list \<Rightarrow> agent_log \<Rightarrow> vip_config \<Rightarrow> vip_binding \<Rightarrow> bool" where
  "seen_as cid ms obs cfg st \<longleftrightarrow> (\<exists>parent expected now hs. st = scan_result cid cfg parent expected now hs \<and>
     looked (vc_VIPAddress cfg) ms obs (map fst hs))"

lemma seen_as_within: "seen_as cid ms obs cfg st \<Longrightarrow> quiet xs \<Longrightarrow> quiet ys \<Longrightarrow> seen_as cid ms (xs @ obs @ ys) cfg st"
  unfolding seen_as_def using looked_within by blast

lemma scan_machine_log:
  assumes "scan_machine ag parent vip m hs (w, c) = (r, (v, c'))"
  shows "\<exists>rep. logged w v [(scan_probe parent vip m, rep)] \<and>
    (\<forall>hs'. r = Inr hs' \<longrightarrow> exec_success rep \<and> map fst hs' = map fst hs @ finders [m] [rep])"
proof -
  let ?rep = "ag (w_agent_log w) (scan_probe parent vip m)"
  obtain rep u where sd: "send ag (scan_probe parent vip m) w = (Inr rep, u)" and u: "logged w u [(scan_probe parent vip m, rep)]"
    using logged_send by (metis prod.collapse)
  from assms sd u show ?thesis
    unfolding scan_machine_def scan_probe_def [symmetric]
    by (cases "rp_Create rep"; cases "rp_Wait rep"; cases c)
       (auto simp: on_ok_def in_world_def count_failed_def count_created_def Let_def exec_success_def found_iface_def
             split: if_splits)
qed

lemma probe_quiet [simp]: "quiet (zip (map (scan_probe parent vip) ms) reps)"
  by (auto simp: quiet_def list_all_iff is_change_def scan_probe_def dest!: set_zip_leftD)

lemma scan_machines_log:
  "fold_ok (scan_machine ag parent vip) ms hs (w, c) = (r, (v, c')) \<Longrightarrow>
   \<exists>reps. logged w v (zip (map (scan_probe parent vip) ms) reps) \<and>
     (\<forall>hs'. r = Inr hs' \<longrightarrow> length reps = length ms \<and> list_all exec_success reps \<and> map fst hs' = map fst hs @ finders ms reps)"
proof (induction ms arbitrary: hs w c)
  case Nil
  then show ?case by (intro exI [of _ "[]"]) auto
next
  case (Cons m ms)
  obtain r1 u d where one: "scan_machine ag parent vip m hs (w, c) = (r1, (u, d))" by (metis prod.collapse)
  from scan_machine_log [OF one] obtain rep where rep: "logged w u [(scan_probe parent vip m, rep)]"
    "\<And>hs'. r1 = Inr hs' \<Longrightarrow> exec_success rep \<and> map fst hs' = map fst hs @ finders [m] [rep]" by blast
  show ?case
  proof (cases r1)
    case (Inl e)
    with Cons.prems one rep(1) show ?thesis by (intro exI [of _ "[rep]"]) (auto simp: on_ok_def)
  next
    case (Inr hs1)
    with Cons.prems one have "fold_ok (scan_machine ag parent vip) ms hs1 (u, d) = (r, (v, c'))" by (simp add: on_ok_def)
    from Cons.IH [OF this] obtain reps where reps: "logged u v (zip (map (scan_probe parent vip) ms) reps)"
      "\<forall>hs'. r = Inr hs' \<longrightarrow> length reps = length ms \<and> list_all exec_success reps \<and> map fst hs' = map fst hs1 @ finders ms reps" by blast
    from logged_trans [OF rep(1) reps(1)] reps(2) rep(2) [OF Inr] show ?thesis by (intro exI [of _ "rep # reps"]) auto
  qed
qed

lemma scan_config_log:
  assumes "scan_config ag cid machines prev parent cfg out (w, c) = (r, (v, c'))"
  shows "\<exists>obs. logged w v obs \<and> quiet obs \<and> (\<forall>out'. r = Inr out' \<longrightarrow>
    (\<exists>st. out' = out @ [st] \<and> seen_as cid (filter (\<lambda>m. mach_Cluster m = cid) machines) obs cfg st))"
proof -
  let ?ms = "filter (\<lambda>m. mach_Cluster m = cid) machines" and ?vip = "vc_VIPAddress cfg"
  obtain rh u d where loop: "fold_ok (scan_machine ag parent ?vip) ?ms [] (w, c) = (rh, (u, d))" by (metis prod.collapse)
  from scan_machines_log [OF loop] obtain reps where obs: "logged w u (zip (map (scan_probe parent ?vip) ?ms) reps)"
    and full: "\<And>hs. rh = Inr hs \<Longrightarrow> length reps = length ?ms \<and> list_all exec_success reps \<and> map fst hs = finders ?ms reps"
    by auto
  let ?obs = "zip (map (scan_probe parent ?vip) ?ms) reps"
  show ?thesis
  proof (cases rh)
    case (Inl e)
    with assms loop obs show ?thesis by (auto simp: scan_config_def on_ok_def intro!: exI [of _ ?obs])
  next
    case (Inr hs)
    define st where "st = scan_result cid cfg parent (expected_holder prev ?vip) (w_clock u) hs"
    obtain ru x where up: "UpsertVIPBindingState st u = (ru, x)" by fastforce
    obtain rl y where lg: "InsertVIPOperationLog (check_log cid ?vip) x = (rl, y)" by fastforce
    have xy: "logged w x ?obs" "logged w y ?obs"
      using logged_trans [OF obs logged_upsert [OF up]] logged_trans [OF logged_trans [OF obs logged_upsert [OF up]] logged_oplog [OF lg]] by simp_all
    have "looked ?vip ?ms ?obs (map fst hs)"
      unfolding looked_def using full [OF Inr]
      by (intro conjI exI [of _ "[]"] exI [of _ parent] exI [of _ reps]) simp_all
    then have st: "seen_as cid ?ms ?obs cfg st" unfolding seen_as_def st_def by blast
    have "r = (case ru of Inl e \<Rightarrow> Inl e | Inr _ \<Rightarrow> Inr (out @ [st])) \<and> v = (case ru of Inl _ \<Rightarrow> x | Inr _ \<Rightarrow> y)"
      using assms loop Inr up lg
      by (cases ru) (auto simp: scan_config_def on_ok_def in_world_def with_result_def Let_def st_def [symmetric] split: sum.splits)
    with xy st show ?thesis by (intro exI [of _ ?obs]) (cases ru; simp)
  qed
qed

lemma scan_configs_log:
  "fold_ok (scan_config ag cid machines prev parent) cfgs out (w, c) = (r, (v, c')) \<Longrightarrow>
   \<exists>obs. logged w v obs \<and> quiet obs \<and> (\<forall>out'. r = Inr out' \<longrightarrow>
    (\<exists>sts. out' = out @ sts \<and> list_all2 (seen_as cid (filter (\<lambda>m. mach_Cluster m = cid) machines) obs) cfgs sts))"
proof (induction cfgs arbitrary: out w c)
  case Nil
  then show ?case by (intro exI [of _ "[]"]) auto
next
  case (Cons cfg cfgs)
  let ?seen = "seen_as cid (filter (\<lambda>m. mach_Cluster m = cid) machines)"
  obtain r1 u d where one: "scan_config ag cid machines prev parent cfg out (w, c) = (r1, (u, d))" by (metis prod.collapse)
  from scan_config_log [OF one] obtain obs where obs: "logged w u obs" "quiet obs"
    "\<And>out'. r1 = Inr out' \<Longrightarrow> \<exists>st. out' = out @ [st] \<and> ?seen obs cfg st" by blast
  show ?case
  proof (cases r1)
    case (Inl e)
    with Cons.prems one obs(1,2) show ?thesis by (intro exI [of _ obs]) (auto simp: on_ok_def)
  next
    case (Inr out1)
    with obs(3) obtain st where st: "out1 = out @ [st]" "?seen obs cfg st" by blast
    from Cons.prems one Inr have "fold_ok (scan_config ag cid machines prev parent) cfgs out1 (u, d) = (r, (v, c'))"
      by (simp add: on_ok_def)
    from Cons.IH [OF this] obtain obs2 where obs2: "logged u v obs2" "quiet obs2"
      "\<forall>out'. r = Inr out' \<longrightarrow> (\<exists>sts. out' = out1 @ sts \<and> list_all2 (?seen obs2) cfgs sts)" by blast
    have first: "?seen (obs @ obs2) cfg st" using seen_as_within [OF st(2), of "[]" obs2] obs2(2) by simp
    have rest: "list_all2 (?seen (obs @ obs2)) cfgs sts" if "list_all2 (?seen obs2) cfgs sts" for sts
      using that seen_as_within [of cid _ obs2 _ _ obs "[]"] obs(2) by (auto elim: list_all2_mono)
    show ?thesis
      using logged_trans [OF obs(1) obs2(1)] obs(2) obs2(2,3) st(1) first rest
      by (intro exI [of _ "obs @ obs2"]) fastforce
  qed
qed

lemma with_counts_run:
  assumes "with_counts ag parent m w = (r, v)"
  obtains u c d where "m (w, (0, 0)) = (r, (u, (c, d)))" "v = snd (send ag (FinalizeTracking parent c d) u)"
proof -
  obtain r0 u c d where m: "m (w, (0, 0)) = (r0, (u, (c, d)))" by (metis prod.collapse)
  with assms have "r = r0" "v = snd (send ag (FinalizeTracking parent c d) u)" by (simp_all add: with_counts_def)
  with m that show ?thesis by blast
qed

lemma scan_tracked_log:
  assumes run: "on_ok (send ag (TrackingTask tt td cid)) (\<lambda>r. case rp_Create r of Inl e \<Rightarrow> fail_with e
          | Inr parent \<Rightarrow> with_counts ag parent (scan_body ag cid configs machines parent)) w2 = (r, v)"
    and w2: "logged w w2 []" and ms: "ms = filter (\<lambda>m. mach_Cluster m = cid) machines"
  shows "\<exists>obs. logged w v obs \<and> quiet obs \<and> (\<forall>sts. r = Inr sts \<longrightarrow> list_all2 (seen_as cid ms obs) configs sts)"
proof -
  let ?t = "TrackingTask tt td cid"
  obtain rep w3 where t: "send ag ?t w2 = (Inr rep, w3)" "logged w2 w3 [(?t, rep)]" using logged_send by (metis prod.collapse)
  have w3: "logged w w3 [(?t, rep)]" and tq: "quiet [(?t, rep)]" using logged_trans [OF w2 t(2)] by (simp_all add: is_change_def)
  show ?thesis
  proof (cases "rp_Create rep")
    case (Inl e)
    with run t w3 tq show ?thesis by (intro exI [of _ "[(?t, rep)]"]) (auto simp: on_ok_def)
  next
    case (Inr parent)
    with run t have "with_counts ag parent (scan_body ag cid configs machines parent) w3 = (r, v)" by (simp add: on_ok_def)
    then obtain u c d where body: "scan_body ag cid configs machines parent (w3, (0, 0)) = (r, (u, (c, d)))"
      and v: "v = snd (send ag (FinalizeTracking parent c d) u)" by (rule with_counts_run)
    obtain rb w4 where gb: "GetVIPBindingStates cid w3 = (rb, w4)" by fastforce
    define prev where "prev = (case rb of Inl _ \<Rightarrow> [] | Inr bs \<Rightarrow> bs)"
    have w4: "logged w w4 [(?t, rep)]" using logged_trans [OF w3 logged_query [OF gb [unfolded GetVIPBindingStates_def]]] by simp
    from body gb have "fold_ok (scan_config ag cid machines prev parent) configs [] (w4, (0, 0)) = (r, (u, (c, d)))"
      by (simp add: scan_body_def with_result_def in_world_def Let_def prev_def)
    from scan_configs_log [OF this] obtain obs where obs: "logged w4 u obs" "quiet obs"
      "\<And>sts. r = Inr sts \<Longrightarrow> list_all2 (seen_as cid ms obs) configs sts" unfolding ms by auto
    let ?f = "FinalizeTracking parent c d"
    obtain frep where f: "logged u v [(?f, frep)]" using logged_send [of ag ?f u] v by (metis prod.collapse)
    have fq: "quiet [(?f, frep)]" by (simp add: is_change_def)
    let ?all = "[(?t, rep)] @ obs @ [(?f, frep)]"
    have "logged w v ?all" using logged_trans [OF w4 logged_trans [OF obs(1) f]] .
    moreover have "quiet ?all" using tq obs(2) fq by simp
    moreover have "list_all2 (seen_as cid ms ?all) configs sts" if "r = Inr sts" for sts
      using obs(3) [OF that] by (rule list_all2_mono) (rule seen_as_within [OF _ tq fq])
    ultimately show ?thesis by blast
  qed
qed

text \<open>The log of a scan, whatever the agents answer and whichever statement fails.\<close>

lemma Scan_log:
  assumes "Scan (Some ag) cid w = (r, v)"
  shows "\<exists>obs. logged w v obs \<and> quiet obs \<and>
    (\<forall>sts. r = Inr sts \<longrightarrow> list_all2 (seen_as cid (vip_members cid w) obs) (vip_listed cid w) sts)"
  using assms [unfolded Scan_def option.case]
proof (cases rule: on_ok_cases)
  case (err e)
  with logged_query [OF err(1) [unfolded ListVIPConfigs_def]] show ?thesis by (intro exI [of _ "[]"]) simp
next
  case (ok configs w1)
  have cfgs: "configs = vip_listed cid w" and w1: "logged w w1 []"
    using ok(1) [unfolded ListVIPConfigs_def] by (cases rule: query_cases; simp add: vip_listed_def)+
  show ?thesis
  proof (cases "configs = []")
    case True
    with ok(2) w1 cfgs show ?thesis by (intro exI [of _ "[]"]) auto
  next
    case False
    with ok(2) have "on_ok machines_List (\<lambda>machines.
        on_ok (send ag (TrackingTask ''vip_scan'' ''scan the VIP bindings of the cluster'' cid)) (\<lambda>r.
          case rp_Create r of Inl e \<Rightarrow> fail_with e
          | Inr parent \<Rightarrow> with_counts ag parent (scan_body ag cid configs machines parent))) w1 = (r, v)" by simp
    then show ?thesis
    proof (cases rule: on_ok_cases)
      case (err e)
      with logged_trans [OF w1 logged_query [OF err(1) [unfolded machines_List_def]]] show ?thesis by (intro exI [of _ "[]"]) simp
    next
      case (ok machines w2)
      have ms: "filter (\<lambda>m. mach_Cluster m = cid) machines = vip_members cid w" and w2: "logged w w2 []"
        using ok(1) [unfolded machines_List_def] w1 by (cases rule: query_cases; simp add: vip_members_def logged_def)+
      show ?thesis unfolding cfgs [symmetric] by (rule scan_tracked_log [OF ok(2) w2 ms [symmetric]])
    qed
  qed
qed

subsection \<open>What the verdicts of a scan mean\<close>

lemma scan_result_status:
  "vb_VIPAddress (scan_result cid cfg parent e now hs) = vc_VIPAddress cfg"
  "vb_VIPStatus (scan_result cid cfg parent e now hs) = scan_status e (map fst hs)"
  by (simp_all add: scan_result_def Let_def)

lemma scan_status_cases:
  "scan_status e ids = VipStatusUnbound \<longleftrightarrow> ids = []"
  "scan_status e ids = VipStatusBound \<Longrightarrow> \<exists>i. ids = [i]"
  by (cases ids rule: remdups_adj.cases; simp add: scan_status_def split: if_splits)+

text \<open>A scan without a held state for a VIP it covers probed all members and found no holder.\<close>

lemma unheld_looked:
  assumes "list_all2 (seen_as cid ms obs) cfgs sts" "\<exists>c \<in> set cfgs. vc_VIPAddress c = vip"
    and "find (\<lambda>st. vb_VIPAddress st = vip \<and> vb_VIPStatus st \<noteq> VipStatusUnbound) sts = None"
  shows "looked vip ms obs []"
proof -
  obtain c where c: "c \<in> set cfgs" "vc_VIPAddress c = vip" using assms(2) by blast
  then obtain i where i: "i < length cfgs" "cfgs ! i = c" by (auto simp: in_set_conv_nth)
  with assms(1) have "seen_as cid ms obs c (sts ! i)" and mem: "sts ! i \<in> set sts"
    by (auto simp: list_all2_conv_all_nth)
  then obtain parent e now hs where st: "sts ! i = scan_result cid c parent e now hs"
    and lk: "looked (vc_VIPAddress c) ms obs (map fst hs)" unfolding seen_as_def by blast
  have "vb_VIPStatus (sts ! i) = VipStatusUnbound"
  proof -
    have "vb_VIPAddress (sts ! i) = vip" by (simp add: st scan_result_status c(2))
    with assms(3) mem show ?thesis by (auto simp: find_None_iff)
  qed
  then have "map fst hs = []" unfolding st scan_result_status by (simp only: scan_status_cases)
  with lk c(2) show ?thesis by simp
qed

text \<open>A state that reports the VIP bound names the only machine whose probe found it.\<close>

lemma bound_looked:
  assumes "list_all2 (seen_as cid ms obs) cfgs sts" "st \<in> set sts" "vb_VIPStatus st = VipStatusBound"
  shows "looked (vb_VIPAddress st) ms obs [vb_CurrentHolderMachineID st] \<and> (\<exists>c \<in> set cfgs. vc_VIPAddress c = vb_VIPAddress st)"
proof -
  obtain i where i: "i < length sts" "sts ! i = st" using assms(2) by (auto simp: in_set_conv_nth)
  with assms(1) have seen: "seen_as cid ms obs (cfgs ! i) st" and mem: "cfgs ! i \<in> set cfgs"
    by (auto simp: list_all2_conv_all_nth)
  then obtain parent e now hs where st: "st = scan_result cid (cfgs ! i) parent e now hs"
    and lk: "looked (vc_VIPAddress (cfgs ! i)) ms obs (map fst hs)" unfolding seen_as_def by blast
  obtain h where h: "map fst hs = [h]"
    using scan_status_cases(2) [OF assms(3) [unfolded st scan_result_status]] by (elim exE)
  then have "vb_CurrentHolderMachineID st = h" unfolding st by (simp add: scan_result_def Let_def)
  with lk h mem show ?thesis by (auto simp: st scan_result_status)
qed

end
