(* ===== verification/VIP_Safety.thy ===== *)
theory VIP_Safety
  imports VIP_Scan_Log
begin

text \<open>
  The order of a bind: the agent log a bind request adds, scans included, and the lock around it.
\<close>

subsection \<open>The order of a bind\<close>

definition withdraw_call :: "vip_config \<Rightarrow> machine \<Rightarrow> agent_call" where
  "withdraw_call cfg m = ExecTask (mach_IP m) (withdraw_command cfg) [] ''vip_withdraw''
     (''withdraw old VIP '' @ vc_VIPAddress cfg) ''make sure the old holder has released it'' (45 * second)"

definition bind_call :: "vip_config \<Rightarrow> machine \<Rightarrow> agent_call" where
  "bind_call cfg m = ExecTask (mach_IP m) (bind_command cfg m) [] ''vip_bind''
     (''bind VIP '' @ vc_VIPAddress cfg) ''bind and announce the VIP'' (45 * second)"

definition is_rollback :: "vip_config \<Rightarrow> machine \<Rightarrow> agent_call \<Rightarrow> bool" where
  "is_rollback cfg m c \<longleftrightarrow> (\<exists>step. c = ExecTask (mach_IP m) (withdraw_command cfg) [] ''vip_rollback''
     (''roll back VIP '' @ vc_VIPAddress cfg) step (45 * second))"

lemma ignoring_run: "ignoring m k w = k (snd (m w))"
  by (simp add: ignoring_def with_result_def split: prod.splits)

lemma logged_ignored [simp]:
  "logged w (snd (UpsertVIPBindingState st v)) xs \<longleftrightarrow> logged w v xs" "logged w (snd (InsertVIPOperationLog row v)) xs \<longleftrightarrow> logged w v xs"
proof -
  have step: "logged w u xs \<longleftrightarrow> logged w v xs" if "logged v u []" for u using that by (simp add: logged_def)
  show "logged w (snd (UpsertVIPBindingState st v)) xs \<longleftrightarrow> logged w v xs"
    by (rule step) (rule logged_upsert [OF prod.collapse [symmetric]])
  show "logged w (snd (InsertVIPOperationLog row v)) xs \<longleftrightarrow> logged w v xs"
    by (rule step) (rule logged_oplog [OF prod.collapse [symmetric]])
qed

lemma runCommand_run:
  "\<exists>taskID e w' rep. runCommand (Some ag) m op d s c w = (Inr (taskID, e), w') \<and>
    logged w w' [(ExecTask (mach_IP m) c [] op d s (45 * second), rep)] \<and> (e = None \<longleftrightarrow> exec_success rep)"
proof -
  let ?call = "ExecTask (mach_IP m) c [] op d s (45 * second)"
  obtain rep u where sd: "send ag ?call w = (Inr rep, u)" and u: "logged w u [(?call, rep)]"
    using logged_send by (metis prod.collapse)
  have "\<exists>taskID e. runCommand (Some ag) m op d s c w = (Inr (taskID, e), u) \<and> (e = None \<longleftrightarrow> exec_success rep)"
    using sd by (cases "rp_Create rep"; cases "rp_Wait rep") (auto simp add: runCommand_def on_ok_def exec_success_def)
  with u show ?thesis by blast
qed

text \<open>Running one command on every machine: in order, up to the first that fails.\<close>

definition machine_call :: "string \<Rightarrow> string \<Rightarrow> string \<Rightarrow> string \<Rightarrow> machine \<Rightarrow> agent_call" where
  "machine_call op d s c m = ExecTask (mach_IP m) c [] op d s (45 * second)"

lemma must_run_run:
  "\<exists>r w' rep. must_run (Some ag) m op d s c w = (r, w') \<and>
    logged w w' [(machine_call op d s c m, rep)] \<and> (is_ok r \<longleftrightarrow> exec_success rep)"
proof -
  obtain taskID e w' rep where run: "runCommand (Some ag) m op d s c w = (Inr (taskID, e), w')"
    and *: "logged w w' [(machine_call op d s c m, rep)]" "e = None \<longleftrightarrow> exec_success rep"
    using runCommand_run [of ag m op d s c w] unfolding machine_call_def by blast
  have "must_run (Some ag) m op d s c w = (case e of None \<Rightarrow> Inr taskID | Some x \<Rightarrow> Inl x, w')"
    using run by (cases e) (simp_all add: must_run_def on_ok_def)
  with * show ?thesis by (cases e) auto
qed

lemma run_on_all:
  "for_ok (\<lambda>m. on_ok (must_run (Some ag) m op d s c) (\<lambda>_. ret ())) ms w = (r, w') \<Longrightarrow>
   \<exists>reps. logged w w' (zip (map (machine_call op d s c) ms) reps) \<and> length reps \<le> length ms \<and>
     (is_ok r \<longleftrightarrow> length reps = length ms \<and> list_all exec_success reps) \<and>
     (\<not> is_ok r \<longrightarrow> reps \<noteq> [] \<and> list_all exec_success (butlast reps))"
proof (induction ms arbitrary: w)
  case Nil
  then show ?case by auto
next
  case (Cons m ms)
  obtain r1 v rep where m: "must_run (Some ag) m op d s c w = (r1, v)"
    and v: "logged w v [(machine_call op d s c m, rep)]" and ok: "is_ok r1 \<longleftrightarrow> exec_success rep"
    using must_run_run by metis
  show ?case
  proof (cases r1)
    case (Inl e)
    with Cons.prems m have "r = Inl e" "w' = v" by (simp_all add: on_ok_def)
    with Inl ok v show ?thesis by (intro exI [of _ "[rep]"]) simp
  next
    case (Inr x)
    let ?F = "\<lambda>m. on_ok (must_run (Some ag) m op d s c) (\<lambda>_. ret ()) :: unit act"
    have "for_ok ?F (m # ms) w = on_ok (must_run (Some ag) m op d s c) (\<lambda>_. on_ok (ret ()) (\<lambda>_. for_ok ?F ms)) w"
      by (simp only: for_ok_simps on_ok_assoc)
    also have "\<dots> = on_ok (ret ()) (\<lambda>_. for_ok ?F ms) v"
      by (rule on_ok_eq(2)) (use m Inr in simp)
    finally have "for_ok ?F ms v = (r, w')" using Cons.prems by (simp only: on_ok_ret)
    from Cons.IH [OF this] obtain reps where
      "logged v w' (zip (map (machine_call op d s c) ms) reps)" "length reps \<le> length ms"
      "is_ok r \<longleftrightarrow> length reps = length ms \<and> list_all exec_success reps"
      "\<not> is_ok r \<longrightarrow> reps \<noteq> [] \<and> list_all exec_success (butlast reps)" by blast
    with Inr ok logged_trans [OF v this(1)] show ?thesis by (intro exI [of _ "rep # reps"]) auto
  qed
qed

lemma withdraw_all_run:
  "withdraw_all (Some ag) cfg ms w = (r, w') \<Longrightarrow>
   \<exists>reps. logged w w' (zip (map (withdraw_call cfg) ms) reps) \<and> length reps \<le> length ms \<and>
     (is_ok r \<longleftrightarrow> length reps = length ms \<and> list_all exec_success reps) \<and>
     (\<not> is_ok r \<longrightarrow> reps \<noteq> [] \<and> list_all exec_success (butlast reps))"
  using run_on_all unfolding withdraw_all_def withdraw_machine_def withdraw_call_def machine_call_def by blast

lemma rollback_run:
  "\<exists>c rep. logged w (snd (rollback_bind (Some ag) cfg target step w)) [(c, rep)] \<and> is_rollback cfg target c"
  using runCommand_run [of ag target "''vip_rollback''" "''roll back VIP '' @ vc_VIPAddress cfg" step "withdraw_command cfg" w]
  unfolding rollback_bind_def is_rollback_def by fastforce

text \<open>
  A round either confirms the target, every member having been probed and only the target found to hold the
  VIP, or it takes the VIP back from the target.
\<close>

definition covered :: "string \<Rightarrow> string \<Rightarrow> world \<Rightarrow> bool" where
  "covered cid vip w \<longleftrightarrow> (\<exists>c \<in> set (vip_listed cid w). vc_VIPAddress c = vip)"

definition confirms :: "vip_config \<Rightarrow> machine \<Rightarrow> vip_binding \<Rightarrow> bool" where
  "confirms cfg target st \<longleftrightarrow> vb_VIPAddress st = vc_VIPAddress cfg \<and> vb_VIPStatus st = VipStatusBound \<and>
     vb_CurrentHolderMachineID st = mach_ID target"

definition taken_back :: "vip_config \<Rightarrow> machine \<Rightarrow> agent_log \<Rightarrow> bool" where
  "taken_back cfg target obs \<longleftrightarrow> (\<exists>scans c rep. obs = scans @ [(c, rep)] \<and> quiet scans \<and> is_rollback cfg target c)"

lemma taken_back_after: "quiet xs \<Longrightarrow> taken_back cfg target obs \<Longrightarrow> taken_back cfg target (xs @ obs)"
  unfolding taken_back_def by (metis append.assoc quiet_simps(3))

lemma scanned_taken_back:
  assumes "logged w v obs" "quiet obs"
  shows "\<exists>new. logged w (snd (rollback_bind (Some ag) cfg target step v)) new \<and> taken_back cfg target new"
proof -
  obtain c rep where "logged v (snd (rollback_bind (Some ag) cfg target step v)) [(c, rep)]" "is_rollback cfg target c"
    using rollback_run by blast
  with assms logged_trans show ?thesis unfolding taken_back_def by blast
qed

lemma verify_round_run:
  assumes "verify_round (Some ag) cid cfg target n w = (r, w')"
  shows "(\<exists>st sts obs. r = Inr (Inr st) \<and> confirms cfg target st \<and> Scan (Some ag) cid w = (Inr sts, w') \<and> st \<in> set sts \<and>
            logged w w' obs \<and> looked (vc_VIPAddress cfg) (vip_members cid w) obs [mach_ID target] \<and> covered cid (vc_VIPAddress cfg) w) \<or>
         (\<exists>st e obs. r = Inr (Inl (st, Some e)) \<and> logged w w' obs \<and> taken_back cfg target obs)"
proof -
  obtain rs v where scan: "Scan (Some ag) cid w = (rs, v)" by fastforce
  obtain obs where obs: "logged w v obs" "quiet obs"
    and seen: "\<And>sts. rs = Inr sts \<Longrightarrow> list_all2 (seen_as cid (vip_members cid w) obs) (vip_listed cid w) sts"
    using Scan_log [OF scan] by blast
  show ?thesis
  proof (cases rs)
    case (Inl e)
    obtain new where rb: "logged w (snd (rollback_bind (Some ag) cfg target
        ''verification unavailable, withdraw the VIP of the new node'' v)) new" "taken_back cfg target new"
      using scanned_taken_back [OF obs] by blast
    from assms scan Inl rb show ?thesis
      by (auto simp: verify_round_def with_result_def Let_def ignoring_run)
  next
    case (Inr sts)
    define verified where "verified = (case find (\<lambda>st. vb_VIPAddress st = vc_VIPAddress cfg) sts of
        None \<Rightarrow> no_binding\<lparr>vb_ClusterID := cid, vb_VIPConfigID := vc_ID cfg,
                 vb_VIPAddress := vc_VIPAddress cfg, vb_ExpectedHolderMachineID := mach_ID target\<rparr> | Some st \<Rightarrow> st)"
    show ?thesis
    proof (cases "vb_VIPAddress verified = [] \<or> vb_VIPStatus verified \<noteq> VipStatusBound \<or>
                  vb_CurrentHolderMachineID verified \<noteq> mach_ID target")
      case True
      obtain new where rb: "logged w (snd (rollback_bind (Some ag) cfg target
          ''single holder verification failed, withdraw the VIP of the new node'' v)) new" "taken_back cfg target new"
        using scanned_taken_back [OF obs] by blast
      from assms scan Inr True show ?thesis
        unfolding verify_round_def with_result_def Let_def verified_def [symmetric]
        by (simp add: ignoring_run Let_def flip: verified_def) (use rb in auto)
    next
      case False
      then obtain st where st: "find (\<lambda>st. vb_VIPAddress st = vc_VIPAddress cfg) sts = Some st" "verified = st"
        unfolding verified_def by (cases "find (\<lambda>st. vb_VIPAddress st = vc_VIPAddress cfg) sts") (simp_all add: no_binding_def)
      have mem: "st \<in> set sts" "vb_VIPAddress st = vc_VIPAddress cfg"
        using st(1) by (auto simp: find_Some_iff)
      from False st mem have ok: "confirms cfg target st" by (simp add: confirms_def)
      with bound_looked [OF seen [OF Inr] mem(1)]
      have "looked (vc_VIPAddress cfg) (vip_members cid w) obs [mach_ID target]" "covered cid (vc_VIPAddress cfg) w"
        by (auto simp: confirms_def covered_def)
      moreover have "r = Inr (Inr st) \<and> w' = v"
        using assms scan Inr False st by (simp add: verify_round_def with_result_def Let_def)
      ultimately show ?thesis using scan Inr obs(1) ok mem(1) by blast
    qed
  qed
qed

lemma after_bind_run:
  assumes "after_bind (Some ag) cid cfg target tid w = (r, w')"
  shows "(\<exists>st one two. r = Inr (st, None) \<and> confirms cfg target st \<and> logged w w' (one @ two) \<and> covered cid (vc_VIPAddress cfg) w \<and>
            looked (vc_VIPAddress cfg) (vip_members cid w) one [mach_ID target] \<and>
            looked (vc_VIPAddress cfg) (vip_members cid w) two [mach_ID target]) \<or>
         (\<exists>st e obs. r = Inr (st, Some e) \<and> logged w w' obs \<and> taken_back cfg target obs)"
proof -
  obtain r1 v1 where v1: "verify_round (Some ag) cid cfg target 1 w = (r1, v1)" by fastforce
  from verify_round_run [OF v1] show ?thesis
  proof (elim disjE exE conjE)
    fix st e obs assume "r1 = Inr (Inl (st, Some e))" "logged w v1 obs" "taken_back cfg target obs"
    with assms v1 show ?thesis by (auto simp: after_bind_def on_ok_def)
  next
    fix st sts one assume 1: "r1 = Inr (Inr st)" "logged w v1 one" "looked (vc_VIPAddress cfg) (vip_members cid w) one [mach_ID target]"
      "covered cid (vc_VIPAddress cfg) w"
    obtain r2 v2 where v2: "verify_round (Some ag) cid cfg target 2 v1 = (r2, v2)" by fastforce
    from verify_round_run [OF v2] show ?thesis
    proof (elim disjE exE conjE)
      fix st e obs assume "r2 = Inr (Inl (st, Some e))" "logged v1 v2 obs" "taken_back cfg target obs"
      then have "r2 = Inr (Inl (st, Some e))" "logged w v2 (one @ obs)" "taken_back cfg target (one @ obs)"
        using logged_trans [OF 1(2)] taken_back_after [OF looked_quiet [OF 1(3)]] by simp_all
      with assms v1 v2 1(1) show ?thesis by (auto simp: after_bind_def on_ok_def)
    next
      fix st' sts' two assume 2: "r2 = Inr (Inr st')" "logged v1 v2 two" "confirms cfg target st'"
        "looked (vc_VIPAddress cfg) (vip_members cid v1) two [mach_ID target]"
      have "logged w w' (one @ two) \<and> (\<exists>final. r = Inr (final, None) \<and> confirms cfg target final)"
        using assms v1 v2 1(1) 2 logged_trans [OF 1(2) 2(2)]
        by (auto simp: after_bind_def on_ok_def Let_def ignoring_run confirms_def)
      with 1 2(4) vip_tables_logged [OF 1(2)] show ?thesis by auto
    qed
  qed
qed

text \<open>
  The log of a bind. Either an initial part of the withdrawals, the last of them failing; or all of them
  succeeding, the barrier scan, and then nothing, or the bind. The bind comes only after a barrier scan that
  probed every machine for the VIP and found it nowhere (\<open>cover\<close>: the VIP is one the scans of the cluster look
  for); a bind that failed ends the run, one that succeeded is followed by two scans that found the VIP
  on the target only, or by its withdrawal from the target.
\<close>

definition aborted_withdraw :: "vip_config \<Rightarrow> machine list \<Rightarrow> agent_log \<Rightarrow> bool" where
  "aborted_withdraw cfg ms new \<longleftrightarrow> (\<exists>reps. new = zip (map (withdraw_call cfg) ms) reps \<and> reps \<noteq> [] \<and>
     length reps \<le> length ms \<and> list_all exec_success (butlast reps))"

definition withdrawn :: "vip_config \<Rightarrow> machine list \<Rightarrow> agent_log \<Rightarrow> bool" where
  "withdrawn cfg ms new \<longleftrightarrow> (\<exists>reps. new = zip (map (withdraw_call cfg) ms) reps \<and>
     length reps = length ms \<and> list_all exec_success reps)"

definition bind_outcome :: "vip_config \<Rightarrow> machine list \<Rightarrow> machine \<Rightarrow> bool \<Rightarrow> bool \<Rightarrow> agent_log \<Rightarrow> bool \<Rightarrow> bool" where
  "bind_outcome cfg ms target cover bound rest success \<longleftrightarrow>
     (\<not> bound \<and> rest = [] \<and> \<not> success) \<or>
     (bound \<and> taken_back cfg target rest \<and> \<not> success) \<or>
     (bound \<and> cover \<and> success \<and> (\<exists>one two. rest = one @ two \<and>
        looked (vc_VIPAddress cfg) ms one [mach_ID target] \<and> looked (vc_VIPAddress cfg) ms two [mach_ID target]))"

definition bind_commands :: "vip_config \<Rightarrow> machine list \<Rightarrow> machine \<Rightarrow> bool \<Rightarrow> agent_log \<Rightarrow> bool \<Rightarrow> bool" where
  "bind_commands cfg ms target cover new success \<longleftrightarrow>
     (\<not> success \<and> aborted_withdraw cfg ms new) \<or>
     (\<exists>out seen. withdrawn cfg ms out \<and> quiet seen \<and>
        ((\<not> success \<and> new = out @ seen) \<or>
         ((cover \<longrightarrow> looked (vc_VIPAddress cfg) ms seen []) \<and>
          (\<exists>rep rest. new = out @ seen @ (bind_call cfg target, rep) # rest \<and>
             bind_outcome cfg ms target cover (exec_success rep) rest success))))"

text \<open>The part of a bind behind its barrier.\<close>

definition bind_and_verify :: "agent \<Rightarrow> string \<Rightarrow> vip_config \<Rightarrow> machine \<Rightarrow> vip_binding multi act" where
  "bind_and_verify ag cid cfg target =
     on_ok (runCommand (Some ag) target ''vip_bind'' (''bind VIP '' @ vc_VIPAddress cfg)
              ''bind and announce the VIP'' (bind_command cfg target)) (\<lambda>(bindTaskID, err).
       case err of
         Some e \<Rightarrow>
           ignoring (UpsertVIPBindingState
                       ((failed_binding cid cfg target (error_text e))\<lparr>vb_CurrentInterface := vc_DefaultInterface cfg\<rparr>))
             (ret (no_binding, Some e))
       | None \<Rightarrow> after_bind (Some ag) cid cfg target bindTaskID)"

lemma bind_and_verify_run:
  assumes "bind_and_verify ag cid cfg target x = (r, w')"
  shows "\<exists>st err rep rest. r = Inr (st, err) \<and> logged x w' ((bind_call cfg target, rep) # rest) \<and>
    (err = None \<longrightarrow> confirms cfg target st) \<and>
    bind_outcome cfg (vip_members cid x) target (covered cid (vc_VIPAddress cfg) x) (exec_success rep) rest (err = None)"
proof -
  obtain tid e y rep where run: "runCommand (Some ag) target ''vip_bind'' (''bind VIP '' @ vc_VIPAddress cfg)
      ''bind and announce the VIP'' (bind_command cfg target) x = (Inr (tid, e), y)"
    and y: "logged x y [(bind_call cfg target, rep)]" and e: "e = None \<longleftrightarrow> exec_success rep"
    using runCommand_run [of ag target "''vip_bind''" "''bind VIP '' @ vc_VIPAddress cfg"
        "''bind and announce the VIP''" "bind_command cfg target" x]
    unfolding bind_call_def by blast
  show ?thesis
  proof (cases e)
    case (Some e')
    with assms run have "r = Inr (no_binding, Some e')" "logged x w' [(bind_call cfg target, rep)]"
      using y by (auto simp: bind_and_verify_def on_ok_def ignoring_run)
    with e Some show ?thesis by (auto simp: bind_outcome_def)
  next
    case None
    with assms run have "after_bind (Some ag) cid cfg target tid y = (r, w')" by (simp add: bind_and_verify_def on_ok_def)
    from after_bind_run [OF this] show ?thesis
    proof (elim disjE exE conjE)
      fix st one two assume *: "r = Inr (st, None)" "confirms cfg target st" "logged y w' (one @ two)" "covered cid (vc_VIPAddress cfg) y"
        "looked (vc_VIPAddress cfg) (vip_members cid y) one [mach_ID target]"
        "looked (vc_VIPAddress cfg) (vip_members cid y) two [mach_ID target]"
      then have "bind_outcome cfg (vip_members cid x) target (covered cid (vc_VIPAddress cfg) x) (exec_success rep) (one @ two) True"
        using vip_tables_logged [OF y] e None unfolding bind_outcome_def covered_def by auto
      with * logged_trans [OF y *(3)] show ?thesis by auto
    next
      fix st e' obs assume *: "r = Inr (st, Some e')" "logged y w' obs" "taken_back cfg target obs"
      then have "bind_outcome cfg (vip_members cid x) target (covered cid (vc_VIPAddress cfg) x) (exec_success rep) obs False"
        using e None by (simp add: bind_outcome_def)
      with * logged_trans [OF y *(2)] show ?thesis by auto
    qed
  qed
qed

lemma bind_target_run:
  assumes "bind_target (Some ag) cid ms target cfg w = (r, w')" "ms = vip_members cid w"
  shows "\<exists>st err new. r = Inr (st, err) \<and> logged w w' new \<and>
    bind_commands cfg ms target (covered cid (vc_VIPAddress cfg) w) new (err = None) \<and> (err = None \<longrightarrow> confirms cfg target st)"
proof -
  let ?cover = "covered cid (vc_VIPAddress cfg) w"
  obtain rw v where wd: "withdraw_all (Some ag) cfg ms w = (rw, v)" by fastforce
  from withdraw_all_run [OF wd] obtain reps where
    reps: "logged w v (zip (map (withdraw_call cfg) ms) reps)" "length reps \<le> length ms"
      "is_ok rw \<longleftrightarrow> length reps = length ms \<and> list_all exec_success reps"
      "\<not> is_ok rw \<longrightarrow> reps \<noteq> [] \<and> list_all exec_success (butlast reps)" by blast
  let ?out = "zip (map (withdraw_call cfg) ms) reps"
  show ?thesis
  proof (cases rw)
    case (Inl e)
    with assms(1) wd have "r = Inr (no_binding, Some e)" "w' = v"
      by (auto simp: bind_target_def or_return_def with_result_def)
    moreover have "aborted_withdraw cfg ms ?out"
      using reps Inl by (auto simp: aborted_withdraw_def)
    ultimately show ?thesis using reps(1) by (auto simp: bind_commands_def)
  next
    case (Inr u)
    with reps have out: "withdrawn cfg ms ?out" by (auto simp: withdrawn_def)
    obtain rs x where scan: "Scan (Some ag) cid v = (rs, x)" by fastforce
    from Scan_log [OF scan] obtain seen where seen: "logged v x seen" "quiet seen"
      and verdict: "\<And>sts. rs = Inr sts \<Longrightarrow> list_all2 (seen_as cid (vip_members cid v) seen) (vip_listed cid v) sts" by blast
    note x = logged_trans [OF reps(1) seen(1)]
    have no_bind: ?thesis if "r = Inr (st, Some e)" "w' = x" for st e
    proof -
      have "bind_commands cfg ms target ?cover (?out @ seen) False" unfolding bind_commands_def using out seen(2) by blast
      with that x show ?thesis by auto
    qed
    show ?thesis
    proof (cases rs)
      case (Inl e)
      with assms(1) wd Inr scan show ?thesis
        by (intro no_bind) (auto simp: bind_target_def or_return_def with_result_def)
    next
      case sts: (Inr sts)
      show ?thesis
      proof (cases "find (\<lambda>st. vb_VIPAddress st = vc_VIPAddress cfg \<and> vb_VIPStatus st \<noteq> VipStatusUnbound) sts")
        case (Some st)
        with assms(1) wd Inr scan sts show ?thesis
          by (intro no_bind) (auto simp: bind_target_def or_return_def with_result_def)
      next
        case None
        have barrier: "?cover \<longrightarrow> looked (vc_VIPAddress cfg) ms seen []"
          using unheld_looked [OF verdict [OF sts] _ None] vip_tables_logged [OF reps(1)] assms(2) by (simp add: covered_def)
        have "bind_target (Some ag) cid ms target cfg w = bind_and_verify ag cid cfg target x"
          using wd Inr scan sts None
          by (simp add: bind_target_def or_return_def with_result_def bind_and_verify_def)
        with assms(1) have bv: "bind_and_verify ag cid cfg target x = (r, w')" by simp
        from bind_and_verify_run [OF this] obtain st err rep rest where
          *: "r = Inr (st, err)" "logged x w' ((bind_call cfg target, rep) # rest)" "err = None \<longrightarrow> confirms cfg target st"
             "bind_outcome cfg (vip_members cid x) target (covered cid (vc_VIPAddress cfg) x) (exec_success rep) rest (err = None)"
          by blast
        have "logged w w' (?out @ seen @ (bind_call cfg target, rep) # rest)" using logged_trans [OF x *(2)] by simp
        moreover have "bind_outcome cfg ms target ?cover (exec_success rep) rest (err = None)"
          using *(4) vip_tables_logged [OF x] assms(2) by (simp add: covered_def)
        then have "bind_commands cfg ms target ?cover (?out @ seen @ (bind_call cfg target, rep) # rest) (err = None)"
          unfolding bind_commands_def using out seen(2) barrier by blast
        ultimately show ?thesis using *(1,3) by blast
      qed
    qed
  qed
qed

subsection \<open>The bind under its lock\<close>

text \<open>
  What the log shows of a bind request; \<open>own\<close> is the outcome of the operation inside the lock (a bind that
  succeeded is reported as failed when the lease was lost meanwhile).
\<close>

definition bind_effect :: "string \<Rightarrow> vip_config \<Rightarrow> machine list \<Rightarrow> bool \<Rightarrow> agent_log \<Rightarrow> vip_binding multi \<Rightarrow> bool" where
  "bind_effect target cfg ms cover new res \<longleftrightarrow>
     (case res of (st, err) \<Rightarrow>
        (new = [] \<and> err \<noteq> None) \<or>
        (\<exists>cfg' tgt own. vc_VIPAddress cfg' = vc_VIPAddress cfg \<and> vc_VIPRouteMode cfg' = vc_VIPRouteMode cfg \<and>
           tgt \<in> set ms \<and> mach_ID tgt = target \<and> target \<noteq> [] \<and>
           bind_commands cfg' ms tgt cover new own \<and> (err = None \<longrightarrow> own \<and> confirms cfg tgt st)))"

lemma bind_effect_error: "bind_effect target cfg ms cover new (st, err) \<Longrightarrow> (err' = None \<Longrightarrow> err = None) \<Longrightarrow>
  bind_effect target cfg ms cover new (st, err')"
  unfolding bind_effect_def prod.case by blast

lemma clusterMachines_run:
  assumes "clusterMachines cid w = (r, w')"
  shows "logged w w' [] \<and> (\<forall>ms. r = Inr ms \<longrightarrow> ms = vip_members cid w)"
proof -
  obtain rq v where q: "machines_List w = (rq, v)" by fastforce
  from q [unfolded machines_List_def] show ?thesis
    by (cases rule: query_cases)
       (use assms q in \<open>auto simp: clusterMachines_def on_ok_def Let_def vip_members_def split: if_splits\<close>)
qed

lemma clusterMachines_preserves: "db_stable I \<Longrightarrow> preserves I (clusterMachines cid)"
  unfolding clusterMachines_def machines_List_def Let_def by (intro op_rules)

lemma Select_interface_preserves:
  "db_stable I \<Longrightarrow> (\<And>w p n. I w \<Longrightarrow> I (w\<lparr>w_policies := p, w_networks := n\<rparr>)) \<Longrightarrow> preserves I (Select_interface req)"
  unfolding Select_interface_def ListMachineInterfaces_def by (intro op_rules preserves_policies) simp_all

text \<open>\<open>bindLocked\<close> either refuses, or runs the bind on a member of the cluster with the given id; before
  that it reads tables and creates default policies only.\<close>

definition reads_only :: "world \<Rightarrow> world \<Rightarrow> bool" where
  "reads_only w u \<longleftrightarrow> (\<forall>I. db_stable I \<longrightarrow> (\<forall>v p n. I v \<longrightarrow> I (v\<lparr>w_policies := p, w_networks := n\<rparr>)) \<longrightarrow> I w \<longrightarrow> I u)"

lemma reads_onlyD:
  "reads_only w u \<Longrightarrow> db_stable I \<Longrightarrow> (\<And>v p n. I v \<Longrightarrow> I (v\<lparr>w_policies := p, w_networks := n\<rparr>)) \<Longrightarrow> I w \<Longrightarrow> I u"
  unfolding reads_only_def by blast

lemma reads_onlyI:
  "(\<And>I. db_stable I \<Longrightarrow> (\<And>v p n. I v \<Longrightarrow> I (v\<lparr>w_policies := p, w_networks := n\<rparr>)) \<Longrightarrow> preserves I m) \<Longrightarrow>
   m w = (r, u) \<Longrightarrow> reads_only w u"
  unfolding reads_only_def valid_def by blast

lemma reads_only_trans: "reads_only w v \<Longrightarrow> reads_only v u \<Longrightarrow> reads_only w u"
  unfolding reads_only_def by blast

lemma reads_only_logged: "reads_only w u \<Longrightarrow> logged w u []"
  by (rule reads_onlyD [where I = "\<lambda>v. logged w v []"]) (auto intro!: db_stableI simp: logged_def)

lemma bindLocked_cases:
  assumes "bindLocked tasks cid target cfg w = (r, w')"
  obtains (refused) st e where "r = Inr (st, Some e)" "reads_only w w'"
    | (run) cfg' ms tgt u where "bind_target tasks cid ms tgt cfg' u = (r, w')" "reads_only w u"
        "vc_VIPAddress cfg' = vc_VIPAddress cfg" "vc_VIPRouteMode cfg' = vc_VIPRouteMode cfg"
        "ms = vip_members cid w" "tgt \<in> set ms" "mach_ID tgt = target" "target \<noteq> []"
proof -
  obtain rm v where cm: "clusterMachines cid w = (rm, v)" by fastforce
  have rv: "reads_only w v"
    using clusterMachines_preserves cm by (rule reads_onlyI)
  show ?thesis
  proof (cases rm)
    case (Inl e)
    with assms cm have "r = Inr (no_binding, Some e)" "w' = v"
      by (auto simp: bindLocked_def or_return_def with_result_def)
    with rv refused show ?thesis by blast
  next
    case (Inr ms)
    with clusterMachines_run [OF cm] have ms: "ms = vip_members cid w" by simp
    define tgt where "tgt = (case find (\<lambda>m. mach_ID m = target) ms of None \<Rightarrow> no_machine | Some m \<Rightarrow> m)"
    show ?thesis
    proof (cases "mach_ID tgt = []")
      case True
      with assms cm Inr have "\<exists>e. r = Inr (no_binding, Some e)" "w' = v"
        by (auto simp: bindLocked_def or_return_def with_result_def Let_def tgt_def)
      with rv refused show ?thesis by blast
    next
      case False
      then have "find (\<lambda>m. mach_ID m = target) ms = Some tgt"
        unfolding tgt_def by (cases "find (\<lambda>m. mach_ID m = target) ms") (simp_all add: no_machine_def)
      then have tgt: "tgt \<in> set ms" "mach_ID tgt = target" by (auto simp: find_Some_iff)
      show ?thesis
      proof (cases "vc_VIPRouteMode cfg = VipRouteModeL2ARP")
        case nol2: False
        with assms cm Inr False have "bind_target tasks cid ms tgt cfg v = (r, w')"
          by (simp add: bindLocked_def or_return_def with_result_def Let_def tgt_def)
        with rv ms tgt False run show ?thesis by blast
      next
        case True
        let ?req = "\<lparr>sr_ClusterID = cid, sr_MachineID = mach_ID tgt, sr_InstanceVIPInterface = [],
                     sr_DefaultInterface = vc_DefaultInterface cfg, sr_VIPAddress = vc_VIPAddress cfg\<rparr>"
        obtain ri u where sel: "Select_interface ?req v = (ri, u)" by fastforce
        have "reads_only v u"
          using Select_interface_preserves sel by (rule reads_onlyI)
        with rv have u: "reads_only w u" by (rule reads_only_trans)
        show ?thesis
        proof (cases ri)
          case (Inl e)
          with assms cm Inr False True sel have "r = Inr (no_binding, Some e)" "w' = u"
            by (auto simp: bindLocked_def or_return_def with_result_def Let_def tgt_def)
          with u refused show ?thesis by blast
        next
          case iface: (Inr iface)
          with assms cm Inr False True sel
          have "bind_target tasks cid ms tgt (cfg\<lparr>vc_DefaultInterface := iface\<rparr>) u = (r, w')"
            by (simp add: bindLocked_def or_return_def with_result_def Let_def tgt_def)
          then show ?thesis by (rule run) (use u ms tgt False in simp_all)
        qed
      qed
    qed
  qed
qed

lemma bindLocked_effect:
  assumes "bindLocked (Some ag) cid target cfg w = (r, w')"
  shows "\<exists>res new. r = Inr res \<and> logged w w' new \<and>
           bind_effect target cfg (vip_members cid w) (covered cid (vc_VIPAddress cfg) w) new res"
  using assms
proof (cases rule: bindLocked_cases)
  case (refused st e)
  then show ?thesis using reads_only_logged by (auto simp: bind_effect_def)
next
  case (run cfg' ms tgt u)
  note u = reads_only_logged [OF run(2)]
  have tables: "vip_members cid u = vip_members cid w" "covered cid (vc_VIPAddress cfg') u = covered cid (vc_VIPAddress cfg) w"
    using vip_tables_logged [OF u] run(3) by (simp_all add: covered_def)
  from bind_target_run [OF run(1)] run(5) tables obtain st err new where
    *: "r = Inr (st, err)" "logged u w' new" "err = None \<longrightarrow> confirms cfg' tgt st"
       "bind_commands cfg' ms tgt (covered cid (vc_VIPAddress cfg) w) new (err = None)" by auto
  have "bind_effect target cfg (vip_members cid w) (covered cid (vc_VIPAddress cfg) w) new (st, err)"
    unfolding bind_effect_def prod.case using * run
    by (intro disjI2 exI [of _ cfg'] exI [of _ tgt] exI [of _ "err = None"]) (auto simp: confirms_def)
  with *(1) logged_trans [OF u *(2)] show ?thesis by auto
qed

lemma lock_statement_cases:
  assumes "lock_statement f w = (r, w')"
  obtains (ok) fs tab where "f (w_clock w) (w_locks w) = Inr tab" "r = Inr ()" "w' = w\<lparr>w_faults := fs, w_locks := tab\<rparr>"
        "w_faults w = [] \<longrightarrow> fs = []"
    | (error) e fs where "r = Inl e" "w' = w\<lparr>w_faults := fs\<rparr>"
proof (cases w rule: db_call_cases)
  case (fault e fs)
  with assms have "r = Inl e" "w' = w\<lparr>w_faults := fs\<rparr>" by (auto simp: lock_statement_def on_ok_def)
  then show ?thesis by (rule error)
next
  case (ok fs)
  show ?thesis
  proof (cases "f (w_clock w) (w_locks w)")
    case (Inl e)
    with ok assms have "r = Inl e" "w' = w\<lparr>w_faults := fs\<rparr>" by (auto simp: lock_statement_def on_ok_def)
    then show ?thesis by (rule error)
  next
    case (Inr tab)
    with ok assms have "r = Inr ()" "w' = w\<lparr>w_faults := fs, w_locks := tab\<rparr>"
      by (auto simp: lock_statement_def on_ok_def)
    with Inr ok(2) show ?thesis by (intro that(1))
  qed
qed

lemma preserves_lock_statement:
  assumes "db_stable I" "\<And>w tab. I w \<Longrightarrow> I (w\<lparr>w_locks := tab\<rparr>)"
  shows "preserves I (lock_statement f)"
proof -
  have "preserves I (\<lambda>w. case f (w_clock w) (w_locks w) of Inl e \<Rightarrow> (Inl e, w) | Inr tab \<Rightarrow> (Inr (), w\<lparr>w_locks := tab\<rparr>))"
    using assms(2) by (auto simp: valid_def split: sum.splits)
  then show ?thesis unfolding lock_statement_def by (intro op_rules assms(1))
qed

lemma renew_at_statement: "renew_at cid lockID t = lock_statement (\<lambda>_. renew_lock t cid lockID lockTTL)"
  by (simp add: renew_at_def lock_statement_def)

lemma preserves_lock_ops:
  assumes "db_stable I" "\<And>w tab. I w \<Longrightarrow> I (w\<lparr>w_locks := tab\<rparr>)"
  shows "preserves I (AcquireFailoverLock cid fid own ttl)" "preserves I (ReleaseFailoverLock cid fid)"
    "preserves I (renewals cid lockID start)"
proof -
  note stmt = preserves_lock_statement [of I, OF assms]
  show "preserves I (AcquireFailoverLock cid fid own ttl)"
    unfolding AcquireFailoverLock_def by (rule stmt)
  show "preserves I (ReleaseFailoverLock cid fid)"
    unfolding ReleaseFailoverLock_def by (rule stmt)
  have loop: "preserves I (for_ok (renew_at cid lockID) ts)" for ts
    unfolding renew_at_statement by (intro preserves_for_ok stmt)
  show "preserves I (renewals cid lockID start)"
    unfolding renewals_def by (intro op_rules loop)
qed

lemma renewals_ok: "\<exists>e w'. renewals cid lockID start w = (Inr e, w')"
proof -
  obtain r v where "for_ok (renew_at cid lockID) (renewal_ticks start (w_clock w)) w = (r, v)" by fastforce
  then show ?thesis by (cases r) (simp_all add: renewals_def with_result_def on_ok_def)
qed

text \<open>The operation runs only after the lock was taken, and its own failure is never hidden.\<close>

lemma with_lock_run:
  assumes run: "withVIPOperationLock newid cid op zero execute w = (r, w')"
    and total: "\<And>v. \<exists>res v'. execute v = (Inr res, v')"
  shows "(\<exists>e fs. r = Inr (zero, Some e) \<and> w' = w\<lparr>w_faults := fs\<rparr>) \<or>
     (\<exists>fs tab x err v err'. acquire_lock (w_clock w) cid (vip_lock_id op newid) ''gmha-vip'' lockTTL (w_locks w) = Inr tab \<and>
        execute (w\<lparr>w_faults := fs, w_locks := tab\<rparr>) = (Inr (x, err), v) \<and> r = Inr (x, err') \<and>
        (err' = None \<longrightarrow> err = None) \<and> (w_faults w = [] \<longrightarrow> fs = []) \<and> logged v w' [])"
proof -
  let ?id = "vip_lock_id op newid"
  obtain ra u where acq: "AcquireFailoverLock cid ?id ''gmha-vip'' lockTTL w = (ra, u)" by fastforce
  from acq [unfolded AcquireFailoverLock_def] show ?thesis
  proof (cases rule: lock_statement_cases)
    case (error e fs)
    with run acq show ?thesis
      by (auto simp: withVIPOperationLock_def Let_def with_result_def)
  next
    case (ok fs tab)
    obtain x err v where ex: "execute u = (Inr (x, err), v)" using total [of u] by auto
    obtain lockErr y where ren: "renewals cid ?id (w_clock u) v = (Inr lockErr, y)" using renewals_ok by blast
    obtain rr z where rel: "ReleaseFailoverLock cid ?id y = (rr, z)" by fastforce
    have stable: "db_stable (\<lambda>y. logged v y [])" by (rule db_stableI) simp
    have "logged v y []" by (rule validD [OF preserves_lock_ops(3) _ ren]) (simp_all add: stable)
    then have "logged v z []" by (rule validD [OF preserves_lock_ops(2) _ rel, rotated 2]) (simp_all add: stable)
    moreover have "w' = z" "r = Inr (x, case lockErr of Some e \<Rightarrow> Some (Wrap ''the VIP operation lost the cluster lock and was stopped: %w'' [] e) | None \<Rightarrow> err)"
      using run acq ok ex ren rel
      by (auto simp: withVIPOperationLock_def Let_def with_result_def on_ok_def ignoring_run split: option.splits)
    moreover have "(case lockErr of Some e \<Rightarrow> Some (Wrap ''the VIP operation lost the cluster lock and was stopped: %w'' [] e) | None \<Rightarrow> err) = None \<longrightarrow> err = None"
      by (cases lockErr) auto
    ultimately show ?thesis using ok ex by metis
  qed
qed

lemma bindLocked_total: "\<exists>res w'. bindLocked (Some ag) cid target cfg w = (Inr res, w')"
  using bindLocked_effect by (metis prod.collapse)

definition offline_agent :: agent where
  "offline_agent log call = \<lparr>rp_Create = Inl (Error ''agent is offline''), rp_Wait = Inl (Error ''agent is offline''), rp_Elapsed = 0\<rparr>"

text \<open>C2: Whatever the agents answer and whichever statement fails, the calls a request to bind a VIP adds to
  the agent log are these, in this order. The VIP is withdrawn from every machine of the cluster, one after
  the other, up to the first failure. When all withdrawals succeeded, a scan follows; the bind is sent to the
  target only when that scan (for a VIP the scans of the cluster cover, i.e. an enabled configuration of the
  cluster) holds a successful probe of every machine of the cluster for the VIP, none of which found it.
  A bind that failed ends the run; a bind that succeeded is followed by two scans that each
  probed every machine and found the VIP on the target only, or by its withdrawal from
  the target, with nothing but scan and tracking calls in between. Success is reported only after
  those two scans, and only for a covered VIP.\<close>

theorem Bind_ordered:
  assumes "Bind (Some ag) newid cid target cfg w = (r, w')"
  shows "\<exists>res new. r = Inr res \<and> w_agent_log w' = w_agent_log w @ new \<and>
           bind_effect target cfg (vip_members cid w) (covered cid (vc_VIPAddress cfg) w) new res"
proof -
  from with_lock_run [OF assms [unfolded Bind_def] bindLocked_total] show ?thesis
  proof (elim disjE exE conjE)
    fix e fs assume "r = Inr (no_binding, Some e)" "w' = w\<lparr>w_faults := fs\<rparr>"
    then show ?thesis by (auto simp: bind_effect_def)
  next
    fix fs tab x err v err'
    let ?u = "w\<lparr>w_faults := fs, w_locks := tab\<rparr>"
    assume ex: "bindLocked (Some ag) cid target cfg ?u = (Inr (x, err), v)"
      and r: "r = Inr (x, err')" "err' = None \<longrightarrow> err = None" and last: "logged v w' []"
    have u: "logged w ?u []" by simp
    have tables: "vip_members cid ?u = vip_members cid w" "covered cid (vc_VIPAddress cfg) ?u = covered cid (vc_VIPAddress cfg) w"
      using vip_tables_logged [OF u] by (simp_all add: covered_def)
    from bindLocked_effect [OF ex] obtain new where "logged ?u v new"
      "bind_effect target cfg (vip_members cid w) (covered cid (vc_VIPAddress cfg) w) new (x, err)"
      unfolding tables by auto
    moreover from this(2) r(2) have "bind_effect target cfg (vip_members cid w) (covered cid (vc_VIPAddress cfg) w) new (x, err')"
      using bind_effect_error by blast
    moreover have "logged w w' new" using logged_trans [OF calculation(1) last] by simp
    ultimately show ?thesis using r by (auto simp: logged_def)
  qed
qed

text \<open>Two machines and an agent that lets the target hold the VIP from the bind on: the request succeeds.\<close>

definition carrying_agent :: agent where
  "carrying_agent log call =
     (let bound = list_ex (\<lambda>(c, _). case c of ExecTask _ _ _ op _ _ _ \<Rightarrow> op = ''vip_bind'' | _ \<Rightarrow> False) log;
          holds = (case call of ExecTask ip _ _ op _ _ _ \<Rightarrow> bound \<and> ip = ''10.0.0.2'' \<and> op = ''vip_scan'' | _ \<Rightarrow> False)
      in \<lparr>rp_Create = Inr ''task'', rp_Wait = Inr \<lparr>td_Status = StatusSuccess,
            td_Steps = (if holds then [vipScanMarker @ ''eth0''] else []), td_Events = []\<rparr>, rp_Elapsed = 1\<rparr>)"

definition carried_vip :: vip_config where
  "carried_vip = no_config\<lparr>vc_ID := 1, vc_ClusterID := ''c1'', vc_VIPAddress := ''10.0.0.9'', vc_Enabled := True,
     vc_VIPRouteMode := VipRouteModeL2ARP, vc_DefaultInterface := ''eth0''\<rparr>"

definition carrying_world :: world where
  "carrying_world = (empty_world 0)\<lparr>
     w_machines := [no_machine\<lparr>mach_ID := ''m1'', mach_IP := ''10.0.0.1'', mach_Cluster := ''c1''\<rparr>,
                    no_machine\<lparr>mach_ID := ''m2'', mach_IP := ''10.0.0.2'', mach_Cluster := ''c1''\<rparr>],
     w_configs := [carried_vip]\<rparr>"

lemma carried_run: "map_option snd (case fst (Bind (Some carrying_agent) ''fo-1'' ''c1'' ''m2'' carried_vip carrying_world) of
    Inr res \<Rightarrow> Some res | Inl _ \<Rightarrow> None) = Some None"
  by code_simp

theorem Bind_ordered_witness:
  "\<exists>st new. fst (Bind (Some carrying_agent) ''fo-1'' ''c1'' ''m2'' carried_vip carrying_world) = Inr (st, None) \<and>
     w_agent_log (snd (Bind (Some carrying_agent) ''fo-1'' ''c1'' ''m2'' carried_vip carrying_world)) = w_agent_log carrying_world @ new \<and>
     bind_effect ''m2'' carried_vip (vip_members ''c1'' carrying_world) (covered ''c1'' (vc_VIPAddress carried_vip) carrying_world) new (st, None)"
proof -
  obtain res new where *: "fst (Bind (Some carrying_agent) ''fo-1'' ''c1'' ''m2'' carried_vip carrying_world) = Inr res"
    "w_agent_log (snd (Bind (Some carrying_agent) ''fo-1'' ''c1'' ''m2'' carried_vip carrying_world)) = w_agent_log carrying_world @ new"
    "bind_effect ''m2'' carried_vip (vip_members ''c1'' carrying_world) (covered ''c1'' (vc_VIPAddress carried_vip) carrying_world) new res"
    using Bind_ordered [OF prod.collapse [symmetric], of carrying_agent "''fo-1''" "''c1''" "''m2''" carried_vip carrying_world] by (elim exE conjE)
  obtain st err where res: "res = (st, err)" by fastforce
  with carried_run *(1) have "err = None" by simp
  with * res show ?thesis by (intro exI conjI) simp_all
qed

end
