(* ===== verification/VIP_Rebind.thy ===== *)
theory VIP_Rebind
  imports VIP_Safety
begin

text \<open>
  The lock around the VIP operations, and what a stored expected holder does to a later bind.
\<close>

subsection \<open>Exclusion and release\<close>

text \<open>C27: While another operation of the cluster holds a live lease, a VIP operation does nothing: it
  returns an error and leaves the agents, the tables and the lease as they were.\<close>

theorem vip_operation_excluded:
  assumes "table_lease (w_locks w) cid = Some (j, e)" "lease_live (unix_sec (w_clock w)) e"
  shows "\<exists>err fs. withVIPOperationLock newid cid op zero execute w = (Inr (zero, Some err), w\<lparr>w_faults := fs\<rparr>)"
proof -
  let ?id = "vip_lock_id op newid"
  obtain ra u where acq: "AcquireFailoverLock cid ?id ''gmha-vip'' lockTTL w = (ra, u)" by fastforce
  from acq [unfolded AcquireFailoverLock_def] show ?thesis
  proof (cases rule: lock_statement_cases)
    case (ok fs tab)
    with failover_lock.acquire_blocked [OF assms] show ?thesis by (metis is_ok_simps(2))
  next
    case (error e fs)
    with acq show ?thesis by (auto simp: withVIPOperationLock_def Let_def with_result_def)
  qed
qed

definition held_world :: world where
  "held_world = (empty_world 0)\<lparr>w_locks := (\<lambda>_. None)(''c1'' := Some \<lparr>lr_failover_id = ''fo-1'',
     lr_lock_owner = ''gmha-manager'', lr_locked_at = 0, lr_expires_at = Some 600\<rparr>)\<rparr>"

theorem vip_operation_excluded_witness:
  "\<exists>err fs. Bind None ''fo-2'' ''c1'' ''m1'' no_config held_world = (Inr (no_binding, Some err), held_world\<lparr>w_faults := fs\<rparr>)"
  unfolding Bind_def
  by (rule vip_operation_excluded [where j = "''fo-1''" and e = "Some 600"])
     (simp_all add: held_world_def empty_world_def table_lease_def unix_sec_def)

text \<open>What everything inside the lock leaves alone.\<close>

definition op_stable :: "(world \<Rightarrow> bool) \<Rightarrow> bool" where
  "op_stable I \<longleftrightarrow> scan_stable I \<and> (\<forall>ag c. preserves I (send ag c)) \<and>
     (\<forall>w p n. I w \<longrightarrow> I (w\<lparr>w_policies := p, w_networks := n\<rparr>))"

lemma op_stableD:
  assumes "op_stable I"
  shows "scan_stable I" "preserves I (send ag c)" "db_stable I" "I w \<Longrightarrow> I (w\<lparr>w_policies := p, w_networks := n\<rparr>)"
  using assms by (simp_all add: op_stable_def scan_stable_def)

lemma preserves_runCommand:
  assumes "\<And>ag c. preserves I (send ag c)"
  shows "preserves I (runCommand tasks m op d s c)"
  unfolding runCommand_def by (intro op_rules assms) simp_all

lemma preserves_must_run:
  "(\<And>ag c. preserves I (send ag c)) \<Longrightarrow> preserves I (must_run tasks m op d s c)"
  unfolding must_run_def by (intro op_rules preserves_runCommand) simp_all

lemma preserves_bindLocked:
  assumes I: "op_stable I"
  shows "preserves I (bindLocked tasks cid target cfg)"
proof -
  note st = op_stableD [OF I]
  note cmd = preserves_runCommand [of I, OF st(2)] preserves_must_run [of I, OF st(2)]
  have round: "preserves I (verify_round tasks cid c t n)" for c t n
    unfolding verify_round_def rollback_bind_def Let_def
    by (intro op_rules cmd preserves_Scan preserves_upsert_binding st) simp_all
  have after: "preserves I (after_bind tasks cid c t tid)" for c t tid
    unfolding after_bind_def Let_def
    by (intro op_rules round preserves_upsert_binding preserves_oplog st) simp_all
  have tgt: "preserves I (bind_target tasks cid ms t c)" for ms t c
    unfolding bind_target_def withdraw_all_def withdraw_machine_def
    by (intro op_rules cmd after preserves_Scan preserves_upsert_binding st) simp_all
  show ?thesis
    unfolding bindLocked_def clusterMachines_def machines_List_def Select_interface_def ListMachineInterfaces_def Let_def
    by (intro op_rules tgt preserves_policies st) simp_all
qed

lemma op_stable_locks: "op_stable (\<lambda>w. w_faults w = [] \<and> w_locks w = L)"
  by (auto intro!: db_stable_no_faults simp: op_stable_def scan_stable_def valid_def send_def Let_def)

text \<open>Renewing keeps the lease with its holder.\<close>

definition holds_lease :: "string \<Rightarrow> string \<Rightarrow> world \<Rightarrow> bool" where
  "holds_lease cid lockID w \<longleftrightarrow> w_faults w = [] \<and> (\<exists>e. table_lease (w_locks w) cid = Some (lockID, e))"

lemma preserves_renewals: "preserves (holds_lease cid lockID) (renewals cid lockID start)"
proof -
  have "preserves (holds_lease cid lockID) (renew_at cid lockID t)" for t
  proof (rule validI)
    fix w r w' assume h: "holds_lease cid lockID w" and run: "renew_at cid lockID t w = (r, w')"
    then have w': "w' = w \<or> (\<exists>tab. renew_lock t cid lockID lockTTL (w_locks w) = Inr tab \<and> w' = w\<lparr>w_locks := tab\<rparr>)"
      by (auto simp: holds_lease_def renew_at_def on_ok_def split: sum.splits)
    then show "holds_lease cid lockID w'"
      using h failover_lock.renew_lease by (auto simp: holds_lease_def)
  qed
  then show ?thesis unfolding renewals_def by (intro op_rules)
qed

text \<open>When no statement fails, a bind that got its lock gives it back, whatever happened in between:
  afterwards any other operation can acquire the cluster at once.\<close>

theorem Bind_releases:
  assumes "w_faults w = []" "Bind (Some ag) newid cid target cfg w = (r, w')"
    and acq: "acquire_lock (w_clock w) cid (vip_lock_id ''bind'' newid) ''gmha-vip'' lockTTL (w_locks w) = Inr tab"
  shows "is_ok (acquire_lock t cid j own ttl (w_locks w'))"
proof -
  let ?id = "vip_lock_id ''bind'' newid"
  let ?u = "w\<lparr>w_locks := tab\<rparr>"
  have u: "AcquireFailoverLock cid ?id ''gmha-vip'' lockTTL w = (Inr (), ?u)"
    using assms by (simp add: AcquireFailoverLock_def lock_statement_def on_ok_def)
  have hu: "w_faults ?u = [] \<and> w_locks ?u = tab" using assms(1) by simp
  obtain rb v where b: "bindLocked (Some ag) cid target cfg ?u = (rb, v)" by fastforce
  have v: "w_faults v = [] \<and> w_locks v = tab"
    using validD [OF preserves_bindLocked [OF op_stable_locks] hu b] .
  then have hv: "holds_lease cid ?id v"
    using failover_lock.acquire_lease [OF acq] by (simp add: holds_lease_def)
  show ?thesis
  proof (cases rb)
    case (Inl e)
    with b bindLocked_total show ?thesis by (metis Inl_Inr_False prod.inject)
  next
    case (Inr res)
    obtain x err where res: "res = (x, err)" by fastforce
    obtain le y where ren: "renewals cid ?id (w_clock ?u) v = (Inr le, y)" using renewals_ok by blast
    have hy: "holds_lease cid ?id y" using validD [OF preserves_renewals hv ren] .
    then obtain e where lease: "table_lease (w_locks y) cid = Some (?id, e)" and "w_faults y = []"
      by (auto simp: holds_lease_def)
    then have "w' = y\<lparr>w_locks := release_lock cid ?id (w_locks y)\<rparr>"
      using assms(2) u b Inr res ren
      by (auto simp: Bind_def withVIPOperationLock_def Let_def with_result_def on_ok_def ignoring_run
                     ReleaseFailoverLock_def lock_statement_def split: option.splits)
    then show ?thesis using failover_lock.released_free [OF lease] by simp
  qed
qed

theorem Bind_releases_witness:
  "is_ok (acquire_lock 5 ''c1'' ''other'' ''gmha-manager'' (10 * minute)
     (w_locks (snd (Bind (Some (\<lambda>_ _. \<lparr>rp_Create = Inl (Error ''agent offline''), rp_Wait = Inl (Error ''agent offline''), rp_Elapsed = 0\<rparr>))
        ''fo-2'' ''c1'' ''m1'' no_config (empty_world 0)))))"
  by (rule Bind_releases [where w = "empty_world 0" and
        tab = "lock_insert 0 ''c1'' (vip_lock_id ''bind'' ''fo-2'') ''gmha-vip'' lockTTL (\<lambda>_. None)", OF _ prod.collapse [symmetric]])
     (simp_all add: empty_world_def acquire_lock_def)

subsection \<open>A bind to another machine\<close>

text \<open>The stored rows of the VIP name \<open>A\<close> as the expected holder; \<open>expects\<close> adds that no statement will fail.\<close>

definition recorded_holder :: "string \<Rightarrow> string \<Rightarrow> string \<Rightarrow> world \<Rightarrow> bool" where
  "recorded_holder cid vip A w \<longleftrightarrow>
     (\<exists>b \<in> set (w_bindings w). vb_ClusterID b = cid \<and> vb_VIPAddress b = vip) \<and>
     (\<forall>b \<in> set (w_bindings w). vb_ClusterID b = cid \<and> vb_VIPAddress b = vip \<longrightarrow> vb_ExpectedHolderMachineID b = A)"

definition expects :: "string \<Rightarrow> string \<Rightarrow> string \<Rightarrow> world \<Rightarrow> bool" where
  "expects cid vip A w \<longleftrightarrow> w_faults w = [] \<and>
     (\<exists>b \<in> set (w_bindings w). vb_ClusterID b = cid \<and> vb_VIPAddress b = vip) \<and>
     (\<forall>b \<in> set (w_bindings w). vb_ClusterID b = cid \<and> vb_VIPAddress b = vip \<longrightarrow> vb_ExpectedHolderMachineID b = A)"

lemma expects_recorded: "expects cid vip A w \<longleftrightarrow> w_faults w = [] \<and> recorded_holder cid vip A w"
  by (simp add: expects_def recorded_holder_def)

lemma db_stable_expects: "db_stable (expects cid vip A)"
  by (rule db_stable_no_faults) (simp add: expects_def)

lemma expects_send: "preserves (expects cid vip A) (send ag c)"
  by (simp add: valid_def send_def Let_def expects_def)

definition binding_key :: "vip_binding \<Rightarrow> string \<times> string" where
  "binding_key b = (vb_ClusterID b, vb_VIPAddress b)"

definition binding_keys :: "world \<Rightarrow> (string \<times> string) list" where
  "binding_keys w = map binding_key (w_bindings w)"

lemma same_key_iff: "same_binding_key b st \<longleftrightarrow> binding_key b = binding_key st"
  by (auto simp: same_binding_key_def binding_key_def)

lemma binding_row_key [simp]:
  "binding_key (binding_row t st) = binding_key st"
  "binding_key (binding_row t st\<lparr>vb_ID := i\<rparr>) = binding_key st"
  "binding_key (binding_row t st\<lparr>vb_ID := i, vb_CreatedAt := c\<rparr>) = binding_key st"
  by (simp_all add: binding_key_def binding_row_def)

text \<open>An upsert keeps the keys of the table and adds a missing one at the end.\<close>

lemma binding_keys_upsert:
  "binding_keys (upsert_binding_row st w) =
     (if binding_key st \<in> set (binding_keys w) then binding_keys w else binding_keys w @ [binding_key st])"
proof -
  have "(\<exists>b \<in> set (w_bindings w). same_binding_key b st) \<longleftrightarrow> binding_key st \<in> set (binding_keys w)"
    by (simp add: binding_keys_def same_key_iff image_iff) metis
  then show ?thesis
    unfolding upsert_binding_row_def Let_def binding_keys_def
    by (simp add: same_key_iff o_def cong: if_cong)
qed

lemma upsert_binding_rows:
  assumes "b \<in> set (w_bindings (upsert_binding_row st w))"
  shows "(b \<in> set (w_bindings w) \<and> binding_key b \<noteq> binding_key st) \<or>
         (binding_key b = binding_key st \<and> vb_ExpectedHolderMachineID b = vb_ExpectedHolderMachineID st)"
proof (cases "\<exists>b \<in> set (w_bindings w). same_binding_key b st")
  case True
  with assms have "b \<in> (\<lambda>b. if same_binding_key b st
      then (binding_row (w_clock w) st)\<lparr>vb_ID := vb_ID b, vb_CreatedAt := vb_CreatedAt b\<rparr> else b) ` set (w_bindings w)"
    by (simp add: upsert_binding_row_def Let_def)
  then show ?thesis by (auto simp: same_key_iff binding_row_def split: if_splits) (auto simp: binding_key_def)
next
  case False
  then have "w_bindings (upsert_binding_row st w) = w_bindings w @ [(binding_row (w_clock w) st)\<lparr>vb_ID := w_next_id w\<rparr>]"
    unfolding upsert_binding_row_def Let_def by (subst if_not_P) simp_all
  with assms have "b \<in> set (w_bindings w) \<or> b = (binding_row (w_clock w) st)\<lparr>vb_ID := w_next_id w\<rparr>" by auto
  with False show ?thesis by (auto simp: same_key_iff binding_row_def) (auto simp: binding_key_def)
qed

lemma expects_keys: "expects cid vip A w \<longleftrightarrow> w_faults w = [] \<and> (cid, vip) \<in> set (binding_keys w) \<and>
  (\<forall>b \<in> set (w_bindings w). binding_key b = (cid, vip) \<longrightarrow> vb_ExpectedHolderMachineID b = A)"
  by (auto simp: expects_def binding_keys_def binding_key_def image_iff)

lemma expects_upsert:
  assumes "expects cid vip A w"
    and "vb_ClusterID st = cid \<Longrightarrow> vb_VIPAddress st = vip \<Longrightarrow> vb_ExpectedHolderMachineID st = A"
  shows "expects cid vip A (upsert_binding_row st w)"
  unfolding expects_keys
proof (intro conjI ballI impI)
  show "w_faults (upsert_binding_row st w) = []" "(cid, vip) \<in> set (binding_keys (upsert_binding_row st w))"
    using assms(1) by (auto simp: expects_keys binding_keys_upsert)
  fix b assume "b \<in> set (w_bindings (upsert_binding_row st w))" "binding_key b = (cid, vip)"
  with upsert_binding_rows [of b st w] assms show "vb_ExpectedHolderMachineID b = A"
    by (auto simp: expects_keys binding_key_def)
qed

lemma expects_previous:
  assumes "expects cid vip A w" "trim_space cid = cid" "GetVIPBindingStates cid w = (Inr bs, w')"
  shows "expected_holder bs vip = A"
proof -
  have bs: "set bs = {b \<in> set (w_bindings w). vb_ClusterID b = cid}"
    using assms by (auto simp: expects_def GetVIPBindingStates_def)
  with assms(1) have some: "\<exists>b \<in> set bs. vb_VIPAddress b = vip"
    and all: "\<forall>b \<in> set bs. vb_VIPAddress b = vip \<longrightarrow> vb_ExpectedHolderMachineID b = A"
    by (auto simp: expects_def)
  show ?thesis
  proof (cases "find (\<lambda>b. vb_VIPAddress b = vip) (rev bs)")
    case None
    with some show ?thesis by (auto simp: find_None_iff)
  next
    case (Some b)
    then have "b \<in> set bs" "vb_VIPAddress b = vip"
      by (auto simp: find_Some_iff) (metis length_rev nth_mem set_rev)
    with Some all show ?thesis by (simp add: expected_holder_def)
  qed
qed

text \<open>A scan state of the VIP is never a confirmed binding to another machine than \<open>A\<close>.\<close>

definition keeps_holder :: "string \<Rightarrow> string \<Rightarrow> vip_binding list \<Rightarrow> bool" where
  "keeps_holder vip A sts \<longleftrightarrow> (\<forall>st \<in> set sts. vb_VIPAddress st = vip \<longrightarrow> vb_VIPStatus st = VipStatusBound \<longrightarrow>
     vb_CurrentHolderMachineID st = A)"

lemma scan_result_keeps:
  assumes "A \<noteq> []"
  shows "vb_ExpectedHolderMachineID (scan_result cid cfg parent A now hs) = A"
    "vb_VIPStatus (scan_result cid cfg parent A now hs) = VipStatusBound \<Longrightarrow>
     vb_CurrentHolderMachineID (scan_result cid cfg parent A now hs) = A"
  using assms by (auto simp: scan_result_def Let_def scan_status_def split: if_splits)

lemma scan_result_key [simp]:
  "vb_VIPAddress (scan_result cid cfg parent e now hs) = vc_VIPAddress cfg"
  "vb_ClusterID (scan_result cid cfg parent e now hs) = cid"
  by (simp_all add: scan_result_def Let_def)

lemma scan_config_expects:
  assumes "A \<noteq> []" "expected_holder prev vip = A"
  shows "valid (\<lambda>s. expects cid vip A (fst s) \<and> keeps_holder vip A out) (scan_config ag cid ms prev parent cfg out)
     (\<lambda>r s. case r of Inl e \<Rightarrow> expects cid vip A (fst s) | Inr out' \<Rightarrow> expects cid vip A (fst s) \<and> keeps_holder vip A out')"
proof (rule validI)
  fix s r s' assume P: "expects cid vip A (fst s) \<and> keeps_holder vip A out"
    and run: "scan_config ag cid ms prev parent cfg out s = (r, s')"
  have loop: "preserves (\<lambda>s. expects cid vip A (fst s))
      (fold_ok (scan_machine ag parent (vc_VIPAddress cfg)) (filter (\<lambda>m. mach_Cluster m = cid) ms) [])"
    unfolding scan_machine_def Let_def by (intro op_rules expects_send) simp_all
  obtain rh s1 where h: "fold_ok (scan_machine ag parent (vc_VIPAddress cfg)) (filter (\<lambda>m. mach_Cluster m = cid) ms) [] s = (rh, s1)"
    by (metis prod.collapse)
  have s1: "expects cid vip A (fst s1)" using validD [OF loop _ h] P by simp
  obtain w1 c1 where w1: "s1 = (w1, c1)" by (metis prod.collapse)
  show "case r of Inl e \<Rightarrow> expects cid vip A (fst s') | Inr out' \<Rightarrow> expects cid vip A (fst s') \<and> keeps_holder vip A out'"
  proof (cases rh)
    case (Inl e)
    with run h s1 show ?thesis by (auto simp: scan_config_def on_ok_def)
  next
    case (Inr hs)
    define st where "st = scan_result cid cfg parent (expected_holder prev (vc_VIPAddress cfg)) (w_clock w1) hs"
    have nf: "w_faults w1 = []" using s1 w1 by (simp add: expects_def)
    have row: "expects cid vip A (upsert_binding_row st w1)"
      using s1 w1 assms scan_result_keeps(1) [OF assms(1)] by (intro expects_upsert) (auto simp: st_def)
    have "r = Inr (out @ [st]) \<and> s' = ((upsert_binding_row st w1)\<lparr>w_oplog := w_oplog (upsert_binding_row st w1) @ [check_log cid (vc_VIPAddress cfg)]\<rparr>, c1)"
      using run h w1 Inr nf
      by (simp add: scan_config_def on_ok_def in_world_def Let_def with_result_def st_def [symmetric]
                    UpsertVIPBindingState_def InsertVIPOperationLog_def)
    moreover have "keeps_holder vip A (out @ [st])"
      using P assms scan_result_keeps(2) [OF assms(1)] by (auto simp: keeps_holder_def st_def)
    moreover have "expects cid vip A ((upsert_binding_row st w1)\<lparr>w_oplog := l\<rparr>)" for l
      using row by (simp add: expects_def)
    ultimately show ?thesis by simp
  qed
qed

lemma Scan_expects:
  assumes "expects cid vip A w" "A \<noteq> []" "trim_space cid = cid" "Scan (Some ag) cid w = (r, w')"
  shows "expects cid vip A w' \<and> (\<forall>sts. r = Inr sts \<longrightarrow> keeps_holder vip A sts)"
proof -
  have nf: "w_faults w = []" using assms(1) by (simp add: expects_def)
  obtain configs where cf: "ListVIPConfigs cid w = (Inr configs, w)"
    using nf by (simp add: ListVIPConfigs_def)
  obtain machines where ml: "machines_List w = (Inr machines, w)"
    using nf by (simp add: machines_List_def)
  obtain rep v where sd: "send ag (TrackingTask ''vip_scan'' ''scan the VIP bindings of the cluster'' cid) w = (Inr rep, v)"
    by (simp add: send_def Let_def)
  have v: "expects cid vip A v" using validD [OF expects_send assms(1) sd] .
  show ?thesis
  proof (cases "configs = []")
    case True
    with assms cf show ?thesis by (auto simp: Scan_def on_ok_def keeps_holder_def)
  next
    case False
    show ?thesis
    proof (cases "rp_Create rep")
      case (Inl e)
      with False assms(4) cf ml sd v show ?thesis by (auto simp: Scan_def on_ok_def)
    next
      case (Inr parent)
      obtain bs where gb: "GetVIPBindingStates cid v = (Inr bs, v)"
        using v by (simp add: GetVIPBindingStates_def expects_def)
      have prev: "expected_holder bs vip = A" using expects_previous [OF v assms(3) gb] .
      obtain rs u c where body: "fold_ok (scan_config ag cid machines bs parent) configs [] (v, (0, 0)) = (rs, (u, c))"
        by (metis prod.collapse)
      have "case rs of Inl e \<Rightarrow> expects cid vip A u | Inr sts \<Rightarrow> expects cid vip A u \<and> keeps_holder vip A sts"
        using validD [OF valid_fold_ok [where P = "\<lambda>out s. expects cid vip A (fst s) \<and> keeps_holder vip A out"
              and E = "\<lambda>s. expects cid vip A (fst s)", OF scan_config_expects [OF assms(2) prev]] _ body] v
        by (cases rs) (simp_all add: keeps_holder_def)
      moreover have "r = rs \<and> w' = snd (send ag (FinalizeTracking parent (fst c) (snd c)) u)"
        using False assms(4) cf ml sd Inr gb body
        by (simp add: Scan_def on_ok_def with_counts_def scan_body_def with_result_def in_world_def Let_def split: prod.splits)
      ultimately show ?thesis
        using expects_send [of cid vip A ag] by (auto simp: valid_def split: sum.splits) (metis prod.collapse)+
    qed
  qed
qed

lemma verify_round_rejects:
  assumes "expects cid (vc_VIPAddress cfg) A w" "A \<noteq> []" "A \<noteq> mach_ID target" "trim_space cid = cid"
    and "verify_round (Some ag) cid cfg target n w = (r, w')"
  shows "\<exists>st e. r = Inr (Inl (st, Some e))"
  using verify_round_run [OF assms(5)]
proof (elim disjE exE conjE)
  fix st sts obs assume "confirms cfg target st" "Scan (Some ag) cid w = (Inr sts, w')" "st \<in> set sts"
  with Scan_expects [OF assms(1,2,4)] assms(3) show ?thesis
    by (auto simp: confirms_def keeps_holder_def)
qed auto

lemma preserves_withdraw_all:
  "(\<And>ag c. preserves I (send ag c)) \<Longrightarrow> preserves I (withdraw_all tasks cfg ms)"
  unfolding withdraw_all_def withdraw_machine_def by (intro op_rules preserves_must_run)

lemma bind_target_rejects:
  assumes "expects cid (vc_VIPAddress cfg) A w" "A \<noteq> []" "A \<noteq> mach_ID target" "trim_space cid = cid"
    and run: "bind_target (Some ag) cid ms target cfg w = (r, w')"
  shows "\<exists>st e. r = Inr (st, Some e)"
proof -
  obtain rw v where wd: "withdraw_all (Some ag) cfg ms w = (rw, v)" by fastforce
  have v: "expects cid (vc_VIPAddress cfg) A v"
    using validD [OF preserves_withdraw_all [OF expects_send] assms(1) wd] .
  obtain rs x where scan: "Scan (Some ag) cid v = (rs, x)" by fastforce
  have x: "expects cid (vc_VIPAddress cfg) A x" using Scan_expects [OF v assms(2,4) scan] by blast
  obtain rb y where bind: "runCommand (Some ag) target ''vip_bind'' (''bind VIP '' @ vc_VIPAddress cfg)
      ''bind and announce the VIP'' (bind_command cfg target) x = (rb, y)" by fastforce
  have y: "expects cid (vc_VIPAddress cfg) A y"
    using validD [OF preserves_runCommand [OF expects_send] x bind] .
  obtain r1 z where round: "verify_round (Some ag) cid cfg target 1 y = (r1, z)" by fastforce
  obtain st1 e1 where r1: "r1 = Inr (Inl (st1, Some e1))"
    using verify_round_rejects [OF y assms(2-4) round] by blast
  obtain tid err where rb: "rb = Inr (tid, err)"
    using runCommand_run [of ag target "''vip_bind''" "''bind VIP '' @ vc_VIPAddress cfg"
        "''bind and announce the VIP''" "bind_command cfg target" x] bind by auto
  have after: "after_bind (Some ag) cid cfg target tid y = (Inr (st1, Some e1), z)"
    using round r1 by (simp add: after_bind_def on_ok_def)
  from run wd scan bind rb after show ?thesis
    by (auto simp: bind_target_def or_return_def with_result_def on_ok_def ignoring_run
             split: sum.splits option.splits)
qed

text \<open>C21: Once a machine is recorded as the expected holder of a VIP, a request to bind the VIP to any
  other machine of the cluster fails as long as no database statement of the request fails, even when every agent
  command succeeds: the scans keep the recorded holder, so the verification after the bind calls the
  right holder a mismatch and withdraws the VIP again. (A failure to read the stored bindings makes a scan forget
  the recorded holder, which is why failures are excluded.)\<close>

theorem Bind_other_machine_fails:
  assumes no_failure: "w_faults w = []" and recorded: "recorded_holder cid (vc_VIPAddress cfg) A w"
    and "A \<noteq> []" "A \<noteq> target" "trim_space cid = cid"
    and run: "Bind (Some ag) newid cid target cfg w = (r, w')"
  shows "\<exists>st e. r = Inr (st, Some e)"
proof -
  from with_lock_run [OF run [unfolded Bind_def] bindLocked_total] show ?thesis
  proof (elim disjE exE conjE)
    fix fs tab x err v err'
    assume ex: "bindLocked (Some ag) cid target cfg (w\<lparr>w_faults := fs, w_locks := tab\<rparr>) = (Inr (x, err), v)"
      and r: "r = Inr (x, err')" "err' = None \<longrightarrow> err = None"
      and fs: "w_faults w = [] \<longrightarrow> fs = []"
    have start: "expects cid (vc_VIPAddress cfg) A (w\<lparr>w_faults := fs, w_locks := tab\<rparr>)"
      using no_failure recorded fs by (simp add: expects_recorded recorded_holder_def)
    have "err \<noteq> None"
      using ex
    proof (cases rule: bindLocked_cases)
      case (refused st e)
      then show ?thesis by simp
    next
      case (run cfg' ms tgt u)
      have "expects cid (vc_VIPAddress cfg) A u"
        using run(2) db_stable_expects _ start by (rule reads_onlyD) (simp add: expects_def)
      then have "\<exists>st e. (Inr (x, err) :: vip_binding multi result) = Inr (st, Some e)"
        using bind_target_rejects [OF _ assms(3) _ assms(5) run(1)] run(3,7) assms(4) by simp
      then show ?thesis by auto
    qed
    with r show ?thesis by auto
  qed auto
qed

definition moved_world :: world where
  "moved_world = (empty_world 0)\<lparr>
     w_machines := [no_machine\<lparr>mach_ID := ''m1'', mach_Cluster := ''c1''\<rparr>, no_machine\<lparr>mach_ID := ''m2'', mach_Cluster := ''c1''\<rparr>],
     w_bindings := [no_binding\<lparr>vb_ClusterID := ''c1'', vb_VIPAddress := ''10.0.0.9'', vb_ExpectedHolderMachineID := ''m1''\<rparr>]\<rparr>"

definition obedient_agent :: agent where
  "obedient_agent _ _ = \<lparr>rp_Create = Inr ''task-1'', rp_Wait = Inr \<lparr>td_Status = StatusSuccess, td_Steps = [], td_Events = []\<rparr>, rp_Elapsed = 1\<rparr>"

theorem Bind_other_machine_fails_witness:
  "\<exists>st e. fst (Bind (Some obedient_agent) ''fo-2'' ''c1'' ''m2'' (no_config\<lparr>vc_VIPAddress := ''10.0.0.9''\<rparr>) moved_world) = Inr (st, Some e)"
  by (rule Bind_other_machine_fails [where A = "''m1''" and w = moved_world, OF _ _ _ _ _ prod.collapse [symmetric]])
     (simp_all add: recorded_holder_def moved_world_def empty_world_def no_binding_def no_config_def trim_space_def is_space_def char_code_def)

subsection \<open>Removal\<close>

definition delete_call :: "vip_config \<Rightarrow> string \<Rightarrow> machine \<Rightarrow> agent_call" where
  "delete_call cfg vip = machine_call ''vip_delete'' (''delete VIP '' @ vip)
     ''withdraw the VIP and verify its absence'' (withdraw_command cfg)"

lemma delete_all_run:
  assumes "delete_all (Some ag) cfg vip ms w = (Inr u, w')"
  shows "\<exists>reps. logged w w' (zip (map (delete_call cfg vip) ms) reps) \<and> length reps = length ms \<and> list_all exec_success reps"
  using run_on_all [OF assms [unfolded delete_all_def]] unfolding delete_call_def by auto

lemma removal_check_run:
  assumes "removal_check (Some ag) cid vip w = (Inr u, w')" "covered cid vip w"
  shows "\<exists>seen. logged w w' seen \<and> looked vip (vip_members cid w) seen []"
proof -
  obtain sts v where sc: "Scan (Some ag) cid w = (Inr sts, v)"
    and rest: "(case find (\<lambda>st. vb_VIPAddress st = vip \<and> vb_VIPStatus st \<noteq> VipStatusUnbound) sts of
         Some st \<Rightarrow> fail_with (Errorf ''VIP %s removal check failed, still held by %s'' [vip, vb_DetectedHolders st])
       | None \<Rightarrow> ignoring (InsertVIPOperationLog (delete_log cid vip)) (ret ())) v = (Inr u, w')"
    using on_ok_InrD [OF assms(1) [unfolded removal_check_def]] by blast
  have none: "find (\<lambda>st. vb_VIPAddress st = vip \<and> vb_VIPStatus st \<noteq> VipStatusUnbound) sts = None"
    using rest by (cases "find (\<lambda>st. vb_VIPAddress st = vip \<and> vb_VIPStatus st \<noteq> VipStatusUnbound) sts") simp_all
  obtain seen where seen: "logged w v seen" "list_all2 (seen_as cid (vip_members cid w) seen) (vip_listed cid w) sts"
    using Scan_log [OF sc] by blast
  have "looked vip (vip_members cid w) seen []"
    using unheld_looked [OF seen(2) _ none] assms(2) by (simp add: covered_def)
  moreover have "logged w w' seen" using rest none seen(1) by (auto simp: ignoring_run)
  ultimately show ?thesis by blast
qed

text \<open>The log of a removal: a confirmed withdrawal from every member, then a scan of all of them without a holder.\<close>

definition removed_everywhere :: "vip_config \<Rightarrow> string \<Rightarrow> machine list \<Rightarrow> agent_log \<Rightarrow> bool" where
  "removed_everywhere cfg vip ms new \<longleftrightarrow> (\<exists>reps seen. new = zip (map (delete_call cfg vip) ms) reps @ seen \<and>
     length reps = length ms \<and> list_all exec_success reps \<and> looked vip ms seen [])"

lemma removeLocked_run:
  assumes run: "removeLocked (Some ag) cid vip w = (Inr u, w')"
  shows "\<exists>cfg new. cfg \<in> set (vip_listed cid w) \<and> vc_VIPAddress cfg = vip \<and> logged w w' new \<and>
    removed_everywhere cfg vip (vip_members cid w) new"
proof -
  obtain configs v0 where lc: "ListVIPConfigs cid w = (Inr configs, v0)"
    and r0: "(let cfg = find_config vip configs
       in if vc_ID cfg = 0 then fail_with (Errorf ''VIP %s is not configured'' [vip])
          else on_ok (clusterMachines cid) (\<lambda>machines.
            on_ok (delete_all (Some ag) cfg vip machines) (\<lambda>_. removal_check (Some ag) cid vip))) v0 = (Inr u, w')"
    using on_ok_InrD [OF run [unfolded removeLocked_def]] by blast
  define cfg where "cfg = find_config vip configs"
  have id: "vc_ID cfg \<noteq> 0" using r0 by (auto simp: cfg_def Let_def)
  then have "find (\<lambda>c. vc_VIPAddress c = vip) configs = Some cfg"
    unfolding cfg_def find_config_def
    by (cases "find (\<lambda>c. vc_VIPAddress c = vip) configs") (simp_all add: no_config_def)
  then have cfg: "cfg \<in> set configs" "vc_VIPAddress cfg = vip" by (auto simp: find_Some_iff)
  have configs: "configs = vip_listed cid w" and v0: "logged w v0 []"
    using lc [unfolded ListVIPConfigs_def] by (cases rule: query_cases; simp add: vip_listed_def)+
  have mem: "cfg \<in> set (vip_listed cid w)" and cover: "covered cid vip w"
    using cfg by (auto simp: configs vip_listed_def covered_def)
  from r0 id have "on_ok (clusterMachines cid) (\<lambda>machines.
      on_ok (delete_all (Some ag) cfg vip machines) (\<lambda>_. removal_check (Some ag) cid vip)) v0 = (Inr u, w')"
    by (simp add: cfg_def [symmetric])
  from on_ok_InrD [OF this] obtain ms v1 where cm: "clusterMachines cid v0 = (Inr ms, v1)"
    and r1: "on_ok (delete_all (Some ag) cfg vip ms) (\<lambda>_. removal_check (Some ag) cid vip) v1 = (Inr u, w')" by blast
  from on_ok_InrD [OF r1] obtain u2 v2 where dl: "delete_all (Some ag) cfg vip ms v1 = (Inr u2, v2)"
    and r2: "removal_check (Some ag) cid vip v2 = (Inr u, w')" by blast
  have v1: "logged w v1 []" and ms: "ms = vip_members cid w"
    using clusterMachines_run [OF cm] logged_trans [OF v0, of v1 "[]"] vip_tables_logged [OF v0] by simp_all
  obtain reps where reps: "logged v1 v2 (zip (map (delete_call cfg vip) ms) reps)" "length reps = length ms" "list_all exec_success reps"
    using delete_all_run [OF dl] by blast
  have v2: "logged w v2 (zip (map (delete_call cfg vip) ms) reps)" using logged_trans [OF v1 reps(1)] by simp
  obtain seen where seen: "logged v2 w' seen" "looked vip ms seen []"
    using removal_check_run [OF r2] cover vip_tables_logged [OF v2] unfolding covered_def ms by auto
  have "removed_everywhere cfg vip (vip_members cid w) (zip (map (delete_call cfg vip) ms) reps @ seen)"
    unfolding removed_everywhere_def ms [symmetric] using reps(2,3) seen(2) by blast
  with mem cfg(2) logged_trans [OF v2 seen(1)] show ?thesis by blast
qed

lemma preserves_with_lock:
  assumes "db_stable I" "\<And>w tab. I w \<Longrightarrow> I (w\<lparr>w_locks := tab\<rparr>)" "preserves I execute"
  shows "preserves I (withVIPOperationLock newid cid op zero execute)"
  unfolding withVIPOperationLock_def Let_def
  by (intro op_rules preserves_lock_ops assms) simp_all

lemma preserves_removeLocked:
  assumes I: "op_stable I"
  shows "preserves I (removeLocked tasks cid vip)"
proof -
  note st = op_stableD [OF I]
  show ?thesis
    unfolding removeLocked_def ListVIPConfigs_def delete_all_def removal_check_def Let_def
    by (intro op_rules clusterMachines_preserves preserves_must_run preserves_Scan preserves_oplog st) simp_all
qed

lemma op_stable_configs: "op_stable (\<lambda>w. w_configs w = c)"
  by (auto intro!: db_stableI simp: op_stable_def scan_stable_def valid_def send_def Let_def)

lemma Remove_configs:
  assumes "Remove tasks newid cid vip w = (r, w')"
  shows "w_configs w' = w_configs w"
proof -
  have "preserves (\<lambda>w. w_configs w = c) (Remove tasks newid cid vip)" for c
    unfolding Remove_def
    by (intro preserves_with_lock op_rules preserves_removeLocked op_stable_configs op_stableD(3)) simp_all
  then show ?thesis by (rule frameD [where f = w_configs and m = "Remove tasks newid cid vip", OF _ assms])
qed

text \<open>C22: The stored configurations change in a request to delete a VIP only when the calls the request added to
  the agent log are these: for every machine of the cluster, in order, a withdrawal of the configured VIP
  that succeeded, and then a scan that probed every machine of the cluster for the VIP successfully and found it on none.\<close>

theorem RemoveVIPConfig_after_withdrawal:
  assumes run: "RemoveVIPConfig (Some ag) newid clusterID vipaddr w = (r, w')"
    and changed: "w_configs w' \<noteq> w_configs w"
  shows "\<exists>cfg new. cfg \<in> set (vip_listed (trim_space clusterID) w) \<and> vc_VIPAddress cfg = trim_space vipaddr \<and> w_agent_log w' = w_agent_log w @ new \<and>
    removed_everywhere cfg (trim_space vipaddr) (vip_members (trim_space clusterID) w) new"
proof -
  let ?cid = "trim_space clusterID" and ?vip = "trim_space vipaddr"
  obtain rr v where rm: "Remove (Some ag) newid ?cid ?vip w = (rr, v)" by fastforce
  note cf = Remove_configs [OF rm]
  have total: "\<exists>res v'. (with_result (removeLocked (Some ag) ?cid ?vip) (\<lambda>r.
          case r of Inl e \<Rightarrow> ret ((), Some e) | Inr _ \<Rightarrow> ret ((), None)) :: unit multi act) u = (Inr res, v')" for u
    by (auto simp: with_result_def split: prod.splits sum.splits)
  from with_lock_run [OF rm [unfolded Remove_def] total] show ?thesis
  proof (elim disjE exE conjE)
    fix e fs assume "rr = Inr ((), Some e)"
    with run rm cf changed show ?thesis by (auto simp: RemoveVIPConfig_def on_ok_def)
  next
    fix fs tab x err v' err'
    let ?u = "w\<lparr>w_faults := fs, w_locks := tab\<rparr>"
    assume ex: "with_result (removeLocked (Some ag) ?cid ?vip) (\<lambda>r.
          case r of Inl e \<Rightarrow> ret ((), Some e) | Inr _ \<Rightarrow> ret ((), None)) ?u = (Inr (x, err), v')"
      and rr: "rr = Inr (x, err')" "err' = None \<longrightarrow> err = None" and last: "logged v' v []"
    have ok: "err' = None"
      using run rm cf changed rr by (auto simp: RemoveVIPConfig_def on_ok_def split: option.splits)
    obtain rl y where rl: "removeLocked (Some ag) ?cid ?vip ?u = (rl, y)" by fastforce
    have y: "rl = Inr ()" "v' = y" using ex rl ok rr by (auto simp: with_result_def split: sum.splits)
    have u: "logged w ?u []" by simp
    obtain cfg new where *: "cfg \<in> set (vip_listed ?cid w)" "vc_VIPAddress cfg = ?vip" "logged ?u v' new"
      "removed_everywhere cfg ?vip (vip_members ?cid w) new"
      using removeLocked_run [OF rl [unfolded y(1)]] vip_tables_logged [OF u] unfolding y(2) by auto
    have "w_agent_log w' = w_agent_log v"
    proof -
      have "DeleteVIPConfig clusterID vipaddr v = (r, w')"
        using run rm rr ok by (simp add: RemoveVIPConfig_def on_ok_def)
      moreover have "preserves (\<lambda>w. w_agent_log w = c) (DeleteVIPConfig clusterID vipaddr)" for c
        unfolding DeleteVIPConfig_def DeleteVIPConfig_repo_def
        by (intro op_rules preserves_statement db_stableI) (simp_all add: delete_config_rows_def)
      ultimately show ?thesis using frameD [where f = w_agent_log] by metis
    qed
    with * logged_trans [OF *(3) last] show ?thesis by (auto simp: logged_def)
  qed
qed

definition removal_world :: world where
  "removal_world = (empty_world 0)\<lparr>
     w_machines := [no_machine\<lparr>mach_ID := ''m1'', mach_Cluster := ''c1''\<rparr>],
     w_configs := [no_config\<lparr>vc_ID := 1, vc_ClusterID := ''c1'', vc_VIPAddress := ''10.0.0.9'', vc_Enabled := True\<rparr>]\<rparr>"

lemma removal_run: "w_configs (snd (RemoveVIPConfig (Some obedient_agent) ''fo-3'' ''c1'' ''10.0.0.9'' removal_world)) = []"
  by code_simp

theorem RemoveVIPConfig_after_withdrawal_witness:
  "\<exists>cfg new. cfg \<in> set (vip_listed (trim_space ''c1'') removal_world) \<and> vc_VIPAddress cfg = trim_space ''10.0.0.9'' \<and>
     w_agent_log (snd (RemoveVIPConfig (Some obedient_agent) ''fo-3'' ''c1'' ''10.0.0.9'' removal_world)) = w_agent_log removal_world @ new \<and>
     removed_everywhere cfg (trim_space ''10.0.0.9'') (vip_members (trim_space ''c1'') removal_world) new"
  by (rule RemoveVIPConfig_after_withdrawal [OF prod.collapse [symmetric]])
     (simp only: removal_run, simp add: removal_world_def)

end
