(* ===== verification/Failover_Service.thy ===== *)
theory Failover_Service
  imports VIP_Rebind
begin

text \<open>
  The failover entry points of \<open>HAService\<close> in \<open>internal/app/ha_service.go\<close> (\<open>PlanFailover\<close>,
  \<open>StartFailover\<close>, \<open>GetFailover\<close>, \<open>fail\<close>) over the policy, lock and event operations of the
  repository. The random id of the failover is an argument.
\<close>

subsection \<open>Saving and reading events\<close>

lemma find_appended: "\<forall>x \<in> set xs. \<not> P x \<Longrightarrow> find P (xs @ [y]) = (if P y then Some y else None)"
  by (induction xs) auto

lemma find_new_event:
  assumes "\<forall>x \<in> set (w_events w). fe_FailoverID x \<noteq> fe_FailoverID e"
  shows "find (\<lambda>x. fe_ClusterID x = fe_ClusterID e \<and> fe_FailoverID x = fe_FailoverID e)
           (w_events (upsert_event_row e w)) = Some (event_row (w_clock w) e)"
proof -
  have "w_events (upsert_event_row e w) = w_events w @ [event_row (w_clock w) e]"
    using assms unfolding upsert_event_row_def Let_def by (subst if_not_P) auto
  with assms show ?thesis by (simp add: find_appended event_row_def)
qed

text \<open>An event saved under a new failover id is read back with every field unchanged, except that
  the times are cut to whole seconds and the update time (and a missing start) is the time of saving.\<close>

theorem failover_event_roundtrip:
  assumes "w_faults w = []" "\<forall>x \<in> set (w_events w). fe_FailoverID x \<noteq> fe_FailoverID e"
    and "SaveFailoverEvent e w = (r, v)"
  shows "r = Inr () \<and> fst (GetFailoverEvent (fe_ClusterID e) (fe_FailoverID e) v) =
           Inr (e\<lparr>fe_StartedAt := db_time (if fe_StartedAt e = 0 then w_clock w else fe_StartedAt e),
                  fe_UpdatedAt := db_time (w_clock w),
                  fe_FinishedAt := db_time (fe_FinishedAt e)\<rparr>, True)"
proof -
  have v: "r = Inr ()" "v = upsert_event_row e w"
    using assms(1,3) by (simp_all add: SaveFailoverEvent_def)
  have nf: "w_faults v = []" using v assms(1) by (simp add: upsert_event_row_def Let_def)
  have "find (\<lambda>x. fe_ClusterID x = fe_ClusterID e \<and> fe_FailoverID x = fe_FailoverID e) (w_events v) = Some (event_row (w_clock w) e)"
    using find_new_event [OF assms(2)] v(2) by simp
  moreover have "db_time 0 = 0" by (simp add: db_time_def unix_sec_def)
  ultimately show ?thesis
    using v(1) nf by (simp add: GetFailoverEvent_def on_ok_def event_row_def)
qed

theorem failover_event_roundtrip_witness:
  "fst (GetFailoverEvent [] ''fo-1'' (snd (SaveFailoverEvent (no_event\<lparr>fe_FailoverID := ''fo-1''\<rparr>) (empty_world (5 * second))))) =
   Inr (no_event\<lparr>fe_FailoverID := ''fo-1'', fe_StartedAt := 5 * second, fe_UpdatedAt := 5 * second\<rparr>, True)"
  using failover_event_roundtrip [of "empty_world (5 * second)" "no_event\<lparr>fe_FailoverID := ''fo-1''\<rparr>",
      OF _ _ prod.collapse [symmetric]]
  by (simp add: empty_world_def no_event_def db_time_def unix_sec_def)

subsection \<open>Planning and starting a failover\<close>

definition PlanFailover :: "string \<Rightarrow> string \<Rightarrow> failover_event act" where
  "PlanFailover newid cid =
     on_ok (GetFailoverPolicy cid) (\<lambda>policy.
     on_ok (gets w_clock) (\<lambda>now.
       ret (no_event\<lparr>fe_FailoverID := newid, fe_ClusterID := cid, fe_Mode := fp_FailoverMode policy,
              fe_SwitchStrategy := fp_SwitchStrategy policy, fe_Status := FailoverStatusInit,
              fe_Reason := ''plan only; no operations executed'', fe_StartedAt := now\<rparr>)))"

definition fail_event :: "failover_event \<Rightarrow> string \<Rightarrow> string \<Rightarrow> string \<Rightarrow> failover_event multi act" where
  "fail_event event reason riskLevel riskSummary =
     on_ok (gets w_clock) (\<lambda>now.
       let event = event\<lparr>fe_Status := FailoverStatusFailed, fe_Reason := reason, fe_RiskLevel := riskLevel,
                         fe_RiskSummary := riskSummary, fe_FinishedAt := now\<rparr>
       in with_result (SaveFailoverEvent event) (\<lambda>r.
            case r of Inl e \<Rightarrow> ret (event, Some e) | Inr _ \<Rightarrow> ret (event, None)))"

definition fence_or_stop :: "failover_policy \<Rightarrow> failover_event \<Rightarrow> failover_event multi act" where
  "fence_or_stop policy event =
     (let event = event\<lparr>fe_Status := FailoverStatusFenceOldMaster\<rparr>
      in if fp_RequireOldMasterFence policy
         then fail_event event ''old master fencing executor is not configured; automatic failover stopped by safe-wait-replay-auto''
                ''HIGH'' ''old master not fenced''
         else fail_event event ''failover execution requires live MySQL/Agent integrations; generated guard rails and stopped before unsafe promotion''
                ''MEDIUM'' [])"

definition StartFailover :: "string \<Rightarrow> string \<Rightarrow> failover_event multi act" where
  "StartFailover newid cid =
     or_return (PlanFailover newid cid) no_event (\<lambda>event.
     or_return (GetFailoverPolicy cid) event (\<lambda>policy.
       if \<not> fp_AutoFailoverEnabled policy
       then fail_event event ''auto failover is disabled by cluster policy'' ''HIGH'' []
       else if fp_SwitchStrategy policy \<noteq> DefaultSwitchStrategy
       then fail_event event (sprintf ''switch strategy %s is not implemented; default automatic strategy is safe-wait-replay-auto''
              [fp_SwitchStrategy policy]) ''HIGH'' []
       else
         let event = event\<lparr>fe_Status := FailoverStatusAcquireLock\<rparr>
         in or_return (SaveFailoverEvent event) event (\<lambda>_.
            with_result (AcquireFailoverLock cid (fe_FailoverID event) ''gmha-manager'' (10 * minute)) (\<lambda>r.
              case r of
                Inl e \<Rightarrow> fail_event event (error_text e) ''HIGH'' []
              | Inr _ \<Rightarrow> deferring (fence_or_stop policy event) (ReleaseFailoverLock cid (fe_FailoverID event))))))"

definition GetFailover :: "string \<Rightarrow> string \<Rightarrow> (failover_event \<times> bool) act" where
  "GetFailover cid fid = GetFailoverEvent cid fid"

subsection \<open>What a started failover does\<close>

definition untouched :: "world \<Rightarrow> agent_log \<times> vip_binding list \<times> vip_config list \<times> machine list \<times> instance_rec list" where
  "untouched w = (w_agent_log w, w_bindings w, w_configs w, w_machines w, w_instances w)"

text \<open>The shape of every event of a started failover.\<close>

definition stopped :: "failover_event \<Rightarrow> bool" where
  "stopped ev \<longleftrightarrow> fe_FinalNewMasterInstanceID ev = [] \<and> fe_FinalNewMasterMachineID ev = [] \<and>
     fe_FinalNewMasterIP ev = [] \<and> \<not> fe_VIPMoved ev \<and> \<not> fe_OldMasterFenced ev"

definition start_outcome :: "failover_event multi result \<Rightarrow> bool" where
  "start_outcome r \<longleftrightarrow> (\<exists>ev err. r = Inr (ev, err) \<and> stopped ev \<and> (err = None \<longrightarrow> fe_Status ev = FailoverStatusFailed))"

lemma preserves_untouched_event: "preserves (\<lambda>w. untouched w = c) (SaveFailoverEvent e)"
  unfolding SaveFailoverEvent_def
  by (intro preserves_statement db_stableI) (simp_all add: untouched_def upsert_event_row_def Let_def)

lemma preserves_start: "preserves (\<lambda>w. untouched w = c) (StartFailover newid cid)"
proof -
  have db: "db_stable (\<lambda>w. untouched w = c)" by (rule db_stableI) (simp add: untouched_def)
  have pol: "untouched w = c \<Longrightarrow> untouched (w\<lparr>w_policies := p, w_networks := n\<rparr>) = c"
    and tab: "untouched w = c \<Longrightarrow> untouched (w\<lparr>w_locks := t\<rparr>) = c" for w p n t
    by (simp_all add: untouched_def)
  show ?thesis
    unfolding StartFailover_def PlanFailover_def fail_event_def fence_or_stop_def Let_def
    by (intro op_rules preserves_policies preserves_lock_ops preserves_untouched_event db pol tab) simp_all
qed

lemma stopped_status [simp]: "stopped (ev\<lparr>fe_Status := s\<rparr>) = stopped ev"
  by (simp add: stopped_def)

text \<open>What a method returns in every state; the rules follow the structure of the method.\<close>

definition returns :: "('s, 'a) op \<Rightarrow> ('a result \<Rightarrow> bool) \<Rightarrow> bool" where
  "returns m Q \<longleftrightarrow> (\<forall>w. Q (fst (m w)))"

lemma returns_or_return:
  assumes "returns m R" "\<And>e. Q (Inr (d, Some e))" "\<And>x. R (Inr x) \<Longrightarrow> returns (f x) Q"
  shows "returns (or_return m d f) Q"
  unfolding returns_def
proof
  fix w
  obtain r v where m: "m w = (r, v)" by fastforce
  then have "R r" using assms(1) unfolding returns_def by (metis fst_conv)
  then show "Q (fst (or_return m d f w))"
    using m assms(2,3) by (cases r) (auto simp: or_return_def with_result_def returns_def)
qed

lemma returns_with_result: "(\<And>r. returns (f r) Q) \<Longrightarrow> returns (with_result m f) Q"
  by (simp add: returns_def with_result_def split: prod.splits)

lemma returns_deferring: "returns m Q \<Longrightarrow> returns (deferring m c) Q"
  by (simp add: returns_def deferring_def with_result_def split: prod.splits) (metis fst_conv)

lemma returns_any: "returns m (\<lambda>_. True)"
  by (simp add: returns_def)

lemma returns_fail_event:
  assumes "stopped ev"
  shows "returns (fail_event ev reason lvl summary) start_outcome"
  unfolding returns_def
proof
  fix w
  show "start_outcome (fst (fail_event ev reason lvl summary w))"
    using assms by (simp add: fail_event_def Let_def with_result_def start_outcome_def stopped_def split: prod.splits sum.splits)
qed

lemma returns_PlanFailover: "returns (PlanFailover newid cid) (\<lambda>r. case r of Inl _ \<Rightarrow> True | Inr ev \<Rightarrow> stopped ev)"
  unfolding returns_def PlanFailover_def
  by (simp add: on_ok_def stopped_def no_event_def split: prod.splits sum.splits)

lemma returns_StartFailover: "returns (StartFailover newid cid) start_outcome"
  unfolding StartFailover_def
proof (rule returns_or_return [OF returns_PlanFailover])
  show "start_outcome (Inr (no_event, Some e))" for e
    by (simp add: start_outcome_def stopped_def no_event_def)
next
  fix ev
  assume "case (Inr ev :: failover_event result) of Inl _ \<Rightarrow> True | Inr ev \<Rightarrow> stopped ev"
  then have ev: "stopped ev" by simp
  then have err: "start_outcome (Inr (ev\<lparr>fe_Status := s\<rparr>, Some e))" "start_outcome (Inr (ev, Some e))" for s e
    by (simp_all add: start_outcome_def)
  note fail = returns_fail_event [OF ev] returns_fail_event [of "ev\<lparr>fe_Status := s\<rparr>" for s, unfolded stopped_status, OF ev]
  have fence: "returns (fence_or_stop policy (ev\<lparr>fe_Status := s\<rparr>)) start_outcome" for policy s
    unfolding fence_or_stop_def Let_def using ev by (simp add: returns_fail_event)
  show "returns (or_return (GetFailoverPolicy cid) ev (\<lambda>policy.
       if \<not> fp_AutoFailoverEnabled policy
       then fail_event ev ''auto failover is disabled by cluster policy'' ''HIGH'' []
       else if fp_SwitchStrategy policy \<noteq> DefaultSwitchStrategy
       then fail_event ev (sprintf ''switch strategy %s is not implemented; default automatic strategy is safe-wait-replay-auto''
              [fp_SwitchStrategy policy]) ''HIGH'' []
       else
         let event = ev\<lparr>fe_Status := FailoverStatusAcquireLock\<rparr>
         in or_return (SaveFailoverEvent event) event (\<lambda>_.
            with_result (AcquireFailoverLock cid (fe_FailoverID event) ''gmha-manager'' (10 * minute)) (\<lambda>r.
              case r of
                Inl e \<Rightarrow> fail_event event (error_text e) ''HIGH'' []
              | Inr _ \<Rightarrow> deferring (fence_or_stop policy event) (ReleaseFailoverLock cid (fe_FailoverID event)))))) start_outcome"
    unfolding Let_def
    by (auto intro!: returns_or_return [OF returns_any] returns_with_result returns_deferring fence fail err split: sum.splits)
qed

text \<open>C28: A started failover never fails over: whatever the policy, the state of the lock and the database
  do, it sends nothing to any agent, changes no binding, configuration, machine or instance, and its
  event names no new master and, unless a database error is returned, has the status FAILED.\<close>

theorem StartFailover_never_promotes:
  assumes run: "StartFailover newid cid w = (r, w')"
  shows "start_outcome r \<and> untouched w' = untouched w"
proof
  show "untouched w' = untouched w"
    by (rule frameD [where f = untouched and m = "StartFailover newid cid", OF preserves_start run])
  show "start_outcome r"
    using returns_StartFailover [of newid cid] run unfolding returns_def by (metis fst_conv)
qed

theorem StartFailover_never_promotes_witness:
  "start_outcome (fst (StartFailover ''fo-1'' ''c1'' (empty_world 1))) \<and>
   untouched (snd (StartFailover ''fo-1'' ''c1'' (empty_world 1))) = untouched (empty_world 1)"
  by (rule StartFailover_never_promotes [OF prod.collapse [symmetric]])

end
