(* ===== verification/Mysql_Package.thy ===== *)
theory Mysql_Package
  imports Mysql_Version
begin

text \<open>
  The choice of an installation package in \<open>internal/mysql/package_selector.go\<close>. The listing of the
  software directory (names with their directory flag, in the order of \<open>os.ReadDir\<close>) and \<open>os.Stat\<close> are
  arguments; the joined path of a package is kept as its two parts.
\<close>

subsection \<open>File names\<close>

datatype glibc_version = Version (vMajor: int) (vMinor: int)

record package =
  pk_FileName :: string
  pk_FullPath :: "string \<times> string"
  pk_Version :: string
  pk_Arch :: string
  pk_GlibcVersion :: glibc_version

record package_option =
  po_FileName :: string
  po_Version :: string
  po_Arch :: string
  po_GlibcVersion :: string
  po_ReleaseTrack :: string
  po_PTToolsSupported :: bool
  po_RuntimeParameterGroups :: "parameter_field list list"

text \<open>\<open>atoiSafe\<close>: the digits as an \<open>int\<close> of 64 bits that wraps around, and 0 for anything else.\<close>

definition atoiSafe :: "string \<Rightarrow> int" where
  "atoiSafe v = (if list_all is_digit v
     then sint (foldl (\<lambda>n c. n * 10 + of_nat (char_code c - 48)) (0 :: 64 word) v) else 0)"

definition parseVersion :: "string \<Rightarrow> glibc_version result" where
  "parseVersion raw0 =
     (let raw = trim_space raw0
      in case split_on (CHR ''.'') raw of
           a # b # _ \<Rightarrow> Inr (Version (atoiSafe a) (atoiSafe b))
         | _ \<Rightarrow> Inl (Error (''invalid version: '' @ raw)))"

definition compareVersion :: "glibc_version \<Rightarrow> glibc_version \<Rightarrow> int" where
  "compareVersion a b =
     (if vMajor a \<noteq> vMajor b then (if vMajor a < vMajor b then -1 else 1)
      else if vMinor a \<noteq> vMinor b then (if vMinor a < vMinor b then -1 else 1)
      else 0)"

definition normalizeArch :: "string \<Rightarrow> string" where
  "normalizeArch v =
     (let a = to_lower (trim_space v)
      in if a = ''x86_64'' \<or> a = ''amd64'' then ''x86_64''
         else if a = ''arm64'' \<or> a = ''aarch64'' then ''aarch64''
         else a)"

text \<open>The parts before and after the first part that starts with \<open>glibc\<close>.\<close>

fun split_glibc :: "string list \<Rightarrow> (string \<times> string list) option" where
  "split_glibc [] = None"
| "split_glibc (p # ps) = (if has_prefix p ''glibc'' then Some (p, ps) else split_glibc ps)"

definition without_archive_suffix :: "string \<Rightarrow> string option" where
  "without_archive_suffix name =
     (if has_suffix name ''.tar.xz'' then Some (trim_suffix name ''.tar.xz'')
      else if has_suffix name ''.tar.gz'' then Some (trim_suffix name ''.tar.gz'')
      else if has_suffix name ''.tgz'' then Some (trim_suffix name ''.tgz'')
      else None)"

definition parsePackage :: "string \<Rightarrow> package option" where
  "parsePackage name =
     (if \<not> has_prefix name ''mysql-'' then None
      else (case without_archive_suffix name of
              None \<Rightarrow> None
            | Some trimmed \<Rightarrow>
                (let parts = split_on (CHR ''-'') trimmed
                 in if length parts < 5 then None
                    else (case split_glibc parts of
                            None \<Rightarrow> None
                          | Some (glibc, rest) \<Rightarrow>
                              if rest = [] then None
                              else (case parseVersion (trim_prefix glibc ''glibc'') of
                                      Inl _ \<Rightarrow> None
                                    | Inr v \<Rightarrow> Some \<lparr>pk_FileName = name, pk_FullPath = ([], []),
                                        pk_Version = parts ! 1, pk_Arch = join ''-'' rest, pk_GlibcVersion = v\<rparr>)))))"

text \<open>\<open>filepath.Base\<close>: the last element of a path.\<close>

definition filepath_Base :: "string \<Rightarrow> string" where
  "filepath_Base path =
     (if path = [] then ''.''
      else let p = rev (dropWhile (\<lambda>c. c = CHR ''/'') (rev path))
           in if p = [] then ''/'' else last (split_on (CHR ''/'') p))"

definition PackageVersion :: "string \<Rightarrow> string result" where
  "PackageVersion name =
     (case parsePackage (filepath_Base (trim_space name)) of
        None \<Rightarrow> Inl (Error ''invalid mysql package file name'')
      | Some item \<Rightarrow> Inr (pk_Version item))"

definition PackageArchitecture :: "string \<Rightarrow> string result" where
  "PackageArchitecture name =
     (case parsePackage (filepath_Base (trim_space name)) of
        None \<Rightarrow> Inl (Error ''invalid mysql package file name'')
      | Some item \<Rightarrow> Inr (normalizeArch (pk_Arch item)))"

definition NormalizeArchitecture :: "string \<Rightarrow> string" where
  "NormalizeArchitecture v = normalizeArch v"

subsection \<open>Selection\<close>

record package_selector =
  ps_softwareDir :: string

definition SetSoftwareDir :: "string \<Rightarrow> package_selector \<Rightarrow> package_selector" where
  "SetSoftwareDir dir s = s\<lparr>ps_softwareDir := dir\<rparr>"

definition currentSoftwareDir :: "package_selector \<Rightarrow> string" where
  "currentSoftwareDir s = ps_softwareDir s"

record machine_info =
  mi_Arch :: string
  mi_GlibcVersion :: string

type_synonym dir_listing = "(string \<times> bool) list"

definition firstNonEmpty :: "string \<Rightarrow> string \<Rightarrow> string" where
  "firstNonEmpty v fallback = (if trim_space v \<noteq> [] then v else fallback)"

definition mysql_version_of :: "string \<Rightarrow> mysqlVersion" where
  "mysql_version_of raw = (case parseMySQLVersion raw of Inl _ \<Rightarrow> MysqlVersion 0 0 0 | Inr v \<Rightarrow> v)"

definition usable_package :: "string \<Rightarrow> string \<Rightarrow> glibc_version \<Rightarrow> string \<times> bool \<Rightarrow> package option" where
  "usable_package wanted arch targetGlibc entry =
     (if snd entry then None
      else (case parsePackage (fst entry) of
              None \<Rightarrow> None
            | Some item \<Rightarrow>
                if \<not> is_ok (validateSupportedMySQLVersion (pk_Version item)) then None
                else if normalizeArch (pk_Arch item) \<noteq> arch then None
                else if wanted \<noteq> [] \<and> pk_Version item \<noteq> wanted then None
                else if compareVersion (pk_GlibcVersion item) targetGlibc > 0 then None
                else Some item))"

definition candidates ::
  "string \<Rightarrow> dir_listing \<Rightarrow> string \<Rightarrow> string \<Rightarrow> glibc_version \<Rightarrow> package list" where
  "candidates dir entries wanted arch targetGlibc =
     map (\<lambda>p. p\<lparr>pk_FullPath := (dir, pk_FileName p)\<rparr>)
       (List.map_filter (usable_package wanted arch targetGlibc) entries)"

text \<open>What the error names as available: the listing's packages of the architecture, directories included.\<close>

definition available_packages :: "dir_listing \<Rightarrow> string \<Rightarrow> string list" where
  "available_packages entries arch =
     stable_sort (\<lambda>a b. a < b) (List.map_filter (\<lambda>entry. case parsePackage (fst entry) of
         None \<Rightarrow> None
       | Some item \<Rightarrow> if normalizeArch (pk_Arch item) = arch
            then Some (sprintf ''%s/glibc%d.%d'' [pk_Version item, show_int (vMajor (pk_GlibcVersion item)),
                         show_int (vMinor (pk_GlibcVersion item))])
            else None) entries)"

definition better_package :: "package \<Rightarrow> package \<Rightarrow> bool" where
  "better_package a b =
     (let cmp = compareMySQLVersion (mysql_version_of (pk_Version a)) (mysql_version_of (pk_Version b))
      in if cmp \<noteq> 0 then cmp > 0
         else compareVersion (pk_GlibcVersion a) (pk_GlibcVersion b) > 0)"

definition SelectVersionArchitecture ::
  "package_selector \<Rightarrow> dir_listing result \<Rightarrow> machine_info \<Rightarrow> string \<Rightarrow> string \<Rightarrow> package result" where
  "SelectVersionArchitecture s listing info version0 architecture =
     (case listing of
        Inl e \<Rightarrow> Inl e
      | Inr entries \<Rightarrow>
          (let softwareDir = currentSoftwareDir s;
               targetArch = normalizeArch (mi_Arch info);
               requestedArch = (let a = normalizeArch architecture in if a = [] then targetArch else a);
               wanted = trim_space version0
           in if targetArch \<noteq> [] \<and> requestedArch \<noteq> targetArch
              then Inl (Errorf ''selected architecture %s is not compatible with target machine architecture %s'' [requestedArch, mi_Arch info])
              else
                case (if wanted = [] then Inr () else map_sum id (\<lambda>_. ()) (validateSupportedMySQLVersion wanted)) of
                  Inl e \<Rightarrow> Inl e
                | Inr _ \<Rightarrow>
                    (case parseVersion (mi_GlibcVersion info) of
                       Inl e \<Rightarrow> Inl e
                     | Inr targetGlibc \<Rightarrow>
                         (let cs = candidates softwareDir entries wanted requestedArch targetGlibc
                          in if cs = []
                             then Inl (Errorf ''no compatible local MySQL package: version=%s, architecture=%s, target glibc=%s; packages of the architecture=%s''
                                    [firstNonEmpty wanted ''automatic'', requestedArch, mi_GlibcVersion info,
                                     firstNonEmpty (join '', '' (available_packages entries requestedArch)) ''none''])
                             else Inr (hd (stable_sort better_package cs))))))"

definition Select_package :: "package_selector \<Rightarrow> dir_listing result \<Rightarrow> machine_info \<Rightarrow> package result" where
  "Select_package s listing info = SelectVersionArchitecture s listing info [] []"

definition SelectNamed ::
  "package_selector \<Rightarrow> (string \<times> string \<Rightarrow> go_error option) \<Rightarrow> machine_info \<Rightarrow> string \<Rightarrow> package result" where
  "SelectNamed s stat info fileName0 =
     (let fileName = filepath_Base (trim_space fileName0)
      in if fileName = [] \<or> fileName = ''.'' then Inl (Error ''package name is required'')
         else (case parsePackage fileName of
                 None \<Rightarrow> Inl (Error ''invalid mysql package file name'')
               | Some item \<Rightarrow>
                   (case validateSupportedMySQLVersion (pk_Version item) of
                      Inl e \<Rightarrow> Inl e
                    | Inr _ \<Rightarrow>
                        if normalizeArch (pk_Arch item) \<noteq> normalizeArch (mi_Arch info)
                        then Inl (Errorf ''mysql package %s is not compatible with target architecture %s'' [fileName, mi_Arch info])
                        else
                          (case parseVersion (mi_GlibcVersion info) of
                             Inl e \<Rightarrow> Inl e
                           | Inr targetGlibc \<Rightarrow>
                               if compareVersion (pk_GlibcVersion item) targetGlibc > 0
                               then Inl (Errorf ''mysql package %s requires glibc %d.%d but target is %s''
                                      [fileName, show_int (vMajor (pk_GlibcVersion item)), show_int (vMinor (pk_GlibcVersion item)), mi_GlibcVersion info])
                               else (case stat (currentSoftwareDir s, fileName) of
                                       Some e \<Rightarrow> Inl e
                                     | None \<Rightarrow> Inr (item\<lparr>pk_FullPath := (currentSoftwareDir s, fileName)\<rparr>))))))"

definition package_option_of :: "string \<times> bool \<Rightarrow> package_option option" where
  "package_option_of entry =
     (if snd entry then None
      else (case parsePackage (fst entry) of
              None \<Rightarrow> None
            | Some item \<Rightarrow>
                (case validateSupportedMySQLVersion (pk_Version item) of
                   Inl _ \<Rightarrow> None
                 | Inr v \<Rightarrow> Some \<lparr>po_FileName = pk_FileName item, po_Version = pk_Version item,
                     po_Arch = normalizeArch (pk_Arch item),
                     po_GlibcVersion = sprintf ''%d.%d'' [show_int (vMajor (pk_GlibcVersion item)), show_int (vMinor (pk_GlibcVersion item))],
                     po_ReleaseTrack = mysqlReleaseTrack v, po_PTToolsSupported = SupportsPerconaToolkit (pk_Version item),
                     po_RuntimeParameterGroups =
                       (case RuntimeParameterGroupsForVersion (pk_Version item) of Inl _ \<Rightarrow> [] | Inr gs \<Rightarrow> gs)\<rparr>)))"

definition option_before :: "package_option \<Rightarrow> package_option \<Rightarrow> bool" where
  "option_before a b =
     (let cmp = compareMySQLVersion (mysql_version_of (po_Version a)) (mysql_version_of (po_Version b))
      in if cmp \<noteq> 0 then cmp > 0 else po_FileName a > po_FileName b)"

definition ListOptions :: "dir_listing result \<Rightarrow> package_option list result" where
  "ListOptions listing =
     (case listing of
        Inl e \<Rightarrow> Inl e
      | Inr entries \<Rightarrow> Inr (stable_sort option_before (List.map_filter package_option_of entries)))"

subsection \<open>The chosen package\<close>

lemma better_package_iff:
  "better_package a b \<longleftrightarrow>
     mysql_version_of (pk_Version b) < mysql_version_of (pk_Version a) \<or>
     mysql_version_of (pk_Version a) = mysql_version_of (pk_Version b) \<and>
       compareVersion (pk_GlibcVersion a) (pk_GlibcVersion b) > 0"
  by (auto simp: better_package_def Let_def)

lemma compareVersion_pos:
  "compareVersion a b > 0 \<longleftrightarrow> vMajor b < vMajor a \<or> vMajor b = vMajor a \<and> vMinor b < vMinor a"
  by (auto simp: compareVersion_def)

interpretation package_order: weak_order better_package
  by unfold_locales (auto simp: better_package_iff compareVersion_pos)

text \<open>What a machine can install from the listing.\<close>

definition installable :: "dir_listing \<Rightarrow> machine_info \<Rightarrow> string \<Rightarrow> string \<Rightarrow> package \<Rightarrow> bool" where
  "installable entries info wanted architecture p \<longleftrightarrow>
     (pk_FileName p, False) \<in> set entries \<and> parsePackage (pk_FileName p) = Some (p\<lparr>pk_FullPath := ([], [])\<rparr>) \<and>
     is_ok (validateSupportedMySQLVersion (pk_Version p)) \<and>
     normalizeArch (pk_Arch p) = (if normalizeArch architecture = [] then normalizeArch (mi_Arch info) else normalizeArch architecture) \<and>
     (trim_space wanted \<noteq> [] \<longrightarrow> pk_Version p = trim_space wanted) \<and>
     (\<exists>g. parseVersion (mi_GlibcVersion info) = Inr g \<and> \<not> compareVersion (pk_GlibcVersion p) g > 0)"

lemma parsePackage_name: "parsePackage name = Some p \<Longrightarrow> pk_FileName p = name"
  by (auto simp: parsePackage_def Let_def split: if_splits option.splits prod.splits sum.splits)

lemma parsePackage_path: "parsePackage name = Some p \<Longrightarrow> pk_FullPath p = ([], [])"
  by (auto simp: parsePackage_def Let_def split: if_splits option.splits prod.splits sum.splits)

lemma in_map_filter: "y \<in> set (List.map_filter f xs) \<longleftrightarrow> (\<exists>x \<in> set xs. f x = Some y)"
  by (force simp: List.map_filter_def)

lemma usable_package_iff:
  "usable_package wanted arch g e = Some item \<longleftrightarrow>
     \<not> snd e \<and> parsePackage (fst e) = Some item \<and> is_ok (validateSupportedMySQLVersion (pk_Version item)) \<and>
     normalizeArch (pk_Arch item) = arch \<and> (wanted \<noteq> [] \<longrightarrow> pk_Version item = wanted) \<and>
     \<not> compareVersion (pk_GlibcVersion item) g > 0"
  by (auto simp: usable_package_def split: option.splits)

lemma candidates_iff:
  "p \<in> set (candidates dir entries wanted arch g) \<longleftrightarrow>
     (\<exists>item. usable_package wanted arch g (pk_FileName p, False) = Some item \<and>
             (pk_FileName p, False) \<in> set entries \<and> p = item\<lparr>pk_FullPath := (dir, pk_FileName p)\<rparr>)"
proof -
  have "usable_package wanted arch g e = Some item \<Longrightarrow> e = (pk_FileName item, False)" for e item
    using parsePackage_name by (cases e) (auto simp: usable_package_iff)
  then show ?thesis
    unfolding candidates_def set_map image_iff in_map_filter Bex_def by force
qed

lemma with_path: "pk_FullPath item = ([], []) \<Longrightarrow>
  p = item\<lparr>pk_FullPath := path\<rparr> \<longleftrightarrow> item = p\<lparr>pk_FullPath := ([], [])\<rparr> \<and> pk_FullPath p = path"
  by (cases p; cases item) auto

lemma candidates_installable:
  assumes "parseVersion (mi_GlibcVersion info) = Inr g"
    and "arch = (if normalizeArch architecture = [] then normalizeArch (mi_Arch info) else normalizeArch architecture)"
  shows "p \<in> set (candidates dir entries (trim_space wanted) arch g) \<longleftrightarrow>
     installable entries info wanted architecture p \<and> pk_FullPath p = (dir, pk_FileName p)"
proof -
  have "p \<in> set (candidates dir entries (trim_space wanted) arch g) \<longleftrightarrow>
     (\<exists>item. usable_package (trim_space wanted) arch g (pk_FileName p, False) = Some item \<and>
             (pk_FileName p, False) \<in> set entries \<and> item = p\<lparr>pk_FullPath := ([], [])\<rparr> \<and> pk_FullPath p = (dir, pk_FileName p))"
    unfolding candidates_iff using with_path [OF parsePackage_path] usable_package_iff by blast
  then show ?thesis unfolding usable_package_iff installable_def using assms by auto
qed

definition requested_arch :: "machine_info \<Rightarrow> string \<Rightarrow> string" where
  "requested_arch info architecture =
     (if normalizeArch architecture = [] then normalizeArch (mi_Arch info) else normalizeArch architecture)"

definition request_ok :: "machine_info \<Rightarrow> string \<Rightarrow> string \<Rightarrow> bool" where
  "request_ok info wanted architecture \<longleftrightarrow>
     (normalizeArch (mi_Arch info) = [] \<or> requested_arch info architecture = normalizeArch (mi_Arch info)) \<and>
     (trim_space wanted = [] \<or> is_ok (validateSupportedMySQLVersion (trim_space wanted)))"

lemma select_run:
  "SelectVersionArchitecture s (Inr entries) info wanted architecture = Inr p \<longleftrightarrow>
     request_ok info wanted architecture \<and>
     (\<exists>g. parseVersion (mi_GlibcVersion info) = Inr g \<and>
        (let cs = candidates (ps_softwareDir s) entries (trim_space wanted) (requested_arch info architecture) g
         in cs \<noteq> [] \<and> p = hd (stable_sort better_package cs)))"
proof (cases "trim_space wanted = [] \<or> is_ok (validateSupportedMySQLVersion (trim_space wanted))")
  case True
  then have "(if trim_space wanted = [] then Inr () else map_sum id (\<lambda>_. ()) (validateSupportedMySQLVersion (trim_space wanted))) = Inr ()"
    by (auto simp: is_ok_def split: sum.splits)
  with True show ?thesis
    unfolding SelectVersionArchitecture_def request_ok_def requested_arch_def currentSoftwareDir_def Let_def
    by (auto split: sum.splits)
next
  case False
  then obtain e where "(if trim_space wanted = [] then Inr () else map_sum id (\<lambda>_. ()) (validateSupportedMySQLVersion (trim_space wanted))) = Inl e"
    by (auto simp: is_ok_def split: sum.splits)
  with False show ?thesis
    unfolding SelectVersionArchitecture_def request_ok_def Let_def by simp
qed

lemma candidates_wanted:
  assumes "parseVersion (mi_GlibcVersion info) = Inr g"
  shows "q \<in> set (candidates dir entries (trim_space wanted) (requested_arch info architecture) g) \<longleftrightarrow>
     installable entries info wanted architecture q \<and> pk_FullPath q = (dir, pk_FileName q)"
  by (rule candidates_installable [OF assms]) (simp add: requested_arch_def)

lemma installable_path: "installable entries info wanted architecture q \<Longrightarrow>
  installable entries info wanted architecture (q\<lparr>pk_FullPath := path\<rparr>)"
  by (simp add: installable_def)

lemma better_path [simp]: "better_package (q\<lparr>pk_FullPath := path\<rparr>) p = better_package q p"
  by (simp add: better_package_def)

text \<open>The selected package is a plain file of the software directory that the machine can run (same CPU
  architecture, glibc not newer than the machine's) with a supported version, the requested one if
  one is requested, and no other installable package of the directory is newer, or as new with a
  newer glibc.\<close>

theorem selected_package_best:
  assumes "SelectVersionArchitecture s (Inr entries) info wanted architecture = Inr p"
  shows "installable entries info wanted architecture p \<and> pk_FullPath p = (ps_softwareDir s, pk_FileName p) \<and>
         (\<forall>q. installable entries info wanted architecture q \<longrightarrow> \<not> better_package q p)"
proof -
  from assms obtain g cs where g: "parseVersion (mi_GlibcVersion info) = Inr g"
    and cs: "cs = candidates (ps_softwareDir s) entries (trim_space wanted) (requested_arch info architecture) g"
    and p: "cs \<noteq> []" "p = hd (stable_sort better_package cs)"
    unfolding select_run Let_def by (elim conjE exE) simp
  have mem: "q \<in> set cs \<longleftrightarrow> installable entries info wanted architecture q \<and> pk_FullPath q = (ps_softwareDir s, pk_FileName q)" for q
    unfolding cs by (rule candidates_wanted [OF g])
  have "stable_sort better_package cs \<noteq> []" using p(1) by simp
  then have "p \<in> set cs" using p(2) hd_in_set [of "stable_sort better_package cs"] by simp
  moreover have "\<not> better_package q p" if "installable entries info wanted architecture q" for q
  proof -
    have "q\<lparr>pk_FullPath := (ps_softwareDir s, pk_FileName q)\<rparr> \<in> set cs"
      unfolding mem using installable_path [OF that] by simp
    from package_order.hd_stable_sort_least [OF this] show ?thesis using p(2) by simp
  qed
  ultimately show ?thesis unfolding mem by blast
qed

text \<open>A package is found exactly when the request is consistent (a requested architecture is the machine's,
  a requested version is a supported one) and the directory holds an installable package.\<close>

theorem package_found_iff:
  "(\<exists>p. SelectVersionArchitecture s (Inr entries) info wanted architecture = Inr p) \<longleftrightarrow>
   request_ok info wanted architecture \<and> (\<exists>q. installable entries info wanted architecture q)"
proof -
  have "candidates dir entries (trim_space wanted) (requested_arch info architecture) g \<noteq> [] \<longleftrightarrow>
      (\<exists>q. installable entries info wanted architecture q)" if "parseVersion (mi_GlibcVersion info) = Inr g" for dir g
  proof
    assume "candidates dir entries (trim_space wanted) (requested_arch info architecture) g \<noteq> []"
    then show "\<exists>q. installable entries info wanted architecture q"
      using candidates_wanted [OF that] hd_in_set by blast
  next
    assume "\<exists>q. installable entries info wanted architecture q"
    then obtain q where "installable entries info wanted architecture (q\<lparr>pk_FullPath := (dir, pk_FileName q)\<rparr>)"
      using installable_path by blast
    then have "q\<lparr>pk_FullPath := (dir, pk_FileName q)\<rparr> \<in> set (candidates dir entries (trim_space wanted) (requested_arch info architecture) g)"
      by (simp add: candidates_wanted [OF that])
    then show "candidates dir entries (trim_space wanted) (requested_arch info architecture) g \<noteq> []" by auto
  qed
  moreover have "installable entries info wanted architecture q \<Longrightarrow> \<exists>g. parseVersion (mi_GlibcVersion info) = Inr g" for q
    by (auto simp: installable_def)
  ultimately show ?thesis unfolding select_run Let_def by blast
qed

definition old_host :: machine_info where
  "old_host = \<lparr>mi_Arch = ''amd64'', mi_GlibcVersion = ''2.17''\<rparr>"

definition software_dir :: dir_listing where
  "software_dir = [(''mysql-8.0.40-linux-glibc2.17-x86_64.tar.xz'', False), (''mysql-8.4.3-linux-glibc2.28-x86_64.tar.xz'', False)]"

lemma old_host_choice:
  "SelectVersionArchitecture \<lparr>ps_softwareDir = ''/opt''\<rparr> (Inr software_dir) old_host [] [] =
   Inr \<lparr>pk_FileName = ''mysql-8.0.40-linux-glibc2.17-x86_64.tar.xz'', pk_FullPath = (''/opt'', ''mysql-8.0.40-linux-glibc2.17-x86_64.tar.xz''),
     pk_Version = ''8.0.40'', pk_Arch = ''x86_64'', pk_GlibcVersion = Version 2 17\<rparr>"
  by code_simp

theorem selected_package_best_witness:
  "\<exists>p. SelectVersionArchitecture \<lparr>ps_softwareDir = ''/opt''\<rparr> (Inr software_dir) old_host [] [] = Inr p \<and>
       pk_Version p = ''8.0.40'' \<and> installable software_dir old_host [] [] p"
  using old_host_choice selected_package_best [OF old_host_choice] by auto

subsection \<open>Names are read back\<close>

definition package_name :: "string \<Rightarrow> nat \<Rightarrow> nat \<Rightarrow> string \<Rightarrow> string" where
  "package_name ver a b arch =
     ''mysql-'' @ ver @ ''-linux-glibc'' @ show_nat a @ ''.'' @ show_nat b @ ''-'' @ arch @ ''.tar.xz''"

lemma has_prefix_append [simp, go_string]: "has_prefix (p @ s) p"
  by (simp add: has_prefix_def)

lemma has_suffix_append [simp, go_string]: "has_suffix (s @ p) p"
  by (simp add: has_suffix_def)

lemma trim_suffix_append [simp, go_string]: "trim_suffix (s @ p) p = s"
  by (simp add: trim_suffix_def)

lemma trim_prefix_append [simp, go_string]: "trim_prefix (p @ s) p = s"
  by (simp add: trim_prefix_def)

lemma foldl_of_nat:
  "list_all is_digit s \<Longrightarrow>
   foldl (\<lambda>n c. n * 10 + of_nat (char_code c - 48)) (of_nat k) s = (of_nat (foldl (\<lambda>n c. n * 10 + (char_code c - 48)) k s) :: 64 word)"
proof (induction s arbitrary: k)
  case (Cons c s)
  have "of_nat k * 10 + of_nat (char_code c - 48) = (of_nat (k * 10 + (char_code c - 48)) :: 64 word)" by simp
  with Cons show ?case by (simp del: of_nat_add of_nat_mult)
qed simp

lemma atoiSafe_show: "n < 2 ^ 63 \<Longrightarrow> atoiSafe (show_nat n) = int n"
proof -
  assume n: "n < 2 ^ 63"
  have "foldl (\<lambda>n c. n * 10 + of_nat (char_code c - 48)) (0 :: 64 word) (show_nat n) = of_nat (digits_value (show_nat n))"
    using foldl_of_nat [OF show_nat_digits, of 0 n] by (simp add: digits_value_def)
  then have "atoiSafe (show_nat n) = sint (of_nat n :: 64 word)"
    by (simp add: atoiSafe_def show_nat_digits)
  also have "\<dots> = int n" using n by (simp add: signed_of_nat signed_take_bit_int_eq_self)
  finally show ?thesis .
qed

lemma not_digit [simp]: "\<not> is_digit (CHR ''.'')" "\<not> is_digit (CHR ''-'')"
  by (simp_all add: is_digit_def char_code_def)

lemma digit_no_space: "is_digit c \<Longrightarrow> \<not> is_space c"
  by (auto simp: is_digit_def is_space_def char_code_def)

lemma parseVersion_show:
  assumes "a < 2 ^ 63" "b < 2 ^ 63"
  shows "parseVersion (show_nat a @ ''.'' @ show_nat b) = Inr (Version (int a) (int b))"
proof -
  have "CHR ''.'' \<notin> set (show_nat a)" "CHR ''.'' \<notin> set (show_nat b)" using show_nat_chars not_digit(1) by blast+
  then have "split_on (CHR ''.'') (show_nat a @ CHR ''.'' # show_nat b) = [show_nat a, show_nat b]"
    by (simp add: split_on_append split_on_no_sep)
  moreover have "trim_space (show_nat a @ ''.'' @ show_nat b) = show_nat a @ ''.'' @ show_nat b"
    by (rule trim_space_id) (auto dest!: show_nat_chars digit_no_space simp: is_space_def)
  ultimately show ?thesis using atoiSafe_show [OF assms(1)] atoiSafe_show [OF assms(2)] by (simp add: parseVersion_def)
qed

text \<open>The name of a package built from a version, a glibc version and an architecture is parsed back into
  exactly these parts; in particular an architecture that itself contains dashes is kept whole.\<close>

theorem parsePackage_name_roundtrip:
  assumes "CHR ''-'' \<notin> set ver" "\<not> has_prefix ver ''glibc''" "a < 2 ^ 63" "b < 2 ^ 63"
  shows "parsePackage (package_name ver a b arch) =
    Some \<lparr>pk_FileName = package_name ver a b arch, pk_FullPath = ([], []), pk_Version = ver, pk_Arch = arch,
          pk_GlibcVersion = Version (int a) (int b)\<rparr>"
proof -
  let ?g = "''glibc'' @ show_nat a @ ''.'' @ show_nat b"
  let ?t = "''mysql'' @ CHR ''-'' # (ver @ CHR ''-'' # (''linux'' @ CHR ''-'' # (?g @ CHR ''-'' # arch)))"
  have name: "package_name ver a b arch = ?t @ ''.tar.xz''" by (simp add: package_name_def)
  have g: "CHR ''-'' \<notin> set ?g"
    using show_nat_chars [of "CHR ''-''" a] show_nat_chars [of "CHR ''-''" b] by auto
  have words: "CHR ''-'' \<notin> set ''mysql''" "CHR ''-'' \<notin> set ''linux''" by simp_all
  have parts: "split_on (CHR ''-'') ?t = [''mysql'', ver, ''linux'', ?g] @ split_on (CHR ''-'') arch"
    unfolding split_on_append [OF words(1)] split_on_append [OF words(2)] split_on_append [OF assms(1)] split_on_append [OF g]
    by (simp only: append_Cons append_Nil)
  have "split_on (CHR ''-'') arch \<noteq> []" by simp
  moreover have glibc: "split_glibc ([''mysql'', ver, ''linux'', ?g] @ ws) = Some (?g, ws)" for ws
    using assms(2) by (simp add: has_prefix_def)
  moreover have "without_archive_suffix (package_name ver a b arch) = Some ?t"
    unfolding name without_archive_suffix_def by (simp only: has_suffix_append if_True trim_suffix_append)
  moreover have "has_prefix (package_name ver a b arch) ''mysql-''" by (simp add: package_name_def has_prefix_def)
  moreover have "length ([''mysql'', ver, ''linux'', ?g] @ split_on (CHR ''-'') arch) \<ge> 5"
    using split_on_nonempty [of "CHR ''-''" arch] by (cases "split_on (CHR ''-'') arch") auto
  moreover have "parseVersion (trim_prefix ?g ''glibc'') = Inr (Version (int a) (int b))"
    unfolding trim_prefix_append by (rule parseVersion_show [OF assms(3,4)])
  ultimately show ?thesis
    unfolding parsePackage_def Let_def parts glibc
    by (simp only: if_False if_True option.case not_less [symmetric] not_True_eq_False not_False_eq_True prod.case sum.case parts glibc join_split_on
        nth_append nth_Cons) simp
qed

theorem parsePackage_name_roundtrip_witness:
  "parsePackage (package_name ''8.0.40'' 2 17 ''x86_64-minimal'') =
    Some \<lparr>pk_FileName = package_name ''8.0.40'' 2 17 ''x86_64-minimal'', pk_FullPath = ([], []), pk_Version = ''8.0.40'',
          pk_Arch = ''x86_64-minimal'', pk_GlibcVersion = Version 2 17\<rparr>"
  using parsePackage_name_roundtrip [of "''8.0.40''" 2 17 "''x86_64-minimal''"] by (simp add: has_prefix_def)

end
