(* ===== verification/Task_Channels.thy ===== *)
theory Task_Channels
  imports GM_Prelude
begin

text \<open>
  The live agent connections of \<open>TaskService\<close> (\<open>internal/app/task_service.go\<close>): registration, removal and the
  two questions asked of them before work is planned. A connection is identified by a number; a map
  is a partial function.
\<close>

record task_channels =
  tc_agents :: "string \<Rightarrow> nat option"
  tc_agentMachines :: "string \<Rightarrow> string option"
  tc_machineAgents :: "string \<Rightarrow> string option"
  tc_agentCaps :: "string \<Rightarrow> string list option"

definition no_channels :: task_channels where
  "no_channels = \<lparr>tc_agents = (\<lambda>_. None), tc_agentMachines = (\<lambda>_. None), tc_machineAgents = (\<lambda>_. None),
     tc_agentCaps = (\<lambda>_. None)\<rparr>"

definition get_string :: "(string \<Rightarrow> string option) \<Rightarrow> string \<Rightarrow> string" where
  "get_string m k = (case m k of None \<Rightarrow> [] | Some v \<Rightarrow> v)"

definition RegisterAgentForMachineWithCapabilities ::
  "string \<Rightarrow> string \<Rightarrow> nat \<Rightarrow> string list \<Rightarrow> task_channels \<Rightarrow> task_channels" where
  "RegisterAgentForMachineWithCapabilities agentID machineID0 conn capabilities s0 =
     (let machineID = trim_space machineID0;
          s = s0\<lparr>tc_agents := (tc_agents s0)(agentID := Some conn)\<rparr>;
          previous = get_string (tc_agentMachines s) agentID;
          s = (if previous \<noteq> [] \<and> previous \<noteq> machineID
               then s\<lparr>tc_machineAgents := (tc_machineAgents s)(previous := None)\<rparr> else s);
          s = (if machineID \<noteq> []
               then s\<lparr>tc_agentMachines := (tc_agentMachines s)(agentID := Some machineID),
                      tc_machineAgents := (tc_machineAgents s)(machineID := Some agentID)\<rparr> else s)
      in if capabilities = [] then s\<lparr>tc_agentCaps := (tc_agentCaps s)(agentID := None)\<rparr>
         else s\<lparr>tc_agentCaps := (tc_agentCaps s)(agentID :=
                Some (filter (\<lambda>c. c \<noteq> []) (map trim_space capabilities)))\<rparr>)"

definition RegisterAgentWithCapabilities :: "string \<Rightarrow> nat \<Rightarrow> string list \<Rightarrow> task_channels \<Rightarrow> task_channels" where
  "RegisterAgentWithCapabilities agentID conn capabilities =
     RegisterAgentForMachineWithCapabilities agentID [] conn capabilities"

definition RegisterAgent :: "string \<Rightarrow> nat \<Rightarrow> task_channels \<Rightarrow> task_channels" where
  "RegisterAgent agentID conn = RegisterAgentWithCapabilities agentID conn []"

definition UnregisterAgent :: "string \<Rightarrow> nat \<Rightarrow> task_channels \<Rightarrow> task_channels" where
  "UnregisterAgent agentID conn s0 =
     (if tc_agents s0 agentID = Some conn then
        (let s = s0\<lparr>tc_agents := (tc_agents s0)(agentID := None), tc_agentCaps := (tc_agentCaps s0)(agentID := None)\<rparr>;
             machineID = get_string (tc_agentMachines s) agentID;
             s = (if machineID \<noteq> [] then s\<lparr>tc_machineAgents := (tc_machineAgents s)(machineID := None)\<rparr> else s)
         in s\<lparr>tc_agentMachines := (tc_agentMachines s)(agentID := None)\<rparr>)
      else s0)"

definition agent_of_machine :: "task_channels \<Rightarrow> string \<Rightarrow> string" where
  "agent_of_machine s machineID0 =
     (let machineID = trim_space machineID0; agentID = get_string (tc_machineAgents s) machineID
      in if agentID = [] then ''agent-'' @ machineID else agentID)"

definition has_cap :: "task_channels \<Rightarrow> string \<Rightarrow> string \<Rightarrow> bool" where
  "has_cap s agentID capability = (case tc_agentCaps s agentID of None \<Rightarrow> False | Some cs \<Rightarrow> capability \<in> set cs)"

definition MachineCapability :: "string \<Rightarrow> string \<Rightarrow> task_channels \<Rightarrow> bool \<times> string" where
  "MachineCapability machineID capability s =
     (let agentID = agent_of_machine s machineID
      in if tc_agents s agentID = None then (False, ''the agent is not connected to the task channel'')
         else if \<not> has_cap s agentID capability
         then (False, ''the agent is too old and lacks the secure injection of MySQL credentials'')
         else (True, []))"

definition MachineAgentReady :: "string \<Rightarrow> task_channels \<Rightarrow> bool \<times> string" where
  "MachineAgentReady machineID s =
     (if tc_agents s (agent_of_machine s machineID) = None
      then (False, ''the agent is not connected to the task channel'') else (True, []))"

subsection \<open>What a registration gives\<close>

lemma register_lookup:
  assumes "trim_space m \<noteq> []"
  shows "tc_machineAgents (RegisterAgentForMachineWithCapabilities a m conn caps s) (trim_space m) = Some a"
    "tc_agentMachines (RegisterAgentForMachineWithCapabilities a m conn caps s) a = Some (trim_space m)"
    "tc_agents (RegisterAgentForMachineWithCapabilities a m conn caps s) b = (if b = a then Some conn else tc_agents s b)"
    "has_cap (RegisterAgentForMachineWithCapabilities a m conn caps s) a c \<longleftrightarrow> c \<noteq> [] \<and> c \<in> trim_space ` set caps"
  using assms by (auto simp: has_cap_def RegisterAgentForMachineWithCapabilities_def Let_def)

lemma unregister_lookup:
  assumes "tc_agents s a = Some conn" "tc_agentMachines s a = Some m" "m \<noteq> []"
  shows "tc_machineAgents (UnregisterAgent a conn s) m = None"
    "tc_agents (UnregisterAgent a conn s) b = (if b = a then None else tc_agents s b)"
  using assms by (simp_all add: UnregisterAgent_def Let_def get_string_def)

text \<open>Registering an agent for a machine makes exactly the capabilities it declares (trimmed, blanks dropped)
  available on the machine, and nothing of an earlier registration survives; when its connection is
  removed and no agent has the machine's default id, the machine is not ready.\<close>

theorem registered_capabilities:
  assumes "trim_space m \<noteq> []" "a \<noteq> []" "r = RegisterAgentForMachineWithCapabilities a m conn caps s"
  shows "(fst (MachineCapability m c r) \<longleftrightarrow> c \<noteq> [] \<and> c \<in> trim_space ` set caps) \<and>
         (fst (MachineAgentReady m (UnregisterAgent a conn r)) \<longrightarrow>
            ''agent-'' @ trim_space m \<noteq> a \<and> tc_agents s (''agent-'' @ trim_space m) \<noteq> None)"
proof
  note look = register_lookup [OF assms(1), where a = a and conn = conn and caps = caps and s = s, folded assms(3)]
  from look(1) assms(2) have "agent_of_machine r m = a" by (simp add: agent_of_machine_def get_string_def)
  with look(3,4) show "fst (MachineCapability m c r) \<longleftrightarrow> c \<noteq> [] \<and> c \<in> trim_space ` set caps"
    by (simp add: MachineCapability_def)
  have "tc_agents r a = Some conn" by (simp add: look(3))
  note un = unregister_lookup [OF this look(2) assms(1)]
  from un look(3) show "fst (MachineAgentReady m (UnregisterAgent a conn r)) \<longrightarrow>
      ''agent-'' @ trim_space m \<noteq> a \<and> tc_agents s (''agent-'' @ trim_space m) \<noteq> None"
    by (auto simp: MachineAgentReady_def agent_of_machine_def get_string_def split: if_splits)
qed

theorem registered_capabilities_witness:
  "fst (MachineCapability ''m1'' ''defaults_file'' (RegisterAgentForMachineWithCapabilities ''a1'' ''m1'' 7 ['' defaults_file ''] no_channels)) \<and>
   \<not> fst (MachineAgentReady ''m1'' (UnregisterAgent ''a1'' 7 (RegisterAgentForMachineWithCapabilities ''a1'' ''m1'' 7 ['' defaults_file ''] no_channels)))"
  using registered_capabilities [of "''m1''" "''a1''" _ 7 "['' defaults_file '']" no_channels "''defaults_file''", OF _ _ refl]
  by (simp add: no_channels_def trim_space_def is_space_def)

text \<open>An agent that has been replaced on its machine still removes the machine's entry when its old
  connection ends: the machine then looks unconnected although the new agent is there.\<close>

theorem late_unregister_hides_machine:
  assumes "trim_space m \<noteq> []" "a \<noteq> b" "b \<noteq> ''agent-'' @ trim_space m" "tc_agents s (''agent-'' @ trim_space m) = None"
  shows "\<not> fst (MachineAgentReady m (UnregisterAgent a ca
           (RegisterAgentForMachineWithCapabilities b m cb caps (RegisterAgentForMachineWithCapabilities a m ca caps' s))))"
proof -
  let ?r = "RegisterAgentForMachineWithCapabilities a m ca caps' s"
  let ?q = "RegisterAgentForMachineWithCapabilities b m cb caps ?r"
  have "tc_agentMachines ?q a = Some (trim_space m)"
    using assms(2) register_lookup(2) [OF assms(1)]
    by (simp add: RegisterAgentForMachineWithCapabilities_def Let_def)
  moreover have "tc_agents ?q a = Some ca" using assms(2) by (simp add: register_lookup(3) [OF assms(1)])
  ultimately have "tc_machineAgents (UnregisterAgent a ca ?q) (trim_space m) = None"
    "tc_agents (UnregisterAgent a ca ?q) (''agent-'' @ trim_space m) = None"
    using unregister_lookup [of ?q a ca "trim_space m"] assms by (auto simp: register_lookup(3) [OF assms(1)])
  then show ?thesis by (simp add: MachineAgentReady_def agent_of_machine_def get_string_def)
qed

theorem late_unregister_hides_machine_witness:
  "\<not> fst (MachineAgentReady ''m1'' (UnregisterAgent ''a1'' 7
      (RegisterAgentForMachineWithCapabilities ''a2'' ''m1'' 8 [] (RegisterAgentForMachineWithCapabilities ''a1'' ''m1'' 7 [] no_channels))))"
  by (rule late_unregister_hides_machine) (simp_all add: no_channels_def trim_space_def is_space_def)

end
