(* ===== verification/Arch_Plan.thy ===== *)
theory Arch_Plan
  imports Candidate_Selection HA_Repo Task_Channels
begin

text \<open>
  The read-only planning of an architecture adjustment (\<open>internal/app/architecture_planner.go\<close>): validation
  of the request, the scores of the target nodes, the ordered steps, and \<open>PlanArchitectureAdjustment\<close> which
  puts them together. A step is built with order 0 and numbered at the end, as the code does; its Chinese
  name and description are left out. \<open>s.tasks == nil\<close> is the argument \<open>None\<close> for the task channels. The
  Go map of the instances of the cluster by machine is a function to lists.
\<close>

subsection \<open>The request\<close>

abbreviation role_of :: "arch_node \<Rightarrow> string" where
  "role_of node \<equiv> to_upper (trim_space (an_Role node))"

text \<open>The loop over the nodes: the machines seen so far, and the number of masters and independents.\<close>

fun check_nodes :: "arch_node list \<Rightarrow> string list \<Rightarrow> nat \<Rightarrow> nat \<Rightarrow> (string list \<times> nat \<times> nat) result" where
  "check_nodes [] seen masters independents = Inr (seen, masters, independents)"
| "check_nodes (node # nodes) seen masters independents =
     (if trim_space (an_MachineID node) = [] then Inl (Error ''node machine_id is required'')
      else if an_MachineID node \<in> set seen
      then Inl (Errorf ''machine %s selected more than once'' [an_MachineID node])
      else let seen = an_MachineID node # seen
      in if an_DelaySeconds node < 0
      then Inl (Errorf ''delay_seconds for machine %s cannot be negative'' [an_MachineID node])
      else let role = role_of node
      in if role \<noteq> ''M'' \<and> role \<noteq> ''S'' \<and> role \<noteq> ''I''
      then Inl (Errorf ''node %s role must be M, S or I'' [an_MachineID node])
      else if role = ''M'' then
        (if an_DelaySeconds node > 0
         then Inl (Errorf ''master candidate %s cannot be a delayed replica'' [an_MachineID node])
         else check_nodes nodes seen (masters + 1) independents)
      else if role = ''I'' then
        (if an_SourceMachineID node \<noteq> [] \<or> an_DelaySeconds node \<noteq> 0
         then Inl (Errorf ''independent node %s cannot have a replication source or delay'' [an_MachineID node])
         else check_nodes nodes seen masters (independents + 1))
      else check_nodes nodes seen masters independents)"

definition check_vip_only :: "arch_request \<Rightarrow> go_error option" where
  "check_vip_only req =
     (if \<not> ar_VIPOnly req then None
      else if trim_space (ar_PreferredNewMasterMachineID req) = []
      then Some (Error ''VIP-only workflow requires a target master'')
      else if \<exists>node \<in> set (ar_Nodes req). an_MachineID node = ar_PreferredNewMasterMachineID req \<and>
                 equal_fold (trim_space (an_Role node)) ''M''
      then None
      else Some (Error ''VIP-only target must be a master in the target topology''))"

definition check_counts :: "arch_request \<Rightarrow> nat \<Rightarrow> nat \<Rightarrow> go_error option" where
  "check_counts req masters independents =
     (if ar_Architecture req = ArchitectureStandalone then
        (if independents \<noteq> length (ar_Nodes req) \<or> masters \<noteq> 0
         then Some (Error ''standalone architecture requires every node to use independent role I'')
         else if ar_MoveVIP req then Some (Error ''standalone architecture cannot own or migrate a shared VIP'')
         else None)
      else if independents \<noteq> 0 then Some (Error ''replicated architectures cannot contain independent role I'')
      else if ar_Architecture req = ArchitectureMasterSlave \<and> masters \<noteq> 1
      then Some (Error ''master_slave requires exactly one master'')
      else if ar_Architecture req = ArchitectureDualMaster \<and> masters \<noteq> 2
      then Some (Error ''dual-master architecture requires exactly two masters'')
      else if ar_Architecture req = ArchitectureMultiMaster \<and> masters < 3
      then Some (Error ''multi-master architecture requires at least three masters'')
      else None)"

definition known_architecture :: "arch_request \<Rightarrow> bool" where
  "known_architecture req \<longleftrightarrow>
     ar_Architecture req \<in> {ArchitectureStandalone, ArchitectureMasterSlave, ArchitectureDualMaster, ArchitectureMultiMaster}"

definition validateArchitectureRequest :: "arch_request \<Rightarrow> go_error option" where
  "validateArchitectureRequest req =
     (if \<not> known_architecture req
      then Some (Errorf ''unsupported architecture %s'' [ar_Architecture req])
      else case check_nodes (ar_Nodes req) [] 0 0 of
        Inl e \<Rightarrow> Some e
      | Inr (seen, masters, independents) \<Rightarrow>
          (if ar_CurrentMasterMachineID req \<noteq> [] \<and> ar_CurrentMasterMachineID req \<notin> set seen
           then Some (Error ''current master must be included in target nodes'')
           else if ar_InitializeVIP req \<and> \<not> ar_MoveVIP req
           then Some (Error ''VIP initialization requires move_vip'')
           else if ar_InitializeVIP req \<and> ar_CurrentMasterMachineID req \<noteq> []
           then Some (Error ''VIP initialization cannot declare a current master'')
           else if ar_VIPOnly req \<and> \<not> ar_MoveVIP req
           then Some (Error ''VIP-only workflow requires move_vip'')
           else if ar_VIPOnly req \<and> ar_Architecture req = ArchitectureStandalone
           then Some (Error ''VIP-only workflow requires a replicated architecture'')
           else if check_vip_only req \<noteq> None then check_vip_only req
           else if ar_MoveVIP req \<and> ar_CurrentMasterMachineID req \<noteq> [] \<and> \<not> ar_InitializeVIP req \<and>
                   ar_PreferredNewMasterMachineID req = ar_CurrentMasterMachineID req
           then Some (Error ''VIP migration requires a different target master; the current master already owns the traffic endpoint'')
           else check_counts req masters independents))"

subsection \<open>Candidate scores\<close>

definition architectureInstanceForNode :: "arch_node \<Rightarrow> instance_rec list \<Rightarrow> instance_rec option" where
  "architectureInstanceForNode node instances =
     (if an_Port node > 0 then find (\<lambda>i. inst_Port i = an_Port node) instances
      else if length instances = 1 then Some (hd instances) else None)"

definition node_server_count :: "(string \<Rightarrow> instance_rec list) \<Rightarrow> arch_node list \<Rightarrow> int \<Rightarrow> nat" where
  "node_server_count instances nodes sid =
     length (filter (\<lambda>node. case architectureInstanceForNode node (instances (an_MachineID node)) of
        None \<Rightarrow> False | Some i \<Rightarrow> inst_ServerID i = sid) nodes)"

definition reject :: "string \<Rightarrow> candidate \<Rightarrow> candidate" where
  "reject reason score = score\<lparr>cs_Eligible := False, cs_RejectReasons := cs_RejectReasons score @ [reason]\<rparr>"

definition reject_when :: "bool \<Rightarrow> string \<Rightarrow> candidate \<Rightarrow> candidate" where
  "reject_when b reason score = (if b then reject reason score else score)"

abbreviation million :: int where "million \<equiv> 1000000"

definition node_score ::
  "string \<Rightarrow> arch_request \<Rightarrow> (string \<Rightarrow> machine option) \<Rightarrow> (string \<Rightarrow> instance_rec list) \<Rightarrow> arch_node \<Rightarrow> candidate" where
  "node_score clusterID req machines instances node =
     (let machineOK = machines (an_MachineID node) \<noteq> None;
          m = map_get no_machine machines (an_MachineID node);
          inst = architectureInstanceForNode node (instances (an_MachineID node));
          score = no_candidate\<lparr>cs_ClusterID := clusterID, cs_MachineID := an_MachineID node,
            cs_Hostname := mach_Name m, cs_IP := mach_IP m, cs_Port := an_Port node, cs_Eligible := True,
            cs_DataFreshnessScore := 100, cs_RelayReceivedScore := 100, cs_RelayExecutedScore := 100,
            cs_HealthScore := 100, cs_DelaySeconds := an_DelaySeconds node,
            cs_ElectionPriority := an_ElectionPriority node, cs_CanBindVIP := True\<rparr>;
          score = (case inst of None \<Rightarrow> score
            | Some i \<Rightarrow> score\<lparr>cs_InstanceID := instanceID i,
                             cs_Port := (if cs_Port score \<le> 0 then inst_Port i else cs_Port score)\<rparr>);
          score = reject_when (\<not> machineOK \<or> inst = None)
            ''machine or MySQL instance is not registered in this cluster'' score;
          score = (case inst of None \<Rightarrow> score
            | Some i \<Rightarrow> if inst_Status i \<noteq> [] \<and> \<not> equal_fold (inst_Status i) StatusRunning
                       then reject ''instance is not running'' (score\<lparr>cs_HealthScore := 0\<rparr>) else score);
          score = (case inst of None \<Rightarrow> score
            | Some i \<Rightarrow> reject_when (node_server_count instances (ar_Nodes req) (inst_ServerID i) > 1)
                         ''server_id is not unique'' score);
          score = reject_when (an_DelaySeconds node > 0) ''delayed replica cannot be elected automatically'' score;
          score = reject_when (ar_Architecture req \<noteq> ArchitectureStandalone \<and> \<not> equal_fold (trim_space (an_Role node)) ''M'')
            ''target role is replica and cannot be promoted'' score;
          score = reject_when (ar_Architecture req \<noteq> ArchitectureStandalone \<and> ar_CurrentMasterMachineID req \<noteq> [] \<and>
              an_MachineID node = ar_CurrentMasterMachineID req \<and>
              ar_PreferredNewMasterMachineID req \<noteq> ar_CurrentMasterMachineID req)
            ''candidate is current master'' score
      in if ar_PreferredNewMasterMachineID req = [] then score
         else if an_MachineID node = ar_PreferredNewMasterMachineID req
         then score\<lparr>cs_ElectionPriority := cs_ElectionPriority score + million\<rparr>
         else score\<lparr>cs_ElectionPriority := cs_ElectionPriority score - million\<rparr>)"

definition architectureCandidateScores ::
  "string \<Rightarrow> arch_request \<Rightarrow> (string \<Rightarrow> machine option) \<Rightarrow> (string \<Rightarrow> instance_rec list) \<Rightarrow> candidate list" where
  "architectureCandidateScores clusterID req machines instances =
     map (node_score clusterID req machines instances) (ar_Nodes req)"

subsection \<open>Steps\<close>

definition read_step :: "string \<Rightarrow> plan_step" where
  "read_step code = \<lparr>ps_Order = 0, ps_Code = code, ps_Destructive = False, ps_RequiresConfirmation = False\<rparr>"

definition write_step :: "string \<Rightarrow> plan_step" where
  "write_step code = \<lparr>ps_Order = 0, ps_Code = code, ps_Destructive = True, ps_RequiresConfirmation = False\<rparr>"

definition risky_step :: "string \<Rightarrow> plan_step" where
  "risky_step code = \<lparr>ps_Order = 0, ps_Code = code, ps_Destructive = True, ps_RequiresConfirmation = True\<rparr>"

definition number_steps :: "plan_step list \<Rightarrow> plan_step list" where
  "number_steps items = map (\<lambda>(i, item). item\<lparr>ps_Order := i + 1\<rparr>) (enumerate 0 items)"

definition architectureTransitionKind :: "arch_request \<Rightarrow> string" where
  "architectureTransitionKind req =
     (let current = trim_space (ar_CurrentArchitecture req); target = trim_space (ar_Architecture req)
      in if current = ArchitectureDualMaster \<and> target = ArchitectureMasterSlave then ''dual_to_master_slave''
         else if current = ArchitectureMasterSlave \<and> target = ArchitectureDualMaster then ''master_slave_to_dual''
         else [])"

definition architectureConversionPlanSteps :: "arch_request \<Rightarrow> plan_step list" where
  "architectureConversionPlanSteps req =
     (if architectureTransitionKind req = [] then []
      else number_steps
        ([read_step ''acquire_lock'', read_step ''preflight'', write_step ''freeze_business_access'',
          write_step ''drain_business_sessions'', read_step ''wait_replication_zero'',
          write_step ''reconfigure_topology'', read_step ''verify_topology'', read_step ''pt_verify_replication''] @
         (if ar_MoveVIP req
          then [read_step ''check_vip_conflict'', write_step ''move_vip'', read_step ''verify_single_vip''] else []) @
         [read_step ''resume_business_connections'', read_step ''release_lock'']))"

definition addArchitectureManagementRepairStep :: "plan_step list \<Rightarrow> arch_request \<Rightarrow> plan_step list" where
  "addArchitectureManagementRepairStep items req =
     (if trim_space (ar_RootPassword req) = [] \<or> ar_RootPasswords req \<noteq> [] then items
      else let insertAt = min 1 (length items)
           in take insertAt items @ [read_step ''repair_management_privileges''] @ drop insertAt items)"

definition vip_only_steps :: "arch_request \<Rightarrow> plan_step list" where
  "vip_only_steps req =
     [read_step ''acquire_lock'', read_step ''preflight''] @
     (if ar_InitializeVIP req then []
      else [write_step ''freeze_business_access'', write_step ''drain_business_sessions'']) @
     [read_step ''check_vip_conflict'', write_step ''withdraw_vip'', read_step ''verify_zero_vip'',
      write_step ''bind_vip'', read_step ''verify_single_vip''] @
     (if ar_InitializeVIP req then [] else [read_step ''resume_business_connections'']) @
     [read_step ''release_lock'']"

definition standalone_steps :: "plan_step list" where
  "standalone_steps =
     [read_step ''acquire_lock'', read_step ''preflight'', read_step ''validate_independent_targets'',
      write_step ''freeze_old_master'', write_step ''kill_business_sessions'', read_step ''wait_replication_zero'',
      read_step ''pt_verify_before_split'', write_step ''detach_replication'', read_step ''verify_topology'',
      read_step ''resume_business_connections'', read_step ''release_lock'']"

definition vip_move_steps :: "arch_request \<Rightarrow> plan_step list" where
  "vip_move_steps req = (if ar_MoveVIP req then [write_step ''move_vip'', read_step ''verify_single_vip''] else [])"

definition bootstrap_steps :: "arch_request \<Rightarrow> plan_step list" where
  "bootstrap_steps req =
     [read_step ''acquire_lock'', read_step ''preflight'', write_step ''freeze_old_master'',
      write_step ''kill_business_sessions'', read_step ''elect_candidate'', write_step ''align_replica_gtid'',
      write_step ''promote_new_master'', write_step ''repoint_replicas'', read_step ''verify_topology'',
      risky_step ''pt_repair_on_failure'', read_step ''pt_verify_replication''] @
     vip_move_steps req @ [read_step ''resume_business_connections'', read_step ''release_lock'']"

definition switch_steps :: "arch_request \<Rightarrow> plan_step list" where
  "switch_steps req =
     [read_step ''acquire_lock'', read_step ''preflight'', read_step ''elect_candidate'', read_step ''check_vip_conflict'',
      write_step ''freeze_old_master'', write_step ''kill_business_sessions'', read_step ''wait_replication_zero'',
      risky_step ''force_gate'', write_step ''fence_old_master'', write_step ''promote_new_master'',
      write_step ''repoint_replicas'', read_step ''verify_topology'', risky_step ''pt_repair_on_failure'',
      read_step ''pt_verify_replication''] @
     vip_move_steps req @ [read_step ''resume_business_connections'', read_step ''release_lock'']"

definition architecturePlanSteps :: "arch_request \<Rightarrow> plan_step list" where
  "architecturePlanSteps req =
     (if ar_VIPOnly req then number_steps (vip_only_steps req)
      else if architectureConversionPlanSteps req \<noteq> [] then architectureConversionPlanSteps req
      else if ar_Architecture req = ArchitectureStandalone
      then number_steps (addArchitectureManagementRepairStep standalone_steps req)
      else if ar_CurrentMasterMachineID req = [] \<and> \<not> ar_InitializeVIP req
      then number_steps (addArchitectureManagementRepairStep (bootstrap_steps req) req)
      else number_steps (addArchitectureManagementRepairStep (number_steps (switch_steps req)) req))"

subsection \<open>The plan\<close>

definition block_plan :: "string \<Rightarrow> arch_plan \<Rightarrow> arch_plan" where
  "block_plan reason plan = plan\<lparr>pl_Executable := False, pl_BlockingReasons := pl_BlockingReasons plan @ [reason]\<rparr>"

definition empty_plan :: "string \<Rightarrow> string \<Rightarrow> string \<Rightarrow> go_time \<Rightarrow> arch_plan" where
  "empty_plan planID clusterID arch now = \<lparr>pl_PlanID = planID, pl_ClusterID = clusterID, pl_Architecture = arch,
     pl_SelectedCandidate = no_candidate, pl_RankedCandidates = [], pl_Steps = [], pl_VIPRouteMode = [],
     pl_VIPAddresses = [], pl_WaitDelayTimeoutSeconds = 60, pl_RequiresForceConfirmation = True,
     pl_Executable = True, pl_BlockingReasons = [], pl_Warnings = [], pl_CreatedAt = now\<rparr>"

text \<open>A node whose agent cannot take credentials from a defaults file blocks the plan.\<close>

abbreviation CapabilityMySQLDefaultsFile :: string where
  "CapabilityMySQLDefaultsFile \<equiv> ''feature:mysql-defaults-file-v1''"

definition check_capability :: "task_channels \<Rightarrow> (string \<Rightarrow> machine option) \<Rightarrow> arch_node \<Rightarrow> arch_plan \<Rightarrow> arch_plan" where
  "check_capability channels machines node plan =
     (case MachineCapability (an_MachineID node) CapabilityMySQLDefaultsFile channels of (compatible, reason) \<Rightarrow>
        if compatible then plan
        else let name = (case machines (an_MachineID node) of
                           Some m \<Rightarrow> if trim_space (mach_Name m) \<noteq> [] then mach_Name m else an_MachineID node
                         | None \<Rightarrow> an_MachineID node)
             in block_plan (sprintf ''node %s cannot execute the switch: %s; upgrade its agent first'' [name, reason]) plan)"

definition check_score :: "candidate \<Rightarrow> arch_plan \<Rightarrow> arch_plan" where
  "check_score score plan =
     (if cs_Eligible score then plan
      else block_plan (sprintf ''independent target %s is not eligible: %s''
             [cs_MachineID score, join '', '' (cs_RejectReasons score)]) plan)"

definition choose_candidate :: "arch_request \<Rightarrow> candidate list \<Rightarrow> arch_plan \<Rightarrow> arch_plan" where
  "choose_candidate req scores plan =
     (if ar_Architecture req = ArchitectureStandalone
      then fold check_score scores (plan\<lparr>pl_RankedCandidates := scores, pl_RequiresForceConfirmation := False\<rparr>)
      else case Select_candidate scores of (selected, ranked, err) \<Rightarrow>
        let plan = plan\<lparr>pl_RankedCandidates := ranked\<rparr>
        in (case err of Some e \<Rightarrow> block_plan (error_text e) plan
            | None \<Rightarrow> plan\<lparr>pl_SelectedCandidate := selected\<rparr>))"

definition add_vip :: "vip_config \<Rightarrow> arch_plan \<Rightarrow> arch_plan" where
  "add_vip vip plan =
     (let plan = plan\<lparr>pl_VIPAddresses := pl_VIPAddresses plan @ [vc_VIPAddress vip]\<rparr>;
          plan = (if pl_VIPRouteMode plan = [] \<or> length (pl_VIPAddresses plan) = 1
                  then plan\<lparr>pl_VIPRouteMode := vc_VIPRouteMode vip\<rparr> else plan)
      in if vc_VIPRouteMode vip \<noteq> [] \<and> pl_VIPRouteMode plan \<noteq> vc_VIPRouteMode vip
         then block_plan ''all enabled VIPs must use the same route mode in one architecture adjustment'' plan
         else plan)"

definition check_move_vip :: "bool \<Rightarrow> arch_request \<Rightarrow> arch_plan \<Rightarrow> arch_plan" where
  "check_move_vip no_tasks req plan =
     (if \<not> ar_MoveVIP req then plan
      else
        let plan = (if pl_VIPAddresses plan = []
                    then block_plan ''VIP migration requested but no enabled VIP is configured'' plan else plan)
        in if pl_VIPRouteMode plan = VipRouteModeL2ARP then
             (if no_tasks then block_plan ''L2 ARP driver is not configured with a live Agent network executor'' plan
              else plan\<lparr>pl_Warnings := pl_Warnings plan @
                [''L2 VIP will be removed from every cluster node, verified absent, then bound to the promoted primary and announced by gratuitous ARP'']\<rparr>)
           else if pl_VIPRouteMode plan = VipRouteModeBGP then
             (if no_tasks then block_plan ''BGP driver is not configured with a live routing executor'' plan else plan)
           else block_plan (sprintf ''VIP route mode %s cannot be executed automatically'' [pl_VIPRouteMode plan]) plan)"

definition cluster_machine_map :: "string \<Rightarrow> machine list \<Rightarrow> string \<Rightarrow> machine option" where
  "cluster_machine_map clusterID machines =
     fold (\<lambda>m f. if mach_Cluster m = clusterID then f(mach_ID m := Some m) else f) machines (\<lambda>_. None)"

definition instances_by_machine :: "(string \<Rightarrow> machine option) \<Rightarrow> instance_rec list \<Rightarrow> string \<Rightarrow> instance_rec list" where
  "instances_by_machine machines instances mid =
     (if machines mid = None then [] else filter (\<lambda>i. inst_MachineID i = mid) instances)"

text \<open>What is known before the repository is asked for the network policy and the VIPs.\<close>

definition plan_of_scores ::
  "task_channels option \<Rightarrow> arch_request \<Rightarrow> (string \<Rightarrow> machine option) \<Rightarrow> candidate list \<Rightarrow> arch_plan \<Rightarrow> arch_plan" where
  "plan_of_scores tasks req machines scores plan =
     (let plan = (case tasks of
                    None \<Rightarrow> plan
                  | Some channels \<Rightarrow> if ar_VIPOnly req then plan
                                     else fold (check_capability channels machines) (ar_Nodes req) plan);
          plan = (if ar_VIPOnly req then plan\<lparr>pl_RequiresForceConfirmation := False\<rparr> else plan)
      in choose_candidate req scores plan)"

definition finish_plan :: "bool \<Rightarrow> string \<Rightarrow> arch_request \<Rightarrow> arch_plan \<Rightarrow> arch_plan act" where
  "finish_plan no_tasks clusterID req plan0 =
     with_result (GetNetworkPolicy clusterID) (\<lambda>network.
       let plan = (case network of Inr n \<Rightarrow> plan0\<lparr>pl_VIPRouteMode := np_VIPRouteMode n\<rparr> | Inl _ \<Rightarrow> plan0)
       in with_result (ListVIPConfigs clusterID) (\<lambda>vips.
          let plan = (case vips of Inr vs \<Rightarrow> fold add_vip vs plan | Inl _ \<Rightarrow> plan);
              plan = check_move_vip no_tasks req plan
          in ret (plan\<lparr>pl_Steps := architecturePlanSteps req\<rparr>)))"

text \<open>The plan id comes from a random source and is an argument.\<close>

definition PlanArchitectureAdjustment ::
  "task_channels option \<Rightarrow> string \<Rightarrow> string \<Rightarrow> arch_request \<Rightarrow> arch_plan act" where
  "PlanArchitectureAdjustment tasks planID clusterID0 req =
     (let clusterID = trim_space clusterID0
      in if clusterID = [] then fail_with (Error ''cluster_id is required'')
         else case validateArchitectureRequest req of
           Some e \<Rightarrow> fail_with e
         | None \<Rightarrow>
             on_ok machines_List (\<lambda>ms.
             on_ok instances_List (\<lambda>is.
               if length (ar_Nodes req) < 2 then fail_with (Error ''at least two target nodes are required'')
               else on_ok (gets w_clock) (\<lambda>now.
                 let machines = cluster_machine_map clusterID ms;
                     scores = architectureCandidateScores clusterID req machines (instances_by_machine machines is)
                 in finish_plan (tasks = None) clusterID req
                      (plan_of_scores tasks req machines scores (empty_plan planID clusterID (ar_Architecture req) now))))))"

subsection \<open>The order of the steps\<close>

definition plan_codes :: "arch_request \<Rightarrow> string list" where
  "plan_codes req = map ps_Code (architecturePlanSteps req)"

text \<open>\<open>precedes a b xs\<close>: \<open>b\<close> occurs after the first occurrence of \<open>a\<close>.\<close>

definition precedes :: "'a \<Rightarrow> 'a \<Rightarrow> 'a list \<Rightarrow> bool" where
  "precedes a b xs \<longleftrightarrow> b \<in> set (tl (dropWhile (\<lambda>x. x \<noteq> a) xs))"

lemma precedes_simps [simp]:
  "\<not> precedes a b []" "precedes a b (x # xs) = (if x = a then b \<in> set xs else precedes a b xs)"
  by (simp_all add: precedes_def)

lemma code_steps [simp]: "ps_Code (read_step c) = c" "ps_Code (write_step c) = c" "ps_Code (risky_step c) = c"
  by (simp_all add: read_step_def write_step_def risky_step_def)

lemma map_enumerate_snd: "map (\<lambda>(i, x). f i x) (enumerate k xs) = map (\<lambda>i. f (k + i) (xs ! i)) [0..<length xs]"
  by (rule nth_equalityI) (simp_all add: nth_enumerate_eq)

lemma number_steps_codes [simp]: "map ps_Code (number_steps xs) = map ps_Code xs"
  unfolding number_steps_def map_enumerate_snd by (rule nth_equalityI) simp_all

lemma number_steps_orders [simp]: "map ps_Order (number_steps xs) = [1..<length xs + 1]"
  unfolding number_steps_def map_enumerate_snd by (rule nth_equalityI) (simp_all del: upt_Suc)

lemma length_number_steps [simp]: "length (number_steps xs) = length xs"
  by (simp add: number_steps_def)

lemma repair_codes:
  "map ps_Code (addArchitectureManagementRepairStep (x # xs) req) =
     (if trim_space (ar_RootPassword req) = [] \<or> ar_RootPasswords req \<noteq> [] then map ps_Code (x # xs)
      else ps_Code x # ''repair_management_privileges'' # map ps_Code xs)"
  by (simp add: addArchitectureManagementRepairStep_def)

lemma number_repair_codes:
  "map ps_Code (addArchitectureManagementRepairStep (number_steps (x # xs)) req) =
   map ps_Code (addArchitectureManagementRepairStep (x # xs) req)"
proof -
  obtain y ys where n: "number_steps (x # xs) = y # ys" by (metis length_number_steps length_0_conv neq_Nil_conv list.distinct(1))
  then have "map ps_Code (y # ys) = map ps_Code (x # xs)" by (metis number_steps_codes)
  then show ?thesis unfolding n repair_codes by simp
qed

lemmas plan_step_lists = vip_only_steps_def standalone_steps_def bootstrap_steps_def switch_steps_def vip_move_steps_def

lemma plan_codes_eq:
  "plan_codes req =
     (if ar_VIPOnly req then map ps_Code (vip_only_steps req)
      else if architectureTransitionKind req \<noteq> [] then map ps_Code (architectureConversionPlanSteps req)
      else if ar_Architecture req = ArchitectureStandalone
      then map ps_Code (addArchitectureManagementRepairStep standalone_steps req)
      else if ar_CurrentMasterMachineID req = [] \<and> \<not> ar_InitializeVIP req
      then map ps_Code (addArchitectureManagementRepairStep (bootstrap_steps req) req)
      else map ps_Code (addArchitectureManagementRepairStep (switch_steps req) req))"
proof -
  have "architectureConversionPlanSteps req = [] \<longleftrightarrow> architectureTransitionKind req = []"
    by (simp add: architectureConversionPlanSteps_def number_steps_def)
  then show ?thesis
    by (simp add: plan_codes_def architecturePlanSteps_def switch_steps_def number_repair_codes)
qed

definition topology_writes :: "string list" where
  "topology_writes = [''promote_new_master'', ''reconfigure_topology'', ''detach_replication'', ''repoint_replicas'']"

definition steps_safe :: "string list \<Rightarrow> bool" where
  "steps_safe codes \<longleftrightarrow>
     codes \<noteq> [] \<and> hd codes = ''acquire_lock'' \<and> last codes = ''release_lock'' \<and> distinct codes \<and>
     (\<forall>c \<in> set topology_writes. c \<in> set codes \<longrightarrow>
        (precedes ''freeze_old_master'' c codes \<and> precedes ''kill_business_sessions'' c codes \<or>
         precedes ''freeze_business_access'' c codes \<and> precedes ''drain_business_sessions'' c codes)) \<and>
     (\<forall>c \<in> {''bind_vip'', ''move_vip''}. c \<in> set codes \<longrightarrow> precedes c ''verify_single_vip'' codes) \<and>
     (''bind_vip'' \<in> set codes \<longrightarrow>
        precedes ''withdraw_vip'' ''verify_zero_vip'' codes \<and> precedes ''verify_zero_vip'' ''bind_vip'' codes) \<and>
     (\<forall>c \<in> set codes. precedes ''resume_business_connections'' c codes \<longrightarrow> c = ''release_lock'')"

lemma plan_numbered: "\<exists>xs. architecturePlanSteps req = number_steps xs"
  by (auto simp: architecturePlanSteps_def architectureConversionPlanSteps_def)

lemmas steps_safe_eval = plan_step_lists repair_codes architectureConversionPlanSteps_def steps_safe_def topology_writes_def

lemma switch_codes_safe: "steps_safe (map ps_Code (addArchitectureManagementRepairStep (switch_steps req) req))"
  by (cases "ar_MoveVIP req"; cases "trim_space (ar_RootPassword req) = [] \<or> ar_RootPasswords req \<noteq> []")
     (simp_all add: steps_safe_eval)

lemma bootstrap_codes_safe: "steps_safe (map ps_Code (addArchitectureManagementRepairStep (bootstrap_steps req) req))"
  by (cases "ar_MoveVIP req"; cases "trim_space (ar_RootPassword req) = [] \<or> ar_RootPasswords req \<noteq> []")
     (simp_all add: steps_safe_eval)

lemma standalone_codes_safe: "steps_safe (map ps_Code (addArchitectureManagementRepairStep standalone_steps req))"
  by (cases "trim_space (ar_RootPassword req) = [] \<or> ar_RootPasswords req \<noteq> []") (simp_all add: steps_safe_eval)

lemma vip_only_codes_safe: "steps_safe (map ps_Code (vip_only_steps req))"
  by (cases "ar_InitializeVIP req") (simp_all add: steps_safe_eval)

lemma conversion_codes_safe:
  "architectureTransitionKind req \<noteq> [] \<Longrightarrow> steps_safe (map ps_Code (architectureConversionPlanSteps req))"
  by (cases "ar_MoveVIP req") (simp_all add: steps_safe_eval)

text \<open>C38: Whatever is requested, the steps are numbered from 1 without gaps and named once each, the first takes
  the cluster lock and the last gives it back; every step that changes the topology comes after the
  writes were frozen and the business sessions closed, every VIP move is followed by the single-holder
  check (and a plain bind is preceded by the withdrawal and the zero-holder barrier), and nothing but
  the release of the lock follows the reopening of the business connections.\<close>

theorem plan_steps_safe:
  "steps_safe (plan_codes req) \<and>
   map ps_Order (architecturePlanSteps req) = [1..<length (architecturePlanSteps req) + 1]"
proof
  show "steps_safe (plan_codes req)"
    unfolding plan_codes_eq
    by (simp add: switch_codes_safe bootstrap_codes_safe standalone_codes_safe vip_only_codes_safe conversion_codes_safe)
  show "map ps_Order (architecturePlanSteps req) = [1..<length (architecturePlanSteps req) + 1]"
    using plan_numbered [of req] by (metis number_steps_orders length_number_steps)
qed

text \<open>A switch away from a named master of a cluster that stays replicated (no conversion between one and
  two masters, not only a VIP move) scans the VIP, closes the old master, waits for the replicas,
  passes the confirmation gate and fences the old master, in this order, before it promotes.\<close>

theorem switch_fences_before_promotion:
  assumes "\<not> ar_VIPOnly req" "architectureTransitionKind req = []" "ar_Architecture req \<noteq> ArchitectureStandalone"
    and "ar_CurrentMasterMachineID req \<noteq> []"
  shows "filter (\<lambda>c. c \<in> {''check_vip_conflict'', ''freeze_old_master'', ''wait_replication_zero'', ''force_gate'',
           ''fence_old_master'', ''promote_new_master'', ''repoint_replicas'', ''verify_topology''}) (plan_codes req) =
         [''check_vip_conflict'', ''freeze_old_master'', ''wait_replication_zero'', ''force_gate'',
          ''fence_old_master'', ''promote_new_master'', ''repoint_replicas'', ''verify_topology'']"
  using assms unfolding plan_codes_eq
  by (cases "ar_MoveVIP req"; cases "trim_space (ar_RootPassword req) = [] \<or> ar_RootPasswords req \<noteq> []")
     (simp_all add: steps_safe_eval)

definition node_at :: "string \<Rightarrow> string \<Rightarrow> int \<Rightarrow> arch_node" where
  "node_at mid role priority = \<lparr>an_MachineID = mid, an_Port = 3306, an_Role = role, an_SourceMachineID = [],
     an_DelaySeconds = 0, an_ElectionPriority = priority\<rparr>"

definition switch_request :: arch_request where
  "switch_request = \<lparr>ar_Architecture = ArchitectureMasterSlave, ar_CurrentArchitecture = ArchitectureMasterSlave,
     ar_CurrentMasterMachineID = ''m1'', ar_PreferredNewMasterMachineID = ''m2'', ar_MoveVIP = False,
     ar_InitializeVIP = False, ar_VIPOnly = False, ar_ForceAfterTimeout = False, ar_ManagementUsers = [],
     ar_RootPassword = [], ar_RootPasswords = [], ar_MaintenanceDetachedMachineIDs = [],
     ar_ReplicationUser = [], ar_ReplicationPassword = [], ar_Nodes = [node_at ''m1'' ''S'' 0, node_at ''m2'' ''M'' 0]\<rparr>"

theorem switch_fences_before_promotion_witness:
  "filter (\<lambda>c. c \<in> {''check_vip_conflict'', ''freeze_old_master'', ''wait_replication_zero'', ''force_gate'',
     ''fence_old_master'', ''promote_new_master'', ''repoint_replicas'', ''verify_topology''}) (plan_codes switch_request) =
   [''check_vip_conflict'', ''freeze_old_master'', ''wait_replication_zero'', ''force_gate'',
    ''fence_old_master'', ''promote_new_master'', ''repoint_replicas'', ''verify_topology'']"
  by (rule switch_fences_before_promotion)
     (simp_all add: switch_request_def architectureTransitionKind_def trim_space_def is_space_def)

subsection \<open>What validation accepts\<close>

definition node_ok :: "arch_node \<Rightarrow> bool" where
  "node_ok node \<longleftrightarrow> trim_space (an_MachineID node) \<noteq> [] \<and> an_DelaySeconds node \<ge> 0 \<and>
     (role_of node = ''S'' \<or> role_of node = ''M'' \<and> an_DelaySeconds node = 0 \<or>
      role_of node = ''I'' \<and> an_DelaySeconds node = 0 \<and> an_SourceMachineID node = [])"

definition count_role :: "string \<Rightarrow> arch_node list \<Rightarrow> nat" where
  "count_role role nodes = length (filter (\<lambda>node. role_of node = role) nodes)"

lemma check_nodes_iff:
  "check_nodes nodes seen ms is = Inr (seen', ms', is') \<longleftrightarrow>
     (\<forall>node \<in> set nodes. node_ok node) \<and> distinct (map an_MachineID nodes) \<and>
     set (map an_MachineID nodes) \<inter> set seen = {} \<and> seen' = rev (map an_MachineID nodes) @ seen \<and>
     ms' = ms + count_role ''M'' nodes \<and> is' = is + count_role ''I'' nodes"
proof (induction nodes arbitrary: seen ms "is")
  case Nil
  show ?case by (auto simp: count_role_def)
next
  case (Cons node nodes)
  show ?case
    by (auto simp: Let_def node_ok_def count_role_def Cons.IH)
qed

definition roles_fit :: "arch_request \<Rightarrow> bool" where
  "roles_fit req =
     (let masters = count_role ''M'' (ar_Nodes req); independents = count_role ''I'' (ar_Nodes req)
      in if ar_Architecture req = ArchitectureStandalone
         then independents = length (ar_Nodes req) \<and> \<not> ar_MoveVIP req
         else independents = 0 \<and>
           (ar_Architecture req = ArchitectureMasterSlave \<and> masters = 1 \<or>
            ar_Architecture req = ArchitectureDualMaster \<and> masters = 2 \<or>
            ar_Architecture req = ArchitectureMultiMaster \<and> masters \<ge> 3))"

definition vip_target_fits :: "arch_request \<Rightarrow> bool" where
  "vip_target_fits req \<longleftrightarrow>
     (ar_InitializeVIP req \<longrightarrow> ar_MoveVIP req \<and> ar_CurrentMasterMachineID req = []) \<and>
     (ar_MoveVIP req \<and> ar_CurrentMasterMachineID req \<noteq> [] \<longrightarrow>
        ar_PreferredNewMasterMachineID req \<noteq> ar_CurrentMasterMachineID req) \<and>
     (ar_VIPOnly req \<longrightarrow> ar_MoveVIP req \<and>
        (\<exists>node \<in> set (ar_Nodes req). an_MachineID node = ar_PreferredNewMasterMachineID req \<and> role_of node = ''M''))"

lemma upper_M: "upper_char c = CHR ''M'' \<longleftrightarrow> lower_char c = CHR ''m''"
proof -
  have iff: "c = CHR ''M'' \<longleftrightarrow> char_code c = 77" "c = CHR ''m'' \<longleftrightarrow> char_code c = 109"
    unfolding char_code_def using of_char_eq_iff [of c "CHR ''M''", where 'a = nat] of_char_eq_iff [of c "CHR ''m''", where 'a = nat]
    by simp_all
  show ?thesis
    unfolding upper_char_def lower_char_def iff if_split [of "\<lambda>x. x = _"]
    by (auto simp: char_of_eq_iff iff take_bit_eq_mod)
qed

lemma equal_fold_M: "equal_fold s ''M'' \<longleftrightarrow> to_upper s = ''M''"
proof -
  have "lower_char (CHR ''M'') = CHR ''m''" by (simp add: upper_M [symmetric] upper_char_def char_code_def)
  then show ?thesis by (cases s) (auto simp: equal_fold_def to_upper_def to_lower_def upper_M)
qed

lemma count_role_disjoint:
  "count_role ''I'' nodes = length nodes \<Longrightarrow> count_role ''M'' nodes = 0"
proof -
  have "count_role ''I'' nodes + count_role ''M'' nodes \<le> length nodes"
    by (induction nodes) (auto simp: count_role_def)
  then show "count_role ''I'' nodes = length nodes \<Longrightarrow> count_role ''M'' nodes = 0" by simp
qed

end
