(* ===== verification/Arch_Choice.thy ===== *)
theory Arch_Choice
  imports Arch_Plan
begin

text \<open>
  What the planner guarantees: which requests \<open>validateArchitectureRequest\<close> accepts, and which node an
  executable plan selects.
\<close>

subsection \<open>Accepted requests\<close>

definition accepted_request :: "arch_request \<Rightarrow> bool" where
  "accepted_request req \<longleftrightarrow>
     known_architecture req \<and>
     (\<forall>node \<in> set (ar_Nodes req). node_ok node) \<and> distinct (map an_MachineID (ar_Nodes req)) \<and>
     (ar_CurrentMasterMachineID req \<noteq> [] \<longrightarrow> ar_CurrentMasterMachineID req \<in> an_MachineID ` set (ar_Nodes req)) \<and>
     roles_fit req \<and> vip_target_fits req"

lemma check_vip_only_iff:
  assumes "\<forall>node \<in> set (ar_Nodes req). node_ok node" "ar_VIPOnly req"
  shows "check_vip_only req = None \<longleftrightarrow>
     (\<exists>node \<in> set (ar_Nodes req). an_MachineID node = ar_PreferredNewMasterMachineID req \<and> role_of node = ''M'')"
proof -
  have "trim_space (ar_PreferredNewMasterMachineID req) \<noteq> []"
    if "node \<in> set (ar_Nodes req)" "an_MachineID node = ar_PreferredNewMasterMachineID req" for node
    using assms(1) that by (metis node_ok_def)
  then show ?thesis using assms(2) unfolding check_vip_only_def by (auto simp: equal_fold_M)
qed

lemma check_counts_iff:
  assumes "known_architecture req"
  shows "check_counts req (count_role ''M'' (ar_Nodes req)) (count_role ''I'' (ar_Nodes req)) = None \<longleftrightarrow> roles_fit req"
  using assms count_role_disjoint [of "ar_Nodes req"]
  by (auto simp: check_counts_def roles_fit_def Let_def known_architecture_def)

lemma validate_unknown: "\<not> known_architecture req \<Longrightarrow> validateArchitectureRequest req \<noteq> None"
  by (simp add: validateArchitectureRequest_def)

lemma validate_bad_nodes:
  "known_architecture req \<Longrightarrow> check_nodes (ar_Nodes req) [] 0 0 = Inl e \<Longrightarrow> validateArchitectureRequest req = Some e"
  by (simp add: validateArchitectureRequest_def)

lemma validate_good_nodes:
  assumes "known_architecture req" "check_nodes (ar_Nodes req) [] 0 0 = Inr (seen, masters, independents)"
  shows "validateArchitectureRequest req = None \<longleftrightarrow>
     (ar_CurrentMasterMachineID req \<noteq> [] \<longrightarrow> ar_CurrentMasterMachineID req \<in> set seen) \<and>
     (ar_InitializeVIP req \<longrightarrow> ar_MoveVIP req \<and> ar_CurrentMasterMachineID req = []) \<and>
     (ar_VIPOnly req \<longrightarrow> ar_MoveVIP req \<and> ar_Architecture req \<noteq> ArchitectureStandalone) \<and>
     check_vip_only req = None \<and>
     (ar_MoveVIP req \<and> ar_CurrentMasterMachineID req \<noteq> [] \<longrightarrow>
        ar_PreferredNewMasterMachineID req \<noteq> ar_CurrentMasterMachineID req) \<and>
     check_counts req masters independents = None"
  unfolding validateArchitectureRequest_def assms(2) sum.case prod.case
  using assms(1) by (simp only: if_split [of "\<lambda>x. x = None"] option.distinct) blast

lemma validate_accepted: "validateArchitectureRequest req = None \<longleftrightarrow> accepted_request req"
proof (cases "known_architecture req \<and> (\<forall>node \<in> set (ar_Nodes req). node_ok node) \<and> distinct (map an_MachineID (ar_Nodes req))")
  case True
  then have run: "check_nodes (ar_Nodes req) [] 0 0 =
      Inr (rev (map an_MachineID (ar_Nodes req)), count_role ''M'' (ar_Nodes req), count_role ''I'' (ar_Nodes req))"
    by (simp add: check_nodes_iff)
  have known: "known_architecture req" using True by blast
  have moved: "roles_fit req \<Longrightarrow> ar_MoveVIP req \<Longrightarrow> ar_Architecture req \<noteq> ArchitectureStandalone"
    by (simp add: roles_fit_def Let_def split: if_splits)
  have vip: "check_vip_only req = None \<longleftrightarrow> (ar_VIPOnly req \<longrightarrow>
     (\<exists>node \<in> set (ar_Nodes req). an_MachineID node = ar_PreferredNewMasterMachineID req \<and> role_of node = ''M''))"
    using True check_vip_only_iff [of req] by (cases "ar_VIPOnly req") (simp_all add: check_vip_only_def)
  show ?thesis
    unfolding validate_good_nodes [OF known run] check_counts_iff [OF known] accepted_request_def vip vip_target_fits_def
    using True moved by simp blast
next
  case False
  then have "\<not> accepted_request req" by (auto simp: accepted_request_def)
  moreover have "validateArchitectureRequest req \<noteq> None"
  proof (cases "check_nodes (ar_Nodes req) [] 0 0")
    case (Inl e)
    then show ?thesis using validate_unknown validate_bad_nodes by (cases "known_architecture req") auto
  next
    case (Inr r)
    then have "\<not> known_architecture req" using False by (cases r) (simp add: check_nodes_iff)
    then show ?thesis by (rule validate_unknown)
  qed
  ultimately show ?thesis by blast
qed

text \<open>C40: \<open>validateArchitectureRequest\<close> accepts exactly the requests with a known architecture, well-formed
  nodes on different machines, roles that fit the architecture, a current master among the nodes and a
  VIP target that is a master other than the current one.\<close>

theorem validate_iff: "validateArchitectureRequest req = None \<longleftrightarrow> accepted_request req"
  by (rule validate_accepted)

subsection \<open>Scores of the target nodes\<close>

definition electable ::
  "arch_request \<Rightarrow> (string \<Rightarrow> machine option) \<Rightarrow> (string \<Rightarrow> instance_rec list) \<Rightarrow> arch_node \<Rightarrow> bool" where
  "electable req machines instances node \<longleftrightarrow>
     machines (an_MachineID node) \<noteq> None \<and>
     (case architectureInstanceForNode node (instances (an_MachineID node)) of None \<Rightarrow> False
      | Some i \<Rightarrow> (inst_Status i = [] \<or> equal_fold (inst_Status i) StatusRunning) \<and>
                 node_server_count instances (ar_Nodes req) (inst_ServerID i) \<le> 1) \<and>
     an_DelaySeconds node \<le> 0 \<and>
     (ar_Architecture req \<noteq> ArchitectureStandalone \<longrightarrow> role_of node = ''M'' \<and>
        (ar_CurrentMasterMachineID req = [] \<or> an_MachineID node \<noteq> ar_CurrentMasterMachineID req \<or>
         ar_PreferredNewMasterMachineID req = ar_CurrentMasterMachineID req))"

definition preference :: "arch_request \<Rightarrow> arch_node \<Rightarrow> int" where
  "preference req node =
     (if ar_PreferredNewMasterMachineID req = [] then 0
      else if an_MachineID node = ar_PreferredNewMasterMachineID req then million else - million)"

lemma reject_fields [simp]:
  "cs_Eligible (reject_when b r c) \<longleftrightarrow> cs_Eligible c \<and> \<not> b"
  "cs_MachineID (reject_when b r c) = cs_MachineID c"
  "cs_DataFreshnessScore (reject_when b r c) = cs_DataFreshnessScore c"
  "cs_RelayReceivedScore (reject_when b r c) = cs_RelayReceivedScore c"
  "cs_RelayExecutedScore (reject_when b r c) = cs_RelayExecutedScore c"
  "cs_DelaySeconds (reject_when b r c) = cs_DelaySeconds c"
  "cs_HealthScore (reject_when b r c) = cs_HealthScore c"
  "cs_RiskPenalty (reject_when b r c) = cs_RiskPenalty c"
  "cs_NeedRelayReplay (reject_when b r c) = cs_NeedRelayReplay c"
  "cs_ElectionPriority (reject_when b r c) = cs_ElectionPriority c"
  by (simp_all add: reject_when_def reject_def)

lemma node_score_fields [simp]:
  "cs_MachineID (node_score cid req ms is node) = an_MachineID node"
  "cs_DataFreshnessScore (node_score cid req ms is node) = 100"
  "cs_RelayReceivedScore (node_score cid req ms is node) = 100"
  "cs_RelayExecutedScore (node_score cid req ms is node) = 100"
  "cs_DelaySeconds (node_score cid req ms is node) = an_DelaySeconds node"
  "cs_RiskPenalty (node_score cid req ms is node) = 0"
  "cs_NeedRelayReplay (node_score cid req ms is node) = False"
  "cs_ElectionPriority (node_score cid req ms is node) = an_ElectionPriority node + preference req node"
  by (cases "architectureInstanceForNode node (is (an_MachineID node))";
      simp add: node_score_def Let_def reject_def no_candidate_def preference_def)+

lemma node_score_eligible [simp]:
  "cs_Eligible (node_score cid req ms is node) \<longleftrightarrow> electable req ms is node"
proof (cases "architectureInstanceForNode node (is (an_MachineID node))")
  case None
  then show ?thesis by (simp add: node_score_def Let_def electable_def)
next
  case (Some i)
  then show ?thesis
    by (auto simp add: node_score_def Let_def electable_def reject_def equal_fold_M not_less)
qed

lemma node_score_health [simp]:
  "electable req ms is node \<Longrightarrow> cs_HealthScore (node_score cid req ms is node) = 100"
  by (cases "architectureInstanceForNode node (is (an_MachineID node))")
     (auto simp add: node_score_def Let_def electable_def)

lemma electable_delay: "electable req ms is node \<Longrightarrow> an_DelaySeconds node \<le> 0"
  by (simp add: electable_def)

subsection \<open>The selected candidate\<close>

lemma selected_node:
  assumes "Select_candidate (architectureCandidateScores cid req ms is) = (best, ranked, None)"
  shows "\<exists>node \<in> set (ar_Nodes req). electable req ms is node \<and> best = with_final_score (node_score cid req ms is node)"
  using select_winner(1,2) [OF assms] by (auto simp: architectureCandidateScores_def)

lemma final_score_electable:
  "electable req ms is node \<Longrightarrow> cs_FinalScore (with_final_score (node_score cid req ms is node)) =
     10100200 + an_ElectionPriority node + preference req node - an_DelaySeconds node * 100"
  by (simp add: with_final_score_def Let_def)

lemma preferred_selected:
  assumes sel: "Select_candidate (architectureCandidateScores cid req ms is) = (best, ranked, None)"
    and nodes: "\<And>node. node \<in> set (ar_Nodes req) \<Longrightarrow> an_DelaySeconds node \<ge> 0 \<and> \<bar>an_ElectionPriority node\<bar> < million"
    and p: "p \<in> set (ar_Nodes req)" "an_MachineID p = ar_PreferredNewMasterMachineID req" "an_MachineID p \<noteq> []"
    and elect: "electable req ms is p"
  shows "cs_MachineID best = an_MachineID p"
proof (rule ccontr)
  assume other: "cs_MachineID best \<noteq> an_MachineID p"
  obtain n where n: "n \<in> set (ar_Nodes req)" "electable req ms is n" "best = with_final_score (node_score cid req ms is n)"
    using selected_node [OF sel] by blast
  have "node_score cid req ms is p \<in> set (architectureCandidateScores cid req ms is)"
    using p(1) by (simp add: architectureCandidateScores_def)
  from select_winner(3) [OF sel this] have worse: "\<not> ranks_before (with_final_score (node_score cid req ms is p)) best" .
  have delay: "an_DelaySeconds p = 0" "an_DelaySeconds n = 0"
    using electable_delay [OF elect] electable_delay [OF n(2)] nodes [OF p(1)] nodes [OF n(1)] by auto
  have "preference req p = million" "preference req n = - million"
    using p other n(3) by (auto simp: preference_def)
  then have "cs_FinalScore (with_final_score (node_score cid req ms is p)) > cs_FinalScore best"
    using nodes [OF p(1)] nodes [OF n(1)] delay
    by (simp add: n(3) final_score_electable [OF elect] final_score_electable [OF n(2)])
  then show False using worse elect n(2) delay by (simp add: n(3) ranks_before_def)
qed

subsection \<open>Executable plans\<close>

text \<open>A plan that has been blocked stays blocked, and the later stages keep the candidate.\<close>

definition keeps_choice :: "(arch_plan \<Rightarrow> arch_plan) \<Rightarrow> bool" where
  "keeps_choice f \<longleftrightarrow> (\<forall>p. (pl_Executable (f p) \<longrightarrow> pl_Executable p) \<and>
     pl_SelectedCandidate (f p) = pl_SelectedCandidate p)"

lemma keeps_choiceI:
  "(\<And>p. pl_Executable (f p) \<Longrightarrow> pl_Executable p) \<Longrightarrow>
   (\<And>p. pl_SelectedCandidate (f p) = pl_SelectedCandidate p) \<Longrightarrow> keeps_choice f"
  unfolding keeps_choice_def by blast

lemma keeps_choiceD:
  assumes "keeps_choice f"
  shows "pl_Executable (f p) \<Longrightarrow> pl_Executable p" "pl_SelectedCandidate (f p) = pl_SelectedCandidate p"
  using assms unfolding keeps_choice_def by blast+

lemma keeps_choice_comp: "keeps_choice f \<Longrightarrow> keeps_choice g \<Longrightarrow> keeps_choice (g \<circ> f)"
  by (rule keeps_choiceI) (metis comp_apply keeps_choiceD(1), metis comp_apply keeps_choiceD(2))

lemma keeps_choice_id: "keeps_choice (\<lambda>p. p)"
  by (rule keeps_choiceI) simp_all

lemma keeps_choice_fold:
  assumes "\<And>x. keeps_choice (f x)" shows "keeps_choice (fold f xs)"
proof (induction xs)
  case Nil
  show ?case unfolding fold_Nil id_def by (rule keeps_choice_id)
next
  case (Cons x xs)
  show ?case unfolding fold_Cons by (rule keeps_choice_comp [OF assms Cons])
qed

lemma block_plan_simps [simp]:
  "\<not> pl_Executable (block_plan r p)" "pl_SelectedCandidate (block_plan r p) = pl_SelectedCandidate p"
  "pl_VIPAddresses (block_plan r p) = pl_VIPAddresses p" "pl_VIPRouteMode (block_plan r p) = pl_VIPRouteMode p"
  by (simp_all add: block_plan_def)

lemma keeps_choice_block: "keeps_choice f \<Longrightarrow> keeps_choice (\<lambda>p. block_plan (r p) (f p))"
  by (rule keeps_choiceI) (simp_all add: keeps_choiceD(2))

lemma keeps_choice_if: "keeps_choice f \<Longrightarrow> keeps_choice g \<Longrightarrow> keeps_choice (\<lambda>p. if b p then f p else g p)"
  by (rule keeps_choiceI) (auto split: if_splits dest: keeps_choiceD(1) simp: keeps_choiceD(2))

lemma keeps_choice_updates:
  assumes "keeps_choice f"
  shows "keeps_choice (\<lambda>p. f p\<lparr>pl_VIPAddresses := a p\<rparr>)"
  "keeps_choice (\<lambda>p. f p\<lparr>pl_VIPRouteMode := m p\<rparr>)"
  "keeps_choice (\<lambda>p. f p\<lparr>pl_Warnings := u p\<rparr>)"
  "keeps_choice (\<lambda>p. f p\<lparr>pl_RequiresForceConfirmation := c p\<rparr>)"
  by (rule keeps_choiceI; use assms in \<open>simp add: keeps_choiceD\<close>)+

lemmas keeps_choice_rules = keeps_choice_if keeps_choice_block keeps_choice_updates keeps_choice_id

lemma keeps_choice_vips: "keeps_choice (fold add_vip vips)"
  by (rule keeps_choice_fold) (unfold add_vip_def Let_def, intro keeps_choice_rules)

lemma keeps_choice_move: "keeps_choice (check_move_vip no_tasks req)"
  unfolding check_move_vip_def Let_def by (intro keeps_choice_rules)

lemma check_move_vip_ok:
  assumes "pl_Executable (check_move_vip no_tasks req p)" "ar_MoveVIP req"
  shows "\<not> no_tasks" "pl_VIPAddresses p \<noteq> []"
    "pl_VIPRouteMode p = VipRouteModeL2ARP \<or> pl_VIPRouteMode p = VipRouteModeBGP"
proof -
  let ?b = "\<lambda>p. if pl_VIPAddresses p = [] then block_plan ''VIP migration requested but no enabled VIP is configured'' p else p"
  have mode: "pl_VIPRouteMode (?b p) = pl_VIPRouteMode p" by simp
  show modes: "pl_VIPRouteMode p = VipRouteModeL2ARP \<or> pl_VIPRouteMode p = VipRouteModeBGP"
  proof (rule ccontr)
    assume "\<not> ?thesis"
    then have "\<not> pl_Executable (check_move_vip no_tasks req p)"
      unfolding check_move_vip_def Let_def mode de_Morgan_disj using assms(2) by (simp only: if_False if_True not_True_eq_False block_plan_simps simp_thms)
    then show False using assms(1) by blast
  qed
  show "\<not> no_tasks"
  proof
    assume "no_tasks"
    then have "\<not> pl_Executable (check_move_vip no_tasks req p)"
      unfolding check_move_vip_def Let_def mode using assms(2) by simp
    then show False using assms(1) by blast
  qed
  show "pl_VIPAddresses p \<noteq> []"
  proof
    assume "pl_VIPAddresses p = []"
    then have "\<not> pl_Executable (check_move_vip no_tasks req p)"
      unfolding check_move_vip_def Let_def using assms(2) by simp
    then show False using assms(1) by blast
  qed
qed

lemma check_capability_ok:
  assumes "pl_Executable (fold (check_capability channels machines) nodes p)"
  shows "pl_Executable p" "node \<in> set nodes \<Longrightarrow> fst (MachineCapability (an_MachineID node) CapabilityMySQLDefaultsFile channels)"
proof -
  have one: "pl_Executable (check_capability channels machines n q) \<Longrightarrow>
      pl_Executable q \<and> fst (MachineCapability (an_MachineID n) CapabilityMySQLDefaultsFile channels)" for n q
    by (cases "MachineCapability (an_MachineID n) CapabilityMySQLDefaultsFile channels")
       (auto simp: check_capability_def Let_def split: if_splits)
  have "pl_Executable p \<and> (\<forall>n \<in> set nodes. fst (MachineCapability (an_MachineID n) CapabilityMySQLDefaultsFile channels))"
    using assms by (induction nodes arbitrary: p) (auto dest: one)
  then show "pl_Executable p" "node \<in> set nodes \<Longrightarrow> fst (MachineCapability (an_MachineID node) CapabilityMySQLDefaultsFile channels)"
    by blast+
qed

text \<open>The machines of the cluster and their instances as the planner sees them.\<close>

definition target_machines :: "string \<Rightarrow> world \<Rightarrow> string \<Rightarrow> machine option" where
  "target_machines cid w = cluster_machine_map cid (stable_sort (\<lambda>a b. mach_CreatedAt a > mach_CreatedAt b) (w_machines w))"

definition target_instances :: "string \<Rightarrow> world \<Rightarrow> string \<Rightarrow> instance_rec list" where
  "target_instances cid w = instances_by_machine (target_machines cid w)
     (stable_sort (\<lambda>a b. inst_UpdatedAt a > inst_UpdatedAt b) (w_instances w))"

lemma machines_List_run: "machines_List w = (Inr ms, w') \<Longrightarrow>
    cluster_machine_map cid ms = target_machines cid w \<and> w_instances w' = w_instances w"
  unfolding machines_List_def target_machines_def by (erule query_cases) auto

lemma instances_List_run: "instances_List w = (Inr is, w') \<Longrightarrow>
    is = stable_sort (\<lambda>a b. inst_UpdatedAt a > inst_UpdatedAt b) (w_instances w)"
  unfolding instances_List_def by (erule query_cases) auto

lemma finish_plan_run:
  assumes "finish_plan no_tasks cid req plan0 w = (Inr plan, w')"
  obtains f where "keeps_choice f"
    "plan = (check_move_vip no_tasks req (f plan0))\<lparr>pl_Steps := architecturePlanSteps req\<rparr>"
proof -
  obtain network w1 where n: "GetNetworkPolicy cid w = (network, w1)" by fastforce
  obtain vips w2 where v: "ListVIPConfigs cid w1 = (vips, w2)" by fastforce
  let ?n = "\<lambda>p. case network of Inr n \<Rightarrow> p\<lparr>pl_VIPRouteMode := np_VIPRouteMode n\<rparr> | Inl _ \<Rightarrow> p"
  let ?v = "\<lambda>p. case vips of Inr vs \<Rightarrow> fold add_vip vs p | Inl _ \<Rightarrow> p"
  have "keeps_choice ?n" by (cases network) (simp_all add: keeps_choice_id keeps_choice_updates [OF keeps_choice_id])
  moreover have "keeps_choice ?v" by (cases vips) (simp_all add: keeps_choice_id keeps_choice_vips)
  ultimately have "keeps_choice (?v \<circ> ?n)" by (rule keeps_choice_comp)
  moreover have "plan = (check_move_vip no_tasks req ((?v \<circ> ?n) plan0))\<lparr>pl_Steps := architecturePlanSteps req\<rparr>"
    using assms by (simp add: finish_plan_def with_result_def n v Let_def)
  ultimately show ?thesis by (rule that)
qed

lemma plan_run:
  assumes "PlanArchitectureAdjustment tasks planID clusterID req w = (Inr plan, w')"
  defines "cid \<equiv> trim_space clusterID"
  obtains now f where "validateArchitectureRequest req = None" "keeps_choice f"
    "plan = (check_move_vip (tasks = None) req (f (plan_of_scores tasks req (target_machines cid w)
       (architectureCandidateScores cid req (target_machines cid w) (target_instances cid w))
       (empty_plan planID cid (ar_Architecture req) now))))\<lparr>pl_Steps := architecturePlanSteps req\<rparr>"
proof -
  have val: "validateArchitectureRequest req = None"
    using assms(1) by (simp add: PlanArchitectureAdjustment_def Let_def split: if_splits option.splits)
  have cid: "cid \<noteq> []"
    using assms(1) by (auto simp add: PlanArchitectureAdjustment_def cid_def)
  note run = assms(1) [unfolded PlanArchitectureAdjustment_def Let_def val option.case, folded cid_def, unfolded if_not_P [OF cid]]
  from on_ok_InrD [OF run] obtain ms w1 where ms: "machines_List w = (Inr ms, w1)"
    and run1: "on_ok instances_List (\<lambda>is. if length (ar_Nodes req) < 2 then fail_with (Error ''at least two target nodes are required'')
       else on_ok (gets w_clock) (\<lambda>now. finish_plan (tasks = None) cid req
          (plan_of_scores tasks req (cluster_machine_map cid ms)
             (architectureCandidateScores cid req (cluster_machine_map cid ms) (instances_by_machine (cluster_machine_map cid ms) is))
             (empty_plan planID cid (ar_Architecture req) now)))) w1 = (Inr plan, w')" by blast
  from on_ok_InrD [OF run1] obtain "is" w2 where "is": "instances_List w1 = (Inr is, w2)"
    and run2: "on_ok (gets w_clock) (\<lambda>now. finish_plan (tasks = None) cid req
          (plan_of_scores tasks req (cluster_machine_map cid ms)
             (architectureCandidateScores cid req (cluster_machine_map cid ms) (instances_by_machine (cluster_machine_map cid ms) is))
             (empty_plan planID cid (ar_Architecture req) now))) w2 = (Inr plan, w')"
    by (auto split: if_splits)
  have m: "cluster_machine_map cid ms = target_machines cid w" "w_instances w1 = w_instances w"
    using machines_List_run [OF ms] by blast+
  have i: "instances_by_machine (target_machines cid w) is = target_instances cid w"
    using instances_List_run [OF "is"] m(2) by (simp add: target_instances_def)
  from run2 [unfolded on_ok_gets m(1) i] show ?thesis by (rule finish_plan_run) (rule that [OF val])
qed

lemma plan_of_scores_choice:
  assumes "pl_Executable (plan_of_scores tasks req machines scores plan)" "ar_Architecture req \<noteq> ArchitectureStandalone"
  shows "\<exists>best ranked. Select_candidate scores = (best, ranked, None) \<and>
     pl_SelectedCandidate (plan_of_scores tasks req machines scores plan) = best"
    "tasks = Some channels \<Longrightarrow> \<not> ar_VIPOnly req \<Longrightarrow> node \<in> set (ar_Nodes req) \<Longrightarrow>
     fst (MachineCapability (an_MachineID node) CapabilityMySQLDefaultsFile channels)"
proof -
  obtain best ranked err where sel: "Select_candidate scores = (best, ranked, err)" by (metis prod.collapse)
  let ?p = "case tasks of None \<Rightarrow> plan | Some channels \<Rightarrow> if ar_VIPOnly req then plan
                                     else fold (check_capability channels machines) (ar_Nodes req) plan"
  let ?q = "if ar_VIPOnly req then ?p\<lparr>pl_RequiresForceConfirmation := False\<rparr> else ?p"
  have run: "plan_of_scores tasks req machines scores plan =
      (case err of Some e \<Rightarrow> block_plan (error_text e) (?q\<lparr>pl_RankedCandidates := ranked\<rparr>)
       | None \<Rightarrow> ?q\<lparr>pl_RankedCandidates := ranked, pl_SelectedCandidate := best\<rparr>)"
    using assms(2) by (simp add: plan_of_scores_def choose_candidate_def Let_def sel)
  with assms(1) have err: "err = None" by (cases err) simp_all
  show "\<exists>best ranked. Select_candidate scores = (best, ranked, None) \<and>
     pl_SelectedCandidate (plan_of_scores tasks req machines scores plan) = best"
    unfolding run by (simp add: sel err)
  show "fst (MachineCapability (an_MachineID node) CapabilityMySQLDefaultsFile channels)"
    if "tasks = Some channels" "\<not> ar_VIPOnly req" "node \<in> set (ar_Nodes req)"
    using assms(1) that unfolding run err by (auto dest: check_capability_ok(2))
qed

lemma target_machines_mem:
  "target_machines cid w mid = Some m \<Longrightarrow> m \<in> set (w_machines w) \<and> mach_Cluster m = cid \<and> mach_ID m = mid"
proof -
  have "fold (\<lambda>m f. if mach_Cluster m = cid then f(mach_ID m := Some m) else f) ms g mid = Some m \<Longrightarrow>
     g mid = Some m \<or> m \<in> set ms \<and> mach_Cluster m = cid \<and> mach_ID m = mid" for g ms
    by (induction ms arbitrary: g) (fastforce split: if_splits)+
  from this [of _ "\<lambda>_. None"] show "target_machines cid w mid = Some m \<Longrightarrow> ?thesis"
    by (fastforce simp: target_machines_def cluster_machine_map_def)
qed

lemma find_mem: "find P xs = Some x \<Longrightarrow> x \<in> set xs \<and> P x"
  by (induction xs) (auto split: if_splits)

lemma target_instance_mem:
  assumes "architectureInstanceForNode node (target_instances cid w mid) = Some i"
  shows "i \<in> set (w_instances w) \<and> inst_MachineID i = mid"
proof -
  let ?is = "target_instances cid w mid"
  have "hd ?is \<in> set ?is" if "length ?is = 1" using that by (metis length_0_conv list.set_sel(1) zero_neq_one)
  then have "i \<in> set ?is"
    using assms by (auto simp: architectureInstanceForNode_def dest: find_mem split: if_splits)
  then show ?thesis by (auto simp: target_instances_def instances_by_machine_def split: if_splits)
qed

lemma unique_server:
  assumes "node_server_count instances nodes (inst_ServerID i) \<le> 1" "distinct nodes"
    and "node \<in> set nodes" "architectureInstanceForNode node (instances (an_MachineID node)) = Some i"
    and "other \<in> set nodes" "other \<noteq> node" "architectureInstanceForNode other (instances (an_MachineID other)) = Some j"
  shows "inst_ServerID j \<noteq> inst_ServerID i"
proof
  assume same: "inst_ServerID j = inst_ServerID i"
  let ?f = "filter (\<lambda>node. case architectureInstanceForNode node (instances (an_MachineID node)) of
        None \<Rightarrow> False | Some k \<Rightarrow> inst_ServerID k = inst_ServerID i) nodes"
  have "{node, other} \<subseteq> set ?f" using assms same by auto
  then have "card {node, other} \<le> length ?f" using card_length [of ?f] card_mono [of "set ?f"] by (meson List.finite_set le_trans)
  then show False using assms(1,6) by (simp add: node_server_count_def)
qed

text \<open>C39: When a plan for a replicated architecture is executable, its selected candidate is a target node with the
  master role and no delay that is registered in the cluster, has an instance that is not known to be
  down and whose server id no other target has, and is not the master to be replaced; a VIP is moved only
  with agents at hand, and unless only the VIP moves every target's agent has the credential capability.\<close>

theorem executable_plan_sound:
  assumes "PlanArchitectureAdjustment tasks planID clusterID req w = (Inr plan, w')"
    and "pl_Executable plan" "ar_Architecture req \<noteq> ArchitectureStandalone"
  shows "\<exists>node \<in> set (ar_Nodes req). \<exists>m \<in> set (w_machines w). \<exists>i \<in> set (w_instances w).
      cs_MachineID (pl_SelectedCandidate plan) = an_MachineID node \<and> role_of node = ''M'' \<and> an_DelaySeconds node = 0 \<and>
      mach_ID m = an_MachineID node \<and> mach_Cluster m = trim_space clusterID \<and>
      inst_MachineID i = an_MachineID node \<and> (inst_Status i = [] \<or> equal_fold (inst_Status i) StatusRunning) \<and>
      (\<forall>n \<in> set (ar_Nodes req). \<forall>j. n \<noteq> node \<and>
         architectureInstanceForNode n (target_instances (trim_space clusterID) w (an_MachineID n)) = Some j \<longrightarrow>
         inst_ServerID j \<noteq> inst_ServerID i) \<and>
      (ar_CurrentMasterMachineID req = [] \<or> an_MachineID node \<noteq> ar_CurrentMasterMachineID req \<or>
       ar_PreferredNewMasterMachineID req = ar_CurrentMasterMachineID req \<and> \<not> ar_MoveVIP req) \<and>
      (ar_MoveVIP req \<longrightarrow> tasks \<noteq> None) \<and>
      (\<forall>channels. tasks = Some channels \<and> \<not> ar_VIPOnly req \<longrightarrow>
         (\<forall>n \<in> set (ar_Nodes req). fst (MachineCapability (an_MachineID n) CapabilityMySQLDefaultsFile channels)))"
proof -
  let ?cid = "trim_space clusterID"
  let ?ms = "target_machines ?cid w" and ?is = "target_instances ?cid w"
  from assms(1) obtain now f where val: "validateArchitectureRequest req = None" and f: "keeps_choice f"
    and plan: "plan = (check_move_vip (tasks = None) req (f (plan_of_scores tasks req ?ms
       (architectureCandidateScores ?cid req ?ms ?is) (empty_plan planID ?cid (ar_Architecture req) now))))
       \<lparr>pl_Steps := architecturePlanSteps req\<rparr>" by (rule plan_run)
  let ?p = "plan_of_scores tasks req ?ms (architectureCandidateScores ?cid req ?ms ?is) (empty_plan planID ?cid (ar_Architecture req) now)"
  have acc: "accepted_request req" using val by (simp add: validate_accepted)
  have ex2: "pl_Executable (check_move_vip (tasks = None) req (f ?p))" using assms(2) plan by simp
  then have ex: "pl_Executable ?p" using keeps_choiceD(1) [OF keeps_choice_move] keeps_choiceD(1) [OF f] by blast
  from plan_of_scores_choice(1) [OF ex assms(3)] obtain best ranked
    where sel: "Select_candidate (architectureCandidateScores ?cid req ?ms ?is) = (best, ranked, None)"
      and best: "pl_SelectedCandidate ?p = best" by blast
  have chosen: "pl_SelectedCandidate plan = best"
    using best plan by (simp add: keeps_choiceD(2) [OF keeps_choice_move] keeps_choiceD(2) [OF f])
  from selected_node [OF sel] obtain node where node: "node \<in> set (ar_Nodes req)" "electable req ?ms ?is node"
    "best = with_final_score (node_score ?cid req ?ms ?is node)" by blast
  from node(2) obtain m i where mi: "?ms (an_MachineID node) = Some m"
    "architectureInstanceForNode node (?is (an_MachineID node)) = Some i"
    by (auto simp: electable_def split: option.splits)
  have i: "inst_Status i = [] \<or> equal_fold (inst_Status i) StatusRunning"
    "node_server_count ?is (ar_Nodes req) (inst_ServerID i) \<le> 1" "role_of node = ''M''"
    "ar_CurrentMasterMachineID req = [] \<or> an_MachineID node \<noteq> ar_CurrentMasterMachineID req \<or>
     ar_PreferredNewMasterMachineID req = ar_CurrentMasterMachineID req"
    using node(2) mi(2) assms(3) by (simp_all add: electable_def)
  have "distinct (ar_Nodes req)" using acc by (auto simp: accepted_request_def distinct_map)
  note unique = unique_server [OF i(2) this node(1) mi(2)]
  have delay: "an_DelaySeconds node = 0"
    using electable_delay [OF node(2)] acc node(1) by (force simp: accepted_request_def node_ok_def)
  have vip: "ar_MoveVIP req \<Longrightarrow> tasks \<noteq> None" using check_move_vip_ok(1) [OF ex2] by blast
  have moved: "ar_MoveVIP req \<Longrightarrow> ar_CurrentMasterMachineID req \<noteq> [] \<Longrightarrow>
      ar_PreferredNewMasterMachineID req \<noteq> ar_CurrentMasterMachineID req"
    using acc by (simp add: accepted_request_def vip_target_fits_def)
  show ?thesis
    using target_machines_mem [OF mi(1)] target_instance_mem [OF mi(2)] i(1,3,4) unique delay vip moved chosen node(1,3)
      plan_of_scores_choice(2) [OF ex assms(3)]
    by (intro bexI [of _ node] bexI [of _ m] bexI [of _ i] conjI) auto
qed

definition two_machine_world :: world where
  "two_machine_world = (empty_world 0)\<lparr>
     w_machines := [no_machine\<lparr>mach_ID := ''m1'', mach_Cluster := ''c1''\<rparr>, no_machine\<lparr>mach_ID := ''m2'', mach_Cluster := ''c1''\<rparr>],
     w_instances := [a_running_instance\<lparr>inst_MachineID := ''m1'', inst_ServerID := 1\<rparr>, a_running_instance]\<rparr>"

subsection \<open>When planning succeeds\<close>

lemma add_vip_same:
  assumes "vc_VIPRouteMode v = mode" "mode \<noteq> []" "pl_VIPAddresses p \<noteq> [] \<longrightarrow> pl_VIPRouteMode p = mode"
  shows "add_vip v p = p\<lparr>pl_VIPAddresses := pl_VIPAddresses p @ [vc_VIPAddress v], pl_VIPRouteMode := mode\<rparr>"
  using assms by (cases "pl_VIPAddresses p = []") (simp_all add: add_vip_def Let_def)

lemma add_vips_same:
  assumes "\<forall>v \<in> set vs. vc_VIPRouteMode v = mode" "mode \<noteq> []" "pl_VIPAddresses p = []"
  shows "vs \<noteq> [] \<Longrightarrow> fold add_vip vs p = p\<lparr>pl_VIPAddresses := map vc_VIPAddress vs, pl_VIPRouteMode := mode\<rparr>"
  using assms(1)
proof (induction vs rule: rev_induct)
  case (snoc v vs)
  show ?case
  proof (cases "vs = []")
    case True
    then show ?thesis using snoc.prems assms(3) by (simp add: add_vip_same [OF _ assms(2)])
  next
    case False
    then show ?thesis using snoc by (simp add: add_vip_same [OF _ assms(2)])
  qed
qed simp

lemma network_policy_run:
  "w_faults w = [] \<Longrightarrow> \<exists>r w'. GetNetworkPolicy cid w = (r, w') \<and> w_faults w' = [] \<and> w_configs w' = w_configs w"
  by (auto simp add: GetNetworkPolicy_def EnsureDefaultPolicies_def one_row_def on_ok_def Let_def split: option.splits)

abbreviation cluster_vips :: "string \<Rightarrow> world \<Rightarrow> vip_config list" where
  "cluster_vips cid w \<equiv> stable_sort (\<lambda>a b. vc_ID a < vc_ID b) (filter (\<lambda>c. vc_ClusterID c = cid \<and> vc_Enabled c) (w_configs w))"

lemma list_vips_run:
  "w_faults w = [] \<Longrightarrow> ListVIPConfigs cid w = (Inr (cluster_vips (trim_space cid) w), w)"
  by (simp add: ListVIPConfigs_def)

lemma finish_plan_executable:
  assumes "w_faults w = []" "pl_Executable p" "pl_VIPAddresses p = []"
    and "\<forall>v \<in> set (cluster_vips (trim_space cid) w). vc_VIPRouteMode v = mode" "mode = VipRouteModeL2ARP \<or> mode = VipRouteModeBGP"
    and "ar_MoveVIP req \<Longrightarrow> \<not> no_tasks \<and> cluster_vips (trim_space cid) w \<noteq> []"
  shows "\<exists>plan w'. finish_plan no_tasks cid req p w = (Inr plan, w') \<and> pl_Executable plan \<and>
     pl_SelectedCandidate plan = pl_SelectedCandidate p"
proof -
  obtain network w1 where n: "GetNetworkPolicy cid w = (network, w1)" "w_faults w1 = []" "w_configs w1 = w_configs w"
    using network_policy_run [OF assms(1)] by blast
  let ?vs = "cluster_vips (trim_space cid) w"
  have l: "ListVIPConfigs cid w1 = (Inr ?vs, w1)" using list_vips_run [OF n(2)] n(3) by simp
  define q where "q = (case network of Inr n \<Rightarrow> p\<lparr>pl_VIPRouteMode := np_VIPRouteMode n\<rparr> | Inl _ \<Rightarrow> p)"
  have q: "pl_Executable q" "pl_VIPAddresses q = []" "pl_SelectedCandidate q = pl_SelectedCandidate p"
    using assms(2,3) by (cases network; simp add: q_def)+
  define r where "r = fold add_vip ?vs q"
  have mode: "mode \<noteq> []" using assms(5) by auto
  have r: "pl_Executable r" "?vs \<noteq> [] \<longrightarrow> pl_VIPAddresses r \<noteq> [] \<and> pl_VIPRouteMode r = mode"
    using add_vips_same [OF assms(4) mode q(2)] q(1) unfolding r_def by (cases "?vs = []"; simp)+
  have moved: "pl_Executable (check_move_vip no_tasks req r)"
  proof (cases "ar_MoveVIP req")
    case True
    then have "pl_VIPAddresses r \<noteq> []" "pl_VIPRouteMode r = mode" "\<not> no_tasks" using assms(6) r(2) by blast+
    then show ?thesis using r(1) assms(5) by (auto simp: check_move_vip_def)
  next
    case False
    then show ?thesis using r(1) by (simp add: check_move_vip_def)
  qed
  have "finish_plan no_tasks cid req p w = (Inr ((check_move_vip no_tasks req r)\<lparr>pl_Steps := architecturePlanSteps req\<rparr>), w1)"
    by (simp add: finish_plan_def with_result_def n(1) l Let_def r_def q_def)
  moreover have "pl_SelectedCandidate (check_move_vip no_tasks req r) = pl_SelectedCandidate p"
    unfolding keeps_choiceD(2) [OF keeps_choice_move] r_def keeps_choiceD(2) [OF keeps_choice_vips] by (rule q(3))
  ultimately show ?thesis using moved by simp
qed

lemma capable_plan:
  assumes "\<forall>n \<in> set nodes. fst (MachineCapability (an_MachineID n) CapabilityMySQLDefaultsFile channels)"
  shows "fold (check_capability channels machines) nodes p = p"
  using assms by (induction nodes arbitrary: p) (auto simp: check_capability_def split: prod.splits)

lemma select_some:
  assumes "c \<in> set scores" "cs_Eligible c"
  obtains best ranked where "Select_candidate scores = (best, ranked, None)"
proof -
  have "snd (snd (Select_candidate scores)) = None" using Select_candidate_error_iff [of scores] assms by blast
  then show ?thesis by (metis prod.collapse that)
qed

text \<open>When the database answers, every target's agent is capable, the cluster's VIPs share one executable
  route mode and the preferred node is electable, planning a replicated architecture gives an executable
  plan, and with operator priorities below one million its selected candidate is the preferred node.\<close>

theorem preferred_node_planned:
  assumes "w_faults w = []" "trim_space clusterID \<noteq> []" "length (ar_Nodes req) \<ge> 2" "ar_Architecture req \<noteq> ArchitectureStandalone"
    and "validateArchitectureRequest req = None"
    and "\<forall>n \<in> set (ar_Nodes req). fst (MachineCapability (an_MachineID n) CapabilityMySQLDefaultsFile channels) \<and>
           \<bar>an_ElectionPriority n\<bar> < million"
    and "\<forall>v \<in> set (cluster_vips (trim_space clusterID) w). vc_VIPRouteMode v = mode" "mode \<in> {VipRouteModeL2ARP, VipRouteModeBGP}"
    and "ar_MoveVIP req \<longrightarrow> cluster_vips (trim_space clusterID) w \<noteq> []"
    and "p \<in> set (ar_Nodes req)" "an_MachineID p = ar_PreferredNewMasterMachineID req"
    and "electable req (target_machines (trim_space clusterID) w) (target_instances (trim_space clusterID) w) p"
  shows "\<exists>plan w'. PlanArchitectureAdjustment (Some channels) planID clusterID req w = (Inr plan, w') \<and>
     pl_Executable plan \<and> cs_MachineID (pl_SelectedCandidate plan) = ar_PreferredNewMasterMachineID req"
proof -
  let ?cid = "trim_space clusterID"
  let ?ms = "target_machines ?cid w" and ?is = "target_instances ?cid w"
  let ?scores = "architectureCandidateScores ?cid req ?ms ?is"
  let ?p = "plan_of_scores (Some channels) req ?ms ?scores (empty_plan planID ?cid (ar_Architecture req) (w_clock w))"
  have acc: "accepted_request req" using assms(5) by (simp add: validate_accepted)
  have nodes: "\<And>node. node \<in> set (ar_Nodes req) \<Longrightarrow> an_DelaySeconds node \<ge> 0 \<and> \<bar>an_ElectionPriority node\<bar> < million"
    using acc assms(6) by (simp add: accepted_request_def node_ok_def)
  have named: "an_MachineID p \<noteq> []"
    using acc assms(10) by (auto simp add: accepted_request_def node_ok_def trim_space_def)
  have "node_score ?cid req ?ms ?is p \<in> set ?scores" using assms(10) by (simp add: architectureCandidateScores_def)
  then obtain best ranked where sel: "Select_candidate ?scores = (best, ranked, None)"
    by (rule select_some) (simp add: assms(12))
  have best: "cs_MachineID best = an_MachineID p"
    by (rule preferred_selected [OF sel nodes assms(10,11) named assms(12)])
  have "fold (check_capability channels ?ms) (ar_Nodes req) q = q" for q
    using assms(6) by (intro capable_plan) blast
  then have p: "pl_Executable ?p" "pl_VIPAddresses ?p = []" "pl_SelectedCandidate ?p = best"
    using assms(4) by (simp_all add: plan_of_scores_def choose_candidate_def sel empty_plan_def)
  have "\<exists>plan w'. finish_plan False ?cid req ?p w = (Inr plan, w') \<and> pl_Executable plan \<and> pl_SelectedCandidate plan = pl_SelectedCandidate ?p"
    by (rule finish_plan_executable [OF assms(1) p(1,2)]) (use assms(7,8,9) in \<open>simp_all add: trim_space_idem\<close>)
  then obtain plan w' where run: "finish_plan False ?cid req ?p w = (Inr plan, w')" "pl_Executable plan" "pl_SelectedCandidate plan = best"
    using p(3) by auto
  have "PlanArchitectureAdjustment (Some channels) planID clusterID req w = finish_plan False ?cid req ?p w"
    using assms(1,2,3,5) by (simp add: PlanArchitectureAdjustment_def Let_def machines_List_def instances_List_def on_ok_def
        target_machines_def target_instances_def)
  then have "PlanArchitectureAdjustment (Some channels) planID clusterID req w = (Inr plan, w')" using run(1) by simp
  then show ?thesis using run(2,3) best assms(11) by auto
qed

definition capable_channels :: task_channels where
  "capable_channels = RegisterAgentForMachineWithCapabilities ''a2'' ''m2'' 2 [CapabilityMySQLDefaultsFile]
     (RegisterAgentForMachineWithCapabilities ''a1'' ''m1'' 1 [CapabilityMySQLDefaultsFile] no_channels)"

lemma switch_request_facts:
  "validateArchitectureRequest switch_request = None"
  "\<forall>n \<in> set (ar_Nodes switch_request). fst (MachineCapability (an_MachineID n) CapabilityMySQLDefaultsFile capable_channels)"
  "electable switch_request (target_machines ''c1'' two_machine_world) (target_instances ''c1'' two_machine_world) (node_at ''m2'' ''M'' 0)"
  by code_simp+

lemma trim_c1 [simp]: "trim_space ''c1'' = ''c1''"
  by (simp add: trim_space_def is_space_def)

lemma switch_request_nodes:
  "ar_Nodes switch_request = [node_at ''m1'' ''S'' 0, node_at ''m2'' ''M'' 0]"
  "ar_PreferredNewMasterMachineID switch_request = ''m2''" "ar_Architecture switch_request = ArchitectureMasterSlave"
  "\<not> ar_MoveVIP switch_request" "\<not> ar_VIPOnly switch_request"
  by (simp_all add: switch_request_def)

lemma two_machine_world_facts:
  "w_faults two_machine_world = []" "cluster_vips ''c1'' two_machine_world = []"
  by (simp_all add: two_machine_world_def empty_world_def)

theorem preferred_node_planned_witness:
  "\<exists>plan w'. PlanArchitectureAdjustment (Some capable_channels) ''arch-1'' ''c1'' switch_request two_machine_world = (Inr plan, w') \<and>
     pl_Executable plan \<and> cs_MachineID (pl_SelectedCandidate plan) = ''m2''"
proof -
  have "\<exists>plan w'. PlanArchitectureAdjustment (Some capable_channels) ''arch-1'' ''c1'' switch_request two_machine_world = (Inr plan, w') \<and>
     pl_Executable plan \<and> cs_MachineID (pl_SelectedCandidate plan) = ar_PreferredNewMasterMachineID switch_request"
  proof (rule preferred_node_planned [where mode = VipRouteModeBGP and p = "node_at ''m2'' ''M'' 0"])
    show "\<forall>n \<in> set (ar_Nodes switch_request). fst (MachineCapability (an_MachineID n) CapabilityMySQLDefaultsFile capable_channels) \<and>
           \<bar>an_ElectionPriority n\<bar> < million"
      using switch_request_facts(2) by (simp add: switch_request_nodes) (simp add: node_at_def)
    show "electable switch_request (target_machines (trim_space ''c1'') two_machine_world)
            (target_instances (trim_space ''c1'') two_machine_world) (node_at ''m2'' ''M'' 0)"
      unfolding trim_c1 by (rule switch_request_facts(3))
    show "validateArchitectureRequest switch_request = None" by (rule switch_request_facts(1))
    show "an_MachineID (node_at ''m2'' ''M'' 0) = ar_PreferredNewMasterMachineID switch_request"
      unfolding switch_request_nodes by (simp add: node_at_def)
  qed (simp_all add: switch_request_nodes two_machine_world_facts)
  then show ?thesis unfolding switch_request_nodes .
qed

lemma no_tasks_plan:
  "\<exists>plan w'. PlanArchitectureAdjustment None ''arch-1'' ''c1'' switch_request two_machine_world = (Inr plan, w') \<and> pl_Executable plan"
proof -
  let ?ms = "target_machines ''c1'' two_machine_world" and ?is = "target_instances ''c1'' two_machine_world"
  let ?scores = "architectureCandidateScores ''c1'' switch_request ?ms ?is"
  have "node_score ''c1'' switch_request ?ms ?is (node_at ''m2'' ''M'' 0) \<in> set ?scores"
    by (simp add: architectureCandidateScores_def switch_request_nodes)
  then obtain best ranked where sel: "Select_candidate ?scores = (best, ranked, None)"
    by (rule select_some) (simp add: switch_request_facts(3))
  let ?p = "plan_of_scores None switch_request ?ms ?scores
    (empty_plan ''arch-1'' ''c1'' (ar_Architecture switch_request) (w_clock two_machine_world))"
  have p: "pl_Executable ?p" "pl_VIPAddresses ?p = []"
    by (simp_all add: plan_of_scores_def choose_candidate_def sel empty_plan_def switch_request_nodes)
  obtain plan w' where run: "finish_plan True ''c1'' switch_request ?p two_machine_world = (Inr plan, w')" "pl_Executable plan"
    using finish_plan_executable [OF two_machine_world_facts(1) p, of "''c1''" VipRouteModeBGP switch_request True]
    by (auto simp: two_machine_world_facts switch_request_nodes)
  have "PlanArchitectureAdjustment None ''arch-1'' ''c1'' switch_request two_machine_world = finish_plan True ''c1'' switch_request ?p two_machine_world"
    using two_machine_world_facts(1) switch_request_facts(1)
    by (simp add: PlanArchitectureAdjustment_def Let_def machines_List_def instances_List_def on_ok_def
        target_machines_def target_instances_def switch_request_nodes)
  with run show ?thesis by auto
qed

theorem executable_plan_sound_witness:
  "\<exists>(plan :: arch_plan) (node :: arch_node). pl_Executable plan \<and> cs_MachineID (pl_SelectedCandidate plan) = an_MachineID node \<and>
     node \<in> set (ar_Nodes switch_request) \<and> role_of node = ''M'' \<and> an_MachineID node \<noteq> ''m1''"
proof -
  obtain plan w' where run: "PlanArchitectureAdjustment None ''arch-1'' ''c1'' switch_request two_machine_world = (Inr plan, w')" "pl_Executable plan"
    using no_tasks_plan by blast
  have arch: "ar_Architecture switch_request \<noteq> ArchitectureStandalone" by (simp add: switch_request_nodes)
  have cur: "ar_CurrentMasterMachineID switch_request = ''m1''" by (simp add: switch_request_def)
  obtain node where node: "node \<in> set (ar_Nodes switch_request)" "cs_MachineID (pl_SelectedCandidate plan) = an_MachineID node"
    "role_of node = ''M''" "''m1'' = [] \<or> an_MachineID node \<noteq> ''m1'' \<or> ''m2'' = ''m1'' \<and> \<not> ar_MoveVIP switch_request"
    using executable_plan_sound [OF run arch] unfolding cur switch_request_nodes(2) by blast
  from node(4) have "an_MachineID node \<noteq> ''m1''" by simp
  with node(1-3) run(2) show ?thesis by (intro exI [of _ plan] exI [of _ node] conjI)
qed

subsection \<open>A VIP-only move to another master than requested\<close>

definition vip_only_request :: arch_request where
  "vip_only_request = switch_request\<lparr>ar_Architecture := ArchitectureDualMaster, ar_CurrentArchitecture := ArchitectureDualMaster,
     ar_CurrentMasterMachineID := [], ar_MoveVIP := True, ar_VIPOnly := True,
     ar_Nodes := [node_at ''m1'' ''M'' 0, node_at ''m2'' ''M'' 0]\<rparr>"

definition stopped_target_world :: world where
  "stopped_target_world = two_machine_world\<lparr>
     w_instances := [a_running_instance\<lparr>inst_MachineID := ''m1'', inst_ServerID := 1\<rparr>, a_running_instance\<lparr>inst_Status := ''stopped''\<rparr>],
     w_configs := [no_config\<lparr>vc_ClusterID := ''c1'', vc_VIPAddress := ''10.0.0.9'', vc_VIPRouteMode := VipRouteModeL2ARP, vc_Enabled := True\<rparr>]\<rparr>"

lemma vip_only_facts:
  "validateArchitectureRequest vip_only_request = None"
  "electable vip_only_request (target_machines ''c1'' stopped_target_world) (target_instances ''c1'' stopped_target_world) (node_at ''m1'' ''M'' 0)"
  "\<not> electable vip_only_request (target_machines ''c1'' stopped_target_world) (target_instances ''c1'' stopped_target_world) (node_at ''m2'' ''M'' 0)"
  by code_simp+

text \<open>A VIP-only request for the master \<open>m2\<close>, whose instance is stopped, is not refused: it is planned as an
  executable move to the other master \<open>m1\<close>.\<close>

theorem vip_only_selects_another_master:
  "\<exists>plan w'. PlanArchitectureAdjustment (Some capable_channels) ''arch-1'' ''c1'' vip_only_request stopped_target_world = (Inr plan, w') \<and>
     pl_Executable plan \<and> ar_PreferredNewMasterMachineID vip_only_request = ''m2'' \<and>
     cs_MachineID (pl_SelectedCandidate plan) = ''m1''"
proof -
  let ?w = stopped_target_world and ?req = vip_only_request
  let ?ms = "target_machines ''c1'' ?w" and ?is = "target_instances ''c1'' ?w"
  let ?scores = "architectureCandidateScores ''c1'' ?req ?ms ?is"
  have req: "ar_VIPOnly ?req" "ar_MoveVIP ?req" "ar_Architecture ?req = ArchitectureDualMaster" "length (ar_Nodes ?req) = 2"
    "ar_PreferredNewMasterMachineID ?req = ''m2''" "ar_Nodes ?req = [node_at ''m1'' ''M'' 0, node_at ''m2'' ''M'' 0]"
    by (simp_all add: vip_only_request_def switch_request_def)
  have w: "w_faults ?w = []" by (simp add: stopped_target_world_def two_machine_world_facts)
  have vips: "cluster_vips ''c1'' ?w \<noteq> []" "\<forall>v \<in> set (cluster_vips ''c1'' ?w). vc_VIPRouteMode v = VipRouteModeL2ARP"
    by (simp_all add: stopped_target_world_def)
  have "node_score ''c1'' ?req ?ms ?is (node_at ''m1'' ''M'' 0) \<in> set ?scores"
    by (simp add: architectureCandidateScores_def req)
  then obtain best ranked where sel: "Select_candidate ?scores = (best, ranked, None)"
    by (rule select_some) (simp add: vip_only_facts(2))
  have m1: "cs_MachineID best = ''m1''"
    using selected_node [OF sel] vip_only_facts(3) by (auto simp: req(6)) (simp add: node_at_def)
  let ?p = "plan_of_scores (Some capable_channels) ?req ?ms ?scores (empty_plan ''arch-1'' ''c1'' (ar_Architecture ?req) (w_clock ?w))"
  have p: "pl_Executable ?p" "pl_VIPAddresses ?p = []" "pl_SelectedCandidate ?p = best"
    by (simp_all add: plan_of_scores_def choose_candidate_def sel empty_plan_def req)
  obtain plan w' where run: "finish_plan False ''c1'' ?req ?p ?w = (Inr plan, w')" "pl_Executable plan" "pl_SelectedCandidate plan = best"
    using finish_plan_executable [OF w p(1,2), of "''c1''" VipRouteModeL2ARP ?req False] vips p(3) by auto
  have "PlanArchitectureAdjustment (Some capable_channels) ''arch-1'' ''c1'' ?req ?w = finish_plan False ''c1'' ?req ?p ?w"
    using w vip_only_facts(1)
    by (simp add: PlanArchitectureAdjustment_def Let_def machines_List_def instances_List_def on_ok_def
        target_machines_def target_instances_def req)
  with run m1 show ?thesis by (simp add: req)
qed

end
