(* ===== verification/Arch_Commands.thy ===== *)
theory Arch_Commands
  imports Shell_Commands
begin

text \<open>
  The remaining command texts of \<open>internal/app/architecture_executor.go\<close>: preflight, catch-up and
  verification checks, the Percona Toolkit commands and the statements the executor writes inline. The
  templates use the marks of \<open>shtx\<close>.
\<close>

subsection \<open>Checks\<close>

definition architecturePreflightCommand :: "string \<Rightarrow> int \<Rightarrow> string" where
  "architecturePreflightCommand password port =
     (let client = mysqlArchitectureClient password port;
          probe = client @ '' --batch --raw --execute='' @ shellQuote ''SELECT @@hostname,@@port,@@server_id,@@read_only,@@super_read_only,@@offline_mode,@@global.gtid_mode; SELECT COUNT(*) FROM performance_schema.threads;'';
          grants = client @ '' --batch --skip-column-names --execute='' @ shellQuote ''SHOW GRANTS FOR CURRENT_USER''
      in probe @ '' || exit 70; grant_output=$('' @ grants @ '') || exit 70; '' @
         shtx ''printf #%s?n# `$grant_output` | grep -Eiq #GRANT (ALL PRIVILEGES|.*SUPER)|SYSTEM_VARIABLES_ADMIN# || { echo #MySQL management account requires SUPER or SYSTEM_VARIABLES_ADMIN for architecture changes# >&2; exit 77; }; '' @
         shtx ''printf #%s?n# `$grant_output` | grep -Eiq #GRANT ALL PRIVILEGES|REPLICATION (SLAVE|REPLICA)# || { echo #MySQL management account requires REPLICATION SLAVE for architecture changes# >&2; exit 77; }'')"

definition replicationCatchupCommand :: "string \<Rightarrow> int \<Rightarrow> string" where
  "replicationCatchupCommand password port =
     (let client = mysqlArchitectureClient password port;
          scalarClient = client @ '' --batch --skip-column-names'';
          gtidSQL = shtx ''SELECT IF(GTID_SUBSET(COALESCE((SELECT RECEIVED_TRANSACTION_SET FROM performance_schema.replication_connection_status LIMIT 1),##),@@GLOBAL.gtid_executed),#YES#,#NO#)''
      in shtx ''i=0; while [ $i -lt 60 ]; do status=$('' @ client @ shtx '' -e #SHOW REPLICA STATUS?G# 2>/dev/null || '' @ client @
         shtx '' -e #SHOW SLAVE STATUS?G# 2>/dev/null) || exit 70; lag=$(printf #%s?n# `$status` | awk -F#: # #/Seconds_Behind_(Source|Master)/ {print $2; exit}#); io=$(printf #%s?n# `$status` | awk -F#: # #/Replica_IO_Running|Slave_IO_Running/ {print $2; exit}#); sql=$(printf #%s?n# `$status` | awk -F#: # #/Replica_SQL_Running|Slave_SQL_Running/ {print $2; exit}#); gtid=$('' @
         scalarClient @ '' -e '' @ shellQuote gtidSQL @
         shtx '' 2>/dev/null) || exit 70; if [ `$lag` = 0 ] && [ `$io` = Yes ] && [ `$sql` = Yes ] && [ `$gtid` = YES ]; then echo GMHA_REPLICATION_CAUGHT_UP; exit 0; fi; i=$((i+1)); sleep 1; done; echo GMHA_REPLICATION_TIMEOUT >&2; exit 75'')"

definition delayedReplicationHealthCommand :: "string \<Rightarrow> int \<Rightarrow> int \<Rightarrow> string" where
  "delayedReplicationHealthCommand password port expectedDelay =
     (let client = mysqlArchitectureClient password port
      in ''status=$('' @ client @ shtx '' -e #SHOW REPLICA STATUS?G# 2>/dev/null || '' @ client @
         shtx '' -e #SHOW SLAVE STATUS?G# 2>/dev/null) || exit 70; configured=$(printf #%s?n# `$status` | awk -F#: # #/SQL_Delay/ {print $2; exit}#); io=$(printf #%s?n# `$status` | awk -F#: # #/Replica_IO_Running|Slave_IO_Running/ {print $2; exit}#); sql=$(printf #%s?n# `$status` | awk -F#: # #/Replica_SQL_Running|Slave_SQL_Running/ {print $2; exit}#); [ `$configured` = '' @
         show_int expectedDelay @ shtx '' ] && [ `$io` = Yes ] && [ `$sql` = Yes ]'')"

definition verifyArchitectureNodeCommand :: "arch_request \<Rightarrow> arch_node \<Rightarrow> string \<Rightarrow> string" where
  "verifyArchitectureNodeCommand req node selectedPrimaryID =
     (let password = architectureRootPassword req (an_MachineID node);
          isDualMaster = (ar_Architecture req \<noteq> ArchitectureMasterSlave \<and> equal_fold (an_Role node) ''M'')
      in if an_MachineID node = selectedPrimaryID \<and> \<not> isDualMaster
         then mysqlArchitectureCommand password (an_Port node)
                (shtx ''SELECT IF(@@read_only=0 AND @@super_read_only=0,#ROLE_OK#,#ROLE_BAD#);'') @ '' | grep -Fxq ROLE_OK''
         else let expectedReadOnly = (if isDualMaster then ''0'' else ''1'')
         in if an_DelaySeconds node > 0 \<and> \<not> isDualMaster
            then delayedReplicationHealthCommand password (an_Port node) (an_DelaySeconds node) @ '' && '' @
                 mysqlArchitectureCommand password (an_Port node)
                   (shtx ''SELECT IF(@@read_only=1 AND @@super_read_only=1,#ROLE_OK#,#ROLE_BAD#);'') @ '' | grep -Fxq ROLE_OK''
            else replicationCatchupCommand password (an_Port node) @ '' && '' @
                 mysqlArchitectureCommand password (an_Port node)
                   (''SELECT IF(@@read_only='' @ expectedReadOnly @ '' AND @@super_read_only='' @ expectedReadOnly @
                    shtx '',#ROLE_OK#,#ROLE_BAD#);'') @ '' | grep -Fxq ROLE_OK'')"

subsection \<open>Percona Toolkit\<close>

definition installCompatiblePTCommand :: "string \<Rightarrow> int \<Rightarrow> string" where
  "installCompatiblePTCommand rootPassword port =
     (let client = mysqlArchitectureClient rootPassword port
      in ''mysql_version=$('' @ client @
         shtx '' --batch --skip-column-names --execute=#SELECT VERSION()# | cut -d- -f1); case `$mysql_version` in 5.7.*) min_pt=3.5.0 ;; 8.*|9.*) min_pt=3.7.1 ;; *) echo `unsupported MySQL version for automatic PT repair: $mysql_version` >&2; exit 76 ;; esac; '' @
         shtx ''command -v perl >/dev/null 2>&1 && perl -MDBI -MDBD::mysql -e 1 >/dev/null 2>&1 || { echo #Percona Toolkit offline dependencies are missing; install PT from the Manager offline bundle first# >&2; exit 77; }; '' @
         shtx ''command -v pt-table-sync >/dev/null 2>&1 || { echo #Percona Toolkit is not installed; enable offline PT installation for this MySQL instance# >&2; exit 77; }; '' @
         shtx ''pt_version=$(pt-table-sync --version | awk #{print $NF}#); [ `$(printf #%s?n# `$min_pt` `$pt_version` | sort -V | head -n1)` = `$min_pt` ] || { echo `Percona Toolkit $pt_version is below required $min_pt` >&2; exit 78; }; command -v pt-replica-restart >/dev/null; command -v pt-table-checksum >/dev/null'')"

definition ptArchitectureOptions :: "string \<Rightarrow> int \<Rightarrow> string" where
  "ptArchitectureOptions password port =
     (if password = []
      then ''--defaults-file=__GMHA_MYSQL_DEFAULTS_FILE__ --host=127.0.0.1 --port='' @ show_int port
      else ''--host=127.0.0.1 --port='' @ show_int port @ '' --user=root --password='' @ shellQuote password)"

definition businessTablesSQL :: string where
  "businessTablesSQL = shtx ''SELECT COUNT(*) FROM information_schema.tables WHERE table_schema NOT IN (#mysql#,#sys#,#performance_schema#,#information_schema#,#gmha#,#percona#) AND table_type=#BASE TABLE#''"

definition ptChecksumCommand :: "string \<Rightarrow> int \<Rightarrow> string" where
  "ptChecksumCommand password port =
     (let client = mysqlArchitectureClient password port @ '' --batch --skip-column-names''
      in ''business_tables=$('' @ client @ '' --execute='' @ shellQuote businessTablesSQL @ '') || exit 70; '' @
         shtx ''if [ `$business_tables` = 0 ]; then echo GMHA_PT_NO_BUSINESS_TABLES; exit 0; fi; '' @
         ''pt-table-checksum '' @ ptArchitectureOptions password port @
         '' --replicate=percona.checksums --create-replicate-table --no-check-replication-filters --no-check-binlog-format --ignore-databases=mysql,sys,performance_schema,information_schema,gmha,percona'')"

definition ptChecksumVerificationCommand :: "string \<Rightarrow> int \<Rightarrow> string" where
  "ptChecksumVerificationCommand password port =
     (let client = mysqlArchitectureClient password port @ '' --batch --skip-column-names'';
          checkSQL = shtx ''SELECT IF(COALESCE(SUM(master_crc<>this_crc OR master_cnt<>this_cnt),0)=0,#PT_VERIFY_OK#,#PT_VERIFY_DIFF#) FROM percona.checksums WHERE db NOT IN (#mysql#,#sys#,#performance_schema#,#information_schema#,#gmha#,#percona#);''
      in ''business_tables=$('' @ client @ '' --execute='' @ shellQuote businessTablesSQL @ '') || exit 70; '' @
         shtx ''if [ `$business_tables` = 0 ]; then echo PT_VERIFY_OK; exit 0; fi; '' @
         mysqlArchitectureCommand password port checkSQL @ '' | grep -Fxq PT_VERIFY_OK'')"

definition ptRestartCommand :: "string \<Rightarrow> int \<Rightarrow> string" where
  "ptRestartCommand password port =
     ''pt-replica-restart '' @ ptArchitectureOptions password port @ '' --max-sleep=5 --run-time=60s''"

definition ptSyncCommand :: "string \<Rightarrow> int \<Rightarrow> string" where
  "ptSyncCommand password port =
     ''pt-table-sync '' @ ptArchitectureOptions password port @
     '' --execute --replicate=percona.checksums --sync-to-source --no-check-triggers''"

definition ptDiffCommand :: "string \<Rightarrow> int \<Rightarrow> string" where
  "ptDiffCommand password port =
     mysqlArchitectureCommand password port
       (shtx ''SELECT IF(COUNT(*)=0,#PT_SYNC_OK#,#PT_SYNC_DIFF#) FROM percona.checksums WHERE master_crc<>this_crc OR master_cnt<>this_cnt;'') @
     '' | grep -Fxq PT_SYNC_OK''"

subsection \<open>Statements of the executor\<close>

definition lockBusinessCommand :: "string \<Rightarrow> int \<Rightarrow> string" where
  "lockBusinessCommand password port =
     mysqlArchitectureCommand password port (shtx ''SET GLOBAL offline_mode=ON; SELECT IF(@@offline_mode=1,#BUSINESS_LOCKED#,#BUSINESS_OPEN#);'') @
     '' | grep -Fxq BUSINESS_LOCKED''"

definition freezeSQL :: string where
  "freezeSQL = ''SET GLOBAL offline_mode=ON; SET GLOBAL read_only=ON; SET GLOBAL super_read_only=ON; ''"

definition frozenCommand :: "string \<Rightarrow> int \<Rightarrow> string" where
  "frozenCommand password port =
     mysqlArchitectureCommand password port
       (freezeSQL @ shtx ''SELECT IF(@@offline_mode=1 AND @@read_only=1 AND @@super_read_only=1,#FROZEN#,#NOT_FROZEN#);'') @
     '' | grep -Fxq FROZEN''"

definition freezeOldMasterCommand :: "string \<Rightarrow> int \<Rightarrow> string" where
  "freezeOldMasterCommand password port =
     mysqlArchitectureCommand password port (freezeSQL @ ''SELECT @@offline_mode,@@read_only,@@super_read_only;'')"

text \<open>Unlike \<open>frozenCommand\<close> the fencing command has no \<open>grep\<close> on its answer.\<close>

definition fenceOldMasterCommand :: "string \<Rightarrow> int \<Rightarrow> string" where
  "fenceOldMasterCommand password port =
     mysqlArchitectureCommand password port
       (freezeSQL @ shtx ''SELECT IF(@@offline_mode=1 AND @@read_only=1 AND @@super_read_only=1,#FENCED#,#NOT_FENCED#);'')"

definition promoteCommand :: "string \<Rightarrow> int \<Rightarrow> string" where
  "promoteCommand password port =
     (let client = mysqlArchitectureClient password port
      in replicationStopResetShell client @ client @ '' --batch --raw --execute='' @
         shellQuote ''SET GLOBAL offline_mode=ON; SET GLOBAL super_read_only=OFF; SET GLOBAL read_only=OFF; SELECT @@offline_mode,@@read_only,@@super_read_only;'')"

definition restoreWriterCommand :: "string \<Rightarrow> int \<Rightarrow> string" where
  "restoreWriterCommand password port =
     mysqlArchitectureCommand password port ''SET GLOBAL super_read_only=OFF; SET GLOBAL read_only=OFF; SET GLOBAL offline_mode=OFF;''"

definition resumeBusinessCommand :: "string \<Rightarrow> int \<Rightarrow> string" where
  "resumeBusinessCommand password port =
     mysqlArchitectureCommand password port (shtx ''SET GLOBAL offline_mode=OFF; SELECT IF(@@offline_mode=0,#ONLINE#,#OFFLINE#);'') @
     '' | grep -Fxq ONLINE''"

definition electionProbeSQL :: string where
  "electionProbeSQL = shtx ''SELECT CONCAT_WS(#|#,@@server_id,@@global.gtid_mode,@@global.gtid_executed,@@read_only,@@super_read_only);''"

definition independentProbeSQL :: string where
  "independentProbeSQL = shtx ''SELECT CONCAT_WS(#|#,@@server_id,@@global.gtid_mode,@@read_only,@@super_read_only);''"

definition businessObjectsSQL :: string where
  "businessObjectsSQL = shtx ''SELECT COUNT(*) FROM information_schema.tables WHERE table_schema NOT IN (#mysql#,#sys#,#performance_schema#,#information_schema#,#gmha#,#percona#)''"

definition resetGTIDCommand :: "string \<Rightarrow> int \<Rightarrow> string \<Rightarrow> string" where
  "resetGTIDCommand password port executed =
     (let client = mysqlArchitectureClient password port
      in replicationStopResetShell client @
         ''if ! '' @ client @ shtx '' --execute=#RESET BINARY LOGS AND GTIDS# >/dev/null 2>&1; then '' @ client @
         shtx '' --execute=#RESET MASTER#; fi; '' @
         (if trim_space executed \<noteq> []
          then client @ '' --batch --skip-column-names --execute='' @
               shellQuote (''SET GLOBAL GTID_PURGED='' @ sqlLiteral executed @ ''; SELECT IF(GTID_SUBSET('' @ sqlLiteral executed @
                 shtx '',@@GLOBAL.gtid_executed),#GTID_BASELINE_OK#,#GTID_BASELINE_BAD#);'') @ '' | grep -Fxq GTID_BASELINE_OK''
          else ''echo GTID_BASELINE_OK''))"

definition replicationAccountSQL :: "string \<Rightarrow> string \<Rightarrow> string" where
  "replicationAccountSQL user password =
     (let account = sqlIdentifier user @ shtx ''@#%#''
      in ''CREATE USER IF NOT EXISTS '' @ account @ '' IDENTIFIED BY '' @ sqlLiteral password @
         ''; ALTER USER '' @ account @ '' IDENTIFIED BY '' @ sqlLiteral password @
         ''; GRANT REPLICATION SLAVE, REPLICATION CLIENT ON *.* TO '' @ account @ '';'')"

definition changeSourceShell :: "string \<Rightarrow> string \<Rightarrow> int \<Rightarrow> string \<Rightarrow> string \<Rightarrow> int \<Rightarrow> string" where
  "changeSourceShell client ip port user password delay =
     (let modernSQL = ''SET GLOBAL offline_mode=ON; CHANGE REPLICATION SOURCE TO SOURCE_HOST='' @ sqlLiteral ip @ '',SOURCE_PORT='' @ show_int port @
            '',SOURCE_USER='' @ sqlLiteral user @ '',SOURCE_PASSWORD='' @ sqlLiteral password @
            '',SOURCE_AUTO_POSITION=1,SOURCE_DELAY='' @ show_int delay @ '',GET_SOURCE_PUBLIC_KEY=1; START REPLICA;'';
          legacySQL = ''SET GLOBAL offline_mode=ON; CHANGE MASTER TO MASTER_HOST='' @ sqlLiteral ip @ '',MASTER_PORT='' @ show_int port @
            '',MASTER_USER='' @ sqlLiteral user @ '',MASTER_PASSWORD='' @ sqlLiteral password @
            '',MASTER_AUTO_POSITION=1,MASTER_DELAY='' @ show_int delay @ ''; START SLAVE;''
      in replicationStopResetShell client @ ''('' @ client @ '' --batch --raw --execute='' @ shellQuote modernSQL @
         '' >/dev/null 2>&1 || '' @ client @ '' --batch --raw --execute='' @ shellQuote legacySQL @ ''); '')"

definition autoIncrementShell :: "string \<Rightarrow> nat \<Rightarrow> nat \<Rightarrow> string" where
  "autoIncrementShell client masters offset =
     (let persistSQL = ''SET PERSIST auto_increment_increment='' @ show_nat masters @ ''; SET PERSIST auto_increment_offset='' @ show_nat offset @ '';'';
          globalSQL = ''SET GLOBAL auto_increment_increment='' @ show_nat masters @ ''; SET GLOBAL auto_increment_offset='' @ show_nat offset @ '';''
      in ''('' @ client @ '' --batch --raw --execute='' @ shellQuote persistSQL @ '' >/dev/null 2>&1 || '' @
         client @ '' --batch --raw --execute='' @ shellQuote globalSQL @ ''); '')"

definition vipHolderCommand :: "string \<Rightarrow> string" where
  "vipHolderCommand vip = shtx ''if ip -o -4 addr show | awk #{print $4}# | cut -d/ -f1 | grep -Fxq '' @ shellQuote vip @
     ''; then echo BOUND; else echo UNBOUND; fi''"

definition vipCheckCommand :: "string \<Rightarrow> bool \<Rightarrow> string" where
  "vipCheckCommand vip expectBound = shtx ''if ip -o addr show | awk #{print $4}# | cut -d/ -f1 | grep -Fxq '' @ shellQuote vip @
     ''; then bound=1; else bound=0; fi; '' @
     (if expectBound then shtx ''[ `$bound` = 1 ]'' else shtx ''[ `$bound` = 0 ]'')"

end
