(* ===== verification/Arch_Run.thy ===== *)
theory Arch_Run
  imports VIP_Service Arch_Plan Arch_Commands "HOL-Library.AList"
begin

text \<open>
  How an architecture run is carried out (\<open>internal/app/architecture_executor.go\<close>): the commands sent to the
  agents, which collect the ids of the tasks they create, and the steps of a run, which record what
  happened, save the run and update its tracking task. A Go function that returns ids with an error is an
  operation on the world and the list of ids so far; its error ends the list. The execution itself works on
  \<open>exec_state\<close>: the world, the variable \<open>run\<close> of the Go function, whether the cluster lock has been given back
  (\<open>lockReleased\<close>), the time up to which the lease has been renewed and the error of the renewal, if any.
\<close>

subsection \<open>Commands\<close>

type_synonym 'a cmd = "(world \<times> string list, 'a) op"

definition on_world :: "'a act \<Rightarrow> 'a cmd" where
  "on_world m s = (case s of (w, ids) \<Rightarrow> (case m w of (r, w') \<Rightarrow> (r, (w', ids))))"

definition note_task :: "string \<Rightarrow> unit cmd" where
  "note_task tid = modify (\<lambda>(w, ids). (w, if tid = [] then ids else ids @ [tid]))"

definition map_error :: "(go_error \<Rightarrow> go_error) \<Rightarrow> ('s, 'a) op \<Rightarrow> ('s, 'a) op" where
  "map_error f m = with_result m (\<lambda>r. case r of Inl e \<Rightarrow> fail_with (f e) | Inr x \<Rightarrow> ret x)"

definition last_message :: "task_detail \<Rightarrow> string" where
  "last_message d = (if td_Steps d = [] then [] else last (td_Steps d))"

definition step_call :: "machine \<Rightarrow> string \<Rightarrow> agent_call" where
  "step_call m command = ExecTask (mach_IP m) command [] ''mysql_architecture_step''
     ''MySQL architecture adjustment subtask'' ''execute the database architecture adjustment command'' (2 * minute)"

text \<open>The task's id, the last message and the error; once the task has ended its command is redacted.\<close>

definition runOneArchitectureProbe :: "agent \<Rightarrow> machine \<Rightarrow> string \<Rightarrow> (string \<times> string \<times> go_error option) act" where
  "runOneArchitectureProbe ag m command =
     on_ok (send ag (step_call m command)) (\<lambda>r.
       case rp_Create r of
         Inl e \<Rightarrow> ret ([], [], Some e)
       | Inr tid \<Rightarrow>
           (case rp_Wait r of
              Inl e \<Rightarrow> ret (tid, [], Some e)
            | Inr d \<Rightarrow> on_ok (send ag (RedactCommand tid)) (\<lambda>_.
                let output = last_message d
                in if td_Status d \<noteq> StatusSuccess
                   then let message = trim_space output
                        in if message = [] then ret (tid, output, Some (Errorf ''agent task %s failed'' [tid]))
                           else ret (tid, output, Some (Errorf ''agent task %s failed: %s'' [tid, message]))
                   else ret (tid, output, None))))"

definition probe :: "agent \<Rightarrow> machine \<Rightarrow> string \<Rightarrow> string cmd" where
  "probe ag m command =
     on_ok (on_world (runOneArchitectureProbe ag m command)) (\<lambda>(tid, output, err).
     on_ok (note_task tid) (\<lambda>_. case err of Some e \<Rightarrow> fail_with e | None \<Rightarrow> ret output))"

definition runOneArchitectureCommand :: "agent \<Rightarrow> machine \<Rightarrow> string \<Rightarrow> unit cmd" where
  "runOneArchitectureCommand ag m command = on_ok (probe ag m command) (\<lambda>_. ret ())"

text \<open>A Go map from machine ids to machines is an association list with one entry for each key.\<close>

type_synonym machine_map = "(string \<times> machine) list"

definition machine_at :: "machine_map \<Rightarrow> string \<Rightarrow> machine" where
  "machine_at machines mid = map_get no_machine (map_of machines) mid"

definition runOnArchitectureNodes :: "agent \<Rightarrow> arch_node list \<Rightarrow> machine_map \<Rightarrow> (arch_node \<Rightarrow> string) \<Rightarrow> unit cmd" where
  "runOnArchitectureNodes ag nodes machines command =
     for_ok (\<lambda>node. runOneArchitectureCommand ag (machine_at machines (an_MachineID node)) (command node)) nodes"

definition sortedArchitectureMachines :: "machine_map \<Rightarrow> machine list" where
  "sortedArchitectureMachines machines = map (machine_at machines) (stable_sort (<) (map fst machines))"

definition architectureNode :: "arch_node list \<Rightarrow> string \<Rightarrow> arch_node option" where
  "architectureNode nodes mid = find (\<lambda>node. an_MachineID node = mid) nodes"

definition add_cluster_machine :: "string \<Rightarrow> machine \<Rightarrow> machine_map \<Rightarrow> machine_map" where
  "add_cluster_machine cid m machines =
     (if mach_Cluster m = cid then AList.update (mach_ID m) m machines else machines)"

definition architectureMachines :: "arch_request \<Rightarrow> machine_map act" where
  "architectureMachines req =
     fold_ok (\<lambda>node out. on_ok (machines_GetByID (an_MachineID node)) (\<lambda>found.
        case found of
          None \<Rightarrow> fail_with (Errorf ''machine %s not found'' [an_MachineID node])
        | Some m \<Rightarrow> ret (AList.update (an_MachineID node) m out))) (ar_Nodes req) []"

definition addClusterMachines :: "string \<Rightarrow> machine_map \<Rightarrow> machine_map act" where
  "addClusterMachines cid target =
     on_ok machines_List (\<lambda>ms. ret (fold (add_cluster_machine cid) ms target))"

subsection \<open>The state of an execution\<close>

record exec_state =
  es_world :: world
  es_run :: arch_run
  es_released :: bool
  es_renewed :: go_time
  es_lock_error :: "go_error option"

type_synonym 'a exec = "(exec_state, 'a) op"

definition on_state :: "(arch_run \<Rightarrow> 'a act) \<Rightarrow> 'a exec" where
  "on_state m s = (case m (es_run s) (es_world s) of (r, w') \<Rightarrow> (r, s\<lparr>es_world := w'\<rparr>))"

definition set_run :: "(go_time \<Rightarrow> arch_run \<Rightarrow> arch_run) \<Rightarrow> unit exec" where
  "set_run f = modify (\<lambda>s. s\<lparr>es_run := f (w_clock (es_world s)) (es_run s)\<rparr>)"

definition ignore_error :: "('s, 'a) op \<Rightarrow> ('s, unit) op" where
  "ignore_error m = with_result m (\<lambda>_. ret ())"

definition save_run :: "unit exec" where
  "save_run = on_state SaveArchitectureRun"

definition syncArchitectureTrackingTask :: "agent \<Rightarrow> unit exec" where
  "syncArchitectureTrackingTask ag = on_state (\<lambda>run. on_ok (send ag (SyncRunTask run)) (\<lambda>_. ret ()))"

definition failed_run :: "string \<Rightarrow> go_error \<Rightarrow> go_time \<Rightarrow> arch_run \<Rightarrow> arch_run" where
  "failed_run step err now run = run\<lparr>rn_Status := ArchitectureRunFailed, rn_CurrentStep := step, rn_Error := error_text err,
     rn_UpdatedAt := now, rn_FinishedAt := Some now\<rparr>"

definition failArchitectureRun :: "agent \<Rightarrow> string \<Rightarrow> go_error \<Rightarrow> unit exec" where
  "failArchitectureRun ag step err =
     on_ok (set_run (failed_run step err)) (\<lambda>_.
     on_ok (syncArchitectureTrackingTask ag) (\<lambda>_. ignore_error save_run))"

definition succeeded_run :: "go_time \<Rightarrow> arch_run \<Rightarrow> arch_run" where
  "succeeded_run now run = run\<lparr>rn_Status := ArchitectureRunSucceeded, rn_CurrentStep := ''release_lock'', rn_Error := [],
     rn_UpdatedAt := now, rn_FinishedAt := Some now\<rparr>"

definition succeedArchitectureRun :: "agent \<Rightarrow> unit exec" where
  "succeedArchitectureRun ag =
     on_ok (set_run succeeded_run) (\<lambda>_.
     on_ok (syncArchitectureTrackingTask ag) (\<lambda>_. ignore_error save_run))"

definition resumed_run :: "go_time \<Rightarrow> arch_run \<Rightarrow> arch_run" where
  "resumed_run now run = run\<lparr>rn_Status := ArchitectureRunRunning, rn_Error := [], rn_FinishedAt := None, rn_UpdatedAt := now\<rparr>"

definition resumeArchitectureRun :: "unit exec" where
  "resumeArchitectureRun = on_ok (set_run resumed_run) (\<lambda>_. ignore_error save_run)"

subsection \<open>Steps\<close>

definition new_step :: "string \<Rightarrow> go_time \<Rightarrow> arch_step_result" where
  "new_step code now = \<lparr>sr_Code = code, sr_Status = ''running'', sr_TaskIDs = [], sr_Message = [],
     sr_StartedAt = now, sr_FinishedAt = None\<rparr>"

definition started_run :: "string \<Rightarrow> go_time \<Rightarrow> arch_run \<Rightarrow> arch_run" where
  "started_run code now run = run\<lparr>rn_CurrentStep := code, rn_UpdatedAt := now,
     rn_StepResults := rn_StepResults run @ [new_step code now]\<rparr>"

definition update_last :: "('a \<Rightarrow> 'a) \<Rightarrow> 'a list \<Rightarrow> 'a list" where
  "update_last f xs = (if xs = [] then [] else butlast xs @ [f (last xs)])"

definition finished_run :: "string list \<Rightarrow> go_time \<Rightarrow> arch_run \<Rightarrow> arch_run" where
  "finished_run ids now run = run\<lparr>rn_StepResults := update_last (\<lambda>r. r\<lparr>sr_TaskIDs := ids, sr_FinishedAt := Some now\<rparr>) (rn_StepResults run),
     rn_TaskIDs := rn_TaskIDs run @ ids\<rparr>"

definition step_failed :: "go_error \<Rightarrow> go_time \<Rightarrow> arch_run \<Rightarrow> arch_run" where
  "step_failed err now run = run\<lparr>rn_StepResults :=
     update_last (\<lambda>r. r\<lparr>sr_Status := ''failed'', sr_Message := error_text err\<rparr>) (rn_StepResults run)\<rparr>"

definition step_succeeded :: "go_time \<Rightarrow> arch_run \<Rightarrow> arch_run" where
  "step_succeeded now run = run\<lparr>rn_StepResults := update_last (\<lambda>r. r\<lparr>sr_Status := ''success''\<rparr>) (rn_StepResults run),
     rn_UpdatedAt := now\<rparr>"

definition collect :: "'a cmd \<Rightarrow> ('a result \<times> string list) act" where
  "collect m w = (case m (w, []) of (r, (w', ids)) \<Rightarrow> (Inr (r, ids), w'))"

definition attach_tasks :: "agent \<Rightarrow> arch_run \<Rightarrow> 'a result \<times> string list \<Rightarrow> ('a result \<times> string list) act" where
  "attach_tasks ag run p = (case p of (res, ids) \<Rightarrow>
     if ids = [] then ret (res, ids)
     else on_ok (send ag (AttachTasks (rn_RunID run) ids)) (\<lambda>r.
       ret (case rp_Create r of Inl e \<Rightarrow> (if is_ok res then Inl e else res) | Inr _ \<Rightarrow> res, ids)))"

text \<open>The body of a step sees the run as it was when the step began.\<close>

definition runArchitectureStep :: "agent \<Rightarrow> string \<Rightarrow> (arch_run \<Rightarrow> 'a cmd) \<Rightarrow> 'a exec" where
  "runArchitectureStep ag code execute =
     on_ok (set_run (started_run code)) (\<lambda>_.
     on_ok (ignore_error save_run) (\<lambda>_.
     on_ok (syncArchitectureTrackingTask ag) (\<lambda>_.
     on_ok (on_state (\<lambda>run. on_ok (collect (execute run)) (attach_tasks ag run))) (\<lambda>(res, ids).
     on_ok (set_run (finished_run ids)) (\<lambda>_.
       case res of
         Inl err \<Rightarrow>
           on_ok (set_run (step_failed err)) (\<lambda>_.
           on_ok (failArchitectureRun ag code err) (\<lambda>_. fail_with err))
       | Inr x \<Rightarrow>
           on_ok (set_run step_succeeded) (\<lambda>_.
           on_ok save_run (\<lambda>_.
           on_ok (syncArchitectureTrackingTask ag) (\<lambda>_. ret x))))))))"

subsection \<open>What a command does\<close>

text \<open>The commands of an execution in the log of the agents, with the agents' replies.\<close>

definition is_step :: "agent_call \<times> agent_reply \<Rightarrow> bool" where
  "is_step e = (case fst e of ExecTask _ _ _ op _ _ _ \<Rightarrow> op = ''mysql_architecture_step'' | _ \<Rightarrow> False)"

definition arch_steps :: "world \<Rightarrow> agent_log" where
  "arch_steps w = filter is_step (w_agent_log w)"

definition reply_message :: "agent_reply \<Rightarrow> string" where
  "reply_message r = (case rp_Wait r of Inl _ \<Rightarrow> [] | Inr d \<Rightarrow> last_message d)"

text \<open>The database: everything of the world but the log of the agents and the clock.\<close>

definition db_of :: "world \<Rightarrow> world" where
  "db_of w = w\<lparr>w_agent_log := [], w_clock := 0\<rparr>"

lemma arch_steps_send:
  "send ag call w = (Inr r, w') \<Longrightarrow> arch_steps w' = arch_steps w @ (if is_step (call, r) then [(call, r)] else []) \<and> db_of w' = db_of w"
  by (auto simp: send_def Let_def arch_steps_def db_of_def)

lemma is_step_simps [simp]:
  "is_step (step_call m c, r)" "\<not> is_step (RedactCommand tid, r)" "\<not> is_step (SyncRunTask run, r)"
  "\<not> is_step (AttachTasks rid ids, r)" "\<not> is_step (CreateRunTask run, r)"
  by (simp_all add: is_step_def step_call_def)

lemma send_total: "\<exists>r w'. send ag call w = (Inr r, w')"
  by (simp add: send_def Let_def)

lemma probe_act_run:
  assumes "runOneArchitectureProbe ag m c w = (res, w')"
  shows "\<exists>r tid out err. res = Inr (tid, out, err) \<and> arch_steps w' = arch_steps w @ [(step_call m c, r)] \<and> db_of w' = db_of w \<and>
     (err = None \<longleftrightarrow> exec_success r) \<and> (err = None \<longrightarrow> out = reply_message r)"
proof -
  obtain r v where s: "send ag (step_call m c) w = (Inr r, v)" using send_total by blast
  note sv = arch_steps_send [OF s]
  show ?thesis
  proof (cases "rp_Create r")
    case (Inl e)
    with assms s sv show ?thesis by (auto simp: runOneArchitectureProbe_def on_ok_def exec_success_def)
  next
    case (Inr tid)
    show ?thesis
    proof (cases "rp_Wait r")
      case (Inl e)
      with Inr assms s sv show ?thesis by (auto simp: runOneArchitectureProbe_def on_ok_def exec_success_def)
    next
      case d: (Inr d)
      obtain q u where q: "send ag (RedactCommand tid) v = (Inr q, u)" using send_total by blast
      from Inr d assms s q sv arch_steps_send [OF q] show ?thesis
        by (auto simp: runOneArchitectureProbe_def on_ok_def exec_success_def reply_message_def Let_def split: if_splits)
    qed
  qed
qed

lemma probe_run:
  assumes "probe ag m c (w, ids) = (res, (w', ids'))"
  shows "\<exists>r. arch_steps w' = arch_steps w @ [(step_call m c, r)] \<and> db_of w' = db_of w \<and>
     (case res of Inr out \<Rightarrow> exec_success r \<and> out = reply_message r | Inl _ \<Rightarrow> \<not> exec_success r)"
proof -
  obtain pr v where p: "runOneArchitectureProbe ag m c w = (pr, v)" by fastforce
  from probe_act_run [OF p] obtain r tid out err where r: "pr = Inr (tid, out, err)"
    "arch_steps v = arch_steps w @ [(step_call m c, r)]" "db_of v = db_of w" "(err = None) = exec_success r"
    "err = None \<longrightarrow> out = reply_message r" by blast
  have "w' = v" "res = (case err of Some e \<Rightarrow> Inl e | None \<Rightarrow> Inr out)"
    using assms p r(1) by (auto simp: probe_def on_ok_def on_world_def note_task_def split: option.splits)
  with r show ?thesis by (cases err) auto
qed

lemma command_run:
  assumes "runOneArchitectureCommand ag m c (w, ids) = (res, (w', ids'))"
  shows "\<exists>r. arch_steps w' = arch_steps w @ [(step_call m c, r)] \<and> db_of w' = db_of w \<and> (is_ok res \<longleftrightarrow> exec_success r)"
proof -
  obtain pr v js where p: "probe ag m c (w, ids) = (pr, (v, js))" by (metis prod.collapse)
  then have "(w', ids') = (v, js)" "is_ok res = is_ok pr"
    using assms by (auto simp: runOneArchitectureCommand_def on_ok_def split: sum.splits)
  with probe_run [OF p] show ?thesis by (cases pr) auto
qed

subsection \<open>What a run sends\<close>

text \<open>An operation that only adds to the log is described by the entries it adds and its result; \<open>loop_trace\<close>
  is a loop that stops at the first error.\<close>

definition emits :: "('s \<Rightarrow> 'e list) \<Rightarrow> ('s, 'a) op \<Rightarrow> ('e list \<Rightarrow> 'a result \<Rightarrow> bool) \<Rightarrow> bool" where
  "emits log m P \<longleftrightarrow> (\<forall>s r s'. m s = (r, s') \<longrightarrow> (\<exists>obs. log s' = log s @ obs \<and> P obs r))"

inductive loop_trace :: "('x \<Rightarrow> agent_log \<Rightarrow> bool \<Rightarrow> bool) \<Rightarrow> 'x list \<Rightarrow> agent_log \<Rightarrow> bool \<Rightarrow> bool" for T where
  loop_end: "loop_trace T [] [] True"
| loop_next: "T x obs True \<Longrightarrow> loop_trace T xs rest ok \<Longrightarrow> loop_trace T (x # xs) (obs @ rest) ok"
| loop_stop: "T x obs False \<Longrightarrow> loop_trace T (x # xs) obs False"

definition sent :: "world \<times> string list \<Rightarrow> agent_log" where
  "sent s = arch_steps (fst s)"

lemma emitsI: "(\<And>s r s'. m s = (r, s') \<Longrightarrow> \<exists>obs. log s' = log s @ obs \<and> P obs r) \<Longrightarrow> emits log m P"
  by (simp add: emits_def)

lemma emitsD: "emits log m P \<Longrightarrow> m s = (r, s') \<Longrightarrow> \<exists>obs. log s' = log s @ obs \<and> P obs r"
  by (simp add: emits_def)

lemma emits_weaken: "emits log m P \<Longrightarrow> (\<And>obs r. P obs r \<Longrightarrow> Q obs r) \<Longrightarrow> emits log m Q"
  unfolding emits_def by blast

lemma emits_ret: "P [] (Inr x) \<Longrightarrow> emits log (ret x) P"
  by (simp add: emits_def)

lemma emits_fail: "P [] (Inl e) \<Longrightarrow> emits log (fail_with e) P"
  by (simp add: emits_def)

lemma emits_on_ok:
  assumes "emits log m P" and "\<And>x. emits log (f x) (Q x)"
    and "\<And>obs e. P obs (Inl e) \<Longrightarrow> R obs (Inl e)" and "\<And>a x b r. P a (Inr x) \<Longrightarrow> Q x b r \<Longrightarrow> R (a @ b) r"
  shows "emits log (on_ok m f) R"
proof (rule emitsI)
  fix s r s'
  assume "on_ok m f s = (r, s')"
  then show "\<exists>obs. log s' = log s @ obs \<and> R obs r"
  proof (cases rule: on_ok_cases)
    case (err e)
    with emitsD [OF assms(1)] assms(3) show ?thesis by blast
  next
    case (ok x v)
    from emitsD [OF assms(1) ok(1)] obtain a where a: "log v = log s @ a" "P a (Inr x)" by blast
    from emitsD [OF assms(2) ok(2)] obtain b where "log s' = log v @ b" "Q x b r" by blast
    with a assms(4) show ?thesis by (intro exI [of _ "a @ b"]) simp
  qed
qed

lemma emits_map_error: "emits log m (\<lambda>obs r. P obs (is_ok r)) \<Longrightarrow> emits log (map_error f m) (\<lambda>obs r. P obs (is_ok r))"
  unfolding emits_def map_error_def with_result_def
  by (fastforce split: prod.splits sum.splits)

lemma emits_for_ok:
  assumes "\<And>x. x \<in> set xs \<Longrightarrow> emits log (f x) (\<lambda>obs r. T x obs (is_ok r))"
  shows "emits log (for_ok f xs) (\<lambda>obs r. loop_trace T xs obs (is_ok r))"
  using assms
proof (induction xs)
  case Nil
  show ?case unfolding for_ok_simps by (rule emits_ret) (simp add: loop_end)
next
  case (Cons x xs)
  show ?case unfolding for_ok_simps
    by (rule emits_on_ok [where P = "\<lambda>obs r. T x obs (is_ok r)" and Q = "\<lambda>_ obs r. loop_trace T xs obs (is_ok r)"])
      (use Cons in \<open>auto intro: loop_next loop_stop\<close>)
qed

lemma emits_probe:
  "emits sent (probe ag m c) (\<lambda>obs res. \<exists>r. obs = [(step_call m c, r)] \<and>
     (case res of Inr out \<Rightarrow> exec_success r \<and> out = reply_message r | Inl _ \<Rightarrow> \<not> exec_success r))"
proof (rule emitsI)
  fix s res s'
  assume "probe ag m c s = (res, s')"
  then show "\<exists>obs. sent s' = sent s @ obs \<and> (\<exists>r. obs = [(step_call m c, r)] \<and>
     (case res of Inr out \<Rightarrow> exec_success r \<and> out = reply_message r | Inl _ \<Rightarrow> \<not> exec_success r))"
    using probe_run [of ag m c "fst s" "snd s" res "fst s'" "snd s'"] by (auto simp: sent_def)
qed

lemma emits_command:
  "emits sent (runOneArchitectureCommand ag m c) (\<lambda>obs res. \<exists>r. obs = [(step_call m c, r)] \<and> (is_ok res \<longleftrightarrow> exec_success r))"
proof (rule emitsI)
  fix s res s'
  assume "runOneArchitectureCommand ag m c s = (res, s')"
  then show "\<exists>obs. sent s' = sent s @ obs \<and> (\<exists>r. obs = [(step_call m c, r)] \<and> (is_ok res \<longleftrightarrow> exec_success r))"
    using command_run [of ag m c "fst s" "snd s" res "fst s'" "snd s'"] by (auto simp: sent_def)
qed

text \<open>Agents whose every task succeeds, for evaluating runs on concrete inputs.\<close>

definition saying :: "(string \<Rightarrow> string \<Rightarrow> string) \<Rightarrow> agent" where
  "saying f log call = \<lparr>rp_Create = Inr ''t'',
     rp_Wait = Inr \<lparr>td_Status = StatusSuccess, td_Steps = [case call of ExecTask ip command _ _ _ _ _ \<Rightarrow> f ip command | _ \<Rightarrow> []],
                    td_Events = []\<rparr>,
     rp_Elapsed = 0\<rparr>"

lemma probe_saying: "\<exists>w'. probe (saying f) m c (w, ids) = (Inr (f (mach_IP m) c), (w', ids @ [''t'']))"
proof -
  have "\<exists>w'. runOneArchitectureProbe (saying f) m c w = (Inr (''t'', f (mach_IP m) c, None), w')"
    by (simp add: runOneArchitectureProbe_def on_ok_def send_def Let_def saying_def step_call_def last_message_def)
  then show ?thesis by (auto simp: probe_def on_ok_def on_world_def note_task_def)
qed

lemma command_saying: "\<exists>w'. runOneArchitectureCommand (saying f) m c (w, ids) = (Inr (), (w', ids @ [''t'']))"
  using probe_saying [of f m c w ids] by (auto simp: runOneArchitectureCommand_def on_ok_def)

definition sample_run :: arch_run where
  "sample_run = \<lparr>rn_RunID = ''run-1'', rn_ClusterID = ''c1'', rn_Status = ArchitectureRunPending, rn_CurrentStep = [],
     rn_Plan = empty_plan ''arch-1'' ''c1'' ArchitectureMasterSlave 0, rn_Request = switch_request, rn_StepResults = [],
     rn_TaskIDs = [], rn_ForceConfirmed = False, rn_Error = [], rn_CreatedAt = 0, rn_UpdatedAt = 0, rn_FinishedAt = None\<rparr>"

end
