(* ===== verification/Arch_Election.thy ===== *)
theory Arch_Election
  imports Arch_Run
begin

text \<open>
  The live checks of \<open>internal/app/architecture_executor.go\<close> that decide which node may become the master:
  \<open>electLiveArchitectureCandidate\<close>, \<open>alignIndependentReplicaGTID\<close> and \<open>validateLiveIndependentTargets\<close>. The
  election filters its candidates in place: \<open>supersetCandidates := candidates[:0]\<close> shares the array the loops
  still read, and \<open>keep_supersets\<close> models the array with its overwritten prefix.
\<close>

subsection \<open>Probing the nodes\<close>

record live_candidate =
  lc_score :: candidate
  lc_transactions :: "64 word"

type_synonym probe_state = "live_candidate list \<times> (int \<times> string) list \<times> (string \<times> string) list"

definition election_excludes :: "arch_request \<Rightarrow> arch_node \<Rightarrow> bool" where
  "election_excludes req node \<longleftrightarrow>
     \<not> equal_fold (an_Role node) ''M'' \<or> an_DelaySeconds node > 0 \<or>
     (an_MachineID node = ar_CurrentMasterMachineID req \<and> ar_PreferredNewMasterMachineID req \<noteq> ar_CurrentMasterMachineID req)"

definition live_score :: "string \<Rightarrow> arch_request \<Rightarrow> machine \<Rightarrow> arch_node \<Rightarrow> string list \<Rightarrow> candidate" where
  "live_score cid req m node cols =
     no_candidate\<lparr>cs_ClusterID := cid, cs_InstanceID := sprintf ''%s:%d'' [an_MachineID node, show_int (an_Port node)],
       cs_MachineID := an_MachineID node, cs_Hostname := mach_Name m, cs_IP := mach_IP m, cs_Port := an_Port node,
       cs_Eligible := True, cs_GTIDMode := equal_fold (cols ! 1) ''ON'', cs_ExecutedGTIDSet := cols ! 2,
       cs_ElectionPriority := (if an_MachineID node = ar_PreferredNewMasterMachineID req
                               then an_ElectionPriority node + 1000000 else an_ElectionPriority node),
       cs_HealthScore := 100, cs_CanBindVIP := True\<rparr>"

definition note_state :: "string \<Rightarrow> arch_request \<Rightarrow> machine \<Rightarrow> arch_node \<Rightarrow> string list \<Rightarrow> probe_state \<Rightarrow> probe_state result" where
  "note_state cid req m node cols st = (case st of (candidates, serverIDs, sets) \<Rightarrow>
     if length cols < 5
     then Inl (Errorf ''live election received malformed MySQL state from %s'' [an_MachineID node])
     else case atoi (cols ! 0) of
       None \<Rightarrow> Inl (Errorf ''live election received invalid server_id from %s'' [an_MachineID node])
     | Some serverID \<Rightarrow>
         if serverID \<le> 0
         then Inl (Errorf ''live election received invalid server_id from %s'' [an_MachineID node])
         else case map_of serverIDs serverID of
           Some other \<Rightarrow> Inl (Errorf ''live election rejected duplicate server_id %d on %s and %s''
                             [show_int serverID, other, an_MachineID node])
         | None \<Rightarrow>
             let serverIDs = (serverID, an_MachineID node) # serverIDs;
                 sets = (an_MachineID node, cols ! 2) # sets
             in if election_excludes req node \<or> \<not> equal_fold (cols ! 1) ''ON''
                then Inr (candidates, serverIDs, sets)
                else Inr (candidates @ [\<lparr>lc_score = live_score cid req m node cols,
                                         lc_transactions = gtidTransactionCount (cols ! 2)\<rparr>], serverIDs, sets))"

definition of_result :: "'a result \<Rightarrow> ('s, 'a) op" where
  "of_result r = (case r of Inl e \<Rightarrow> fail_with e | Inr x \<Rightarrow> ret x)"

definition election_probe ::
  "agent \<Rightarrow> string \<Rightarrow> arch_request \<Rightarrow> machine_map \<Rightarrow> arch_node \<Rightarrow> probe_state \<Rightarrow> probe_state cmd" where
  "election_probe ag cid req machines node st =
     (let m = machine_at machines (an_MachineID node)
      in on_ok (map_error (Wrap ''live election probe failed on %s: %w'' [an_MachineID node])
           (probe ag m (mysqlArchitectureCommand (architectureRootPassword req (an_MachineID node)) (an_Port node) electionProbeSQL)))
         (\<lambda>output. of_result (note_state cid req m node (split_on (CHR ''|'') (trim_space output)) st)))"

subsection \<open>The filter on the shared array\<close>

definition contains_all :: "live_candidate list \<Rightarrow> live_candidate \<Rightarrow> bool" where
  "contains_all others c = list_all (\<lambda>ob. gtidSetSubset (cs_ExecutedGTIDSet (lc_score ob)) (cs_ExecutedGTIDSet (lc_score c))) others"

text \<open>\<open>i\<close> is the index of the outer loop, \<open>k\<close> the number of candidates kept in the prefix of the array.\<close>

function keep_supersets :: "live_candidate list \<Rightarrow> nat \<Rightarrow> nat \<Rightarrow> live_candidate list" where
  "keep_supersets array i k =
     (if i < length array then
        (if contains_all array (array ! i) then keep_supersets (array[k := array ! i]) (i + 1) (k + 1)
         else keep_supersets array (i + 1) k)
      else take k array)"
  by pat_completeness auto
termination by (relation "measure (\<lambda>(array, i, k). length array - i)") auto

declare keep_supersets.simps [simp del]

subsection \<open>The election\<close>

definition live_before :: "live_candidate \<Rightarrow> live_candidate \<Rightarrow> bool" where
  "live_before a b =
     (if lc_transactions a \<noteq> lc_transactions b then lc_transactions a > lc_transactions b
      else cs_ElectionPriority (lc_score a) > cs_ElectionPriority (lc_score b))"

interpretation live_order: weak_order live_before
  by unfold_locales (auto simp: live_before_def split: if_splits)

definition must_follow :: "arch_request \<Rightarrow> string \<Rightarrow> arch_node \<Rightarrow> bool" where
  "must_follow req selected node \<longleftrightarrow>
     \<not> (an_MachineID node = ar_CurrentMasterMachineID req \<or> an_MachineID node = selected \<or> \<not> equal_fold (an_Role node) ''S'') \<and>
     \<not> (ar_CurrentMasterMachineID req = [] \<and> \<not> ar_InitializeVIP req)"

definition choose_live :: "arch_request \<Rightarrow> probe_state \<Rightarrow> candidate result" where
  "choose_live req st = (case st of (candidates, serverIDs, sets) \<Rightarrow>
     if candidates = [] then Inl (Error ''live election found no healthy target-master candidate'')
     else let kept = keep_supersets candidates 0 0
     in if kept = []
        then Inl (Error ''live election rejected divergent GTID histories; no candidate contains all eligible transaction sets'')
        else let selected = lc_score (hd (stable_sort live_before kept))
        in case find (\<lambda>node. must_follow req (cs_MachineID selected) node \<and>
                 \<not> gtidSetSubset (get_string (map_of sets) (an_MachineID node)) (cs_ExecutedGTIDSet selected)) (ar_Nodes req) of
             Some node \<Rightarrow> Inl (Errorf ''target replica %s has divergent GTID history; clone or rebuild it before assigning replication'' [an_MachineID node])
           | None \<Rightarrow> Inr (selected\<lparr>cs_DataFreshnessScore := 100,
                                   cs_FinalScore := cs_HealthScore selected + cs_ElectionPriority selected\<rparr>))"

definition electLiveArchitectureCandidate :: "agent \<Rightarrow> string \<Rightarrow> arch_request \<Rightarrow> machine_map \<Rightarrow> candidate cmd" where
  "electLiveArchitectureCandidate ag cid req machines =
     on_ok (fold_ok (election_probe ag cid req machines) (ar_Nodes req) ([], [], [])) (\<lambda>st. of_result (choose_live req st))"

subsection \<open>Empty replicas of a new cluster\<close>

definition align_node :: "agent \<Rightarrow> arch_request \<Rightarrow> candidate \<Rightarrow> machine_map \<Rightarrow> arch_node \<Rightarrow> unit cmd" where
  "align_node ag req selected machines node =
     (if an_MachineID node = cs_MachineID selected \<or> \<not> equal_fold (an_Role node) ''S'' then ret ()
      else let m = machine_at machines (an_MachineID node);
               password = architectureRootPassword req (an_MachineID node)
      in on_ok (map_error (Wrap ''read independent GTID state on %s: %w'' [an_MachineID node])
           (probe ag m (mysqlArchitectureCommand password (an_Port node) ''SELECT @@GLOBAL.gtid_executed;''))) (\<lambda>output.
         if gtidSetSubset (trim_space output) (cs_ExecutedGTIDSet selected) then ret ()
         else on_ok (map_error (Wrap ''inspect business schemas on independent target %s: %w'' [an_MachineID node])
           (probe ag m (mysqlArchitectureCommand password (an_Port node) businessObjectsSQL))) (\<lambda>output.
         case atoi (trim_space output) of
           None \<Rightarrow> fail_with (Errorf ''independent target %s returned invalid business-object count %q'' [an_MachineID node, trim_space output])
         | Some businessObjects \<Rightarrow>
             if businessObjects \<noteq> 0
             then fail_with (Errorf ''target replica %s has divergent GTID history and %d business table/view(s); clone or explicitly reconcile it before assigning replication''
                    [an_MachineID node, show_int businessObjects])
             else map_error (Wrap ''align GTID baseline on empty target replica %s: %w'' [an_MachineID node])
                    (runOneArchitectureCommand ag m (resetGTIDCommand password (an_Port node) (cs_ExecutedGTIDSet selected))))))"

definition alignIndependentReplicaGTID :: "agent \<Rightarrow> arch_request \<Rightarrow> candidate \<Rightarrow> machine_map \<Rightarrow> unit cmd" where
  "alignIndependentReplicaGTID ag req selected machines = for_ok (align_node ag req selected machines) (ar_Nodes req)"

subsection \<open>Targets of a split\<close>

definition check_independent :: "arch_node \<Rightarrow> string list \<Rightarrow> (int \<times> string) list \<Rightarrow> (int \<times> string) list result" where
  "check_independent node cols serverIDs =
     (if length cols < 4
      then Inl (Errorf ''independent target %s returned malformed MySQL state'' [an_MachineID node])
      else case atoi (cols ! 0) of
        None \<Rightarrow> Inl (Errorf ''independent target %s has invalid server_id'' [an_MachineID node])
      | Some serverID \<Rightarrow>
          if serverID \<le> 0 then Inl (Errorf ''independent target %s has invalid server_id'' [an_MachineID node])
          else case map_of serverIDs serverID of
            Some other \<Rightarrow> Inl (Errorf ''duplicate server_id %d on %s and %s'' [show_int serverID, other, an_MachineID node])
          | None \<Rightarrow>
              if \<not> equal_fold (cols ! 1) ''ON''
              then Inl (Errorf ''independent target %s must have GTID mode enabled'' [an_MachineID node])
              else Inr ((serverID, an_MachineID node) # serverIDs))"

definition validateLiveIndependentTargets :: "agent \<Rightarrow> arch_request \<Rightarrow> machine_map \<Rightarrow> unit cmd" where
  "validateLiveIndependentTargets ag req machines =
     on_ok (fold_ok (\<lambda>node serverIDs.
       on_ok (map_error (Wrap ''independent target probe failed on %s: %w'' [an_MachineID node])
           (probe ag (machine_at machines (an_MachineID node))
              (mysqlArchitectureCommand (architectureRootPassword req (an_MachineID node)) (an_Port node) independentProbeSQL)))
         (\<lambda>output. of_result (check_independent node (split_on (CHR ''|'') (trim_space output)) serverIDs)))
       (ar_Nodes req) []) (\<lambda>_. ret ())"

subsection \<open>The in-place filter keeps the right candidates\<close>

lemma contains_all_iff:
  "contains_all others c \<longleftrightarrow> (\<forall>d \<in> set others. gtidSetSubset (cs_ExecutedGTIDSet (lc_score d)) (cs_ExecutedGTIDSet (lc_score c)))"
  by (simp add: contains_all_def list_all_iff)

lemma contains_all_trans:
  assumes "contains_all xs d" "gtidSetSubset (cs_ExecutedGTIDSet (lc_score d)) (cs_ExecutedGTIDSet (lc_score c))"
  shows "contains_all xs c"
  using assms unfolding contains_all_iff by (blast intro: gtidSetSubset_trans)

text \<open>The array that is left when \<open>k\<close> of the first \<open>i\<close> candidates have been kept: nothing is read that was
  overwritten, and a candidate contains everything in it exactly when it contains all the original ones,
  since whatever was overwritten lies below a kept candidate.\<close>

definition filter_state :: "live_candidate list \<Rightarrow> live_candidate list \<Rightarrow> nat \<Rightarrow> nat \<Rightarrow> bool" where
  "filter_state xs array i k \<longleftrightarrow> length array = length xs \<and> k \<le> i \<and> i \<le> length xs \<and> drop i array = drop i xs \<and>
     take k array = filter (contains_all xs) (take i xs) \<and> set array \<subseteq> set xs \<and> (k = 0 \<longrightarrow> array = xs)"

lemma filter_state_contains:
  assumes "filter_state xs array i k"
  shows "contains_all array c \<longleftrightarrow> contains_all xs c"
proof
  assume "contains_all xs c"
  then show "contains_all array c" using assms by (auto simp: filter_state_def contains_all_iff)
next
  assume c: "contains_all array c"
  show "contains_all xs c"
  proof (cases "k = 0")
    case True
    then show ?thesis using assms c by (simp add: filter_state_def)
  next
    case False
    then have "take k array \<noteq> []" using assms by (auto simp: filter_state_def)
    then obtain d where d: "d \<in> set (take k array)" by (meson hd_in_set)
    then have "contains_all xs d" using assms by (auto simp: filter_state_def)
    moreover have "d \<in> set array" using d by (rule in_set_takeD)
    then have "gtidSetSubset (cs_ExecutedGTIDSet (lc_score d)) (cs_ExecutedGTIDSet (lc_score c))"
      using c unfolding contains_all_iff by blast
    ultimately show ?thesis by (rule contains_all_trans)
  qed
qed

lemma filter_state_step:
  assumes st: "filter_state xs array i k" and i: "i < length xs"
  shows "contains_all xs (array ! i) \<Longrightarrow> filter_state xs (array[k := array ! i]) (i + 1) (k + 1)"
    "\<not> contains_all xs (array ! i) \<Longrightarrow> filter_state xs array (i + 1) k"
proof -
  have len: "length array = length xs" "k \<le> i" and rest: "drop i array = drop i xs"
    using st by (simp_all add: filter_state_def)
  have same: "array ! i = xs ! i" using rest len i by (metis Cons_nth_drop_Suc list.inject)
  have next_rest: "drop (i + 1) array = drop (i + 1) xs" using rest by (metis drop_drop add.commute)
  show "filter_state xs array (i + 1) k" if "\<not> contains_all xs (array ! i)"
    using st that i next_rest by (simp add: filter_state_def same take_Suc_conv_app_nth)
  show "filter_state xs (array[k := array ! i]) (i + 1) (k + 1)" if "contains_all xs (array ! i)"
  proof -
    have "take (k + 1) (array[k := array ! i]) = take k array @ [array ! i]"
      using len i by (simp add: take_Suc_conv_app_nth)
    moreover have "drop (i + 1) (array[k := array ! i]) = drop (i + 1) xs" using len next_rest by simp
    moreover have "set (array[k := array ! i]) \<subseteq> set xs"
      using st i len set_update_subset_insert [of array k "array ! i"] by (auto simp: filter_state_def same)
    ultimately show ?thesis
      using st that i by (simp add: filter_state_def same take_Suc_conv_app_nth)
  qed
qed

lemma keep_supersets_state:
  "filter_state xs array i k \<Longrightarrow> keep_supersets array i k = filter (contains_all xs) xs"
proof (induction array i k rule: keep_supersets.induct)
  case (1 array i k)
  show ?case
  proof (cases "i < length array")
    case True
    then have i: "i < length xs" using 1(3) by (simp add: filter_state_def)
    note step = filter_state_step [OF 1(3) i] and iff = filter_state_contains [OF 1(3), of "array ! i"]
    show ?thesis
      using 1(1,2) True step iff by (subst keep_supersets.simps) (simp del: One_nat_def)
  next
    case False
    then show ?thesis using 1(3) by (subst keep_supersets.simps) (simp add: filter_state_def)
  qed
qed

text \<open>The filter that overwrites the array it reads keeps exactly the candidates that contain the
  transactions of every candidate, in their order.\<close>

theorem in_place_filter_correct:
  "keep_supersets candidates 0 0 = filter (contains_all candidates) candidates"
  by (rule keep_supersets_state) (simp add: filter_state_def)

subsection \<open>What the winner contains\<close>

definition election_call :: "arch_request \<Rightarrow> machine_map \<Rightarrow> arch_node \<Rightarrow> agent_call" where
  "election_call req machines node = step_call (machine_at machines (an_MachineID node))
     (mysqlArchitectureCommand (architectureRootPassword req (an_MachineID node)) (an_Port node) electionProbeSQL)"

definition answer_cols :: "agent_reply \<Rightarrow> string list" where
  "answer_cols r = split_on (CHR ''|'') (trim_space (reply_message r))"

fun note_all :: "string \<Rightarrow> arch_request \<Rightarrow> machine_map \<Rightarrow> (arch_node \<times> agent_reply) list \<Rightarrow> probe_state \<Rightarrow> probe_state result" where
  "note_all cid req machines [] st = Inr st"
| "note_all cid req machines ((node, r) # obs) st =
     (case note_state cid req (machine_at machines (an_MachineID node)) node (answer_cols r) st of
        Inl e \<Rightarrow> Inl e | Inr st' \<Rightarrow> note_all cid req machines obs st')"

lemma map_error_InrD: "map_error f m s = (Inr x, s') \<Longrightarrow> m s = (Inr x, s')"
  by (auto simp: map_error_def with_result_def split: prod.splits sum.splits)

lemma of_result_simps [simp]: "of_result (Inr x) = ret x" "of_result (Inl e) = fail_with e"
  by (simp_all add: of_result_def)

lemma of_result_InrD: "of_result r s = (Inr x, s') \<Longrightarrow> r = Inr x \<and> s' = s"
  by (cases r) auto

lemma election_probe_run:
  assumes "election_probe ag cid req machines node st (w, ids) = (Inr st', (w', ids'))"
  shows "\<exists>r. arch_steps w' = arch_steps w @ [(election_call req machines node, r)] \<and> db_of w' = db_of w \<and> exec_success r \<and>
     note_state cid req (machine_at machines (an_MachineID node)) node (answer_cols r) st = Inr st'"
proof -
  from assms obtain out v where p: "probe ag (machine_at machines (an_MachineID node))
      (mysqlArchitectureCommand (architectureRootPassword req (an_MachineID node)) (an_Port node) electionProbeSQL) (w, ids) = (Inr out, v)"
    and st: "of_result (note_state cid req (machine_at machines (an_MachineID node)) node (split_on (CHR ''|'') (trim_space out)) st) v = (Inr st', (w', ids'))"
    unfolding election_probe_def Let_def by (blast dest: on_ok_InrD map_error_InrD)
  from of_result_InrD [OF st] have v: "v = (w', ids')" and noted: "note_state cid req (machine_at machines (an_MachineID node)) node
      (split_on (CHR ''|'') (trim_space out)) st = Inr st'" by simp_all
  from probe_run [OF p [unfolded v]] noted show ?thesis by (auto simp: answer_cols_def election_call_def)
qed

lemma election_probes_run:
  assumes "fold_ok (election_probe ag cid req machines) nodes st (w, ids) = (Inr st', (w', ids'))"
  shows "\<exists>obs. map fst obs = nodes \<and> note_all cid req machines obs st = Inr st' \<and> db_of w' = db_of w \<and>
     arch_steps w' = arch_steps w @ map (\<lambda>(node, r). (election_call req machines node, r)) obs \<and>
     (\<forall>(node, r) \<in> set obs. exec_success r)"
  using assms
proof (induction nodes arbitrary: st w ids)
  case Nil
  then show ?case by (intro exI [of _ "[]"]) simp
next
  case (Cons node nodes)
  from Cons.prems obtain st1 v where one: "election_probe ag cid req machines node st (w, ids) = (Inr st1, v)"
    and rest: "fold_ok (election_probe ag cid req machines) nodes st1 v = (Inr st', (w', ids'))"
    by (auto dest: on_ok_InrD)
  obtain u js where v: "v = (u, js)" by fastforce
  from election_probe_run [OF one [unfolded v]] obtain r where r: "arch_steps u = arch_steps w @ [(election_call req machines node, r)]"
    "db_of u = db_of w" "exec_success r" "note_state cid req (machine_at machines (an_MachineID node)) node (answer_cols r) st = Inr st1"
    by blast
  from Cons.IH [OF rest [unfolded v]] obtain obs where obs: "map fst obs = nodes" "note_all cid req machines obs st1 = Inr st'"
    "db_of w' = db_of u" "arch_steps w' = arch_steps u @ map (\<lambda>(node, r). (election_call req machines node, r)) obs"
    "\<forall>(node, r) \<in> set obs. exec_success r" by blast
  show ?case using r obs by (intro exI [of _ "(node, r) # obs"]) auto
qed

definition live_ok :: "arch_request \<Rightarrow> arch_node \<times> agent_reply \<Rightarrow> bool" where
  "live_ok req ob = (case ob of (node, r) \<Rightarrow> \<not> election_excludes req node \<and> equal_fold (answer_cols r ! 1) ''ON'')"

definition live_of :: "string \<Rightarrow> arch_request \<Rightarrow> machine_map \<Rightarrow> arch_node \<times> agent_reply \<Rightarrow> live_candidate" where
  "live_of cid req machines ob = (case ob of (node, r) \<Rightarrow>
     \<lparr>lc_score = live_score cid req (machine_at machines (an_MachineID node)) node (answer_cols r),
      lc_transactions = gtidTransactionCount (answer_cols r ! 2)\<rparr>)"

definition server_of :: "agent_reply \<Rightarrow> int option" where
  "server_of r = atoi (answer_cols r ! 0)"

lemma note_state_InrD:
  assumes "note_state cid req m node (answer_cols r) (c, s, t) = Inr (c', s', t')" "m = machine_at machines (an_MachineID node)"
  shows "c' = c @ (if live_ok req (node, r) then [live_of cid req machines (node, r)] else []) \<and>
     t' = (an_MachineID node, answer_cols r ! 2) # t \<and>
     (\<exists>sid. server_of r = Some sid \<and> s' = (sid, an_MachineID node) # s \<and> sid \<notin> fst ` set s)"
  using assms
  by (auto simp: note_state_def Let_def live_ok_def live_of_def server_of_def map_of_eq_None_iff split: if_splits option.splits)

lemma note_all_InrD:
  assumes "note_all cid req machines obs (c, s, t) = Inr (c', s', t')"
  shows "c' = c @ map (live_of cid req machines) (filter (live_ok req) obs) \<and>
     t' = rev (map (\<lambda>(node, r). (an_MachineID node, answer_cols r ! 2)) obs) @ t \<and>
     (\<forall>(node, r) \<in> set obs. \<exists>sid. server_of r = Some sid \<and> sid \<notin> fst ` set s) \<and>
     distinct (map (\<lambda>(node, r). server_of r) obs)"
  using assms
proof (induction obs arbitrary: c s t)
  case (Cons ob obs)
  obtain node r where ob: "ob = (node, r)" by fastforce
  from Cons.prems ob obtain c1 s1 t1 where one: "note_state cid req (machine_at machines (an_MachineID node)) node (answer_cols r) (c, s, t) = Inr (c1, s1, t1)"
    and rest: "note_all cid req machines obs (c1, s1, t1) = Inr (c', s', t')"
    by (auto split: sum.splits)
  note a = note_state_InrD [OF one refl] and b = Cons.IH [OF rest]
  from a obtain sid where sid: "server_of r = Some sid" "s1 = (sid, an_MachineID node) # s" "sid \<notin> fst ` set s" by blast
  have "\<forall>(n, q) \<in> set obs. server_of q \<noteq> Some sid" using b sid by fastforce
  moreover have "\<forall>(n, q) \<in> set obs. \<exists>x. server_of q = Some x \<and> x \<notin> fst ` set s" using b sid by fastforce
  ultimately show ?case using a b sid ob by fastforce
qed simp

lemma choose_live_InrD:
  assumes "choose_live req (c, s, t) = Inr best"
  shows "\<exists>k \<in> set c. contains_all c k \<and> cs_MachineID best = cs_MachineID (lc_score k) \<and>
      cs_ExecutedGTIDSet best = cs_ExecutedGTIDSet (lc_score k) \<and>
      (\<forall>d \<in> set c. contains_all c d \<longrightarrow> \<not> live_before d k) \<and>
      (\<forall>node \<in> set (ar_Nodes req). must_follow req (cs_MachineID best) node \<longrightarrow>
         gtidSetSubset (get_string (map_of t) (an_MachineID node)) (cs_ExecutedGTIDSet best))"
proof -
  let ?kept = "filter (contains_all c) c"
  have keep: "keep_supersets c 0 0 = ?kept" by (rule keep_supersets_state) (simp add: filter_state_def)
  let ?k = "hd (stable_sort live_before ?kept)"
  from assms have ne: "?kept \<noteq> []" by (auto simp: choose_live_def keep Let_def split: if_splits)
  from assms have best: "best = (lc_score ?k)\<lparr>cs_DataFreshnessScore := 100, cs_FinalScore := cs_HealthScore (lc_score ?k) + cs_ElectionPriority (lc_score ?k)\<rparr>"
    and none: "find (\<lambda>node. must_follow req (cs_MachineID (lc_score ?k)) node \<and>
        \<not> gtidSetSubset (get_string (map_of t) (an_MachineID node)) (cs_ExecutedGTIDSet (lc_score ?k))) (ar_Nodes req) = None"
    by (auto simp: choose_live_def keep Let_def split: if_splits option.splits)
  have "stable_sort live_before ?kept \<noteq> []" using ne by simp
  then have "?k \<in> set (stable_sort live_before ?kept)" by (rule hd_in_set)
  then have k: "?k \<in> set c" "contains_all c ?k" by simp_all
  have "\<not> live_before d ?k" if "d \<in> set c" "contains_all c d" for d
    by (rule live_order.hd_stable_sort_least) (use that in simp)
  with k best none show ?thesis by (intro bexI [of _ ?k]) (auto simp: find_None_iff)
qed

lemma live_score_fields [simp]:
  "cs_MachineID (live_score cid req m node cols) = an_MachineID node"
  "cs_ExecutedGTIDSet (live_score cid req m node cols) = cols ! 2"
  by (simp_all add: live_score_def)

lemma map_of_rev_distinct:
  "distinct (map fst xs) \<Longrightarrow> (k, v) \<in> set xs \<Longrightarrow> map_of (rev xs) k = Some v"
  by (metis distinct_map distinct_rev map_of_eq_Some_iff rev_map set_rev)

text \<open>The answers of the nodes, as a function of the node.\<close>

lemma election_answered:
  assumes "electLiveArchitectureCandidate ag cid req machines (w, ids) = (Inr best, (w', ids'))"
    and "distinct (map an_MachineID (ar_Nodes req))"
  obtains c s t and answer :: "arch_node \<Rightarrow> agent_reply" where "choose_live req (c, s, t) = Inr best"
    and "arch_steps w' = arch_steps w @ map (\<lambda>n. (election_call req machines n, answer n)) (ar_Nodes req)"
    and "\<forall>n \<in> set (ar_Nodes req). exec_success (answer n)"
    and "note_all cid req machines (map (\<lambda>n. (n, answer n)) (ar_Nodes req)) ([], [], []) = Inr (c, s, t)"
proof -
  from assms(1) obtain st v where probes: "fold_ok (election_probe ag cid req machines) (ar_Nodes req) ([], [], []) (w, ids) = (Inr st, v)"
    and choice: "of_result (choose_live req st) v = (Inr best, (w', ids'))"
    unfolding electLiveArchitectureCandidate_def by (blast dest: on_ok_InrD)
  obtain c s t where st: "st = (c, s, t)" by (metis prod.collapse)
  from of_result_InrD [OF choice] have v: "v = (w', ids')" and best: "choose_live req (c, s, t) = Inr best" using st by simp_all
  from election_probes_run [OF probes [unfolded v st]] obtain obs where obs: "map fst obs = ar_Nodes req"
    "note_all cid req machines obs ([], [], []) = Inr (c, s, t)" "db_of w' = db_of w"
    "arch_steps w' = arch_steps w @ map (\<lambda>(node, r). (election_call req machines node, r)) obs" "\<forall>(node, r) \<in> set obs. exec_success r"
    by blast
  have dist: "distinct (map fst obs)" using assms(2) obs(1) by (simp add: distinct_map)
  define answer where "answer n = the (map_of obs n)" for n
  have at: "answer n = r" if "(n, r) \<in> set obs" for n r using that dist by (simp add: answer_def)
  have obs_eq: "obs = map (\<lambda>n. (n, answer n)) (ar_Nodes req)"
    unfolding obs(1) [symmetric] map_map by (rule map_idI [symmetric]) (use at in auto)
  have "arch_steps w' = arch_steps w @ map (\<lambda>n. (election_call req machines n, answer n)) (ar_Nodes req)"
    unfolding obs(4) by (subst obs_eq) simp
  moreover have "\<forall>n \<in> set (ar_Nodes req). exec_success (answer n)" using obs(5) unfolding obs_eq by auto
  ultimately show ?thesis using that best obs(2) unfolding obs_eq by blast
qed

lemma recorded_set:
  assumes "distinct (map an_MachineID nodes)" and "q \<in> set nodes"
  shows "map_of (rev (map (\<lambda>(node, r). (an_MachineID node, answer_cols r ! 2)) (map (\<lambda>n. (n, answer n)) nodes))) (an_MachineID q) =
    Some (answer_cols (answer q) ! 2)"
proof (rule map_of_rev_distinct)
  show "distinct (map fst (map (\<lambda>(node, r). (an_MachineID node, answer_cols r ! 2)) (map (\<lambda>n. (n, answer n)) nodes)))"
    using assms(1) by (simp add: o_def)
qed (use assms(2) in auto)

text \<open>C30: When the live election names a winner, every target node was probed and answered, their server ids differ,
  and the winner is a target master with GTIDs, not delayed and not the master being replaced, whose
  executed transactions include those of every other candidate and those of every target replica (role S) other than
  the node that is the current master. The replicas are not compared when the request names no current master and
  initialises no VIP (a cluster put together from independent nodes), and the transactions of the current master,
  when it becomes a replica, are not compared here at all.\<close>

theorem elected_contains_everything:
  assumes "electLiveArchitectureCandidate ag cid req machines (w, ids) = (Inr best, (w', ids'))"
    and "distinct (map an_MachineID (ar_Nodes req))"
  shows "\<exists>answer :: arch_node \<Rightarrow> agent_reply.
     arch_steps w' = arch_steps w @ map (\<lambda>n. (election_call req machines n, answer n)) (ar_Nodes req) \<and>
     (\<forall>n \<in> set (ar_Nodes req). exec_success (answer n) \<and> server_of (answer n) \<noteq> None) \<and>
     inj_on (\<lambda>n. server_of (answer n)) (set (ar_Nodes req)) \<and>
     (\<exists>n \<in> set (ar_Nodes req). cs_MachineID best = an_MachineID n \<and> live_ok req (n, answer n) \<and>
        cs_ExecutedGTIDSet best = answer_cols (answer n) ! 2) \<and>
     (\<forall>n \<in> set (ar_Nodes req). live_ok req (n, answer n) \<longrightarrow>
        gtid_txns (answer_cols (answer n) ! 2) \<subseteq> gtid_txns (cs_ExecutedGTIDSet best)) \<and>
     (ar_CurrentMasterMachineID req \<noteq> [] \<or> ar_InitializeVIP req \<longrightarrow>
        (\<forall>n \<in> set (ar_Nodes req). equal_fold (an_Role n) ''S'' \<and> an_MachineID n \<noteq> ar_CurrentMasterMachineID req \<longrightarrow>
           gtid_txns (answer_cols (answer n) ! 2) \<subseteq> gtid_txns (cs_ExecutedGTIDSet best)))"
proof -
  from election_answered [OF assms] obtain c s t and answer :: "arch_node \<Rightarrow> agent_reply" where best: "choose_live req (c, s, t) = Inr best"
    and log: "arch_steps w' = arch_steps w @ map (\<lambda>n. (election_call req machines n, answer n)) (ar_Nodes req)"
    and success: "\<forall>n \<in> set (ar_Nodes req). exec_success (answer n)"
    and noted: "note_all cid req machines (map (\<lambda>n. (n, answer n)) (ar_Nodes req)) ([], [], []) = Inr (c, s, t)" .
  note facts = note_all_InrD [OF noted]
  have answered: "\<forall>n \<in> set (ar_Nodes req). exec_success (answer n) \<and> server_of (answer n) \<noteq> None"
    using success facts by auto
  have servers: "inj_on (\<lambda>n. server_of (answer n)) (set (ar_Nodes req))"
    using facts by (simp add: o_def distinct_map)
  from choose_live_InrD [OF best] obtain k where k: "k \<in> set c" "contains_all c k" "cs_MachineID best = cs_MachineID (lc_score k)"
      "cs_ExecutedGTIDSet best = cs_ExecutedGTIDSet (lc_score k)"
    and follow: "\<forall>node \<in> set (ar_Nodes req). must_follow req (cs_MachineID best) node \<longrightarrow>
         gtidSetSubset (get_string (map_of t) (an_MachineID node)) (cs_ExecutedGTIDSet best)" by blast
  have c: "c = map (live_of cid req machines) (filter (live_ok req) (map (\<lambda>n. (n, answer n)) (ar_Nodes req)))" using facts by simp
  from k(1) c obtain n where n: "n \<in> set (ar_Nodes req)" "live_ok req (n, answer n)" "k = live_of cid req machines (n, answer n)"
    by auto
  have winner: "cs_MachineID best = an_MachineID n" "cs_ExecutedGTIDSet best = answer_cols (answer n) ! 2"
    using k(3,4) n(3) by (simp_all add: live_of_def)
  have cand: "gtid_txns (answer_cols (answer q) ! 2) \<subseteq> gtid_txns (cs_ExecutedGTIDSet best)"
    if "q \<in> set (ar_Nodes req)" "live_ok req (q, answer q)" for q
  proof -
    have "live_of cid req machines (q, answer q) \<in> set c" using that unfolding c by force
    from k(2) [unfolded contains_all_iff, rule_format, OF this] show ?thesis
      using k(4) by (simp add: gtidSetSubset_incl live_of_def)
  qed
  have repl: "gtid_txns (answer_cols (answer q) ! 2) \<subseteq> gtid_txns (cs_ExecutedGTIDSet best)"
    if "q \<in> set (ar_Nodes req)" "must_follow req (cs_MachineID best) q" for q
  proof -
    have t: "map_of t (an_MachineID q) = Some (answer_cols (answer q) ! 2)"
      using facts recorded_set [OF assms(2) that(1)] by simp
    from follow that have "gtidSetSubset (get_string (map_of t) (an_MachineID q)) (cs_ExecutedGTIDSet best)" by blast
    with t show ?thesis by (simp add: get_string_def gtidSetSubset_incl)
  qed
  have replicas: "gtid_txns (answer_cols (answer q) ! 2) \<subseteq> gtid_txns (cs_ExecutedGTIDSet best)"
    if compared: "ar_CurrentMasterMachineID req \<noteq> [] \<or> ar_InitializeVIP req"
      and q: "q \<in> set (ar_Nodes req)" "equal_fold (an_Role q) ''S'' \<and> an_MachineID q \<noteq> ar_CurrentMasterMachineID req" for q
  proof (cases "an_MachineID q = cs_MachineID best")
    case True
    then have "q = n" using q(1) n(1) winner(1) assms(2) by (metis distinct_map inj_onD)
    then show ?thesis using winner(2) by simp
  next
    case False
    with repl [OF q(1)] q(2) compared show ?thesis by (simp add: must_follow_def)
  qed
  show ?thesis
    using log answered servers n(1,2) winner cand replicas by (intro exI [of _ answer]) blast
qed

text \<open>Two nodes that report the same history: the election takes the one with the master role.\<close>

definition reported :: "(string \<Rightarrow> string) \<Rightarrow> machine_map \<Rightarrow> arch_request \<Rightarrow> arch_node \<Rightarrow> arch_node \<times> agent_reply" where
  "reported g machines req n = (n, saying (\<lambda>ip _. g ip) [] (election_call req machines n))"

fun note_reported :: "(string \<Rightarrow> string) \<Rightarrow> string \<Rightarrow> arch_request \<Rightarrow> machine_map \<Rightarrow> arch_node list \<Rightarrow> probe_state \<Rightarrow> probe_state result" where
  "note_reported g cid req machines [] st = Inr st"
| "note_reported g cid req machines (n # ns) st =
     (let m = machine_at machines (an_MachineID n)
      in case note_state cid req m n (split_on (CHR ''|'') (trim_space (g (mach_IP m)))) st of
           Inl e \<Rightarrow> Inl e | Inr st' \<Rightarrow> note_reported g cid req machines ns st')"

lemma election_probe_saying:
  "\<exists>w' ids'. election_probe (saying (\<lambda>ip _. g ip)) cid req machines n st (w, ids) =
     (note_state cid req (machine_at machines (an_MachineID n)) n
        (split_on (CHR ''|'') (trim_space (g (mach_IP (machine_at machines (an_MachineID n)))))) st, (w', ids'))"
proof -
  let ?c = "mysqlArchitectureCommand (architectureRootPassword req (an_MachineID n)) (an_Port n) electionProbeSQL"
  let ?m = "machine_at machines (an_MachineID n)"
  let ?r = "note_state cid req ?m n (split_on (CHR ''|'') (trim_space (g (mach_IP ?m)))) st"
  obtain w' where p: "probe (saying (\<lambda>ip _. g ip)) ?m ?c (w, ids) = (Inr (g (mach_IP ?m)), (w', ids @ [''t'']))"
    using probe_saying [of "\<lambda>ip _. g ip"] by blast
  show ?thesis
    by (cases ?r) (simp_all add: election_probe_def Let_def on_ok_def map_error_def with_result_def p)
qed

lemma election_probes_saying:
  "\<exists>w' ids'. fold_ok (election_probe (saying (\<lambda>ip _. g ip)) cid req machines) nodes st (w, ids) =
     (note_reported g cid req machines nodes st, (w', ids'))"
proof (induction nodes arbitrary: st w ids)
  case (Cons n nodes)
  let ?r = "note_state cid req (machine_at machines (an_MachineID n)) n
      (split_on (CHR ''|'') (trim_space (g (mach_IP (machine_at machines (an_MachineID n)))))) st"
  obtain v js where one: "election_probe (saying (\<lambda>ip _. g ip)) cid req machines n st (w, ids) = (?r, (v, js))"
    using election_probe_saying by blast
  show ?case
  proof (cases ?r)
    case (Inl e)
    with one show ?thesis by (simp add: on_ok_def Let_def)
  next
    case (Inr st')
    obtain w' ids' where "fold_ok (election_probe (saying (\<lambda>ip _. g ip)) cid req machines) nodes st' (v, js) =
        (note_reported g cid req machines nodes st', (w', ids'))" using Cons.IH by blast
    with one Inr show ?thesis by (simp add: on_ok_def Let_def)
  qed
qed simp

lemma election_saying:
  assumes "note_reported g cid req machines (ar_Nodes req) ([], [], []) = Inr st" "choose_live req st = Inr best"
  shows "\<exists>w' ids'. electLiveArchitectureCandidate (saying (\<lambda>ip _. g ip)) cid req machines (w, ids) = (Inr best, (w', ids'))"
  using election_probes_saying [of g cid req machines "ar_Nodes req" "([], [], [])" w ids] assms
  by (auto simp: electLiveArchitectureCandidate_def on_ok_def)

definition three_request :: arch_request where
  "three_request = switch_request\<lparr>ar_Nodes := [node_at ''m1'' ''S'' 0, node_at ''m2'' ''M'' 0, node_at ''m3'' ''S'' 0]\<rparr>"

definition three_machines :: machine_map where
  "three_machines = map (\<lambda>(i, ip). (i, no_machine\<lparr>mach_ID := i, mach_IP := ip\<rparr>)) [(''m1'', ''10.0.0.1''), (''m2'', ''10.0.0.2''), (''m3'', ''10.0.0.3'')]"

definition three_states :: "string \<Rightarrow> string" where
  "three_states ip = (if ip = ''10.0.0.1'' then ''1|ON|u:1-7|1|1'' else if ip = ''10.0.0.2'' then ''2|ON|u:1-7|1|1'' else ''3|ON|u:1-5|1|1'')"

definition three_result :: "candidate result" where
  "three_result = (case note_reported three_states ''c1'' three_request three_machines (ar_Nodes three_request) ([], [], []) of
     Inl e \<Rightarrow> Inl e | Inr st \<Rightarrow> choose_live three_request st)"

lemma three_noted: "is_ok (note_reported three_states ''c1'' three_request three_machines (ar_Nodes three_request) ([], [], []))"
  by code_simp

lemma three_elected: "is_ok three_result"
  by code_simp

text \<open>The old master becomes a replica, \<open>m2\<close> is to be promoted and \<open>m3\<close> has to follow it, its transactions included in those of \<open>m2\<close>.\<close>

theorem elected_contains_everything_witness:
  "\<exists>ag best w' ids' answer. electLiveArchitectureCandidate ag ''c1'' three_request three_machines (empty_world 0, []) = (Inr best, (w', ids')) \<and>
     cs_MachineID best = ''m2'' \<and>
     arch_steps w' = map (\<lambda>n. (election_call three_request three_machines n, answer n)) (ar_Nodes three_request) \<and>
     gtid_txns (answer_cols (answer (node_at ''m3'' ''S'' 0)) ! 2) \<subseteq> gtid_txns (cs_ExecutedGTIDSet best)"
proof -
  from three_noted obtain st where st: "note_reported three_states ''c1'' three_request three_machines (ar_Nodes three_request) ([], [], []) = Inr st"
    by (metis is_ok_iff)
  with three_elected obtain best where "choose_live three_request st = Inr best" by (metis is_ok_iff three_result_def sum.case(2))
  from election_saying [OF st this] obtain w' ids' where run:
    "electLiveArchitectureCandidate (saying (\<lambda>ip _. three_states ip)) ''c1'' three_request three_machines (empty_world 0, []) = (Inr best, (w', ids'))"
    by blast
  have nodes: "ar_Nodes three_request = [node_at ''m1'' ''S'' 0, node_at ''m2'' ''M'' 0, node_at ''m3'' ''S'' 0]"
    and cur: "ar_CurrentMasterMachineID three_request = ''m1''"
    by (simp_all add: three_request_def switch_request_def)
  have dist: "distinct (map an_MachineID (ar_Nodes three_request))" by (simp add: nodes node_at_def)
  from elected_contains_everything [OF run dist] obtain answer :: "arch_node \<Rightarrow> agent_reply" where
    log: "arch_steps w' = arch_steps (empty_world 0) @ map (\<lambda>n. (election_call three_request three_machines n, answer n)) (ar_Nodes three_request)"
    and won: "\<exists>n \<in> set (ar_Nodes three_request). cs_MachineID best = an_MachineID n \<and> live_ok three_request (n, answer n)"
    and all: "\<forall>n \<in> set (ar_Nodes three_request). equal_fold (an_Role n) ''S'' \<and> an_MachineID n \<noteq> ar_CurrentMasterMachineID three_request \<longrightarrow>
           gtid_txns (answer_cols (answer n) ! 2) \<subseteq> gtid_txns (cs_ExecutedGTIDSet best)"
    using cur by auto
  have roles: "\<not> equal_fold ''S'' ''M''" "equal_fold ''S'' ''S''" by code_simp+
  have "cs_MachineID best = ''m2''"
    using won roles by (auto simp: nodes live_ok_def election_excludes_def node_at_def)
  moreover have "gtid_txns (answer_cols (answer (node_at ''m3'' ''S'' 0)) ! 2) \<subseteq> gtid_txns (cs_ExecutedGTIDSet best)"
    using all roles by (auto simp: nodes cur node_at_def)
  moreover have "arch_steps (empty_world 0) = []" by (simp add: arch_steps_def empty_world_def)
  ultimately show ?thesis using run log by auto
qed

subsection \<open>What the alignment of an empty replica sends\<close>

definition align_call :: "arch_request \<Rightarrow> machine_map \<Rightarrow> arch_node \<Rightarrow> string \<Rightarrow> agent_call" where
  "align_call req machines node command = step_call (machine_at machines (an_MachineID node)) command"

definition gtid_probe_of :: "arch_request \<Rightarrow> machine_map \<Rightarrow> arch_node \<Rightarrow> agent_call" where
  "gtid_probe_of req machines node = align_call req machines node
     (mysqlArchitectureCommand (architectureRootPassword req (an_MachineID node)) (an_Port node) ''SELECT @@GLOBAL.gtid_executed;'')"

definition objects_probe_of :: "arch_request \<Rightarrow> machine_map \<Rightarrow> arch_node \<Rightarrow> agent_call" where
  "objects_probe_of req machines node = align_call req machines node
     (mysqlArchitectureCommand (architectureRootPassword req (an_MachineID node)) (an_Port node) businessObjectsSQL)"

definition reset_call_of :: "arch_request \<Rightarrow> machine_map \<Rightarrow> arch_node \<Rightarrow> string \<Rightarrow> agent_call" where
  "reset_call_of req machines node gtids = align_call req machines node
     (resetGTIDCommand (architectureRootPassword req (an_MachineID node)) (an_Port node) gtids)"

text \<open>What is sent to one node: nothing to the selected node and to a node that will not be a replica; to
  a replica the probe of its transactions, then, only when it has some the selected node lacks, the count of its
  business objects, then, only when that is 0, the reset. \<open>ok\<close> tells whether the loop goes on.\<close>

inductive align_trace :: "arch_request \<Rightarrow> candidate \<Rightarrow> machine_map \<Rightarrow> arch_node \<Rightarrow> agent_log \<Rightarrow> bool \<Rightarrow> bool"
  for req best machines node where
  align_skip: "an_MachineID node = cs_MachineID best \<or> \<not> equal_fold (an_Role node) ''S'' \<Longrightarrow> align_trace req best machines node [] True"
| align_unread: "\<not> exec_success r \<Longrightarrow> align_trace req best machines node [(gtid_probe_of req machines node, r)] False"
| align_same: "exec_success r \<Longrightarrow> gtid_txns (trim_space (reply_message r)) \<subseteq> gtid_txns (cs_ExecutedGTIDSet best) \<Longrightarrow>
     align_trace req best machines node [(gtid_probe_of req machines node, r)] True"
| align_blocked: "exec_success r \<Longrightarrow> \<not> gtid_txns (trim_space (reply_message r)) \<subseteq> gtid_txns (cs_ExecutedGTIDSet best) \<Longrightarrow>
     \<not> exec_success q \<or> atoi (trim_space (reply_message q)) \<noteq> Some 0 \<Longrightarrow>
     align_trace req best machines node [(gtid_probe_of req machines node, r), (objects_probe_of req machines node, q)] False"
| align_reset: "exec_success r \<Longrightarrow> \<not> gtid_txns (trim_space (reply_message r)) \<subseteq> gtid_txns (cs_ExecutedGTIDSet best) \<Longrightarrow>
     exec_success q \<Longrightarrow> atoi (trim_space (reply_message q)) = Some 0 \<Longrightarrow>
     align_trace req best machines node [(gtid_probe_of req machines node, r), (objects_probe_of req machines node, q),
        (reset_call_of req machines node (cs_ExecutedGTIDSet best), a)] (exec_success a)"

text \<open>A probe under a wrapped error.\<close>

lemma emits_probe_ok:
  "emits sent (map_error f (probe ag m c)) (\<lambda>obs res. \<exists>r. obs = [(step_call m c, r)] \<and>
     (case res of Inr out \<Rightarrow> exec_success r \<and> out = reply_message r | Inl _ \<Rightarrow> \<not> exec_success r))"
  using emits_probe [of ag m c] unfolding emits_def map_error_def with_result_def
  by (fastforce split: prod.splits sum.splits)

lemma emits_command_ok:
  "emits sent (map_error f (runOneArchitectureCommand ag m c)) (\<lambda>obs res. \<exists>r. obs = [(step_call m c, r)] \<and> (is_ok res \<longleftrightarrow> exec_success r))"
  using emits_map_error [OF emits_command] .

lemma align_node_run:
  assumes "align_node ag req best machines node s = (res, s')"
  shows "\<exists>obs. sent s' = sent s @ obs \<and> align_trace req best machines node obs (is_ok res)"
proof (cases "an_MachineID node = cs_MachineID best \<or> \<not> equal_fold (an_Role node) ''S''")
  case True
  with assms show ?thesis by (auto simp: align_node_def intro: align_skip)
next
  case False
  note calls = gtid_probe_of_def objects_probe_of_def reset_call_of_def align_call_def
  note run = assms [unfolded align_node_def if_not_P [OF False] Let_def]
  from run show ?thesis
  proof (cases rule: on_ok_cases)
    case (err e)
    from emitsD [OF emits_probe_ok err(1)] obtain r where
      "sent s' = sent s @ [(gtid_probe_of req machines node, r)]" "\<not> exec_success r" by (auto simp: calls)
    with err show ?thesis by (auto intro: align_unread)
  next
    case (ok out v)
    from emitsD [OF emits_probe_ok ok(1)] obtain r where
      r: "sent v = sent s @ [(gtid_probe_of req machines node, r)]" "exec_success r" "out = reply_message r" by (auto simp: calls)
    show ?thesis
    proof (cases "gtidSetSubset (trim_space out) (cs_ExecutedGTIDSet best)")
      case True
      with ok(2) r show ?thesis by (auto simp: gtidSetSubset_incl intro: align_same)
    next
      case lacking: False
      then have lacks: "\<not> gtid_txns (trim_space (reply_message r)) \<subseteq> gtid_txns (cs_ExecutedGTIDSet best)"
        using r(3) by (simp add: gtidSetSubset_incl)
      from ok(2) [unfolded if_not_P [OF lacking]] show ?thesis
      proof (cases rule: on_ok_cases)
        case (err e)
        from emitsD [OF emits_probe_ok err(1)] obtain q where
          "sent s' = sent v @ [(objects_probe_of req machines node, q)]" "\<not> exec_success q" by (auto simp: calls)
        with err r lacks show ?thesis by (auto intro: align_blocked)
      next
        case (ok out2 u)
        from emitsD [OF emits_probe_ok ok(1)] obtain q where
          q: "sent u = sent v @ [(objects_probe_of req machines node, q)]" "exec_success q" "out2 = reply_message q" by (auto simp: calls)
        show ?thesis
        proof (cases "atoi (trim_space out2) = Some 0")
          case True
          with ok(2) emitsD [OF emits_command_ok] obtain a where
            "sent s' = sent u @ [(reset_call_of req machines node (cs_ExecutedGTIDSet best), a)]" "is_ok res = exec_success a"
            by (fastforce simp: calls)
          with r q lacks True show ?thesis by (auto intro: align_reset)
        next
          case n: False
          then have "s' = u" "\<not> is_ok res" using ok(2) by (auto split: option.splits if_splits)
          with n r q lacks show ?thesis by (auto intro: align_blocked)
        qed
      qed
    qed
  qed
qed

text \<open>C31: The alignment of a new cluster's replicas resets the binary logs and GTIDs of a node only after two probes of that
  node: one that shows transactions the selected node lacks, and one that counts no business table or view.
  It handles the nodes in order and stops at the first that fails.\<close>

theorem alignment_resets_only_empty:
  assumes "alignIndependentReplicaGTID ag req best machines s = (res, s')"
  shows "\<exists>obs. sent s' = sent s @ obs \<and> loop_trace (align_trace req best machines) (ar_Nodes req) obs (is_ok res)"
proof -
  have "emits sent (align_node ag req best machines node) (\<lambda>obs r. align_trace req best machines node obs (is_ok r))" for node
    by (rule emitsI) (rule align_node_run)
  from emitsD [OF emits_for_ok [OF this] assms [unfolded alignIndependentReplicaGTID_def]] show ?thesis .
qed

definition two_machines :: machine_map where
  "two_machines = [(''m1'', no_machine\<lparr>mach_ID := ''m1'', mach_IP := ''10.0.0.1''\<rparr>), (''m2'', no_machine\<lparr>mach_ID := ''m2'', mach_IP := ''10.0.0.2''\<rparr>)]"

definition chosen_m2 :: candidate where
  "chosen_m2 = no_candidate\<lparr>cs_MachineID := ''m2'', cs_ExecutedGTIDSet := ''u:1-9''\<rparr>"

lemma chosen_facts:
  "cs_MachineID chosen_m2 = ''m2''" "gtidSetSubset (trim_space ''u:1-7'') (cs_ExecutedGTIDSet chosen_m2)" "equal_fold ''S'' ''S''"
  by code_simp+

theorem alignment_resets_only_empty_witness:
  "\<exists>s'. alignIndependentReplicaGTID (saying (\<lambda>_ _. ''u:1-7'')) switch_request chosen_m2 two_machines (empty_world 0, []) = (Inr (), s') \<and>
     loop_trace (align_trace switch_request chosen_m2 two_machines) (ar_Nodes switch_request) (sent s') True"
proof -
  let ?node = "node_at ''m1'' ''S'' 0"
  have nodes: "ar_Nodes switch_request = [?node, node_at ''m2'' ''M'' 0]" by (simp add: switch_request_def)
  obtain w' where p: "probe (saying (\<lambda>_ _. ''u:1-7'')) (machine_at two_machines (an_MachineID ?node))
      (mysqlArchitectureCommand (architectureRootPassword switch_request (an_MachineID ?node)) (an_Port ?node) ''SELECT @@GLOBAL.gtid_executed;'')
      (empty_world 0, []) = (Inr ''u:1-7'', (w', [''t'']))"
    using probe_saying [of "\<lambda>_ _. ''u:1-7''" _ _ "empty_world 0" "[]", unfolded append_Nil] by blast
  have ids: "an_MachineID ?node = ''m1''" "an_Role ?node = ''S''" "an_MachineID (node_at ''m2'' ''M'' 0) = ''m2''" by (simp_all add: node_at_def)
  have first: "align_node (saying (\<lambda>_ _. ''u:1-7'')) switch_request chosen_m2 two_machines ?node (empty_world 0, []) = (Inr (), (w', [''t'']))"
    unfolding align_node_def Let_def using chosen_facts ids p by (simp add: map_error_def with_result_def on_ok_def)
  have second: "align_node (saying (\<lambda>_ _. ''u:1-7'')) switch_request chosen_m2 two_machines (node_at ''m2'' ''M'' 0) s = (Inr (), s)" for s
    unfolding align_node_def using chosen_facts ids by simp
  have run: "alignIndependentReplicaGTID (saying (\<lambda>_ _. ''u:1-7'')) switch_request chosen_m2 two_machines (empty_world 0, []) = (Inr (), (w', [''t'']))"
    unfolding alignIndependentReplicaGTID_def nodes for_ok_simps by (simp add: on_ok_def first second)
  from alignment_resets_only_empty [OF run] have "loop_trace (align_trace switch_request chosen_m2 two_machines) (ar_Nodes switch_request) (sent (w', [''t''])) True"
    by (simp add: sent_def arch_steps_def empty_world_def)
  with run show ?thesis by blast
qed

end
