(* ===== verification/Arch_VIP.thy ===== *)
theory Arch_VIP
  imports Arch_Run
begin

text \<open>
  The VIP steps of an architecture run (\<open>internal/app/architecture_executor.go\<close>): the check for a split VIP, the
  withdrawal, the zero-holder barrier, the bind, the ordered move and the verification. The VIPs are those
  of the repository when the step runs, the machines all those of the cluster together with the selected ones.
\<close>

definition allClusterVIPMachines :: "string \<Rightarrow> machine_map \<Rightarrow> machine_map act" where
  "allClusterVIPMachines cid selected =
     on_ok machines_List (\<lambda>items.
       let result = fold (add_cluster_machine cid) items selected
       in if result = [] then fail_with (Errorf ''cluster %s has no machines available for VIP split-brain checks'' [cid])
          else ret result)"

text \<open>The holders found so far are returned with the error, too.\<close>

fun probe_holders :: "agent \<Rightarrow> string \<Rightarrow> machine list \<Rightarrow> string list \<Rightarrow> (string list \<times> go_error option) cmd" where
  "probe_holders ag vip [] holders = ret (holders, None)"
| "probe_holders ag vip (m # ms) holders =
     with_result (probe ag m (vipHolderCommand vip)) (\<lambda>r. case r of
       Inl e \<Rightarrow> ret (holders, Some (Wrap ''cannot prove VIP %s state on %s: %w'' [vip, mach_Name m] e))
     | Inr output \<Rightarrow> probe_holders ag vip ms (if trim_space output = ''BOUND'' then holders @ [mach_ID m] else holders))"

definition probeArchitectureVIPHolders :: "agent \<Rightarrow> vip_config \<Rightarrow> machine_map \<Rightarrow> (string list \<times> go_error option) cmd" where
  "probeArchitectureVIPHolders ag vip machines = probe_holders ag (vc_VIPAddress vip) (sortedArchitectureMachines machines) []"

definition on_holders :: "agent \<Rightarrow> vip_config \<Rightarrow> machine_map \<Rightarrow> (string list \<Rightarrow> 'a cmd) \<Rightarrow> 'a cmd" where
  "on_holders ag vip machines f =
     on_ok (probeArchitectureVIPHolders ag vip machines) (\<lambda>(holders, err).
       case err of Some e \<Rightarrow> fail_with e | None \<Rightarrow> f holders)"

definition vips_and_machines :: "string \<Rightarrow> machine_map \<Rightarrow> (vip_config list \<Rightarrow> machine_map \<Rightarrow> 'a cmd) \<Rightarrow> 'a cmd" where
  "vips_and_machines cid selected f =
     on_ok (on_world (ListVIPConfigs cid)) (\<lambda>configs.
     on_ok (on_world (allClusterVIPMachines cid selected)) (\<lambda>machines. f configs machines))"

subsection \<open>Checks\<close>

definition check_vip_holders :: "agent \<Rightarrow> arch_request \<Rightarrow> machine_map \<Rightarrow> vip_config \<Rightarrow> unit cmd" where
  "check_vip_holders ag req machines vip =
     on_holders ag vip machines (\<lambda>holders.
       if length holders > 1
       then fail_with (Errorf ''split-brain detected: VIP %s is present on %d nodes (%s)''
              [vc_VIPAddress vip, show_nat (length holders), join '','' holders])
       else if length holders = 1 \<and> ar_CurrentMasterMachineID req \<noteq> [] \<and> hd holders \<noteq> ar_CurrentMasterMachineID req
       then fail_with (Errorf ''VIP %s is held by %s instead of declared current master %s''
              [vc_VIPAddress vip, hd holders, ar_CurrentMasterMachineID req])
       else ret ())"

definition checkArchitectureVIPConflict :: "agent \<Rightarrow> arch_run \<Rightarrow> arch_request \<Rightarrow> machine_map \<Rightarrow> unit cmd" where
  "checkArchitectureVIPConflict ag run req selected =
     vips_and_machines (rn_ClusterID run) selected (\<lambda>configs machines. for_ok (check_vip_holders ag req machines) configs)"

definition check_vip_zero :: "agent \<Rightarrow> machine_map \<Rightarrow> vip_config \<Rightarrow> unit cmd" where
  "check_vip_zero ag machines vip =
     on_holders ag vip machines (\<lambda>holders.
       if holders \<noteq> [] then fail_with (Errorf ''VIP %s zero-holder barrier failed; holders=%s'' [vc_VIPAddress vip, join '','' holders])
       else ret ())"

definition verifyArchitectureVIPZero :: "agent \<Rightarrow> arch_run \<Rightarrow> machine_map \<Rightarrow> unit cmd" where
  "verifyArchitectureVIPZero ag run selected =
     vips_and_machines (rn_ClusterID run) selected (\<lambda>configs machines. for_ok (check_vip_zero ag machines) configs)"

subsection \<open>Withdrawal and bind\<close>

definition vip_mode :: "arch_run \<Rightarrow> vip_config \<Rightarrow> string" where
  "vip_mode run vip = (if vc_VIPRouteMode vip = [] then pl_VIPRouteMode (rn_Plan run) else vc_VIPRouteMode vip)"

definition withdraw_by :: "string \<Rightarrow> vip_config \<Rightarrow> string" where
  "withdraw_by mode vip = (if mode = VipRouteModeBGP then bgpVIPWithdrawCommand vip else l2VIPRemoveCommand vip)"

definition bind_by :: "string \<Rightarrow> vip_config \<Rightarrow> machine \<Rightarrow> string" where
  "bind_by mode vip target = (if mode = VipRouteModeBGP then bgpVIPAnnounceCommand vip target else l2VIPBindCommand vip)"

definition mode_known :: "string \<Rightarrow> bool" where
  "mode_known mode \<longleftrightarrow> mode = VipRouteModeBGP \<or> mode = VipRouteModeL2ARP"

definition unsupported_mode :: "string \<Rightarrow> go_error" where
  "unsupported_mode mode = Errorf ''unsupported VIP route mode %s'' [mode]"

definition withdraw_vip_on :: "agent \<Rightarrow> string \<Rightarrow> vip_config \<Rightarrow> machine \<Rightarrow> unit cmd" where
  "withdraw_vip_on ag mode vip m =
     (if \<not> mode_known mode then fail_with (unsupported_mode mode)
      else map_error (Wrap ''withdraw VIP %s on %s: %w'' [vc_VIPAddress vip, mach_Name m])
             (runOneArchitectureCommand ag m (withdraw_by mode vip)))"

definition withdrawArchitectureVIP :: "agent \<Rightarrow> arch_run \<Rightarrow> machine_map \<Rightarrow> unit cmd" where
  "withdrawArchitectureVIP ag run selected =
     vips_and_machines (rn_ClusterID run) selected (\<lambda>configs machines.
       for_ok (\<lambda>vip. for_ok (withdraw_vip_on ag (vip_mode run vip) vip) (sortedArchitectureMachines machines)) configs)"

definition bind_vip_on :: "agent \<Rightarrow> string \<Rightarrow> machine \<Rightarrow> vip_config \<Rightarrow> unit cmd" where
  "bind_vip_on ag mode target vip =
     (if \<not> mode_known mode then fail_with (unsupported_mode mode)
      else map_error (Wrap ''bind VIP %s on %s: %w'' [vc_VIPAddress vip, mach_Name target])
             (runOneArchitectureCommand ag target (bind_by mode vip target)))"

definition vip_target :: "arch_run \<Rightarrow> string" where
  "vip_target run = cs_MachineID (pl_SelectedCandidate (rn_Plan run))"

definition bindArchitectureVIP :: "agent \<Rightarrow> arch_run \<Rightarrow> machine_map \<Rightarrow> unit cmd" where
  "bindArchitectureVIP ag run selected =
     vips_and_machines (rn_ClusterID run) selected (\<lambda>configs machines.
       case map_of machines (vip_target run) of
         None \<Rightarrow> fail_with (Error ''selected VIP target machine is unavailable'')
       | Some target \<Rightarrow> for_ok (\<lambda>vip. bind_vip_on ag (vip_mode run vip) target vip) configs)"

subsection \<open>The ordered move\<close>

definition move_withdraw_on :: "agent \<Rightarrow> string \<Rightarrow> vip_config \<Rightarrow> machine \<Rightarrow> unit cmd" where
  "move_withdraw_on ag mode vip m =
     map_error (if mode = VipRouteModeBGP then Wrap ''BGP withdrawal failed on %s: %w'' [mach_Name m]
                else Wrap ''cannot prove VIP %s absent on %s: %w'' [vc_VIPAddress vip, mach_Name m])
       (runOneArchitectureCommand ag m (withdraw_by mode vip))"

definition sole_holder :: "machine \<Rightarrow> string list \<times> go_error option \<Rightarrow> bool" where
  "sole_holder target p \<longleftrightarrow> snd p = None \<and> fst p = [mach_ID target]"

definition two_rounds :: "agent \<Rightarrow> vip_config \<Rightarrow> machine_map \<Rightarrow> machine \<Rightarrow> (string list \<times> go_error option) cmd" where
  "two_rounds ag vip machines target =
     on_ok (probeArchitectureVIPHolders ag vip machines) (\<lambda>p.
       if sole_holder target p then probeArchitectureVIPHolders ag vip machines else ret p)"

definition bound_state :: "arch_run \<Rightarrow> machine \<Rightarrow> vip_config \<Rightarrow> string \<Rightarrow> vip_binding" where
  "bound_state run target vip checked = no_binding\<lparr>vb_ClusterID := rn_ClusterID run, vb_VIPConfigID := vc_ID vip,
     vb_VIPAddress := vc_VIPAddress vip, vb_ExpectedHolderInstanceID := cs_InstanceID (pl_SelectedCandidate (rn_Plan run)),
     vb_ExpectedHolderMachineID := mach_ID target,
     vb_CurrentHolderInstanceID := cs_InstanceID (pl_SelectedCandidate (rn_Plan run)),
     vb_CurrentHolderMachineID := mach_ID target, vb_CurrentInterface := vc_DefaultInterface vip,
     vb_VIPStatus := VipStatusBound, vb_DetectedHolders := mach_ID target, vb_LastCheckResult := checked\<rparr>"

definition unproven_state :: "arch_run \<Rightarrow> machine \<Rightarrow> vip_config \<Rightarrow> string list \<Rightarrow> vip_binding" where
  "unproven_state run target vip holders = no_binding\<lparr>vb_ClusterID := rn_ClusterID run, vb_VIPConfigID := vc_ID vip,
     vb_VIPAddress := vc_VIPAddress vip, vb_ExpectedHolderMachineID := mach_ID target, vb_VIPStatus := VipStatusFailed,
     vb_DetectedHolders := join '','' holders,
     vb_LastError := ''cluster-wide single-holder proof failed; new target was withdrawn''\<rparr>"

definition finish_move :: "agent \<Rightarrow> arch_run \<Rightarrow> string \<Rightarrow> machine \<Rightarrow> vip_config \<Rightarrow> string list \<times> go_error option \<Rightarrow> unit cmd" where
  "finish_move ag run mode target vip p =
     (if sole_holder target p
      then ignore_error (on_world (UpsertVIPBindingState (bound_state run target vip ''single holder verified by ordered remove-before-bind'')))
      else on_ok (ignore_error (runOneArchitectureCommand ag target (withdraw_by mode vip))) (\<lambda>_.
           on_ok (ignore_error (on_world (UpsertVIPBindingState (unproven_state run target vip (fst p))))) (\<lambda>_.
             case snd p of
               Some e \<Rightarrow> fail_with e
             | None \<Rightarrow> fail_with (Errorf ''VIP %s single-holder proof failed; holders=%s; target binding rolled back''
                         [vc_VIPAddress vip, join '','' (fst p)]))))"

definition move_vip :: "agent \<Rightarrow> arch_run \<Rightarrow> machine_map \<Rightarrow> machine \<Rightarrow> vip_config \<Rightarrow> unit cmd" where
  "move_vip ag run machines target vip =
     (let mode = vip_mode run vip
      in if \<not> mode_known mode then fail_with (unsupported_mode mode)
         else on_ok (for_ok (move_withdraw_on ag mode vip) (sortedArchitectureMachines machines)) (\<lambda>_.
              on_holders ag vip machines (\<lambda>holders.
                if holders \<noteq> []
                then fail_with (Errorf ''VIP %s zero-holder barrier failed after withdrawal; holders=%s'' [vc_VIPAddress vip, join '','' holders])
                else on_ok (runOneArchitectureCommand ag target (bind_by mode vip target)) (\<lambda>_.
                     on_ok (two_rounds ag vip machines target) (finish_move ag run mode target vip)))))"

definition moveArchitectureVIP :: "agent \<Rightarrow> arch_run \<Rightarrow> machine_map \<Rightarrow> unit cmd" where
  "moveArchitectureVIP ag run selected =
     on_ok (on_world (ListVIPConfigs (rn_ClusterID run))) (\<lambda>configs.
       if configs = [] then fail_with (Error ''no enabled VIP configuration found'')
       else on_ok (on_world (allClusterVIPMachines (rn_ClusterID run) selected)) (\<lambda>machines.
         for_ok (move_vip ag run machines (machine_at machines (vip_target run))) configs))"

subsection \<open>Verification\<close>

definition check_vip_on :: "agent \<Rightarrow> arch_run \<Rightarrow> vip_config \<Rightarrow> machine \<Rightarrow> unit cmd" where
  "check_vip_on ag run vip m =
     map_error (\<lambda>_. Errorf ''VIP %s single-holder verification failed on %s'' [vc_VIPAddress vip, mach_Name m])
       (runOneArchitectureCommand ag m (vipCheckCommand (vc_VIPAddress vip) (mach_ID m = vip_target run)))"

definition verifyArchitectureVIP :: "agent \<Rightarrow> arch_run \<Rightarrow> machine_map \<Rightarrow> unit cmd" where
  "verifyArchitectureVIP ag run selected =
     vips_and_machines (rn_ClusterID run) selected (\<lambda>configs machines.
       for_ok (\<lambda>vip.
         on_ok (for_ok (check_vip_on ag run vip) (sortedArchitectureMachines machines)) (\<lambda>_.
           ignore_error (on_world (UpsertVIPBindingState
             (bound_state run (machine_at machines (vip_target run)) vip ''single holder verified after VIP workflow'')))))
         configs)"

subsection \<open>What a move sends\<close>

definition ran_on :: "string \<Rightarrow> machine \<Rightarrow> agent_log \<Rightarrow> bool \<Rightarrow> bool" where
  "ran_on command m obs ok \<longleftrightarrow> (\<exists>r. obs = [(step_call m command, r)] \<and> (ok \<longleftrightarrow> exec_success r))"

text \<open>A round of probes over the machines, with the holders it found; it ends at the first probe that fails.\<close>

inductive vip_look :: "string \<Rightarrow> machine list \<Rightarrow> agent_log \<Rightarrow> string list \<Rightarrow> bool \<Rightarrow> bool" for vip where
  look_end: "vip_look vip [] [] [] True"
| look_held: "exec_success r \<Longrightarrow> trim_space (reply_message r) = ''BOUND'' \<Longrightarrow> vip_look vip ms obs holders ok \<Longrightarrow>
     vip_look vip (m # ms) ((step_call m (vipHolderCommand vip), r) # obs) (mach_ID m # holders) ok"
| look_free: "exec_success r \<Longrightarrow> trim_space (reply_message r) \<noteq> ''BOUND'' \<Longrightarrow> vip_look vip ms obs holders ok \<Longrightarrow>
     vip_look vip (m # ms) ((step_call m (vipHolderCommand vip), r) # obs) holders ok"
| look_failed: "\<not> exec_success r \<Longrightarrow> vip_look vip (m # ms) [(step_call m (vipHolderCommand vip), r)] [] False"

text \<open>After the bind: two rounds that find the target alone, or a round that does not and the withdrawal from the target.\<close>

inductive verdict_trace :: "arch_run \<Rightarrow> machine list \<Rightarrow> machine \<Rightarrow> vip_config \<Rightarrow> agent_log \<Rightarrow> bool \<Rightarrow> bool"
  for run ms target vip where
  verdict_proven: "vip_look (vc_VIPAddress vip) ms round1 [mach_ID target] True \<Longrightarrow>
     vip_look (vc_VIPAddress vip) ms round2 [mach_ID target] True \<Longrightarrow> verdict_trace run ms target vip (round1 @ round2) True"
| verdict_refuted: "round1 = [] \<or> vip_look (vc_VIPAddress vip) ms round1 [mach_ID target] True \<Longrightarrow>
     vip_look (vc_VIPAddress vip) ms round2 holders ok \<Longrightarrow> \<not> ok \<or> holders \<noteq> [mach_ID target] \<Longrightarrow>
     ran_on (withdraw_by (vip_mode run vip) vip) target undone ok' \<Longrightarrow>
     verdict_trace run ms target vip (round1 @ round2 @ undone) False"

inductive move_trace :: "arch_run \<Rightarrow> machine list \<Rightarrow> machine \<Rightarrow> vip_config \<Rightarrow> agent_log \<Rightarrow> bool \<Rightarrow> bool"
  for run ms target vip where
  move_mode: "\<not> mode_known (vip_mode run vip) \<Longrightarrow> move_trace run ms target vip [] False"
| move_stuck: "loop_trace (ran_on (withdraw_by (vip_mode run vip) vip)) ms out False \<Longrightarrow> move_trace run ms target vip out False"
| move_barrier: "loop_trace (ran_on (withdraw_by (vip_mode run vip) vip)) ms out True \<Longrightarrow>
     vip_look (vc_VIPAddress vip) ms seen holders ok \<Longrightarrow> \<not> ok \<or> holders \<noteq> [] \<Longrightarrow> move_trace run ms target vip (out @ seen) False"
| move_unbound: "loop_trace (ran_on (withdraw_by (vip_mode run vip) vip)) ms out True \<Longrightarrow>
     vip_look (vc_VIPAddress vip) ms seen [] True \<Longrightarrow> ran_on (bind_by (vip_mode run vip) vip target) target bound False \<Longrightarrow>
     move_trace run ms target vip (out @ seen @ bound) False"
| move_bound: "loop_trace (ran_on (withdraw_by (vip_mode run vip) vip)) ms out True \<Longrightarrow>
     vip_look (vc_VIPAddress vip) ms seen [] True \<Longrightarrow> ran_on (bind_by (vip_mode run vip) vip target) target bound True \<Longrightarrow>
     verdict_trace run ms target vip checked ok \<Longrightarrow> move_trace run ms target vip (out @ seen @ bound @ checked) ok"

lemma emits_ran_on: "emits sent (runOneArchitectureCommand ag m c) (\<lambda>obs r. ran_on c m obs (is_ok r))"
  by (rule emits_weaken [OF emits_command]) (auto simp: ran_on_def)

lemma emits_quiet:
  assumes "\<And>c. preserves (\<lambda>w. arch_steps w = c) m"
  shows "emits sent (on_world m) (\<lambda>obs r. obs = [])"
proof (rule emitsI)
  fix s r s'
  assume "on_world m s = (r, s')"
  then have "m (fst s) = (r, fst s')" by (auto simp: on_world_def split: prod.splits)
  then have "arch_steps (fst s') = arch_steps (fst s)" by (rule frameD [OF assms])
  then show "\<exists>obs. sent s' = sent s @ obs \<and> obs = []" by (simp add: sent_def)
qed

lemma steps_stable: "db_stable (\<lambda>w. arch_steps w = c)"
  by (rule db_stableI) (simp add: arch_steps_def)

lemma quiet_repo:
  "emits sent (on_world (ListVIPConfigs cid)) (\<lambda>obs r. obs = [])"
  "emits sent (on_world (allClusterVIPMachines cid selected)) (\<lambda>obs r. obs = [])"
  "emits sent (ignore_error (on_world (UpsertVIPBindingState st))) (\<lambda>obs r. obs = [] \<and> is_ok r)"
proof -
  show "emits sent (on_world (ListVIPConfigs cid)) (\<lambda>obs r. obs = [])"
    unfolding ListVIPConfigs_def by (rule emits_quiet) (intro op_rules steps_stable)
  show "emits sent (on_world (allClusterVIPMachines cid selected)) (\<lambda>obs r. obs = [])"
    unfolding allClusterVIPMachines_def machines_List_def Let_def
    by (rule emits_quiet) (intro op_rules steps_stable)
  have "emits sent (on_world (UpsertVIPBindingState st)) (\<lambda>obs r. obs = [])"
    unfolding UpsertVIPBindingState_def
    by (rule emits_quiet, rule preserves_statement [OF steps_stable])
      (simp add: arch_steps_def upsert_binding_row_def Let_def)
  then show "emits sent (ignore_error (on_world (UpsertVIPBindingState st))) (\<lambda>obs r. obs = [] \<and> is_ok r)"
    unfolding emits_def ignore_error_def with_result_def by (fastforce split: prod.splits)
qed

lemma probe_holders_run:
  "emits sent (probe_holders ag vip ms hs) (\<lambda>obs r. \<exists>found err. r = Inr (hs @ found, err) \<and> vip_look vip ms obs found (err = None))"
proof (induction ms arbitrary: hs)
  case Nil
  show ?case unfolding probe_holders.simps by (rule emits_ret) (auto intro: look_end)
next
  case (Cons m ms)
  show ?case
  proof (rule emitsI)
    fix s res s'
    assume run: "probe_holders ag vip (m # ms) hs s = (res, s')"
    obtain pr v where p: "probe ag m (vipHolderCommand vip) s = (pr, v)" by (metis prod.collapse)
    from emitsD [OF emits_probe p] obtain r where
      r: "sent v = sent s @ [(step_call m (vipHolderCommand vip), r)]"
      "case pr of Inr out \<Rightarrow> exec_success r \<and> out = reply_message r | Inl _ \<Rightarrow> \<not> exec_success r" by blast
    show "\<exists>obs. sent s' = sent s @ obs \<and> (\<exists>found err. res = Inr (hs @ found, err) \<and> vip_look vip (m # ms) obs found (err = None))"
    proof (cases pr)
      case (Inl e)
      with run p r show ?thesis by (auto simp: with_result_def intro!: look_failed)
    next
      case (Inr out)
      define hs' where "hs' = (if trim_space out = ''BOUND'' then hs @ [mach_ID m] else hs)"
      from run p Inr have "probe_holders ag vip ms hs' v = (res, s')" by (simp add: with_result_def hs'_def)
      from emitsD [OF Cons.IH this] obtain obs found err where
        rest: "sent s' = sent v @ obs" "res = Inr (hs' @ found, err)" "vip_look vip ms obs found (err = None)" by blast
      show ?thesis
      proof (cases "trim_space out = ''BOUND''")
        case True
        with r Inr rest show ?thesis by (auto simp: hs'_def intro!: look_held)
      next
        case False
        with r Inr rest show ?thesis by (auto simp: hs'_def intro!: look_free)
      qed
    qed
  qed
qed

lemma holders_run:
  assumes "probeArchitectureVIPHolders ag vip machines s = (res, s')"
  shows "\<exists>obs found err. res = Inr (found, err) \<and> sent s' = sent s @ obs \<and>
     vip_look (vc_VIPAddress vip) (sortedArchitectureMachines machines) obs found (err = None)"
  using emitsD [OF probe_holders_run assms [unfolded probeArchitectureVIPHolders_def]] by auto

lemma on_holders_run:
  assumes "on_holders ag vip machines f s = (res, s')"
  shows "\<exists>obs found ok v. sent v = sent s @ obs \<and> vip_look (vc_VIPAddress vip) (sortedArchitectureMachines machines) obs found ok \<and>
     (if ok then f found v = (res, s') else \<not> is_ok res \<and> s' = v)"
proof -
  obtain pr v where p: "probeArchitectureVIPHolders ag vip machines s = (pr, v)" by (metis prod.collapse)
  from holders_run [OF p] obtain obs found err where
    *: "pr = Inr (found, err)" "sent v = sent s @ obs" "vip_look (vc_VIPAddress vip) (sortedArchitectureMachines machines) obs found (err = None)"
    by blast
  show ?thesis using assms p * by (intro exI [of _ obs] exI [of _ found] exI [of _ "err = None"] exI [of _ v])
    (auto simp: on_holders_def on_ok_def split: option.splits)
qed

lemma two_rounds_run:
  assumes "two_rounds ag vip machines target s = (res, s')"
  defines "look \<equiv> vip_look (vc_VIPAddress vip) (sortedArchitectureMachines machines)"
  shows "\<exists>round1 round2 found err. res = Inr (found, err) \<and> sent s' = sent s @ round1 @ round2 \<and> look round2 found (err = None) \<and>
     (look round1 [mach_ID target] True \<or> round1 = [] \<and> \<not> sole_holder target (found, err))"
proof -
  obtain pr v where p: "probeArchitectureVIPHolders ag vip machines s = (pr, v)" by (metis prod.collapse)
  from holders_run [OF p] obtain obs found err where
    *: "pr = Inr (found, err)" "sent v = sent s @ obs" "look obs found (err = None)" unfolding look_def by blast
  show ?thesis
  proof (cases "sole_holder target (found, err)")
    case False
    with assms(1) p * have "res = Inr (found, err)" "s' = v" by (simp_all add: two_rounds_def on_ok_def)
    with * False show ?thesis by (intro exI [of _ "[]"] exI [of _ obs] exI [of _ found] exI [of _ err]) simp
  next
    case True
    then have first: "look obs [mach_ID target] True" using * by (simp add: sole_holder_def)
    from True assms(1) p * have "probeArchitectureVIPHolders ag vip machines v = (res, s')" by (simp add: two_rounds_def on_ok_def)
    from holders_run [OF this] obtain obs2 found2 err2 where
      "res = Inr (found2, err2)" "sent s' = sent v @ obs2" "look obs2 found2 (err2 = None)" unfolding look_def by blast
    with first * show ?thesis by (intro exI [of _ obs] exI [of _ obs2]) auto
  qed
qed

lemma finish_move_run:
  assumes "finish_move ag run mode target vip (found, err) s = (res, s')"
  shows "if sole_holder target (found, err) then is_ok res \<and> sent s' = sent s
     else \<not> is_ok res \<and> (\<exists>undone ok. sent s' = sent s @ undone \<and> ran_on (withdraw_by mode vip) target undone ok)"
proof (cases "sole_holder target (found, err)")
  case True
  with assms have "ignore_error (on_world (UpsertVIPBindingState (bound_state run target vip ''single holder verified by ordered remove-before-bind''))) s = (res, s')"
    by (simp add: finish_move_def)
  from emitsD [OF quiet_repo(3) this] True show ?thesis by simp
next
  case False
  obtain r v where c: "runOneArchitectureCommand ag target (withdraw_by mode vip) s = (r, v)" by (metis prod.collapse)
  from emitsD [OF emits_ran_on c] obtain undone where
    u: "sent v = sent s @ undone" "ran_on (withdraw_by mode vip) target undone (is_ok r)" by blast
  let ?save = "ignore_error (on_world (UpsertVIPBindingState (unproven_state run target vip found)))"
  obtain q v1 where sv: "?save v = (q, v1)" by (metis prod.collapse)
  from emitsD [OF quiet_repo(3) sv] have v1: "sent v1 = sent v" "is_ok q" by auto
  then obtain y where "q = Inr y" by (auto simp: is_ok_iff)
  with False assms c sv have "\<not> is_ok res \<and> s' = v1"
    by (auto simp: finish_move_def on_ok_def ignore_error_def with_result_def split: option.splits)
  with u v1 False show ?thesis by auto
qed

lemma verdict_run:
  assumes "on_ok (two_rounds ag vip machines target) (finish_move ag run (vip_mode run vip) target vip) s = (res, s')"
  shows "\<exists>obs. sent s' = sent s @ obs \<and> verdict_trace run (sortedArchitectureMachines machines) target vip obs (is_ok res)"
proof -
  let ?ms = "sortedArchitectureMachines machines"
  obtain pr v where p: "two_rounds ag vip machines target s = (pr, v)" by (metis prod.collapse)
  from two_rounds_run [OF p] obtain round1 round2 found err where
    r: "pr = Inr (found, err)" "sent v = sent s @ round1 @ round2" "vip_look (vc_VIPAddress vip) ?ms round2 found (err = None)"
    "vip_look (vc_VIPAddress vip) ?ms round1 [mach_ID target] True \<or> round1 = [] \<and> \<not> sole_holder target (found, err)" by blast
  from assms p r(1) have f: "finish_move ag run (vip_mode run vip) target vip (found, err) v = (res, s')" by (simp add: on_ok_def)
  show ?thesis
  proof (cases "sole_holder target (found, err)")
    case True
    with finish_move_run [OF f] r show ?thesis
      by (intro exI [of _ "round1 @ round2"]) (auto simp: sole_holder_def intro: verdict_proven)
  next
    case False
    with finish_move_run [OF f] obtain undone ok where
      u: "\<not> is_ok res" "sent s' = sent v @ undone" "ran_on (withdraw_by (vip_mode run vip) vip) target undone ok" by auto
    have "err \<noteq> None \<or> found \<noteq> [mach_ID target]" using False by (simp add: sole_holder_def)
    with r(3,4) u have "verdict_trace run ?ms target vip (round1 @ round2 @ undone) False" by (intro verdict_refuted) auto
    with u r(2) show ?thesis by (intro exI [of _ "round1 @ round2 @ undone"]) auto
  qed
qed

lemma move_vip_run:
  assumes "move_vip ag run machines target vip s = (res, s')"
  shows "\<exists>obs. sent s' = sent s @ obs \<and> move_trace run (sortedArchitectureMachines machines) target vip obs (is_ok res)"
proof (cases "mode_known (vip_mode run vip)")
  case False
  with assms show ?thesis by (auto simp: move_vip_def intro: move_mode)
next
  case True
  let ?ms = "sortedArchitectureMachines machines" and ?mode = "vip_mode run vip"
  have each: "emits sent (move_withdraw_on ag ?mode vip m) (\<lambda>obs r. ran_on (withdraw_by ?mode vip) m obs (is_ok r))" for m
    unfolding move_withdraw_on_def by (rule emits_map_error [OF emits_ran_on])
  note withdrawal = emits_for_ok [OF each]
  from assms True have "on_ok (for_ok (move_withdraw_on ag ?mode vip) ?ms) (\<lambda>_.
      on_holders ag vip machines (\<lambda>holders.
        if holders \<noteq> []
        then fail_with (Errorf ''VIP %s zero-holder barrier failed after withdrawal; holders=%s'' [vc_VIPAddress vip, join '','' holders])
        else on_ok (runOneArchitectureCommand ag target (bind_by ?mode vip target)) (\<lambda>_.
             on_ok (two_rounds ag vip machines target) (finish_move ag run ?mode target vip)))) s = (res, s')"
    by (simp add: move_vip_def Let_def)
  then show ?thesis
  proof (cases rule: on_ok_cases)
    case (err e)
    from emitsD [OF withdrawal err(1)] err(2) show ?thesis by (auto intro: move_stuck)
  next
    case (ok u v)
    from emitsD [OF withdrawal ok(1)] obtain out where out: "sent v = sent s @ out"
      "loop_trace (ran_on (withdraw_by ?mode vip)) ?ms out True" by auto
    from on_holders_run [OF ok(2)] obtain seen holders k v1 where
      seen: "sent v1 = sent v @ seen" "vip_look (vc_VIPAddress vip) ?ms seen holders k"
      and cont: "if k then (if holders \<noteq> []
        then fail_with (Errorf ''VIP %s zero-holder barrier failed after withdrawal; holders=%s'' [vc_VIPAddress vip, join '','' holders])
        else on_ok (runOneArchitectureCommand ag target (bind_by ?mode vip target)) (\<lambda>_.
             on_ok (two_rounds ag vip machines target) (finish_move ag run ?mode target vip))) v1 = (res, s')
        else \<not> is_ok res \<and> s' = v1" by blast
    show ?thesis
    proof (cases "k \<and> holders = []")
      case False
      then have "\<not> is_ok res \<and> s' = v1" using cont by (cases k) (auto simp: fail_with_def)
      with False out seen show ?thesis by (auto intro!: move_barrier)
    next
      case barrier: True
      with cont have "on_ok (runOneArchitectureCommand ag target (bind_by ?mode vip target)) (\<lambda>_.
             on_ok (two_rounds ag vip machines target) (finish_move ag run ?mode target vip)) v1 = (res, s')" by simp
      then show ?thesis
      proof (cases rule: on_ok_cases)
        case (err e)
        from emitsD [OF emits_ran_on err(1)] err(2) out seen barrier show ?thesis by (auto intro!: move_unbound)
      next
        case (ok u' v2)
        from emitsD [OF emits_ran_on ok(1)] obtain bound where bound: "sent v2 = sent v1 @ bound"
          "ran_on (bind_by ?mode vip target) target bound True" by auto
        from verdict_run [OF ok(2)] obtain obs where obs: "sent s' = sent v2 @ obs" "verdict_trace run ?ms target vip obs (is_ok res)" by blast
        with out seen barrier bound show ?thesis by (auto intro!: move_bound)
      qed
    qed
  qed
qed

definition cluster_vips :: "string \<Rightarrow> world \<Rightarrow> vip_config list" where
  "cluster_vips cid w = stable_sort (\<lambda>a b. vc_ID a < vc_ID b)
     (filter (\<lambda>c. vc_ClusterID c = trim_space cid \<and> vc_Enabled c) (w_configs w))"

definition vip_machines :: "string \<Rightarrow> machine_map \<Rightarrow> world \<Rightarrow> machine_map" where
  "vip_machines cid selected w = fold (add_cluster_machine cid)
     (stable_sort (\<lambda>a b. mach_CreatedAt a > mach_CreatedAt b) (w_machines w)) selected"

lemma fold_machines_keys:
  "fst ` set (fold (add_cluster_machine cid) ms acc) = fst ` set acc \<union> mach_ID ` {m \<in> set ms. mach_Cluster m = cid}"
proof (induction ms arbitrary: acc)
  case (Cons m ms)
  show ?case unfolding fold.simps comp_def Cons.IH by (auto simp: add_cluster_machine_def dom_update)
qed simp

lemma vip_machines_keys:
  "fst ` set (vip_machines cid selected w) = fst ` set selected \<union> mach_ID ` {m \<in> set (w_machines w). mach_Cluster m = cid}"
  by (simp add: vip_machines_def fold_machines_keys)

lemma list_vips_value:
  assumes "on_world (ListVIPConfigs cid) s = (Inr vips, s')"
  shows "vips = cluster_vips cid (fst s) \<and> w_machines (fst s') = w_machines (fst s)"
proof -
  from assms have q: "query (cluster_vips cid) (fst s) = (Inr vips, fst s')"
    by (auto simp: on_world_def ListVIPConfigs_def cluster_vips_def [abs_def] split: prod.splits)
  then show ?thesis by (cases rule: query_cases) (simp_all add: cluster_vips_def)
qed

lemma vip_machines_value:
  assumes "on_world (allClusterVIPMachines cid selected) s = (Inr machines, s')"
  shows "machines = vip_machines cid selected (fst s)"
proof -
  from assms have "allClusterVIPMachines cid selected (fst s) = (Inr machines, fst s')"
    by (auto simp: on_world_def split: prod.splits)
  then obtain items v where items: "machines_List (fst s) = (Inr items, v)"
    and result: "machines = fold (add_cluster_machine cid) items selected"
    unfolding allClusterVIPMachines_def Let_def by (auto dest!: on_ok_InrD split: if_splits)
  from items [unfolded machines_List_def] have "items = stable_sort (\<lambda>a b. mach_CreatedAt a > mach_CreatedAt b) (w_machines (fst s))"
    by (cases rule: query_cases) simp_all
  with result show ?thesis by (simp add: vip_machines_def)
qed

text \<open>The moves after the machines of the cluster are read.\<close>

lemma moves_run:
  assumes "on_ok (on_world (allClusterVIPMachines (rn_ClusterID run) selected)) (\<lambda>machines.
      for_ok (move_vip ag run machines (machine_at machines (vip_target run))) vips) v = (res, s')"
  defines "machines \<equiv> vip_machines (rn_ClusterID run) selected (fst v)"
  shows "\<exists>obs. sent s' = sent v @ obs \<and> (obs = [] \<and> \<not> is_ok res \<or>
      loop_trace (move_trace run (sortedArchitectureMachines machines) (machine_at machines (vip_target run))) vips obs (is_ok res))"
  using assms(1)
proof (cases rule: on_ok_cases)
  case (err e)
  from emitsD [OF quiet_repo(2) err(1)] err show ?thesis by auto
next
  case (ok all u)
  from emitsD [OF quiet_repo(2) ok(1)] have u: "sent u = sent v" by auto
  have all: "all = machines" using vip_machines_value [OF ok(1)] by (simp add: machines_def)
  have "emits sent (move_vip ag run machines (machine_at machines (vip_target run)) vip) (\<lambda>obs r.
      move_trace run (sortedArchitectureMachines machines) (machine_at machines (vip_target run)) vip obs (is_ok r))" for vip
    by (rule emitsI) (rule move_vip_run)
  from emitsD [OF emits_for_ok [OF this] ok(2) [unfolded all]] u show ?thesis by auto
qed

text \<open>C29: A run of the VIP move handles the enabled VIPs of the cluster in order, and involves every machine of the
  cluster. For each VIP it withdraws it from every machine, binds it only after a round of probes that all answered
  and found no holder, and goes on only after two rounds that found the target as the only holder. A bind that
  is not proved so is withdrawn from the target, and the move fails.\<close>

theorem VIP_move_ordered:
  assumes "moveArchitectureVIP ag run selected s = (res, s')"
  defines "vips \<equiv> cluster_vips (rn_ClusterID run) (fst s)"
    and "machines \<equiv> vip_machines (rn_ClusterID run) selected (fst s)"
  shows "\<exists>obs. sent s' = sent s @ obs \<and>
     (is_ok res \<longrightarrow> vips \<noteq> []) \<and>
     (obs = [] \<and> \<not> is_ok res \<or>
      loop_trace (move_trace run (sortedArchitectureMachines machines) (machine_at machines (vip_target run))) vips obs (is_ok res))"
proof -
  from assms(1) show ?thesis unfolding moveArchitectureVIP_def
  proof (cases rule: on_ok_cases)
    case (err e)
    from emitsD [OF quiet_repo(1) err(1)] err show ?thesis by auto
  next
    case (ok cs v)
    from emitsD [OF quiet_repo(1) ok(1)] have v: "sent v = sent s" by auto
    from list_vips_value [OF ok(1)] have cs: "cs = vips" and same: "w_machines (fst v) = w_machines (fst s)" by (simp_all add: vips_def)
    show ?thesis
    proof (cases "vips = []")
      case True
      with ok(2) v cs show ?thesis by auto
    next
      case False
      with ok(2) cs have "on_ok (on_world (allClusterVIPMachines (rn_ClusterID run) selected)) (\<lambda>machines.
         for_ok (move_vip ag run machines (machine_at machines (vip_target run))) vips) v = (res, s')" by simp
      from moves_run [OF this] v same False show ?thesis by (simp add: machines_def vip_machines_def)
    qed
  qed
qed

text \<open>One machine that goes on to report the VIP after its withdrawal: the barrier stops the move.\<close>

definition held_vip :: vip_config where
  "held_vip = no_config\<lparr>vc_ID := 1, vc_ClusterID := ''c1'', vc_VIPAddress := ''10.0.0.9'', vc_VIPRouteMode := VipRouteModeL2ARP, vc_Enabled := True\<rparr>"

definition holding_machine :: machine where
  "holding_machine = no_machine\<lparr>mach_ID := ''m1'', mach_IP := ''10.0.0.1'', mach_Cluster := ''c1''\<rparr>"

definition held_world :: world where
  "held_world = (empty_world 0)\<lparr>w_configs := [held_vip], w_machines := [holding_machine]\<rparr>"

lemma held_facts:
  "cluster_vips ''c1'' held_world = [held_vip]" "w_faults held_world = []"
  "fold (add_cluster_machine ''c1'') [holding_machine] [] = [(''m1'', holding_machine)]"
  "sortedArchitectureMachines [(''m1'', holding_machine)] = [holding_machine]"
  "mode_known (vip_mode run held_vip)" "trim_space ''BOUND'' = ''BOUND''"
  by (simp_all add: cluster_vips_def held_world_def held_vip_def holding_machine_def empty_world_def trim_space_def is_space_def
    add_cluster_machine_def sortedArchitectureMachines_def machine_at_def map_get_def mode_known_def vip_mode_def char_code_def)

lemma held_machines:
  "on_world (allClusterVIPMachines ''c1'' []) (held_world, ids) = (Inr [(''m1'', holding_machine)], (held_world, ids))"
  using held_facts(2,3)
  by (simp add: on_world_def allClusterVIPMachines_def machines_List_def held_world_def on_ok_def empty_world_def)

lemma held_vips: "on_world (ListVIPConfigs ''c1'') (held_world, ids) = (Inr [held_vip], (held_world, ids))"
  using held_facts(1,2) by (simp add: on_world_def ListVIPConfigs_def cluster_vips_def)

theorem VIP_move_ordered_witness:
  "\<exists>e s'. moveArchitectureVIP (saying (\<lambda>_ _. ''BOUND'')) sample_run [] (held_world, []) = (Inl e, s') \<and>
     loop_trace (move_trace sample_run [holding_machine] (machine_at [(''m1'', holding_machine)] (vip_target sample_run))) [held_vip] (sent s') False"
proof -
  let ?ag = "saying (\<lambda>_ _. ''BOUND'')" and ?target = "machine_at [(''m1'', holding_machine)] (vip_target sample_run)"
  let ?mode = "vip_mode sample_run held_vip"
  have cid: "rn_ClusterID sample_run = ''c1''" by (simp add: sample_run_def)
  obtain w1 where out: "for_ok (move_withdraw_on ?ag ?mode held_vip) [holding_machine] (held_world, []) = (Inr (), (w1, [''t'']))"
    using command_saying [of "\<lambda>_ _. ''BOUND''" holding_machine "withdraw_by ?mode held_vip" held_world "[]"]
    by (auto simp: move_withdraw_on_def map_error_def on_ok_def with_result_def)
  obtain w2 where p: "probe ?ag holding_machine (vipHolderCommand (vc_VIPAddress held_vip)) (w1, [''t'']) = (Inr ''BOUND'', (w2, [''t''] @ [''t'']))"
    using probe_saying [of "\<lambda>_ _. ''BOUND''"] by blast
  from emitsD [OF emits_probe p] have nonempty: "sent (w2, [''t'', ''t'']) \<noteq> []" by auto
  have look: "probeArchitectureVIPHolders ?ag held_vip [(''m1'', holding_machine)] (w1, [''t'']) = (Inr ([''m1''], None), (w2, [''t'', ''t'']))"
    using p held_facts(4,6) by (simp add: probeArchitectureVIPHolders_def with_result_def holding_machine_def)
  have "\<exists>e. move_vip ?ag sample_run [(''m1'', holding_machine)] ?target held_vip (held_world, []) = (Inl e, (w2, [''t'', ''t'']))"
    using held_facts(4,5) out look by (simp add: move_vip_def Let_def on_ok_def on_holders_def fail_with_def)
  then obtain e where run: "moveArchitectureVIP ?ag sample_run [] (held_world, []) = (Inl e, (w2, [''t'', ''t'']))"
    using held_vips held_machines by (auto simp: moveArchitectureVIP_def cid on_ok_def)
  have machines: "vip_machines ''c1'' [] held_world = [(''m1'', holding_machine)]"
    using held_facts(3) by (simp add: vip_machines_def held_world_def)
  have "sent (held_world, []) = []" by (simp add: sent_def arch_steps_def held_world_def empty_world_def)
  with VIP_move_ordered [OF run] nonempty have
    "loop_trace (move_trace sample_run [holding_machine] ?target) [held_vip] (sent (w2, [''t'', ''t''])) False"
    by (auto simp: cid machines held_facts)
  with run show ?thesis by blast
qed

end
