(* ===== verification/Arch_Topology.thy ===== *)
theory Arch_Topology
  imports Arch_VIP Mysql_Package
begin

text \<open>
  The steps of an architecture run that change or verify replication
  (\<open>internal/app/architecture_executor.go\<close>): who replicates from whom, the auto-increment offsets of several
  masters, the detachment of independent nodes, the repair of the management privileges and the checksum
  verification and repair with the Percona Toolkit. Ports and versions are used as the request and the
  repository give them.
\<close>

subsection \<open>Whole clusters\<close>

text \<open>The zero value of the struct, which a lookup of an absent node yields.\<close>

definition no_node :: arch_node where
  "no_node = \<lparr>an_MachineID = [], an_Port = 0, an_Role = [], an_SourceMachineID = [], an_DelaySeconds = 0, an_ElectionPriority = 0\<rparr>"

definition node_or_zero :: "arch_node list \<Rightarrow> string \<Rightarrow> arch_node" where
  "node_or_zero nodes mid = (case architectureNode nodes mid of None \<Rightarrow> no_node | Some node \<Rightarrow> node)"

definition on_node :: "agent \<Rightarrow> arch_request \<Rightarrow> machine_map \<Rightarrow> (string \<Rightarrow> int \<Rightarrow> string) \<Rightarrow> arch_node \<Rightarrow> unit cmd" where
  "on_node ag req machines command node =
     runOneArchitectureCommand ag (machine_at machines (an_MachineID node))
       (command (architectureRootPassword req (an_MachineID node)) (an_Port node))"

definition architectureParticipationRequest :: "arch_request \<Rightarrow> arch_request" where
  "architectureParticipationRequest req =
     (if ar_MaintenanceDetachedMachineIDs req = [] then req
      else let detached = filter (\<lambda>mid. mid \<noteq> []) (map trim_space (ar_MaintenanceDetachedMachineIDs req))
           in req\<lparr>ar_Nodes := filter (\<lambda>node. an_MachineID node \<notin> set detached) (ar_Nodes req)\<rparr>)"

definition configureStandaloneArchitecture :: "agent \<Rightarrow> arch_request \<Rightarrow> machine_map \<Rightarrow> unit cmd" where
  "configureStandaloneArchitecture ag req machines =
     for_ok (\<lambda>node. map_error (Wrap ''detach replication on %s: %w'' [an_MachineID node])
       (on_node ag req machines standaloneDetachCommand node)) (ar_Nodes req)"

definition restoreIndependentWriters :: "agent \<Rightarrow> arch_request \<Rightarrow> machine_map \<Rightarrow> unit cmd" where
  "restoreIndependentWriters ag req machines = ignore_error (for_ok (on_node ag req machines restoreWriterCommand) (ar_Nodes req))"

definition resumeArchitectureBusinessConnections :: "agent \<Rightarrow> arch_request \<Rightarrow> machine_map \<Rightarrow> unit cmd" where
  "resumeArchitectureBusinessConnections ag req machines = for_ok (on_node ag req machines resumeBusinessCommand) (ar_Nodes req)"

subsection \<open>Management privileges\<close>

definition modernPrivileges :: string where
  "modernPrivileges = join '', '' [''SELECT'', ''INSERT'', ''UPDATE'', ''DELETE'', ''CREATE'', ''CREATE USER'', ''ALTER'', ''DROP'',
     ''SHOW VIEW'', ''TRIGGER'', ''EVENT'', ''PROCESS'', ''RELOAD'', ''LOCK TABLES'', ''REPLICATION CLIENT'', ''REPLICATION SLAVE'',
     ''CONNECTION_ADMIN'', ''SYSTEM_VARIABLES_ADMIN'', ''REPLICATION_SLAVE_ADMIN'', ''BACKUP_ADMIN'', ''CLONE_ADMIN'']"

definition legacyPrivileges :: string where
  "legacyPrivileges = join '', '' [''SELECT'', ''INSERT'', ''UPDATE'', ''DELETE'', ''CREATE'', ''CREATE USER'', ''ALTER'', ''DROP'',
     ''SHOW VIEW'', ''TRIGGER'', ''EVENT'', ''PROCESS'', ''RELOAD'', ''LOCK TABLES'', ''REPLICATION CLIENT'', ''REPLICATION SLAVE'', ''SUPER'']"

definition managed_version :: "instance_rec \<Rightarrow> string" where
  "managed_version i = (if trim_space (inst_Version i) = []
     then (case PackageVersion (inst_PackageName i) of Inl _ \<Rightarrow> [] | Inr v \<Rightarrow> v) else inst_Version i)"

definition managementRepairCommand :: "arch_request \<Rightarrow> instance_rec list \<Rightarrow> string \<Rightarrow> string \<Rightarrow> arch_node \<Rightarrow> string" where
  "managementRepairCommand req instances username password node =
     (let found = architectureInstanceForNode node (filter (\<lambda>i. inst_MachineID i = an_MachineID node) instances);
          account = sqlLiteral username @ shtx ''@#%#'';
          privileges = (case found of
             None \<Rightarrow> modernPrivileges
           | Some i \<Rightarrow> if SupportsDynamicPrivilegeForVersion (managed_version i) ''CONNECTION_ADMIN''
                       then modernPrivileges else legacyPrivileges);
          sql = sprintf ''CREATE USER IF NOT EXISTS %s IDENTIFIED BY %s; GRANT %s ON *.* TO %s;''
                  [account, sqlLiteral password, privileges, account]
      in case found of
           Some i \<Rightarrow> if trim_space (inst_SocketPath i) \<noteq> []
             then mysqlArchitectureRootSocketClient (ar_RootPassword req) (inst_SocketPath i) @ '' --batch --raw --execute='' @ shellQuote sql
             else mysqlArchitectureCommand (ar_RootPassword req) (an_Port node) sql
         | None \<Rightarrow> mysqlArchitectureCommand (ar_RootPassword req) (an_Port node) sql)"

definition repairArchitectureManagementPrivileges ::
  "agent \<Rightarrow> arch_request \<Rightarrow> machine_map \<Rightarrow> string \<Rightarrow> string \<Rightarrow> unit cmd" where
  "repairArchitectureManagementPrivileges ag req machines username0 password =
     (let username = trim_space username0
      in if username = [] \<or> password = [] then fail_with (Error ''MHA management account is not configured'')
         else on_ok (map_error (Wrap ''list MySQL instances for MHA privilege repair: %w'' []) (on_world instances_List)) (\<lambda>instances.
           runOnArchitectureNodes ag (ar_Nodes req) machines (managementRepairCommand req instances username password)))"

subsection \<open>Replication\<close>

definition is_master :: "arch_node \<Rightarrow> bool" where
  "is_master node \<longleftrightarrow> equal_fold (an_Role node) ''M''"

definition target_masters :: "arch_request \<Rightarrow> arch_node list" where
  "target_masters req = filter is_master (ar_Nodes req)"

text \<open>The index of the first master of the machine, 0 when there is none.\<close>

definition master_index :: "arch_node list \<Rightarrow> string \<Rightarrow> nat" where
  "master_index masters mid =
     (case find (\<lambda>i. an_MachineID (masters ! i) = mid) [0..<length masters] of None \<Rightarrow> 0 | Some i \<Rightarrow> i)"

definition ring_source :: "arch_request \<Rightarrow> arch_node \<Rightarrow> arch_node" where
  "ring_source req node =
     (let masters = target_masters req
      in masters ! ((master_index masters (an_MachineID node) + length masters - 1) mod length masters))"

text \<open>\<open>None\<close>: the node is not configured as a replica.\<close>

definition source_node :: "arch_request \<Rightarrow> arch_node \<Rightarrow> arch_node \<Rightarrow> arch_node option" where
  "source_node req primary node =
     (let requested = (if an_SourceMachineID node = [] then None else architectureNode (ar_Nodes req) (an_SourceMachineID node))
      in if length (target_masters req) > 1 \<and> is_master node
         then Some (case requested of
                      Some r \<Rightarrow> if is_master r \<and> an_MachineID r \<noteq> an_MachineID node then r else ring_source req node
                    | None \<Rightarrow> ring_source req node)
         else if an_MachineID node = an_MachineID primary then None
         else Some (case requested of Some r \<Rightarrow> r | None \<Rightarrow> primary))"

definition replicaCommand :: "arch_request \<Rightarrow> machine_map \<Rightarrow> arch_node \<Rightarrow> arch_node \<Rightarrow> string" where
  "replicaCommand req machines source node =
     (let client = mysqlArchitectureClient (architectureRootPassword req (an_MachineID node)) (an_Port node);
          masters = target_masters req
      in changeSourceShell client (mach_IP (machine_at machines (an_MachineID source))) (an_Port source)
           (ar_ReplicationUser req) (ar_ReplicationPassword req) (an_DelaySeconds node) @
         (if is_master node
          then autoIncrementShell client (length masters) (master_index masters (an_MachineID node) + 1) @
               mysqlRolePersistenceCommand client False
          else mysqlRolePersistenceCommand client True))"

definition create_replication_account :: "agent \<Rightarrow> arch_request \<Rightarrow> machine_map \<Rightarrow> arch_node \<Rightarrow> unit cmd" where
  "create_replication_account ag req machines node =
     on_node ag req machines (\<lambda>password port. mysqlArchitectureCommand password port
       (replicationAccountSQL (ar_ReplicationUser req) (ar_ReplicationPassword req))) node"

definition configure_replica :: "agent \<Rightarrow> arch_request \<Rightarrow> machine_map \<Rightarrow> arch_node \<Rightarrow> arch_node \<Rightarrow> unit cmd" where
  "configure_replica ag req machines primary node =
     (case source_node req primary node of
        None \<Rightarrow> ret ()
      | Some source \<Rightarrow> runOneArchitectureCommand ag (machine_at machines (an_MachineID node)) (replicaCommand req machines source node))"

definition configureArchitectureTopology :: "agent \<Rightarrow> arch_request \<Rightarrow> string \<Rightarrow> machine_map \<Rightarrow> unit cmd" where
  "configureArchitectureTopology ag req primaryID machines =
     (case architectureNode (ar_Nodes req) primaryID of
        None \<Rightarrow> fail_with (Error ''selected primary node not found'')
      | Some primary \<Rightarrow>
          on_ok (on_world architectureManagementAccount) (\<lambda>(managementUser, _).
          on_ok (if equal_fold (trim_space (ar_ReplicationUser req)) (trim_space managementUser) then ret ()
                 else for_ok (create_replication_account ag req machines) (target_masters req)) (\<lambda>_.
            for_ok (configure_replica ag req machines primary) (ar_Nodes req))))"

subsection \<open>Percona Toolkit\<close>

definition install_pt :: "agent \<Rightarrow> arch_request \<Rightarrow> machine_map \<Rightarrow> arch_node \<Rightarrow> unit cmd" where
  "install_pt ag req machines node = on_node ag req machines installCompatiblePTCommand node"

definition verify_pt_on :: "agent \<Rightarrow> arch_request \<Rightarrow> machine_map \<Rightarrow> arch_node \<Rightarrow> unit cmd" where
  "verify_pt_on ag req machines node =
     map_error (Wrap ''PT checksum reports data differences on %s: %w'' [an_MachineID node])
       (on_node ag req machines (\<lambda>password port. replicationCatchupCommand password port @ '' && '' @
          ptChecksumVerificationCommand password port) node)"

definition verifyArchitectureDataWithPT :: "agent \<Rightarrow> arch_request \<Rightarrow> string \<Rightarrow> machine_map \<Rightarrow> unit cmd" where
  "verifyArchitectureDataWithPT ag req primaryID machines =
     (case architectureNode (ar_Nodes req) primaryID of
        None \<Rightarrow> fail_with (Error ''PT verification source node not found'')
      | Some primary \<Rightarrow>
          on_ok (for_ok (\<lambda>node. map_error (Wrap ''Percona Toolkit validation failed on %s: %w'' [an_MachineID node])
                   (install_pt ag req machines node)) (ar_Nodes req)) (\<lambda>_.
          on_ok (map_error (Wrap ''pt-table-checksum failed on source %s: %w'' [primaryID])
                   (on_node ag req machines ptChecksumCommand primary)) (\<lambda>_.
            for_ok (verify_pt_on ag req machines) (filter (\<lambda>node. an_MachineID node \<noteq> primaryID) (ar_Nodes req)))))"

definition pt_replicas :: "arch_request \<Rightarrow> string \<Rightarrow> arch_node list" where
  "pt_replicas req primaryID =
     filter (\<lambda>node. \<not> (an_MachineID node = primaryID \<and> ar_Architecture req = ArchitectureMasterSlave)) (ar_Nodes req)"

definition on_replicas ::
  "agent \<Rightarrow> arch_request \<Rightarrow> string \<Rightarrow> machine_map \<Rightarrow> string \<Rightarrow> (string \<Rightarrow> int \<Rightarrow> string) \<Rightarrow> unit cmd" where
  "on_replicas ag req primaryID machines message command =
     for_ok (\<lambda>node. map_error (Wrap message [mach_Name (machine_at machines (an_MachineID node))])
       (on_node ag req machines command node)) (pt_replicas req primaryID)"

definition repairArchitectureReplication :: "agent \<Rightarrow> arch_request \<Rightarrow> string \<Rightarrow> machine_map \<Rightarrow> unit cmd" where
  "repairArchitectureReplication ag req primaryID machines =
     (case architectureNode (ar_Nodes req) primaryID of
        None \<Rightarrow> fail_with (Error ''repair primary node not found'')
      | Some primary \<Rightarrow>
          on_ok (map_error (Wrap ''replication reconfiguration failed before PT repair: %w'' [])
                   (configureArchitectureTopology ag req primaryID machines)) (\<lambda>_.
          on_ok (for_ok (install_pt ag req machines) (ar_Nodes req)) (\<lambda>_.
          on_ok (on_replicas ag req primaryID machines ''PT replica restart failed on %s: %w'' ptRestartCommand) (\<lambda>_.
          on_ok (on_node ag req machines ptChecksumCommand primary) (\<lambda>_.
          on_ok (on_replicas ag req primaryID machines ''PT checksum synchronization failed on %s: %w'' ptSyncCommand) (\<lambda>_.
          on_ok (on_node ag req machines ptChecksumCommand primary) (\<lambda>_.
            on_replicas ag req primaryID machines ''PT checksum still reports differences on %s: %w'' ptDiffCommand)))))))"

subsection \<open>Several masters replicate in a ring\<close>

lemma master_index_nth:
  assumes "distinct (map an_MachineID masters)" "i < length masters"
  shows "master_index masters (an_MachineID (masters ! i)) = i"
proof -
  have "find (\<lambda>j. an_MachineID (masters ! j) = an_MachineID (masters ! i)) [0..<length masters] = Some i"
    using assms by (auto simp: find_Some_iff distinct_conv_nth intro!: exI [of _ i])
  then show ?thesis by (simp add: master_index_def)
qed

lemma masters_distinct: "distinct (map an_MachineID (ar_Nodes req)) \<Longrightarrow> distinct (map an_MachineID (target_masters req))"
  by (simp add: target_masters_def distinct_map_filter)

definition follows_master :: "arch_request \<Rightarrow> arch_node \<Rightarrow> arch_node \<Rightarrow> arch_node" where
  "follows_master req primary node = (case source_node req primary node of None \<Rightarrow> node | Some source \<Rightarrow> source)"

lemma ring_step:
  assumes "distinct (map an_MachineID (ar_Nodes req))" "length (target_masters req) > 1"
    and "\<forall>m \<in> set (target_masters req). an_SourceMachineID m = []" "i < length (target_masters req)"
  shows "follows_master req primary (target_masters req ! i) =
     target_masters req ! (if i = 0 then length (target_masters req) - 1 else i - 1)"
proof -
  let ?ms = "target_masters req"
  have "?ms ! i \<in> set ?ms" using assms(4) by simp
  then have m: "an_SourceMachineID (?ms ! i) = []" "is_master (?ms ! i)" using assms(3) by (auto simp: target_masters_def)
  have "(i + length ?ms - 1) mod length ?ms = (if i = 0 then length ?ms - 1 else i - 1)"
    using assms(2,4) by (simp add: mod_if)
  then show ?thesis using assms m master_index_nth [OF masters_distinct, of req i]
    by (simp add: follows_master_def source_node_def ring_source_def Let_def)
qed

lemma ring_steps:
  assumes "distinct (map an_MachineID (ar_Nodes req))" "length (target_masters req) > 1"
    and "\<forall>m \<in> set (target_masters req). an_SourceMachineID m = []" "k \<le> i" "i < length (target_masters req)"
  shows "(follows_master req primary ^^ k) (target_masters req ! i) = target_masters req ! (i - k)"
  using assms(4)
proof (induction k)
  case (Suc k)
  then have "(follows_master req primary ^^ k) (target_masters req ! i) = target_masters req ! (i - k)" by simp
  moreover have "i - k < length (target_masters req)" "i - k \<noteq> 0" using Suc.prems assms(5) by auto
  ultimately show ?case using ring_step [OF assms(1-3), of "i - k" primary] by simp
qed simp

lemma ring_reaches:
  assumes "distinct (map an_MachineID (ar_Nodes req))" "length (target_masters req) > 1"
    and "\<forall>m \<in> set (target_masters req). an_SourceMachineID m = []"
    and "i < length (target_masters req)" "j < length (target_masters req)"
  shows "\<exists>k. (follows_master req primary ^^ k) (target_masters req ! i) = target_masters req ! j"
proof (cases "j \<le> i")
  case True
  with ring_steps [OF assms(1-3), of "i - j" i primary] assms(4) show ?thesis by (intro exI [of _ "i - j"]) simp
next
  case False
  let ?n = "length (target_masters req)"
  have zero: "(follows_master req primary ^^ i) (target_masters req ! i) = target_masters req ! 0"
    using ring_steps [OF assms(1-3), of i i primary] assms(4) by simp
  have last: "follows_master req primary (target_masters req ! 0) = target_masters req ! (?n - 1)"
    using ring_step [OF assms(1-3) order.strict_trans [OF zero_less_one assms(2)], of primary] by simp
  have down: "(follows_master req primary ^^ (?n - 1 - j)) (target_masters req ! (?n - 1)) = target_masters req ! j"
    using ring_steps [OF assms(1-3), of "?n - 1 - j" "?n - 1" primary] assms(2,5) by simp
  have "(follows_master req primary ^^ ((?n - 1 - j) + Suc i)) (target_masters req ! i) = target_masters req ! j"
    unfolding funpow_add o_def funpow.simps zero last down ..
  then show ?thesis by blast
qed

lemma ring_offsets:
  assumes "distinct (map an_MachineID (ar_Nodes req))"
  shows "bij_betw (\<lambda>m. master_index (target_masters req) (an_MachineID m) + 1) (set (target_masters req)) {1..length (target_masters req)}"
proof -
  let ?ms = "target_masters req"
  have at: "master_index ?ms (an_MachineID (?ms ! i)) = i" if "i < length ?ms" for i
    using master_index_nth [OF masters_distinct [OF assms] that] .
  have "inj_on (\<lambda>m. master_index ?ms (an_MachineID m) + 1) (set ?ms)"
    by (rule inj_onI) (metis at in_set_conv_nth add_right_cancel)
  moreover have "(\<lambda>m. master_index ?ms (an_MachineID m) + 1) ` set ?ms = {1..length ?ms}"
  proof -
    have "set ?ms = (!) ?ms ` {0..<length ?ms}" by (auto simp: set_conv_nth)
    then have "(\<lambda>m. master_index ?ms (an_MachineID m) + 1) ` set ?ms = (\<lambda>i. master_index ?ms (an_MachineID (?ms ! i)) + 1) ` {0..<length ?ms}"
      by (simp add: image_image)
    also have "\<dots> = Suc ` {0..<length ?ms}" using at by (intro image_cong) simp_all
    also have "\<dots> = {1..length ?ms}" by (simp add: image_Suc_atLeastLessThan atLeastLessThanSuc_atLeastAtMost)
    finally show ?thesis .
  qed
  ultimately show ?thesis by (simp add: bij_betw_def)
qed

text \<open>What a command tells the MySQL client to execute: \<open>sql\<close> is the quoted argument of one of its calls.\<close>

definition runs_sql :: "string \<Rightarrow> string \<Rightarrow> bool" where
  "runs_sql command sql \<longleftrightarrow> (\<exists>before after. command = before @ '' --batch --raw --execute='' @ shellQuote sql @ after)"

lemma runs_sql_first: "runs_sql (a @ b @ c @ '' --batch --raw --execute='' @ shellQuote sql @ after) sql"
  unfolding runs_sql_def by (intro exI [of _ "a @ b @ c"] exI [of _ after]) simp

lemma runs_sql_second: "runs_sql (a @ b @ c @ '' --batch --raw --execute='' @ shellQuote other @ d @ e @ '' --batch --raw --execute='' @ shellQuote sql @ after) sql"
  unfolding runs_sql_def by (intro exI [of _ "a @ b @ c @ '' --batch --raw --execute='' @ shellQuote other @ d @ e"] exI [of _ after]) simp

text \<open>The node is pointed at the server with this address and port, by the statement of MySQL 8 or by the one of MySQL 5.7.\<close>

definition replicates_from :: "string \<Rightarrow> string \<Rightarrow> int \<Rightarrow> bool" where
  "replicates_from command ip port \<longleftrightarrow>
     (\<exists>rest. runs_sql command (''SET GLOBAL offline_mode=ON; CHANGE REPLICATION SOURCE TO SOURCE_HOST='' @ sqlLiteral ip @
        '',SOURCE_PORT='' @ show_int port @ '',SOURCE_USER='' @ rest)) \<and>
     (\<exists>rest. runs_sql command (''SET GLOBAL offline_mode=ON; CHANGE MASTER TO MASTER_HOST='' @ sqlLiteral ip @
        '',MASTER_PORT='' @ show_int port @ '',MASTER_USER='' @ rest))"

definition numbers_by :: "string \<Rightarrow> nat \<Rightarrow> nat \<Rightarrow> bool" where
  "numbers_by command increment offset \<longleftrightarrow>
     runs_sql command (''SET PERSIST auto_increment_increment='' @ show_nat increment @ ''; SET PERSIST auto_increment_offset='' @ show_nat offset @ '';'') \<and>
     runs_sql command (''SET GLOBAL auto_increment_increment='' @ show_nat increment @ ''; SET GLOBAL auto_increment_offset='' @ show_nat offset @ '';'')"

lemma change_source_runs: "replicates_from (changeSourceShell client ip port user password delay @ rest) ip port"
  unfolding replicates_from_def changeSourceShell_def Let_def append_assoc
  by (intro conjI exI) (rule runs_sql_first runs_sql_second)+

lemma auto_increment_runs: "numbers_by (before @ autoIncrementShell client n off @ rest) n off"
  unfolding numbers_by_def autoIncrementShell_def Let_def append_assoc
  by (intro conjI) (rule runs_sql_first runs_sql_second)+

lemma replica_command_runs:
  assumes "is_master node"
  shows "replicates_from (replicaCommand req machines source node) (mach_IP (machine_at machines (an_MachineID source))) (an_Port source) \<and>
    numbers_by (replicaCommand req machines source node) (length (target_masters req)) (master_index (target_masters req) (an_MachineID node) + 1)"
  using assms change_source_runs auto_increment_runs by (simp add: replicaCommand_def Let_def)

text \<open>A configuration of the topology that ends without an error has sent every node its command.\<close>

lemma quiet_account: "emits sent (on_world architectureManagementAccount) (\<lambda>obs r. obs = [])"
  unfolding architectureManagementAccount_def presets_List_def Let_def
  by (rule emits_quiet) (intro op_rules steps_stable)

lemma emits_any_command: "emits sent (on_node ag req machines f node) (\<lambda>obs r. True)"
  unfolding on_node_def by (rule emits_weaken [OF emits_ran_on]) simp

definition configured_by :: "arch_request \<Rightarrow> machine_map \<Rightarrow> arch_node \<Rightarrow> arch_node \<Rightarrow> agent_log \<Rightarrow> bool \<Rightarrow> bool" where
  "configured_by req machines primary node obs ok \<longleftrightarrow> (\<forall>source. ok \<and> source_node req primary node = Some source \<longrightarrow>
     (\<exists>r. (step_call (machine_at machines (an_MachineID node)) (replicaCommand req machines source node), r) \<in> set obs \<and> exec_success r))"

lemma emits_replica: "emits sent (configure_replica ag req machines primary node) (\<lambda>obs r. configured_by req machines primary node obs (is_ok r))"
proof (cases "source_node req primary node")
  case None
  then show ?thesis by (auto simp: configure_replica_def configured_by_def intro: emits_ret)
next
  case (Some source)
  show ?thesis
    unfolding configure_replica_def configured_by_def Some option.case
    by (rule emits_weaken [OF emits_ran_on]) (auto simp: ran_on_def)
qed

lemma loop_configured:
  assumes "loop_trace (configured_by req machines primary) nodes obs ok" "ok" "node \<in> set nodes"
  shows "configured_by req machines primary node obs True"
  using assms by (induction rule: loop_trace.induct) (auto simp: configured_by_def)

lemma topology_configured:
  assumes "configureArchitectureTopology ag req primaryID machines (w, ids) = (Inr (), (w', ids'))"
  shows "\<exists>primary obs. architectureNode (ar_Nodes req) primaryID = Some primary \<and> arch_steps w' = arch_steps w @ obs \<and>
    (\<forall>node \<in> set (ar_Nodes req). configured_by req machines primary node obs True)"
proof -
  obtain primary where primary: "architectureNode (ar_Nodes req) primaryID = Some primary"
    using assms by (cases "architectureNode (ar_Nodes req) primaryID") (simp_all add: configureArchitectureTopology_def)
  let ?all = "\<lambda>obs. \<forall>node \<in> set (ar_Nodes req). configured_by req machines primary node obs True"
  have mono: "?all obs \<Longrightarrow> ?all (xs @ obs)" for obs xs by (auto simp: configured_by_def)
  have nodes: "emits sent (for_ok (configure_replica ag req machines primary) (ar_Nodes req)) (\<lambda>obs r. is_ok r \<longrightarrow> ?all obs)"
    by (rule emits_weaken [OF emits_for_ok [OF emits_replica]]) (auto intro: loop_configured)
  have accounts: "emits sent (if b then ret () else for_ok (create_replication_account ag req machines) ms) (\<lambda>obs r. True)" for b ms
  proof -
    have one: "emits sent (create_replication_account ag req machines node) (\<lambda>obs r. True)" for node
      unfolding create_replication_account_def by (rule emits_any_command)
    show ?thesis
      by (cases b) (simp_all add: emits_ret emits_weaken [OF emits_for_ok [where T = "\<lambda>_ _ _. True", OF one]])
  qed
  have body: "emits sent (on_ok (if b then ret () else for_ok (create_replication_account ag req machines) ms)
      (\<lambda>_. for_ok (configure_replica ag req machines primary) (ar_Nodes req))) (\<lambda>obs r. is_ok r \<longrightarrow> ?all obs)" for b ms
    by (rule emits_on_ok [OF accounts nodes]) (simp_all add: mono)
  have "emits sent (configureArchitectureTopology ag req primaryID machines) (\<lambda>obs r. is_ok r \<longrightarrow> ?all obs)"
    unfolding configureArchitectureTopology_def primary option.case
  proof (rule emits_on_ok [OF quiet_account, where Q = "\<lambda>_ obs r. is_ok r \<longrightarrow> ?all obs"])
    fix x :: "string \<times> string"
    show "emits sent (case x of (managementUser, _) \<Rightarrow> on_ok (if equal_fold (trim_space (ar_ReplicationUser req)) (trim_space managementUser) then ret ()
         else for_ok (create_replication_account ag req machines) (target_masters req)) (\<lambda>_. for_ok (configure_replica ag req machines primary) (ar_Nodes req)))
       (\<lambda>obs r. is_ok r \<longrightarrow> ?all obs)"
      by (cases x) (simp only: prod.case, rule body)
  qed simp_all
  from emitsD [OF this assms] primary show ?thesis by (auto simp: sent_def)
qed

text \<open>C32: When a request with distinct machines has two or more masters and names no source for them, and the configuration of
  the topology ends without an error, then every master has received a command that points its replication, in
  the statements of both MySQL versions, at the address and port of another target master and sets its auto-increment
  step to the number of masters and its offset to a number of its own: following these sources leads from
  any master to any other, and the offsets are exactly the numbers from 1 to the number of masters.\<close>

theorem masters_replicate_in_ring:
  assumes "configureArchitectureTopology ag req primaryID machines (w, ids) = (Inr (), (w', ids'))"
    and "distinct (map an_MachineID (ar_Nodes req))" "length (target_masters req) > 1"
    and "\<forall>m \<in> set (target_masters req). an_SourceMachineID m = []"
  shows "\<exists>obs source offset. arch_steps w' = arch_steps w @ obs \<and>
     (\<forall>m \<in> set (target_masters req). \<exists>command r. (step_call (machine_at machines (an_MachineID m)) command, r) \<in> set obs \<and> exec_success r \<and>
        source m \<in> set (target_masters req) \<and>
        replicates_from command (mach_IP (machine_at machines (an_MachineID (source m)))) (an_Port (source m)) \<and>
        numbers_by command (length (target_masters req)) (offset m)) \<and>
     (\<forall>m \<in> set (target_masters req). \<forall>m' \<in> set (target_masters req). \<exists>k. (source ^^ k) m = m') \<and>
     bij_betw offset (set (target_masters req)) {1..length (target_masters req)}"
proof -
  let ?ms = "target_masters req"
  let ?offset = "\<lambda>m. master_index ?ms (an_MachineID m) + 1"
  obtain primary obs where log: "arch_steps w' = arch_steps w @ obs"
    and all: "\<forall>node \<in> set (ar_Nodes req). configured_by req machines primary node obs True"
    using topology_configured [OF assms(1)] by blast
  have reach: "\<exists>k. (follows_master req primary ^^ k) m = m'" if "m \<in> set ?ms" "m' \<in> set ?ms" for m m'
    using ring_reaches [OF assms(2-4)] that by (metis in_set_conv_nth)
  have each: "\<exists>command r. (step_call (machine_at machines (an_MachineID m)) command, r) \<in> set obs \<and> exec_success r \<and>
      follows_master req primary m \<in> set ?ms \<and>
      replicates_from command (mach_IP (machine_at machines (an_MachineID (follows_master req primary m)))) (an_Port (follows_master req primary m)) \<and>
      numbers_by command (length ?ms) (?offset m)" if m: "m \<in> set ?ms" for m
  proof -
    from m have node: "m \<in> set (ar_Nodes req)" "is_master m" by (simp_all add: target_masters_def)
    then obtain source where source: "source_node req primary m = Some source"
      using assms(3) by (auto simp: source_node_def Let_def)
    then have src: "follows_master req primary m = source" by (simp add: follows_master_def)
    obtain i where i: "i < length ?ms" "?ms ! i = m" using m by (auto simp: in_set_conv_nth)
    have "source \<in> set ?ms"
      using ring_step [OF assms(2-4) i(1), of primary] assms(3) i by (simp add: src)
    with all node source replica_command_runs [OF node(2)] show ?thesis unfolding src configured_by_def by blast
  qed
  show ?thesis
    by (intro exI [of _ obs] exI [of _ "follows_master req primary"] exI [of _ ?offset] conjI ballI log each reach ring_offsets [OF assms(2)])
qed

definition three_masters :: arch_request where
  "three_masters = switch_request\<lparr>ar_Architecture := ArchitectureMultiMaster,
     ar_Nodes := [node_at ''m1'' ''M'' 0, node_at ''m2'' ''M'' 0, node_at ''m3'' ''m'' 0]\<rparr>"

lemma three_facts:
  "distinct (map an_MachineID (ar_Nodes three_masters))" "map an_MachineID (target_masters three_masters) = [''m1'', ''m2'', ''m3'']"
  "list_all (\<lambda>m. an_SourceMachineID m = []) (target_masters three_masters)"
  by code_simp+

text \<open>With agents that carry out everything the configuration ends without an error.\<close>

lemma for_ok_says:
  assumes "\<And>x v js. \<exists>v' js'. f x (v, js) = (Inr (), (v', js'))"
  shows "\<exists>v' js'. for_ok f xs (v, js) = (Inr (), (v', js'))"
proof (induction xs arbitrary: v js)
  case (Cons x xs)
  obtain u ks where "f x (v, js) = (Inr (), (u, ks))" using assms by blast
  with Cons.IH [of u ks] show ?case by (simp add: on_ok_def)
qed simp

lemma replica_says: "\<exists>v' js'. configure_replica (saying f) req machines primary node (v, js) = (Inr (), (v', js'))"
proof (cases "source_node req primary node")
  case (Some source)
  then show ?thesis using command_saying by (fastforce simp: configure_replica_def)
qed (simp add: configure_replica_def)

lemma topology_says:
  assumes "architectureNode (ar_Nodes req) primaryID = Some primary" "on_world architectureManagementAccount (w, ids) = (Inr (user, password), s)"
  shows "\<exists>w' ids'. configureArchitectureTopology (saying f) req primaryID machines (w, ids) = (Inr (), (w', ids'))"
proof -
  let ?accounts = "if equal_fold (trim_space (ar_ReplicationUser req)) (trim_space user) then ret ()
                 else for_ok (create_replication_account (saying f) req machines) (target_masters req)"
  have "\<exists>v js. create_replication_account (saying f) req machines x (u, ks) = (Inr (), (v, js))" for x u ks
    using command_saying by (fastforce simp: create_replication_account_def on_node_def)
  then have "\<exists>v js. ?accounts (u, ks) = (Inr (), (v, js))" for u ks
    using for_ok_says [of "create_replication_account (saying f) req machines"] by (cases "equal_fold (trim_space (ar_ReplicationUser req)) (trim_space user)") simp_all
  then obtain v js where acc: "?accounts s = (Inr (), (v, js))" by (metis prod.collapse)
  obtain v' js' where "for_ok (configure_replica (saying f) req machines primary) (ar_Nodes req) (v, js) = (Inr (), (v', js'))"
    using for_ok_says [of "configure_replica (saying f) req machines primary"] replica_says by blast
  with assms acc show ?thesis by (simp add: configureArchitectureTopology_def on_ok_def)
qed

theorem masters_replicate_in_ring_witness:
  "\<exists>w' ids' obs source offset. configureArchitectureTopology (saying (\<lambda>_ _. [])) three_masters ''m1'' [] (empty_world 0, []) = (Inr (), (w', ids')) \<and> arch_steps w' = arch_steps (empty_world 0) @ obs \<and>
     (\<forall>m \<in> set (target_masters three_masters). \<exists>command r. (step_call (machine_at [] (an_MachineID m)) command, r) \<in> set obs \<and> exec_success r \<and>
        replicates_from command (mach_IP (machine_at [] (an_MachineID (source m)))) (an_Port (source m)) \<and> numbers_by command 3 (offset m)) \<and>
     (\<forall>m \<in> set (target_masters three_masters). \<forall>m' \<in> set (target_masters three_masters). \<exists>k. (source ^^ k) m = m') \<and>
     bij_betw offset (set (target_masters three_masters)) {1..3}"
proof -
  have n: "length (target_masters three_masters) = 3" using three_facts(2) by (metis length_map length_Cons list.size(3) numeral_3_eq_3)
  have primary: "architectureNode (ar_Nodes three_masters) ''m1'' = Some (node_at ''m1'' ''M'' 0)"
    by (simp add: three_masters_def architectureNode_def node_at_def)
  have "is_ok (fst (on_world architectureManagementAccount (empty_world 0, [])))" by code_simp
  then obtain user password s where "on_world architectureManagementAccount (empty_world 0, []) = (Inr (user, password), s)"
    by (metis is_ok_iff prod.collapse)
  from topology_says [OF primary this] obtain w' ids'
    where run: "configureArchitectureTopology (saying (\<lambda>_ _. [])) three_masters ''m1'' [] (empty_world 0, []) = (Inr (), (w', ids'))" by blast
  have more: "1 < length (target_masters three_masters)" using n by simp
  have none: "\<forall>m \<in> set (target_masters three_masters). an_SourceMachineID m = []" using three_facts(3) by (simp add: list_all_iff)
  from masters_replicate_in_ring [OF run three_facts(1) more none, unfolded n] obtain obs source offset where
    log: "arch_steps w' = arch_steps (empty_world 0) @ obs"
    and each: "\<forall>m \<in> set (target_masters three_masters). \<exists>command r. (step_call (machine_at [] (an_MachineID m)) command, r) \<in> set obs \<and> exec_success r \<and>
        source m \<in> set (target_masters three_masters) \<and>
        replicates_from command (mach_IP (machine_at [] (an_MachineID (source m)))) (an_Port (source m)) \<and> numbers_by command 3 (offset m)"
    and ring: "\<forall>m \<in> set (target_masters three_masters). \<forall>m' \<in> set (target_masters three_masters). \<exists>k. (source ^^ k) m = m'"
    and bij: "bij_betw offset (set (target_masters three_masters)) {1..3}" by blast
  have cmds: "\<forall>m \<in> set (target_masters three_masters). \<exists>command r. (step_call (machine_at [] (an_MachineID m)) command, r) \<in> set obs \<and> exec_success r \<and>
        replicates_from command (mach_IP (machine_at [] (an_MachineID (source m)))) (an_Port (source m)) \<and> numbers_by command 3 (offset m)"
    using each by blast
  show ?thesis
    by (rule exI, rule exI, rule exI, rule exI, rule exI, rule conjI, rule run, rule conjI, rule log, rule conjI, rule cmds, rule conjI, rule ring, rule bij)
qed

subsection \<open>A replica may be its own source\<close>

definition self_source_request :: arch_request where
  "self_source_request = switch_request\<lparr>ar_PreferredNewMasterMachineID := ''m1'', ar_Nodes := [node_at ''m1'' ''M'' 0, (node_at ''m2'' ''S'' 0)\<lparr>an_SourceMachineID := ''m2''\<rparr>]\<rparr>"

lemma self_source_facts:
  "validateArchitectureRequest self_source_request = None"
  "source_node self_source_request (node_at ''m1'' ''M'' 0) ((node_at ''m2'' ''S'' 0)\<lparr>an_SourceMachineID := ''m2''\<rparr>) =
     Some ((node_at ''m2'' ''S'' 0)\<lparr>an_SourceMachineID := ''m2''\<rparr>)"
  by code_simp+

text \<open>The validation of a request does not look at the sources of replicas: there is an accepted request whose
  replica is configured to replicate from itself.\<close>

theorem replica_may_follow_itself:
  "\<exists>req primary (node :: arch_node). validateArchitectureRequest req = None \<and> node \<in> set (ar_Nodes req) \<and>
     primary \<in> set (ar_Nodes req) \<and> an_MachineID primary = ar_PreferredNewMasterMachineID req \<and> source_node req primary node = Some node"
  using self_source_facts
  by (intro exI [of _ self_source_request] exI [of _ "node_at ''m1'' ''M'' 0"] exI [of _ "(node_at ''m2'' ''S'' 0)\<lparr>an_SourceMachineID := ''m2''\<rparr>"])
    (simp add: self_source_request_def node_at_def)

end
