(* ===== verification/Arch_Execute.thy ===== *)
theory Arch_Execute
  imports Arch_Election Arch_VIP Arch_Topology
begin

text \<open>
  \<open>startArchitectureAdjustment\<close> and the goroutine it starts, \<open>executeArchitectureAdjustment\<close>
  (\<open>internal/app/architecture_executor.go\<close>). The goroutine ends at its first error: an operation on \<open>exec_state\<close>
  whose error is the early return. The lease is renewed once a minute until the first failure; the model
  runs the renewals that are due where the code looks at their outcome and before it gives the lock back. While
  the run waits for a confirmation, \<open>w_operator\<close> tells what happens each second; when the entries end, the
  waiting context ends.
\<close>

subsection \<open>Pieces\<close>

definition aside :: "'a cmd \<Rightarrow> unit exec" where
  "aside m = on_state (\<lambda>_. on_ok (collect m) (\<lambda>_. ret ()))"

definition fail_run :: "agent \<Rightarrow> string \<Rightarrow> go_error \<Rightarrow> 'a exec" where
  "fail_run ag code err = on_ok (failArchitectureRun ag code err) (\<lambda>_. fail_with err)"

definition or_fail :: "agent \<Rightarrow> string \<Rightarrow> 'a exec \<Rightarrow> 'a exec" where
  "or_fail ag code m = with_result m (\<lambda>r. case r of Inl e \<Rightarrow> fail_run ag code e | Inr x \<Rightarrow> ret x)"

text \<open>\<open>m\<close>, and after an error \<open>h\<close>, whose outcome does not matter.\<close>

definition on_error :: "'a exec \<Rightarrow> unit exec \<Rightarrow> 'a exec" where
  "on_error m h = with_result m (\<lambda>r. case r of Inl e \<Rightarrow> on_ok (ignore_error h) (\<lambda>_. fail_with e) | Inr x \<Rightarrow> ret x)"

definition on_nodes :: "agent \<Rightarrow> arch_request \<Rightarrow> arch_node list \<Rightarrow> machine_map \<Rightarrow> (string \<Rightarrow> int \<Rightarrow> string) \<Rightarrow> unit cmd" where
  "on_nodes ag req nodes machines command = for_ok (on_node ag req machines command) nodes"

definition kill_on :: "agent \<Rightarrow> arch_request \<Rightarrow> machine_map \<Rightarrow> arch_node \<Rightarrow> unit cmd" where
  "kill_on ag req machines node = runOneArchitectureCommand ag (machine_at machines (an_MachineID node))
     (killBusinessSessionsCommand req (an_MachineID node) (an_Port node))"

subsection \<open>The cluster lock of a run\<close>

definition run_renewals :: "unit exec" where
  "run_renewals s =
     (if es_released s \<or> es_lock_error s \<noteq> None then (Inr (), s)
      else case renewals (rn_ClusterID (es_run s)) (rn_RunID (es_run s)) (es_renewed s) (es_world s) of
        (r, w') \<Rightarrow> (Inr (), s\<lparr>es_world := w', es_lock_error := (case r of Inl e \<Rightarrow> Some e | Inr err \<Rightarrow> err),
          es_renewed := es_renewed s + int (length (renewal_ticks (es_renewed s) (w_clock (es_world s)))) * minute\<rparr>))"

definition releaseLock :: "unit exec" where
  "releaseLock = on_ok run_renewals (\<lambda>_. on_ok (gets es_released) (\<lambda>released.
     if released then ret ()
     else on_ok (on_state (\<lambda>run. ReleaseFailoverLock (rn_ClusterID run) (rn_RunID run))) (\<lambda>_.
          modify (\<lambda>s. s\<lparr>es_released := True\<rparr>))))"

definition check_renewals :: "agent \<Rightarrow> unit exec" where
  "check_renewals ag = on_ok run_renewals (\<lambda>_. on_ok (gets es_lock_error) (\<lambda>err.
     case err of Some e \<Rightarrow> fail_run ag ''renew_lock'' e | None \<Rightarrow> ret ()))"

definition release_and_succeed :: "agent \<Rightarrow> unit exec" where
  "release_and_succeed ag = on_ok (or_fail ag ''release_lock'' releaseLock) (\<lambda>_. succeedArchitectureRun ag)"

subsection \<open>Moving only the VIP\<close>

definition vip_preflight :: "agent \<Rightarrow> arch_request \<Rightarrow> machine_map \<Rightarrow> unit exec" where
  "vip_preflight ag req machines = runArchitectureStep ag ''preflight'' (\<lambda>_.
     if trim_space (ar_PreferredNewMasterMachineID req) = [] then fail_with (Error ''VIP target master is required'')
     else if map_of machines (ar_PreferredNewMasterMachineID req) = None
     then fail_with (Error ''VIP target master is not an available cluster machine'')
     else on_nodes ag req (ar_Nodes req) machines architecturePreflightCommand)"

definition freeze_business :: "agent \<Rightarrow> arch_request \<Rightarrow> arch_node list \<Rightarrow> machine_map \<Rightarrow> unit exec" where
  "freeze_business ag req nodes machines =
     runArchitectureStep ag ''freeze_business_access'' (\<lambda>_. on_nodes ag req nodes machines lockBusinessCommand)"

definition drain_business :: "agent \<Rightarrow> arch_request \<Rightarrow> arch_node list \<Rightarrow> machine_map \<Rightarrow> unit exec" where
  "drain_business ag req nodes machines =
     runArchitectureStep ag ''drain_business_sessions'' (\<lambda>_. for_ok (kill_on ag req machines) nodes)"

definition resume_business :: "agent \<Rightarrow> arch_request \<Rightarrow> machine_map \<Rightarrow> unit exec" where
  "resume_business ag req machines =
     runArchitectureStep ag ''resume_business_connections'' (\<lambda>_. resumeArchitectureBusinessConnections ag req machines)"

definition vip_check_step :: "agent \<Rightarrow> arch_request \<Rightarrow> machine_map \<Rightarrow> unit exec" where
  "vip_check_step ag req machines =
     runArchitectureStep ag ''check_vip_conflict'' (\<lambda>run. checkArchitectureVIPConflict ag run req machines)"

definition vip_verify_step :: "agent \<Rightarrow> machine_map \<Rightarrow> unit exec" where
  "vip_verify_step ag machines = runArchitectureStep ag ''verify_single_vip'' (\<lambda>run. verifyArchitectureVIP ag run machines)"

definition vip_rebind :: "agent \<Rightarrow> arch_request \<Rightarrow> machine_map \<Rightarrow> unit exec" where
  "vip_rebind ag req machines =
     on_ok (vip_check_step ag req machines) (\<lambda>_.
     on_ok (runArchitectureStep ag ''withdraw_vip'' (\<lambda>run. withdrawArchitectureVIP ag run machines)) (\<lambda>_.
     on_ok (runArchitectureStep ag ''verify_zero_vip'' (\<lambda>run. verifyArchitectureVIPZero ag run machines)) (\<lambda>_.
     on_ok (runArchitectureStep ag ''bind_vip'' (\<lambda>run. bindArchitectureVIP ag run machines)) (\<lambda>_.
       on_error (vip_verify_step ag machines)
         (on_ok (gets es_run) (\<lambda>run. aside (withdrawArchitectureVIP ag run machines)))))))"

text \<open>Once business access is frozen, every error until it is resumed resumes it on the way out.\<close>

definition resuming :: "agent \<Rightarrow> arch_request \<Rightarrow> machine_map \<Rightarrow> unit exec \<Rightarrow> unit exec" where
  "resuming ag req machines m = on_error m (aside (resumeArchitectureBusinessConnections ag req machines))"

definition execute_vip_only :: "agent \<Rightarrow> arch_request \<Rightarrow> machine_map \<Rightarrow> unit exec" where
  "execute_vip_only ag req machines =
     on_ok (vip_preflight ag req machines) (\<lambda>_.
     on_ok (if ar_InitializeVIP req then vip_rebind ag req machines
            else on_ok (freeze_business ag req (ar_Nodes req) machines) (\<lambda>_.
              resuming ag req machines
                (on_ok (drain_business ag req (ar_Nodes req) machines) (\<lambda>_.
                 on_ok (vip_rebind ag req machines) (\<lambda>_. resume_business ag req machines))))) (\<lambda>_.
     on_ok (check_renewals ag) (\<lambda>_. release_and_succeed ag)))"

subsection \<open>Conversion between one and two masters\<close>

definition freeze_nodes :: "string \<Rightarrow> arch_request \<Rightarrow> arch_node list" where
  "freeze_nodes transition req = filter (\<lambda>node.
     transition = ''dual_to_master_slave'' \<and> equal_fold (an_Role node) ''S'' \<or>
     transition = ''master_slave_to_dual'' \<and> an_MachineID node = ar_CurrentMasterMachineID req) (ar_Nodes req)"

definition catchup_nodes :: "string \<Rightarrow> arch_request \<Rightarrow> arch_node list" where
  "catchup_nodes transition req = filter (\<lambda>node.
     transition = ''dual_to_master_slave'' \<and> equal_fold (an_Role node) ''S'' \<or>
     transition = ''master_slave_to_dual'' \<and> equal_fold (an_Role node) ''M'' \<and> an_MachineID node \<noteq> ar_CurrentMasterMachineID req) (ar_Nodes req)"

definition verify_nodes :: "agent \<Rightarrow> arch_request \<Rightarrow> machine_map \<Rightarrow> string \<Rightarrow> unit exec" where
  "verify_nodes ag req machines primaryID = runArchitectureStep ag ''verify_topology'' (\<lambda>_.
     runOnArchitectureNodes ag (ar_Nodes req) machines (\<lambda>node. verifyArchitectureNodeCommand req node primaryID))"

definition pt_verify_step :: "agent \<Rightarrow> arch_request \<Rightarrow> machine_map \<Rightarrow> string \<Rightarrow> unit exec" where
  "pt_verify_step ag req machines primaryID =
     runArchitectureStep ag ''pt_verify_replication'' (\<lambda>_. verifyArchitectureDataWithPT ag req primaryID machines)"

definition vip_move_step :: "agent \<Rightarrow> machine_map \<Rightarrow> unit exec" where
  "vip_move_step ag machines = runArchitectureStep ag ''move_vip'' (\<lambda>run. moveArchitectureVIP ag run machines)"

definition convert_nodes :: "agent \<Rightarrow> string \<Rightarrow> arch_request \<Rightarrow> machine_map \<Rightarrow> unit exec" where
  "convert_nodes ag transition req machines =
     on_ok (drain_business ag req (freeze_nodes transition req) machines) (\<lambda>_.
     on_ok (runArchitectureStep ag ''wait_replication_zero'' (\<lambda>_.
              on_nodes ag req (catchup_nodes transition req) machines replicationCatchupCommand)) (\<lambda>_.
     on_ok (runArchitectureStep ag ''reconfigure_topology'' (\<lambda>_.
              configureArchitectureTopology ag req (ar_PreferredNewMasterMachineID req) machines)) (\<lambda>_.
     on_ok (verify_nodes ag req machines (ar_PreferredNewMasterMachineID req)) (\<lambda>_.
     on_ok (pt_verify_step ag req machines (ar_PreferredNewMasterMachineID req)) (\<lambda>_.
     on_ok (if ar_MoveVIP req
            then on_ok (vip_check_step ag req machines) (\<lambda>_.
                 on_ok (vip_move_step ag machines) (\<lambda>_. vip_verify_step ag machines))
            else ret ()) (\<lambda>_.
       resume_business ag req machines))))))"

text \<open>Unlike the other ways this one never looks at the renewals.\<close>

definition execute_conversion :: "agent \<Rightarrow> string \<Rightarrow> arch_request \<Rightarrow> machine_map \<Rightarrow> unit exec" where
  "execute_conversion ag transition req machines =
     (if freeze_nodes transition req = []
      then fail_run ag ''freeze_business_access'' (Error ''cannot identify the nodes affected by topology conversion'')
      else on_ok (freeze_business ag req (freeze_nodes transition req) machines) (\<lambda>_.
           on_ok (resuming ag req machines (convert_nodes ag transition req machines)) (\<lambda>_.
             release_and_succeed ag)))"

subsection \<open>Splitting a cluster\<close>

definition split_from :: "agent \<Rightarrow> arch_request \<Rightarrow> machine_map \<Rightarrow> arch_node \<Rightarrow> unit exec" where
  "split_from ag req machines current =
     on_ok (runArchitectureStep ag ''freeze_old_master'' (\<lambda>_. on_node ag req machines frozenCommand current)) (\<lambda>_.
     on_ok (runArchitectureStep ag ''kill_business_sessions'' (\<lambda>_. kill_on ag req machines current)) (\<lambda>_.
     on_ok (runArchitectureStep ag ''wait_replication_zero'' (\<lambda>_.
       for_ok (\<lambda>node. map_error (Wrap ''replica %s did not reach the split point: %w'' [an_MachineID node])
                        (on_node ag req machines replicationCatchupCommand node))
         (filter (\<lambda>node. an_MachineID node \<noteq> an_MachineID current) (ar_Nodes req)))) (\<lambda>_.
       runArchitectureStep ag ''pt_verify_before_split'' (\<lambda>_.
         verifyArchitectureDataWithPT ag req (an_MachineID current) machines))))"

definition executeStandaloneArchitecture :: "agent \<Rightarrow> arch_request \<Rightarrow> machine_map \<Rightarrow> unit exec" where
  "executeStandaloneArchitecture ag req machines =
     on_ok (runArchitectureStep ag ''validate_independent_targets'' (\<lambda>_. validateLiveIndependentTargets ag req machines)) (\<lambda>_.
     on_ok (if ar_CurrentMasterMachineID req = [] then ret ()
            else case architectureNode (ar_Nodes req) (ar_CurrentMasterMachineID req) of
              None \<Rightarrow> fail_run ag ''freeze_old_master'' (Error ''current master node is not in standalone target'')
            | Some current \<Rightarrow> split_from ag req machines current) (\<lambda>_.
     on_ok (runArchitectureStep ag ''detach_replication'' (\<lambda>_. configureStandaloneArchitecture ag req machines)) (\<lambda>_.
       runArchitectureStep ag ''verify_topology'' (\<lambda>_. on_nodes ag req (ar_Nodes req) machines verifyIndependentNodeCommand))))"

definition execute_standalone :: "agent \<Rightarrow> arch_request \<Rightarrow> machine_map \<Rightarrow> unit exec" where
  "execute_standalone ag req machines =
     on_ok (executeStandaloneArchitecture ag req machines) (\<lambda>_.
     on_ok (resume_business ag req machines) (\<lambda>_.
     on_ok (check_renewals ag) (\<lambda>_. release_and_succeed ag)))"

subsection \<open>The force gate\<close>

definition ConfirmArchitectureForce :: "string \<Rightarrow> string \<Rightarrow> arch_run act" where
  "ConfirmArchitectureForce clusterID runID =
     on_ok (GetArchitectureRun clusterID runID) (\<lambda>found. case found of
       None \<Rightarrow> fail_with (Error ''architecture run not found'')
     | Some run \<Rightarrow>
         if rn_Status run \<noteq> ArchitectureRunWaitingForce
         then fail_with (Errorf ''run status %s does not accept force confirmation'' [rn_Status run])
         else on_ok (gets w_clock) (\<lambda>now.
              let run = run\<lparr>rn_ForceConfirmed := True, rn_UpdatedAt := now\<rparr>
              in on_ok (SaveArchitectureRun run) (\<lambda>_. ret run)))"

definition operator_acts :: "operator_event \<Rightarrow> unit act" where
  "operator_acts ev = (case ev of ConfirmForce cid rid \<Rightarrow> ignore_error (ConfirmArchitectureForce cid rid) | _ \<Rightarrow> ret ())"

fun wait_force :: "string \<Rightarrow> string \<Rightarrow> operator_event list \<Rightarrow> bool act" where
  "wait_force clusterID runID [] = ret False"
| "wait_force clusterID runID (ev # evs) =
     (if ev = StopWaiting then ret False
      else on_ok (modify (\<lambda>w. w\<lparr>w_clock := w_clock w + second, w_operator := evs\<rparr>)) (\<lambda>_.
           on_ok (operator_acts ev) (\<lambda>_.
           with_result (GetArchitectureRun clusterID runID) (\<lambda>r. case r of
             Inl _ \<Rightarrow> ret False
           | Inr None \<Rightarrow> ret False
           | Inr (Some run) \<Rightarrow>
               if rn_ForceConfirmed run then ret True
               else if rn_Status run \<noteq> ArchitectureRunWaitingForce then ret False
               else wait_force clusterID runID evs))))"

definition waitArchitectureForce :: "string \<Rightarrow> string \<Rightarrow> bool act" where
  "waitArchitectureForce clusterID runID = on_ok (gets w_operator) (wait_force clusterID runID)"

definition waiting_run :: "go_time \<Rightarrow> arch_run \<Rightarrow> arch_run" where
  "waiting_run now run = run\<lparr>rn_Status := ArchitectureRunWaitingForce, rn_CurrentStep := ''force_gate'',
     rn_Error := ''replication did not reach zero lag and complete relay/GTID replay within 60 seconds; explicit force confirmation is required'',
     rn_FinishedAt := None, rn_UpdatedAt := now\<rparr>"

definition forced_run :: "go_time \<Rightarrow> arch_run \<Rightarrow> arch_run" where
  "forced_run now run = run\<lparr>rn_ForceConfirmed := True, rn_Status := ArchitectureRunRunning, rn_Error := []\<rparr>"

definition force_gate :: "agent \<Rightarrow> unit exec" where
  "force_gate ag =
     on_ok (set_run waiting_run) (\<lambda>_.
     on_ok (ignore_error save_run) (\<lambda>_.
     on_ok (syncArchitectureTrackingTask ag) (\<lambda>_.
     on_ok (on_state (\<lambda>run. waitArchitectureForce (rn_ClusterID run) (rn_RunID run))) (\<lambda>confirmed.
       if confirmed then set_run forced_run
       else on_ok (check_renewals ag) (\<lambda>_. fail_with (Error ''the force confirmation did not come''))))))"

subsection \<open>The general way: election, fencing, promotion\<close>

definition freeze_independent :: "agent \<Rightarrow> arch_request \<Rightarrow> machine_map \<Rightarrow> unit exec" where
  "freeze_independent ag req machines =
     on_error (on_ok (runArchitectureStep ag ''freeze_old_master'' (\<lambda>_. on_nodes ag req (ar_Nodes req) machines frozenCommand)) (\<lambda>_.
               runArchitectureStep ag ''kill_business_sessions'' (\<lambda>_. for_ok (kill_on ag req machines) (ar_Nodes req))))
       (aside (restoreIndependentWriters ag req machines))"

definition from_independent :: "arch_request \<Rightarrow> bool" where
  "from_independent req \<longleftrightarrow> ar_CurrentMasterMachineID req = [] \<and> \<not> ar_InitializeVIP req"

definition selected_run :: "candidate \<Rightarrow> go_time \<Rightarrow> arch_run \<Rightarrow> arch_run" where
  "selected_run elected now run = run\<lparr>rn_Plan := (rn_Plan run)\<lparr>pl_SelectedCandidate := elected\<rparr>, rn_UpdatedAt := now\<rparr>"

definition elect_step :: "agent \<Rightarrow> arch_request \<Rightarrow> machine_map \<Rightarrow> candidate exec" where
  "elect_step ag req machines =
     on_ok (on_error (runArchitectureStep ag ''elect_candidate'' (\<lambda>run. electLiveArchitectureCandidate ag (rn_ClusterID run) req machines))
              (if from_independent req then aside (restoreIndependentWriters ag req machines) else ret ())) (\<lambda>elected.
     on_ok (set_run (selected_run elected)) (\<lambda>_.
     on_ok (ignore_error save_run) (\<lambda>_. ret elected)))"

definition align_step :: "agent \<Rightarrow> arch_request \<Rightarrow> machine_map \<Rightarrow> candidate \<Rightarrow> unit exec" where
  "align_step ag req machines elected =
     on_error (runArchitectureStep ag ''align_replica_gtid'' (\<lambda>_. alignIndependentReplicaGTID ag req elected machines))
       (aside (restoreIndependentWriters ag req machines))"

definition fence_old :: "agent \<Rightarrow> arch_request \<Rightarrow> machine_map \<Rightarrow> string \<Rightarrow> unit exec" where
  "fence_old ag req machines selected =
     (case architectureNode (ar_Nodes req) (ar_CurrentMasterMachineID req) of
        None \<Rightarrow> fail_run ag ''freeze_old_master'' (Error ''current master node is not in request'')
      | Some old \<Rightarrow>
          on_ok (runArchitectureStep ag ''freeze_old_master'' (\<lambda>_. on_node ag req machines freezeOldMasterCommand old)) (\<lambda>_.
          on_ok (runArchitectureStep ag ''kill_business_sessions'' (\<lambda>_. kill_on ag req machines old)) (\<lambda>_.
          on_ok (with_result (runArchitectureStep ag ''wait_replication_zero'' (\<lambda>_.
                   on_node ag req machines replicationCatchupCommand (node_or_zero (ar_Nodes req) selected)))
                   (\<lambda>r. case r of Inr _ \<Rightarrow> ret () | Inl _ \<Rightarrow> force_gate ag)) (\<lambda>_.
            runArchitectureStep ag ''fence_old_master'' (\<lambda>_. on_node ag req machines fenceOldMasterCommand old)))))"

definition promote_step :: "agent \<Rightarrow> arch_request \<Rightarrow> machine_map \<Rightarrow> string \<Rightarrow> unit exec" where
  "promote_step ag req machines selected =
     runArchitectureStep ag ''promote_new_master'' (\<lambda>_. on_node ag req machines promoteCommand (node_or_zero (ar_Nodes req) selected))"

definition repair_after_force :: "agent \<Rightarrow> arch_request \<Rightarrow> machine_map \<Rightarrow> string \<Rightarrow> unit exec" where
  "repair_after_force ag req machines selected =
     on_ok resumeArchitectureRun (\<lambda>_.
     on_ok (runArchitectureStep ag ''pt_repair_on_failure'' (\<lambda>_. repairArchitectureReplication ag req selected machines)) (\<lambda>_.
       verify_nodes ag req machines selected))"

definition repoint_replicas :: "agent \<Rightarrow> arch_request \<Rightarrow> machine_map \<Rightarrow> string \<Rightarrow> unit exec" where
  "repoint_replicas ag req machines selected =
     with_result
       (on_ok (runArchitectureStep ag ''repoint_replicas'' (\<lambda>_. configureArchitectureTopology ag req selected machines))
          (\<lambda>_. verify_nodes ag req machines selected))
       (\<lambda>r. case r of
          Inr _ \<Rightarrow> ret ()
        | Inl e \<Rightarrow> on_ok (gets (\<lambda>s. rn_ForceConfirmed (es_run s))) (\<lambda>forced.
            if forced then repair_after_force ag req machines selected else fail_with e))"

definition execute_switch :: "agent \<Rightarrow> arch_request \<Rightarrow> machine_map \<Rightarrow> unit exec" where
  "execute_switch ag req machines =
     on_ok (if from_independent req then freeze_independent ag req machines else ret ()) (\<lambda>_.
     on_ok (elect_step ag req machines) (\<lambda>elected.
     on_ok (if from_independent req then align_step ag req machines elected else ret ()) (\<lambda>_.
     on_ok (if ar_MoveVIP req then vip_check_step ag req machines else ret ()) (\<lambda>_.
     let selected = cs_MachineID elected; topologyReq = architectureParticipationRequest req in
     on_ok (if ar_CurrentMasterMachineID req \<noteq> [] \<and> ar_CurrentMasterMachineID req \<noteq> selected
            then fence_old ag req machines selected else ret ()) (\<lambda>_.
     on_ok (promote_step ag req machines selected) (\<lambda>_.
     on_ok (repoint_replicas ag topologyReq machines selected) (\<lambda>_.
     on_ok (pt_verify_step ag topologyReq machines selected) (\<lambda>_.
     on_ok (if ar_MoveVIP req
            then on_ok (vip_move_step ag machines) (\<lambda>_. vip_verify_step ag machines) else ret ()) (\<lambda>_.
     on_ok (resume_business ag topologyReq machines) (\<lambda>_.
     on_ok (check_renewals ag) (\<lambda>_. release_and_succeed ag)))))))))))"

subsection \<open>The execution of a run\<close>

definition repair_privileges :: "agent \<Rightarrow> arch_request \<Rightarrow> machine_map \<Rightarrow> arch_request exec" where
  "repair_privileges ag req machines =
     (if trim_space (ar_RootPassword req) \<noteq> [] \<and> ar_RootPasswords req = []
      then on_ok (on_state (\<lambda>_. architectureManagementAccount)) (\<lambda>(user, password).
           on_ok (runArchitectureStep ag ''repair_management_privileges'' (\<lambda>_.
                    repairArchitectureManagementPrivileges ag req machines user password)) (\<lambda>_.
             ret (req\<lparr>ar_RootPassword := []\<rparr>)))
      else ret req)"

definition execute_mysql :: "agent \<Rightarrow> arch_request \<Rightarrow> machine_map \<Rightarrow> unit exec" where
  "execute_mysql ag req0 machines =
     on_ok (repair_privileges ag req0 machines) (\<lambda>req.
     on_ok (runArchitectureStep ag ''preflight'' (\<lambda>_. on_nodes ag req (ar_Nodes req) machines architecturePreflightCommand)) (\<lambda>_.
       if architectureTransitionKind req \<noteq> [] then execute_conversion ag (architectureTransitionKind req) req machines
       else if ar_Architecture req = ArchitectureStandalone then execute_standalone ag req machines
       else execute_switch ag req machines))"

definition running_run :: "go_time \<Rightarrow> arch_run \<Rightarrow> arch_run" where
  "running_run now run = run\<lparr>rn_Status := ArchitectureRunRunning, rn_UpdatedAt := now\<rparr>"

definition execute_body :: "agent \<Rightarrow> arch_request \<Rightarrow> unit exec" where
  "execute_body ag req =
     on_ok (set_run running_run) (\<lambda>_.
     on_ok (ignore_error save_run) (\<lambda>_.
     on_ok (syncArchitectureTrackingTask ag) (\<lambda>_.
     on_ok (or_fail ag ''preflight'' (on_state (\<lambda>_. architectureMachines req))) (\<lambda>selected.
     on_ok (or_fail ag ''preflight'' (on_state (\<lambda>run. addClusterMachines (rn_ClusterID run) selected))) (\<lambda>machines.
       if ar_VIPOnly req then execute_vip_only ag req machines else execute_mysql ag req machines)))))"

abbreviation architectureLockTTL :: duration where "architectureLockTTL \<equiv> 5 * minute"

definition execute_run :: "agent \<Rightarrow> arch_request \<Rightarrow> string \<Rightarrow> unit exec" where
  "execute_run ag req existingLockID =
     (if trim_space existingLockID = []
      then on_ok (or_fail ag ''acquire_lock'' (on_state (\<lambda>run.
             AcquireFailoverLock (rn_ClusterID run) (rn_RunID run) ''gmha-architecture'' architectureLockTTL))) (\<lambda>_.
           on_ok (modify (\<lambda>s. s\<lparr>es_released := False, es_renewed := w_clock (es_world s)\<rparr>)) (\<lambda>_.
             with_result (execute_body ag req) (\<lambda>r. on_ok (ignore_error releaseLock) (\<lambda>_.
               case r of Inl e \<Rightarrow> fail_with e | Inr _ \<Rightarrow> ret ()))))
      else execute_body ag req)"

definition executeArchitectureAdjustment :: "agent \<Rightarrow> arch_run \<Rightarrow> arch_request \<Rightarrow> string \<Rightarrow> arch_run act" where
  "executeArchitectureAdjustment ag run req existingLockID w =
     (case execute_run ag req existingLockID
             \<lparr>es_world = w, es_run = run, es_released = True, es_renewed = 0, es_lock_error = None\<rparr> of
        (_, s) \<Rightarrow> (Inr (es_run s), es_world s))"

subsection \<open>Starting a run\<close>

definition safe_request :: "arch_request \<Rightarrow> arch_request" where
  "safe_request req = req\<lparr>ar_RootPassword := [], ar_RootPasswords := [], ar_ReplicationPassword := []\<rparr>"

definition with_account :: "arch_request \<Rightarrow> arch_request act" where
  "with_account req =
     (let hasReplicationUser = (trim_space (ar_ReplicationUser req) \<noteq> []);
          hasReplicationPassword = (ar_ReplicationPassword req \<noteq> [])
      in if hasReplicationUser \<noteq> hasReplicationPassword
         then fail_with (Error ''replication_user and replication_password must be provided together'')
         else if hasReplicationUser then ret req
         else on_ok architectureManagementAccount (\<lambda>(user, password).
                ret (req\<lparr>ar_ReplicationUser := user, ar_ReplicationPassword := password\<rparr>)))"

definition new_run :: "string \<Rightarrow> string \<Rightarrow> arch_plan \<Rightarrow> arch_request \<Rightarrow> go_time \<Rightarrow> arch_run" where
  "new_run newid clusterID plan req now = \<lparr>rn_RunID = ''arch-run-'' @ trim_prefix newid ''fo-'', rn_ClusterID = clusterID,
     rn_Status = ArchitectureRunPending, rn_CurrentStep = [], rn_Plan = plan, rn_Request = safe_request req,
     rn_StepResults = [], rn_TaskIDs = [], rn_ForceConfirmed = False, rn_Error = [], rn_CreatedAt = now, rn_UpdatedAt = now,
     rn_FinishedAt = None\<rparr>"

text \<open>The run that is returned, and the request the goroutine gets with it.\<close>

definition startArchitectureAdjustment ::
  "agent \<Rightarrow> task_channels \<Rightarrow> string \<Rightarrow> string \<Rightarrow> string \<Rightarrow> arch_request \<Rightarrow> (arch_run \<times> arch_request) act" where
  "startArchitectureAdjustment ag channels planID newid clusterID req0 =
     on_ok (with_account req0) (\<lambda>req.
     on_ok (PlanArchitectureAdjustment (Some channels) planID clusterID req) (\<lambda>plan.
       if \<not> pl_Executable plan
       then fail_with (Errorf ''architecture plan is blocked: %s'' [join ''; '' (pl_BlockingReasons plan)])
       else on_ok (gets w_clock) (\<lambda>now.
         let run = new_run newid clusterID plan req now
         in on_ok (SaveArchitectureRun run) (\<lambda>_.
            on_ok (send ag (CreateRunTask run)) (\<lambda>r. case rp_Create r of
              Inl e \<Rightarrow> fail_with (Wrap ''create architecture tracking task: %w'' [] e)
            | Inr _ \<Rightarrow> ret (run, req))))))"

definition StartArchitectureAdjustment ::
  "agent \<Rightarrow> task_channels \<Rightarrow> string \<Rightarrow> string \<Rightarrow> string \<Rightarrow> arch_request \<Rightarrow> arch_run act" where
  "StartArchitectureAdjustment ag channels planID newid clusterID req0 =
     on_ok (startArchitectureAdjustment ag channels planID newid clusterID req0) (\<lambda>(run, req).
       on_ok (executeArchitectureAdjustment ag run req []) (\<lambda>_. ret run))"

definition HA_GetArchitectureRun :: "string \<Rightarrow> string \<Rightarrow> arch_run option act" where
  "HA_GetArchitectureRun clusterID runID = GetArchitectureRun clusterID runID"

end
