(* ===== verification/Arch_Refine.thy ===== *)
theory Arch_Refine
  imports Arch_Execute "HOL-Library.Sublist"
begin

text \<open>
  What a run does is what its plan shows: the codes of the steps a run records, in the order it runs them, are
  compared with the codes of the planned steps. \<open>follows\<close> says of an operation on \<open>exec_state\<close> that it
  runs one of some scripts, to the end when it succeeds and up to the failing step otherwise.
\<close>

definition step_codes :: "exec_state \<Rightarrow> string list" where
  "step_codes s = map sr_Code (rn_StepResults (es_run s))"

definition follows :: "'a exec \<Rightarrow> string list set \<Rightarrow> bool" where
  "follows m S \<longleftrightarrow> S \<noteq> {} \<and> emits step_codes m (\<lambda>obs r. if is_ok r then obs \<in> S else \<exists>script \<in> S. prefix obs script)"

definition then_scripts :: "string list set \<Rightarrow> string list set \<Rightarrow> string list set" where
  "then_scripts A B = {a @ b |a b. a \<in> A \<and> b \<in> B}"

named_theorems follows_rules \<open>rules that find the scripts of an operation\<close>

lemma followsI:
  "S \<noteq> {} \<Longrightarrow> emits step_codes m (\<lambda>obs r. if is_ok r then obs \<in> S else \<exists>script \<in> S. prefix obs script) \<Longrightarrow> follows m S"
  by (simp add: follows_def)

lemma follows_nonempty: "follows m S \<Longrightarrow> S \<noteq> {}"
  by (simp add: follows_def)

lemma followsD:
  "follows m S \<Longrightarrow> m s = (r, s') \<Longrightarrow>
     \<exists>obs. step_codes s' = step_codes s @ obs \<and> (if is_ok r then obs \<in> S else \<exists>script \<in> S. prefix obs script)"
  unfolding follows_def by (blast dest: emitsD)

lemma follows_quiet: "emits step_codes m (\<lambda>obs r. obs = []) \<Longrightarrow> follows m {[]}"
  by (rule followsI) (auto intro: emits_weaken)

lemma follows_ret [follows_rules]: "follows (ret x) {[]}"
  by (rule follows_quiet) (rule emits_ret, simp)

lemma follows_on_ok:
  assumes "follows m A" and "\<And>x. follows (f x) B"
  shows "follows (on_ok m f) (then_scripts A B)"
proof (rule followsI)
  show "then_scripts A B \<noteq> {}"
    using follows_nonempty [OF assms(1)] follows_nonempty [OF assms(2)] by (auto simp: then_scripts_def)
  have B: "B \<noteq> {}" using follows_nonempty [OF assms(2)] .
  let ?P = "\<lambda>S obs r. if is_ok r then obs \<in> S else \<exists>script \<in> S. prefix obs script"
  show "emits step_codes (on_ok m f) (?P (then_scripts A B))"
  proof (rule emits_on_ok [where P = "?P A" and Q = "\<lambda>_. ?P B"])
    show "emits step_codes m (?P A)" "\<And>x. emits step_codes (f x) (?P B)" using assms by (simp_all add: follows_def)
    show "?P (then_scripts A B) obs (Inl e)" if "?P A obs (Inl e)" for obs e
      using that B by (fastforce simp: then_scripts_def prefix_def)
    show "?P (then_scripts A B) (a @ b) r" if "?P A a (Inr x)" "?P B b r" for a x b r
      using that by (fastforce simp: then_scripts_def prefix_def split: if_splits)
  qed
qed

lemma follows_if: "follows m A \<Longrightarrow> follows m' B \<Longrightarrow> follows (if c then m else m') (if c then A else B)"
  by simp

lemma follows_weaken:
  assumes "follows m A" "A \<subseteq> B"
  shows "follows m B"
proof (rule followsI)
  show "B \<noteq> {}" using assms follows_nonempty by blast
  show "emits step_codes m (\<lambda>obs r. if is_ok r then obs \<in> B else \<exists>script \<in> B. prefix obs script)"
    using assms unfolding follows_def by (auto elim!: emits_weaken split: if_splits)
qed

subsection \<open>Operations that record no step\<close>

lemma quiet_set_run: "(\<And>now run. rn_StepResults (f now run) = rn_StepResults run) \<Longrightarrow> emits step_codes (set_run f) (\<lambda>obs r. obs = [])"
  by (rule emitsI) (auto simp: set_run_def step_codes_def)

lemma quiet_on_state: "emits step_codes (on_state m) (\<lambda>obs r. obs = [])"
  by (rule emitsI) (auto simp: on_state_def step_codes_def split: prod.splits)

lemma quiet_bind:
  "emits step_codes m (\<lambda>obs r. obs = []) \<Longrightarrow> (\<And>x. emits step_codes (f x) (\<lambda>obs r. obs = [])) \<Longrightarrow> emits step_codes (on_ok m f) (\<lambda>obs r. obs = [])"
  by (rule emits_on_ok [where P = "\<lambda>obs r. obs = []" and Q = "\<lambda>_ obs r. obs = []"]) auto

lemma emits_with_result:
  assumes "emits log m P" and "\<And>r. emits log (f r) (Q r)" and "\<And>a r b r'. P a r \<Longrightarrow> Q r b r' \<Longrightarrow> R (a @ b) r'"
  shows "emits log (with_result m f) R"
proof (rule emitsI)
  fix s r s'
  assume run: "with_result m f s = (r, s')"
  obtain r0 v where m: "m s = (r0, v)" by (metis prod.collapse)
  with run have f: "f r0 v = (r, s')" by (simp add: with_result_def)
  from emitsD [OF assms(1) m] obtain a where "log v = log s @ a" "P a r0" by blast
  moreover from emitsD [OF assms(2) f] obtain b where "log s' = log v @ b" "Q r0 b r" by blast
  ultimately show "\<exists>obs. log s' = log s @ obs \<and> R obs r" using assms(3) by (intro exI [of _ "a @ b"]) simp
qed

lemma quiet_with_result:
  "emits step_codes m (\<lambda>obs r. obs = []) \<Longrightarrow> (\<And>r. emits step_codes (f r) (\<lambda>obs r. obs = [])) \<Longrightarrow>
     emits step_codes (with_result m f) (\<lambda>obs r. obs = [])"
  by (rule emits_with_result [where P = "\<lambda>obs r. obs = []" and Q = "\<lambda>_ obs r. obs = []"]) auto

lemma quiet_basic:
  "emits step_codes (ret x) (\<lambda>obs r. obs = [])" "emits step_codes (fail_with e) (\<lambda>obs r. obs = [])"
  "emits step_codes (gets h) (\<lambda>obs r. obs = [])"
  by (auto intro!: emitsI)

lemma quiet_ignore: "emits step_codes m (\<lambda>obs r. obs = []) \<Longrightarrow> emits step_codes (ignore_error m) (\<lambda>obs r. obs = [])"
  unfolding ignore_error_def by (intro quiet_with_result quiet_basic)

lemmas quiet_rules = quiet_on_state quiet_bind quiet_with_result quiet_basic quiet_ignore

lemma quiet_save: "emits step_codes save_run (\<lambda>obs r. obs = [])" "emits step_codes (syncArchitectureTrackingTask ag) (\<lambda>obs r. obs = [])"
  unfolding save_run_def syncArchitectureTrackingTask_def by (intro quiet_rules)+

lemma quiet_fail: "emits step_codes (failArchitectureRun ag code err) (\<lambda>obs r. obs = [])"
  unfolding failArchitectureRun_def by (intro quiet_rules quiet_save quiet_set_run) (simp add: failed_run_def)

lemma quiet_fail_run: "emits step_codes (fail_run ag code err) (\<lambda>obs r. obs = [])"
  unfolding fail_run_def by (intro quiet_rules quiet_fail)

lemma quiet_aside: "emits step_codes (aside m) (\<lambda>obs r. obs = [])"
  unfolding aside_def by (rule quiet_on_state)

lemma quiet_or_fail: "emits step_codes m (\<lambda>obs r. obs = []) \<Longrightarrow> emits step_codes (or_fail ag code m) (\<lambda>obs r. obs = [])"
  unfolding or_fail_def by (intro quiet_with_result) (auto split: sum.splits intro: quiet_fail_run quiet_basic)

lemma quiet_renewals: "emits step_codes run_renewals (\<lambda>obs r. obs = [])"
  by (rule emitsI) (auto simp: run_renewals_def step_codes_def split: if_splits prod.splits)

lemma quiet_release: "emits step_codes releaseLock (\<lambda>obs r. obs = [])"
proof -
  have "emits step_codes (modify (\<lambda>s. s\<lparr>es_released := True\<rparr>)) (\<lambda>obs r. obs = [])" by (rule emitsI) (auto simp: step_codes_def)
  then show ?thesis unfolding releaseLock_def by (intro quiet_bind quiet_renewals quiet_basic) (auto intro: quiet_rules)
qed

lemma quiet_check: "emits step_codes (check_renewals ag) (\<lambda>obs r. obs = [])"
  unfolding check_renewals_def
  by (intro quiet_bind quiet_renewals quiet_basic) (auto split: option.splits intro: quiet_fail_run quiet_basic)

lemma quiet_finish: "emits step_codes (release_and_succeed ag) (\<lambda>obs r. obs = [])"
  unfolding release_and_succeed_def succeedArchitectureRun_def
  by (intro quiet_bind quiet_or_fail quiet_release quiet_ignore quiet_save quiet_set_run) (simp add: succeeded_run_def)

lemma quiet_gate: "emits step_codes (force_gate ag) (\<lambda>obs r. obs = [])"
  unfolding force_gate_def
  by (intro quiet_bind quiet_ignore quiet_save quiet_set_run quiet_on_state)
    (auto simp: waiting_run_def forced_run_def intro!: quiet_set_run quiet_bind quiet_check quiet_basic)

lemma follows_of_quiet [follows_rules]:
  "follows (fail_run ag code err) {[]}" "follows (check_renewals ag) {[]}" "follows (release_and_succeed ag) {[]}"
  by (intro follows_quiet quiet_fail_run quiet_check quiet_finish)+

subsection \<open>A step records its code\<close>

lemma codes_update_last [simp]:
  "(\<And>r. sr_Code (g r) = sr_Code r) \<Longrightarrow> map sr_Code (update_last g xs) = map sr_Code xs"
  by (cases xs rule: rev_cases) (simp_all add: update_last_def)

lemma quiet_marks:
  "emits step_codes (set_run (finished_run ids)) (\<lambda>obs r. obs = [])" "emits step_codes (set_run (step_failed e)) (\<lambda>obs r. obs = [])"
  "emits step_codes (set_run step_succeeded) (\<lambda>obs r. obs = [])"
  by (auto intro!: emitsI simp: set_run_def step_codes_def finished_run_def step_failed_def step_succeeded_def)

lemma emits_step: "emits step_codes (runArchitectureStep ag code m) (\<lambda>obs r. obs = [code])"
  unfolding runArchitectureStep_def
proof (rule emits_on_ok [where P = "\<lambda>obs r. obs = [code] \<and> is_ok r" and Q = "\<lambda>_ obs r. obs = []"])
  show "emits step_codes (set_run (started_run code)) (\<lambda>obs r. obs = [code] \<and> is_ok r)"
    by (rule emitsI) (auto simp: set_run_def step_codes_def started_run_def new_step_def)
next
  fix x
  show "emits step_codes (on_ok (ignore_error save_run) (\<lambda>_. on_ok (syncArchitectureTrackingTask ag) (\<lambda>_.
     on_ok (on_state (\<lambda>run. on_ok (collect (m run)) (attach_tasks ag run))) (\<lambda>(res, ids).
     on_ok (set_run (finished_run ids)) (\<lambda>_.
       case res of
         Inl err \<Rightarrow> on_ok (set_run (step_failed err)) (\<lambda>_. on_ok (failArchitectureRun ag code err) (\<lambda>_. fail_with err))
       | Inr x \<Rightarrow> on_ok (set_run step_succeeded) (\<lambda>_. on_ok save_run (\<lambda>_. on_ok (syncArchitectureTrackingTask ag) (\<lambda>_. ret x)))))))) (\<lambda>obs r. obs = [])"
    by (intro quiet_bind quiet_ignore quiet_save quiet_on_state)
      (auto split: sum.splits intro!: quiet_bind quiet_marks quiet_fail quiet_basic quiet_save)
qed simp_all

lemma follows_step [follows_rules]: "follows (runArchitectureStep ag code m) {[code]}"
  by (rule followsI) (auto intro: emits_weaken [OF emits_step])

lemma follows_on_error [follows_rules]:
  assumes "follows m S" "emits step_codes h (\<lambda>obs r. obs = [])"
  shows "follows (on_error m h) S"
proof (rule followsI)
  show "S \<noteq> {}" using follows_nonempty [OF assms(1)] .
  show "emits step_codes (on_error m h) (\<lambda>obs r. if is_ok r then obs \<in> S else \<exists>script \<in> S. prefix obs script)"
    unfolding on_error_def
  proof (rule emits_with_result)
    show "emits step_codes m (\<lambda>obs r. if is_ok r then obs \<in> S else \<exists>script \<in> S. prefix obs script)" using assms(1) by (simp add: follows_def)
    show "emits step_codes (case r of Inl e \<Rightarrow> on_ok (ignore_error h) (\<lambda>_. fail_with e) | Inr x \<Rightarrow> ret x) (\<lambda>obs r'. obs = [] \<and> is_ok r' = is_ok r)" for r
    proof (cases r)
      case (Inl e)
      have "emits step_codes (on_ok (ignore_error h) (\<lambda>_. fail_with e)) (\<lambda>obs r'. obs = [] \<and> \<not> is_ok r')"
        by (rule emits_on_ok [OF quiet_ignore [OF assms(2)] emits_fail [where P = "\<lambda>obs r. obs = [] \<and> \<not> is_ok r"]]) auto
      with Inl show ?thesis by simp
    qed (auto intro: emits_ret)
  qed auto
qed

lemma follows_single: "emits step_codes m (\<lambda>obs r. obs = [code]) \<Longrightarrow> follows m {[code]}"
  by (rule followsI) (auto elim!: emits_weaken)

lemma follows_failing: "emits step_codes m (\<lambda>obs r. obs = [] \<and> \<not> is_ok r) \<Longrightarrow> S \<noteq> {} \<Longrightarrow> follows m S"
  by (rule followsI) (auto elim!: emits_weaken)

lemma follows_fail_run: "S \<noteq> {} \<Longrightarrow> follows (fail_run ag code err) S"
  unfolding fail_run_def
  by (rule follows_failing, rule emits_on_ok [OF quiet_fail emits_fail [where P = "\<lambda>obs r. obs = [] \<and> \<not> is_ok r"]]) auto

lemma follows_either: "follows m A \<Longrightarrow> follows m' B \<Longrightarrow> follows (if c then m else m') (A \<union> B)"
  by (auto intro: follows_weaken)

lemma then_scripts_single [simp]: "then_scripts {a} {b} = {a @ b}"
  by (auto simp: then_scripts_def)

lemma then_scripts_Un: "then_scripts {a} (B \<union> C) = then_scripts {a} B \<union> then_scripts {a} C" "then_scripts (A \<union> B) C = then_scripts A C \<union> then_scripts B C"
  by (auto simp: then_scripts_def)

lemma then_scripts_mem: "x \<in> then_scripts A B \<longleftrightarrow> (\<exists>a \<in> A. \<exists>b \<in> B. x = a @ b)"
  by (auto simp: then_scripts_def)

text \<open>A sequence of operations, each with one script.\<close>

lemma follows_seq: "follows m {a} \<Longrightarrow> (\<And>x. follows (f x) {b}) \<Longrightarrow> follows (on_ok m f) {a @ b}"
  using follows_on_ok [of m "{a}" f "{b}"] by simp

lemma follows_when: "follows m {a} \<Longrightarrow> follows m' {b} \<Longrightarrow> follows (if c then m else m') {if c then a else b}"
  by simp

subsection \<open>The scripts of the ways through an execution\<close>

definition vip_rebind_script :: "string list" where
  "vip_rebind_script = [''check_vip_conflict'', ''withdraw_vip'', ''verify_zero_vip'', ''bind_vip'', ''verify_single_vip'']"

definition vip_only_script :: "bool \<Rightarrow> string list" where
  "vip_only_script initialize =
     [''preflight''] @ (if initialize then vip_rebind_script
       else [''freeze_business_access'', ''drain_business_sessions''] @ vip_rebind_script @ [''resume_business_connections''])"

definition conversion_script :: "bool \<Rightarrow> string list" where
  "conversion_script move = [''freeze_business_access'', ''drain_business_sessions'', ''wait_replication_zero'', ''reconfigure_topology'',
     ''verify_topology'', ''pt_verify_replication''] @
     (if move then [''check_vip_conflict'', ''move_vip'', ''verify_single_vip''] else []) @ [''resume_business_connections'']"

definition standalone_script :: "bool \<Rightarrow> string list" where
  "standalone_script named = [''validate_independent_targets''] @
     (if named then [''freeze_old_master'', ''kill_business_sessions'', ''wait_replication_zero'', ''pt_verify_before_split''] else []) @
     [''detach_replication'', ''verify_topology'', ''resume_business_connections'']"

definition fence_script :: "string list" where
  "fence_script = [''freeze_old_master'', ''kill_business_sessions'', ''wait_replication_zero'', ''fence_old_master'']"

definition repoint_scripts :: "string list list" where
  "repoint_scripts = [[''repoint_replicas'', ''verify_topology''],
     [''repoint_replicas'', ''pt_repair_on_failure'', ''verify_topology''],
     [''repoint_replicas'', ''verify_topology'', ''pt_repair_on_failure'', ''verify_topology'']]"

definition switch_script :: "bool \<Rightarrow> bool \<Rightarrow> bool \<Rightarrow> string list \<Rightarrow> string list" where
  "switch_script independent move fences repoint =
     (if independent then [''freeze_old_master'', ''kill_business_sessions''] else []) @ [''elect_candidate''] @
     (if independent then [''align_replica_gtid''] else []) @ (if move then [''check_vip_conflict''] else []) @
     (if fences then fence_script else []) @ [''promote_new_master''] @ repoint @ [''pt_verify_replication''] @
     (if move then [''move_vip'', ''verify_single_vip''] else []) @ [''resume_business_connections'']"

definition switch_scripts :: "bool \<Rightarrow> bool \<Rightarrow> bool \<Rightarrow> string list list" where
  "switch_scripts independent named move =
     [switch_script independent move fences repoint. fences \<leftarrow> (if named then [False, True] else [False]), repoint \<leftarrow> repoint_scripts]"

definition repair_script :: "arch_request \<Rightarrow> string list" where
  "repair_script req = (if trim_space (ar_RootPassword req) \<noteq> [] \<and> ar_RootPasswords req = [] then [''repair_management_privileges''] else [])"

definition mysql_scripts :: "arch_request \<Rightarrow> string list list" where
  "mysql_scripts req =
     (if architectureTransitionKind req \<noteq> [] then [conversion_script (ar_MoveVIP req)]
      else if ar_Architecture req = ArchitectureStandalone then [standalone_script (ar_CurrentMasterMachineID req \<noteq> [])]
      else switch_scripts (from_independent req) (ar_CurrentMasterMachineID req \<noteq> []) (ar_MoveVIP req))"

definition run_scripts :: "arch_request \<Rightarrow> string list list" where
  "run_scripts req =
     (if ar_VIPOnly req then [vip_only_script (ar_InitializeVIP req)]
      else map (\<lambda>script. repair_script req @ [''preflight''] @ script) (mysql_scripts req))"

lemma follows_vip_rebind: "follows (vip_rebind ag req machines) {vip_rebind_script}"
proof -
  have "emits step_codes (on_ok (gets es_run) (\<lambda>run. aside (withdrawArchitectureVIP ag run machines))) (\<lambda>obs r. obs = [])"
    by (intro quiet_bind quiet_basic quiet_aside)
  then have "follows (vip_rebind ag req machines) {[''check_vip_conflict''] @ [''withdraw_vip''] @ [''verify_zero_vip''] @ [''bind_vip''] @ [''verify_single_vip'']}"
    unfolding vip_rebind_def vip_check_step_def vip_verify_step_def by (intro follows_seq follows_step follows_on_error)
  then show ?thesis by (simp add: vip_rebind_script_def)
qed

lemma follows_resuming: "follows m S \<Longrightarrow> follows (resuming ag req machines m) S"
  unfolding resuming_def by (intro follows_on_error quiet_aside)

lemma follows_vip_only: "follows (execute_vip_only ag req machines) {vip_only_script (ar_InitializeVIP req)}"
proof -
  have "follows (execute_vip_only ag req machines) {[''preflight''] @ (if ar_InitializeVIP req then vip_rebind_script
      else [''freeze_business_access''] @ [''drain_business_sessions''] @ vip_rebind_script @ [''resume_business_connections'']) @ [] @ []}"
    unfolding execute_vip_only_def vip_preflight_def freeze_business_def drain_business_def resume_business_def
    by (intro follows_seq follows_step follows_when follows_resuming follows_vip_rebind follows_of_quiet)
  then show ?thesis by (cases "ar_InitializeVIP req") (simp_all add: vip_only_script_def)
qed

lemma follows_conversion: "follows (execute_conversion ag kind req machines) {conversion_script (ar_MoveVIP req)}"
proof (cases "freeze_nodes kind req = []")
  case True
  then show ?thesis unfolding execute_conversion_def if_P [OF True] by (intro follows_fail_run) simp
next
  case False
  have "follows (convert_nodes ag kind req machines) {[''drain_business_sessions''] @ [''wait_replication_zero''] @ [''reconfigure_topology''] @
      [''verify_topology''] @ [''pt_verify_replication''] @
      (if ar_MoveVIP req then [''check_vip_conflict''] @ [''move_vip''] @ [''verify_single_vip''] else []) @ [''resume_business_connections'']}"
    unfolding convert_nodes_def drain_business_def verify_nodes_def pt_verify_step_def vip_check_step_def vip_move_step_def vip_verify_step_def resume_business_def
    by (intro follows_seq follows_step follows_when follows_ret)
  with False have "follows (execute_conversion ag kind req machines) {[''freeze_business_access''] @ ([''drain_business_sessions''] @
      [''wait_replication_zero''] @ [''reconfigure_topology''] @ [''verify_topology''] @ [''pt_verify_replication''] @
      (if ar_MoveVIP req then [''check_vip_conflict''] @ [''move_vip''] @ [''verify_single_vip''] else []) @ [''resume_business_connections'']) @ []}"
    unfolding execute_conversion_def if_not_P [OF False] freeze_business_def
    by (intro follows_seq follows_step follows_resuming follows_of_quiet)
  then show ?thesis by (cases "ar_MoveVIP req") (simp_all add: conversion_script_def)
qed

lemma follows_standalone: "follows (execute_standalone ag req machines) {standalone_script (ar_CurrentMasterMachineID req \<noteq> [])}"
proof -
  have split: "follows (split_from ag req machines current)
      {[''freeze_old_master''] @ [''kill_business_sessions''] @ [''wait_replication_zero''] @ [''pt_verify_before_split'']}" for current
    unfolding split_from_def by (intro follows_seq follows_step)
  have from_node: "follows (case node of None \<Rightarrow> fail_run ag ''freeze_old_master'' e | Some current \<Rightarrow> split_from ag req machines current)
      {[''freeze_old_master''] @ [''kill_business_sessions''] @ [''wait_replication_zero''] @ [''pt_verify_before_split'']}" for node e
    using split by (cases node) (simp_all add: follows_fail_run)
  have "follows (execute_standalone ag req machines) {([''validate_independent_targets''] @
      (if ar_CurrentMasterMachineID req = [] then []
       else [''freeze_old_master''] @ [''kill_business_sessions''] @ [''wait_replication_zero''] @ [''pt_verify_before_split'']) @
      [''detach_replication''] @ [''verify_topology'']) @ [''resume_business_connections''] @ [] @ []}"
    unfolding execute_standalone_def executeStandaloneArchitecture_def resume_business_def
    by (intro follows_seq follows_step follows_when follows_ret follows_of_quiet from_node)
  then show ?thesis by (cases "ar_CurrentMasterMachineID req = []") (simp_all add: standalone_script_def)
qed

subsection \<open>The general way\<close>

lemma follows_wait:
  "follows (with_result (runArchitectureStep ag code m) (\<lambda>r. case r of Inr _ \<Rightarrow> ret () | Inl _ \<Rightarrow> force_gate ag)) {[code]}"
proof (rule follows_single)
  show "emits step_codes (with_result (runArchitectureStep ag code m) (\<lambda>r. case r of Inr _ \<Rightarrow> ret () | Inl _ \<Rightarrow> force_gate ag)) (\<lambda>obs r. obs = [code])"
    by (rule emits_with_result [OF emits_step, where Q = "\<lambda>_ obs r. obs = []"])
      (auto split: sum.splits intro: quiet_gate quiet_basic)
qed

lemma follows_fence: "follows (fence_old ag req machines selected) {fence_script}"
proof (cases "architectureNode (ar_Nodes req) (ar_CurrentMasterMachineID req)")
  case None
  then show ?thesis by (simp add: fence_old_def follows_fail_run)
next
  case (Some old)
  have "follows (on_ok (runArchitectureStep ag ''freeze_old_master'' (\<lambda>_. on_node ag req machines freezeOldMasterCommand old)) (\<lambda>_.
          on_ok (runArchitectureStep ag ''kill_business_sessions'' (\<lambda>_. kill_on ag req machines old)) (\<lambda>_.
          on_ok (with_result (runArchitectureStep ag ''wait_replication_zero'' (\<lambda>_.
                   on_node ag req machines replicationCatchupCommand (node_or_zero (ar_Nodes req) selected)))
                   (\<lambda>r. case r of Inr _ \<Rightarrow> ret () | Inl _ \<Rightarrow> force_gate ag)) (\<lambda>_.
            runArchitectureStep ag ''fence_old_master'' (\<lambda>_. on_node ag req machines fenceOldMasterCommand old)))))
      {[''freeze_old_master''] @ [''kill_business_sessions''] @ [''wait_replication_zero''] @ [''fence_old_master'']}"
    by (intro follows_seq follows_step follows_wait)
  then show ?thesis unfolding fence_old_def Some option.case fence_script_def append.simps .
qed

lemma quiet_resume: "emits step_codes resumeArchitectureRun (\<lambda>obs r. obs = [])"
  unfolding resumeArchitectureRun_def by (intro quiet_bind quiet_ignore quiet_save quiet_set_run) (simp add: resumed_run_def)

lemma follows_repair: "follows (repair_after_force ag req machines selected) {[''pt_repair_on_failure'', ''verify_topology'']}"
proof -
  have "follows (repair_after_force ag req machines selected) {[] @ [''pt_repair_on_failure''] @ [''verify_topology'']}"
    unfolding repair_after_force_def verify_nodes_def by (intro follows_seq follows_step follows_quiet [OF quiet_resume])
  then show ?thesis by simp
qed

lemma follows_repoint: "follows (repoint_replicas ag req machines selected) (set repoint_scripts)"
proof (rule followsI)
  show "set repoint_scripts \<noteq> {}" by (simp add: repoint_scripts_def)
  let ?first = "\<lambda>obs r. obs = [''repoint_replicas'', ''verify_topology''] \<or> \<not> is_ok r \<and> obs = [''repoint_replicas'']"
  let ?next = "\<lambda>r obs r'. if is_ok r then obs = [] \<and> is_ok r' else
    (if is_ok r' then obs = [''pt_repair_on_failure'', ''verify_topology''] else prefix obs [''pt_repair_on_failure'', ''verify_topology''])"
  show "emits step_codes (repoint_replicas ag req machines selected)
      (\<lambda>obs r. if is_ok r then obs \<in> set repoint_scripts else \<exists>script \<in> set repoint_scripts. prefix obs script)"
    unfolding repoint_replicas_def
  proof (rule emits_with_result [where P = ?first and Q = ?next])
    show "emits step_codes (on_ok (runArchitectureStep ag ''repoint_replicas'' (\<lambda>_. configureArchitectureTopology ag req selected machines))
        (\<lambda>_. verify_nodes ag req machines selected)) ?first"
      unfolding verify_nodes_def by (rule emits_on_ok [OF emits_step emits_step]) auto
    show "emits step_codes (case r of Inr _ \<Rightarrow> ret () | Inl e \<Rightarrow> on_ok (gets (\<lambda>s. rn_ForceConfirmed (es_run s))) (\<lambda>forced.
        if forced then repair_after_force ag req machines selected else fail_with e)) (?next r)" for r
    proof (cases r)
      case (Inl e)
      have "emits step_codes (if forced then repair_after_force ag req machines selected else fail_with e) (?next r)" for forced
        using follows_repair [of ag req machines selected] Inl
        by (cases forced) (auto simp: follows_def intro!: emits_fail elim!: emits_weaken split: if_splits)
      with Inl show ?thesis by (auto intro!: emits_on_ok [OF quiet_basic(3)])
    qed (auto intro: emits_ret)
  next
    show "if is_ok r' then a @ b \<in> set repoint_scripts else \<exists>script \<in> set repoint_scripts. prefix (a @ b) script"
      if "?first a r" "?next r b r'" for a and r :: "unit result" and b and r' :: "unit result"
      using that by (cases "is_ok r"; cases "is_ok r'") (auto simp: repoint_scripts_def)
  qed
qed

lemma bex_then_scripts: "(\<exists>x \<in> then_scripts A B. P x) \<longleftrightarrow> (\<exists>a \<in> A. \<exists>b \<in> B. P (a @ b))"
  unfolding then_scripts_def by blast

lemma chain_mem:
  "x \<in> then_scripts {a} (then_scripts {b} (then_scripts {c} (then_scripts {d} (then_scripts F (then_scripts {e} (then_scripts R
     (then_scripts {g} (then_scripts {h} (then_scripts {k} (then_scripts {l} {m})))))))))) \<Longrightarrow>
   \<exists>f \<in> F. \<exists>r \<in> R. x = a @ b @ c @ d @ f @ e @ r @ g @ h @ k @ l @ m"
  by (simp only: then_scripts_mem bex_then_scripts bex_simps simp_thms)

lemma follows_switch:
  "follows (execute_switch ag req machines) (set (switch_scripts (from_independent req) (ar_CurrentMasterMachineID req \<noteq> []) (ar_MoveVIP req)))"
proof -
  let ?named = "ar_CurrentMasterMachineID req \<noteq> []"
  let ?fences = "if ?named then {fence_script, []} else {[]}"
  have independent: "follows (if from_independent req then freeze_independent ag req machines else ret ())
      {if from_independent req then [''freeze_old_master''] @ [''kill_business_sessions''] else []}"
    unfolding freeze_independent_def by (intro follows_when follows_on_error follows_seq follows_step quiet_aside follows_ret)
  have elect: "follows (elect_step ag req machines) {[''elect_candidate''] @ [] @ [] @ []}"
  proof -
    have restore: "emits step_codes (if from_independent req then aside (restoreIndependentWriters ag req machines) else ret ()) (\<lambda>obs r. obs = [])"
      using quiet_aside quiet_basic(1) by (cases "from_independent req") (simp_all only: if_True if_False)
    have chosen: "follows (set_run (selected_run c)) {[]}" for c
      by (intro follows_quiet quiet_set_run) (simp add: selected_run_def)
    show ?thesis unfolding elect_step_def
      by (intro follows_seq follows_on_error follows_step restore chosen follows_ret follows_quiet [OF quiet_ignore [OF quiet_save(1)]])
  qed
  have align: "follows (if from_independent req then align_step ag req machines elected else ret ())
      {if from_independent req then [''align_replica_gtid''] else []}" for elected
    unfolding align_step_def by (intro follows_when follows_on_error follows_step quiet_aside follows_ret)
  have check: "follows (if ar_MoveVIP req then vip_check_step ag req machines else ret ()) {if ar_MoveVIP req then [''check_vip_conflict''] else []}"
    unfolding vip_check_step_def by (intro follows_when follows_step follows_ret)
  have fence: "follows (if ?named \<and> ar_CurrentMasterMachineID req \<noteq> selected then fence_old ag req machines selected else ret ()) ?fences" for selected
    using follows_fence [of ag req machines selected] follows_ret [of "()"]
    by (cases ?named; cases "ar_CurrentMasterMachineID req \<noteq> selected") (auto intro: follows_weaken)
  have move: "follows (if ar_MoveVIP req then on_ok (vip_move_step ag machines) (\<lambda>_. vip_verify_step ag machines) else ret ())
      {if ar_MoveVIP req then [''move_vip''] @ [''verify_single_vip''] else []}"
    unfolding vip_move_step_def vip_verify_step_def by (intro follows_when follows_seq follows_step follows_ret)
  have "follows (execute_switch ag req machines)
     (then_scripts {if from_independent req then [''freeze_old_master''] @ [''kill_business_sessions''] else []}
     (then_scripts {[''elect_candidate''] @ [] @ [] @ []}
     (then_scripts {if from_independent req then [''align_replica_gtid''] else []}
     (then_scripts {if ar_MoveVIP req then [''check_vip_conflict''] else []}
     (then_scripts ?fences
     (then_scripts {[''promote_new_master'']}
     (then_scripts (set repoint_scripts)
     (then_scripts {[''pt_verify_replication'']}
     (then_scripts {if ar_MoveVIP req then [''move_vip''] @ [''verify_single_vip''] else []}
     (then_scripts {[''resume_business_connections'']}
     (then_scripts {[]} {[]})))))))))))" (is "follows _ ?chain")
    unfolding execute_switch_def Let_def promote_step_def pt_verify_step_def resume_business_def
    by (intro follows_on_ok independent elect align check fence follows_repoint move follows_step follows_of_quiet)
  moreover have "?chain \<subseteq> set (switch_scripts (from_independent req) ?named (ar_MoveVIP req))"
  proof
    fix x assume "x \<in> ?chain"
    from chain_mem [OF this] obtain f r where fr: "f \<in> ?fences" "r \<in> set repoint_scripts" and x: "x =
      (if from_independent req then [''freeze_old_master''] @ [''kill_business_sessions''] else []) @ ([''elect_candidate''] @ [] @ [] @ []) @
      (if from_independent req then [''align_replica_gtid''] else []) @ (if ar_MoveVIP req then [''check_vip_conflict''] else []) @ f @
      [''promote_new_master''] @ r @ [''pt_verify_replication''] @ (if ar_MoveVIP req then [''move_vip''] @ [''verify_single_vip''] else []) @
      [''resume_business_connections''] @ [] @ []" by blast
    have "x = switch_script (from_independent req) (ar_MoveVIP req) (f \<noteq> []) r" "f \<noteq> [] \<longrightarrow> ?named"
      using fr(1) unfolding x switch_script_def by (auto split: if_splits)
    then show "x \<in> set (switch_scripts (from_independent req) ?named (ar_MoveVIP req))"
      using fr(2) by (cases "f = []") (auto simp: switch_scripts_def)
  qed
  ultimately show ?thesis by (rule follows_weaken)
qed

text \<open>The repair of the privileges comes first, and the rest of the run no longer sees the root password.\<close>

lemma same_scripts: "mysql_scripts (req\<lparr>ar_RootPassword := p\<rparr>) = mysql_scripts req"
  by (simp add: mysql_scripts_def architectureTransitionKind_def from_independent_def)

lemma mysql_scripts_nonempty: "mysql_scripts req \<noteq> []"
  by (simp add: mysql_scripts_def switch_scripts_def repoint_scripts_def)

definition after_repair :: "agent \<Rightarrow> machine_map \<Rightarrow> arch_request \<Rightarrow> unit exec" where
  "after_repair ag machines req =
     on_ok (runArchitectureStep ag ''preflight'' (\<lambda>_. on_nodes ag req (ar_Nodes req) machines architecturePreflightCommand)) (\<lambda>_.
       if architectureTransitionKind req \<noteq> [] then execute_conversion ag (architectureTransitionKind req) req machines
       else if ar_Architecture req = ArchitectureStandalone then execute_standalone ag req machines
       else execute_switch ag req machines)"

lemma follows_after_repair: "follows (after_repair ag machines req) (then_scripts {[''preflight'']} (set (mysql_scripts req)))"
  unfolding after_repair_def
proof (rule follows_on_ok [OF follows_step])
  show "follows (if architectureTransitionKind req \<noteq> [] then execute_conversion ag (architectureTransitionKind req) req machines
       else if ar_Architecture req = ArchitectureStandalone then execute_standalone ag req machines
       else execute_switch ag req machines) (set (mysql_scripts req))"
    using follows_conversion [of ag "architectureTransitionKind req" req machines] follows_standalone [of ag req machines] follows_switch [of ag req machines]
    by (simp add: mysql_scripts_def)
qed

lemma follows_mysql:
  "follows (execute_mysql ag req machines) (then_scripts {repair_script req} (then_scripts {[''preflight'']} (set (mysql_scripts req))))"
proof (cases "trim_space (ar_RootPassword req) \<noteq> [] \<and> ar_RootPasswords req = []")
  case False
  then have "execute_mysql ag req machines = after_repair ag machines req"
    by (simp only: execute_mysql_def repair_privileges_def after_repair_def if_False on_ok_ret)
  with False follows_after_repair [of ag machines req] show ?thesis by (auto simp: repair_script_def then_scripts_def)
next
  case True
  have "execute_mysql ag req machines = on_ok (on_state (\<lambda>_. architectureManagementAccount)) (\<lambda>(user, password).
      on_ok (runArchitectureStep ag ''repair_management_privileges'' (\<lambda>_. repairArchitectureManagementPrivileges ag req machines user password))
        (\<lambda>_. after_repair ag machines (req\<lparr>ar_RootPassword := []\<rparr>)))"
    using True unfolding execute_mysql_def repair_privileges_def after_repair_def
    by (simp add: on_ok_assoc split_def del: op_simps)
  moreover have "follows \<dots> (then_scripts {[]} (then_scripts {[''repair_management_privileges'']} (then_scripts {[''preflight'']} (set (mysql_scripts req)))))"
    using follows_after_repair [of ag machines "req\<lparr>ar_RootPassword := []\<rparr>"]
    by (intro follows_on_ok follows_quiet [OF quiet_on_state]) (auto simp: same_scripts split_def intro!: follows_on_ok follows_step)
  ultimately show ?thesis using True by (auto simp: repair_script_def then_scripts_def)
qed

lemma follows_body: "follows (execute_body ag req) (set (run_scripts req))"
proof -
  have start: "follows (set_run running_run) {[]}" by (intro follows_quiet quiet_set_run) (simp add: running_run_def)
  have "follows (if ar_VIPOnly req then execute_vip_only ag req machines else execute_mysql ag req machines) (set (run_scripts req))" for machines
    using follows_vip_only [of ag req machines] follows_mysql [of ag req machines]
    by (cases "ar_VIPOnly req") (auto simp: run_scripts_def then_scripts_def elim!: follows_weaken)
  then have "follows (execute_body ag req) (then_scripts {[]} (then_scripts {[]} (then_scripts {[]} (then_scripts {[]} (then_scripts {[]} (set (run_scripts req)))))))"
    unfolding execute_body_def
    by (intro follows_on_ok start follows_quiet quiet_ignore quiet_save quiet_or_fail quiet_on_state)
  then show ?thesis by (rule follows_weaken) (auto simp: then_scripts_def)
qed

lemma follows_run: "follows (execute_run ag req lockID) (set (run_scripts req))"
proof (cases "trim_space lockID = []")
  case False
  then show ?thesis using follows_body by (simp add: execute_run_def)
next
  case True
  have mark: "emits step_codes (modify (\<lambda>s. s\<lparr>es_released := False, es_renewed := w_clock (es_world s)\<rparr>)) (\<lambda>obs r. obs = [])"
    by (rule emitsI) (auto simp: step_codes_def)
  have body: "follows (with_result (execute_body ag req) (\<lambda>r. on_ok (ignore_error releaseLock) (\<lambda>_. case r of Inl e \<Rightarrow> fail_with e | Inr _ \<Rightarrow> ret ())))
     (set (run_scripts req))"
  proof (rule followsI)
    show "set (run_scripts req) \<noteq> {}" using follows_nonempty [OF follows_body] .
    have last: "emits step_codes (on_ok (ignore_error releaseLock) (\<lambda>_. case r of Inl e \<Rightarrow> fail_with e | Inr _ \<Rightarrow> ret ())) (\<lambda>obs r'. obs = [] \<and> (is_ok r' \<longrightarrow> is_ok r))" for r
      by (rule emits_on_ok [OF quiet_ignore [OF quiet_release], where Q = "\<lambda>_ obs r'. obs = [] \<and> (is_ok r' \<longrightarrow> is_ok r)"])
        (auto split: sum.splits intro: emits_fail emits_ret)
    show "emits step_codes (with_result (execute_body ag req) (\<lambda>r. on_ok (ignore_error releaseLock) (\<lambda>_. case r of Inl e \<Rightarrow> fail_with e | Inr _ \<Rightarrow> ret ())))
       (\<lambda>obs r. if is_ok r then obs \<in> set (run_scripts req) else \<exists>script \<in> set (run_scripts req). prefix obs script)"
      by (rule emits_with_result [OF _ last, where P = "\<lambda>obs r. if is_ok r then obs \<in> set (run_scripts req) else \<exists>script \<in> set (run_scripts req). prefix obs script"])
        (use follows_body [of ag req] in \<open>auto simp: follows_def split: if_splits\<close>)
  qed
  have "follows (execute_run ag req lockID) (then_scripts {[]} (then_scripts {[]} (set (run_scripts req))))"
    unfolding execute_run_def if_P [OF True]
    by (intro follows_on_ok body follows_quiet quiet_or_fail quiet_on_state mark)
  then show ?thesis by (rule follows_weaken) (auto simp: then_scripts_def)
qed

subsection \<open>A run is a success exactly when its execution reaches the end\<close>

definition not_succeeded :: "exec_state \<Rightarrow> bool" where
  "not_succeeded s \<longleftrightarrow> rn_Status (es_run s) \<noteq> ArchitectureRunSucceeded"

definition run_verdict :: "'a result \<Rightarrow> exec_state \<Rightarrow> bool" where
  "run_verdict r s \<longleftrightarrow> (is_ok r \<longleftrightarrow> rn_Status (es_run s) = ArchitectureRunSucceeded)"

named_theorems run_rules \<open>operations that do not make a run a success\<close>

lemma keeps_set_run:
  "(\<And>now run. rn_Status run \<noteq> ArchitectureRunSucceeded \<Longrightarrow> rn_Status (f now run) \<noteq> ArchitectureRunSucceeded) \<Longrightarrow> preserves not_succeeded (set_run f)"
  unfolding set_run_def by (rule valid_modify) (simp add: not_succeeded_def)

lemma keeps_on_state [run_rules]: "preserves not_succeeded (on_state m)"
  by (rule validI) (auto simp: on_state_def not_succeeded_def split: prod.splits)

lemma keeps_basic [run_rules]: "preserves I (ret x)" "preserves I (fail_with e)" "preserves I (gets h)"
  by (auto intro: op_rules)

lemma keeps_ignore [run_rules]: "preserves I m \<Longrightarrow> preserves I (ignore_error m)"
  unfolding ignore_error_def by (intro op_rules)

lemma keeps_save [run_rules]: "preserves not_succeeded save_run" "preserves not_succeeded (syncArchitectureTrackingTask ag)"
  unfolding save_run_def syncArchitectureTrackingTask_def by (intro run_rules)+

lemma keeps_marks [run_rules]:
  "preserves not_succeeded (set_run (started_run code))" "preserves not_succeeded (set_run (finished_run ids))"
  "preserves not_succeeded (set_run (step_failed e))" "preserves not_succeeded (set_run step_succeeded)"
  "preserves not_succeeded (set_run (failed_run code e))" "preserves not_succeeded (set_run resumed_run)"
  "preserves not_succeeded (set_run waiting_run)" "preserves not_succeeded (set_run forced_run)"
  "preserves not_succeeded (set_run (selected_run c))" "preserves not_succeeded (set_run running_run)"
  by (rule keeps_set_run; simp add: started_run_def finished_run_def step_failed_def step_succeeded_def failed_run_def resumed_run_def
    waiting_run_def forced_run_def selected_run_def running_run_def)+

lemma keeps_fail [run_rules]: "preserves not_succeeded (failArchitectureRun ag code e)" "preserves not_succeeded (fail_run ag code e)"
  unfolding fail_run_def failArchitectureRun_def by (intro run_rules op_rules)+

lemma keeps_step [run_rules]: "preserves not_succeeded (runArchitectureStep ag code m)"
  unfolding runArchitectureStep_def by (intro run_rules op_rules)

lemma keeps_aside [run_rules]: "preserves not_succeeded (aside m)"
  unfolding aside_def by (intro run_rules)

lemma keeps_on_error [run_rules]: "preserves I m \<Longrightarrow> preserves I h \<Longrightarrow> preserves I (on_error m h)"
  unfolding on_error_def by (intro run_rules op_rules)

lemma keeps_or_fail [run_rules]: "preserves not_succeeded m \<Longrightarrow> preserves not_succeeded (or_fail ag code m)"
  unfolding or_fail_def by (intro run_rules op_rules)

lemma keeps_renewals: "preserves (\<lambda>s. es_run s = c) run_renewals"
  by (rule validI) (auto simp: run_renewals_def split: if_splits prod.splits)

lemma keeps_release: "preserves (\<lambda>s. es_run s = c) releaseLock"
proof -
  have "preserves (\<lambda>s. es_run s = c) (on_state m)" for m :: "arch_run \<Rightarrow> unit act"
    by (rule validI) (auto simp: on_state_def split: prod.splits)
  then show ?thesis unfolding releaseLock_def by (intro op_rules keeps_renewals keeps_basic) simp_all
qed

lemma keeps_lock [run_rules]: "preserves not_succeeded run_renewals" "preserves not_succeeded releaseLock"
  by (rule validI, drule frameD [OF keeps_renewals], simp add: not_succeeded_def)
    (rule validI, drule frameD [OF keeps_release], simp add: not_succeeded_def)

lemma keeps_check [run_rules]: "preserves not_succeeded (check_renewals ag)" "preserves not_succeeded (force_gate ag)"
proof -
  show check: "preserves not_succeeded (check_renewals ag)" unfolding check_renewals_def by (intro run_rules op_rules)
  show "preserves not_succeeded (force_gate ag)" unfolding force_gate_def by (intro check run_rules op_rules)
qed

lemma verdict_on_ok [run_rules]:
  "preserves not_succeeded m \<Longrightarrow> (\<And>x. valid not_succeeded (f x) run_verdict) \<Longrightarrow> valid not_succeeded (on_ok m f) run_verdict"
  by (rule valid_on_ok [where R = "\<lambda>_. not_succeeded"]) (simp_all add: run_verdict_def not_succeeded_def)

lemma verdict_finish [run_rules]: "valid not_succeeded (release_and_succeed ag) run_verdict"
proof -
  have keep: "preserves (\<lambda>s. rn_Status (es_run s) = c) (on_state m)" for c and m :: "arch_run \<Rightarrow> unit act"
    by (rule validI) (auto simp: on_state_def split: prod.splits)
  have save: "valid (\<lambda>s. rn_Status (es_run s) = ArchitectureRunSucceeded) (ignore_error save_run) run_verdict"
  proof (rule validI)
    fix s r s'
    assume "rn_Status (es_run s) = ArchitectureRunSucceeded" "ignore_error save_run s = (r, s')"
    then show "run_verdict r s'"
      by (auto simp: ignore_error_def with_result_def save_run_def on_state_def run_verdict_def split: prod.splits)
  qed
  have sync: "valid (\<lambda>s. rn_Status (es_run s) = ArchitectureRunSucceeded) (syncArchitectureTrackingTask ag)
      (\<lambda>r s. is_ok r \<and> rn_Status (es_run s) = ArchitectureRunSucceeded)"
    by (rule validI) (auto simp: syncArchitectureTrackingTask_def on_state_def on_ok_def send_def Let_def)
  have "valid not_succeeded (succeedArchitectureRun ag) run_verdict"
    unfolding succeedArchitectureRun_def
  proof (rule valid_on_ok [where R = "\<lambda>r s. is_ok r \<and> rn_Status (es_run s) = ArchitectureRunSucceeded"])
    show "valid not_succeeded (set_run succeeded_run) (\<lambda>r s. is_ok r \<and> rn_Status (es_run s) = ArchitectureRunSucceeded)"
      unfolding set_run_def by (rule valid_modify) (simp add: succeeded_run_def)
    show "valid (\<lambda>s. is_ok (Inr x) \<and> rn_Status (es_run s) = ArchitectureRunSucceeded)
        (on_ok (syncArchitectureTrackingTask ag) (\<lambda>_. ignore_error save_run)) run_verdict" for x :: unit
      by (rule valid_on_ok [where R = "\<lambda>r s. is_ok r \<and> rn_Status (es_run s) = ArchitectureRunSucceeded"])
        (use sync save in \<open>simp_all\<close>)
  qed simp
  then show ?thesis unfolding release_and_succeed_def by (intro run_rules)
qed

lemma verdict_if [run_rules]: "valid P m Q \<Longrightarrow> valid P m' Q \<Longrightarrow> valid P (if c then m else m') Q"
  by simp

lemma verdict_failed [run_rules]: "valid not_succeeded (fail_run ag code e :: unit exec) run_verdict"
  unfolding fail_run_def
  by (rule valid_on_ok [where R = "\<lambda>_. not_succeeded"], intro run_rules)
    (auto intro!: valid_fail simp: run_verdict_def not_succeeded_def)

lemma keeps_parts [run_rules]:
  "preserves not_succeeded (vip_preflight ag req machines)" "preserves not_succeeded (freeze_business ag req nodes machines)"
  "preserves not_succeeded (drain_business ag req nodes machines)" "preserves not_succeeded (resume_business ag req machines)"
  "preserves not_succeeded (vip_check_step ag req machines)" "preserves not_succeeded (vip_verify_step ag machines)"
  "preserves not_succeeded (vip_move_step ag machines)" "preserves not_succeeded (verify_nodes ag req machines p)"
  "preserves not_succeeded (pt_verify_step ag req machines p)" "preserves not_succeeded (promote_step ag req machines p)"
  unfolding vip_preflight_def freeze_business_def drain_business_def resume_business_def vip_check_step_def vip_verify_step_def
    vip_move_step_def verify_nodes_def pt_verify_step_def promote_step_def
  by (intro run_rules)+

lemma keeps_ways [run_rules]:
  "preserves not_succeeded (vip_rebind ag req machines)" "preserves not_succeeded (convert_nodes ag kind req machines)"
  "preserves not_succeeded (split_from ag req machines current)" "preserves not_succeeded (freeze_independent ag req machines)"
  "preserves not_succeeded (align_step ag req machines c)" "preserves not_succeeded (repair_after_force ag req machines p)"
  unfolding vip_rebind_def convert_nodes_def split_from_def freeze_independent_def align_step_def repair_after_force_def resumeArchitectureRun_def
  by (intro run_rules op_rules)+

lemma keeps_elect [run_rules]: "preserves not_succeeded (elect_step ag req machines)"
  unfolding elect_step_def by (intro run_rules op_rules)

lemma keeps_fence [run_rules]: "preserves not_succeeded (fence_old ag req machines p)"
  unfolding fence_old_def by (intro run_rules op_rules)

lemma keeps_repoint [run_rules]: "preserves not_succeeded (repoint_replicas ag req machines p)"
  unfolding repoint_replicas_def by (intro run_rules op_rules)

lemma keeps_standalone [run_rules]: "preserves not_succeeded (executeStandaloneArchitecture ag req machines)"
  unfolding executeStandaloneArchitecture_def by (intro run_rules op_rules)

lemma keeps_privileges [run_rules]: "preserves not_succeeded (repair_privileges ag req machines)"
  unfolding repair_privileges_def by (intro run_rules op_rules)

lemma verdict_ways [run_rules]:
  "valid not_succeeded (execute_vip_only ag req machines) run_verdict" "valid not_succeeded (execute_conversion ag kind req machines) run_verdict"
  "valid not_succeeded (execute_standalone ag req machines) run_verdict" "valid not_succeeded (execute_switch ag req machines) run_verdict"
  unfolding execute_vip_only_def execute_conversion_def execute_standalone_def execute_switch_def resuming_def Let_def
  by (intro run_rules preserves_on_ok preserves_if)+

lemma verdict_body: "valid not_succeeded (execute_body ag req) run_verdict"
  unfolding execute_body_def execute_mysql_def by (intro run_rules)

lemma verdict_execution: "valid not_succeeded (execute_run ag req lockID) run_verdict"
proof -
  have "valid not_succeeded (with_result (execute_body ag req) (\<lambda>r. on_ok (ignore_error releaseLock) (\<lambda>_. case r of Inl e \<Rightarrow> fail_with e | Inr _ \<Rightarrow> ret ()))) run_verdict"
  proof (rule validI)
    fix s r s'
    assume s: "not_succeeded s" and run: "with_result (execute_body ag req) (\<lambda>r. on_ok (ignore_error releaseLock) (\<lambda>_. case r of Inl e \<Rightarrow> fail_with e | Inr _ \<Rightarrow> ret ())) s = (r, s')"
    obtain r0 v where body: "execute_body ag req s = (r0, v)" by (metis prod.collapse)
    obtain q u where rel: "releaseLock v = (q, u)" by (metis prod.collapse)
    from run body rel have "s' = u" "is_ok r = is_ok r0"
      by (auto simp: with_result_def ignore_error_def on_ok_def split: sum.splits)
    moreover have "es_run u = es_run v" by (rule frameD [OF keeps_release rel])
    ultimately show "run_verdict r s'" using validD [OF verdict_body s body] by (simp add: run_verdict_def)
  qed
  moreover have "preserves not_succeeded (modify (\<lambda>s. s\<lparr>es_released := False, es_renewed := w_clock (es_world s)\<rparr>))"
    by (rule valid_modify) (simp add: not_succeeded_def)
  ultimately show ?thesis unfolding execute_run_def by (intro run_rules verdict_body)
qed

subsection \<open>The scripts and the plan\<close>

text \<open>Up to a repair the operator has forced, the steps the plan names are run in the order of the plan; at most two steps
  are run that it does not name.\<close>

definition plan_order :: "string list \<Rightarrow> string list \<Rightarrow> bool" where
  "plan_order plan codes \<longleftrightarrow>
     subseq (filter (\<lambda>c. c \<in> set plan) (takeWhile (\<lambda>c. c \<noteq> ''pt_repair_on_failure'') codes)) plan \<and>
     set codes \<subseteq> set plan \<union> {''check_vip_conflict'', ''repair_management_privileges''}"

lemma prefix_filter_takeWhile: "prefix xs ys \<Longrightarrow> prefix (filter P (takeWhile Q xs)) (filter P (takeWhile Q ys))"
proof (induction xs arbitrary: ys)
  case (Cons x xs)
  then obtain zs where "ys = x # zs" "prefix xs zs" by (cases ys) auto
  with Cons.IH [of zs] show ?case by auto
qed simp

lemma plan_order_prefix: "plan_order plan script \<Longrightarrow> prefix codes script \<Longrightarrow> plan_order plan codes"
  unfolding plan_order_def
  by (meson prefix_filter_takeWhile prefix_imp_subseq set_mono_prefix subseq_order.trans subset_trans)

definition repaired :: "bool \<Rightarrow> string list \<Rightarrow> string list" where
  "repaired b plan = hd plan # (if b then [''repair_management_privileges''] else []) @ tl plan"

definition vip_only_plan :: "bool \<Rightarrow> string list" where
  "vip_only_plan initialize = [''acquire_lock'', ''preflight''] @
     (if initialize then [] else [''freeze_business_access'', ''drain_business_sessions'']) @
     [''check_vip_conflict'', ''withdraw_vip'', ''verify_zero_vip'', ''bind_vip'', ''verify_single_vip''] @
     (if initialize then [] else [''resume_business_connections'']) @ [''release_lock'']"

definition conversion_plan :: "bool \<Rightarrow> string list" where
  "conversion_plan move = [''acquire_lock'', ''preflight'', ''freeze_business_access'', ''drain_business_sessions'', ''wait_replication_zero'',
     ''reconfigure_topology'', ''verify_topology'', ''pt_verify_replication''] @
     (if move then [''check_vip_conflict'', ''move_vip'', ''verify_single_vip''] else []) @ [''resume_business_connections'', ''release_lock'']"

definition standalone_plan :: "string list" where
  "standalone_plan = [''acquire_lock'', ''preflight'', ''validate_independent_targets'', ''freeze_old_master'', ''kill_business_sessions'',
     ''wait_replication_zero'', ''pt_verify_before_split'', ''detach_replication'', ''verify_topology'', ''resume_business_connections'', ''release_lock'']"

definition switch_plan :: "bool \<Rightarrow> bool \<Rightarrow> string list" where
  "switch_plan independent move = [''acquire_lock'', ''preflight''] @
     (if independent then [''freeze_old_master'', ''kill_business_sessions'', ''elect_candidate'', ''align_replica_gtid'', ''promote_new_master'']
      else [''elect_candidate'', ''check_vip_conflict'', ''freeze_old_master'', ''kill_business_sessions'', ''wait_replication_zero'',
            ''force_gate'', ''fence_old_master'', ''promote_new_master'']) @
     [''repoint_replicas'', ''verify_topology'', ''pt_repair_on_failure'', ''pt_verify_replication''] @
     (if move then [''move_vip'', ''verify_single_vip''] else []) @ [''resume_business_connections'', ''release_lock'']"

definition needs_repair :: "arch_request \<Rightarrow> bool" where
  "needs_repair req \<longleftrightarrow> trim_space (ar_RootPassword req) \<noteq> [] \<and> ar_RootPasswords req = []"

lemma plan_codes_paths:
  "plan_codes req =
     (if ar_VIPOnly req then vip_only_plan (ar_InitializeVIP req)
      else if architectureTransitionKind req \<noteq> [] then conversion_plan (ar_MoveVIP req)
      else repaired (needs_repair req) (if ar_Architecture req = ArchitectureStandalone then standalone_plan
             else switch_plan (from_independent req) (ar_MoveVIP req)))"
  unfolding plan_codes_eq
  by (simp add: vip_only_steps_def vip_only_plan_def architectureConversionPlanSteps_def conversion_plan_def standalone_steps_def
    standalone_plan_def bootstrap_steps_def switch_steps_def vip_move_steps_def switch_plan_def repair_codes repaired_def needs_repair_def from_independent_def)

abbreviation "both \<equiv> [False, True]"

lemma vip_only_in_order: "\<forall>init \<in> set both. plan_order (vip_only_plan init) (vip_only_script init)"
  by code_simp

lemma conversion_in_order: "\<forall>move \<in> set both. \<forall>repair \<in> set both.
     plan_order (conversion_plan move) ((if repair then [''repair_management_privileges''] else []) @ [''preflight''] @ conversion_script move)"
  by code_simp

lemma standalone_in_order: "\<forall>named \<in> set both. \<forall>repair \<in> set both.
     plan_order (repaired repair standalone_plan) ((if repair then [''repair_management_privileges''] else []) @ [''preflight''] @ standalone_script named)"
  by code_simp

lemma switch_in_order: "\<forall>move \<in> set both. \<forall>repair \<in> set both. \<forall>named \<in> set both. \<forall>script \<in> set (switch_scripts False named move).
     plan_order (repaired repair (switch_plan False move)) ((if repair then [''repair_management_privileges''] else []) @ [''preflight''] @ script)"
  by code_simp

lemma bootstrap_in_order: "\<forall>move \<in> set both. \<forall>repair \<in> set both. \<forall>script \<in> set (switch_scripts True False move).
     plan_order (repaired repair (switch_plan True move)) ((if repair then [''repair_management_privileges''] else []) @ [''preflight''] @ script)"
  by code_simp

lemma scripts_in_plan_order:
  assumes "script \<in> set (run_scripts req)"
  shows "plan_order (plan_codes req) script"
proof -
  have both: "b \<in> set both" for b by (cases b) simp_all
  have repair: "repair_script req = (if needs_repair req then [''repair_management_privileges''] else [])"
    by (simp add: repair_script_def needs_repair_def)
  have named: "from_independent req \<Longrightarrow> \<not> ar_CurrentMasterMachineID req \<noteq> []" by (simp add: from_independent_def)
  show ?thesis
  proof (cases "ar_VIPOnly req")
    case True
    have "plan_order (vip_only_plan (ar_InitializeVIP req)) (vip_only_script (ar_InitializeVIP req))" using vip_only_in_order both by blast
    with assms True show ?thesis by (simp add: run_scripts_def plan_codes_paths)
  next
    case False
    with assms obtain s where s: "s \<in> set (mysql_scripts req)" "script = repair_script req @ [''preflight''] @ s" by (auto simp: run_scripts_def)
    show ?thesis
    proof (cases "architectureTransitionKind req \<noteq> []")
      case True
      have "plan_order (conversion_plan (ar_MoveVIP req))
          ((if needs_repair req then [''repair_management_privileges''] else []) @ [''preflight''] @ conversion_script (ar_MoveVIP req))"
        using conversion_in_order both by blast
      with s False True show ?thesis by (simp add: mysql_scripts_def plan_codes_paths repair)
    next
      case kind: False
      show ?thesis
      proof (cases "ar_Architecture req = ArchitectureStandalone")
        case True
        have "plan_order (repaired (needs_repair req) standalone_plan) ((if needs_repair req then [''repair_management_privileges''] else []) @
            [''preflight''] @ standalone_script (ar_CurrentMasterMachineID req \<noteq> []))"
          using standalone_in_order both by blast
        with s False kind True show ?thesis by (simp add: mysql_scripts_def plan_codes_paths repair)
      next
        case switch: False
        with s kind have s': "s \<in> set (switch_scripts (from_independent req) (ar_CurrentMasterMachineID req \<noteq> []) (ar_MoveVIP req))"
          by (simp add: mysql_scripts_def)
        have plan: "plan_codes req = repaired (needs_repair req) (switch_plan (from_independent req) (ar_MoveVIP req))"
          using False kind switch by (simp add: plan_codes_paths)
        show ?thesis
        proof (cases "from_independent req")
          case True
          with s' named have "s \<in> set (switch_scripts True False (ar_MoveVIP req))" by simp
          then have "plan_order (repaired (needs_repair req) (switch_plan True (ar_MoveVIP req)))
              ((if needs_repair req then [''repair_management_privileges''] else []) @ [''preflight''] @ s)"
            using bootstrap_in_order both by blast
          then show ?thesis using True unfolding s(2) plan repair by simp
        next
          case no: False
          then have "s \<in> set (switch_scripts False (ar_CurrentMasterMachineID req \<noteq> []) (ar_MoveVIP req))" using s' by simp
          then have "plan_order (repaired (needs_repair req) (switch_plan False (ar_MoveVIP req)))
              ((if needs_repair req then [''repair_management_privileges''] else []) @ [''preflight''] @ s)"
            using switch_in_order both by blast
          then show ?thesis using no unfolding s(2) plan repair by simp
        qed
      qed
    qed
  qed
qed

text \<open>C5: The steps a run records are those of one way through the execution, all of them exactly when the run ends as a
  success; as far as the plan names them they come in the order of the plan that was shown, until a repair that
  the operator has forced, and at most the VIP check and the repair of the privileges are not in the plan.\<close>

theorem run_follows_plan:
  assumes "executeArchitectureAdjustment ag run req lockID w = (Inr run', w')"
    and "rn_StepResults run = []" and "rn_Status run \<noteq> ArchitectureRunSucceeded"
  defines "codes \<equiv> map sr_Code (rn_StepResults run')"
  shows "plan_order (map ps_Code (architecturePlanSteps req)) codes \<and>
     (\<exists>script \<in> set (run_scripts req). prefix codes script \<and> (rn_Status run' = ArchitectureRunSucceeded \<longrightarrow> codes = script))"
proof -
  let ?s = "\<lparr>es_world = w, es_run = run, es_released = True, es_renewed = 0, es_lock_error = None\<rparr>"
  obtain r s' where run: "execute_run ag req lockID ?s = (r, s')" by (metis prod.collapse)
  with assms(1) have run': "run' = es_run s'" by (simp add: executeArchitectureAdjustment_def)
  have start: "step_codes ?s = []" using assms(2) by (simp add: step_codes_def)
  from followsD [OF follows_run run] obtain obs where obs: "step_codes s' = obs"
    "if is_ok r then obs \<in> set (run_scripts req) else \<exists>script \<in> set (run_scripts req). prefix obs script" unfolding start by auto
  have codes: "codes = obs" using obs(1) run' by (simp add: codes_def step_codes_def)
  have "run_verdict r s'" using validD [OF verdict_execution _ run] assms(3) by (simp add: not_succeeded_def)
  then have "is_ok r \<longleftrightarrow> rn_Status run' = ArchitectureRunSucceeded" by (simp add: run_verdict_def run')
  with obs(2) codes have script: "\<exists>script \<in> set (run_scripts req). prefix codes script \<and> (rn_Status run' = ArchitectureRunSucceeded \<longrightarrow> codes = script)"
    by (cases "is_ok r") auto
  then show ?thesis using scripts_in_plan_order plan_order_prefix unfolding plan_codes_def by blast
qed

theorem run_follows_plan_witness:
  "\<exists>run' w'. executeArchitectureAdjustment (saying (\<lambda>_ _. ''u:1-7'')) sample_run switch_request [] held_world = (Inr run', w') \<and>
     plan_order (map ps_Code (architecturePlanSteps switch_request)) (map sr_Code (rn_StepResults run'))"
proof -
  obtain run' w' where run: "executeArchitectureAdjustment (saying (\<lambda>_ _. ''u:1-7'')) sample_run switch_request [] held_world = (Inr run', w')"
    by (simp add: executeArchitectureAdjustment_def split_def)
  have "rn_StepResults sample_run = []" "rn_Status sample_run \<noteq> ArchitectureRunSucceeded" by (simp_all add: sample_run_def)
  from run_follows_plan [OF run this] run show ?thesis by blast
qed

text \<open>The plan does not name every step of its run: a conversion between one and two masters with a root password repairs
  the management privileges, and a new cluster of independent nodes that moves a VIP checks for its holders.\<close>

theorem unplanned_steps:
  "(\<exists>req. architectureTransitionKind req \<noteq> [] \<and> ''repair_management_privileges'' \<notin> set (plan_codes req) \<and>
      list_all (\<lambda>script. ''repair_management_privileges'' \<in> set script) (run_scripts req)) \<and>
   (\<exists>req. from_independent req \<and> ''check_vip_conflict'' \<notin> set (plan_codes req) \<and>
      list_all (\<lambda>script. ''check_vip_conflict'' \<in> set script) (run_scripts req))"
proof
  let ?convert = "switch_request\<lparr>ar_Architecture := ArchitectureDualMaster, ar_RootPassword := ''secret''\<rparr>"
  have "architectureTransitionKind ?convert \<noteq> [] \<and> ''repair_management_privileges'' \<notin> set (plan_codes ?convert) \<and>
      list_all (\<lambda>script. ''repair_management_privileges'' \<in> set script) (run_scripts ?convert)"
    by code_simp
  then show "\<exists>req. architectureTransitionKind req \<noteq> [] \<and> ''repair_management_privileges'' \<notin> set (plan_codes req) \<and>
      list_all (\<lambda>script. ''repair_management_privileges'' \<in> set script) (run_scripts req)" by blast
  let ?new = "switch_request\<lparr>ar_CurrentMasterMachineID := [], ar_MoveVIP := True\<rparr>"
  have "from_independent ?new \<and> ''check_vip_conflict'' \<notin> set (plan_codes ?new) \<and>
      list_all (\<lambda>script. ''check_vip_conflict'' \<in> set script) (run_scripts ?new)"
    by code_simp
  then show "\<exists>req. from_independent req \<and> ''check_vip_conflict'' \<notin> set (plan_codes req) \<and>
      list_all (\<lambda>script. ''check_vip_conflict'' \<in> set script) (run_scripts req)" by blast
qed

end
