(* ===== verification/Arch_Invariant.thy ===== *)
theory Arch_Invariant
  imports Arch_Execute VIP_Config
begin

text \<open>
  What the start and the execution of an architecture run leave alone. The locale names the changes they make to
  the world: calls to the agents, the clock, the cluster lock, binding states, the operation log, default policies and
  the run's own row. An invariant stable under these holds before and after every operation of the run, with a condition
  on the run that depends on its request. The lemmas follow the code's structure and are collected in \<open>exec_rules\<close>.
\<close>

named_theorems exec_rules \<open>operations that keep an invariant of executions\<close>

definition run_call :: "(arch_run \<Rightarrow> bool) \<Rightarrow> agent_call \<Rightarrow> bool" where
  "run_call R call = (case call of CreateRunTask run \<Rightarrow> R run | SyncRunTask run \<Rightarrow> R run
     | TrackingTask _ _ _ \<Rightarrow> True | FinalizeTracking _ _ _ \<Rightarrow> True | ExecTask _ _ _ _ _ _ _ \<Rightarrow> True
     | AttachTasks _ _ \<Rightarrow> True | RedactCommand _ \<Rightarrow> True | _ \<Rightarrow> False)"

lemma run_call_simps [simp]:
  "run_call R (CreateRunTask run) = R run" "run_call R (SyncRunTask run) = R run"
  "run_call R (TrackingTask a b c)" "run_call R (FinalizeTracking a d e)" "run_call R (ExecTask a b c f g h i)"
  "run_call R (AttachTasks a xs)" "run_call R (RedactCommand a)"
  by (simp_all add: run_call_def)

lemma inv_basic [exec_rules]: "preserves J (ret x)" "preserves J (fail_with e)" "preserves J (gets h)"
  by (auto intro: op_rules)

lemma inv_map_error [exec_rules]: "preserves J m \<Longrightarrow> preserves J (map_error f m)"
  unfolding map_error_def by (intro op_rules inv_basic)

lemma inv_ignore [exec_rules]: "preserves J m \<Longrightarrow> preserves J (ignore_error m)"
  unfolding ignore_error_def by (intro op_rules inv_basic)

lemma inv_of_result [exec_rules]: "preserves J (of_result r)"
  unfolding of_result_def by (intro op_rules inv_basic)

locale execution_invariant =
  fixes I :: "world \<Rightarrow> bool" and R :: "arch_run \<Rightarrow> bool"
  assumes faults: "I w \<Longrightarrow> I (w\<lparr>w_faults := fs\<rparr>)"
    and call: "I w \<Longrightarrow> run_call R call \<Longrightarrow> I (w\<lparr>w_agent_log := w_agent_log w @ [(call, r)], w_clock := t\<rparr>)"
    and waiting: "I w \<Longrightarrow> I (w\<lparr>w_clock := t, w_operator := evs\<rparr>)"
    and locks: "I w \<Longrightarrow> I (w\<lparr>w_locks := tab\<rparr>)"
    and bindings: "I w \<Longrightarrow> I (upsert_binding_row st w)"
    and oplog: "I w \<Longrightarrow> I (w\<lparr>w_oplog := rows\<rparr>)"
    and policies: "I w \<Longrightarrow> I (w\<lparr>w_policies := p, w_networks := n\<rparr>)"
    and row: "I w \<Longrightarrow> R run \<Longrightarrow> I (upsert_run_row run w)"
    and stored: "I w \<Longrightarrow> x \<in> set (w_runs w) \<Longrightarrow> R (snd x)"
    and same_request: "rn_Request a = rn_Request b \<Longrightarrow> R a = R b"
    and new_request: "R (new_run newid cid plan req now)"
begin

abbreviation state_inv :: "exec_state \<Rightarrow> bool" where
  "state_inv \<equiv> \<lambda>s. R (es_run s) \<and> I (es_world s)"

abbreviation cmd_inv :: "world \<times> string list \<Rightarrow> bool" where
  "cmd_inv \<equiv> \<lambda>s. I (fst s)"

lemma stable [exec_rules]: "db_stable I"
  by (rule db_stableI) (rule faults)

lemma inv_send: "run_call R call \<Longrightarrow> preserves I (send ag call)"
  by (rule validI) (auto simp: send_def Let_def intro: call)

lemma inv_query [exec_rules]: "preserves I (query f)"
  by (intro op_rules exec_rules)

lemma inv_lock [exec_rules]: "preserves I (lock_statement f)"
  unfolding lock_statement_def
  by (intro preserves_on_ok preserves_db_call exec_rules) (rule validI, auto split: sum.splits intro: locks)

lemma inv_reads [exec_rules]:
  "preserves I (ListVIPConfigs cid)" "preserves I machines_List" "preserves I (machines_GetByID mid)"
  "preserves I instances_List" "preserves I (instances_Get mid port)" "preserves I presets_List" "preserves I (GetArchitectureRun cid rid)"
  "preserves I (GetVIPBindingStates cid)"
  unfolding ListVIPConfigs_def machines_List_def machines_GetByID_def instances_List_def instances_Get_def presets_List_def
    GetArchitectureRun_def GetVIPBindingStates_def
  by (intro exec_rules)+

lemma inv_locks [exec_rules]:
  "preserves I (AcquireFailoverLock cid fid own ttl)" "preserves I (ReleaseFailoverLock cid fid)" "preserves I (renewals cid fid t)"
proof -
  have "preserves I (renew_at cid fid t)" for t
    unfolding renew_at_def
    by (intro preserves_on_ok preserves_db_call exec_rules) (rule validI, auto split: sum.splits intro: locks)
  then show "preserves I (renewals cid fid t)" unfolding renewals_def by (intro op_rules exec_rules)
qed (unfold AcquireFailoverLock_def ReleaseFailoverLock_def, (intro exec_rules)+)

lemma inv_account [exec_rules]: "preserves I architectureManagementAccount"
  unfolding architectureManagementAccount_def Let_def by (intro op_rules exec_rules)

lemma inv_writes [exec_rules]: "preserves I (UpsertVIPBindingState st)" "preserves I (InsertVIPOperationLog lrow)"
  unfolding UpsertVIPBindingState_def InsertVIPOperationLog_def
  by (intro preserves_statement exec_rules; simp add: bindings oplog)+

lemma inv_machines [exec_rules]:
  "preserves I (architectureMachines req)" "preserves I (addClusterMachines cid target)" "preserves I (allClusterVIPMachines cid selected)"
  unfolding architectureMachines_def addClusterMachines_def allClusterVIPMachines_def Let_def by (intro op_rules exec_rules)+

lemma inv_save: "R run \<Longrightarrow> preserves I (SaveArchitectureRun run)"
  unfolding SaveArchitectureRun_def by (intro preserves_statement exec_rules row)

subsection \<open>Scans\<close>

lemma inv_in_world: "preserves I m \<Longrightarrow> preserves (\<lambda>s. I (fst s)) (in_world m)"
  by (rule validI) (auto simp: in_world_def split: prod.splits dest: validD)

lemma inv_scan [exec_rules]: "preserves I (Scan tasks cid)"
proof -
  have counts: "preserves (\<lambda>s. I (fst s)) count_created" "preserves (\<lambda>s. I (fst s)) count_failed"
    unfolding count_created_def count_failed_def by (rule valid_modify, auto)+
  have "preserves (\<lambda>s. I (fst s)) (scan_machine ag parent vip m holders)" for ag parent vip m holders
    unfolding scan_machine_def Let_def by (intro op_rules inv_in_world inv_send counts inv_basic) simp_all
  then have body: "preserves (\<lambda>s. I (fst s)) (scan_body ag cid configs machines parent)" for ag configs machines parent
    unfolding scan_body_def scan_config_def Let_def by (intro op_rules inv_in_world exec_rules) auto
  have "preserves I (with_counts ag parent (scan_body ag cid configs machines parent))" for ag parent configs machines
  proof (rule validI)
    fix w r w'
    assume w: "I w" and run: "with_counts ag parent (scan_body ag cid configs machines parent) w = (r, w')"
    obtain q v a b where b: "scan_body ag cid configs machines parent (w, 0, 0) = (q, v, a, b)" by (metis prod.collapse)
    have "I v" using validD [OF body _ b] w by simp
    then have "I (snd (send ag (FinalizeTracking parent a b) v))" by (simp add: send_def Let_def call)
    with run b show "I w'" by (simp add: with_counts_def split: prod.splits)
  qed
  then show ?thesis unfolding Scan_def by (intro op_rules exec_rules inv_send) simp_all
qed

subsection \<open>Commands\<close>

lemma inv_on_world [exec_rules]: "preserves I m \<Longrightarrow> preserves cmd_inv (on_world m)"
  by (rule validI) (auto simp: on_world_def split: prod.splits dest: validD)

lemma inv_probe [exec_rules]: "preserves cmd_inv (probe ag m c)"
proof -
  have "preserves I (runOneArchitectureProbe ag m c)"
    unfolding runOneArchitectureProbe_def Let_def step_call_def
    by (intro op_rules inv_basic inv_send) simp_all
  moreover have "preserves cmd_inv (note_task tid)" for tid
    unfolding note_task_def by (rule valid_modify) (simp add: split_def)
  ultimately show ?thesis unfolding probe_def by (intro op_rules exec_rules)
qed

lemma inv_commands [exec_rules]:
  "preserves cmd_inv (runOneArchitectureCommand ag m c)" "preserves cmd_inv (on_node ag req machines f node)"
  "preserves cmd_inv (on_nodes ag req nodes machines f)" "preserves cmd_inv (kill_on ag req machines node)"
  "preserves cmd_inv (runOnArchitectureNodes ag nodes machines g)"
  unfolding runOneArchitectureCommand_def on_node_def on_nodes_def kill_on_def runOnArchitectureNodes_def
  by (intro op_rules exec_rules)+

lemma inv_probe_holders [exec_rules]: "preserves cmd_inv (probe_holders ag vip ms holders)"
  by (induction ms arbitrary: holders) (auto intro!: op_rules exec_rules)

lemma inv_vip_basics [exec_rules]:
  "preserves cmd_inv (probeArchitectureVIPHolders ag vip machines)"
  "(\<And>hs. preserves cmd_inv (f hs)) \<Longrightarrow> preserves cmd_inv (on_holders ag vip machines f)"
  "(\<And>cs ms. preserves cmd_inv (g cs ms)) \<Longrightarrow> preserves cmd_inv (vips_and_machines cid selected g)"
  unfolding probeArchitectureVIPHolders_def on_holders_def vips_and_machines_def
  by (intro op_rules exec_rules | assumption)+

lemma inv_vip_steps [exec_rules]:
  "preserves cmd_inv (checkArchitectureVIPConflict ag run req selected)" "preserves cmd_inv (verifyArchitectureVIPZero ag run selected)"
  "preserves cmd_inv (withdrawArchitectureVIP ag run selected)" "preserves cmd_inv (bindArchitectureVIP ag run selected)"
  "preserves cmd_inv (verifyArchitectureVIP ag run selected)" "preserves cmd_inv (moveArchitectureVIP ag run selected)"
  unfolding checkArchitectureVIPConflict_def check_vip_holders_def verifyArchitectureVIPZero_def check_vip_zero_def withdrawArchitectureVIP_def
    withdraw_vip_on_def bindArchitectureVIP_def bind_vip_on_def verifyArchitectureVIP_def check_vip_on_def moveArchitectureVIP_def move_vip_def
    move_withdraw_on_def two_rounds_def finish_move_def Let_def
  by (intro op_rules exec_rules)+

lemma inv_election [exec_rules]:
  "preserves cmd_inv (electLiveArchitectureCandidate ag cid req machines)" "preserves cmd_inv (alignIndependentReplicaGTID ag req best machines)"
  "preserves cmd_inv (validateLiveIndependentTargets ag req machines)"
  unfolding electLiveArchitectureCandidate_def election_probe_def alignIndependentReplicaGTID_def align_node_def
    validateLiveIndependentTargets_def Let_def
  by (intro op_rules exec_rules)+

lemma inv_topology [exec_rules]:
  "preserves cmd_inv (configureStandaloneArchitecture ag req machines)" "preserves cmd_inv (restoreIndependentWriters ag req machines)"
  "preserves cmd_inv (resumeArchitectureBusinessConnections ag req machines)"
  "preserves cmd_inv (repairArchitectureManagementPrivileges ag req machines user password)"
  "preserves cmd_inv (configureArchitectureTopology ag req primary machines)" "preserves cmd_inv (verifyArchitectureDataWithPT ag req primary machines)"
  unfolding configureStandaloneArchitecture_def restoreIndependentWriters_def resumeArchitectureBusinessConnections_def
    repairArchitectureManagementPrivileges_def configureArchitectureTopology_def create_replication_account_def configure_replica_def
    verifyArchitectureDataWithPT_def install_pt_def verify_pt_on_def Let_def
  by (intro op_rules exec_rules)+

lemma inv_repair [exec_rules]: "preserves cmd_inv (repairArchitectureReplication ag req primary machines)"
  unfolding repairArchitectureReplication_def on_replicas_def install_pt_def by (intro op_rules exec_rules)

subsection \<open>Steps\<close>

lemma inv_set_run: "(\<And>now run. rn_Request (f now run) = rn_Request run) \<Longrightarrow> preserves state_inv (set_run f)"
  unfolding set_run_def by (rule valid_modify) (auto intro: same_request [THEN iffD1, rotated])

lemma inv_on_state:
  assumes "\<And>run. R run \<Longrightarrow> preserves I (m run)"
  shows "preserves state_inv (on_state m)"
proof (rule validI)
  fix s r s'
  assume s: "state_inv s" and run: "on_state m s = (r, s')"
  obtain q v where m: "m (es_run s) (es_world s) = (q, v)" by (metis prod.collapse)
  have "I v" using validD [OF assms _ m] s by simp
  with s run m show "state_inv s'" by (auto simp: on_state_def )
qed

lemma inv_saving [exec_rules]: "preserves state_inv save_run" "preserves state_inv (syncArchitectureTrackingTask ag)"
  unfolding save_run_def syncArchitectureTrackingTask_def
  by (intro inv_on_state inv_save, assumption) (intro inv_on_state op_rules inv_send inv_basic, simp)

lemma inv_marks [exec_rules]:
  "preserves state_inv (set_run (started_run code))" "preserves state_inv (set_run (finished_run ids))"
  "preserves state_inv (set_run (step_failed e))" "preserves state_inv (set_run step_succeeded)"
  "preserves state_inv (set_run (failed_run code e))" "preserves state_inv (set_run resumed_run)"
  "preserves state_inv (set_run waiting_run)" "preserves state_inv (set_run forced_run)"
  "preserves state_inv (set_run (selected_run c))" "preserves state_inv (set_run running_run)" "preserves state_inv (set_run succeeded_run)"
  by (rule inv_set_run; simp add: started_run_def finished_run_def step_failed_def step_succeeded_def failed_run_def resumed_run_def
    waiting_run_def forced_run_def selected_run_def running_run_def succeeded_run_def)+

lemma inv_ends [exec_rules]:
  "preserves state_inv (failArchitectureRun ag code e)" "preserves state_inv (fail_run ag code e)"
  "preserves state_inv (succeedArchitectureRun ag)" "preserves state_inv resumeArchitectureRun"
  unfolding failArchitectureRun_def fail_run_def succeedArchitectureRun_def resumeArchitectureRun_def
  by (intro exec_rules op_rules)+

lemma inv_collect: "preserves cmd_inv m \<Longrightarrow> preserves I (collect m)"
  by (rule validI) (auto simp: collect_def split: prod.splits dest!: validD [where w = "(w, [])" for w])

lemma inv_attach: "preserves I (attach_tasks ag run p)"
  unfolding attach_tasks_def by (intro op_rules inv_basic inv_send) simp

lemma inv_step [exec_rules]:
  assumes "\<And>run. preserves cmd_inv (m run)"
  shows "preserves state_inv (runArchitectureStep ag code m)"
  unfolding runArchitectureStep_def
  by (intro op_rules exec_rules inv_on_state inv_collect inv_attach assms)

lemma inv_aside [exec_rules]: "preserves cmd_inv m \<Longrightarrow> preserves state_inv (aside m)"
  unfolding aside_def by (intro inv_on_state op_rules inv_collect inv_basic)

lemma inv_control [exec_rules]:
  "preserves state_inv m \<Longrightarrow> preserves state_inv (or_fail ag code m)"
  "preserves state_inv m' \<Longrightarrow> preserves state_inv h \<Longrightarrow> preserves state_inv (on_error m' h)"
  unfolding or_fail_def on_error_def by (intro op_rules exec_rules | assumption)+

lemma inv_renewals [exec_rules]: "preserves state_inv run_renewals"
proof (rule validI)
  fix s r s'
  assume s: "state_inv s" and run: "run_renewals s = (r, s')"
  obtain q v where ren: "renewals (rn_ClusterID (es_run s)) (rn_RunID (es_run s)) (es_renewed s) (es_world s) = (q, v)" by (metis prod.collapse)
  have "I v" using validD [OF inv_locks(3) _ ren] s by simp
  with s run ren show "state_inv s'" by (auto simp: run_renewals_def  split: if_splits)
qed

lemma inv_release [exec_rules]:
  "preserves state_inv releaseLock" "preserves state_inv (check_renewals ag)" "preserves state_inv (release_and_succeed ag)"
proof -
  have released: "preserves state_inv (modify (\<lambda>s. s\<lparr>es_released := True\<rparr>))" by (rule valid_modify) simp
  show r: "preserves state_inv releaseLock" unfolding releaseLock_def by (intro op_rules exec_rules inv_on_state released) simp
  show "preserves state_inv (check_renewals ag)" unfolding check_renewals_def by (intro op_rules exec_rules)
  show "preserves state_inv (release_and_succeed ag)" unfolding release_and_succeed_def by (intro op_rules exec_rules r)
qed

subsection \<open>Executions\<close>

text \<open>A confirmation stores the run it read, with two fields changed.\<close>

lemma inv_confirm: "preserves I (ConfirmArchitectureForce cid rid)"
proof (rule validI)
  fix w r w'
  assume w: "I w" and run: "ConfirmArchitectureForce cid rid w = (r, w')"
  obtain q v where get: "GetArchitectureRun cid rid w = (q, v)" by (metis prod.collapse)
  have v: "I v" using validD [OF inv_reads(7) w get] .
  have stored_run_ok: "R run" if "q = Inr (Some run)" for run
  proof -
    from get that have "\<exists>x \<in> set (w_runs w). run = snd x"
      unfolding GetArchitectureRun_def by (cases rule: query_cases) (auto simp: find_Some_iff, metis nth_mem snd_conv)
    with stored [OF w] show ?thesis by auto
  qed
  show "I w'"
  proof (cases q)
    case (Inl e)
    with run get v show ?thesis by (simp add: ConfirmArchitectureForce_def on_ok_def)
  next
    case (Inr found)
    show ?thesis
    proof (cases found)
      case None
      with run get v Inr show ?thesis by (simp add: ConfirmArchitectureForce_def on_ok_def)
    next
      case (Some x)
      let ?x = "x\<lparr>rn_ForceConfirmed := True, rn_UpdatedAt := w_clock v\<rparr>"
      have "R ?x" using stored_run_ok Inr Some by (auto intro: same_request [THEN iffD1, rotated])
      from inv_save [OF this] v have "I (snd (SaveArchitectureRun ?x v))" by (metis prod.collapse validD)
      with run get v Inr Some show ?thesis
        by (auto simp: ConfirmArchitectureForce_def on_ok_def Let_def split: if_splits prod.splits sum.splits)
    qed
  qed
qed

lemma inv_wait: "preserves I (wait_force cid rid evs)"
proof (induction evs)
  case (Cons ev evs)
  have tick: "preserves I (modify (\<lambda>w. w\<lparr>w_clock := w_clock w + second, w_operator := evs\<rparr>))"
    by (rule valid_modify) (rule waiting)
  have acts: "preserves I (operator_acts ev)"
    unfolding operator_acts_def by (cases ev) (auto intro!: exec_rules inv_confirm)
  show ?case unfolding wait_force.simps by (intro op_rules inv_basic tick acts exec_rules Cons.IH)
next
  case Nil
  show ?case unfolding wait_force.simps by (rule inv_basic)
qed

lemma inv_gate [exec_rules]: "preserves state_inv (force_gate ag)"
  unfolding force_gate_def waitArchitectureForce_def by (intro op_rules exec_rules inv_on_state inv_wait)

lemma inv_parts [exec_rules]:
  "preserves state_inv (vip_preflight ag req machines)" "preserves state_inv (freeze_business ag req nodes machines)"
  "preserves state_inv (drain_business ag req nodes machines)" "preserves state_inv (resume_business ag req machines)"
  "preserves state_inv (vip_check_step ag req machines)" "preserves state_inv (vip_verify_step ag machines)"
  "preserves state_inv (vip_move_step ag machines)" "preserves state_inv (verify_nodes ag req machines p)"
  "preserves state_inv (pt_verify_step ag req machines p)" "preserves state_inv (promote_step ag req machines p)"
  unfolding vip_preflight_def freeze_business_def drain_business_def resume_business_def vip_check_step_def vip_verify_step_def
    vip_move_step_def verify_nodes_def pt_verify_step_def promote_step_def
  by (intro op_rules exec_rules)+

lemma inv_ways [exec_rules]:
  "preserves state_inv (vip_rebind ag req machines)" "preserves state_inv (convert_nodes ag kind req machines)"
  "preserves state_inv (split_from ag req machines current)" "preserves state_inv (freeze_independent ag req machines)"
  "preserves state_inv (align_step ag req machines c)" "preserves state_inv (repair_after_force ag req machines p)"
  "preserves state_inv (elect_step ag req machines)" "preserves state_inv (fence_old ag req machines p)"
  unfolding vip_rebind_def convert_nodes_def split_from_def freeze_independent_def align_step_def repair_after_force_def elect_step_def fence_old_def
  by (intro op_rules exec_rules)+

lemma inv_executions [exec_rules]:
  "preserves state_inv (repoint_replicas ag req machines p)" "preserves state_inv (executeStandaloneArchitecture ag req machines)"
  "preserves state_inv (repair_privileges ag req machines)"
  unfolding repoint_replicas_def executeStandaloneArchitecture_def repair_privileges_def
  by (intro op_rules exec_rules inv_on_state)+

lemma inv_resuming [exec_rules]: "preserves state_inv m \<Longrightarrow> preserves state_inv (resuming ag req machines m)"
  unfolding resuming_def by (intro exec_rules)

lemma inv_vip_only: "preserves state_inv (execute_vip_only ag req machines)"
  unfolding execute_vip_only_def by (intro op_rules exec_rules)

lemma inv_convert: "preserves state_inv (execute_conversion ag kind req machines)"
  unfolding execute_conversion_def by (intro op_rules exec_rules)

lemma inv_standalone: "preserves state_inv (execute_standalone ag req machines)"
  unfolding execute_standalone_def by (intro op_rules exec_rules)

lemma inv_switch: "preserves state_inv (execute_switch ag req machines)"
  unfolding execute_switch_def Let_def by (intro op_rules exec_rules)

lemma inv_mysql: "preserves state_inv (execute_mysql ag req machines)"
  unfolding execute_mysql_def by (intro op_rules exec_rules inv_convert inv_standalone inv_switch)

lemma inv_body [exec_rules]: "preserves state_inv (execute_body ag req)"
  unfolding execute_body_def by (intro op_rules exec_rules inv_on_state inv_mysql inv_vip_only)

lemma inv_run: "preserves state_inv (execute_run ag req lockID)"
proof -
  have taken: "preserves state_inv (modify (\<lambda>s. s\<lparr>es_released := False, es_renewed := w_clock (es_world s)\<rparr>))"
    by (rule valid_modify) simp
  show ?thesis unfolding execute_run_def by (intro op_rules exec_rules inv_on_state taken) simp
qed

lemma inv_execute: "R run \<Longrightarrow> preserves I (executeArchitectureAdjustment ag run req lockID)"
proof (rule validI)
  fix w r w'
  assume run: "R run" and w: "I w" and exec: "executeArchitectureAdjustment ag run req lockID w = (r, w')"
  let ?s = "\<lparr>es_world = w, es_run = run, es_released = True, es_renewed = 0, es_lock_error = None\<rparr>"
  obtain q s' where body: "execute_run ag req lockID ?s = (q, s')" by (metis prod.collapse)
  have "state_inv s'" by (rule validD [OF inv_run _ body]) (simp add: w run)
  with exec body show "I w'" by (simp add: executeArchitectureAdjustment_def)
qed

lemma inv_policy: "preserves I (GetNetworkPolicy c)"
  by (rule preserves_policies) (rule exec_rules, rule policies)

lemma inv_plan: "preserves I (PlanArchitectureAdjustment tasks planID cid req)"
proof -
  have finish: "preserves I (finish_plan nt c req plan)" for nt c plan
    unfolding finish_plan_def Let_def by (intro op_rules exec_rules inv_policy)
  show ?thesis unfolding PlanArchitectureAdjustment_def Let_def by (intro op_rules exec_rules finish)
qed

lemma inv_started:
  assumes "I w" and start: "startArchitectureAdjustment ag channels planID newid cid req0 w = (r, w')"
  shows "I w' \<and> (\<forall>run req. r = Inr (run, req) \<longrightarrow> R run)"
proof -
  have run: "R (new_run newid cid plan req now)" for plan req now
    by (rule new_request)
  have account: "preserves I (with_account req0)" unfolding with_account_def Let_def by (intro op_rules exec_rules)
  let ?create = "\<lambda>x q. on_ok (send ag (CreateRunTask x)) (\<lambda>r. case rp_Create r of
        Inl e \<Rightarrow> fail_with (Wrap ''create architecture tracking task: %w'' [] e) | Inr _ \<Rightarrow> ret (x, q))"
  let ?start = "\<lambda>q plan. if \<not> pl_Executable plan
       then fail_with (Errorf ''architecture plan is blocked: %s'' [join ''; '' (pl_BlockingReasons plan)])
       else on_ok (gets w_clock) (\<lambda>now. let x = new_run newid cid plan q now in on_ok (SaveArchitectureRun x) (\<lambda>_. ?create x q))"
  let ?Q = "\<lambda>(r :: (arch_run \<times> arch_request) result) w. I w \<and> (\<forall>run req. r = Inr (run, req) \<longrightarrow> R run)"
  have create: "valid I (?create x q) ?Q" if "R x" for x q
    using that by (intro valid_on_ok [OF inv_send]) (auto split: sum.splits intro: valid_ret valid_fail)
  have "valid I (?start q plan) ?Q" for q plan
    unfolding Let_def
  proof (cases "pl_Executable plan")
    case True
    have "valid I (on_ok (gets w_clock) (\<lambda>now. on_ok (SaveArchitectureRun (new_run newid cid plan q now)) (\<lambda>_. ?create (new_run newid cid plan q now) q))) ?Q"
      by (rule valid_on_ok [where R = "\<lambda>_. I"], rule valid_gets, assumption,
        rule valid_on_ok [OF inv_save [OF run]], rule create [OF run]) simp_all
    with True show "valid I (if \<not> pl_Executable plan
       then fail_with (Errorf ''architecture plan is blocked: %s'' [join ''; '' (pl_BlockingReasons plan)])
       else on_ok (gets w_clock) (\<lambda>now. on_ok (SaveArchitectureRun (new_run newid cid plan q now)) (\<lambda>_. ?create (new_run newid cid plan q now) q))) ?Q"
      by (simp only: not_True_eq_False if_False)
  qed (auto intro: valid_fail)
  then have "valid I (startArchitectureAdjustment ag channels planID newid cid req0) ?Q"
    unfolding startArchitectureAdjustment_def
    by (intro valid_on_ok [OF account] valid_on_ok [OF inv_plan]) simp_all
  from validD [OF this assms] show ?thesis .
qed

lemma inv_adjustment: "preserves I (StartArchitectureAdjustment ag channels planID newid cid req)"
proof (rule validI)
  fix w r w'
  assume w: "I w" and "StartArchitectureAdjustment ag channels planID newid cid req w = (r, w')"
  from this(2) show "I w'"
    unfolding StartArchitectureAdjustment_def
  proof (cases rule: on_ok_cases)
    case err
    then show ?thesis using inv_started [OF w] by blast
  next
    case (ok x v)
    obtain run q where x: "x = (run, q)" by (cases x)
    have v: "I v" "R run" using inv_started [OF w ok(1)] by (simp_all add: x)
    have "preserves I (on_ok (executeArchitectureAdjustment ag run q []) (\<lambda>_. ret run))"
      by (intro op_rules inv_execute v inv_basic)
    from validD [OF this v(1)] ok(2) show ?thesis by (simp add: x)
  qed
qed

end

end
