(* ===== verification/Arch_Guard.thy ===== *)
theory Arch_Guard
  imports Arch_Invariant Arch_Choice
begin

text \<open>
  Two promises of the runs: the credentials of a request reach neither the stored runs nor the tracking tasks, and
  a run whose cluster lock is held by another execution sends nothing to the nodes.
\<close>

subsection \<open>Credentials\<close>

definition no_secrets :: "arch_run \<Rightarrow> bool" where
  "no_secrets run \<longleftrightarrow> ar_RootPassword (rn_Request run) = [] \<and> ar_RootPasswords (rn_Request run) = [] \<and>
     ar_ReplicationPassword (rn_Request run) = []"

definition clean_call :: "agent_call \<Rightarrow> bool" where
  "clean_call call = (case call of CreateRunTask run \<Rightarrow> no_secrets run | SyncRunTask run \<Rightarrow> no_secrets run | _ \<Rightarrow> True)"

definition clean :: "world \<Rightarrow> bool" where
  "clean w \<longleftrightarrow> (\<forall>(cid, run) \<in> set (w_runs w). no_secrets run) \<and> (\<forall>(call, r) \<in> set (w_agent_log w). clean_call call)"

lemma unset_credentials:
  "no_secrets (new_run newid cid plan req now)" "no_secrets run \<Longrightarrow> no_secrets (stored_run run)"
  by (simp_all add: no_secrets_def new_run_def safe_request_def stored_run_def stored_request_def)

interpretation credentials: execution_invariant clean no_secrets
proof
  show "clean (upsert_run_row run w)" if "clean w" "no_secrets run" for w run
    using that by (auto simp: clean_def upsert_run_row_def unset_credentials)
  show "no_secrets a = no_secrets b" if "rn_Request a = rn_Request b" for a b
    using that by (simp add: no_secrets_def)
qed (auto simp: clean_def clean_call_def run_call_def upsert_binding_row_def Let_def unset_credentials split: agent_call.splits)

text \<open>C18: However an architecture adjustment ends, from the request to the end of its run, the three
  credential fields of the request, the root password, the root passwords and the replication password, are empty
  in every stored run and in every run handed to a tracking task.\<close>

theorem credentials_never_stored:
  assumes "clean w" and "StartArchitectureAdjustment ag channels planID newid cid req w = (r, w')"
  shows "clean w'"
  by (rule validD [OF credentials.inv_adjustment assms])

definition secret_request :: arch_request where
  "secret_request = switch_request\<lparr>ar_RootPassword := ''root'', ar_ReplicationUser := ''repl'', ar_ReplicationPassword := ''pw''\<rparr>"

theorem credentials_never_stored_witness:
  "\<exists>r w'. StartArchitectureAdjustment (saying (\<lambda>_ _. [])) capable_channels ''arch-1'' ''fo-1'' ''c1'' secret_request two_machine_world = (r, w') \<and>
     clean w'"
proof -
  obtain r w' where run:
    "StartArchitectureAdjustment (saying (\<lambda>_ _. [])) capable_channels ''arch-1'' ''fo-1'' ''c1'' secret_request two_machine_world = (r, w')"
    by (metis prod.collapse)
  have "clean w'" by (rule credentials_never_stored [OF _ run]) (simp add: clean_def two_machine_world_def empty_world_def)
  with run show ?thesis by blast
qed

subsection \<open>The cluster lock\<close>

lemma execution_returns: "\<exists>run' w'. executeArchitectureAdjustment ag run req lockID w = (Inr run', w')"
  by (auto simp: executeArchitectureAdjustment_def split: prod.splits)

definition at_rest :: "agent_log \<Rightarrow> lock_table \<Rightarrow> world \<Rightarrow> bool" where
  "at_rest log locks w \<longleftrightarrow> arch_steps w = log \<and> w_locks w = locks"

definition refused :: "agent_log \<Rightarrow> lock_table \<Rightarrow> string \<Rightarrow> exec_state \<Rightarrow> bool" where
  "refused log locks code s \<longleftrightarrow> at_rest log locks (es_world s) \<and> rn_Status (es_run s) = ArchitectureRunFailed \<and> rn_CurrentStep (es_run s) = code"

lemma preserves_on_state_world:
  assumes "\<And>run. preserves J (m run)"
  shows "preserves (\<lambda>s. J (es_world s) \<and> R (es_run s)) (on_state m)"
  by (rule validI) (auto simp: on_state_def split: prod.splits dest: validD [OF assms])

lemma at_rest_calls:
  "preserves (at_rest log locks) (SaveArchitectureRun run)" "preserves (at_rest log locks) (send ag (SyncRunTask run))"
proof -
  have "db_stable (at_rest log locks)" by (rule db_stableI) (simp add: at_rest_def arch_steps_def)
  then show "preserves (at_rest log locks) (SaveArchitectureRun run)"
    unfolding SaveArchitectureRun_def by (rule preserves_statement) (simp add: at_rest_def arch_steps_def upsert_run_row_def)
  show "preserves (at_rest log locks) (send ag (SyncRunTask run))"
    by (rule validI) (auto simp: send_def Let_def at_rest_def arch_steps_def is_step_simps)
qed

lemma failing_refused:
  "valid (\<lambda>s. at_rest log locks (es_world s)) (failArchitectureRun ag code err) (\<lambda>r s. refused log locks code s)"
proof -
  have mark: "valid (\<lambda>s. at_rest log locks (es_world s)) (set_run (failed_run code err)) (\<lambda>r s. refused log locks code s)"
    unfolding set_run_def by (rule valid_modify) (simp add: refused_def failed_run_def)
  have sync: "preserves (at_rest log locks) (on_ok (send ag (SyncRunTask run)) (\<lambda>_. ret ()))" for run
    by (intro op_rules at_rest_calls inv_basic)
  have "preserves (refused log locks code) (on_ok (syncArchitectureTrackingTask ag) (\<lambda>_. ignore_error save_run))"
    unfolding refused_def syncArchitectureTrackingTask_def save_run_def
    by (intro op_rules exec_rules preserves_on_state_world sync at_rest_calls)
  then show ?thesis unfolding failArchitectureRun_def by (intro valid_on_ok [OF mark]) simp_all
qed

lemma or_fail_error:
  assumes "m s = (Inl e, s1)" and "failArchitectureRun ag code e s1 = (r, s')"
  shows "snd (on_ok (or_fail ag code m) f s) = s'"
  using assms by (simp add: or_fail_def fail_run_def on_ok_def with_result_def split: sum.splits)

text \<open>The lock of a cluster is refused while any execution holds it with an unexpired lease.\<close>

lemma acquire_refused:
  assumes "w_locks w cid = Some row" and "lease_live (unix_sec (w_clock w)) (lr_expires_at row)"
  shows "\<exists>e fs. AcquireFailoverLock cid lid owner ttl w = (Inl e, w\<lparr>w_faults := fs\<rparr>)"
proof -
  have "\<not> is_ok (acquire_lock (w_clock w) cid lid owner ttl (w_locks w))"
    by (rule failover_lock.acquire_blocked [OF _ assms(2)]) (simp add: table_lease_def assms(1))
  then obtain e0 where "acquire_lock (w_clock w) cid lid owner ttl (w_locks w) = Inl e0"
    by (cases "acquire_lock (w_clock w) cid lid owner ttl (w_locks w)") simp_all
  then show ?thesis
    unfolding AcquireFailoverLock_def lock_statement_def by (cases w rule: db_call_cases) (simp_all add: on_ok_def, blast+)
qed

text \<open>C17: A run that has to take the lock of its cluster itself, because its caller hands over no lock id,
  and finds that another execution holds it with an unexpired lease ends as failed at the step
  \<open>acquire_lock\<close>; it sends no command to any node and leaves the lock as it is.\<close>

theorem run_needs_the_lock:
  assumes "w_locks w (rn_ClusterID run) = Some row" and "lease_live (unix_sec (w_clock w)) (lr_expires_at row)"
    and "trim_space lockID = []" and "executeArchitectureAdjustment ag run req lockID w = (Inr run', w')"
  shows "rn_Status run' = ArchitectureRunFailed \<and> rn_CurrentStep run' = ''acquire_lock'' \<and> arch_steps w' = arch_steps w \<and>
    w_locks w' = w_locks w"
proof -
  let ?s = "\<lparr>es_world = w, es_run = run, es_released = True, es_renewed = 0, es_lock_error = None\<rparr>"
  obtain e fs where "AcquireFailoverLock (rn_ClusterID run) (rn_RunID run) ''gmha-architecture'' architectureLockTTL w = (Inl e, w\<lparr>w_faults := fs\<rparr>)"
    using acquire_refused [OF assms(1,2)] by blast
  then have acquire: "on_state (\<lambda>run. AcquireFailoverLock (rn_ClusterID run) (rn_RunID run) ''gmha-architecture'' architectureLockTTL) ?s
      = (Inl e, ?s\<lparr>es_world := w\<lparr>w_faults := fs\<rparr>\<rparr>)" by (simp add: on_state_def)
  obtain r s' where fail: "failArchitectureRun ag ''acquire_lock'' e (?s\<lparr>es_world := w\<lparr>w_faults := fs\<rparr>\<rparr>) = (r, s')" by (metis prod.collapse)
  have rest: "refused (arch_steps w) (w_locks w) ''acquire_lock'' s'"
    by (rule validD [OF failing_refused _ fail]) (simp add: at_rest_def arch_steps_def)
  have "snd (execute_run ag req lockID ?s) = s'"
    unfolding execute_run_def if_P [OF assms(3)] by (rule or_fail_error, rule acquire, rule fail)
  with assms(4) rest show ?thesis
    by (auto simp: executeArchitectureAdjustment_def refused_def at_rest_def split: prod.splits)
qed

theorem run_needs_the_lock_witness:
  "\<exists>run' w'. executeArchitectureAdjustment (saying (\<lambda>_ _. [])) (new_run ''fo-1'' ''c1'' (empty_plan ''p'' ''c1'' [] 0) switch_request 0) switch_request []
     (two_machine_world\<lparr>w_locks := lock_insert 0 ''c1'' ''op-1'' ''gmha-manager'' (300 * second) (\<lambda>_. None)\<rparr>) = (Inr run', w') \<and>
   rn_Status run' = ArchitectureRunFailed \<and> arch_steps w' = []"
proof -
  let ?run = "new_run ''fo-1'' ''c1'' (empty_plan ''p'' ''c1'' [] 0) switch_request 0"
  let ?w = "two_machine_world\<lparr>w_locks := lock_insert 0 ''c1'' ''op-1'' ''gmha-manager'' (300 * second) (\<lambda>_. None)\<rparr>"
  obtain run' w' where exec: "executeArchitectureAdjustment (saying (\<lambda>_ _. [])) ?run switch_request [] ?w = (Inr run', w')"
    using execution_returns by blast
  let ?row = "\<lparr>lr_failover_id = ''op-1'', lr_lock_owner = ''gmha-manager'', lr_locked_at = 0, lr_expires_at = Some 300\<rparr>"
  have "w_locks ?w (rn_ClusterID ?run) = Some ?row" by (simp add: new_run_def lock_insert_def unix_sec_def)
  moreover have "lease_live (unix_sec (w_clock ?w)) (lr_expires_at ?row)" by (simp add: two_machine_world_def empty_world_def unix_sec_def)
  moreover have "arch_steps ?w = []" by (simp add: two_machine_world_def empty_world_def arch_steps_def)
  ultimately show ?thesis
    using run_needs_the_lock [OF _ _ _ exec] exec by (auto simp: trim_space_def)
qed

end
