(* ===== verification/Heartbeat_Domain.thy ===== *)
theory Heartbeat_Domain
  imports HA_Repo "HOL-Library.AList"
begin

text \<open>
  The entities of the heartbeat and recovery services (\<open>internal/domain/heartbeat\<close>, \<open>internal/domain/recovery\<close>,
  \<open>internal/domain/dynamic\<close>), the state both services work on and the repository operations they use
  (\<open>heartbeat_repo.go\<close>, \<open>agent_repo.go\<close>, \<open>machine_repo.go\<close>, \<open>mysql_instance_repo.go\<close>, \<open>recovery_repo.go\<close>). The value of
  a metric is the JSON text of its value; the tables of metric snapshots and samples are only written, so
  their contents are left out and their writes are database calls that may fail.
\<close>

subsection \<open>Entities\<close>

abbreviation StateInit :: string where "StateInit \<equiv> ''INIT''"
abbreviation StateOnline :: string where "StateOnline \<equiv> ''ONLINE''"
abbreviation StateSuspect :: string where "StateSuspect \<equiv> ''SUSPECT''"
abbreviation StateDegraded :: string where "StateDegraded \<equiv> ''DEGRADED''"
abbreviation StateOffline :: string where "StateOffline \<equiv> ''OFFLINE''"
abbreviation HealthHealthy :: string where "HealthHealthy \<equiv> ''HEALTHY''"
abbreviation CheckFail :: string where "CheckFail \<equiv> ''FAIL''"

abbreviation AgentOnline :: string where "AgentOnline \<equiv> ''online''"
abbreviation AgentError :: string where "AgentError \<equiv> ''error''"
abbreviation StatusAgentOnline :: string where "StatusAgentOnline \<equiv> ''agent_online''"
abbreviation StatusAgentError :: string where "StatusAgentError \<equiv> ''agent_error''"
abbreviation InstanceRunning :: string where "InstanceRunning \<equiv> ''running''"
abbreviation StatusHeartbeatFailed :: string where "StatusHeartbeatFailed \<equiv> ''heartbeat_failed''"
abbreviation StatusInstanceError :: string where "StatusInstanceError \<equiv> ''instance_error''"

record health_check =
  hc_Name :: string
  hc_Status :: string
  hc_Detail :: string
  hc_CheckedAt :: go_time

record metric_result =
  mr_Name :: string
  mr_Category :: string
  mr_Success :: bool
  mr_ValueType :: string
  mr_Value :: string
  mr_Labels :: "(string \<times> string) list"
  mr_CollectedAt :: go_time
  mr_DurationMS :: int
  mr_Error :: string

record hb_payload =
  hp_AgentID :: string
  hp_MachineID :: string
  hp_MachineName :: string
  hp_MachineIP :: string
  hp_ClusterID :: string
  hp_Hostname :: string
  hp_Version :: string
  hp_BootID :: string
  hp_StreamID :: string
  hp_Seq :: int
  hp_SentAt :: go_time
  hp_UptimeSec :: int
  hp_HeartbeatIntervalMs :: int
  hp_OverallHealth :: string
  hp_Summary :: string
  hp_Checks :: "health_check list"
  hp_Metrics :: "metric_result list"

record latest_status =
  ls_AgentID :: string
  ls_MachineID :: string
  ls_ClusterID :: string
  ls_Hostname :: string
  ls_Version :: string
  ls_CurrentState :: string
  ls_OverallHealth :: string
  ls_LastHeartbeatAt :: go_time
  ls_LastHealthyAt :: "go_time option"
  ls_LastStateChangeAt :: go_time
  ls_LastSeq :: int
  ls_LastBootID :: string
  ls_ConsecutiveMisses :: int
  ls_ConsecutiveBadChecks :: int
  ls_LastErrorSummary :: string
  ls_Checks :: "health_check list"
  ls_Metrics :: "metric_result list"
  ls_UpdatedAt :: go_time

text \<open>The payload of an event is stored as JSON; here it is the payload.\<close>

record state_event =
  se_ID :: "string \<times> go_time"
  se_AgentID :: string
  se_MachineID :: string
  se_EventType :: string
  se_PrevState :: string
  se_NewState :: string
  se_Reason :: string
  se_HeartbeatSeq :: int
  se_Payload :: hb_payload
  se_CreatedAt :: go_time

record agent_row =
  ag_ID :: string
  ag_MachineID :: string
  ag_State :: string
  ag_LastError :: string
  ag_LastHeartbeatAt :: "go_time option"

abbreviation RecoveryPending :: string where "RecoveryPending \<equiv> ''pending''"
abbreviation RecoveryConfirming :: string where "RecoveryConfirming \<equiv> ''confirming''"
abbreviation RecoveryExecuting :: string where "RecoveryExecuting \<equiv> ''executing''"
abbreviation RecoveryWaitingHeartbeat :: string where "RecoveryWaitingHeartbeat \<equiv> ''waiting_heartbeat''"
abbreviation RecoverySucceeded :: string where "RecoverySucceeded \<equiv> ''succeeded''"
abbreviation RecoveryFailed :: string where "RecoveryFailed \<equiv> ''failed''"
abbreviation RecoverySuppressed :: string where "RecoverySuppressed \<equiv> ''suppressed''"
abbreviation TriggerOfflineAuto :: string where "TriggerOfflineAuto \<equiv> ''offline_auto''"
abbreviation TriggerManual :: string where "TriggerManual \<equiv> ''manual''"
abbreviation ActionNone :: string where "ActionNone \<equiv> ''none''"
abbreviation ActionStart :: string where "ActionStart \<equiv> ''start''"
abbreviation ActionRestart :: string where "ActionRestart \<equiv> ''restart''"

text \<open>The id \<open>recovery-N\<close> of a task is the number N, the time of its creation.\<close>

record recovery_task =
  rt_ID :: "go_time"
  rt_AgentID :: string
  rt_MachineID :: string
  rt_MachineIP :: string
  rt_Status :: string
  rt_Trigger :: string
  rt_Action :: string
  rt_Reason :: string
  rt_Attempt :: int
  rt_MaxAttempts :: int
  rt_HeartbeatDeadline :: "go_time option"
  rt_LastError :: string
  rt_LastSSHOutput :: string
  rt_SuppressedUntil :: "go_time option"
  rt_CreatedAt :: go_time
  rt_UpdatedAt :: go_time

record recovery_state =
  rs_MachineID :: string
  rs_InProgress :: bool
  rs_LastAttemptAt :: "go_time option"
  rs_LastSuccessAt :: "go_time option"
  rs_ConsecutiveFailures :: int
  rs_SuppressedUntil :: "go_time option"
  rs_LastTaskID :: "go_time option"
  rs_LastResult :: string
  rs_UpdatedAt :: go_time

text \<open>The row of a machine in \<open>recovery_latest_state\<close>: the state and the column \<open>lock_until\<close>.\<close>

type_synonym recovery_row = "recovery_state \<times> go_time option"

subsection \<open>The state\<close>

text \<open>What comes from outside while a service waits: heartbeats and the ticks of the reconciliation, with their times.\<close>

record hb_request =
  hr_Payload :: hb_payload
  hr_Metrics :: "metric_result list option"
  hr_MySQLMetrics :: "metric_result list option"

datatype arrival = Beat hb_request | Tick

text \<open>The SSH commands of the recovery and their answers: output, error and duration.\<close>

record endpoint =
  ep_IP :: string
  ep_SSHPort :: int
  ep_User :: string

datatype ssh_call = Inspect endpoint | Start endpoint | Restart endpoint

record ssh_reply =
  sr_Output :: string
  sr_Error :: "go_error option"
  sr_Elapsed :: nat

type_synonym ssh_log = "(go_time \<times> ssh_call \<times> ssh_reply) list"

text \<open>A Go map is an association list; the order of its entries is the order an iteration happens to take.\<close>

record monitor =
  mo_world :: world
  mo_status :: "latest_status list"
  mo_events :: "state_event list"
  mo_agents :: "agent_row list"
  mo_latest :: "(string \<times> latest_status) list"
  mo_snapshots :: "(string \<times> go_time) list"
  mo_tasks :: "recovery_task list"
  mo_recovery :: "(string \<times> recovery_row) list"
  mo_ssh :: ssh_log
  mo_arrivals :: "(go_time \<times> arrival) list"

type_synonym 'a mon = "(monitor, 'a) op"

definition mo_clock :: "monitor \<Rightarrow> go_time" where
  "mo_clock s = w_clock (mo_world s)"

definition on_mon_world :: "'a act \<Rightarrow> 'a mon" where
  "on_mon_world m s = (case m (mo_world s) of (r, w) \<Rightarrow> (r, s\<lparr>mo_world := w\<rparr>))"

definition mon_statement :: "(monitor \<Rightarrow> monitor) \<Rightarrow> unit mon" where
  "mon_statement f = on_ok (on_mon_world db_call) (\<lambda>_. modify f)"

definition mon_query :: "(monitor \<Rightarrow> 'a) \<Rightarrow> 'a mon" where
  "mon_query f = on_ok (on_mon_world db_call) (\<lambda>_. gets f)"

text \<open>A database call under a context fails once the deadline of the context has passed.\<close>

type_synonym go_context = "go_time option"

definition in_ctx :: "go_context \<Rightarrow> 'a mon \<Rightarrow> 'a mon" where
  "in_ctx ctx m s = (case ctx of None \<Rightarrow> m s
     | Some deadline \<Rightarrow> if deadline \<le> mo_clock s then (Inl (Error ''context deadline exceeded''), s) else m s)"

definition mon_ignore :: "'a mon \<Rightarrow> unit mon" where
  "mon_ignore m = with_result m (\<lambda>_. ret ())"

subsection \<open>The heartbeat repository\<close>

text \<open>Times without fractions are kept in whole seconds, \<open>last_healthy_at\<close> in full.\<close>

definition status_row :: "latest_status \<Rightarrow> latest_status" where
  "status_row item = item\<lparr>ls_LastHeartbeatAt := db_time (ls_LastHeartbeatAt item),
     ls_LastStateChangeAt := db_time (ls_LastStateChangeAt item), ls_UpdatedAt := db_time (ls_UpdatedAt item)\<rparr>"

definition upsert_status_row :: "latest_status \<Rightarrow> latest_status list \<Rightarrow> latest_status list" where
  "upsert_status_row item rows =
     (if \<exists>row \<in> set rows. ls_AgentID row = ls_AgentID item
      then map (\<lambda>row. if ls_AgentID row = ls_AgentID item then item else row) rows else rows @ [item])"

definition UpsertLatestStatus :: "latest_status \<Rightarrow> unit mon" where
  "UpsertLatestStatus item = mon_statement (\<lambda>s. s\<lparr>mo_status := upsert_status_row (status_row item) (mo_status s)\<rparr>)"

definition AppendEvent :: "state_event \<Rightarrow> unit mon" where
  "AppendEvent e = mon_statement (\<lambda>s. s\<lparr>mo_events := mo_events s @ [e\<lparr>se_CreatedAt := db_time (se_CreatedAt e)\<rparr>]\<rparr>)"

text \<open>The column \<open>last_healthy_at\<close> of an agent that has never been healthy is NULL, and it is scanned into a
  Go string, which \<open>database/sql\<close> refuses.\<close>

definition null_scan_error :: go_error where
  "null_scan_error = Error ''sql: Scan error on column index 8: converting NULL to string is unsupported''"

definition ListLatest :: "latest_status list mon" where
  "ListLatest = on_ok (mon_query mo_status) (\<lambda>rows.
     if \<exists>row \<in> set rows. ls_LastHealthyAt row = None then fail_with null_scan_error else ret rows)"

text \<open>A transaction: begin, four deletions, commit.\<close>

definition DeleteHeartbeatsByMachineID :: "string \<Rightarrow> unit mon" where
  "DeleteHeartbeatsByMachineID mid =
     on_ok (for_ok (\<lambda>_. on_mon_world db_call) [0..<6]) (\<lambda>_. modify (\<lambda>s. s\<lparr>
       mo_status := filter (\<lambda>row. ls_MachineID row \<noteq> mid) (mo_status s),
       mo_events := filter (\<lambda>e. se_MachineID e \<noteq> mid) (mo_events s)\<rparr>))"

subsection \<open>Agents, machines and instances\<close>

definition UpdateAgentState :: "string \<Rightarrow> string \<Rightarrow> string \<Rightarrow> unit mon" where
  "UpdateAgentState mid state err = mon_statement (\<lambda>s. s\<lparr>mo_agents := map (\<lambda>a.
     if ag_MachineID a = mid then a\<lparr>ag_State := state, ag_LastError := err\<rparr> else a) (mo_agents s)\<rparr>)"

definition UpdateAgentHeartbeat :: "string \<Rightarrow> go_time \<Rightarrow> unit mon" where
  "UpdateAgentHeartbeat mid at = mon_statement (\<lambda>s. s\<lparr>mo_agents := map (\<lambda>a.
     if ag_MachineID a = mid then a\<lparr>ag_State := AgentOnline, ag_LastHeartbeatAt := Some (db_time at)\<rparr> else a) (mo_agents s)\<rparr>)"

definition agents_GetByMachineID :: "string \<Rightarrow> agent_row option mon" where
  "agents_GetByMachineID mid = mon_query (\<lambda>s. find (\<lambda>a. ag_MachineID a = mid) (mo_agents s))"

definition UpdateMachineStatus :: "string \<Rightarrow> string \<Rightarrow> string \<Rightarrow> unit act" where
  "UpdateMachineStatus mid status err = statement (\<lambda>w. w\<lparr>w_machines := map (\<lambda>m.
     if mach_ID m = mid then m\<lparr>mach_Status := status, mach_LastError := err, mach_UpdatedAt := db_time (w_clock w)\<rparr> else m) (w_machines w)\<rparr>)"

definition UpdateInstanceStatus :: "string \<Rightarrow> int \<Rightarrow> string \<Rightarrow> unit act" where
  "UpdateInstanceStatus mid port status = statement (\<lambda>w. w\<lparr>w_instances := map (\<lambda>i.
     if inst_MachineID i = mid \<and> inst_Port i = port then i\<lparr>inst_Status := status, inst_UpdatedAt := db_time (w_clock w)\<rparr> else i) (w_instances w)\<rparr>)"

definition machines_GetByIP :: "string \<Rightarrow> machine option act" where
  "machines_GetByIP ip = query (\<lambda>w. find (\<lambda>m. mach_IP m = ip) (stable_sort (\<lambda>a b. mach_CreatedAt a > mach_CreatedAt b) (w_machines w)))"

subsection \<open>The recovery repository\<close>

definition CreateRecoveryTask :: "recovery_task \<Rightarrow> recovery_task mon" where
  "CreateRecoveryTask task s =
     (let task = task\<lparr>rt_CreatedAt := (if rt_CreatedAt task = 0 then mo_clock s else rt_CreatedAt task), rt_UpdatedAt := mo_clock s\<rparr>
      in on_ok (mon_statement (\<lambda>s. s\<lparr>mo_tasks := mo_tasks s @ [task]\<rparr>)) (\<lambda>_. ret task) s)"

definition UpdateRecoveryTask :: "recovery_task \<Rightarrow> unit mon" where
  "UpdateRecoveryTask task = mon_statement (\<lambda>s. s\<lparr>mo_tasks := map (\<lambda>t.
     if rt_ID t = rt_ID task
     then t\<lparr>rt_Status := rt_Status task, rt_Trigger := rt_Trigger task, rt_Action := rt_Action task, rt_Reason := rt_Reason task,
            rt_Attempt := rt_Attempt task, rt_MaxAttempts := rt_MaxAttempts task, rt_HeartbeatDeadline := rt_HeartbeatDeadline task,
            rt_LastError := rt_LastError task, rt_LastSSHOutput := rt_LastSSHOutput task, rt_SuppressedUntil := rt_SuppressedUntil task, rt_UpdatedAt := mo_clock s\<rparr>
     else t) (mo_tasks s)\<rparr>)"

definition no_recovery_state :: recovery_state where
  "no_recovery_state = \<lparr>rs_MachineID = [], rs_InProgress = False, rs_LastAttemptAt = None, rs_LastSuccessAt = None,
     rs_ConsecutiveFailures = 0, rs_SuppressedUntil = None, rs_LastTaskID = None, rs_LastResult = [], rs_UpdatedAt = 0\<rparr>"

definition GetLatestState :: "string \<Rightarrow> recovery_state option mon" where
  "GetLatestState mid = mon_query (\<lambda>s. map_option fst (map_of (mo_recovery s) mid))"

definition ListLatestStates :: "recovery_state list mon" where
  "ListLatestStates = mon_query (\<lambda>s. stable_sort (\<lambda>a b. rs_UpdatedAt a > rs_UpdatedAt b) (map (fst \<circ> snd) (mo_recovery s)))"

definition saved_row :: "go_time \<Rightarrow> recovery_state \<Rightarrow> recovery_row option \<Rightarrow> recovery_row" where
  "saved_row now st old = (st\<lparr>rs_UpdatedAt := db_time now\<rparr>, case old of None \<Rightarrow> None | Some (_, lock) \<Rightarrow> lock)"

definition SaveLatestState :: "recovery_state \<Rightarrow> unit mon" where
  "SaveLatestState st = mon_statement (\<lambda>s. s\<lparr>mo_recovery :=
     AList.update (rs_MachineID st) (saved_row (mo_clock s) st (map_of (mo_recovery s) (rs_MachineID st))) (mo_recovery s)\<rparr>)"

definition locked_row :: "go_time \<Rightarrow> go_time \<Rightarrow> string \<Rightarrow> recovery_row option \<Rightarrow> recovery_row" where
  "locked_row now lock_until mid old =
     ((case old of None \<Rightarrow> no_recovery_state\<lparr>rs_MachineID := mid\<rparr> | Some (st, _) \<Rightarrow> st)\<lparr>rs_InProgress := True, rs_UpdatedAt := db_time now\<rparr>,
      Some (db_time lock_until))"

definition lock_is_held :: "go_time \<Rightarrow> recovery_row option \<Rightarrow> bool" where
  "lock_is_held now row = (case row of Some (_, Some until) \<Rightarrow> now < until | _ \<Rightarrow> False)"

text \<open>A read and a write, not one statement.\<close>

definition TryAcquireLock :: "string \<Rightarrow> go_time \<Rightarrow> bool mon" where
  "TryAcquireLock mid lock_until =
     on_ok (mon_query (\<lambda>s. lock_is_held (mo_clock s) (map_of (mo_recovery s) mid))) (\<lambda>held.
       if held then ret False
       else on_ok (mon_statement (\<lambda>s. s\<lparr>mo_recovery := AList.update mid
              (locked_row (mo_clock s) lock_until mid (map_of (mo_recovery s) mid)) (mo_recovery s)\<rparr>)) (\<lambda>_. ret True))"

definition unlocked_row :: "go_time \<Rightarrow> recovery_row \<Rightarrow> recovery_row" where
  "unlocked_row now row = ((fst row)\<lparr>rs_InProgress := False, rs_UpdatedAt := db_time now\<rparr>, None)"

definition ReleaseRecoveryLock :: "string \<Rightarrow> unit mon" where
  "ReleaseRecoveryLock mid = mon_statement (\<lambda>s. s\<lparr>mo_recovery := AList.map_entry mid (unlocked_row (mo_clock s)) (mo_recovery s)\<rparr>)"

definition DeleteRecoveryByMachineID :: "string \<Rightarrow> unit mon" where
  "DeleteRecoveryByMachineID mid = mon_statement (\<lambda>s. s\<lparr>mo_recovery := AList.delete mid (mo_recovery s)\<rparr>)"

end
