(* ===== verification/Heartbeat.thy ===== *)
theory Heartbeat
  imports Heartbeat_Domain
begin

text \<open>
  The heartbeat service of \<open>internal/app/heartbeat_service.go\<close>: the state machine
  INIT, ONLINE, SUSPECT, DEGRADED, OFFLINE of every agent, driven by the heartbeats the agents send
  (\<open>ProcessHeartbeat\<close>) and by the ticks that look for silence (\<open>Reconcile\<close>), its copy in the database and what follows from it
  for the agents, machines and instances. Observing heartbeats for alerts and the collection settings sent back to
  the agents are left out.
\<close>

subsection \<open>Configuration\<close>

record hb_config =
  SuspectAfter :: duration
  OfflineAfter :: duration
  RecoverAfter :: int
  DegradeAfter :: int
  ReconcileTick :: duration

definition NewHeartbeatConfig :: "hb_config \<Rightarrow> hb_config" where
  "NewHeartbeatConfig cfg = \<lparr>
     SuspectAfter = (if SuspectAfter cfg \<le> 0 then 15 * second else SuspectAfter cfg),
     OfflineAfter = (if OfflineAfter cfg \<le> 0 then 30 * second else OfflineAfter cfg),
     RecoverAfter = (if RecoverAfter cfg \<le> 0 then 2 else RecoverAfter cfg),
     DegradeAfter = (if DegradeAfter cfg \<le> 0 then 2 else DegradeAfter cfg),
     ReconcileTick = (if ReconcileTick cfg \<le> 0 then 5 * second else ReconcileTick cfg)\<rparr>"

subsection \<open>The transitions\<close>

definition previous_state :: "latest_status \<Rightarrow> string" where
  "previous_state cur = (if ls_CurrentState cur = [] then StateInit else ls_CurrentState cur)"

definition beat_state :: "hb_config \<Rightarrow> bool \<Rightarrow> int \<Rightarrow> string \<Rightarrow> string" where
  "beat_state cfg bad bads prev =
     (if bad \<and> bads \<ge> DegradeAfter cfg then StateDegraded
      else if bad \<and> prev \<in> {StateOffline, StateSuspect, StateInit} then StateDegraded
      else if \<not> bad then StateOnline
      else prev)"

definition onReceive :: "hb_config \<Rightarrow> latest_status \<Rightarrow> hb_payload \<Rightarrow> go_time \<Rightarrow> latest_status \<times> bool \<times> string" where
  "onReceive cfg cur payload now =
     (let hasBad = (hp_OverallHealth payload \<noteq> HealthHealthy);
          bads = (if hasBad then ls_ConsecutiveBadChecks cur + 1 else 0);
          prev = previous_state cur;
          state = beat_state cfg hasBad bads prev;
          changed = (state \<noteq> prev)
      in (cur\<lparr>ls_AgentID := hp_AgentID payload, ls_MachineID := hp_MachineID payload, ls_ClusterID := hp_ClusterID payload,
            ls_Hostname := hp_Hostname payload, ls_Version := hp_Version payload, ls_CurrentState := state,
            ls_OverallHealth := hp_OverallHealth payload, ls_LastHeartbeatAt := now,
            ls_LastHealthyAt := (if hasBad then ls_LastHealthyAt cur else Some now),
            ls_LastStateChangeAt := (if changed then now else ls_LastStateChangeAt cur),
            ls_LastSeq := hp_Seq payload, ls_LastBootID := hp_BootID payload, ls_ConsecutiveMisses := 0,
            ls_ConsecutiveBadChecks := bads, ls_LastErrorSummary := (if hasBad then hp_Summary payload else []),
            ls_Checks := hp_Checks payload, ls_Metrics := hp_Metrics payload, ls_UpdatedAt := now\<rparr>,
          changed,
          if changed then ''state changed from '' @ prev @ '' to '' @ state else ''heartbeat accepted''))"

text \<open>\<open>Duration.Round(time.Second)\<close> and the text of such a duration.\<close>

definition round_second :: "duration \<Rightarrow> int" where
  "round_second d = (if d < 0 then - ((- d + second div 2) div second) else (d + second div 2) div second)"

definition show_duration :: "int \<Rightarrow> string" where
  "show_duration n =
     (let a = abs n; h = a div 3600; m = a mod 3600 div 60; s = a mod 60
      in (if n < 0 then ''-'' else []) @ (if h > 0 then show_int h @ ''h'' else []) @
         (if a \<ge> 60 then show_int m @ ''m'' else []) @ show_int s @ ''s'')"

definition silent_state :: "hb_config \<Rightarrow> string \<Rightarrow> duration \<Rightarrow> string option" where
  "silent_state cfg state elapsed =
     (if elapsed \<ge> OfflineAfter cfg \<and> state \<noteq> StateOffline then Some StateOffline
      else if elapsed \<ge> SuspectAfter cfg \<and> state \<noteq> StateSuspect \<and> state \<noteq> StateOffline then Some StateSuspect
      else None)"

definition onTick :: "hb_config \<Rightarrow> latest_status \<Rightarrow> go_time \<Rightarrow> latest_status \<times> bool \<times> string" where
  "onTick cfg cur now =
     (if ls_LastHeartbeatAt cur = 0 then (cur, False, [])
      else let elapsed = now - ls_LastHeartbeatAt cur
           in case silent_state cfg (ls_CurrentState cur) elapsed of
             None \<Rightarrow> (cur, False, [])
           | Some state \<Rightarrow>
               let summary = ''heartbeat timeout after '' @ show_duration (round_second elapsed)
               in (cur\<lparr>ls_UpdatedAt := now, ls_CurrentState := state, ls_ConsecutiveMisses := ls_ConsecutiveMisses cur + 1,
                     ls_LastStateChangeAt := now, ls_LastErrorSummary := summary\<rparr>, True, summary))"

definition buildEvent :: "latest_status \<Rightarrow> latest_status \<Rightarrow> string \<Rightarrow> hb_payload \<Rightarrow> go_time \<Rightarrow> state_event" where
  "buildEvent prev next_st reason payload now = \<lparr>se_ID = (hp_AgentID payload, now), se_AgentID = hp_AgentID payload,
     se_MachineID = hp_MachineID payload, se_EventType = ''state_change'', se_PrevState = ls_CurrentState prev,
     se_NewState = ls_CurrentState next_st, se_Reason = reason, se_HeartbeatSeq = hp_Seq payload, se_Payload = payload,
     se_CreatedAt = now\<rparr>"

subsection \<open>What follows for the instances, the agent and the machine\<close>

definition heartbeat_check_port :: "health_check \<Rightarrow> int option" where
  "heartbeat_check_port check =
     (if \<not> has_prefix (hc_Name check) ''mysql.heartbeat.'' then None
      else case atoi (trim_prefix (hc_Name check) ''mysql.heartbeat.'') of
        None \<Rightarrow> None | Some port \<Rightarrow> if port \<le> 0 then None else Some port)"

definition check_instance_status :: "health_check \<Rightarrow> string" where
  "check_instance_status check =
     (if hc_Status check \<noteq> CheckFail then InstanceRunning
      else if contains (hc_Detail check) ''systemctl start failed'' then StatusInstanceError else StatusHeartbeatFailed)"

definition syncMySQLState :: "latest_status \<Rightarrow> unit mon" where
  "syncMySQLState item = for_ok (\<lambda>check. case heartbeat_check_port check of
       None \<Rightarrow> ret ()
     | Some port \<Rightarrow> mon_ignore (on_mon_world (UpdateInstanceStatus (ls_MachineID item) port (check_instance_status check)))) (ls_Checks item)"

definition machineStatusFromHeartbeat :: "string \<Rightarrow> string \<Rightarrow> (string \<times> string) option" where
  "machineStatusFromHeartbeat state lastError =
     (if state \<in> {StateOnline, StateDegraded} then Some (StatusAgentOnline, [])
      else if state \<in> {StateOffline, StateSuspect} then Some (StatusAgentError, lastError)
      else None)"

definition syncOperationalState :: "latest_status \<Rightarrow> unit mon" where
  "syncOperationalState item =
     on_ok (syncMySQLState item) (\<lambda>_.
       if ls_CurrentState item \<in> {StateOnline, StateDegraded}
       then on_ok (mon_ignore (UpdateAgentHeartbeat (ls_MachineID item) (ls_LastHeartbeatAt item))) (\<lambda>_.
            on_ok (mon_ignore (UpdateAgentState (ls_MachineID item) AgentOnline [])) (\<lambda>_.
              mon_ignore (on_mon_world (UpdateMachineStatus (ls_MachineID item) StatusAgentOnline []))))
       else if ls_CurrentState item \<in> {StateOffline, StateSuspect}
       then on_ok (mon_ignore (UpdateAgentState (ls_MachineID item) AgentError (ls_LastErrorSummary item))) (\<lambda>_.
              mon_ignore (on_mon_world (UpdateMachineStatus (ls_MachineID item) StatusAgentError (ls_LastErrorSummary item))))
       else ret ())"

subsection \<open>Heartbeats\<close>

definition tagMetricScope :: "string \<Rightarrow> metric_result list \<Rightarrow> metric_result list" where
  "tagMetricScope scope = map (\<lambda>m. m\<lparr>mr_Labels := AList.update ''metric_scope'' scope (mr_Labels m)\<rparr>)"

definition mapRequest :: "hb_request \<Rightarrow> hb_payload" where
  "mapRequest req = (hr_Payload req)\<lparr>hp_MachineName := [], hp_MachineIP := [], hp_Metrics :=
     (case hr_Metrics req of None \<Rightarrow> [] | Some ms \<Rightarrow> tagMetricScope ''machine_dynamic'' ms) @
     (case hr_MySQLMetrics req of None \<Rightarrow> [] | Some ms \<Rightarrow> tagMetricScope ''mysql_dynamic'' ms)\<rparr>"

definition enrichAlertPayload :: "hb_payload \<Rightarrow> hb_payload mon" where
  "enrichAlertPayload payload0 =
     (let payload = payload0\<lparr>hp_MachineName := hp_Hostname payload0\<rparr>
      in with_result (on_mon_world (machines_GetByID (hp_MachineID payload))) (\<lambda>r. ret (case r of
           Inr (Some m) \<Rightarrow> payload\<lparr>hp_ClusterID := (if hp_ClusterID payload = [] then mach_Cluster m else hp_ClusterID payload),
             hp_MachineName := mach_Name m, hp_MachineIP := mach_IP m\<rparr>
         | _ \<Rightarrow> payload)))"

definition metric_port :: "metric_result \<Rightarrow> int option" where
  "metric_port m = (case atoi (trim_space (map_get [] (map_of (mr_Labels m)) ''mysql_port'')) of
     None \<Rightarrow> None | Some port \<Rightarrow> if port \<le> 0 then None else Some port)"

text \<open>The loop keeps what it learnt about a port: one look into the database for each of them.\<close>

definition filter_metric :: "string \<Rightarrow> metric_result \<Rightarrow> (int \<times> bool) list \<times> metric_result list \<Rightarrow> ((int \<times> bool) list \<times> metric_result list) mon" where
  "filter_metric mid metric acc = (case acc of (registered, filtered) \<Rightarrow>
     if \<not> has_prefix (mr_Name metric) ''mysql_'' then ret (registered, filtered @ [metric])
     else case metric_port metric of
       None \<Rightarrow> ret (registered, filtered)
     | Some port \<Rightarrow>
         on_ok (if map_of registered port = None
                then with_result (on_mon_world (instances_Get mid port)) (\<lambda>r.
                       ret (AList.update port (case r of Inr (Some _) \<Rightarrow> True | _ \<Rightarrow> False) registered))
                else ret registered) (\<lambda>registered.
           ret (registered, if map_of registered port = Some True then filtered @ [metric] else filtered)))"

definition filterUnregisteredMySQLMetrics :: "hb_payload \<Rightarrow> hb_payload mon" where
  "filterUnregisteredMySQLMetrics payload =
     on_ok (fold_ok (filter_metric (hp_MachineID payload)) (hp_Metrics payload) ([], [])) (\<lambda>(registered, filtered).
       ret (payload\<lparr>hp_Metrics := filtered\<rparr>))"

definition dashboard_metrics :: "string list" where
  "dashboard_metrics = [''mysql_qps'', ''mysql_tps'', ''cpu_usage_percent'',
     ''io_status'', ''mysql_data_disk_usage'', ''network_throughput'',
     ''mysql_threads_connected'', ''mysql_threads_running'',
     ''mysql_active_connections'', ''mysql_sleep_connections'',
     ''mysql_connection_usage_percent'',
     ''mysql_lock_wait_sessions'', ''mysql_blocked_sessions'',
     ''mysql_row_lock_waits_current'', ''mysql_metadata_lock_waits'',
     ''mysql_active_transactions'', ''mysql_longest_transaction_seconds'',
     ''mysql_slow_queries_per_min'', ''mysql_deadlocks'',
     ''mysql_replication_lag'', ''mysql_buffer_pool_hit_ratio'',
     ''mysql_table_scan_ratio'', ''mysql_tmp_disk_table_ratio'']"

definition dashboardMetricSnapshot :: "string \<Rightarrow> metric_result list \<Rightarrow> go_time \<Rightarrow> metric_result list mon" where
  "dashboardMetricSnapshot agentID metrics now s =
     (let last = map_get 0 (map_of (mo_snapshots s)) agentID
      in if last \<noteq> 0 \<and> now - last < 15 * second then (Inr [], s)
         else (Inr (filter (\<lambda>m. mr_Name m \<in> set dashboard_metrics) metrics),
               s\<lparr>mo_snapshots := AList.update agentID now (mo_snapshots s)\<rparr>))"

text \<open>The writes of metrics: one statement for a snapshot, a transaction for the samples, of which there is at least
  one for every metric.\<close>

definition append_metrics :: "metric_result list \<Rightarrow> unit mon" where
  "append_metrics metrics = (if metrics = [] then ret () else on_mon_world db_call)"

definition first_status :: "hb_payload \<Rightarrow> go_time \<Rightarrow> latest_status" where
  "first_status payload now = \<lparr>ls_AgentID = hp_AgentID payload, ls_MachineID = hp_MachineID payload,
     ls_ClusterID = hp_ClusterID payload, ls_Hostname = hp_Hostname payload, ls_Version = hp_Version payload,
     ls_CurrentState = StateInit, ls_OverallHealth = [], ls_LastHeartbeatAt = 0, ls_LastHealthyAt = None,
     ls_LastStateChangeAt = now, ls_LastSeq = 0, ls_LastBootID = [], ls_ConsecutiveMisses = 0,
     ls_ConsecutiveBadChecks = 0, ls_LastErrorSummary = [], ls_Checks = [], ls_Metrics = [], ls_UpdatedAt = 0\<rparr>"

definition current_status :: "hb_payload \<Rightarrow> go_time \<Rightarrow> monitor \<Rightarrow> latest_status" where
  "current_status payload now s = map_get (first_status payload now) (map_of (mo_latest s)) (hp_AgentID payload)"

definition remember :: "string \<Rightarrow> latest_status \<Rightarrow> monitor \<Rightarrow> monitor" where
  "remember agentID item s = s\<lparr>mo_latest := AList.update agentID item (mo_latest s)\<rparr>"

text \<open>The response is the state and the message.\<close>

definition ProcessHeartbeat :: "hb_config \<Rightarrow> hb_request \<Rightarrow> (string \<times> string) mon" where
  "ProcessHeartbeat cfg req =
     on_ok (gets mo_clock) (\<lambda>now.
     on_ok (enrichAlertPayload (mapRequest req)) (\<lambda>payload.
     on_ok (filterUnregisteredMySQLMetrics payload) (\<lambda>payload.
     on_ok (gets (current_status payload now)) (\<lambda>cur.
     case onReceive cfg cur payload now of (item, changed, reason) \<Rightarrow>
     on_ok (modify (remember (hp_AgentID payload) item)) (\<lambda>_.
     on_ok (UpsertLatestStatus item) (\<lambda>_.
     on_ok (dashboardMetricSnapshot (ls_AgentID item) (ls_Metrics item) now) (\<lambda>metrics.
     on_ok (append_metrics metrics) (\<lambda>_.
     on_ok (append_metrics (ls_Metrics item)) (\<lambda>_.
     on_ok (syncOperationalState item) (\<lambda>_.
     on_ok (if changed then mon_ignore (AppendEvent (buildEvent cur item reason payload now)) else ret ()) (\<lambda>_.
       ret (ls_CurrentState item, reason))))))))))))"

subsection \<open>Silence\<close>

definition silent_payload :: "latest_status \<Rightarrow> hb_payload" where
  "silent_payload item = \<lparr>hp_AgentID = ls_AgentID item, hp_MachineID = ls_MachineID item, hp_MachineName = [], hp_MachineIP = [],
     hp_ClusterID = ls_ClusterID item, hp_Hostname = ls_Hostname item, hp_Version = ls_Version item, hp_BootID = [], hp_StreamID = [],
     hp_Seq = ls_LastSeq item, hp_SentAt = 0, hp_UptimeSec = 0, hp_HeartbeatIntervalMs = 0, hp_OverallHealth = [],
     hp_Summary = [], hp_Checks = [], hp_Metrics = []\<rparr>"

definition reconcile_agent :: "hb_config \<Rightarrow> go_time \<Rightarrow> string \<times> latest_status \<Rightarrow> unit mon" where
  "reconcile_agent cfg now entry = (case entry of (agentID, item) \<Rightarrow>
     case onTick cfg item now of (item', changed, reason) \<Rightarrow>
       if \<not> changed then ret ()
       else on_ok (modify (remember agentID item')) (\<lambda>_.
            on_ok (UpsertLatestStatus item') (\<lambda>_.
            on_ok (syncOperationalState item') (\<lambda>_.
              mon_ignore (AppendEvent (buildEvent item item' reason (silent_payload item) now))))))"

definition Reconcile :: "hb_config \<Rightarrow> unit mon" where
  "Reconcile cfg =
     on_ok (gets mo_clock) (\<lambda>now. on_ok (gets mo_latest) (\<lambda>latest. for_ok (reconcile_agent cfg now) latest))"

subsection \<open>Reading\<close>

definition LoadLatest :: "unit mon" where
  "LoadLatest = on_ok ListLatest (\<lambda>items. modify (\<lambda>s. s\<lparr>mo_latest :=
     fold (\<lambda>item. AList.update (ls_AgentID item) item) items (mo_latest s)\<rparr>))"

definition Snapshot :: "latest_status list mon" where
  "Snapshot = on_ok (mon_ignore LoadLatest) (\<lambda>_. gets (\<lambda>s. map snd (mo_latest s)))"

definition HB_GetByMachineID :: "string \<Rightarrow> latest_status option mon" where
  "HB_GetByMachineID mid = on_ok LoadLatest (\<lambda>_.
     gets (\<lambda>s. map_option snd (find (\<lambda>(aid, item). ls_MachineID item = mid) (mo_latest s))))"

text \<open>\<open>getByMachineIDRefreshing\<close> loads the rows itself before \<open>GetByMachineID\<close> does so again.\<close>

definition getByMachineIDRefreshing :: "string \<Rightarrow> latest_status option mon" where
  "getByMachineIDRefreshing mid = on_ok LoadLatest (\<lambda>_. HB_GetByMachineID mid)"

definition RemoveMachine :: "string \<Rightarrow> unit mon" where
  "RemoveMachine mid =
     on_ok (modify (\<lambda>s. s\<lparr>mo_latest := filter (\<lambda>(aid, item). ls_MachineID item \<noteq> mid) (mo_latest s)\<rparr>)) (\<lambda>_.
       DeleteHeartbeatsByMachineID mid)"

subsection \<open>Waiting\<close>

text \<open>Time passes: what arrives until then is processed, each arrival at its time (never before the present).\<close>

definition set_clock :: "go_time \<Rightarrow> unit mon" where
  "set_clock t = modify (\<lambda>s. s\<lparr>mo_world := (mo_world s)\<lparr>w_clock := max (mo_clock s) t\<rparr>\<rparr>)"

definition handle :: "hb_config \<Rightarrow> arrival \<Rightarrow> unit mon" where
  "handle cfg a = (case a of Beat req \<Rightarrow> mon_ignore (ProcessHeartbeat cfg req) | Tick \<Rightarrow> mon_ignore (Reconcile cfg))"

fun deliver :: "hb_config \<Rightarrow> go_time \<Rightarrow> (go_time \<times> arrival) list \<Rightarrow> unit mon" where
  "deliver cfg until [] = set_clock until"
| "deliver cfg until ((t, a) # rest) =
     (if t \<le> until
      then on_ok (modify (\<lambda>s. s\<lparr>mo_arrivals := rest\<rparr>)) (\<lambda>_. on_ok (set_clock t) (\<lambda>_.
           on_ok (handle cfg a) (\<lambda>_. deliver cfg until rest)))
      else set_clock until)"

definition pass :: "hb_config \<Rightarrow> duration \<Rightarrow> unit mon" where
  "pass cfg d = on_ok (gets mo_clock) (\<lambda>now. on_ok (gets mo_arrivals) (deliver cfg (now + d)))"

text \<open>\<open>WaitForOnline\<close> and \<open>WaitForFreshHeartbeat\<close> look every second until the deadline of the caller's context or of
  their own timeout, which every caller gives; \<open>n\<close> bounds the looks.\<close>

definition wait_error :: "string \<Rightarrow> latest_status option \<Rightarrow> string" where
  "wait_error lastErr found = (case found of
     None \<Rightarrow> lastErr
   | Some item \<Rightarrow>
       if ls_CurrentState item \<in> {StateOffline, StateSuspect}
       then if trim_space (ls_LastErrorSummary item) \<noteq> [] then ls_LastErrorSummary item
            else ''agent heartbeat did not become healthy''
       else lastErr)"

definition alive :: "latest_status option \<Rightarrow> bool" where
  "alive found = (case found of None \<Rightarrow> False | Some item \<Rightarrow> ls_CurrentState item \<in> {StateOnline, StateDegraded})"

definition fresh :: "go_time \<Rightarrow> latest_status option \<Rightarrow> bool" where
  "fresh startedAt found = (alive found \<and>
     (case found of None \<Rightarrow> False | Some item \<Rightarrow> ls_LastHeartbeatAt item \<noteq> 0 \<and> startedAt \<le> ls_LastHeartbeatAt item))"

definition timed_out :: "string \<Rightarrow> 'a mon" where
  "timed_out lastErr = fail_with (Error (if trim_space lastErr \<noteq> [] then lastErr else ''timed out waiting for first agent heartbeat''))"

definition wait_deadline :: "go_context \<Rightarrow> duration \<Rightarrow> go_time \<Rightarrow> go_time" where
  "wait_deadline ctx timeout now = (case ctx of None \<Rightarrow> now + timeout | Some d \<Rightarrow> min d (now + timeout))"

definition looks :: "go_time \<Rightarrow> go_time \<Rightarrow> nat" where
  "looks deadline now = nat ((deadline - now) div second) + 1"

fun wait_online :: "hb_config \<Rightarrow> go_time \<Rightarrow> string \<Rightarrow> string \<Rightarrow> nat \<Rightarrow> unit mon" where
  "wait_online cfg deadline mid lastErr 0 = timed_out lastErr"
| "wait_online cfg deadline mid lastErr (Suc n) =
     on_ok (in_ctx (Some deadline) (getByMachineIDRefreshing mid)) (\<lambda>found.
       if alive found then ret ()
       else on_ok (gets mo_clock) (\<lambda>now.
         if deadline \<le> now + second
         then on_ok (pass cfg (deadline - now)) (\<lambda>_. timed_out (wait_error lastErr found))
         else on_ok (pass cfg second) (\<lambda>_. wait_online cfg deadline mid (wait_error lastErr found) n)))"

definition WaitForOnline :: "hb_config \<Rightarrow> go_context \<Rightarrow> string \<Rightarrow> duration \<Rightarrow> unit mon" where
  "WaitForOnline cfg ctx mid timeout = on_ok (gets mo_clock) (\<lambda>now.
     wait_online cfg (wait_deadline ctx timeout now) mid [] (looks (wait_deadline ctx timeout now) now))"

fun wait_fresh :: "hb_config \<Rightarrow> go_time \<Rightarrow> string \<Rightarrow> go_time \<Rightarrow> nat \<Rightarrow> unit mon" where
  "wait_fresh cfg deadline mid startedAt 0 = fail_with (Error ''timed out waiting for upgraded agent heartbeat'')"
| "wait_fresh cfg deadline mid startedAt (Suc n) =
     on_ok (in_ctx (Some deadline) (getByMachineIDRefreshing mid)) (\<lambda>found.
       if fresh startedAt found then ret ()
       else on_ok (gets mo_clock) (\<lambda>now.
         if deadline \<le> now + second
         then on_ok (pass cfg (deadline - now)) (\<lambda>_. fail_with (Error ''timed out waiting for upgraded agent heartbeat''))
         else on_ok (pass cfg second) (\<lambda>_. wait_fresh cfg deadline mid startedAt n)))"

definition WaitForFreshHeartbeat :: "hb_config \<Rightarrow> go_context \<Rightarrow> string \<Rightarrow> go_time \<Rightarrow> duration \<Rightarrow> unit mon" where
  "WaitForFreshHeartbeat cfg ctx mid startedAt timeout = on_ok (gets mo_clock) (\<lambda>now.
     wait_fresh cfg (wait_deadline ctx timeout now) mid startedAt (looks (wait_deadline ctx timeout now) now))"

end
