(* ===== verification/Heartbeat_Facts.thy ===== *)
theory Heartbeat_Facts
  imports Heartbeat
begin

text \<open>
  What the heartbeat service promises. Without database failures the services change the state only as
  \<open>core_beat\<close> and \<open>core_tick\<close> say, which is enough to follow an agent through any history of
  heartbeats, ticks, reads and restarts of the manager.
\<close>

subsection \<open>Running without database failures\<close>

definition calm :: "monitor \<Rightarrow> bool" where
  "calm s \<longleftrightarrow> w_faults (mo_world s) = []"

lemma on_mon_world_calm: "calm s \<Longrightarrow> on_mon_world db_call s = (Inr (), s)"
  by (simp add: on_mon_world_def calm_def)

lemma mon_statement_calm [simp]: "calm s \<Longrightarrow> mon_statement f s = (Inr (), f s)"
  by (simp add: mon_statement_def on_ok_def on_mon_world_calm)

lemma mon_query_calm [simp]: "calm s \<Longrightarrow> mon_query f s = (Inr (f s), s)"
  by (simp add: mon_query_def on_ok_def on_mon_world_calm)

lemma mon_ignore_result: "mon_ignore m s = (Inr (), snd (m s))"
  by (simp add: mon_ignore_def with_result_def split: prod.split)

text \<open>\<open>sure P m\<close>: from a state with \<open>P\<close> the method \<open>m\<close> succeeds and keeps \<open>P\<close>.\<close>

definition sure :: "('s \<Rightarrow> bool) \<Rightarrow> ('s, 'a) op \<Rightarrow> bool" where
  "sure P m = valid P m (\<lambda>r s. is_ok r \<and> P s)"

lemma sureD: "sure P m \<Longrightarrow> P s \<Longrightarrow> \<exists>x s'. m s = (Inr x, s') \<and> P s'"
proof -
  assume m: "sure P m" and s: "P s"
  obtain r s' where run: "m s = (r, s')" by (rule prod.exhaust)
  from validD [OF m [unfolded sure_def] s run] run show ?thesis by (auto simp: is_ok_iff)
qed

lemma sure_bind: "sure P m \<Longrightarrow> (\<And>x. sure P (f x)) \<Longrightarrow> sure P (on_ok m f)"
  unfolding sure_def by (rule valid_on_ok [where R = "\<lambda>r s. is_ok r \<and> P s"]) simp_all

lemma sure_ret: "sure P (ret x)" "sure P (gets h)"
  unfolding sure_def by (simp_all add: valid_def)

lemma sure_if: "sure P m \<Longrightarrow> sure P m' \<Longrightarrow> sure P (if b then m else m')"
  by simp

lemma sure_option: "sure P m \<Longrightarrow> (\<And>x. sure P (f x)) \<Longrightarrow> sure P (case z of None \<Rightarrow> m | Some x \<Rightarrow> f x)"
  by (cases z) auto

lemma sure_ignore: "preserves P m \<Longrightarrow> sure P (mon_ignore m)"
  unfolding sure_def
proof (rule validI)
  fix s r s'
  assume m: "preserves P m" and s: "P s" and run: "mon_ignore m s = (r, s')"
  obtain q v where qv: "m s = (q, v)" by (metis prod.collapse)
  show "is_ok r \<and> P s'" using validD [OF m s qv] run by (auto simp: mon_ignore_result qv)
qed

lemma sure_for_ok: "(\<And>x. sure P (f x)) \<Longrightarrow> sure P (for_ok f xs)"
proof (induction xs)
  case Nil
  show ?case unfolding for_ok_simps by (rule sure_ret)
next
  case (Cons x xs)
  show ?case unfolding for_ok_simps by (intro sure_bind Cons)
qed

lemmas sure_rules = sure_bind sure_ret sure_if sure_option sure_for_ok

text \<open>The part of the state the state machine works on.\<close>

type_synonym hb_core = "(string \<times> latest_status) list \<times> latest_status list \<times> go_time"

definition core_is :: "hb_core \<Rightarrow> monitor \<Rightarrow> bool" where
  "core_is c s \<longleftrightarrow> calm s \<and> mo_latest s = fst c \<and> mo_status s = fst (snd c) \<and> mo_clock s = snd (snd c)"

lemma core_is_calm [simp]: "core_is c s \<Longrightarrow> calm s"
  by (simp add: core_is_def)

lemma preserves_core_statement: "(\<And>s. core_is c s \<Longrightarrow> core_is c (f s)) \<Longrightarrow> preserves (core_is c) (mon_statement f)"
  by (rule validI) auto

lemma preserves_core_query: "preserves (core_is c) (mon_query f)"
  by (rule validI) auto

lemma preserves_core_world:
  assumes "\<And>w r w'. w_faults w = [] \<Longrightarrow> m w = (r, w') \<Longrightarrow> w_faults w' = [] \<and> w_clock w' = w_clock w"
  shows "preserves (core_is c) (on_mon_world m)"
proof (rule validI)
  fix s r s'
  assume s: "core_is c s" and run: "on_mon_world m s = (r, s')"
  obtain q w' where m: "m (mo_world s) = (q, w')" by (metis prod.collapse)
  have "w_faults w' = [] \<and> w_clock w' = w_clock (mo_world s)" using assms [OF _ m] s by (simp add: core_is_def calm_def)
  with s run m show "core_is c s'" by (auto simp: on_mon_world_def core_is_def calm_def mo_clock_def)
qed

lemma core_updates:
  "preserves (core_is c) (UpdateAgentState mid st err)" "preserves (core_is c) (UpdateAgentHeartbeat mid at)" "preserves (core_is c) (AppendEvent e)"
  unfolding UpdateAgentState_def UpdateAgentHeartbeat_def AppendEvent_def
  by (intro preserves_core_statement; simp add: core_is_def calm_def mo_clock_def)+

lemma core_world_updates:
  "preserves (core_is c) (on_mon_world (UpdateMachineStatus mid st err))" "preserves (core_is c) (on_mon_world (UpdateInstanceStatus mid port st))"
  "preserves (core_is c) (on_mon_world (machines_GetByID mid))" "preserves (core_is c) (on_mon_world (instances_Get mid port))"
  "preserves (core_is c) (on_mon_world db_call)"
  unfolding UpdateMachineStatus_def UpdateInstanceStatus_def machines_GetByID_def instances_Get_def
  by (intro preserves_core_world; auto)+

lemma sure_sync: "sure (core_is c) (syncOperationalState item)"
  unfolding syncOperationalState_def syncMySQLState_def
  by (intro sure_rules sure_ignore core_updates core_world_updates)

lemma run_bind: "m s = (Inr x, s') \<Longrightarrow> f x s' = z \<Longrightarrow> on_ok m f s = z"
  by (simp add: on_ok_def)

subsection \<open>The steps on the core\<close>

definition core_set :: "string \<Rightarrow> latest_status \<Rightarrow> hb_core \<Rightarrow> hb_core" where
  "core_set agentID item c = (AList.update agentID item (fst c), upsert_status_row (status_row item) (fst (snd c)), snd (snd c))"

lemma remember_upsert:
  assumes "core_is c s"
  shows "on_ok (UpsertLatestStatus item) f (remember agentID item s) = f () (s\<lparr>mo_latest := AList.update agentID item (mo_latest s),
      mo_status := upsert_status_row (status_row item) (mo_status s)\<rparr>)"
proof -
  have "calm (remember agentID item s)" using assms by (simp add: remember_def core_is_def calm_def)
  then show ?thesis by (simp add: UpsertLatestStatus_def on_ok_def remember_def)
qed

lemma remember_core: "core_is c s \<Longrightarrow>
  core_is (core_set agentID item c) (s\<lparr>mo_latest := AList.update agentID item (mo_latest s), mo_status := upsert_status_row (status_row item) (mo_status s)\<rparr>)"
  by (simp add: core_is_def core_set_def calm_def mo_clock_def)

definition core_tick :: "hb_config \<Rightarrow> string \<times> latest_status \<Rightarrow> hb_core \<Rightarrow> hb_core" where
  "core_tick cfg entry c = (case onTick cfg (snd entry) (snd (snd c)) of
     (item, changed, reason) \<Rightarrow> if changed then core_set (fst entry) item c else c)"

lemma reconcile_agent_core:
  assumes "core_is c s"
  shows "\<exists>s'. reconcile_agent cfg (snd (snd c)) entry s = (Inr (), s') \<and> core_is (core_tick cfg entry c) s'"
proof -
  obtain agentID item where entry: "entry = (agentID, item)" by (cases entry)
  obtain item' changed reason where tick: "onTick cfg item (snd (snd c)) = (item', changed, reason)" by (metis prod_cases3)
  show ?thesis
  proof (cases changed)
    case True
    let ?rest = "on_ok (syncOperationalState item') (\<lambda>_. mon_ignore (AppendEvent (buildEvent item item' reason (silent_payload item) (snd (snd c)))))"
    have "sure (core_is (core_set agentID item' c)) ?rest"
      by (intro sure_rules sure_sync sure_ignore core_updates)
    from sureD [OF this remember_core [OF assms]] show ?thesis
      using True by (simp add: reconcile_agent_def entry tick core_tick_def remember_upsert [OF assms])
  qed (use assms in \<open>simp add: reconcile_agent_def entry tick core_tick_def\<close>)
qed

lemma core_tick_clock [simp]: "snd (snd (core_tick cfg entry c)) = snd (snd c)"
  by (simp add: core_tick_def core_set_def split: prod.splits)

lemma reconcile_core:
  assumes "core_is c s"
  shows "\<exists>s'. Reconcile cfg s = (Inr (), s') \<and> core_is (fold (core_tick cfg) (fst c) c) s'"
proof -
  have loop: "core_is d v \<Longrightarrow> \<exists>s'. for_ok (reconcile_agent cfg (snd (snd d))) entries v = (Inr (), s') \<and> core_is (fold (core_tick cfg) entries d) s'" for entries d v
  proof (induction entries arbitrary: d v)
    case (Cons e entries)
    obtain v' where one: "reconcile_agent cfg (snd (snd d)) e v = (Inr (), v')" "core_is (core_tick cfg e d) v'"
      using reconcile_agent_core [OF Cons.prems] by blast
    from Cons.IH [OF one(2)] show ?case by (simp add: on_ok_def one(1))
  qed simp
  show ?thesis using loop [OF assms, of "fst c"] assms
    by (simp add: Reconcile_def core_is_def)
qed

definition core_beat :: "hb_config \<Rightarrow> hb_payload \<Rightarrow> hb_core \<Rightarrow> hb_core" where
  "core_beat cfg payload c = core_set (hp_AgentID payload)
     (fst (onReceive cfg (map_get (first_status payload (snd (snd c))) (map_of (fst c)) (hp_AgentID payload)) payload (snd (snd c)))) c"

definition same_beat :: "hb_payload \<Rightarrow> hb_payload \<Rightarrow> bool" where
  "same_beat p q \<longleftrightarrow> hp_AgentID p = hp_AgentID q \<and> hp_OverallHealth p = hp_OverallHealth q \<and> hp_MachineID p = hp_MachineID q"

lemma enrich_core:
  assumes "core_is c s"
  shows "\<exists>p' s'. enrichAlertPayload p s = (Inr p', s') \<and> core_is c s' \<and> same_beat p' p"
proof -
  obtain r s' where get: "on_mon_world (machines_GetByID (hp_MachineID p)) s = (r, s')" by (metis prod.collapse)
  have "core_is c s'" using validD [OF core_world_updates(3) assms get] .
  moreover have "same_beat (case r of Inl e \<Rightarrow> q | Inr None \<Rightarrow> q
      | Inr (Some m) \<Rightarrow> q\<lparr>hp_ClusterID := (if hp_ClusterID q = [] then mach_Cluster m else hp_ClusterID q),
             hp_MachineName := mach_Name m, hp_MachineIP := mach_IP m\<rparr>) p" if "q = p\<lparr>hp_MachineName := hp_Hostname p\<rparr>" for q
    by (simp add: same_beat_def that split: sum.split option.split)
  ultimately show ?thesis using get by (simp add: enrichAlertPayload_def with_result_def Let_def)
qed

lemma filter_core: "sure (core_is c) (fold_ok (filter_metric mid) ms acc)"
proof (induction ms arbitrary: acc)
  case Nil
  show ?case unfolding fold_ok.simps by (rule sure_ret)
next
  case (Cons m ms)
  have "sure (core_is c) (filter_metric mid m acc)"
  proof -
    have "sure (core_is c) (with_result (on_mon_world (instances_Get mid port)) (\<lambda>r. ret (g r)))" for port and g :: "instance_rec option result \<Rightarrow> (int \<times> bool) list"
      unfolding sure_def by (rule valid_with_result [OF core_world_updates(4)], rule valid_ret) simp
    then show ?thesis unfolding filter_metric_def by (auto split: prod.split intro!: sure_rules)
  qed
  then show ?case unfolding fold_ok.simps by (intro sure_bind Cons.IH)
qed

lemma process_core:
  assumes "core_is c s"
  shows "\<exists>p' r s'. ProcessHeartbeat cfg req s = (Inr r, s') \<and> same_beat p' (hr_Payload req) \<and> core_is (core_beat cfg p' c) s'"
proof -
  obtain p1 s1 where enrich: "enrichAlertPayload (mapRequest req) s = (Inr p1, s1)" "core_is c s1" "same_beat p1 (mapRequest req)"
    using enrich_core [OF assms] by blast
  obtain acc s2 where filter: "fold_ok (filter_metric (hp_MachineID p1)) (hp_Metrics p1) ([], []) s1 = (Inr acc, s2)" "core_is c s2"
    using sureD [OF filter_core enrich(2)] by blast
  define p' where "p' = p1\<lparr>hp_Metrics := snd acc\<rparr>"
  define now where "now = snd (snd c)"
  have same: "same_beat p' (hr_Payload req)" using enrich(3) by (simp add: p'_def same_beat_def mapRequest_def)
  have filtered: "filterUnregisteredMySQLMetrics p1 s1 = (Inr p', s2)"
    using filter(1) by (simp add: filterUnregisteredMySQLMetrics_def on_ok_def p'_def split: prod.split)
  have cur: "current_status p' now s2 = map_get (first_status p' now) (map_of (fst c)) (hp_AgentID p')"
    using filter(2) by (simp add: current_status_def core_is_def)
  obtain item changed reason where receive: "onReceive cfg (current_status p' now s2) p' now = (item, changed, reason)" by (metis prod_cases3)
  let ?rest = "on_ok (dashboardMetricSnapshot (ls_AgentID item) (ls_Metrics item) now) (\<lambda>metrics.
     on_ok (append_metrics metrics) (\<lambda>_.
     on_ok (append_metrics (ls_Metrics item)) (\<lambda>_.
     on_ok (syncOperationalState item) (\<lambda>_.
     on_ok (if changed then mon_ignore (AppendEvent (buildEvent (current_status p' now s2) item reason p' now)) else ret ()) (\<lambda>_.
       ret (ls_CurrentState item, reason))))))"
  let ?c = "core_set (hp_AgentID p') item c"
  have append: "sure (core_is ?c) (append_metrics ms)" for ms
    unfolding append_metrics_def sure_def using on_mon_world_calm
    by (cases "ms = []") (auto simp: valid_def core_is_def)
  have snapshot: "sure (core_is ?c) (dashboardMetricSnapshot a ms t)" for a ms t
    unfolding sure_def dashboardMetricSnapshot_def Let_def by (rule validI) (auto simp: core_is_def calm_def mo_clock_def split: if_splits)
  have "sure (core_is ?c) ?rest"
    by (intro sure_rules sure_sync sure_ignore core_updates append snapshot)
  from sureD [OF this remember_core [OF filter(2)]] obtain x s' where rest: "?rest (s2\<lparr>mo_latest := AList.update (hp_AgentID p') item (mo_latest s2),
     mo_status := upsert_status_row (status_row item) (mo_status s2)\<rparr>) = (Inr x, s')" "core_is ?c s'" by blast
  have clock: "mo_clock s = now" using assms by (simp add: now_def core_is_def)
  have "ProcessHeartbeat cfg req s = (Inr x, s')"
    unfolding ProcessHeartbeat_def on_ok_gets clock
    by (rule run_bind, rule enrich(1), rule run_bind, rule filtered)
      (simp add: receive remember_upsert [OF filter(2)] rest(1))
  moreover have "core_beat cfg p' c = ?c" unfolding core_beat_def now_def [symmetric] cur [symmetric] receive by simp
  ultimately show ?thesis using same rest(2) by metis
qed

subsection \<open>Histories\<close>

text \<open>The histories of a manager without database failures: time passes, heartbeats and ticks are processed, rows are read
  back, the manager restarts with an empty memory, and the rest of the state changes in any way. \<open>beats\<close> is the time of
  the last heartbeat of every agent.\<close>

inductive hb_reach :: "hb_config \<Rightarrow> monitor \<Rightarrow> (string \<Rightarrow> go_time option) \<Rightarrow> bool" for cfg where
  hb_start: "calm s \<Longrightarrow> mo_latest s = [] \<Longrightarrow> mo_status s = [] \<Longrightarrow> second \<le> mo_clock s \<Longrightarrow> hb_reach cfg s (\<lambda>_. None)"
| hb_beat: "hb_reach cfg s beats \<Longrightarrow> ProcessHeartbeat cfg req s = (r, s') \<Longrightarrow>
     hb_reach cfg s' (beats(hp_AgentID (hr_Payload req) \<mapsto> mo_clock s))"
| hb_tick: "hb_reach cfg s beats \<Longrightarrow> Reconcile cfg s = (r, s') \<Longrightarrow> hb_reach cfg s' beats"
| hb_read: "hb_reach cfg s beats \<Longrightarrow> LoadLatest s = (r, s') \<Longrightarrow> hb_reach cfg s' beats"
| hb_restart: "hb_reach cfg s beats \<Longrightarrow> hb_reach cfg (s\<lparr>mo_latest := [], mo_snapshots := []\<rparr>) beats"
| hb_other: "hb_reach cfg s beats \<Longrightarrow> mo_clock s \<le> t \<Longrightarrow> core_is (mo_latest s, mo_status s, t) s' \<Longrightarrow> hb_reach cfg s' beats"

definition tracked :: "hb_config \<Rightarrow> (string \<Rightarrow> go_time option) \<Rightarrow> go_time \<Rightarrow> latest_status \<Rightarrow> bool" where
  "tracked cfg beats now st \<longleftrightarrow> (\<exists>t. beats (ls_AgentID st) = Some t \<and> second \<le> t \<and> t \<le> now \<and> ls_LastHeartbeatAt st \<in> {t, db_time t} \<and>
     (ls_CurrentState st = StateOffline \<longrightarrow> OfflineAfter cfg \<le> now - ls_LastHeartbeatAt st) \<and>
     (ls_CurrentState st = StateSuspect \<longrightarrow> SuspectAfter cfg \<le> now - ls_LastHeartbeatAt st))"

definition tracking :: "hb_config \<Rightarrow> (string \<Rightarrow> go_time option) \<Rightarrow> hb_core \<Rightarrow> bool" where
  "tracking cfg beats c \<longleftrightarrow> second \<le> snd (snd c) \<and> distinct (map fst (fst c)) \<and>
     (\<forall>(a, st) \<in> set (fst c). ls_AgentID st = a \<and> tracked cfg beats (snd (snd c)) st) \<and>
     (\<forall>st \<in> set (fst (snd c)). tracked cfg beats (snd (snd c)) st)"

lemma tracked_later: "tracked cfg beats now st \<Longrightarrow> now \<le> now' \<Longrightarrow> tracked cfg beats now' st"
  unfolding tracked_def by fastforce

lemma db_time_bounds: "db_time t \<le> t" "t - second < db_time t"
  unfolding db_time_def unix_sec_def using mult_div_mod_eq [of second t] pos_mod_bound [of second t] pos_mod_sign [of second t]
  by (simp_all add: algebra_simps)

lemma tracked_row: "tracked cfg beats now st \<Longrightarrow> tracked cfg beats now (status_row st)"
proof -
  assume "tracked cfg beats now st"
  then obtain t where t: "beats (ls_AgentID st) = Some t" "second \<le> t" "t \<le> now" "ls_LastHeartbeatAt st \<in> {t, db_time t}"
    "ls_CurrentState st = StateOffline \<longrightarrow> OfflineAfter cfg \<le> now - ls_LastHeartbeatAt st"
    "ls_CurrentState st = StateSuspect \<longrightarrow> SuspectAfter cfg \<le> now - ls_LastHeartbeatAt st" by (auto simp: tracked_def)
  have "db_time (db_time t) = db_time t" by (simp add: db_time_def unix_sec_def)
  with t(4) have "db_time (ls_LastHeartbeatAt st) = db_time t" by auto
  with t db_time_bounds [of "ls_LastHeartbeatAt st"] show ?thesis
    unfolding tracked_def status_row_def by (intro exI [of _ t]) auto
qed

lemma set_update_distinct: "distinct (map fst xs) \<Longrightarrow> (k, v) \<in> set (AList.update k' v' xs) \<Longrightarrow> (k = k' \<and> v = v') \<or> (k \<noteq> k' \<and> (k, v) \<in> set xs)"
  by (induction xs) (auto split: if_splits, force)

definition tracking_but :: "hb_config \<Rightarrow> (string \<Rightarrow> go_time option) \<Rightarrow> string \<Rightarrow> hb_core \<Rightarrow> bool" where
  "tracking_but cfg beats a c \<longleftrightarrow> second \<le> snd (snd c) \<and> distinct (map fst (fst c)) \<and>
     (\<forall>(k, st) \<in> set (fst c). k \<noteq> a \<longrightarrow> ls_AgentID st = k \<and> tracked cfg beats (snd (snd c)) st) \<and>
     (\<forall>st \<in> set (fst (snd c)). ls_AgentID st \<noteq> a \<longrightarrow> tracked cfg beats (snd (snd c)) st)"

lemma tracking_set:
  assumes c: "tracking_but cfg beats a c" and item: "ls_AgentID item = a" "tracked cfg beats (snd (snd c)) item"
  shows "tracking cfg beats (core_set a item c)"
proof -
  let ?now = "snd (snd c)"
  have rows: "tracked cfg beats ?now st" if "st \<in> set (upsert_status_row (status_row item) (fst (snd c)))" for st
  proof -
    have "st = status_row item \<or> (st \<in> set (fst (snd c)) \<and> ls_AgentID st \<noteq> a)"
      using that item(1) by (auto simp: upsert_status_row_def status_row_def split: if_splits)
    then show ?thesis using tracked_row [OF item(2)] c by (auto simp: tracking_but_def)
  qed
  have entries: "ls_AgentID st = k \<and> tracked cfg beats ?now st" if "(k, st) \<in> set (AList.update a item (fst c))" for k st
    using set_update_distinct [OF _ that] c item by (auto simp: tracking_but_def)
  show ?thesis using c rows entries
    unfolding tracking_def tracking_but_def core_set_def by (auto simp: distinct_update)
qed

lemma tracking_weaken: "tracking cfg beats c \<Longrightarrow> tracking_but cfg (beats(a := x)) a c" "tracking cfg beats c \<Longrightarrow> tracking_but cfg beats a c"
  unfolding tracking_def tracking_but_def by (auto simp: tracked_def)

lemma beat_state_connected: "beat_state cfg bad bads prev \<noteq> StateOffline" "beat_state cfg bad bads prev \<noteq> StateSuspect"
  by (auto simp: beat_state_def)

lemma tracking_beat:
  assumes "tracking cfg beats c"
  shows "tracking cfg (beats(hp_AgentID p \<mapsto> snd (snd c))) (core_beat cfg p c)"
proof -
  let ?now = "snd (snd c)" and ?b = "beats(hp_AgentID p \<mapsto> snd (snd c))"
  have item: "ls_AgentID (fst (onReceive cfg cur p ?now)) = hp_AgentID p" "tracked cfg ?b ?now (fst (onReceive cfg cur p ?now))" for cur
    using assms beat_state_connected by (simp_all add: onReceive_def Let_def tracked_def tracking_def)
  show ?thesis unfolding core_beat_def by (rule tracking_set [OF tracking_weaken(1) [OF assms] item])
qed

lemma tracked_tick: "tracked cfg beats now st \<Longrightarrow> tracked cfg beats now (fst (onTick cfg st now)) \<and> ls_AgentID (fst (onTick cfg st now)) = ls_AgentID st"
  by (auto simp: tracked_def onTick_def silent_state_def Let_def split: option.splits if_splits)

lemma tick_core:
  assumes "tracking cfg beats c" and "(a, st) \<in> set (fst c)"
  shows "tracking cfg beats (core_tick cfg (a, st) c)"
proof -
  have st: "ls_AgentID st = a" "tracked cfg beats (snd (snd c)) st" using assms by (auto simp: tracking_def)
  show ?thesis
    using tracking_set [OF tracking_weaken(2) [OF assms(1)], of "fst (onTick cfg st (snd (snd c)))" a] tracked_tick [OF st(2)] st(1) assms(1)
    by (auto simp: core_tick_def split: prod.splits)
qed

text \<open>A loop over the entries updates every one of them, the keys being distinct.\<close>

definition ticked :: "hb_config \<Rightarrow> go_time \<Rightarrow> string \<times> latest_status \<Rightarrow> string \<times> latest_status" where
  "ticked cfg now entry = (fst entry, fst (onTick cfg (snd entry) now))"

lemma onTick_unchanged: "onTick cfg st now = (st', False, reason) \<Longrightarrow> st' = st"
  by (auto simp: onTick_def Let_def split: if_splits option.splits)

lemma update_middle: "k \<notin> fst ` set xs \<Longrightarrow> AList.update k v (xs @ (k, w) # ys) = xs @ (k, v) # ys"
  by (induction xs) auto

lemma core_tick_entries:
  assumes "distinct (map fst (pre @ e # rest))" and "fst c = pre @ e # rest"
  shows "fst (core_tick cfg e c) = pre @ ticked cfg (snd (snd c)) e # rest"
proof -
  have "fst e \<notin> fst ` set pre" using assms(1) by auto
  then show ?thesis
    using assms(2) update_middle [of "fst e" pre _ "snd e" rest] onTick_unchanged [of cfg "snd e" "snd (snd c)"]
    by (cases e) (auto simp: core_tick_def core_set_def ticked_def split: prod.splits)
qed

lemma reconcile_entries:
  assumes "tracking cfg beats c"
  shows "fst (fold (core_tick cfg) (fst c) c) = map (ticked cfg (snd (snd c))) (fst c) \<and> tracking cfg beats (fold (core_tick cfg) (fst c) c)
    \<and> snd (snd (fold (core_tick cfg) (fst c) c)) = snd (snd c)"
proof -
  have "fst (fold (core_tick cfg) rest d) = pre @ map (ticked cfg (snd (snd d))) rest \<and> tracking cfg beats (fold (core_tick cfg) rest d)
      \<and> snd (snd (fold (core_tick cfg) rest d)) = snd (snd d)"
    if "tracking cfg beats d" "fst d = pre @ rest" for pre rest d
    using that
  proof (induction rest arbitrary: pre d)
    case (Cons e rest)
    have dist: "distinct (map fst (pre @ e # rest))" using Cons.prems by (simp add: tracking_def)
    have one: "fst (core_tick cfg e d) = (pre @ [ticked cfg (snd (snd d)) e]) @ rest"
      using core_tick_entries [OF dist Cons.prems(2)] by simp
    have "tracking cfg beats (core_tick cfg e d)"
      using tick_core [of cfg beats d "fst e" "snd e"] Cons.prems by simp
    from Cons.IH [OF this one] show ?case by simp
  qed simp
  from this [OF assms, of "[]" "fst c"] show ?thesis by simp
qed

lemma load_core:
  assumes "core_is c s" and "LoadLatest s = (r, s')"
  shows "core_is c s' \<or> core_is (fold (\<lambda>item. AList.update (ls_AgentID item) item) (fst (snd c)) (fst c), snd c) s'"
  using assms by (auto simp: LoadLatest_def ListLatest_def on_ok_def core_is_def calm_def mo_clock_def split: if_splits)

lemma tracking_load:
  assumes "tracking cfg beats c"
  shows "tracking cfg beats (fold (\<lambda>item. AList.update (ls_AgentID item) item) (fst (snd c)) (fst c), snd c)"
proof -
  have "tracking cfg beats (fold (\<lambda>item. AList.update (ls_AgentID item) item) items L, snd c)"
    if "tracking cfg beats (L, snd c)" "set items \<subseteq> set (fst (snd c))" for items L
    using that
  proof (induction items arbitrary: L)
    case (Cons item items)
    have "tracked cfg beats (snd (snd c)) item" using Cons.prems by (auto simp: tracking_def)
    then have "ls_AgentID st = k \<and> tracked cfg beats (snd (snd c)) st" if "(k, st) \<in> set (AList.update (ls_AgentID item) item L)" for k st
      using set_update_distinct [OF _ that] Cons.prems(1) by (fastforce simp: tracking_def)
    then have "\<forall>(k, st) \<in> set (AList.update (ls_AgentID item) item L). ls_AgentID st = k \<and> tracked cfg beats (snd (snd c)) st"
      by blast
    then have "tracking cfg beats (AList.update (ls_AgentID item) item L, snd c)"
      using Cons.prems(1) unfolding tracking_def fst_conv snd_conv by (simp only: distinct_update simp_thms) (elim conjE, intro conjI, assumption+)
    moreover have "set items \<subseteq> set (fst (snd c))" using Cons.prems(2) by simp
    ultimately show ?case unfolding fold_simps by (rule Cons.IH)
  qed simp
  from this [of "fst c" "fst (snd c)"] assms show ?thesis by simp
qed

lemma tracking_same: "core_is c s \<Longrightarrow> c = (mo_latest s, mo_status s, mo_clock s)"
  by (simp add: core_is_def prod_eq_iff)

theorem hb_reach_tracking: "hb_reach cfg s beats \<Longrightarrow> calm s \<and> tracking cfg beats (mo_latest s, mo_status s, mo_clock s)"
proof (induction rule: hb_reach.induct)
  case (hb_start s)
  then show ?case by (simp add: tracking_def)
next
  case (hb_beat s beats req r s')
  let ?c = "(mo_latest s, mo_status s, mo_clock s)"
  have "core_is ?c s" using hb_beat.IH by (simp add: core_is_def)
  from process_core [OF this, of cfg req] obtain p' where p': "same_beat p' (hr_Payload req)" "core_is (core_beat cfg p' ?c) s'"
    using hb_beat.hyps(2) by auto
  have "tracking cfg (beats(hp_AgentID p' \<mapsto> mo_clock s)) (core_beat cfg p' ?c)"
    using tracking_beat [of cfg beats ?c p'] hb_beat.IH by simp
  with p' show ?case by (simp add: same_beat_def tracking_same [OF p'(2), symmetric] fun_upd_def)
next
  case (hb_tick s beats r s')
  let ?c = "(mo_latest s, mo_status s, mo_clock s)"
  have "core_is ?c s" using hb_tick.IH by (simp add: core_is_def)
  from reconcile_core [OF this, of cfg] have core: "core_is (fold (core_tick cfg) (fst ?c) ?c) s'" using hb_tick.hyps(2) by simp
  with reconcile_entries [of cfg beats ?c] hb_tick.IH show ?case by (simp add: tracking_same [OF core, symmetric])
next
  case (hb_read s beats r s')
  let ?c = "(mo_latest s, mo_status s, mo_clock s)"
  have c: "core_is ?c s" "tracking cfg beats ?c" using hb_read.IH by (simp_all add: core_is_def)
  from load_core [OF c(1) hb_read.hyps(2)] show ?case
  proof
    assume core: "core_is ?c s'"
    then show ?thesis using c(2) tracking_same [OF core] by simp
  next
    assume core: "core_is (fold (\<lambda>item. AList.update (ls_AgentID item) item) (fst (snd ?c)) (fst ?c), snd ?c) s'"
    show ?thesis using tracking_load [OF c(2)] core_is_calm [OF core] unfolding tracking_same [OF core] by simp
  qed
next
  case (hb_restart s beats)
  then show ?case by (simp add: tracking_def calm_def mo_clock_def)
next
  case (hb_other s beats t s')
  have "tracking cfg beats (mo_latest s, mo_status s, t)"
    using hb_other.IH hb_other.hyps(2) by (auto simp: tracking_def intro: tracked_later)
  with hb_other.hyps(3) show ?case using tracking_same [OF hb_other.hyps(3)] by simp
qed

subsection \<open>Detection of silent agents\<close>

lemma tick_verdict:
  assumes "tracked cfg beats now st"
  defines "e \<equiv> now - ls_LastHeartbeatAt st" and "state \<equiv> ls_CurrentState (fst (onTick cfg st now))"
  shows "state = StateOffline \<longleftrightarrow> OfflineAfter cfg \<le> e" "state = StateSuspect \<longleftrightarrow> SuspectAfter cfg \<le> e \<and> e < OfflineAfter cfg"
proof -
  obtain t where t: "second \<le> t" "ls_LastHeartbeatAt st \<in> {t, db_time t}" using assms(1) by (auto simp: tracked_def)
  have "db_time second \<le> db_time t" using unix_sec_mono [OF t(1)] by (simp add: db_time_def)
  then have "second \<le> db_time t" by (simp add: db_time_def unix_sec_def)
  with t have seen: "ls_LastHeartbeatAt st \<noteq> 0" by auto
  have kept: "ls_CurrentState st = StateOffline \<longrightarrow> OfflineAfter cfg \<le> e" "ls_CurrentState st = StateSuspect \<longrightarrow> SuspectAfter cfg \<le> e"
    using assms(1) by (auto simp: tracked_def e_def)
  show "state = StateOffline \<longleftrightarrow> OfflineAfter cfg \<le> e"
    using seen kept by (auto simp: state_def onTick_def silent_state_def Let_def e_def [symmetric] split: option.split)
  show "state = StateSuspect \<longleftrightarrow> SuspectAfter cfg \<le> e \<and> e < OfflineAfter cfg"
    using seen kept by (auto simp: state_def onTick_def silent_state_def Let_def e_def [symmetric] split: option.split)
qed

text \<open>C9: After every reconciliation, in any history of heartbeats, ticks, reads and restarts without a database failure, an agent is OFFLINE when its last heartbeat is at
  least \<open>OfflineAfter\<close> ago and only when that is more than \<open>OfflineAfter\<close> less one second ago; between
  \<open>SuspectAfter\<close> and that it is SUSPECT. The second is lost where rows are read back: they keep whole seconds.\<close>

theorem offline_detection:
  assumes "hb_reach cfg s beats" and "Reconcile cfg s = (r, s')" and "(agentID, st) \<in> set (mo_latest s')"
  shows "\<exists>t. beats agentID = Some t \<and>
     (OfflineAfter cfg \<le> mo_clock s - t \<longrightarrow> ls_CurrentState st = StateOffline) \<and>
     (ls_CurrentState st = StateOffline \<longrightarrow> OfflineAfter cfg - second < mo_clock s - t) \<and>
     (SuspectAfter cfg \<le> mo_clock s - t \<and> mo_clock s - t \<le> OfflineAfter cfg - second \<longrightarrow> ls_CurrentState st = StateSuspect) \<and>
     (ls_CurrentState st = StateSuspect \<longrightarrow> SuspectAfter cfg - second < mo_clock s - t \<and> mo_clock s - t < OfflineAfter cfg)"
proof -
  let ?c = "(mo_latest s, mo_status s, mo_clock s)"
  have c: "core_is ?c s" "tracking cfg beats ?c" using hb_reach_tracking [OF assms(1)] by (simp_all add: core_is_def)
  from reconcile_core [OF c(1), of cfg] assms(2) have "core_is (fold (core_tick cfg) (fst ?c) ?c) s'" by simp
  then have "mo_latest s' = map (ticked cfg (mo_clock s)) (mo_latest s)" using reconcile_entries [OF c(2)] by (simp add: core_is_def)
  with assms(3) obtain st0 where st0: "(agentID, st0) \<in> set (mo_latest s)" "st = fst (onTick cfg st0 (mo_clock s))" by (auto simp: ticked_def)
  have tr: "tracked cfg beats (mo_clock s) st0" "ls_AgentID st0 = agentID" using c(2) st0(1) by (auto simp: tracking_def)
  then obtain t where t: "beats agentID = Some t" "ls_LastHeartbeatAt st0 \<in> {t, db_time t}" by (auto simp: tracked_def)
  have "ls_LastHeartbeatAt st0 \<le> t" "t - second < ls_LastHeartbeatAt st0"
    using t(2) db_time_bounds [of t] by auto
  with t(1) tick_verdict [OF tr(1)] show ?thesis unfolding st0(2) [symmetric] by (intro exI [of _ t]) auto
qed

definition empty_monitor :: "go_time \<Rightarrow> monitor" where
  "empty_monitor t = \<lparr>mo_world = empty_world t, mo_status = [], mo_events = [], mo_agents = [], mo_latest = [], mo_snapshots = [],
     mo_tasks = [], mo_recovery = [], mo_ssh = [], mo_arrivals = []\<rparr>"

definition a_payload :: "string \<Rightarrow> string \<Rightarrow> string \<Rightarrow> hb_payload" where
  "a_payload agentID mid health = \<lparr>hp_AgentID = agentID, hp_MachineID = mid, hp_MachineName = [], hp_MachineIP = [], hp_ClusterID = [],
     hp_Hostname = [], hp_Version = [], hp_BootID = [], hp_StreamID = [], hp_Seq = 1, hp_SentAt = 0, hp_UptimeSec = 0,
     hp_HeartbeatIntervalMs = 0, hp_OverallHealth = health, hp_Summary = [], hp_Checks = [], hp_Metrics = []\<rparr>"

definition a_beat :: "string \<Rightarrow> string \<Rightarrow> string \<Rightarrow> hb_request" where
  "a_beat agentID mid health = \<lparr>hr_Payload = a_payload agentID mid health, hr_Metrics = None, hr_MySQLMetrics = None\<rparr>"

definition default_config :: hb_config where
  "default_config = NewHeartbeatConfig \<lparr>SuspectAfter = 0, OfflineAfter = 0, RecoverAfter = 0, DegradeAfter = 0, ReconcileTick = 0\<rparr>"

theorem offline_detection_witness:
  "\<exists>s s' st. hb_reach default_config s [''a1'' \<mapsto> second] \<and> mo_clock s = 41 * second \<and> Reconcile default_config s = (Inr (), s') \<and>
     (''a1'', st) \<in> set (mo_latest s') \<and> ls_CurrentState st = StateOffline"
proof -
  let ?cfg = default_config and ?s0 = "empty_monitor second" and ?req = "a_beat ''a1'' ''m1'' HealthHealthy"
  have s0: "hb_reach ?cfg ?s0 (\<lambda>_. None)" "core_is ([], [], second) ?s0"
    by (auto intro!: hb_start simp: empty_monitor_def empty_world_def calm_def mo_clock_def core_is_def)
  obtain p' r s1 where s1: "ProcessHeartbeat ?cfg ?req ?s0 = (Inr r, s1)" "same_beat p' (hr_Payload ?req)" "core_is (core_beat ?cfg p' ([], [], second)) s1"
    using process_core [OF s0(2)] by blast
  have reach1: "hb_reach ?cfg s1 [''a1'' \<mapsto> second]"
    using hb_beat [OF s0(1) s1(1)] s0(2) by (simp add: a_beat_def a_payload_def core_is_def)
  obtain st1 where latest: "mo_latest s1 = [(''a1'', st1)]" "mo_clock s1 = second"
    using s1(2,3) by (auto simp: core_is_def core_beat_def core_set_def same_beat_def a_beat_def a_payload_def)
  let ?s2 = "s1\<lparr>mo_world := (mo_world s1)\<lparr>w_clock := 41 * second\<rparr>\<rparr>"
  have s2: "core_is (mo_latest s1, mo_status s1, 41 * second) ?s2" using s1(3) by (simp add: core_is_def calm_def mo_clock_def)
  have reach2: "hb_reach ?cfg ?s2 [''a1'' \<mapsto> second]" by (rule hb_other [OF reach1 _ s2]) (simp add: latest)
  obtain s3 where s3: "Reconcile ?cfg ?s2 = (Inr (), s3)" "core_is (fold (core_tick ?cfg) (mo_latest s1) (mo_latest s1, mo_status s1, 41 * second)) s3"
    using reconcile_core [OF s2, of ?cfg] by auto
  have "\<exists>st. (''a1'', st) \<in> set (mo_latest s3)"
    using s3(2) by (auto simp: core_is_def latest core_tick_def core_set_def split: prod.splits if_splits)
  then obtain st where st: "(''a1'', st) \<in> set (mo_latest s3)" ..
  have "ls_CurrentState st = StateOffline"
    using offline_detection [OF reach2 s3(1) st] by (auto simp: mo_clock_def default_config_def NewHeartbeatConfig_def)
  with reach2 s3(1) st show ?thesis by (intro exI [of _ ?s2] exI [of _ s3] exI [of _ st]) (simp add: mo_clock_def)
qed

subsection \<open>Health\<close>

text \<open>The status after a series of heartbeats with their times, no silence in between.\<close>

definition receive_all :: "hb_config \<Rightarrow> (hb_payload \<times> go_time) list \<Rightarrow> latest_status \<Rightarrow> latest_status" where
  "receive_all cfg = fold (\<lambda>(p, t) st. fst (onReceive cfg st p t))"

definition bad_beat :: "hb_payload \<times> go_time \<Rightarrow> bool" where
  "bad_beat x \<longleftrightarrow> hp_OverallHealth (fst x) \<noteq> HealthHealthy"

definition bad_run :: "(hb_payload \<times> go_time) list \<Rightarrow> int" where
  "bad_run xs = int (length (takeWhile bad_beat (rev xs)))"

lemma bad_run_snoc: "bad_run (xs @ [x]) = (if bad_beat x then bad_run xs + 1 else 0)"
  by (simp add: bad_run_def)

text \<open>The length of the unbroken series of bad heartbeats, counted on from the stored counter when no heartbeat of
  the series was healthy.\<close>

definition bad_series :: "(hb_payload \<times> go_time) list \<Rightarrow> latest_status \<Rightarrow> int" where
  "bad_series xs st = bad_run xs + (if list_all bad_beat xs then ls_ConsecutiveBadChecks st else 0)"

lemma bad_series_snoc:
  "bad_series (xs @ [x]) st = (if bad_beat x then bad_series xs st + 1 else 0)"
  by (simp add: bad_series_def bad_run_snoc)

definition hb_states :: "string list" where
  "hb_states = [StateInit, StateOnline, StateSuspect, StateDegraded, StateOffline]"

lemma bad_series_counted: "ls_ConsecutiveBadChecks (receive_all cfg beats st) = bad_series beats st"
proof (induction beats rule: rev_induct)
  case Nil
  show ?case by (simp add: receive_all_def bad_series_def bad_run_def)
next
  case (snoc x xs)
  then show ?case by (cases x) (simp add: receive_all_def bad_series_snoc bad_beat_def onReceive_def Let_def)
qed

text \<open>C16: After any heartbeats without a silence between them, the state of an agent follows from its state before them
  (INIT, ONLINE, SUSPECT, DEGRADED or OFFLINE; an empty state counts as INIT) and from the heartbeats: a healthy last
  heartbeat makes it ONLINE, whatever \<open>RecoverAfter\<close> says; after a bad one it is DEGRADED when the unbroken series of
  bad heartbeats has reached \<open>DegradeAfter\<close>, or when no heartbeat was healthy and the agent was not ONLINE
  before; otherwise it is ONLINE.\<close>

theorem degraded_iff_bad_run:
  assumes "previous_state st \<in> set hb_states" and "beats \<noteq> []"
  shows "ls_CurrentState (receive_all cfg beats st) =
    (if \<not> bad_beat (last beats) then StateOnline
     else if DegradeAfter cfg \<le> bad_series beats st then StateDegraded
     else if list_all bad_beat beats \<and> previous_state st \<noteq> StateOnline then StateDegraded
     else StateOnline)"
  using assms(2)
proof (induction beats rule: rev_induct)
  case Nil
  then show ?case by simp
next
  case (snoc x xs)
  let ?before = "receive_all cfg xs st"
  have step: "ls_CurrentState (receive_all cfg (xs @ [x]) st) = beat_state cfg (bad_beat x) (bad_series (xs @ [x]) st) (previous_state ?before)"
    using bad_series_counted [of cfg xs st]
    by (cases x) (simp add: receive_all_def onReceive_def Let_def bad_series_snoc bad_beat_def)
  show ?case
  proof (cases "xs = []")
    case True
    then show ?thesis using assms(1) step by (auto simp: receive_all_def beat_state_def hb_states_def)
  next
    case False
    note IH = snoc.IH [OF False]
    then have prev: "previous_state ?before = ls_CurrentState ?before" by (simp add: previous_state_def)
    have "list_all bad_beat xs \<longrightarrow> bad_beat (last xs)" using False by (simp add: list_all_iff)
    then show ?thesis unfolding step prev IH by (auto simp: beat_state_def bad_series_snoc)
  qed
qed

definition health_status :: "string \<Rightarrow> latest_status" where
  "health_status state = (first_status (a_payload ''a1'' ''m1'' HealthHealthy) second)\<lparr>ls_CurrentState := state\<rparr>"

theorem degraded_iff_bad_run_witness:
  "map (\<lambda>(state, hs). ls_CurrentState (receive_all default_config (map (\<lambda>h. (a_payload ''a1'' ''m1'' h, second)) hs) (health_status state)))
     [(StateOnline, [''BAD'']), (StateOnline, [''BAD'', ''BAD'']), (StateOffline, [''BAD'']), (StateSuspect, [''BAD'']),
      (StateDegraded, [''BAD'']), (StateOffline, [HealthHealthy]), (StateInit, [HealthHealthy, ''BAD''])] =
   [StateOnline, StateDegraded, StateDegraded, StateDegraded, StateDegraded, StateOnline, StateOnline]"
proof -
  have prev: "previous_state (health_status state) \<in> set hb_states" if "state \<in> set hb_states" for state
    using that by (auto simp: health_status_def previous_state_def hb_states_def)
  have known: "StateOnline \<in> set hb_states" "StateOffline \<in> set hb_states" "StateSuspect \<in> set hb_states"
    "StateDegraded \<in> set hb_states" "StateInit \<in> set hb_states" by (simp_all add: hb_states_def)
  show ?thesis
    using prev [OF known(1)] prev [OF known(2)] prev [OF known(3)] prev [OF known(4)] prev [OF known(5)]
    by (simp add: degraded_iff_bad_run)
       (simp add: health_status_def first_status_def previous_state_def bad_series_def bad_run_def bad_beat_def a_payload_def
          default_config_def NewHeartbeatConfig_def)
qed

subsection \<open>Agents that have never been healthy\<close>

lemma unhealthy_hides_all:
  assumes "calm s" and "map_of (mo_latest s) (hp_AgentID (hr_Payload req)) = None" and "hp_OverallHealth (hr_Payload req) \<noteq> HealthHealthy"
    and "ProcessHeartbeat cfg req s = (r, s')"
  shows "is_ok r \<and> calm s' \<and> LoadLatest s' = (Inl null_scan_error, s')"
proof -
  let ?c = "(mo_latest s, mo_status s, mo_clock s)"
  have "core_is ?c s" using assms(1) by (simp add: core_is_def)
  from process_core [OF this, of cfg req] assms(4) obtain p' x where p': "same_beat p' (hr_Payload req)" "core_is (core_beat cfg p' ?c) s'" "r = Inr x"
    by auto
  let ?st = "fst (onReceive cfg (first_status p' (mo_clock s)) p' (mo_clock s))"
  have "map_get (first_status p' (mo_clock s)) (map_of (mo_latest s)) (hp_AgentID p') = first_status p' (mo_clock s)"
    using assms(2) p'(1) by (simp add: map_get_def same_beat_def)
  with p'(2) have rows: "mo_status s' = upsert_status_row (status_row ?st) (mo_status s)" by (simp add: core_is_def core_beat_def core_set_def)
  have "ls_LastHealthyAt (status_row ?st) = None"
    using assms(3) p'(1) by (simp add: onReceive_def first_status_def status_row_def same_beat_def Let_def)
  moreover have "status_row ?st \<in> set (mo_status s')" unfolding rows by (auto simp: upsert_status_row_def)
  ultimately have "\<exists>row \<in> set (mo_status s'). ls_LastHealthyAt row = None" by blast
  then have "LoadLatest s' = (Inl null_scan_error, s')"
    using p'(2) by (simp add: LoadLatest_def ListLatest_def on_ok_def)
  with p' show ?thesis by simp
qed

end
