(* ===== verification/Heartbeat_Laws.thy ===== *)
theory Heartbeat_Laws
  imports Heartbeat_Facts
begin

text \<open>
  Two laws of the heartbeat service that hold whatever the database answers: the states of the agents and the
  changes the event log records are those of the state machine, and waiting for an agent ends at its deadline.
\<close>

subsection \<open>States and changes\<close>

text \<open>The arrows of the state machine: a heartbeat leads to ONLINE or DEGRADED, silence to SUSPECT and OFFLINE, and
  never from OFFLINE to SUSPECT.\<close>

definition legal_change :: "string \<Rightarrow> string \<Rightarrow> bool" where
  "legal_change old new \<longleftrightarrow> old \<in> set hb_states \<and> old \<noteq> new \<and>
     (new \<in> {StateOnline, StateDegraded, StateOffline} \<or> (new = StateSuspect \<and> old \<noteq> StateOffline))"

definition typed :: "monitor \<Rightarrow> bool" where
  "typed s \<longleftrightarrow> (\<forall>(a, st) \<in> set (mo_latest s). ls_AgentID st = a \<and> ls_CurrentState st \<in> set hb_states) \<and>
     (\<forall>st \<in> set (mo_status s). ls_CurrentState st \<in> set hb_states) \<and> distinct (map ls_AgentID (mo_status s)) \<and>
     (\<forall>e \<in> set (mo_events s). legal_change (se_PrevState e) (se_NewState e))"

definition typed_status :: "string \<Rightarrow> latest_status \<Rightarrow> bool" where
  "typed_status a st \<longleftrightarrow> ls_AgentID st = a \<and> ls_CurrentState st \<in> set hb_states"

lemma typed_fields [simp]:
  "typed (s\<lparr>mo_world := w\<rparr>) = typed s" "typed (s\<lparr>mo_agents := ags\<rparr>) = typed s" "typed (s\<lparr>mo_snapshots := sn\<rparr>) = typed s"
  "typed (s\<lparr>mo_arrivals := arr\<rparr>) = typed s"
  by (simp_all add: typed_def)

lemma typed_entry: "typed s \<Longrightarrow> (a, st) \<in> set (mo_latest s) \<Longrightarrow> typed_status a st"
  by (auto simp: typed_def typed_status_def)

lemma set_update: "(k, v) \<in> set (AList.update k' v' xs) \<Longrightarrow> (k, v) = (k', v') \<or> (k, v) \<in> set xs"
  by (induction xs) (auto split: if_splits)

lemma typed_update: "typed s \<Longrightarrow> typed_status a st \<Longrightarrow> typed (s\<lparr>mo_latest := AList.update a st (mo_latest s)\<rparr>)"
  by (auto simp: typed_def typed_status_def dest!: set_update)

lemma upsert_set: "r \<in> set (upsert_status_row item rows) \<Longrightarrow> r = item \<or> r \<in> set rows"
  by (auto simp: upsert_status_row_def split: if_splits)

lemma upsert_distinct: "distinct (map ls_AgentID rows) \<Longrightarrow> distinct (map ls_AgentID (upsert_status_row item rows))"
proof -
  assume "distinct (map ls_AgentID rows)"
  moreover have "map ls_AgentID (map (\<lambda>row. if ls_AgentID row = ls_AgentID item then item else row) rows) = map ls_AgentID rows" by simp
  ultimately show ?thesis by (auto simp: upsert_status_row_def simp del: map_map)
qed

subsection \<open>Methods that keep them\<close>

named_theorems typed_rules \<open>methods that keep the states typed\<close>

lemma typed_world [typed_rules]: "preserves typed (on_mon_world m)"
  by (rule validI) (auto simp: on_mon_world_def split: prod.splits)

lemma typed_statement: "(\<And>s. typed s \<Longrightarrow> typed (f s)) \<Longrightarrow> preserves typed (mon_statement f)"
  unfolding mon_statement_def by (intro op_rules typed_world)

lemma typed_query [typed_rules]: "preserves typed (mon_query f)"
  unfolding mon_query_def by (intro op_rules typed_world)

lemma typed_ignore [typed_rules]: "preserves typed m \<Longrightarrow> preserves typed (mon_ignore m)"
  unfolding mon_ignore_def by (intro op_rules)

lemma typed_in_ctx [typed_rules]: "preserves typed m \<Longrightarrow> preserves typed (in_ctx ctx m)"
  unfolding valid_def in_ctx_def by (auto split: option.splits if_splits)

lemma typed_basic [typed_rules]: "preserves typed (ret x)" "preserves typed (fail_with e)" "preserves typed (gets h)"
  by (auto intro: op_rules)

lemma typed_gets: "(\<And>s. typed s \<Longrightarrow> C (h s)) \<Longrightarrow> (\<And>x. C x \<Longrightarrow> preserves typed (f x)) \<Longrightarrow> preserves typed (on_ok (gets h) f)"
  unfolding valid_def on_ok_gets by blast

lemma preserves_triple: "(\<And>x y z. t = (x, y, z) \<Longrightarrow> preserves P (f x y z)) \<Longrightarrow> preserves P (case t of (x, y, z) \<Rightarrow> f x y z)"
  by (cases t) auto

lemma typed_agents [typed_rules]: "preserves typed (UpdateAgentState mid st err)" "preserves typed (UpdateAgentHeartbeat mid at)"
  unfolding UpdateAgentState_def UpdateAgentHeartbeat_def by (intro typed_statement; simp)+

lemma typed_upsert: "ls_CurrentState item \<in> set hb_states \<Longrightarrow> preserves typed (UpsertLatestStatus item)"
  unfolding UpsertLatestStatus_def
  by (intro typed_statement) (auto simp: typed_def status_row_def upsert_distinct dest!: upsert_set)

lemma typed_event: "legal_change (se_PrevState e) (se_NewState e) \<Longrightarrow> preserves typed (AppendEvent e)"
  unfolding AppendEvent_def by (intro typed_statement) (auto simp: typed_def)

lemma typed_remember: "typed_status a item \<Longrightarrow> preserves typed (modify (remember a item))"
  by (rule valid_modify) (simp add: remember_def typed_update)

lemma typed_sync [typed_rules]: "preserves typed (syncOperationalState item)"
  unfolding syncOperationalState_def syncMySQLState_def by (intro op_rules typed_rules)

lemma typed_snapshot [typed_rules]: "preserves typed (dashboardMetricSnapshot a ms now)"
  unfolding dashboardMetricSnapshot_def Let_def by (rule validI) (auto split: if_splits)

lemma typed_append [typed_rules]: "preserves typed (append_metrics ms)"
  unfolding append_metrics_def by (intro op_rules typed_rules)

lemma typed_enrich [typed_rules]: "preserves typed (enrichAlertPayload p)" "preserves typed (filterUnregisteredMySQLMetrics p)"
proof -
  show "preserves typed (enrichAlertPayload p)" unfolding enrichAlertPayload_def Let_def by (intro op_rules typed_rules)
  have "preserves typed (filter_metric mid m acc)" for mid m acc unfolding filter_metric_def by (intro op_rules typed_rules)
  then show "preserves typed (filterUnregisteredMySQLMetrics p)" unfolding filterUnregisteredMySQLMetrics_def by (intro op_rules typed_rules)
qed

subsection \<open>Heartbeats and silence\<close>

lemma beat_state_known: "prev \<in> set hb_states \<Longrightarrow> beat_state cfg bad bads prev \<in> set hb_states"
  by (auto simp: beat_state_def hb_states_def)

lemma beat_state_legal: "prev \<in> set hb_states \<Longrightarrow> beat_state cfg bad bads prev \<noteq> prev \<Longrightarrow> legal_change prev (beat_state cfg bad bads prev)"
  by (auto simp: beat_state_def legal_change_def split: if_splits)

lemma onReceive_typed:
  assumes "onReceive cfg cur payload now = (item, changed, reason)" and "ls_CurrentState cur \<in> set hb_states"
  shows "typed_status (hp_AgentID payload) item" and "changed \<Longrightarrow> legal_change (ls_CurrentState cur) (ls_CurrentState item)"
proof -
  have prev: "previous_state cur = ls_CurrentState cur" using assms(2) by (auto simp: previous_state_def hb_states_def)
  show "typed_status (hp_AgentID payload) item"
    using assms prev by (auto simp: onReceive_def Let_def typed_status_def beat_state_known)
  show "changed \<Longrightarrow> legal_change (ls_CurrentState cur) (ls_CurrentState item)"
    using assms prev beat_state_legal [of "ls_CurrentState cur"] by (auto simp: onReceive_def Let_def)
qed

lemma onTick_typed:
  assumes "onTick cfg cur now = (item, True, reason)" and "typed_status a cur"
  shows "typed_status a item" and "legal_change (ls_CurrentState cur) (ls_CurrentState item)"
  using assms by (auto simp: onTick_def silent_state_def typed_status_def legal_change_def hb_states_def Let_def split: if_splits option.splits)

lemma typed_current: "typed s \<Longrightarrow> ls_CurrentState (current_status payload now s) \<in> set hb_states"
  using typed_entry [OF _ map_of_SomeD]
  by (fastforce simp: current_status_def map_get_def first_status_def hb_states_def typed_status_def split: option.splits)

lemma typed_heartbeat: "preserves typed (ProcessHeartbeat cfg req)"
proof -
  have finish: "preserves typed (on_ok (modify (remember (hp_AgentID payload) item)) (\<lambda>_.
     on_ok (UpsertLatestStatus item) (\<lambda>_.
     on_ok (dashboardMetricSnapshot (ls_AgentID item) (ls_Metrics item) now) (\<lambda>metrics.
     on_ok (append_metrics metrics) (\<lambda>_.
     on_ok (append_metrics (ls_Metrics item)) (\<lambda>_.
     on_ok (syncOperationalState item) (\<lambda>_.
     on_ok (if changed then mon_ignore (AppendEvent (buildEvent cur item reason payload now)) else ret ()) (\<lambda>_.
       ret (ls_CurrentState item, reason)))))))))"
    if r: "onReceive cfg cur payload now = (item, changed, reason)" and c: "ls_CurrentState cur \<in> set hb_states" for cur payload now item changed reason
  proof -
    have "preserves typed (if changed then mon_ignore (AppendEvent (buildEvent cur item reason payload now)) else ret ())"
      using onReceive_typed(2) [OF r c] by (cases changed) (simp_all add: typed_ignore typed_event typed_basic buildEvent_def)
    moreover have "preserves typed (UpsertLatestStatus item)" using onReceive_typed(1) [OF r c] by (intro typed_upsert) (simp add: typed_status_def)
    ultimately show ?thesis
      by (intro preserves_on_ok typed_remember [OF onReceive_typed(1) [OF r c]] typed_snapshot typed_append typed_sync typed_basic)
  qed
  have "preserves typed (on_ok (gets (current_status payload now)) (\<lambda>cur. case onReceive cfg cur payload now of (item, changed, reason) \<Rightarrow>
     on_ok (modify (remember (hp_AgentID payload) item)) (\<lambda>_.
     on_ok (UpsertLatestStatus item) (\<lambda>_.
     on_ok (dashboardMetricSnapshot (ls_AgentID item) (ls_Metrics item) now) (\<lambda>metrics.
     on_ok (append_metrics metrics) (\<lambda>_.
     on_ok (append_metrics (ls_Metrics item)) (\<lambda>_.
     on_ok (syncOperationalState item) (\<lambda>_.
     on_ok (if changed then mon_ignore (AppendEvent (buildEvent cur item reason payload now)) else ret ()) (\<lambda>_.
       ret (ls_CurrentState item, reason))))))))))" for payload now
    by (rule typed_gets [where C = "\<lambda>cur. ls_CurrentState cur \<in> set hb_states", OF typed_current])
      (assumption, rule preserves_triple, rule finish)
  then show ?thesis unfolding ProcessHeartbeat_def
    by (rule preserves_on_ok [OF typed_basic(3) preserves_on_ok [OF typed_enrich(1) preserves_on_ok [OF typed_enrich(2)]]])
qed

lemma typed_reconcile: "preserves typed (Reconcile cfg)"
proof -
  have agent: "preserves typed (reconcile_agent cfg now (a, st))" if "typed_status a st" for now a st
  proof (cases "fst (snd (onTick cfg st now))")
    case True
    then obtain item reason where t: "onTick cfg st now = (item, True, reason)" by (metis prod.collapse)
    have "preserves typed (UpsertLatestStatus item)" using onTick_typed(1) [OF t that] by (intro typed_upsert) (simp add: typed_status_def)
    moreover have "preserves typed (AppendEvent (buildEvent st item reason (silent_payload st) now))"
      using onTick_typed(2) [OF t that] by (intro typed_event) (simp add: buildEvent_def)
    ultimately show ?thesis unfolding reconcile_agent_def by (simp add: t) (intro preserves_on_ok typed_ignore typed_sync typed_remember [OF onTick_typed(1) [OF t that]])
  next
    case False
    then show ?thesis unfolding reconcile_agent_def by (auto split: prod.splits intro: typed_basic)
  qed
  have "preserves typed (for_ok (reconcile_agent cfg now) latest)" if "\<forall>(a, st) \<in> set latest. typed_status a st" for now latest
    using that by (intro preserves_for_ok) (auto intro: agent)
  then have "preserves typed (on_ok (gets mo_latest) (\<lambda>latest. for_ok (reconcile_agent cfg now) latest))" for now
    by (rule typed_gets [where C = "\<lambda>latest. \<forall>(a, st) \<in> set latest. typed_status a st", rotated]) (auto simp: typed_entry)
  then show ?thesis unfolding Reconcile_def by (rule preserves_on_ok [OF typed_basic(3)])
qed

lemma typed_load [typed_rules]: "preserves typed LoadLatest" "preserves typed (HB_GetByMachineID mid)" "preserves typed (getByMachineIDRefreshing mid)"
proof -
  have fill: "typed (s\<lparr>mo_latest := fold (\<lambda>item. AList.update (ls_AgentID item) item) items (mo_latest s)\<rparr>)"
    if "typed s" "\<forall>st \<in> set items. ls_CurrentState st \<in> set hb_states" for s items
    using that
  proof (induction items arbitrary: s)
    case (Cons item items)
    have "typed (s\<lparr>mo_latest := AList.update (ls_AgentID item) item (mo_latest s)\<rparr>)"
      using Cons.prems by (intro typed_update) (simp_all add: typed_status_def)
    from Cons.IH [OF this] Cons.prems show ?case by simp
  qed simp
  show load: "preserves typed LoadLatest"
  proof (rule validI)
    fix s r s'
    assume s: "typed s" and run: "LoadLatest s = (r, s')"
    obtain q v where query: "on_mon_world db_call s = (q, v)" by (rule prod.exhaust)
    have v: "typed v" using validD [OF typed_world s query] .
    show "typed s'"
      using run v fill [OF v, of "mo_status v"] query
      by (auto simp: LoadLatest_def ListLatest_def mon_query_def on_ok_def typed_def split: sum.splits if_splits)
  qed
  show "preserves typed (HB_GetByMachineID mid)" for mid unfolding HB_GetByMachineID_def by (intro op_rules typed_rules load)
  then show "preserves typed (getByMachineIDRefreshing mid)" unfolding getByMachineIDRefreshing_def by (intro op_rules load)
qed

lemma typed_remove: "preserves typed (RemoveMachine mid)"
proof -
  have "preserves typed (DeleteHeartbeatsByMachineID mid)" unfolding DeleteHeartbeatsByMachineID_def
    by (intro preserves_on_ok preserves_for_ok typed_world valid_modify) (auto simp: typed_def distinct_map_filter)
  then show ?thesis unfolding RemoveMachine_def by (intro preserves_on_ok valid_modify) (auto simp: typed_def)
qed

lemma typed_clock [typed_rules]: "preserves typed (set_clock t)"
  unfolding set_clock_def by (rule valid_modify) simp

lemma typed_deliver: "preserves typed (deliver cfg until arrivals)"
proof (induction cfg until arrivals rule: deliver.induct)
  case (1 cfg until)
  show ?case unfolding deliver.simps by (rule typed_clock)
next
  case (2 cfg until d a rest)
  have "preserves typed (handle cfg a)" unfolding handle_def
    by (cases a) (auto intro: typed_ignore typed_heartbeat typed_reconcile)
  then have "d \<le> until \<Longrightarrow> preserves typed (on_ok (modify (\<lambda>s. s\<lparr>mo_arrivals := rest\<rparr>)) (\<lambda>_. on_ok (set_clock d) (\<lambda>_.
           on_ok (handle cfg a) (\<lambda>_. deliver cfg until rest))))"
    using 2 by (intro preserves_on_ok typed_clock valid_modify) simp_all
  then show ?case unfolding deliver.simps by (cases "d \<le> until") (simp_all only: if_True if_False typed_clock simp_thms)
qed

lemma typed_pass [typed_rules]: "preserves typed (pass cfg d)"
  unfolding pass_def by (intro preserves_on_ok typed_basic typed_deliver)

lemma typed_wait: "preserves typed (WaitForOnline cfg ctx mid timeout)" "preserves typed (WaitForFreshHeartbeat cfg ctx mid start timeout)"
proof -
  have "preserves typed (wait_online cfg deadline mid err n)" for deadline err n
  proof (induction n arbitrary: err)
    case 0
    show ?case unfolding wait_online.simps timed_out_def by (rule typed_basic)
  next
    case (Suc n)
    show ?case unfolding wait_online.simps timed_out_def by (intro preserves_on_ok preserves_if typed_rules Suc.IH)
  qed
  then show "preserves typed (WaitForOnline cfg ctx mid timeout)" unfolding WaitForOnline_def by (intro preserves_on_ok typed_basic)
  have "preserves typed (wait_fresh cfg deadline mid start n)" for deadline n
    by (induction n) (unfold wait_fresh.simps, rule typed_basic, intro preserves_on_ok preserves_if typed_rules)
  then show "preserves typed (WaitForFreshHeartbeat cfg ctx mid start timeout)" unfolding WaitForFreshHeartbeat_def by (intro preserves_on_ok typed_basic)
qed

subsection \<open>Histories\<close>

text \<open>What happens to a manager that starts without agents: heartbeats, ticks, reads, removals, waiting, and any change of the
  rest of the world, the failures of the database included.\<close>

inductive hb_history :: "hb_config \<Rightarrow> monitor \<Rightarrow> bool" for cfg where
  history_start: "mo_latest s = [] \<Longrightarrow> mo_status s = [] \<Longrightarrow> mo_events s = [] \<Longrightarrow> hb_history cfg s"
| history_world: "hb_history cfg s \<Longrightarrow> hb_history cfg (s\<lparr>mo_world := w\<rparr>)"
| history_beat: "hb_history cfg s \<Longrightarrow> ProcessHeartbeat cfg req s = (r1, s') \<Longrightarrow> hb_history cfg s'"
| history_tick: "hb_history cfg s \<Longrightarrow> Reconcile cfg s = (r2, s') \<Longrightarrow> hb_history cfg s'"
| history_read: "hb_history cfg s \<Longrightarrow> HB_GetByMachineID mid s = (r3, s') \<Longrightarrow> hb_history cfg s'"
| history_remove: "hb_history cfg s \<Longrightarrow> RemoveMachine mid s = (r4, s') \<Longrightarrow> hb_history cfg s'"
| history_online: "hb_history cfg s \<Longrightarrow> WaitForOnline cfg ctx mid timeout s = (r5, s') \<Longrightarrow> hb_history cfg s'"
| history_fresh: "hb_history cfg s \<Longrightarrow> WaitForFreshHeartbeat cfg ctx mid since timeout s = (r6, s') \<Longrightarrow> hb_history cfg s'"

text \<open>C12: In every history of the heartbeat service, with any failures of the database, each agent kept in memory has its own
  id as key and one of the five states, the table has one row for an agent and only the five states, and every recorded
  change is an arrow of the state machine: never to INIT, never from OFFLINE to SUSPECT, never from a state to itself.\<close>

theorem heartbeat_states_typed:
  assumes "hb_history cfg s"
  shows "typed s"
  using assms
proof (induction rule: hb_history.induct)
  case (history_start s)
  then show ?case by (simp add: typed_def)
next
  case (history_world s w)
  then show ?case by simp
qed (blast intro: validD [OF typed_heartbeat] validD [OF typed_reconcile] validD [OF typed_load(2)] validD [OF typed_remove]
  validD [OF typed_wait(1)] validD [OF typed_wait(2)])+

theorem heartbeat_states_typed_witness:
  "\<exists>s. hb_history default_config s \<and> mo_latest s \<noteq> [] \<and> typed s"
proof -
  let ?s = "snd (ProcessHeartbeat default_config (a_beat ''a1'' ''m1'' HealthHealthy) (empty_monitor second))"
  have "hb_history default_config (empty_monitor second)" by (rule history_start) (simp_all add: empty_monitor_def)
  then have h: "hb_history default_config ?s" by (rule history_beat) (rule surjective_pairing)
  moreover have "mo_latest ?s \<noteq> []" by code_simp
  ultimately show ?thesis using heartbeat_states_typed [OF h] by blast
qed

subsection \<open>Waiting ends\<close>

lemma db_call_clock: "db_call w = (r, w') \<Longrightarrow> w_clock w' = w_clock w"
  by (auto simp: db_call_def split: list.splits option.splits)

lemma query_clock: "mon_query f s = (r, s') \<Longrightarrow> mo_clock s' = mo_clock s"
  by (auto simp: mon_query_def on_mon_world_def mo_clock_def on_ok_def dest!: db_call_clock split: prod.splits sum.splits)

lemma load_clock: "LoadLatest s = (r, s') \<Longrightarrow> mo_clock s' = mo_clock s"
  unfolding LoadLatest_def ListLatest_def
  by (auto elim!: on_ok_cases dest!: query_clock simp: mo_clock_def split: if_splits)

lemma refresh_clock: "in_ctx ctx (getByMachineIDRefreshing mid) s = (r, s') \<Longrightarrow> mo_clock s' = mo_clock s"
  by (auto simp: in_ctx_def getByMachineIDRefreshing_def HB_GetByMachineID_def dest!: load_clock elim!: on_ok_cases split: option.splits if_splits)

lemma clock_deliver: "deliver cfg until arrivals s = (r, s') \<Longrightarrow> until \<le> mo_clock s'"
proof (induction cfg until arrivals arbitrary: s rule: deliver.induct)
  case (1 cfg until)
  then show ?case by (auto simp: set_clock_def mo_clock_def)
next
  case (2 cfg until t a rest)
  show ?case
  proof (cases "t \<le> until")
    case True
    with 2(2) show ?thesis by (auto simp: set_clock_def handle_def mon_ignore_result on_ok_def split: arrival.splits prod.splits sum.splits intro: 2(1) [OF True])
  next
    case False
    with 2(2) show ?thesis by (auto simp: set_clock_def mo_clock_def)
  qed
qed

lemma pass_succeeds: "pass cfg d s = (r, s') \<Longrightarrow> r = Inr ()"
proof -
  have "is_ok (fst (deliver cfg until arrivals v))" for until arrivals v
    by (induction cfg until arrivals arbitrary: v rule: deliver.induct)
      (simp_all add: set_clock_def handle_def mon_ignore_result on_ok_def split: arrival.split)
  then show "pass cfg d s = (r, s') \<Longrightarrow> r = Inr ()" by (auto simp: pass_def is_ok_iff) (metis fst_conv)
qed

lemma clock_pass: "pass cfg d s = (r, s') \<Longrightarrow> mo_clock s + d \<le> mo_clock s'"
  by (auto simp: pass_def dest: clock_deliver)

lemma looks_less:
  assumes "\<not> deadline \<le> now + second" "now + second \<le> t"
  shows "looks deadline t < looks deadline now"
proof -
  have "deadline - t \<le> deadline - now - second" using assms(2) by simp
  then have "(deadline - t) div second \<le> (deadline - now - second) div second" by (rule zdiv_mono1) simp
  moreover have "(deadline - now) div second = (deadline - now - second) div second + 1"
    using div_add_self2 [of second "deadline - now - second"] by simp
  moreover have "0 \<le> (deadline - now - second) div second" using assms(1) by (simp add: pos_imp_zdiv_nonneg_iff)
  ultimately show ?thesis unfolding looks_def by linarith
qed

text \<open>Any number of looks from \<open>looks\<close> on gives the same result: the loop ends by itself.\<close>

lemma wait_online_looks:
  "looks deadline (mo_clock s) \<le> n \<Longrightarrow> looks deadline (mo_clock s) \<le> k \<Longrightarrow>
     wait_online cfg deadline mid err n s = wait_online cfg deadline mid err k s"
proof (induction n arbitrary: k s err)
  case 0
  then show ?case by (simp add: looks_def)
next
  case (Suc n)
  from Suc.prems(2) obtain k' where k: "k = Suc k'" by (cases k) (simp_all add: looks_def)
  obtain r v where look: "in_ctx (Some deadline) (getByMachineIDRefreshing mid) s = (r, v)" by (rule prod.exhaust)
  have clock: "mo_clock v = mo_clock s" using refresh_clock [OF look] .
  show ?case
  proof (cases "\<exists>found. r = Inr found \<and> \<not> alive found \<and> \<not> deadline \<le> mo_clock v + second")
    case True
    then obtain found where found: "r = Inr found" "\<not> alive found" "\<not> deadline \<le> mo_clock v + second" by blast
    obtain q u where wait: "pass cfg second v = (q, u)" by (rule prod.exhaust)
    have "looks deadline (mo_clock u) < looks deadline (mo_clock s)"
      using looks_less [OF found(3) clock_pass [OF wait]] clock by simp
    with Suc.prems k have "wait_online cfg deadline mid err' n u = wait_online cfg deadline mid err' k' u" for err'
      by (intro Suc.IH) simp_all
    then show ?thesis using found wait look k by (simp add: on_ok_def split: sum.split)
  next
    case False
    then show ?thesis unfolding k wait_online.simps on_ok_def look by (auto split: sum.split prod.split)
  qed
qed

text \<open>The state in which the loop looks for the \<open>i\<close>-th time: every look that decides nothing is followed by one second.\<close>

definition look_state :: "hb_config \<Rightarrow> string \<Rightarrow> nat \<Rightarrow> monitor \<Rightarrow> monitor" where
  "look_state cfg mid i s = ((\<lambda>u. snd (pass cfg second (snd (getByMachineIDRefreshing mid u)))) ^^ i) s"

lemma look_state_simps [simp]:
  "look_state cfg mid 0 s = s"
  "look_state cfg mid (Suc i) s = look_state cfg mid i (snd (pass cfg second (snd (getByMachineIDRefreshing mid s))))"
  by (simp_all add: look_state_def funpow_Suc_right del: funpow.simps(2))

definition dead_look :: "string \<Rightarrow> go_time \<Rightarrow> monitor \<Rightarrow> bool" where
  "dead_look mid deadline u \<longleftrightarrow> mo_clock u < deadline \<and> (\<exists>found. fst (getByMachineIDRefreshing mid u) = Inr found \<and> \<not> alive found)"

text \<open>The loop decided at its look number \<open>k\<close>: all looks before it were made in time, read the table and found the agent not
  alive; success is a look that found it alive; an error is one of the table in this very look, or comes at the deadline.\<close>

definition decided_at :: "hb_config \<Rightarrow> string \<Rightarrow> go_time \<Rightarrow> monitor \<Rightarrow> unit result \<Rightarrow> monitor \<Rightarrow> nat \<Rightarrow> bool" where
  "decided_at cfg mid deadline s r s' k \<longleftrightarrow>
     (\<forall>i < k. dead_look mid deadline (look_state cfg mid i s)) \<and>
     (case r of
        Inr _ \<Rightarrow> \<exists>found. getByMachineIDRefreshing mid (look_state cfg mid k s) = (Inr found, s') \<and> alive found
      | Inl e \<Rightarrow> deadline \<le> mo_clock s' \<or> getByMachineIDRefreshing mid (look_state cfg mid k s) = (Inl e, s'))"

lemma decided_later:
  assumes "dead_look mid deadline s" "decided_at cfg mid deadline (look_state cfg mid 1 s) r s' k"
  shows "decided_at cfg mid deadline s r s' (Suc k)"
  using assms by (auto simp: decided_at_def less_Suc_eq_0_disj split: sum.splits)

lemma wait_online_decided:
  "wait_online cfg deadline mid err n s = (r, s') \<Longrightarrow> looks deadline (mo_clock s) \<le> n \<Longrightarrow>
     \<exists>k < looks deadline (mo_clock s). decided_at cfg mid deadline s r s' k"
proof (induction n arbitrary: s err)
  case 0
  then show ?case by (simp add: looks_def)
next
  case (Suc n)
  have now: ?case if "decided_at cfg mid deadline s r s' 0" using that by (auto simp: looks_def)
  obtain q v where look: "in_ctx (Some deadline) (getByMachineIDRefreshing mid) s = (q, v)" by (rule prod.exhaust)
  have clock: "mo_clock v = mo_clock s" using refresh_clock [OF look] .
  show ?case
  proof (cases q)
    case (Inl e)
    with Suc.prems(1) look have "r = Inl e" "v = s'" by (simp_all add: on_ok_def)
    with look Inl show ?thesis by (intro now) (auto simp: in_ctx_def decided_at_def split: if_splits)
  next
    case (Inr found)
    with look have get: "getByMachineIDRefreshing mid s = (Inr found, v)" "mo_clock s < deadline"
      by (auto simp: in_ctx_def split: if_splits)
    show ?thesis
    proof (cases "alive found")
      case True
      with Suc.prems(1) look Inr have "r = Inr ()" "v = s'" by (simp_all add: on_ok_def)
      with get True show ?thesis by (intro now) (simp add: decided_at_def)
    next
      case False
      with Suc.prems(1) look Inr have rest: "(if deadline \<le> mo_clock v + second
         then on_ok (pass cfg (deadline - mo_clock v)) (\<lambda>_. timed_out (wait_error err found))
         else on_ok (pass cfg second) (\<lambda>_. wait_online cfg deadline mid (wait_error err found) n)) v = (r, s')"
        by (simp add: on_ok_def)
      obtain p u where wait: "pass cfg second v = (p, u)" by (rule prod.exhaust)
      show ?thesis
      proof (cases "deadline \<le> mo_clock v + second")
        case True
        with rest have "(\<exists>e. r = Inl e) \<and> deadline \<le> mo_clock s'"
          by (auto elim!: on_ok_cases dest!: clock_pass dest: pass_succeeds simp: timed_out_def)
        then show ?thesis by (intro now) (auto simp: decided_at_def)
      next
        case go_on: False
        with rest wait pass_succeeds [OF wait] have "wait_online cfg deadline mid (wait_error err found) n u = (r, s')"
          by (simp add: on_ok_def)
        moreover have less: "looks deadline (mo_clock u) < looks deadline (mo_clock s)"
          using looks_less [OF go_on clock_pass [OF wait]] clock by simp
        moreover have "looks deadline (mo_clock u) \<le> n" using less Suc.prems(2) by simp
        ultimately obtain k where k: "k < looks deadline (mo_clock u)" "decided_at cfg mid deadline u r s' k"
          using Suc.IH by blast
        have "decided_at cfg mid deadline s r s' (Suc k)"
          by (rule decided_later) (use get False wait k(2) in \<open>simp_all add: dead_look_def\<close>)
        with k(1) less show ?thesis by (intro exI [of _ "Suc k"]) simp
      qed
    qed
  qed
qed

text \<open>C15: Waiting for an agent to come online ends: the loop the code writes without a bound decides in one of its first
  \<open>looks\<close> looks (one more than there are whole seconds to the deadline), and every bound from there on gives the same
  result. All looks before the deciding one were made before the deadline, could read the table and found the agent
  missing or not alive. Success means that the deciding look found it ONLINE or DEGRADED; an error is either the error of reading the
  table in the deciding look itself, or is reported at the deadline and not before it.\<close>

theorem WaitForOnline_ends:
  assumes "looks (wait_deadline ctx timeout (mo_clock s)) (mo_clock s) \<le> n" and "WaitForOnline cfg ctx mid timeout s = (r, s')"
  shows "wait_online cfg (wait_deadline ctx timeout (mo_clock s)) mid [] n s = (r, s') \<and>
    (\<exists>k < looks (wait_deadline ctx timeout (mo_clock s)) (mo_clock s).
       decided_at cfg mid (wait_deadline ctx timeout (mo_clock s)) s r s' k)"
proof -
  have run: "wait_online cfg (wait_deadline ctx timeout (mo_clock s)) mid [] n s = (r, s')"
    using assms(2) wait_online_looks [OF assms(1) order_refl] by (simp add: WaitForOnline_def)
  then show ?thesis using wait_online_decided [OF _ assms(1)] by blast
qed

text \<open>No agent ever reports: the wait of twenty seconds ends with an error at its deadline, not before.\<close>

lemma silent_wait: "fst (WaitForOnline default_config None ''m1'' (20 * second) (empty_monitor second)) =
    Inl (Error ''timed out waiting for first agent heartbeat'')"
  by code_simp

theorem WaitForOnline_ends_witness:
  "\<exists>s' k. wait_online default_config (21 * second) ''m1'' [] 30 (empty_monitor second) =
       (Inl (Error ''timed out waiting for first agent heartbeat''), s') \<and>
     k < 21 \<and> decided_at default_config ''m1'' (21 * second) (empty_monitor second)
       (Inl (Error ''timed out waiting for first agent heartbeat'')) s' k"
proof -
  obtain s' where run: "WaitForOnline default_config None ''m1'' (20 * second) (empty_monitor second) =
      (Inl (Error ''timed out waiting for first agent heartbeat''), s')"
    using silent_wait by (metis prod.collapse)
  have clock: "mo_clock (empty_monitor second) = second" by (simp add: empty_monitor_def empty_world_def mo_clock_def)
  have dl: "wait_deadline None (20 * second) second = 21 * second" by (simp add: wait_deadline_def)
  have looks: "looks (21 * second) second = 21" by (simp add: looks_def)
  have bound: "looks (21 * second) second \<le> 30" unfolding looks by simp
  show ?thesis
    using WaitForOnline_ends [OF _ run, of 30, unfolded clock dl, OF bound] unfolding looks by blast
qed

end
