(* ===== verification/Recovery.thy ===== *)
theory Recovery
  imports Heartbeat
begin

text \<open>
  The recovery service of \<open>internal/app/recovery_service.go\<close>: an agent whose heartbeats have stopped is inspected, started or
  restarted over SSH, under a lock per machine, with a pause after repeated failures. What the machines answer is
  the parameter \<open>ssh\<close>; while a command runs or the service waits, heartbeats and ticks arrive. The goroutine of a
  manual recovery runs right after the call that starts it.
\<close>

subsection \<open>Configuration\<close>

abbreviation ScanInterval :: duration where "ScanInterval \<equiv> 10 * second"
abbreviation ConfirmWindow :: duration where "ConfirmWindow \<equiv> 3 * second"
abbreviation WaitHeartbeat :: duration where "WaitHeartbeat \<equiv> 20 * second"
abbreviation MinAutoRecoverEvery :: duration where "MinAutoRecoverEvery \<equiv> 2 * minute"
abbreviation SuppressAfterFails :: int where "SuppressAfterFails \<equiv> 3"
abbreviation SuppressFor :: duration where "SuppressFor \<equiv> 15 * minute"

subsection \<open>SSH\<close>

type_synonym ssh = "ssh_log \<Rightarrow> ssh_call \<Rightarrow> ssh_reply"

definition ssh_run :: "hb_config \<Rightarrow> ssh \<Rightarrow> ssh_call \<Rightarrow> (string \<times> go_error option) mon" where
  "ssh_run cfg ssh call = on_ok (gets (\<lambda>s. ssh (mo_ssh s) call)) (\<lambda>r.
     on_ok (modify (\<lambda>s. s\<lparr>mo_ssh := mo_ssh s @ [(mo_clock s, call, r)]\<rparr>)) (\<lambda>_.
     on_ok (pass cfg (int (sr_Elapsed r))) (\<lambda>_. ret (trim_space (sr_Output r), sr_Error r))))"

definition containsAny :: "string \<Rightarrow> string list \<Rightarrow> bool" where
  "containsAny s terms = list_ex (\<lambda>term. contains (to_lower s) (to_lower term)) terms"

subsection \<open>The execution of a task\<close>

definition current_recovery :: "go_context \<Rightarrow> string \<Rightarrow> recovery_state mon" where
  "current_recovery ctx mid = with_result (in_ctx ctx (GetLatestState mid)) (\<lambda>r.
     ret (case r of Inr (Some st) \<Rightarrow> st | _ \<Rightarrow> no_recovery_state))"

definition update_task :: "go_context \<Rightarrow> recovery_task \<Rightarrow> unit mon" where
  "update_task ctx task = mon_ignore (in_ctx ctx (UpdateRecoveryTask task))"

definition failed_state :: "recovery_task \<Rightarrow> go_time \<Rightarrow> recovery_state \<Rightarrow> recovery_state" where
  "failed_state task now st =
     (let failures = rs_ConsecutiveFailures st + 1
      in st\<lparr>rs_MachineID := rt_MachineID task, rs_InProgress := False, rs_LastAttemptAt := Some now,
            rs_ConsecutiveFailures := failures, rs_LastTaskID := Some (rt_ID task), rs_LastResult := rt_LastError task,
            rs_SuppressedUntil := (if failures \<ge> SuppressAfterFails then Some (now + SuppressFor) else rs_SuppressedUntil st)\<rparr>)"

definition markFailed :: "go_context \<Rightarrow> recovery_task \<Rightarrow> unit mon" where
  "markFailed ctx task = on_ok (current_recovery ctx (rt_MachineID task)) (\<lambda>st.
     on_ok (gets mo_clock) (\<lambda>now. in_ctx ctx (SaveLatestState (failed_state task now st))))"

definition fail_task :: "go_context \<Rightarrow> recovery_task \<Rightarrow> string \<Rightarrow> unit mon" where
  "fail_task ctx task err =
     (let task = task\<lparr>rt_Status := RecoveryFailed, rt_LastError := err\<rparr>
      in on_ok (update_task ctx task) (\<lambda>_. markFailed ctx task))"

definition suppressed :: "go_time \<Rightarrow> recovery_state \<Rightarrow> bool" where
  "suppressed now st = (case rs_SuppressedUntil st of None \<Rightarrow> False | Some until \<Rightarrow> now < until)"

definition executing_state :: "recovery_task \<Rightarrow> go_time \<Rightarrow> recovery_state \<Rightarrow> recovery_state" where
  "executing_state task now st = st\<lparr>rs_MachineID := rt_MachineID task, rs_InProgress := True, rs_LastAttemptAt := Some now,
     rs_LastTaskID := Some (rt_ID task), rs_LastResult := ''executing''\<rparr>"

definition recovered_state :: "recovery_task \<Rightarrow> go_time option \<Rightarrow> go_time \<Rightarrow> string \<Rightarrow> recovery_state" where
  "recovered_state task attempt now result = no_recovery_state\<lparr>rs_MachineID := rt_MachineID task, rs_LastAttemptAt := attempt,
     rs_LastSuccessAt := Some now, rs_LastTaskID := Some (rt_ID task), rs_LastResult := result\<rparr>"

definition already_recovered :: "go_context \<Rightarrow> recovery_task \<Rightarrow> unit mon" where
  "already_recovered ctx task =
     on_ok (update_task ctx (task\<lparr>rt_Status := RecoverySucceeded, rt_LastError := [],
              rt_LastSSHOutput := ''already recovered during confirmation window''\<rparr>)) (\<lambda>_.
     on_ok (gets mo_clock) (\<lambda>now. in_ctx ctx (SaveLatestState (recovered_state task None now ''already recovered''))))"

definition await_heartbeat :: "hb_config \<Rightarrow> go_context \<Rightarrow> recovery_task \<Rightarrow> string \<Rightarrow> unit mon" where
  "await_heartbeat cfg ctx task0 output =
     on_ok (gets mo_clock) (\<lambda>now.
     let task = task0\<lparr>rt_Status := RecoveryWaitingHeartbeat, rt_LastSSHOutput := output, rt_HeartbeatDeadline := Some (now + WaitHeartbeat)\<rparr>
     in on_ok (update_task ctx task) (\<lambda>_.
        with_result (WaitForOnline cfg ctx (rt_MachineID task) WaitHeartbeat) (\<lambda>r. case r of
          Inl e \<Rightarrow> fail_task ctx task (error_text e)
        | Inr _ \<Rightarrow>
            on_ok (update_task ctx (task\<lparr>rt_Status := RecoverySucceeded, rt_LastError := []\<rparr>)) (\<lambda>_.
            on_ok (gets mo_clock) (\<lambda>now.
              in_ctx ctx (SaveLatestState (recovered_state task (Some now) now ''recovered'')))))))"

definition machine_endpoint :: "machine \<Rightarrow> endpoint" where
  "machine_endpoint m = \<lparr>ep_IP = mach_IP m, ep_SSHPort = mach_SSHPort m, ep_User = mach_SSHUser m\<rparr>"

definition revive :: "hb_config \<Rightarrow> ssh \<Rightarrow> go_context \<Rightarrow> recovery_task \<Rightarrow> machine \<Rightarrow> unit mon" where
  "revive cfg ssh ctx task0 m =
     (let task = task0\<lparr>rt_Status := RecoveryExecuting\<rparr>; ep = machine_endpoint m
      in on_ok (update_task ctx task) (\<lambda>_.
         on_ok (ssh_run cfg ssh (Inspect ep)) (\<lambda>(inspectOut, err). case err of
           Some e \<Rightarrow> fail_task ctx (task\<lparr>rt_LastSSHOutput := inspectOut\<rparr>) (error_text e)
         | None \<Rightarrow>
             let action = (if containsAny inspectOut [''inactive'', ''failed''] then ActionStart else ActionRestart);
                 task = task\<lparr>rt_Action := action\<rparr>
             in on_ok (update_task ctx task) (\<lambda>_.
                on_ok (ssh_run cfg ssh (if action = ActionStart then Start ep else Restart ep)) (\<lambda>(execOut, err). case err of
                  Some e \<Rightarrow> fail_task ctx (task\<lparr>rt_LastSSHOutput := execOut\<rparr>) (error_text e)
                | None \<Rightarrow> await_heartbeat cfg ctx task execOut)))))"

definition execute_locked :: "hb_config \<Rightarrow> ssh \<Rightarrow> go_context \<Rightarrow> recovery_task \<Rightarrow> unit mon" where
  "execute_locked cfg ssh ctx task0 =
     on_ok (current_recovery ctx (rt_MachineID task0)) (\<lambda>st.
     on_ok (gets mo_clock) (\<lambda>now.
     if rt_Trigger task0 \<noteq> TriggerManual \<and> suppressed now st
     then on_ok (update_task ctx (task0\<lparr>rt_Status := RecoverySuppressed, rt_LastError := ''recovery suppressed by cooldown''\<rparr>)) (\<lambda>_.
            fail_with (Error ''recovery suppressed by cooldown''))
     else
       on_ok (mon_ignore (in_ctx ctx (SaveLatestState (executing_state task0 now st)))) (\<lambda>_.
       let task = task0\<lparr>rt_Status := RecoveryConfirming\<rparr>
       in on_ok (update_task ctx task) (\<lambda>_.
          on_ok (pass cfg ConfirmWindow) (\<lambda>_.
          with_result (in_ctx ctx (HB_GetByMachineID (rt_MachineID task))) (\<lambda>hb.
            if (case hb of Inr found \<Rightarrow> alive found | Inl _ \<Rightarrow> False) then already_recovered ctx task
            else on_ok (in_ctx ctx (on_mon_world (machines_GetByID (rt_MachineID task)))) (\<lambda>found. case found of
              None \<Rightarrow> fail_with (Error ''machine not found'')
            | Some m \<Rightarrow> revive cfg ssh ctx task m)))))))"

definition ExecuteTask :: "hb_config \<Rightarrow> ssh \<Rightarrow> go_context \<Rightarrow> recovery_task \<Rightarrow> unit mon" where
  "ExecuteTask cfg ssh ctx task =
     on_ok (gets mo_clock) (\<lambda>now.
     on_ok (in_ctx ctx (TryAcquireLock (rt_MachineID task) (now + 2 * minute))) (\<lambda>locked.
       if \<not> locked then fail_with (Error ''recovery already in progress'')
       else with_result (execute_locked cfg ssh ctx task) (\<lambda>r.
              on_ok (mon_ignore (in_ctx ctx (ReleaseRecoveryLock (rt_MachineID task)))) (\<lambda>_.
                case r of Inl e \<Rightarrow> fail_with e | Inr _ \<Rightarrow> ret ()))))"

subsection \<open>Recovery by hand\<close>

definition with_agent :: "recovery_task \<Rightarrow> recovery_task mon" where
  "with_agent task = with_result (agents_GetByMachineID (rt_MachineID task)) (\<lambda>r.
     ret (case r of Inr (Some a) \<Rightarrow> task\<lparr>rt_AgentID := ag_ID a\<rparr> | _ \<Rightarrow> task))"

definition new_task :: "go_time \<Rightarrow> machine \<Rightarrow> string \<Rightarrow> int \<Rightarrow> string \<Rightarrow> recovery_task" where
  "new_task now m trigger attempt reason = \<lparr>rt_ID = now, rt_AgentID = [], rt_MachineID = mach_ID m, rt_MachineIP = mach_IP m,
     rt_Status = RecoveryPending, rt_Trigger = trigger, rt_Action = ActionNone, rt_Reason = reason, rt_Attempt = attempt,
     rt_MaxAttempts = SuppressAfterFails, rt_HeartbeatDeadline = None, rt_LastError = [], rt_LastSSHOutput = [],
     rt_SuppressedUntil = None, rt_CreatedAt = 0, rt_UpdatedAt = 0\<rparr>"

definition queued_state :: "recovery_task \<Rightarrow> go_time \<Rightarrow> recovery_state \<Rightarrow> recovery_state" where
  "queued_state task now st = st\<lparr>rs_MachineID := rt_MachineID task, rs_InProgress := True, rs_LastAttemptAt := Some now,
     rs_LastTaskID := Some (rt_ID task), rs_LastResult := ''manual recovery queued''\<rparr>"

definition queue_manual :: "string \<Rightarrow> recovery_task mon" where
  "queue_manual ip =
     on_ok (on_mon_world (machines_GetByIP ip)) (\<lambda>found. case found of
       None \<Rightarrow> fail_with (Error ''machine not found'')
     | Some m \<Rightarrow>
         on_ok (gets mo_clock) (\<lambda>now.
         on_ok (with_agent (new_task now m TriggerManual 1 [])) (\<lambda>task.
         on_ok (CreateRecoveryTask task) (\<lambda>task.
         on_ok (current_recovery None (rt_MachineID task)) (\<lambda>st.
         on_ok (SaveLatestState (queued_state task now st)) (\<lambda>_. ret task))))))"

definition TriggerManualRecoverByIP :: "hb_config \<Rightarrow> ssh \<Rightarrow> string \<Rightarrow> recovery_task mon" where
  "TriggerManualRecoverByIP cfg ssh ip =
     on_ok (queue_manual ip) (\<lambda>task.
     on_ok (gets mo_clock) (\<lambda>now.
     on_ok (mon_ignore (ExecuteTask cfg ssh (Some (now + 2 * minute)) task)) (\<lambda>_. ret task)))"

subsection \<open>Recovery by itself\<close>

definition recently_tried :: "go_time \<Rightarrow> recovery_state \<Rightarrow> bool" where
  "recently_tried now st = (case rs_LastAttemptAt st of None \<Rightarrow> False | Some t \<Rightarrow> now < t + MinAutoRecoverEvery)"

definition recover_machine :: "hb_config \<Rightarrow> ssh \<Rightarrow> machine \<Rightarrow> unit mon" where
  "recover_machine cfg ssh m =
     (if trim_space (mach_Cluster m) = [] then ret ()
      else with_result (HB_GetByMachineID (mach_ID m)) (\<lambda>hb. case hb of
        Inl _ \<Rightarrow> ret ()
      | Inr None \<Rightarrow> ret ()
      | Inr (Some item) \<Rightarrow>
          if ls_CurrentState item \<noteq> StateOffline then ret ()
          else on_ok (GetLatestState (mach_ID m)) (\<lambda>found.
            on_ok (gets mo_clock) (\<lambda>now.
              if (case found of None \<Rightarrow> False | Some st \<Rightarrow> rs_InProgress st \<or> suppressed now st \<or> recently_tried now st) then ret ()
              else on_ok (with_agent (new_task now m TriggerOfflineAuto
                       ((case found of None \<Rightarrow> 0 | Some st \<Rightarrow> rs_ConsecutiveFailures st) + 1)
                       ''agent heartbeat offline, auto recovery requested'')) (\<lambda>task.
                   on_ok (CreateRecoveryTask task) (\<lambda>task.
                     mon_ignore (ExecuteTask cfg ssh None task)))))))"

definition ScanAndRecover :: "hb_config \<Rightarrow> ssh \<Rightarrow> unit mon" where
  "ScanAndRecover cfg ssh = on_ok (on_mon_world machines_List) (for_ok (recover_machine cfg ssh))"

subsection \<open>Reading\<close>

definition ListRecent :: "int \<Rightarrow> recovery_task list mon" where
  "ListRecent limit = mon_query (\<lambda>s. take (nat (if limit \<le> 0 then 20 else limit))
     (stable_sort (\<lambda>a b. rt_CreatedAt a > rt_CreatedAt b) (mo_tasks s)))"

definition LatestSnapshot :: "(string \<times> recovery_state) list mon" where
  "LatestSnapshot = on_ok ListLatestStates (\<lambda>items. ret (fold (\<lambda>st. AList.update (rs_MachineID st) st) items []))"

end
