(* ===== verification/Recovery_Facts.thy ===== *)
theory Recovery_Facts
  imports Recovery Heartbeat_Facts
begin

text \<open>
  What the recovery service promises: a bound on how often it acts on a machine, what an execution leaves behind, and the
  two ways in which automatic recovery stops for good.
\<close>

subsection \<open>An agent that has never been healthy\<close>

lemma scan_blind: "calm s \<Longrightarrow> LoadLatest s = (Inl e, s) \<Longrightarrow> recover_machine cfg ssh m s = (Inr (), s)"
  by (simp add: recover_machine_def HB_GetByMachineID_def on_ok_def with_result_def)

lemma for_ok_idle: "(\<And>x. f x s = (Inr (), s)) \<Longrightarrow> for_ok f xs s = (Inr (), s)"
  by (induction xs) (simp_all add: on_ok_def)

text \<open>C13: When the first heartbeat of an agent says anything but HEALTHY, no status of any machine can be read any more, and the
  scan for offline agents does nothing: the column of the last healthy time is NULL and cannot be read.\<close>

theorem unhealthy_agent_stops_recovery:
  assumes "calm s" and "map_of (mo_latest s) (hp_AgentID (hr_Payload req)) = None"
    and "hp_OverallHealth (hr_Payload req) \<noteq> HealthHealthy" and "ProcessHeartbeat cfg req s = (r, s')"
  shows "HB_GetByMachineID mid s' = (Inl null_scan_error, s') \<and> ScanAndRecover cfg ssh s' = (Inr (), s')"
proof -
  have blind: "calm s'" "LoadLatest s' = (Inl null_scan_error, s')" using unhealthy_hides_all [OF assms] by simp_all
  have "on_mon_world machines_List s' = (Inr (stable_sort (\<lambda>a b. mach_CreatedAt a > mach_CreatedAt b) (w_machines (mo_world s'))), s')"
    using blind(1) by (simp add: on_mon_world_def machines_List_def calm_def)
  then have "ScanAndRecover cfg ssh s' = (Inr (), s')"
    using for_ok_idle [of "recover_machine cfg ssh" s'] scan_blind [OF blind] by (simp add: ScanAndRecover_def on_ok_def)
  moreover have "HB_GetByMachineID mid s' = (Inl null_scan_error, s')" using blind(2) by (simp add: HB_GetByMachineID_def on_ok_def)
  ultimately show ?thesis by simp
qed

theorem unhealthy_agent_stops_recovery_witness:
  "\<exists>r s'. ProcessHeartbeat default_config (a_beat ''a1'' ''m1'' ''DEGRADED'') (empty_monitor second) = (r, s') \<and>
     HB_GetByMachineID ''m2'' s' = (Inl null_scan_error, s')"
proof -
  obtain r s' where run: "ProcessHeartbeat default_config (a_beat ''a1'' ''m1'' ''DEGRADED'') (empty_monitor second) = (r, s')"
    by (rule prod.exhaust)
  from unhealthy_agent_stops_recovery [OF _ _ _ run] run show ?thesis
    by (auto simp: empty_monitor_def empty_world_def calm_def a_beat_def a_payload_def)
qed

subsection \<open>What keeps the recovery state\<close>

definition idents :: "monitor \<Rightarrow> (string \<times> string \<times> string) list" where
  "idents s = map (\<lambda>m. (mach_ID m, mach_IP m, mach_Cluster m)) (w_machines (mo_world s))"

type_synonym rec_core = "ssh_log \<times> (string \<times> recovery_row) list \<times> (string \<times> string \<times> string) list"

definition stays :: "rec_core \<Rightarrow> go_time \<Rightarrow> monitor \<Rightarrow> bool" where
  "stays c t s \<longleftrightarrow> calm s \<and> mo_ssh s = fst c \<and> mo_recovery s = fst (snd c) \<and> idents s = snd (snd c) \<and> t \<le> mo_clock s"

lemma stays_calm [simp]: "stays c t s \<Longrightarrow> calm s"
  by (simp add: stays_def)

lemma stays_fields [simp]:
  "stays c t (s\<lparr>mo_latest := x\<rparr>) = stays c t s" "stays c t (s\<lparr>mo_arrivals := y\<rparr>) = stays c t s"
  by (simp_all add: stays_def calm_def mo_clock_def idents_def)

named_theorems stays_rules \<open>methods that keep the recovery state\<close>

lemma stays_statement: "(\<And>s. stays c t s \<Longrightarrow> stays c t (f s)) \<Longrightarrow> preserves (stays c t) (mon_statement f)"
  by (rule validI) auto

lemma stays_query [stays_rules]: "preserves (stays c t) (mon_query f)"
  by (rule validI) auto

lemma stays_ignore [stays_rules]: "preserves (stays c t) m \<Longrightarrow> preserves (stays c t) (mon_ignore m)"
  unfolding mon_ignore_def by (intro op_rules)

lemma stays_in_ctx [stays_rules]: "preserves (stays c t) m \<Longrightarrow> preserves (stays c t) (in_ctx ctx m)"
  unfolding valid_def in_ctx_def by (auto split: option.splits if_splits)

definition same_idents :: "world \<Rightarrow> world \<Rightarrow> bool" where
  "same_idents w w' \<longleftrightarrow> w_clock w' = w_clock w \<and> map (\<lambda>m. (mach_ID m, mach_IP m, mach_Cluster m)) (w_machines w') =
     map (\<lambda>m. (mach_ID m, mach_IP m, mach_Cluster m)) (w_machines w)"

lemma stays_world:
  assumes "\<And>w r w'. w_faults w = [] \<Longrightarrow> m w = (r, w') \<Longrightarrow> w_faults w' = [] \<and> same_idents w w'"
  shows "preserves (stays c t) (on_mon_world m)"
proof (rule validI)
  fix s r s'
  assume s: "stays c t s" and run: "on_mon_world m s = (r, s')"
  obtain q w' where m: "m (mo_world s) = (q, w')" by (rule prod.exhaust)
  have "w_faults w' = [] \<and> same_idents (mo_world s) w'" using assms [OF _ m] s by (simp add: stays_def calm_def)
  with s run m show "stays c t s'" by (auto simp: on_mon_world_def stays_def calm_def mo_clock_def same_idents_def idents_def)
qed

lemma stays_worlds [stays_rules]:
  "preserves (stays c t) (on_mon_world (UpdateMachineStatus mid st err))" "preserves (stays c t) (on_mon_world (UpdateInstanceStatus mid port st))"
  "preserves (stays c t) (on_mon_world (machines_GetByID mid))" "preserves (stays c t) (on_mon_world (instances_Get mid port))"
  "preserves (stays c t) (on_mon_world (machines_GetByIP ip))" "preserves (stays c t) (on_mon_world machines_List)" "preserves (stays c t) (on_mon_world db_call)"
  unfolding UpdateMachineStatus_def UpdateInstanceStatus_def machines_GetByID_def instances_Get_def machines_GetByIP_def machines_List_def
  by (intro stays_world; auto simp: same_idents_def)+

lemma stays_modify: "(\<And>s. stays c t s \<Longrightarrow> stays c t (f s)) \<Longrightarrow> preserves (stays c t) (modify f)"
  by (rule valid_modify)

lemma stays_updates [stays_rules]:
  "preserves (stays c t) (UpdateAgentState mid st err)" "preserves (stays c t) (UpdateAgentHeartbeat mid at)" "preserves (stays c t) (AppendEvent e)"
  "preserves (stays c t) (UpsertLatestStatus item)" "preserves (stays c t) (UpdateRecoveryTask task)"
  unfolding UpdateAgentState_def UpdateAgentHeartbeat_def AppendEvent_def UpsertLatestStatus_def UpdateRecoveryTask_def
  by (intro stays_statement; simp add: stays_def calm_def mo_clock_def idents_def)+

lemma stays_basic [stays_rules]: "preserves (stays c t) (ret x)" "preserves (stays c t) (fail_with e)" "preserves (stays c t) (gets h)"
  by (auto intro: op_rules)

lemma stays_create [stays_rules]: "preserves (stays c t) (CreateRecoveryTask task)"
  by (rule validI) (auto simp: CreateRecoveryTask_def Let_def on_ok_def stays_def calm_def mo_clock_def idents_def)

lemma stays_sync [stays_rules]: "preserves (stays c t) (syncOperationalState item)"
  unfolding syncOperationalState_def syncMySQLState_def by (intro op_rules stays_rules)

lemma stays_remember [stays_rules]: "preserves (stays c t) (modify (remember a item))"
  by (rule stays_modify) (simp add: remember_def stays_def calm_def mo_clock_def idents_def)

lemma stays_heartbeat [stays_rules]: "preserves (stays c t) (ProcessHeartbeat cfg req)"
proof -
  have "preserves (stays c t) (filter_metric mid m acc)" for mid m acc
    unfolding filter_metric_def by (intro op_rules stays_rules)
  moreover have "preserves (stays c t) (dashboardMetricSnapshot a ms now)" for a ms now
    unfolding dashboardMetricSnapshot_def Let_def by (rule validI) (auto simp: stays_def calm_def mo_clock_def idents_def split: if_splits)
  ultimately show ?thesis
    unfolding ProcessHeartbeat_def enrichAlertPayload_def filterUnregisteredMySQLMetrics_def append_metrics_def Let_def
    by (intro op_rules stays_rules)
qed

lemma stays_reconcile [stays_rules]: "preserves (stays c t) (Reconcile cfg)"
  unfolding Reconcile_def reconcile_agent_def by (intro op_rules stays_rules)

lemma stays_load [stays_rules]: "preserves (stays c t) LoadLatest" "preserves (stays c t) (HB_GetByMachineID mid)"
  "preserves (stays c t) (getByMachineIDRefreshing mid)"
proof -
  show load: "preserves (stays c t) LoadLatest"
    unfolding LoadLatest_def ListLatest_def by (intro op_rules stays_rules) simp
  show "preserves (stays c t) (HB_GetByMachineID mid)" for mid
    unfolding HB_GetByMachineID_def by (intro op_rules stays_rules load)
  then show "preserves (stays c t) (getByMachineIDRefreshing mid)"
    unfolding getByMachineIDRefreshing_def by (intro op_rules load)
qed

lemma stays_clock [stays_rules]: "preserves (stays c t) (set_clock d)"
  unfolding set_clock_def by (rule stays_modify) (simp add: stays_def calm_def mo_clock_def idents_def max_def)

lemma stays_deliver: "preserves (stays c t) (deliver cfg until arrivals)"
proof (induction cfg until arrivals rule: deliver.induct)
  case (1 cfg until)
  show ?case unfolding deliver.simps by (rule stays_clock)
next
  case (2 cfg until d a rest)
  have handle: "preserves (stays c t) (handle cfg a)"
    unfolding handle_def by (cases a) (auto intro: stays_rules)
  show ?case
  proof (cases "d \<le> until")
    case True
    then show ?thesis unfolding deliver.simps by (simp only: True if_True) (intro op_rules stays_rules handle 2 [OF True], simp)
  next
    case False
    then show ?thesis unfolding deliver.simps by (simp only: False if_False) (rule stays_clock)
  qed
qed

lemma stays_pass [stays_rules]: "preserves (stays c t) (pass cfg d)"
  unfolding pass_def by (intro op_rules stays_rules stays_deliver)

lemma stays_wait [stays_rules]: "preserves (stays c t) (WaitForOnline cfg ctx mid timeout)"
proof -
  have "preserves (stays c t) (wait_online cfg deadline mid err n)" for deadline err n
  proof (induction n arbitrary: err)
    case 0
    show ?case unfolding wait_online.simps timed_out_def by (rule stays_basic)
  next
    case (Suc n)
    show ?case unfolding wait_online.simps timed_out_def by (intro op_rules stays_rules Suc.IH)
  qed
  then show ?thesis unfolding WaitForOnline_def by (intro op_rules stays_basic)
qed

lemma stays_task [stays_rules]: "preserves (stays c t) (update_task ctx task)" "preserves (stays c t) (current_recovery ctx mid)"
  "preserves (stays c t) (with_agent task)"
  unfolding update_task_def current_recovery_def GetLatestState_def with_agent_def agents_GetByMachineID_def
  by (intro op_rules stays_rules)+

subsection \<open>What an execution does\<close>

fun call_ip :: "ssh_call \<Rightarrow> string" where
  "call_ip (Inspect e) = ep_IP e" | "call_ip (Start e) = ep_IP e" | "call_ip (Restart e) = ep_IP e"

fun acts :: "ssh_call \<Rightarrow> bool" where
  "acts (Inspect e) = False" | "acts (Start e) = True" | "acts (Restart e) = True"

text \<open>The calls a task has made since \<open>t\<close>: all to the address of its machine, at most one of them starts or restarts the agent.\<close>

definition task_calls :: "string \<Rightarrow> go_time \<Rightarrow> go_time \<Rightarrow> ssh_log \<Rightarrow> bool" where
  "task_calls ip t now calls \<longleftrightarrow> length (filter (\<lambda>(_, c, _). acts c) calls) \<le> 1 \<and> (\<forall>(d, c, _) \<in> set calls. t \<le> d \<and> d \<le> now \<and> call_ip c = ip)"

text \<open>The row of the machine after them: an attempt no earlier than any start or restart.\<close>

definition attempt_after :: "ssh_log \<Rightarrow> recovery_state \<Rightarrow> bool" where
  "attempt_after calls st \<longleftrightarrow> (\<forall>(d, c, _) \<in> set calls. acts c \<longrightarrow> (\<exists>a. rs_LastAttemptAt st = Some a \<and> d \<le> a))"

definition executed :: "rec_core \<Rightarrow> go_time \<Rightarrow> string \<Rightarrow> string \<Rightarrow> monitor \<Rightarrow> bool" where
  "executed c t mid ip s \<longleftrightarrow> (\<exists>calls row. stays (fst c @ calls, mo_recovery s, snd (snd c)) t s \<and> task_calls ip t (mo_clock s) calls \<and>
     (\<forall>k. k \<noteq> mid \<longrightarrow> map_of (mo_recovery s) k = map_of (fst (snd c)) k) \<and>
     map_of (mo_recovery s) mid = Some row \<and> attempt_after calls (fst row))"

text \<open>In the middle of an execution: the calls made so far, the rows of the start.\<close>

definition during :: "rec_core \<Rightarrow> go_time \<Rightarrow> string \<Rightarrow> ssh_log \<Rightarrow> monitor \<Rightarrow> bool" where
  "during c t ip calls s \<longleftrightarrow> stays (fst c @ calls, snd c) t s \<and> task_calls ip t (mo_clock s) calls"

lemma during_keeps:
  assumes "\<And>c t. preserves (stays c t) m"
  shows "preserves (during c t ip calls) m"
proof (rule validI)
  fix s r s'
  assume s: "during c t ip calls s" and run: "m s = (r, s')"
  have "stays (fst c @ calls, snd c) (mo_clock s) s" using s by (simp add: during_def stays_def)
  from validD [OF assms this run] have "stays (fst c @ calls, snd c) (mo_clock s) s'" .
  then show "during c t ip calls s'" using s by (fastforce simp: during_def stays_def task_calls_def)
qed

lemma during_save:
  assumes "rs_MachineID st = mid" and "\<And>now. P now \<Longrightarrow> attempt_after calls st"
  shows "valid (\<lambda>s. during c t ip calls s \<and> P (mo_clock s)) (SaveLatestState st) (\<lambda>r s. executed c t mid ip s)"
proof (rule validI)
  fix s r s'
  assume s: "during c t ip calls s \<and> P (mo_clock s)" and run: "SaveLatestState st s = (r, s')"
  have "calm s" using s by (auto simp: during_def stays_def)
  with run assms(1) have s': "s' = s\<lparr>mo_recovery := AList.update mid (saved_row (mo_clock s) st (map_of (mo_recovery s) mid)) (mo_recovery s)\<rparr>"
    by (simp add: SaveLatestState_def)
  let ?row = "saved_row (mo_clock s) st (map_of (mo_recovery s) mid)"
  have "attempt_after calls st" using assms(2) s by blast
  then have "attempt_after calls (fst ?row)" by (simp add: saved_row_def attempt_after_def)
  then show "executed c t mid ip s'"
    using s unfolding executed_def during_def s'
    by (intro exI [of _ calls] exI [of _ ?row]) (auto simp: update_conv' stays_def calm_def mo_clock_def idents_def)
qed

text \<open>Methods that never report an error.\<close>

definition settled :: "('s, 'a) op \<Rightarrow> bool" where
  "settled m \<longleftrightarrow> (\<forall>s. is_ok (fst (m s)))"

lemma valid_settled:
  assumes "settled m" and "preserves P m" and "\<And>x. valid P (f x) Q"
  shows "valid P (on_ok m f) Q"
proof (rule validI)
  fix s r s'
  assume s: "P s" and run: "on_ok m f s = (r, s')"
  obtain x v where m: "m s = (Inr x, v)" using assms(1) unfolding settled_def is_ok_iff by (metis prod.collapse)
  have "P v" using validD [OF assms(2) s m] .
  from validD [OF assms(3) this] run m show "Q r s'" by (simp add: on_ok_def)
qed

lemma settled_basic: "settled (ret x)" "settled (gets h)" "settled (modify g)" "settled (mon_ignore m)" "settled (with_result m' (\<lambda>r. ret (k r)))"
  by (simp_all add: settled_def mon_ignore_result with_result_def split: prod.split)

lemma settled_bind: "settled m \<Longrightarrow> (\<And>x. settled (f x)) \<Longrightarrow> settled (on_ok m f)"
  by (auto simp: settled_def on_ok_def split: prod.split sum.split) (metis fst_conv is_ok_simps(1))

lemma settled_deliver: "settled (deliver cfg until arrivals)"
proof (induction cfg until arrivals rule: deliver.induct)
  case (1 cfg until)
  show ?case unfolding deliver.simps set_clock_def by (rule settled_basic)
next
  case (2 cfg until d a rest)
  have "settled (handle cfg a)" unfolding handle_def by (cases a) (auto intro: settled_basic)
  with 2 show ?case unfolding deliver.simps set_clock_def by (cases "d \<le> until") (simp_all only: if_True if_False settled_bind settled_basic)
qed

lemma settled_methods: "settled (pass cfg d)" "settled (update_task ctx task)" "settled (current_recovery ctx mid)" "settled (with_agent task)"
  unfolding pass_def update_task_def current_recovery_def with_agent_def by (intro settled_bind settled_basic settled_deliver)+

text \<open>The ways an execution ends with a state that records the present as the last attempt.\<close>

lemma during_now:
  assumes "\<And>now. rs_MachineID (f now) = mid" "\<And>now. rs_LastAttemptAt (f now) = Some now"
  shows "valid (during c t ip calls) (on_ok (gets mo_clock) (\<lambda>now. in_ctx None (SaveLatestState (f now)))) (\<lambda>r s. executed c t mid ip s)"
proof (rule validI)
  fix s r s'
  assume s: "during c t ip calls s" and run: "on_ok (gets mo_clock) (\<lambda>now. in_ctx None (SaveLatestState (f now))) s = (r, s')"
  have run': "SaveLatestState (f (mo_clock s)) s = (r, s')" using run by (simp add: in_ctx_def)
  have "attempt_after calls (f (mo_clock s))" using s by (auto simp: attempt_after_def during_def task_calls_def assms(2))
  from validD [OF during_save [OF assms(1), where P = "\<lambda>n. n = mo_clock s"] _ run'] this s show "executed c t mid ip s'" by auto
qed

lemma during_fail:
  assumes "rt_MachineID task = mid"
  shows "valid (during c t ip calls) (fail_task None task err) (\<lambda>r s. executed c t mid ip s)"
proof -
  have "valid (during c t ip calls) (markFailed None task') (\<lambda>r s. executed c t mid ip s)" if "rt_MachineID task' = mid" for task'
    unfolding markFailed_def
    by (rule valid_settled [OF settled_methods(3) during_keeps [OF stays_task(2)]], rule during_now)
      (use that in \<open>simp_all add: failed_state_def Let_def\<close>)
  then show ?thesis unfolding fail_task_def Let_def
    by (rule_tac valid_settled [OF settled_methods(2) during_keeps [OF stays_task(1)]]) (use assms in auto)
qed

lemma during_await:
  assumes "rt_MachineID task = mid"
  shows "valid (during c t ip calls) (await_heartbeat cfg None task out) (\<lambda>r s. executed c t mid ip s)"
proof -
  let ?P = "during c t ip calls" and ?Q = "\<lambda>r s. executed c t mid ip s"
  have saved: "valid ?P (on_ok (gets mo_clock) (\<lambda>now. in_ctx None (SaveLatestState (recovered_state task' (Some now) now res)))) ?Q"
    if "rt_MachineID task' = mid" for task' res
    by (rule during_now) (simp_all add: recovered_state_def no_recovery_state_def that)
  have succeed: "valid ?P (on_ok (update_task None task'') (\<lambda>_. on_ok (gets mo_clock) (\<lambda>now.
      in_ctx None (SaveLatestState (recovered_state task' (Some now) now res))))) ?Q" if "rt_MachineID task' = mid" for task' task'' res
    by (rule valid_settled [OF settled_methods(2) during_keeps [OF stays_task(1)]], rule saved [OF that])
  have judge: "valid ?P (with_result (WaitForOnline cfg None m WaitHeartbeat) (\<lambda>r. case r of
          Inl e \<Rightarrow> fail_task None task' (error_text e)
        | Inr _ \<Rightarrow> on_ok (update_task None task'') (\<lambda>_. on_ok (gets mo_clock) (\<lambda>now.
              in_ctx None (SaveLatestState (recovered_state task' (Some now) now res)))))) ?Q" if "rt_MachineID task' = mid" for task' task'' res m
    by (rule valid_with_result [OF during_keeps [OF stays_wait]])
      (auto split: sum.split intro: during_fail [OF that] succeed [OF that])
  show ?thesis unfolding await_heartbeat_def Let_def
    by (rule valid_settled [OF settled_basic(2) during_keeps [OF stays_basic(3)]],
      rule valid_settled [OF settled_methods(2) during_keeps [OF stays_task(1)]], rule judge) (simp add: assms)
qed

lemma valid_ex: "(\<And>x. valid (P x) m Q) \<Longrightarrow> valid (\<lambda>s. \<exists>x. P x s) m Q"
  unfolding valid_def by blast

definition quiet_during :: "rec_core \<Rightarrow> go_time \<Rightarrow> string \<Rightarrow> monitor \<Rightarrow> bool" where
  "quiet_during c t ip s \<longleftrightarrow> (\<exists>calls. during c t ip calls s \<and> filter (\<lambda>(_, c, _). acts c) calls = [])"

lemma quiet_keeps:
  assumes "\<And>c t. preserves (stays c t) m"
  shows "preserves (quiet_during c t ip) m"
proof (rule validI)
  fix s r s'
  assume s: "quiet_during c t ip s" and run: "m s = (r, s')"
  then obtain calls where calls: "during c t ip calls s" "filter (\<lambda>(_, c, _). acts c) calls = []" by (auto simp: quiet_during_def)
  have "during c t ip calls s'" by (rule validD [OF during_keeps [OF assms] calls(1) run])
  with calls(2) show "quiet_during c t ip s'" by (auto simp: quiet_during_def)
qed

lemma ssh_calls:
  assumes "call_ip call = ip"
  shows "valid (quiet_during c t ip) (ssh_run cfg ssh call)
     (\<lambda>r s. is_ok r \<and> (if acts call then \<exists>calls. during c t ip calls s else quiet_during c t ip s))"
proof (rule validI)
  fix s r s'
  assume s: "quiet_during c t ip s" and run: "ssh_run cfg ssh call s = (r, s')"
  then obtain calls where calls: "during c t ip calls s" "filter (\<lambda>(_, c, _). acts c) calls = []" by (auto simp: quiet_during_def)
  let ?reply = "ssh (mo_ssh s) call"
  let ?s = "s\<lparr>mo_ssh := mo_ssh s @ [(mo_clock s, call, ?reply)]\<rparr>" and ?calls = "calls @ [(mo_clock s, call, ?reply)]"
  have logged: "during c t ip ?calls ?s"
    using calls assms unfolding during_def stays_def task_calls_def calm_def mo_clock_def idents_def by auto
  obtain q v where pass: "pass cfg (int (sr_Elapsed ?reply)) ?s = (q, v)" by (rule prod.exhaust)
  have "during c t ip ?calls v" using validD [OF during_keeps [OF stays_pass] logged pass] .
  moreover have "is_ok q" using settled_methods(1) [of cfg "int (sr_Elapsed ?reply)"] pass unfolding settled_def by (metis fst_conv)
  ultimately show "is_ok r \<and> (if acts call then \<exists>calls. during c t ip calls s' else quiet_during c t ip s')"
    using run pass calls(2) by (auto simp: ssh_run_def on_ok_def is_ok_iff quiet_during_def intro!: exI [of _ ?calls])
qed

lemma during_revive:
  assumes "rt_MachineID task = mid" and "mach_IP m = ip"
  shows "valid (quiet_during c t ip) (revive cfg ssh None task m) (\<lambda>r s. executed c t mid ip s)"
proof -
  let ?Q = "\<lambda>r s. executed c t mid ip s"
  have fail: "valid (\<lambda>s. \<exists>calls. during c t ip calls s) (fail_task None task' err) ?Q" if "rt_MachineID task' = mid" for task' err
    by (rule valid_ex) (rule during_fail [OF that])
  have await: "valid (\<lambda>s. \<exists>calls. during c t ip calls s) (await_heartbeat cfg None task' out) ?Q" if "rt_MachineID task' = mid" for task' out
    by (rule valid_ex) (rule during_await [OF that])
  have failq: "valid (quiet_during c t ip) (fail_task None task' err) ?Q" if "rt_MachineID task' = mid" for task' err
    by (rule valid_weaken [OF fail [OF that]]) (auto simp: quiet_during_def)
  have act: "valid (quiet_during c t ip) (on_ok (ssh_run cfg ssh call) (\<lambda>(execOut, err). case err of
      Some e \<Rightarrow> fail_task None (task'\<lparr>rt_LastSSHOutput := execOut\<rparr>) (error_text e) | None \<Rightarrow> await_heartbeat cfg None task' execOut)) ?Q"
    if "rt_MachineID task' = mid" "acts call" "call_ip call = ip" for task' call
  proof (rule valid_on_ok [OF ssh_calls [OF that(3)]])
    fix x
    show "valid (\<lambda>s. is_ok (Inr x) \<and> (if acts call then \<exists>calls. during c t ip calls s else quiet_during c t ip s))
        (case x of (execOut, err) \<Rightarrow> case err of Some e \<Rightarrow> fail_task None (task'\<lparr>rt_LastSSHOutput := execOut\<rparr>) (error_text e)
           | None \<Rightarrow> await_heartbeat cfg None task' execOut) ?Q"
    proof (cases x)
      case (Pair out err)
      show ?thesis using fail [of "task'\<lparr>rt_LastSSHOutput := out\<rparr>"] await [OF that(1), of out] that
        by (cases err) (simp_all add: Pair)
    qed
  qed simp
  let ?task = "task\<lparr>rt_Status := RecoveryExecuting\<rparr>" and ?ep = "machine_endpoint m"
  let ?action = "\<lambda>out. if containsAny out [''inactive'', ''failed''] then ActionStart else ActionRestart"
  have inspect: "valid (quiet_during c t ip) (case x of (out, err) \<Rightarrow> case err of
           Some e \<Rightarrow> fail_task None (?task\<lparr>rt_LastSSHOutput := out\<rparr>) (error_text e)
         | None \<Rightarrow> on_ok (update_task None (?task\<lparr>rt_Action := ?action out\<rparr>)) (\<lambda>_.
             on_ok (ssh_run cfg ssh (if ?action out = ActionStart then Start ?ep else Restart ?ep)) (\<lambda>(execOut, err). case err of
                Some e \<Rightarrow> fail_task None (?task\<lparr>rt_Action := ?action out, rt_LastSSHOutput := execOut\<rparr>) (error_text e)
              | None \<Rightarrow> await_heartbeat cfg None (?task\<lparr>rt_Action := ?action out\<rparr>) execOut))) ?Q" for x
  proof (cases x)
    case (Pair out err)
    have task: "rt_MachineID (?task\<lparr>rt_LastSSHOutput := out\<rparr>) = mid" "rt_MachineID (?task\<lparr>rt_Action := ?action out\<rparr>) = mid"
      using assms(1) by simp_all
    have call: "acts (if ?action out = ActionStart then Start ?ep else Restart ?ep)" "call_ip (if ?action out = ActionStart then Start ?ep else Restart ?ep) = ip"
      using assms(2) by (simp_all add: machine_endpoint_def)
    show ?thesis
      unfolding Pair prod.case
      using failq [OF task(1)] valid_settled [OF settled_methods(2) quiet_keeps [OF stays_task(1)] act [OF task(2) call]]
      by (cases err) simp_all
  qed
  have first: "valid (quiet_during c t ip) (ssh_run cfg ssh (Inspect ?ep)) (\<lambda>r s. is_ok r \<and> quiet_during c t ip s)"
    using ssh_calls [of "Inspect ?ep" ip c t cfg ssh] assms(2) by (simp add: machine_endpoint_def)
  show ?thesis
    unfolding revive_def Let_def
    by (rule valid_settled [OF settled_methods(2) quiet_keeps [OF stays_task(1)]], rule valid_on_ok [OF first])
      (use inspect in simp_all)
qed

text \<open>The rows of a machine have been written, the others are as they were.\<close>

definition other_rows :: "rec_core \<Rightarrow> string \<Rightarrow> (string \<times> recovery_row) list \<Rightarrow> bool" where
  "other_rows c mid R \<longleftrightarrow> map_of R mid \<noteq> None \<and> (\<forall>k. k \<noteq> mid \<longrightarrow> map_of R k = map_of (fst (snd c)) k)"

definition claimed :: "rec_core \<Rightarrow> go_time \<Rightarrow> string \<Rightarrow> monitor \<Rightarrow> bool" where
  "claimed c t mid s \<longleftrightarrow> (\<exists>R. stays (fst c, R, snd (snd c)) t s \<and> other_rows c mid R)"

lemma claimed_keeps:
  assumes "\<And>c t. preserves (stays c t) m"
  shows "preserves (claimed c t mid) m"
proof (rule validI)
  fix s r s'
  assume "claimed c t mid s" and run: "m s = (r, s')"
  then obtain R where R: "stays (fst c, R, snd (snd c)) t s" "other_rows c mid R" by (auto simp: claimed_def)
  from validD [OF assms R(1) run] R(2) show "claimed c t mid s'" by (auto simp: claimed_def)
qed

lemma claimed_write:
  assumes "rs_MachineID st = mid"
  shows "valid (\<lambda>s. \<exists>R. stays (fst c, R, snd (snd c)) t s \<and> (\<forall>k. k \<noteq> mid \<longrightarrow> map_of R k = map_of (fst (snd c)) k)) (SaveLatestState st) (\<lambda>r s. is_ok r \<and> claimed c t mid s)"
proof (rule validI)
  fix s r s'
  assume "\<exists>R. stays (fst c, R, snd (snd c)) t s \<and> (\<forall>k. k \<noteq> mid \<longrightarrow> map_of R k = map_of (fst (snd c)) k)" and run: "SaveLatestState st s = (r, s')"
  then obtain R where R: "stays (fst c, R, snd (snd c)) t s" "\<forall>k. k \<noteq> mid \<longrightarrow> map_of R k = map_of (fst (snd c)) k" by blast
  let ?R = "AList.update mid (saved_row (mo_clock s) st (map_of (mo_recovery s) mid)) (mo_recovery s)"
  have s': "r = Inr ()" "s' = s\<lparr>mo_recovery := ?R\<rparr>" using run R(1) assms by (simp_all add: SaveLatestState_def stays_def)
  have "stays (fst c, ?R, snd (snd c)) t s'" "other_rows c mid ?R"
    using R by (simp_all add: s' stays_def calm_def mo_clock_def idents_def other_rows_def update_conv')
  then show "is_ok r \<and> claimed c t mid s'" using s'(1) by (auto simp: claimed_def)
qed

lemma claimed_executed: "claimed c t mid s \<Longrightarrow> executed c t mid ip s"
  unfolding claimed_def executed_def other_rows_def
  by (force simp: stays_def task_calls_def attempt_after_def intro!: exI [of _ "[] :: ssh_log"])

lemma executed_claimed:
  assumes "executed (fst c, R, snd (snd c)) t mid ip s" and "other_rows c mid R"
  shows "executed c t mid ip s"
  using assms by (auto simp: executed_def other_rows_def)

definition known :: "rec_core \<Rightarrow> string \<Rightarrow> string \<Rightarrow> bool" where
  "known c mid ip \<longleftrightarrow> map_of (map (\<lambda>(i, a, _). (i, a)) (snd (snd c))) mid \<in> {None, Some ip}"

lemma found_known:
  assumes "stays c t s" and "known c mid ip" and "on_mon_world (machines_GetByID mid) s = (Inr (Some m), s')"
  shows "mach_IP m = ip"
proof -
  have "find (\<lambda>m. mach_ID m = mid) ms = Some m \<Longrightarrow> map_of (map (\<lambda>(i, a, _). (i, a)) (map (\<lambda>m. (mach_ID m, mach_IP m, mach_Cluster m)) ms)) mid = Some (mach_IP m)" for ms
    by (induction ms) (auto split: if_splits)
  moreover have "find (\<lambda>m. mach_ID m = mid) (w_machines (mo_world s)) = Some m"
    using assms(1,3) by (auto simp: on_mon_world_def machines_GetByID_def stays_def calm_def)
  ultimately have "map_of (map (\<lambda>(i, a, _). (i, a)) (idents s)) mid = Some (mach_IP m)" unfolding idents_def by blast
  then show ?thesis using assms(1,2) by (simp add: known_def stays_def)
qed

lemma body_executed:
  assumes "known c mid ip" and "rt_MachineID task = mid"
  shows "valid (claimed c t mid) (execute_locked cfg ssh None task) (\<lambda>r s. executed c t mid ip s)"
proof -
  let ?Q = "\<lambda>r s. executed c t mid ip s"
  have revive: "valid (claimed c t mid) (on_ok (in_ctx None (on_mon_world (machines_GetByID mid))) (\<lambda>found. case found of
        None \<Rightarrow> fail_with e | Some m \<Rightarrow> revive cfg ssh None task' m)) ?Q" if "rt_MachineID task' = mid" for task' e
  proof (rule validI)
    fix s r s'
    assume s: "claimed c t mid s" and run: "on_ok (in_ctx None (on_mon_world (machines_GetByID mid))) (\<lambda>found. case found of
        None \<Rightarrow> fail_with e | Some m \<Rightarrow> revive cfg ssh None task' m) s = (r, s')"
    obtain R where R: "stays (fst c, R, snd (snd c)) t s" "other_rows c mid R" using s by (auto simp: claimed_def)
    obtain q v where get: "on_mon_world (machines_GetByID mid) s = (q, v)" by (rule prod.exhaust)
    have v: "stays (fst c, R, snd (snd c)) t v" using validD [OF stays_worlds(3) R(1) get] .
    have "claimed c t mid v" unfolding claimed_def using v R(2) by blast
    then have stop: "executed c t mid ip v" by (rule claimed_executed)
    show "executed c t mid ip s'"
    proof (cases "\<exists>m. q = Inr (Some m)")
      case False
      with run get stop show ?thesis by (auto simp: on_ok_def in_ctx_def split: sum.splits option.splits)
    next
      case True
      then obtain m where m: "q = Inr (Some m)" ..
      have "mach_IP m = ip" using found_known [OF R(1) _ get [unfolded m]] assms(1) by (simp add: known_def)
      moreover have "quiet_during (fst c, R, snd (snd c)) t ip v"
        using v by (auto simp: quiet_during_def during_def task_calls_def intro!: exI [of _ "[] :: ssh_log"])
      moreover have "revive cfg ssh None task' m v = (r, s')" using run get by (simp add: on_ok_def in_ctx_def m)
      ultimately show ?thesis using validD [OF during_revive [OF that]] executed_claimed [OF _ R(2)] by blast
    qed
  qed
  have stored: "valid (claimed c t mid) (mon_ignore (in_ctx None (SaveLatestState st))) (\<lambda>r s. is_ok r \<and> claimed c t mid s)"
    and save: "valid (claimed c t mid) (in_ctx None (SaveLatestState st)) ?Q" if "rs_MachineID st = mid" for st
  proof -
    have w: "valid (claimed c t mid) (SaveLatestState st) (\<lambda>r s. is_ok r \<and> claimed c t mid s)"
      by (rule valid_weaken [OF claimed_write [OF that]]) (auto simp: claimed_def other_rows_def)
    then show "valid (claimed c t mid) (mon_ignore (in_ctx None (SaveLatestState st))) (\<lambda>r s. is_ok r \<and> claimed c t mid s)"
      unfolding mon_ignore_def in_ctx_def option.case by (rule valid_with_result) (auto intro: valid_ret)
    show "valid (claimed c t mid) (in_ctx None (SaveLatestState st)) ?Q"
      unfolding in_ctx_def option.case by (rule valid_weaken [OF w]) (auto intro: claimed_executed)
  qed
  have recovered: "valid (claimed c t mid) (already_recovered None task') ?Q" if "rt_MachineID task' = mid" for task'
    unfolding already_recovered_def
    by (intro valid_settled [OF settled_methods(2) claimed_keeps [OF stays_task(1)]]
        valid_settled [OF settled_basic(2) claimed_keeps [OF stays_basic(3)]] save) (simp add: recovered_state_def that)
  have look: "valid (claimed c t mid) (with_result (in_ctx None (HB_GetByMachineID mid)) (\<lambda>hb.
      if (case hb of Inr found \<Rightarrow> alive found | Inl _ \<Rightarrow> False) then already_recovered None task'
      else on_ok (in_ctx None (on_mon_world (machines_GetByID mid))) (\<lambda>found. case found of
          None \<Rightarrow> fail_with e | Some m \<Rightarrow> revive cfg ssh None task' m))) ?Q" if "rt_MachineID task' = mid" for task' e
    by (rule valid_with_result [OF claimed_keeps [OF stays_in_ctx [OF stays_load(2)]]])
      (simp only: recovered [OF that] revive [OF that] split: if_split, simp)
  have attempt: "valid (claimed c t mid) (on_ok (mon_ignore (in_ctx None (SaveLatestState st))) (\<lambda>_. on_ok (update_task None task') (\<lambda>_. on_ok (pass cfg d) (\<lambda>_.
      with_result (in_ctx None (HB_GetByMachineID mid)) (\<lambda>hb.
      if (case hb of Inr found \<Rightarrow> alive found | Inl _ \<Rightarrow> False) then already_recovered None task'
      else on_ok (in_ctx None (on_mon_world (machines_GetByID mid))) (\<lambda>found. case found of
          None \<Rightarrow> fail_with e | Some m \<Rightarrow> revive cfg ssh None task' m)))))) ?Q" if "rt_MachineID task' = mid" "rs_MachineID st = mid" for task' e st d
    by (rule valid_on_ok [OF stored [OF that(2)]],
      simp only: is_ok_simps simp_thms, rule valid_settled [OF settled_methods(2) claimed_keeps [OF stays_task(1)]],
      rule valid_settled [OF settled_methods(1) claimed_keeps [OF stays_pass]], rule look [OF that(1)]) simp
  have cooled: "valid (claimed c t mid) (on_ok (update_task None task') (\<lambda>_. fail_with e)) ?Q" for task' e
    by (rule valid_settled [OF settled_methods(2) claimed_keeps [OF stays_task(1)]], rule valid_fail) (rule claimed_executed)
  have choose: "valid (claimed c t mid) m ?Q \<Longrightarrow> valid (claimed c t mid) m' ?Q \<Longrightarrow> valid (claimed c t mid) (if b then m else m') ?Q" for m m' :: "unit mon" and b
    by simp
  have ids: "rt_MachineID (task\<lparr>rt_Status := x\<rparr>) = mid" for x using assms(2) by simp
  show ?thesis
    unfolding execute_locked_def Let_def ids assms(2)
    by (rule valid_settled [OF settled_methods(3) claimed_keeps [OF stays_task(2)]],
      rule valid_settled [OF settled_basic(2) claimed_keeps [OF stays_basic(3)]], rule choose, rule cooled, rule attempt)
      (simp_all add: executing_state_def assms(2))
qed

definition released :: "string \<Rightarrow> monitor \<Rightarrow> bool" where
  "released mid s \<longleftrightarrow> (\<exists>st. map_of (mo_recovery s) mid = Some (st, None) \<and> \<not> rs_InProgress st)"

lemma release_executed: "valid (executed c t mid ip) (mon_ignore (in_ctx None (ReleaseRecoveryLock mid))) (\<lambda>r s. is_ok r \<and> executed c t mid ip s \<and> released mid s)"
proof (rule validI)
  fix s r s'
  assume ex: "executed c t mid ip s" and run: "mon_ignore (in_ctx None (ReleaseRecoveryLock mid)) s = (r, s')"
  obtain calls row where row: "stays (fst c @ calls, mo_recovery s, snd (snd c)) t s" "task_calls ip t (mo_clock s) calls"
    "\<forall>k. k \<noteq> mid \<longrightarrow> map_of (mo_recovery s) k = map_of (fst (snd c)) k" "map_of (mo_recovery s) mid = Some row" "attempt_after calls (fst row)"
    using ex by (auto simp: executed_def)
  have s': "r = Inr ()" "s' = s\<lparr>mo_recovery := AList.map_entry mid (unlocked_row (mo_clock s)) (mo_recovery s)\<rparr>"
    using run stays_calm [OF row(1)] by (simp_all add: mon_ignore_result in_ctx_def ReleaseRecoveryLock_def)
  have rows: "map_of (mo_recovery s') mid = Some (unlocked_row (mo_clock s) row)" "\<forall>k. k \<noteq> mid \<longrightarrow> map_of (mo_recovery s') k = map_of (mo_recovery s) k"
    using row(4) by (simp_all add: s'(2) map_of_map_entry)
  moreover have "attempt_after calls (fst (unlocked_row (mo_clock s) row))" using row(5) by (simp add: unlocked_row_def attempt_after_def)
  moreover have "stays (fst c @ calls, mo_recovery s', snd (snd c)) t s'" "mo_clock s' = mo_clock s"
    using row(1) by (simp_all add: s'(2) stays_def calm_def mo_clock_def idents_def)
  ultimately show "is_ok r \<and> executed c t mid ip s' \<and> released mid s'"
    using row(2,3) s'(1) unfolding executed_def released_def by (auto simp: unlocked_row_def)
qed

lemma acquire_claimed:
  assumes "stays c t s" and "TryAcquireLock mid until s = (r, s')"
  shows "(r = Inr False \<and> s' = s \<and> lock_is_held (mo_clock s) (map_of (mo_recovery s) mid)) \<or> (r = Inr True \<and> claimed c t mid s')"
proof -
  let ?row = "locked_row (mo_clock s) until mid (map_of (mo_recovery s) mid)"
  have "claimed c t mid (s\<lparr>mo_recovery := AList.update mid ?row (mo_recovery s)\<rparr>)"
    using assms(1) unfolding claimed_def
    by (intro exI [of _ "AList.update mid ?row (mo_recovery s)"]) (simp add: stays_def calm_def mo_clock_def idents_def other_rows_def update_conv')
  with assms stays_calm [OF assms(1)] show ?thesis
    by (auto simp: TryAcquireLock_def on_ok_def split: if_splits)
qed

lemma execute_result:
  assumes "known c mid ip" and "rt_MachineID task = mid" and s: "stays c t s" and run: "ExecuteTask cfg ssh None task s = (r, s')"
  shows "(s' = s \<and> lock_is_held (mo_clock s) (map_of (mo_recovery s) mid)) \<or> (executed c t mid ip s' \<and> released mid s')"
proof -
  obtain q v where lock: "TryAcquireLock mid (mo_clock s + 2 * minute) s = (q, v)" by (rule prod.exhaust)
  from acquire_claimed [OF s lock] show ?thesis
  proof
    assume q: "q = Inr False \<and> v = s \<and> lock_is_held (mo_clock s) (map_of (mo_recovery s) mid)"
    then have "on_ok (in_ctx None (TryAcquireLock mid (mo_clock s + 2 * minute))) f s = f False s" for f :: "bool \<Rightarrow> unit mon"
      using lock by (simp add: on_ok_def in_ctx_def)
    with run q assms(2) show ?thesis by (simp add: ExecuteTask_def)
  next
    assume q: "q = Inr True \<and> claimed c t mid v"
    have finish: "valid (executed c t mid ip) (on_ok (mon_ignore (in_ctx None (ReleaseRecoveryLock mid))) (\<lambda>_. case x of Inl e \<Rightarrow> fail_with e | Inr _ \<Rightarrow> ret ()))
        (\<lambda>r s. executed c t mid ip s \<and> released mid s)" for x :: "unit result"
      by (rule valid_on_ok [OF release_executed]) (auto split: sum.split intro: valid_fail valid_ret)
    have rest: "valid (claimed c t mid) (with_result (execute_locked cfg ssh None task) (\<lambda>r.
         on_ok (mon_ignore (in_ctx None (ReleaseRecoveryLock mid))) (\<lambda>_. case r of Inl e \<Rightarrow> fail_with e | Inr _ \<Rightarrow> ret ())))
        (\<lambda>r s. executed c t mid ip s \<and> released mid s)"
      by (rule valid_with_result [OF body_executed [OF assms(1,2)]], rule finish)
    have "on_ok (in_ctx None (TryAcquireLock mid (mo_clock s + 2 * minute))) f s = f True v" for f :: "bool \<Rightarrow> unit mon"
      using lock q by (simp add: on_ok_def in_ctx_def)
    with run assms(2) have "with_result (execute_locked cfg ssh None task) (\<lambda>r.
         on_ok (mon_ignore (in_ctx None (ReleaseRecoveryLock mid))) (\<lambda>_. case r of Inl e \<Rightarrow> fail_with e | Inr _ \<Rightarrow> ret ())) v = (r, s')"
      by (simp add: ExecuteTask_def)
    from validD [OF rest conjunct2 [OF q] this] show ?thesis ..
  qed
qed

subsection \<open>How often automatic recovery acts\<close>

definition same_target :: "ssh_call \<Rightarrow> ssh_call \<Rightarrow> bool" where
  "same_target c c' \<longleftrightarrow> acts c \<and> acts c' \<and> call_ip c = call_ip c'"

definition spaced :: "ssh_log \<Rightarrow> bool" where
  "spaced log \<longleftrightarrow> sorted_wrt (\<lambda>(d, c, _) (d', c', _). same_target c c' \<longrightarrow> d + MinAutoRecoverEvery \<le> d') log"

definition clustered :: "string \<times> string \<times> string \<Rightarrow> bool" where
  "clustered e \<longleftrightarrow> trim_space (snd (snd e)) \<noteq> []"

definition unique_machines :: "(string \<times> string \<times> string) list \<Rightarrow> bool" where
  "unique_machines I \<longleftrightarrow> distinct (map fst I) \<and>
     (\<forall>e \<in> set I. \<forall>e' \<in> set I. clustered e \<and> clustered e' \<and> fst (snd e) = fst (snd e') \<longrightarrow> e = e')"

definition settled_call :: "(string \<times> recovery_row) list \<Rightarrow> go_time \<Rightarrow> string \<Rightarrow> go_time \<Rightarrow> bool" where
  "settled_call R now mid d \<longleftrightarrow> d + MinAutoRecoverEvery \<le> now \<or>
     (\<exists>row a. map_of R mid = Some row \<and> rs_LastAttemptAt (fst row) = Some a \<and> d \<le> a)"

definition guarded :: "monitor \<Rightarrow> bool" where
  "guarded s \<longleftrightarrow> (\<forall>(d, c, _) \<in> set (mo_ssh s). acts c \<longrightarrow>
     (\<forall>e \<in> set (idents s). clustered e \<and> fst (snd e) = call_ip c \<longrightarrow> settled_call (mo_recovery s) (mo_clock s) (fst e) d))"

definition orderly :: "(string \<times> string \<times> string) list \<Rightarrow> monitor \<Rightarrow> bool" where
  "orderly I s \<longleftrightarrow> calm s \<and> idents s = I \<and> spaced (mo_ssh s) \<and> guarded s"

lemma orderly_keeps:
  assumes "\<And>c t. preserves (stays c t) m"
  shows "preserves (orderly I) m"
proof (rule validI)
  fix s r s'
  assume s: "orderly I s" and run: "m s = (r, s')"
  have "stays (mo_ssh s, mo_recovery s, idents s) (mo_clock s) s" using s by (simp add: stays_def orderly_def)
  from validD [OF assms this run] have s': "stays (mo_ssh s, mo_recovery s, idents s) (mo_clock s) s'" .
  then show "orderly I s'" using s unfolding orderly_def guarded_def settled_call_def stays_def by fastforce
qed

lemma single_action_spaced: "length (filter (\<lambda>(_, c, _). acts c) calls) \<le> 1 \<Longrightarrow> spaced calls"
  unfolding spaced_def
  by (induction calls) (auto simp: same_target_def filter_empty_conv split: if_splits)

lemma task_spaced:
  assumes "spaced log" and "task_calls ip t now calls"
    and "\<And>d c r. (d, c, r) \<in> set log \<Longrightarrow> acts c \<Longrightarrow> call_ip c = ip \<Longrightarrow> d + MinAutoRecoverEvery \<le> t"
  shows "spaced (log @ calls)"
proof -
  have "spaced calls" using assms(2) by (auto simp: task_calls_def intro: single_action_spaced)
  with assms show ?thesis unfolding spaced_def sorted_wrt_append task_calls_def same_target_def by fastforce
qed

lemma executed_orderly:
  assumes "unique_machines I" and e: "(mid, ip, cl) \<in> set I" "clustered (mid, ip, cl)" and s: "orderly I s"
    and idle: "\<And>row a. map_of (mo_recovery s) mid = Some row \<Longrightarrow> rs_LastAttemptAt (fst row) = Some a \<Longrightarrow> a + MinAutoRecoverEvery \<le> mo_clock s"
    and ex: "executed (mo_ssh s, mo_recovery s, idents s) (mo_clock s) mid ip s'"
  shows "orderly I s'"
proof -
  obtain calls row where row: "stays (mo_ssh s @ calls, mo_recovery s', idents s) (mo_clock s) s'" "task_calls ip (mo_clock s) (mo_clock s') calls"
    "\<forall>k. k \<noteq> mid \<longrightarrow> map_of (mo_recovery s') k = map_of (mo_recovery s) k" "map_of (mo_recovery s') mid = Some row" "attempt_after calls (fst row)"
    using ex by (auto simp: executed_def)
  have I: "idents s = I" "idents s' = I" and later: "mo_clock s \<le> mo_clock s'" using s row(1) by (simp_all add: orderly_def stays_def)
  have old: "d + MinAutoRecoverEvery \<le> mo_clock s" if d: "(d, c, r) \<in> set (mo_ssh s)" "acts c" "call_ip c = ip" for d c r
  proof -
    have "settled_call (mo_recovery s) (mo_clock s) mid d" using s e d unfolding orderly_def guarded_def by fastforce
    then show ?thesis using idle unfolding settled_call_def by fastforce
  qed
  have same: "e' = (mid, ip, cl)" if "e' \<in> set I" "clustered e'" "fst (snd e') = ip" for e'
    using assms(1) e that unfolding unique_machines_def by (metis fst_conv snd_conv)
  have "settled_call (mo_recovery s') (mo_clock s') (fst e') d"
    if d: "(d, c, r) \<in> set (mo_ssh s @ calls)" "acts c" and e': "e' \<in> set I" "clustered e'" "fst (snd e') = call_ip c" for d c r e'
  proof (cases "(d, c, r) \<in> set calls")
    case True
    then have call: "call_ip c = ip" "\<exists>a. rs_LastAttemptAt (fst row) = Some a \<and> d \<le> a" using row(2,5) d(2) by (auto simp: task_calls_def attempt_after_def)
    then have "fst e' = mid" using same [OF e'(1,2)] e'(3) by simp
    with call(2) row(4) show ?thesis unfolding settled_call_def by blast
  next
    case False
    then have log: "(d, c, r) \<in> set (mo_ssh s)" using d(1) by simp
    then have before: "settled_call (mo_recovery s) (mo_clock s) (fst e') d" using s d(2) e' I unfolding orderly_def guarded_def by fastforce
    show ?thesis
    proof (cases "fst e' = mid")
      case True
      have "e' = (mid, ip, cl)" using True e'(1) e(1) assms(1) unfolding unique_machines_def by (metis fst_conv eq_key_imp_eq_value prod.collapse)
      with old [OF log d(2)] e'(3) later show ?thesis by (simp add: settled_call_def)
    next
      case False
      with before row(3) later show ?thesis by (fastforce simp: settled_call_def)
    qed
  qed
  then have "guarded s'" using row(1) I by (fastforce simp: guarded_def stays_def)
  moreover have "spaced (mo_ssh s @ calls)" using task_spaced [OF _ row(2)] old s by (simp add: orderly_def)
  ultimately show ?thesis using row(1) I by (simp add: orderly_def stays_def)
qed

lemma create_task: "stays c t s \<Longrightarrow> CreateRecoveryTask task s = (r, s') \<Longrightarrow> stays c t s' \<and> (\<forall>task'. r = Inr task' \<longrightarrow> rt_MachineID task' = rt_MachineID task)"
  using validD [OF stays_create, of c t s task r s']
  by (simp add: CreateRecoveryTask_def Let_def on_ok_def split: prod.splits sum.splits) auto

lemma agent_task: "stays c t s \<Longrightarrow> with_agent task s = (r, s') \<Longrightarrow> stays c t s' \<and> (\<exists>task'. r = Inr task' \<and> rt_MachineID task' = rt_MachineID task)"
  using validD [OF stays_task(3), of c t s task r s']
  by (simp add: with_agent_def with_result_def split: prod.splits sum.splits option.splits) auto

lemma execute_orderly:
  assumes I: "unique_machines I" and e: "(mid, ip, cl) \<in> set I" "clustered (mid, ip, cl)" and s: "orderly I s"
    and idle: "\<And>row a. map_of (mo_recovery s) mid = Some row \<Longrightarrow> rs_LastAttemptAt (fst row) = Some a \<Longrightarrow> a + MinAutoRecoverEvery \<le> mo_clock s"
    and task: "rt_MachineID task = mid" and run: "ExecuteTask cfg ssh None task s = (r, s')"
  shows "orderly I s'"
proof -
  let ?c = "(mo_ssh s, mo_recovery s, idents s)"
  have "map_of (map (\<lambda>(i, a, _). (i, a)) I) mid = Some ip"
    using I e by (intro map_of_is_SomeI) (force simp: unique_machines_def comp_def split_beta)+
  then have "known ?c mid ip" using s by (simp add: known_def orderly_def)
  moreover have "stays ?c (mo_clock s) s" using s by (simp add: stays_def orderly_def)
  ultimately have "s' = s \<or> executed ?c (mo_clock s) mid ip s'" using execute_result [OF _ task _ run] by blast
  then show ?thesis
  proof
    assume "executed ?c (mo_clock s) mid ip s'"
    with executed_orderly [OF I e s] idle show ?thesis by blast
  qed (simp add: s)
qed

definition ready :: "monitor \<Rightarrow> string \<Rightarrow> go_time \<Rightarrow> bool" where
  "ready s mid now \<longleftrightarrow> (\<forall>row. map_of (mo_recovery s) mid = Some row \<longrightarrow>
     \<not> rs_InProgress (fst row) \<and> (\<forall>a. rs_LastAttemptAt (fst row) = Some a \<longrightarrow> a + MinAutoRecoverEvery \<le> now))"

text \<open>A scan either keeps the recovery state or executes a task of a machine that is ready for it.\<close>

lemma scan_cases:
  assumes "calm s" and run: "recover_machine cfg ssh m s = (r, s')"
  obtains (kept) "stays (mo_ssh s, mo_recovery s, idents s) (mo_clock s) s'"
    | (tried) s3 task q where "stays (mo_ssh s, mo_recovery s, idents s) (mo_clock s) s3" "ExecuteTask cfg ssh None task s3 = (q, s')"
        "rt_MachineID task = mach_ID m" "ready s (mach_ID m) (mo_clock s3)" "trim_space (mach_Cluster m) \<noteq> []"
proof -
  let ?c = "(mo_ssh s, mo_recovery s, idents s)" and ?mid = "mach_ID m"
  have s: "stays ?c (mo_clock s) s" using assms(1) by (simp add: stays_def)
  obtain hb s1 where hb: "HB_GetByMachineID ?mid s = (hb, s1)" by (rule prod.exhaust)
  have s1: "stays ?c (mo_clock s) s1" by (rule validD [OF stays_load(2) s hb])
  define st where "st = map_option fst (map_of (mo_recovery s) ?mid)"
  have found: "GetLatestState ?mid s1 = (Inr st, s1)" using s1 by (simp add: GetLatestState_def st_def stays_def)
  let ?gate = "case st of None \<Rightarrow> False | Some st \<Rightarrow> rs_InProgress st \<or> suppressed (mo_clock s1) st \<or> recently_tried (mo_clock s1) st"
  show thesis
  proof (cases "trim_space (mach_Cluster m) = [] \<or> (\<forall>item. hb \<noteq> Inr (Some item) \<or> ls_CurrentState item \<noteq> StateOffline) \<or> ?gate")
    case True
    with run hb found s s1 have "stays ?c (mo_clock s) s'"
      by (auto simp: recover_machine_def with_result_def on_ok_def split: sum.splits option.splits if_splits)
    then show thesis by (rule kept)
  next
    case False
    then obtain item where item: "hb = Inr (Some item)" "ls_CurrentState item = StateOffline" and gate: "\<not> ?gate" and cl: "trim_space (mach_Cluster m) \<noteq> []"
      by blast
    let ?task = "new_task (mo_clock s1) m TriggerOfflineAuto ((case st of None \<Rightarrow> 0 | Some st \<Rightarrow> rs_ConsecutiveFailures st) + 1)
                       ''agent heartbeat offline, auto recovery requested''"
    have s1': "stays ?c (mo_clock s1) s1" using s1 by (simp add: stays_def)
    obtain q2 s2 where ag: "with_agent ?task s1 = (q2, s2)" by (rule prod.exhaust)
    obtain task2 where s2: "stays ?c (mo_clock s1) s2" "q2 = Inr task2" "rt_MachineID task2 = ?mid"
      using agent_task [OF s1' ag] by (auto simp: new_task_def)
    obtain q3 s3 where cr: "CreateRecoveryTask task2 s2 = (q3, s3)" by (rule prod.exhaust)
    note s3 = create_task [OF s2(1) cr]
    then have s3': "stays ?c (mo_clock s) s3" using s1 by (simp add: stays_def)
    have rest: "recover_machine cfg ssh m s = on_ok (CreateRecoveryTask task2) (\<lambda>task. mon_ignore (ExecuteTask cfg ssh None task)) s2"
      using cl gate item(2) hb ag
      by (simp add: recover_machine_def with_result_def on_ok_def [of "GetLatestState ?mid"] found item(1) on_ok_def [of "with_agent ?task"] s2(2) del: not_None_eq)
    show thesis
    proof (cases q3)
      case (Inl err)
      with run rest cr s3' have "stays ?c (mo_clock s) s'" by (simp add: on_ok_def)
      then show thesis by (rule kept)
    next
      case (Inr task3)
      have s': "s' = snd (ExecuteTask cfg ssh None task3 s3)" using run rest cr by (simp add: on_ok_def Inr mon_ignore_result)
      have "mo_clock s1 \<le> mo_clock s3" using s3 by (simp add: stays_def)
      then have "ready s ?mid (mo_clock s3)"
        using gate by (auto simp: ready_def st_def recently_tried_def split: option.splits)
      from tried [OF s3' _ _ this cl, of task3 "fst (ExecuteTask cfg ssh None task3 s3)"] s3 s2(3) show thesis by (simp add: s' Inr)
    qed
  qed
qed

lemma scan_orderly:
  assumes I: "unique_machines I" and m: "(mach_ID m, mach_IP m, mach_Cluster m) \<in> set I"
  shows "preserves (orderly I) (recover_machine cfg ssh m)"
proof (rule validI)
  fix s r s'
  assume s: "orderly I s" and run: "recover_machine cfg ssh m s = (r, s')"
  have keep: "orderly I v" if "stays (mo_ssh s, mo_recovery s, idents s) (mo_clock s) v" for v
    using s that unfolding orderly_def guarded_def settled_call_def stays_def by fastforce
  have "calm s" using s by (simp add: orderly_def)
  then show "orderly I s'" using run
  proof (cases rule: scan_cases)
    case kept
    then show ?thesis by (rule keep)
  next
    case (tried s3 task q)
    have cl: "clustered (mach_ID m, mach_IP m, mach_Cluster m)" using tried(5) by (simp add: clustered_def)
    show ?thesis
      by (rule execute_orderly [OF I m cl keep [OF tried(1)] _ tried(3,2)])
        (use tried(1,4) in \<open>auto simp: ready_def stays_def\<close>)
  qed
qed

text \<open>The histories of a manager that only scans: time passes with its heartbeats and ticks, and scans run.\<close>

inductive auto_step :: "hb_config \<Rightarrow> ssh \<Rightarrow> monitor \<Rightarrow> monitor \<Rightarrow> bool" for cfg ssh where
  auto_pass: "pass cfg d s = (r, s') \<Longrightarrow> auto_step cfg ssh s s'"
| auto_beat: "ProcessHeartbeat cfg req s = (q, s') \<Longrightarrow> auto_step cfg ssh s s'"
| auto_scan: "ScanAndRecover cfg ssh s = (r, s') \<Longrightarrow> auto_step cfg ssh s s'"

text \<open>What every scan of a machine keeps, and what time and heartbeats keep, the histories keep.\<close>

lemma auto_preserves:
  assumes calm: "\<And>s. P s \<Longrightarrow> calm s \<and> idents s = I"
    and kept: "\<And>d. preserves P (pass cfg d)" "\<And>req. preserves P (ProcessHeartbeat cfg req)"
    and scan: "\<And>m. (mach_ID m, mach_IP m, mach_Cluster m) \<in> set I \<Longrightarrow> preserves P (recover_machine cfg ssh m)"
    and run: "(auto_step cfg ssh)\<^sup>*\<^sup>* s s'" and s: "P s"
  shows "P s'"
  using run
proof (induction rule: rtranclp_induct)
  case base
  show ?case by (rule s)
next
  case (step u v)
  from step.hyps(2) show ?case
  proof cases
    case (auto_pass d r)
    then show ?thesis by (rule validD [OF kept(1) step.IH])
  next
    case (auto_beat req q)
    then show ?thesis by (rule validD [OF kept(2) step.IH])
  next
    case (auto_scan r)
    let ?ms = "stable_sort (\<lambda>a b. mach_CreatedAt a > mach_CreatedAt b) (w_machines (mo_world u))"
    have "on_mon_world machines_List u = (Inr ?ms, u)"
      using calm [OF step.IH] by (simp add: on_mon_world_def machines_List_def calm_def)
    with auto_scan have run: "for_ok (recover_machine cfg ssh) ?ms u = (r, v)" by (simp add: ScanAndRecover_def on_ok_def)
    have "preserves P (for_ok (recover_machine cfg ssh) ?ms)"
      by (intro preserves_for_ok scan) (use calm [OF step.IH] in \<open>auto simp: idents_def\<close>)
    from validD [OF this step.IH run] show ?thesis .
  qed
qed

text \<open>C10: A manager that recovers only by its scans starts or restarts the agent of an address at most once in two minutes: in any
  history of scans, heartbeats and passing time without a manual recovery and without a database failure, when no two
  clustered machines share an id or an address, the start and restart commands sent to one address are at least
  \<open>MinAutoRecoverEvery\<close> apart. (A manual recovery that finds the agent back stores a row without a last attempt, after which
  the scans no longer know of the attempts before it.)\<close>

theorem automatic_restarts_spaced:
  assumes "calm s0" "mo_ssh s0 = []" "unique_machines (idents s0)" and "(auto_step cfg ssh)\<^sup>*\<^sup>* s0 s"
    and "mo_ssh s = before @ (d, c, reply) # between @ (d', c', reply') # after" and "acts c" "acts c'" "call_ip c = call_ip c'"
  shows "d + MinAutoRecoverEvery \<le> d'"
proof -
  have start: "orderly (idents s0) s0" using assms(1,2) by (simp add: orderly_def spaced_def guarded_def)
  have "orderly (idents s0) s"
    by (rule auto_preserves [OF _ orderly_keeps [OF stays_pass] orderly_keeps [OF stays_heartbeat] scan_orderly [OF assms(3)] assms(4) start])
      (auto simp: orderly_def)
  with assms(5-8) show ?thesis unfolding orderly_def spaced_def assms(5) by (auto simp: sorted_wrt_append same_target_def)
qed

definition dead_monitor :: monitor where
  "dead_monitor = (empty_monitor (60 * second))\<lparr>
     mo_world := (empty_world (60 * second))\<lparr>w_machines := [no_machine\<lparr>mach_ID := ''m1'', mach_IP := ''10.0.0.1'', mach_Cluster := ''c1''\<rparr>]\<rparr>,
     mo_status := [(health_status StateOffline)\<lparr>ls_LastHeartbeatAt := second, ls_LastHealthyAt := Some second\<rparr>]\<rparr>"

definition broken_ssh :: ssh where
  "broken_ssh log call = \<lparr>sr_Output = ''active'', sr_Error = (if acts call then Some (Error ''exit 1'') else None), sr_Elapsed = 0\<rparr>"

definition after_two_scans :: monitor where
  "after_two_scans = snd (ScanAndRecover default_config broken_ssh (snd (pass default_config (2 * minute)
     (snd (ScanAndRecover default_config broken_ssh dead_monitor)))))"

lemma two_scans: "map (\<lambda>(d, c, _). (d, acts c, call_ip c)) (mo_ssh after_two_scans) =
    [(63 * second, False, ''10.0.0.1''), (63 * second, True, ''10.0.0.1''), (186 * second, False, ''10.0.0.1''), (186 * second, True, ''10.0.0.1'')]"
  by code_simp

lemma two_scans_steps: "(auto_step default_config broken_ssh)\<^sup>*\<^sup>* dead_monitor after_two_scans"
  unfolding after_two_scans_def
  by (rule converse_rtranclp_into_rtranclp, rule auto_scan, rule surjective_pairing,
    rule converse_rtranclp_into_rtranclp, rule auto_pass, rule surjective_pairing,
    rule converse_rtranclp_into_rtranclp, rule auto_scan, rule surjective_pairing, rule rtranclp.rtrancl_refl)

theorem automatic_restarts_spaced_witness:
  "\<exists>s log d c r between d' c' r' log'. (auto_step default_config broken_ssh)\<^sup>*\<^sup>* dead_monitor s \<and>
     mo_ssh s = log @ (d, c, r) # between @ (d', c', r') # log' \<and> acts c \<and> acts c' \<and> call_ip c = call_ip c' \<and> d + MinAutoRecoverEvery \<le> d'"
proof -
  obtain e1 d c r e3 d' c' r' where log: "mo_ssh after_two_scans = [e1, (d, c, r), e3, (d', c', r')]" "acts c" "acts c'" "call_ip c = call_ip c'"
    using two_scans by (auto simp: map_eq_Cons_conv)
  have split: "mo_ssh after_two_scans = [e1] @ (d, c, r) # [e3] @ (d', c', r') # []" using log(1) by simp
  have "calm dead_monitor" "mo_ssh dead_monitor = []" "unique_machines (idents dead_monitor)"
    by (simp_all add: dead_monitor_def empty_monitor_def empty_world_def calm_def idents_def unique_machines_def)
  from automatic_restarts_spaced [OF this two_scans_steps split log(2-4)] split log(2-4) two_scans_steps show ?thesis by blast
qed

subsection \<open>What an execution leaves\<close>

text \<open>A row, once there, stays, whatever the context of the execution.\<close>

definition rowed :: "string \<Rightarrow> monitor \<Rightarrow> bool" where
  "rowed mid s \<longleftrightarrow> calm s \<and> map_of (mo_recovery s) mid \<noteq> None"

lemma rowed_keeps:
  assumes "\<And>c t. preserves (stays c t) m"
  shows "preserves (rowed mid) m"
proof (rule validI)
  fix s r s'
  assume s: "rowed mid s" and run: "m s = (r, s')"
  then have "stays (mo_ssh s, mo_recovery s, idents s) (mo_clock s) s" by (simp add: stays_def rowed_def)
  from validD [OF assms this run] s show "rowed mid s'" by (simp add: stays_def rowed_def)
qed

lemma preserves_in_ctx: "preserves I m \<Longrightarrow> preserves I (in_ctx ctx m)"
  unfolding valid_def in_ctx_def by (auto split: option.splits if_splits)

lemma rowed_save: "preserves (rowed mid) (SaveLatestState st)"
  unfolding SaveLatestState_def by (rule validI) (auto simp: rowed_def update_conv' calm_def)

lemma rowed_call: "preserves (rowed mid) (ssh_run cfg ssh call)"
  unfolding ssh_run_def
  by (intro op_rules rowed_keeps [OF stays_pass]) (auto simp: rowed_def calm_def)

lemmas rowed_rules = op_rules preserves_in_ctx rowed_save rowed_call
  rowed_keeps [OF stays_task(1)] rowed_keeps [OF stays_task(2)] rowed_keeps [OF stays_pass] rowed_keeps [OF stays_wait]
  rowed_keeps [OF stays_load(2)] rowed_keeps [OF stays_worlds(3)]

lemma rowed_revive: "preserves (rowed mid) (revive cfg ssh ctx task m)"
  unfolding revive_def fail_task_def markFailed_def await_heartbeat_def Let_def
  by (intro rowed_rules)

lemma rowed_execute: "preserves (rowed mid) (execute_locked cfg ssh ctx task)"
  unfolding execute_locked_def already_recovered_def mon_ignore_def Let_def
  by (intro rowed_rules rowed_revive)

lemma release_row:
  assumes "rowed mid s" "mon_ignore (in_ctx ctx (ReleaseRecoveryLock mid)) s = (r, s')"
  shows "r = Inr () \<and> (released mid s' \<or> (\<exists>d. ctx = Some d \<and> d \<le> mo_clock s'))"
proof (cases "\<exists>d. ctx = Some d \<and> d \<le> mo_clock s")
  case True
  with assms(2) show ?thesis by (auto simp: mon_ignore_result in_ctx_def)
next
  case False
  then have "in_ctx ctx (ReleaseRecoveryLock mid) s = ReleaseRecoveryLock mid s" by (auto simp: in_ctx_def split: option.split)
  with assms have s': "r = Inr ()" "s' = s\<lparr>mo_recovery := AList.map_entry mid (unlocked_row (mo_clock s)) (mo_recovery s)\<rparr>"
    by (simp_all add: mon_ignore_result ReleaseRecoveryLock_def rowed_def)
  from assms(1) obtain row where "map_of (mo_recovery s) mid = Some row" by (auto simp: rowed_def)
  then have "released mid s'" by (simp add: s'(2) released_def map_of_map_entry unlocked_row_def)
  with s'(1) show ?thesis by blast
qed

lemma acquire_row:
  assumes "calm s" "\<not> lock_is_held (mo_clock s) (map_of (mo_recovery s) mid)" "TryAcquireLock mid until s = (q, v)"
  shows "q = Inr True \<and> rowed mid v"
  using assms by (auto simp: TryAcquireLock_def on_ok_def rowed_def update_conv' calm_def)

text \<open>C11: An execution of a recovery task that finds the lock of its machine free, with no database failure, gives the lock back and
  leaves no recovery in progress, whatever the machine answers and whichever of its branches it takes, unless its
  context had a deadline and that has passed when it ends: then the release is not written (a manual
  recovery runs with a deadline of two minutes, an automatic one with none).\<close>

theorem execution_releases:
  assumes "calm s" and "\<not> lock_is_held (mo_clock s) (map_of (mo_recovery s) (rt_MachineID task))" and "ExecuteTask cfg ssh ctx task s = (r, s')"
  shows "released (rt_MachineID task) s' \<or> (\<exists>d. ctx = Some d \<and> d \<le> mo_clock s')"
proof (cases "\<exists>d. ctx = Some d \<and> d \<le> mo_clock s")
  case True
  with assms(3) show ?thesis by (auto simp: ExecuteTask_def on_ok_def in_ctx_def)
next
  case False
  let ?mid = "rt_MachineID task"
  have early: "in_ctx ctx m s = m s" for m :: "bool mon" using False by (auto simp: in_ctx_def split: option.split)
  obtain q v where lock: "TryAcquireLock ?mid (mo_clock s + 2 * minute) s = (q, v)" by (rule prod.exhaust)
  note q = acquire_row [OF assms(1,2) lock]
  obtain x u where body: "execute_locked cfg ssh ctx task v = (x, u)" by (rule prod.exhaust)
  have u: "rowed ?mid u" using validD [OF rowed_execute _ body] q by blast
  obtain y z where rel: "mon_ignore (in_ctx ctx (ReleaseRecoveryLock ?mid)) u = (y, z)" by (rule prod.exhaust)
  note z = release_row [OF u rel]
  have "s' = z"
    using assms(3) lock q body rel z by (auto simp: ExecuteTask_def on_ok_def early with_result_def split: sum.splits)
  with z show ?thesis by simp
qed

definition a_task :: recovery_task where
  "a_task = new_task (60 * second) (no_machine\<lparr>mach_ID := ''m1''\<rparr>) TriggerOfflineAuto 1 []"

text \<open>With a deadline that falls into the confirmation window the row stays locked and in progress.\<close>

lemma expired_execution:
  "map_option (\<lambda>(st, lock). (rs_InProgress st, lock))
     (map_of (mo_recovery (snd (ExecuteTask default_config broken_ssh (Some (61 * second)) a_task dead_monitor))) ''m1'') = Some (True, Some (180 * second))"
  by code_simp

theorem execution_releases_witness:
  "released ''m1'' (snd (ExecuteTask default_config broken_ssh None a_task dead_monitor)) \<and>
   61 * second \<le> mo_clock (snd (ExecuteTask default_config broken_ssh (Some (61 * second)) a_task dead_monitor))"
proof -
  have task: "rt_MachineID a_task = ''m1''" by (simp add: a_task_def new_task_def)
  have free: "calm dead_monitor" "\<not> lock_is_held (mo_clock dead_monitor) (map_of (mo_recovery dead_monitor) (rt_MachineID a_task))"
    by (simp_all add: dead_monitor_def empty_monitor_def empty_world_def calm_def lock_is_held_def)
  have "released ''m1'' (snd (ExecuteTask default_config broken_ssh None a_task dead_monitor))"
    using execution_releases [OF free prod.collapse [symmetric], of default_config broken_ssh None] by (simp add: task)
  moreover have "\<not> released ''m1'' (snd (ExecuteTask default_config broken_ssh (Some (61 * second)) a_task dead_monitor))"
    using expired_execution by (auto simp: released_def)
  ultimately show ?thesis
    using execution_releases [OF free prod.collapse [symmetric], of default_config broken_ssh "Some (61 * second)"] by (simp add: task)
qed

subsection \<open>A recovery that stays in progress\<close>

definition stuck :: "(string \<times> string \<times> string) list \<Rightarrow> string \<Rightarrow> string \<Rightarrow> recovery_row \<Rightarrow> ssh_log \<Rightarrow> monitor \<Rightarrow> bool" where
  "stuck I mid ip row log s \<longleftrightarrow> calm s \<and> idents s = I \<and> map_of (mo_recovery s) mid = Some row \<and>
     filter (\<lambda>(_, c, _). call_ip c = ip) (mo_ssh s) = log"

lemma stuck_keeps:
  assumes "\<And>c t. preserves (stays c t) m"
  shows "preserves (stuck I mid ip row log) m"
proof (rule validI)
  fix s r s'
  assume s: "stuck I mid ip row log s" and run: "m s = (r, s')"
  have "stays (mo_ssh s, mo_recovery s, idents s) (mo_clock s) s" using s by (simp add: stays_def stuck_def)
  from validD [OF assms this run] s show "stuck I mid ip row log s'" by (simp add: stays_def stuck_def)
qed

lemma scan_stuck:
  assumes I: "unique_machines I" and m: "(mach_ID m, mach_IP m, mach_Cluster m) \<in> set I"
    and e: "(mid, ip, cl) \<in> set I" "clustered (mid, ip, cl)" and row: "rs_InProgress (fst row)"
  shows "preserves (stuck I mid ip row log) (recover_machine cfg ssh m)"
proof (rule validI)
  fix s r s'
  assume s: "stuck I mid ip row log s" and run: "recover_machine cfg ssh m s = (r, s')"
  have keep: "stuck I mid ip row log v" if "stays (mo_ssh s, mo_recovery s, idents s) (mo_clock s) v" for v
    using s that by (simp add: stuck_def stays_def)
  have "calm s" using s by (simp add: stuck_def)
  then show "stuck I mid ip row log s'" using run
  proof (cases rule: scan_cases)
    case kept
    then show ?thesis by (rule keep)
  next
    case (tried s3 task q)
    let ?c = "(mo_ssh s, mo_recovery s, idents s)"
    have other: "mach_ID m \<noteq> mid" using tried(4) s row by (cases row) (auto simp: ready_def stuck_def)
    have "clustered (mach_ID m, mach_IP m, mach_Cluster m)" using tried(5) by (simp add: clustered_def)
    with I m e other have ips: "mach_IP m \<noteq> ip" by (fastforce simp: unique_machines_def)
    have "map_of (map (\<lambda>(i, a, _). (i, a)) I) (mach_ID m) = Some (mach_IP m)"
      using I m by (intro map_of_is_SomeI) (force simp: unique_machines_def comp_def split_beta)+
    then have known: "known ?c (mach_ID m) (mach_IP m)" using s by (simp add: known_def stuck_def)
    from execute_result [OF known tried(3,1,2)] show ?thesis
    proof
      assume "s' = s3 \<and> lock_is_held (mo_clock s3) (map_of (mo_recovery s3) (mach_ID m))"
      with keep [OF tried(1)] show ?thesis by simp
    next
      assume ex: "executed ?c (mo_clock s) (mach_ID m) (mach_IP m) s' \<and> released (mach_ID m) s'"
      obtain calls where calls: "stays (mo_ssh s @ calls, mo_recovery s', idents s) (mo_clock s) s'" "task_calls (mach_IP m) (mo_clock s) (mo_clock s') calls"
        "\<forall>k. k \<noteq> mach_ID m \<longrightarrow> map_of (mo_recovery s') k = map_of (mo_recovery s) k"
        using ex by (auto simp: executed_def)
      have "filter (\<lambda>(_, c, _). call_ip c = ip) calls = []" using calls(2) ips by (auto simp: task_calls_def filter_empty_conv)
      with s calls(1,3) other show ?thesis by (simp add: stuck_def stays_def)
    qed
  qed
qed

text \<open>C14: A machine whose row says that a recovery is in progress is never recovered again by the scans: no history of scans,
  heartbeats and time, without a manual recovery and a database failure, changes the row or sends a command to the address of the machine. The expiry of the lock, which an
  execution that broke off leaves in the row, does not matter to the scans.\<close>

theorem interrupted_recovery_blocks_scans:
  assumes "calm s" and "unique_machines (idents s)" and "(mid, ip, cl) \<in> set (idents s)" "clustered (mid, ip, cl)"
    and "map_of (mo_recovery s) mid = Some row" "rs_InProgress (fst row)" and "(auto_step cfg ssh)\<^sup>*\<^sup>* s s'"
  shows "map_of (mo_recovery s') mid = Some row \<and> filter (\<lambda>(_, c, _). call_ip c = ip) (mo_ssh s') = filter (\<lambda>(_, c, _). call_ip c = ip) (mo_ssh s)"
proof -
  let ?P = "stuck (idents s) mid ip row (filter (\<lambda>(_, c, _). call_ip c = ip) (mo_ssh s))"
  have start: "?P s" using assms(1,5) by (simp add: stuck_def)
  have "?P s'"
    by (rule auto_preserves [OF _ stuck_keeps [OF stays_pass] stuck_keeps [OF stays_heartbeat] scan_stuck [OF assms(2) _ assms(3,4,6)] assms(7) start])
      (auto simp: stuck_def)
  then show ?thesis by (simp add: stuck_def)
qed

text \<open>An execution that its deadline ends after it has marked the recovery as in progress leaves such a row.\<close>

definition broken_off :: monitor where
  "broken_off = dead_monitor\<lparr>mo_recovery := [(''m1'', (no_recovery_state\<lparr>rs_MachineID := ''m1'', rs_InProgress := True, rs_LastAttemptAt := Some second\<rparr>, Some (3 * minute)))]\<rparr>"

theorem interrupted_recovery_blocks_scans_witness:
  "\<exists>row. map_of (mo_recovery (snd (ScanAndRecover default_config broken_ssh broken_off))) ''m1'' = Some row \<and> rs_InProgress (fst row)"
proof -
  have "(auto_step default_config broken_ssh)\<^sup>*\<^sup>* broken_off (snd (ScanAndRecover default_config broken_ssh broken_off))"
    by (rule r_into_rtranclp, rule auto_scan, rule surjective_pairing)
  from interrupted_recovery_blocks_scans [OF _ _ _ _ _ _ this, of "''m1''" "''10.0.0.1''" "''c1''"] show ?thesis
    by (simp add: broken_off_def dead_monitor_def empty_monitor_def empty_world_def idents_def calm_def unique_machines_def clustered_def
      trim_space_def is_space_def)
qed

end
