(* ===== verification/Mysql_Upgrade.thy ===== *)
theory Mysql_Upgrade
  imports HA_Repo Mysql_Package Mysql_Version Shell_Commands Task_Channels Arch_Election "HOL-Library.AList"
begin

text \<open>
  The upgrade of one MySQL instance (\<open>internal/app/task_service.go\<close>, from \<open>ResolveMySQLInstance\<close> to
  \<open>mysqlUpgradeRestoreReadOnlyCommand\<close>): the checks before it, the commands of the precheck and of the upgrade, and
  the two tasks. Display texts are English. What stays the same during an operation is the record \<open>upgrade_env\<close>:
  the task channels, the collected facts about the machines and the directory of the installation packages.
\<close>

subsection \<open>The surroundings\<close>

record upgrade_env =
  ue_agent :: agent
  ue_channels :: task_channels
  ue_infos :: "string \<Rightarrow> machine_info option result"
  ue_selector :: package_selector
  ue_listing :: "dir_listing result"
  ue_stat :: "string \<times> string \<Rightarrow> go_error option"
  ue_ids :: "nat \<Rightarrow> string"

text \<open>A stored precheck task: the fields the upgrade looks at. Its status is the agent's.\<close>

record precheck_row =
  pc_MachineID :: string
  pc_Port :: int
  pc_Package :: string
  pc_Parent :: string
  pc_CreatedAt :: go_time

record task_world =
  tw_world :: world
  tw_prechecks :: "(string \<times> precheck_row) list"

definition on_tw :: "'a act \<Rightarrow> ('m task_world_scheme, 'a) op" where
  "on_tw m s = (case m (tw_world s) of (r, w) \<Rightarrow> (r, s\<lparr>tw_world := w\<rparr>))"

definition tw_send :: "upgrade_env \<Rightarrow> agent_call \<Rightarrow> ('m task_world_scheme, agent_reply) op" where
  "tw_send env call = on_tw (send (ue_agent env) call)"

subsection \<open>Paths and texts\<close>

text \<open>\<open>filepath.Clean\<close> on the elements of a path, and what is built from it.\<close>

fun clean_elements :: "bool \<Rightarrow> string list \<Rightarrow> string list \<Rightarrow> string list" where
  "clean_elements rooted out [] = rev out"
| "clean_elements rooted out (e # es) =
     (if e = [] \<or> e = ''.'' then clean_elements rooted out es
      else if e = ''..''
           then (case out of
                   [] \<Rightarrow> clean_elements rooted (if rooted then [] else [''..'']) es
                 | d # ds \<Rightarrow> if d = ''..'' then clean_elements rooted (''..'' # out) es else clean_elements rooted ds es)
           else clean_elements rooted (e # out) es)"

definition filepath_Clean :: "string \<Rightarrow> string" where
  "filepath_Clean path =
     (let rooted = has_prefix path ''/''; p = join ''/'' (clean_elements rooted [] (split_on (CHR ''/'') path))
      in if rooted then ''/'' @ p else if p = [] then ''.'' else p)"

definition filepath_Dir :: "string \<Rightarrow> string" where
  "filepath_Dir path = filepath_Clean (rev (dropWhile (\<lambda>c. c \<noteq> CHR ''/'') (rev path)))"

definition filepath_Join :: "string \<Rightarrow> string \<Rightarrow> string" where
  "filepath_Join dir name = (if dir = [] \<and> name = [] then [] else filepath_Clean (join ''/'' (filter (\<lambda>e. e \<noteq> []) [dir, name])))"

definition hex_digit :: "nat \<Rightarrow> char" where
  "hex_digit n = char_of (if n < 10 then n + 48 else n + 55)"

definition plain_path_char :: "char \<Rightarrow> bool" where
  "plain_path_char c \<longleftrightarrow> (let n = char_code c in (48 \<le> n \<and> n \<le> 57) \<or> (65 \<le> n \<and> n \<le> 90) \<or> (97 \<le> n \<and> n \<le> 122)) \<or> c \<in> set ''-_.~$&+=:@''"

definition PathEscape :: "string \<Rightarrow> string" where
  "PathEscape = concat \<circ> map (\<lambda>c. if plain_path_char c then [c] else [CHR ''%'', hex_digit (char_code c div 16), hex_digit (char_code c mod 16)])"

text \<open>A single quote is written outside the quotes, between double quotes.\<close>

definition upgradeShellQuote :: "string \<Rightarrow> string" where
  "upgradeShellQuote v = shtx ''#'' @ replace_char (CHR 0x27) (shtx ''#`#`#'') v @ shtx ''#''"

abbreviation mysqlDefaultsFilePlaceholder :: string where "mysqlDefaultsFilePlaceholder \<equiv> ''__GMHA_MYSQL_DEFAULTS_FILE__''"

definition mysqlUpgradeArchiveLayout :: "string \<Rightarrow> (string \<times> string) result" where
  "mysqlUpgradeArchiveLayout name0 =
     (let name = filepath_Base (trim_space name0)
      in if has_suffix name ''.tar.xz'' then Inr (trim_suffix name ''.tar.xz'', ''-xJf'')
         else if has_suffix name ''.tar.gz'' then Inr (trim_suffix name ''.tar.gz'', ''-xzf'')
         else if has_suffix name ''.tgz'' then Inr (trim_suffix name ''.tgz'', ''-xzf'')
         else Inl (Errorf ''unsupported MySQL upgrade package archive: %s'' [name]))"

definition mysqlUpgradeValidateConfigCommand :: "string \<Rightarrow> string \<Rightarrow> string" where
  "mysqlUpgradeValidateConfigCommand mysqldPath configPath =
     (let mysqld = upgradeShellQuote mysqldPath; command = mysqld @ '' --defaults-file='' @ upgradeShellQuote configPath
      in ''if '' @ mysqld @ shtx '' --no-defaults --verbose --help 2>/dev/null | grep -q -- #--validate-config#; then '' @
         command @ '' --validate-config; else '' @ command @ '' --verbose --help >/dev/null; fi'')"

definition mysqlUpgradeRestoreReadOnlyCommand :: "string \<Rightarrow> string \<Rightarrow> string" where
  "mysqlUpgradeRestoreReadOnlyCommand client stateDir =
     ''old_state=$(cat '' @ upgradeShellQuote (filepath_Join stateDir ''read_only'') @ shtx '' 2>/dev/null || echo #1 1#); set -- $old_state; '' @
     shtx ''if [ `${2:-1}` = 0 ]; then '' @ client @ '' --execute='' @ upgradeShellQuote ''SET GLOBAL super_read_only=OFF;'' @ ''; fi; '' @
     shtx ''if [ `${1:-1}` = 0 ]; then '' @ client @ '' --execute='' @ upgradeShellQuote ''SET GLOBAL read_only=OFF;'' @ ''; fi''"

definition tcp_options :: "int \<Rightarrow> string" where
  "tcp_options port = '' --protocol=tcp --host=127.0.0.1 --port='' @ show_int port"

subsection \<open>The commands of a precheck\<close>

definition precheck_client :: "string \<Rightarrow> int \<Rightarrow> string" where
  "precheck_client baseDir port = upgradeShellQuote (baseDir @ ''/bin/mysql'') @ '' --defaults-extra-file='' @ mysqlDefaultsFilePlaceholder @
     tcp_options port @ '' --batch --raw --table''"

definition precheck_checker :: "string \<Rightarrow> int \<Rightarrow> string \<Rightarrow> string \<Rightarrow> string" where
  "precheck_checker baseDir port currentVersion targetVersion =
     (let mysqlcheck = upgradeShellQuote (baseDir @ ''/bin/mysqlcheck'') @ '' --defaults-extra-file='' @ mysqlDefaultsFilePlaceholder @
            tcp_options port @ '' --all-databases --check-upgrade''
      in if IsMySQL57 currentVersion then shtx ''echo #checker=mysqlcheck --check-upgrade (MySQL 5.7)#; '' @ mysqlcheck
         else shtx ''if command -v mysqlsh >/dev/null 2>&1; then echo #checker=mysqlsh util.checkForServerUpgrade#; mysqlsh --defaults-file='' @
              mysqlDefaultsFilePlaceholder @ '' --host=127.0.0.1 --port='' @ show_int port @
              '' -- util check-for-server-upgrade --target-version='' @ upgradeShellQuote targetVersion @
              shtx ''; else echo #checker=mysqlcheck --check-upgrade (mysqlsh unavailable)#; '' @ mysqlcheck @ ''; fi'')"

definition validate_current_config :: "string \<Rightarrow> string \<Rightarrow> string" where
  "validate_current_config baseDir myCnf =
     (let mysqld = upgradeShellQuote (baseDir @ ''/bin/mysqld'')
      in ''if '' @ mysqld @ shtx '' --verbose --help 2>/dev/null | grep -q -- #--validate-config#; then '' @ mysqld @
         '' --defaults-file='' @ upgradeShellQuote myCnf @
         shtx '' --validate-config; else echo #this 5.7 release has no --validate-config, the configuration is checked with --verbose --help#; '' @
         mysqld @ '' --defaults-file='' @ upgradeShellQuote myCnf @ '' --verbose --help >/dev/null; fi'')"

definition replication_status_sql :: string where
  "replication_status_sql = ''SELECT CHANNEL_NAME, SERVICE_STATE, LAST_ERROR_NUMBER, LAST_ERROR_MESSAGE FROM performance_schema.replication_connection_status; SELECT CHANNEL_NAME, SERVICE_STATE, LAST_ERROR_NUMBER, LAST_ERROR_MESSAGE FROM performance_schema.replication_applier_status_by_coordinator;''"

definition precheck_commands :: "string \<Rightarrow> string \<Rightarrow> int \<Rightarrow> string \<Rightarrow> package \<Rightarrow> string list" where
  "precheck_commands baseDir myCnf port currentVersion target =
     [join '' && ''
        [shtx ''echo #GMHA_PRECHECK_SECTION=layout#'',
         ''test -L '' @ upgradeShellQuote baseDir @ shtx '' || { echo #BLOCKER: base_dir is not a symbolic link#; exit 1; }'',
         ''current_target=$(readlink -f '' @ upgradeShellQuote baseDir @ shtx '') && test -x `$current_target/bin/mysqld`'',
         ''echo current_target=$current_target'',
         ''echo current_binary_version=$('' @ upgradeShellQuote (baseDir @ ''/bin/mysqld'') @ '' --version)'',
         ''echo target_version='' @ upgradeShellQuote (pk_Version target) @ '' target_package='' @ upgradeShellQuote (pk_FileName target),
         ''echo machine_arch=$(uname -m) glibc=$(ldd --version 2>&1 | head -1)'',
         ''df -Pk '' @ upgradeShellQuote (filepath_Dir baseDir) @ '' | tail -1'',
         ''test -r '' @ upgradeShellQuote myCnf @ '' && '' @ validate_current_config baseDir myCnf],
      shtx ''echo #GMHA_PRECHECK_SECTION=status# && '' @ precheck_client baseDir port @ '' --execute='' @
        upgradeShellQuote (''SELECT @@version AS current_version, @@version_comment AS edition, @@global.read_only AS read_only, @@global.super_read_only AS super_read_only; SELECT COUNT(*) AS active_transactions FROM information_schema.innodb_trx; '' @ replication_status_sql),
      shtx ''echo #GMHA_PRECHECK_SECTION=checker# && '' @ precheck_checker baseDir port currentVersion (pk_Version target)]"

subsection \<open>The commands of an upgrade\<close>

record upgrade_paths =
  pa_BaseDir :: string
  pa_MyCnf :: string
  pa_Unit :: string
  pa_TargetDir :: string
  pa_Archive :: string
  pa_StateDir :: string
  pa_ExtractFlag :: string

definition systemd_unit :: "instance_rec \<Rightarrow> string" where
  "systemd_unit inst = (let u = trim_suffix (trim_space (inst_SystemdUnit inst)) ''.service'' in if u = [] then ''mysqld-'' @ show_int (inst_Port inst) else u)"

definition upgrade_paths_of :: "instance_rec \<Rightarrow> package \<Rightarrow> string \<Rightarrow> string \<Rightarrow> upgrade_paths" where
  "upgrade_paths_of inst target targetName extractFlag =
     (let baseDir = filepath_Clean (inst_BaseDir inst)
      in \<lparr>pa_BaseDir = baseDir, pa_MyCnf = filepath_Clean (inst_MyCnfPath inst), pa_Unit = systemd_unit inst,
          pa_TargetDir = filepath_Join (filepath_Dir baseDir) (targetName @ ''-'' @ show_int (inst_Port inst)),
          pa_Archive = filepath_Join ''/tmp'' (pk_FileName target),
          pa_StateDir = ''/var/lib/gmha/mysql-upgrade-'' @ show_int (inst_Port inst), pa_ExtractFlag = extractFlag\<rparr>)"

definition upgrade_client :: "upgrade_paths \<Rightarrow> int \<Rightarrow> string" where
  "upgrade_client p port = upgradeShellQuote (pa_BaseDir p) @ ''/bin/mysql --defaults-extra-file='' @ mysqlDefaultsFilePlaceholder @
     tcp_options port @ '' --batch --raw --skip-column-names''"

definition recheck_command :: "upgrade_paths \<Rightarrow> package \<Rightarrow> bool \<Rightarrow> string \<Rightarrow> string" where
  "recheck_command p target force precheck =
     (let q = upgradeShellQuote; mysqld = upgradeShellQuote (pa_BaseDir p @ ''/bin/mysqld'')
      in join '' && ''
        [''echo force_upgrade='' @ (if force then ''true'' else ''false'') @ '' precheck_task='' @ q precheck,
         ''test -L '' @ q (pa_BaseDir p) @ shtx '' || { echo #MySQL base_dir is not a symbolic link#; exit 1; }'',
         ''test -x '' @ mysqld,
         ''echo current_version=$('' @ mysqld @ '' --version)'',
         ''echo target_package='' @ q (pk_FileName target) @ '' target_version='' @ q (pk_Version target),
         ''echo machine_arch=$(uname -m) glibc=$(ldd --version 2>&1 | head -1)'',
         ''df -h '' @ q (filepath_Dir (pa_BaseDir p))])"

definition stop_writes_command :: "upgrade_paths \<Rightarrow> string \<Rightarrow> string" where
  "stop_writes_command p client =
     (let q = upgradeShellQuote; st = pa_StateDir p
      in ''rm -rf '' @ q st @ '' && mkdir -p '' @ q st @ '' && readlink -f '' @ q (pa_BaseDir p) @ '' > '' @ q (st @ ''/old_target'') @ '' && '' @
         client @ '' --execute='' @ q (shtx ''SELECT CONCAT(@@global.read_only, # #, @@global.super_read_only)'') @ '' > '' @ q (st @ ''/read_only'') @ '' && '' @
         client @ '' --execute='' @ q ''SET GLOBAL super_read_only=ON; SET GLOBAL read_only=ON;'' @ '' && for i in $(seq 1 60); do n=$('' @
         client @ '' --execute='' @ q ''SELECT COUNT(*) FROM information_schema.innodb_trx'' @
         shtx ''); [ `${n:-1}` = 0 ] && break; sleep 1; done; [ `${n:-1}` = 0 ]'')"

definition fetch_command :: "upgrade_paths \<Rightarrow> string \<Rightarrow> string" where
  "fetch_command p downloadURL =
     (let q = upgradeShellQuote; archive = q (pa_Archive p)
      in ''rm -f '' @ archive @ '' && if command -v curl >/dev/null 2>&1; then curl -fL --retry 3 -o '' @ archive @ '' '' @ q downloadURL @
         ''; else wget -O '' @ archive @ '' '' @ q downloadURL @ ''; fi && test -s '' @ archive)"

definition unpack_command :: "upgrade_paths \<Rightarrow> package \<Rightarrow> string \<Rightarrow> string" where
  "unpack_command p target user =
     (let q = upgradeShellQuote; dir = q (pa_TargetDir p); mysqld = q (pa_TargetDir p @ ''/bin/mysqld'')
      in ''rm -rf '' @ dir @ '' && mkdir -p '' @ dir @ '' && tar '' @ pa_ExtractFlag p @ '' '' @ q (pa_Archive p) @ '' -C '' @ dir @
         '' --strip-components=1 && test -x '' @ mysqld @ '' && '' @ mysqld @ '' --version | tee /dev/stderr | grep -F '' @
         q (''Ver '' @ pk_Version target) @ '' >/dev/null && chown -R '' @ q (user @ '':'' @ user) @ '' '' @ dir)"

definition stop_command :: "upgrade_paths \<Rightarrow> string" where
  "stop_command p = ''systemctl stop '' @ upgradeShellQuote (pa_Unit p) @ '' && ! systemctl is-active --quiet '' @ upgradeShellQuote (pa_Unit p)"

definition link_command :: "upgrade_paths \<Rightarrow> string" where
  "link_command p =
     (let q = upgradeShellQuote; nxt = q (pa_BaseDir p @ ''.gmha-next'')
      in ''ln -sfn '' @ q (pa_TargetDir p) @ '' '' @ nxt @ '' && mv -Tf '' @ nxt @ '' '' @ q (pa_BaseDir p) @
         shtx '' && test `$(readlink -f '' @ q (pa_BaseDir p) @ shtx '')` = '' @ q (pa_TargetDir p))"

definition start_command :: "upgrade_paths \<Rightarrow> string \<Rightarrow> int \<Rightarrow> string" where
  "start_command p client port =
     (let q = upgradeShellQuote; tool = q (pa_BaseDir p @ ''/bin/mysql_upgrade'')
      in ''systemctl start '' @ q (pa_Unit p) @ '' && touch '' @ q (pa_StateDir p @ ''/new_server_started'') @ '' && for i in $(seq 1 120); do '' @
         client @ '' --execute='' @ q ''SELECT 1'' @ '' >/dev/null 2>&1 && break; sleep 1; done && if [ -x '' @ tool @ '' ]; then '' @ tool @
         '' --defaults-extra-file='' @ mysqlDefaultsFilePlaceholder @ tcp_options port @ '' --force; fi && '' @ client @ '' --execute='' @
         q (shtx ''SELECT CONCAT(#upgraded_version=#, @@version); SELECT TABLE_SCHEMA, COUNT(*) FROM information_schema.tables GROUP BY TABLE_SCHEMA ORDER BY TABLE_SCHEMA;''))"

definition check_tables_command :: "upgrade_paths \<Rightarrow> int \<Rightarrow> string" where
  "check_tables_command p port = upgradeShellQuote (pa_BaseDir p) @ ''/bin/mysqlcheck --defaults-extra-file='' @ mysqlDefaultsFilePlaceholder @
     tcp_options port @ '' --all-databases --check-upgrade''"

definition replication_command :: "string \<Rightarrow> string" where
  "replication_command client =
     (let q = upgradeShellQuote
      in client @ '' --execute='' @ q ''START REPLICA'' @ '' 2>/dev/null || '' @ client @ '' --execute='' @ q ''START SLAVE'' @
         '' 2>/dev/null || true; '' @ client @ '' --execute='' @ q replication_status_sql)"

definition reopen_command :: "upgrade_paths \<Rightarrow> string \<Rightarrow> string" where
  "reopen_command p client = mysqlUpgradeRestoreReadOnlyCommand client (pa_StateDir p) @ ''; '' @ client @ '' --execute='' @
     upgradeShellQuote ''SELECT @@version, @@global.read_only, @@global.super_read_only;'' @ '' && rm -rf '' @ upgradeShellQuote (pa_StateDir p)"

definition upgrade_commands :: "upgrade_paths \<Rightarrow> instance_rec \<Rightarrow> package \<Rightarrow> bool \<Rightarrow> string \<Rightarrow> string list" where
  "upgrade_commands p inst target force precheck =
     (let client = upgrade_client p (inst_Port inst)
      in [recheck_command p target force precheck,
          stop_writes_command p client,
          fetch_command p (''__GMHA_MANAGER_URL__/api/v1/software/mysql/'' @ PathEscape (pk_FileName target)),
          unpack_command p target (inst_MySQLUser inst),
          stop_command p,
          link_command p,
          mysqlUpgradeValidateConfigCommand (pa_BaseDir p @ ''/bin/mysqld'') (pa_MyCnf p),
          start_command p client (inst_Port inst),
          check_tables_command p (inst_Port inst),
          replication_command client,
          reopen_command p client])"

definition rollback_command :: "upgrade_paths \<Rightarrow> string \<Rightarrow> string" where
  "rollback_command p client =
     (let q = upgradeShellQuote; base = q (pa_BaseDir p); unit = q (pa_Unit p); rb = q (pa_BaseDir p @ ''.gmha-rollback'')
      in ''old_target=$(cat '' @ q (pa_StateDir p @ ''/old_target'') @ shtx '' 2>/dev/null || true); if [ -z `$old_target` ]; then echo #rollback=no_mutation#; elif [ -e '' @
         q (pa_StateDir p @ ''/new_server_started'') @
         shtx '' ]; then echo #SAFEGUARD: the new version has started and may have upgraded the data dictionary, the old binaries are not restored#; systemctl start '' @
         unit @ '' || true; else current_target=$(readlink -f '' @ base @ shtx '' 2>/dev/null || true); if [ `$current_target` != `$old_target` ] || ! systemctl is-active --quiet '' @
         unit @ ''; then systemctl stop '' @ unit @ shtx '' || true; if [ -x `$old_target/bin/mysqld` ]; then ln -sfn `$old_target` '' @ rb @
         '' && mv -Tf '' @ rb @ '' '' @ base @ ''; fi; systemctl start '' @ unit @ '' || true; for i in $(seq 1 60); do '' @ client @ '' --execute='' @
         q ''SELECT 1'' @ '' >/dev/null 2>&1 && break; sleep 1; done; fi; '' @ mysqlUpgradeRestoreReadOnlyCommand client (pa_StateDir p) @
         '' || true; echo rollback_target=$(readlink -f '' @ base @ ''); fi'')"

subsection \<open>The checks\<close>

definition machine_selected :: "string \<Rightarrow> machine \<Rightarrow> bool" where
  "machine_selected selector m \<longleftrightarrow> mach_ID m = selector \<or> mach_IP m = selector \<or> mach_Name m = selector"

definition ResolveMySQLInstance :: "string \<Rightarrow> int \<Rightarrow> (machine \<times> instance_rec) act" where
  "ResolveMySQLInstance selector port =
     on_ok machines_List (\<lambda>items. case find (machine_selected selector) items of
       None \<Rightarrow> fail_with (Errorf ''machine %s not found'' [selector])
     | Some m \<Rightarrow> on_ok (instances_Get (mach_ID m) port) (\<lambda>found. case found of
         None \<Rightarrow> fail_with (Error ''mysql instance not found'')
       | Some inst \<Rightarrow> ret (m, inst)))"

definition current_version :: "instance_rec \<Rightarrow> string result" where
  "current_version inst =
     (let v = trim_space (inst_Version inst)
      in if v \<noteq> [] then Inr v
         else case PackageVersion (inst_PackageName inst) of
           Inl e \<Rightarrow> Inl (Wrap ''cannot determine current MySQL version from %s: %w'' [inst_PackageName inst] e)
         | Inr v \<Rightarrow> Inr v)"

definition of_error :: "go_error option \<Rightarrow> ('s, unit) op" where
  "of_error e = (case e of None \<Rightarrow> ret () | Some e \<Rightarrow> fail_with e)"

definition collected_info :: "upgrade_env \<Rightarrow> string \<Rightarrow> machine_info result" where
  "collected_info env mid = (case ue_infos env mid of
     Inl e \<Rightarrow> Inl e
   | Inr None \<Rightarrow> Inl (Error ''machine architecture and glibc information must be collected before upgrade'')
   | Inr (Some info) \<Rightarrow> Inr info)"

definition resolveMySQLUpgrade :: "upgrade_env \<Rightarrow> string \<Rightarrow> int \<Rightarrow> string \<Rightarrow> (machine \<times> instance_rec \<times> package \<times> string) act" where
  "resolveMySQLUpgrade env machineName0 port packageName0 =
     (let machineName = trim_space machineName0; packageName = trim_space packageName0
      in if machineName = [] \<or> packageName = [] \<or> port \<le> 0 \<or> port > 65535
         then fail_with (Error ''machine, port and target package are required'')
         else on_ok (ResolveMySQLInstance machineName port) (\<lambda>(m, inst).
              on_ok (of_result (collected_info env (mach_ID m))) (\<lambda>info.
              on_ok (of_result (SelectNamed (ue_selector env) (ue_stat env) info packageName)) (\<lambda>target.
              on_ok (of_result (current_version inst)) (\<lambda>version.
              on_ok (of_error (ValidateUpgradeCompatibility version (pk_Version target))) (\<lambda>_.
                ret (m, inst, target, version)))))))"

definition require_capability :: "upgrade_env \<Rightarrow> machine \<Rightarrow> ('s, unit) op" where
  "require_capability env m =
     (case MachineCapability (mach_ID m) CapabilityMySQLDefaultsFile (ue_channels env) of
        (ok, reason) \<Rightarrow> if ok then ret () else fail_with (Error reason))"

subsection \<open>The two tasks\<close>

record upgrade_order =
  uo_Machine :: string
  uo_Port :: int
  uo_PackageName :: string
  uo_PrecheckTaskID :: string
  uo_Force :: bool
  uo_RiskAcknowledged :: bool
  uo_ParentTaskID :: string

definition precheck_row_of :: "machine \<Rightarrow> instance_rec \<Rightarrow> package \<Rightarrow> upgrade_order \<Rightarrow> go_time \<Rightarrow> precheck_row" where
  "precheck_row_of m inst target req now = \<lparr>pc_MachineID = mach_ID m, pc_Port = inst_Port inst, pc_Package = pk_FileName target,
     pc_Parent = trim_space (uo_ParentTaskID req), pc_CreatedAt = now\<rparr>"

text \<open>The id of the created task.\<close>

definition CreateMySQLUpgradePrecheck :: "upgrade_env \<Rightarrow> upgrade_order \<Rightarrow> ('m task_world_scheme, string) op" where
  "CreateMySQLUpgradePrecheck env req =
     on_ok (on_tw (resolveMySQLUpgrade env (uo_Machine req) (uo_Port req) (uo_PackageName req))) (\<lambda>(m, inst, target, version).
     on_ok (require_capability env m) (\<lambda>_.
     on_ok (gets (w_clock \<circ> tw_world)) (\<lambda>now.
     on_ok (tw_send env (PrecheckTask (mach_ID m) (mach_IP m) (inst_Port inst) (pk_FileName target) (trim_space (uo_ParentTaskID req))
              (precheck_commands (filepath_Clean (inst_BaseDir inst)) (filepath_Clean (inst_MyCnfPath inst)) (inst_Port inst) version target))) (\<lambda>r.
       case rp_Create r of
         Inl e \<Rightarrow> fail_with e
       | Inr tid \<Rightarrow> on_ok (modify (\<lambda>s. s\<lparr>tw_prechecks := AList.update tid (precheck_row_of m inst target req now) (tw_prechecks s)\<rparr>)) (\<lambda>_. ret tid)))))"

definition precheck_matches :: "precheck_row \<Rightarrow> string \<Rightarrow> int \<Rightarrow> string \<Rightarrow> bool" where
  "precheck_matches row mid port package \<longleftrightarrow> pc_MachineID row = mid \<and> pc_Port row = port \<and> pc_Package row = package"

definition precheck_max_age :: "string \<Rightarrow> duration" where
  "precheck_max_age parent = (if parent \<noteq> [] then 12 * 60 * minute else 30 * minute)"

definition validateMySQLUpgradePrecheck :: "upgrade_env \<Rightarrow> string \<Rightarrow> string \<Rightarrow> int \<Rightarrow> string \<Rightarrow> string \<Rightarrow> ('m task_world_scheme, unit) op" where
  "validateMySQLUpgradePrecheck env taskID mid port package parent =
     (if trim_space taskID = [] then fail_with (Error ''the upgrade precheck has to be done first'')
      else on_ok (tw_send env (ReadTask (trim_space taskID))) (\<lambda>r.
           on_ok (of_result (rp_Wait r)) (\<lambda>d.
           on_ok (gets (\<lambda>s. map_of (tw_prechecks s) (trim_space taskID))) (\<lambda>found. case found of
             None \<Rightarrow> fail_with (Error ''the precheck did not pass, or its report does not fit the instance or the target version'')
           | Some row \<Rightarrow>
               if td_Status d \<noteq> StatusSuccess \<or> \<not> precheck_matches row mid port package
               then fail_with (Error ''the precheck did not pass, or its report does not fit the instance or the target version'')
               else if parent \<noteq> [] \<and> pc_Parent row \<noteq> parent
               then fail_with (Error ''the precheck report does not belong to this cluster upgrade'')
               else on_ok (gets (w_clock \<circ> tw_world)) (\<lambda>now.
                 if now - pc_CreatedAt row > precheck_max_age parent then fail_with (Error ''the precheck report is too old'') else ret ())))))"

text \<open>The task is addressed to the machine by its address; the machine's id in the call names the same machine for the
  statements about the order of the upgrades.\<close>

definition order_upgrade :: "upgrade_env \<Rightarrow> upgrade_order \<Rightarrow> machine \<Rightarrow> instance_rec \<Rightarrow> package \<Rightarrow> ('m task_world_scheme, string) op" where
  "order_upgrade env req m inst target =
     on_ok (of_result (mysqlUpgradeArchiveLayout (pk_FileName target))) (\<lambda>(targetName, flag).
       let p = upgrade_paths_of inst target targetName flag
       in on_ok (tw_send env (UpgradeTask (mach_ID m) (mach_IP m) (inst_Port inst) (pk_FileName target) (uo_PrecheckTaskID req)
              (trim_space (uo_ParentTaskID req)) (upgrade_commands p inst target (uo_Force req) (uo_PrecheckTaskID req))
              (rollback_command p (upgrade_client p (inst_Port inst))))) (\<lambda>r. of_result (rp_Create r)))"

definition CreateMySQLUpgradeTask :: "upgrade_env \<Rightarrow> upgrade_order \<Rightarrow> ('m task_world_scheme, string) op" where
  "CreateMySQLUpgradeTask env req =
     on_ok (on_tw (resolveMySQLUpgrade env (uo_Machine req) (uo_Port req) (uo_PackageName req))) (\<lambda>(m, inst, target, version).
       if \<not> uo_RiskAcknowledged req then fail_with (Error ''a backup and the risks of downtime and compatibility have to be acknowledged'')
       else on_ok (require_capability env m) (\<lambda>_.
            on_ok (if uo_Force req then ret ()
                   else validateMySQLUpgradePrecheck env (uo_PrecheckTaskID req) (mach_ID m) (inst_Port inst) (pk_FileName target) (uo_ParentTaskID req)) (\<lambda>_.
              order_upgrade env req m inst target)))"

end
