(* ===== verification/Upgrade_Domain.thy ===== *)
theory Upgrade_Domain
  imports Mysql_Upgrade Arch_Execute
begin

text \<open>
  The data of the rolling upgrade of a cluster (\<open>internal/app/cluster_upgrade_service.go\<close>): request, nodes, stages,
  plan, run and the live probe of a node; the tracking task that stores the run; and the state the service works
  on. The tracking tasks are the tasks of type \<open>mysql_cluster_upgrade\<close>, the only ones the service reads. Names of
  stages and texts of events are display texts and left out, messages are English.
\<close>

subsection \<open>Data\<close>

abbreviation clusterUpgradePending :: string where "clusterUpgradePending \<equiv> ''pending''"
abbreviation clusterUpgradeRunning :: string where "clusterUpgradeRunning \<equiv> ''running''"
abbreviation clusterUpgradeSucceeded :: string where "clusterUpgradeSucceeded \<equiv> ''success''"
abbreviation clusterUpgradeFailed :: string where "clusterUpgradeFailed \<equiv> ''failed''"

record upgrade_request =
  uq_Cluster :: string
  uq_TargetVersion :: string
  uq_Port :: int
  uq_RiskAcknowledged :: bool

record upgrade_node =
  un_MachineID :: string
  un_Machine :: string
  un_Hostname :: string
  un_IP :: string
  un_Port :: int
  un_Role :: string
  un_SourceHost :: string
  un_SourcePort :: int
  un_CurrentVersion :: string
  un_TargetVersion :: string
  un_PackageName :: string
  un_ReadOnly :: bool
  un_SuperReadOnly :: bool
  un_ReceiverState :: string
  un_ApplierState :: string
  un_DelaySeconds :: int
  un_PrecheckTaskID :: string
  un_UpgradeTaskID :: string
  un_Status :: string
  un_Error :: string

record upgrade_stage =
  ug_Code :: string
  ug_Status :: string
  ug_Message :: string
  ug_StartedAt :: "go_time option"
  ug_FinishedAt :: "go_time option"

record upgrade_plan =
  ul_Cluster :: string
  ul_TargetVersion :: string
  ul_Port :: int
  ul_Executable :: bool
  ul_BlockingReasons :: "string list"
  ul_Warnings :: "string list"
  ul_OriginalPrimaryMachineID :: string
  ul_TemporaryPrimaryMachineID :: string
  ul_Nodes :: "upgrade_node list"
  ul_CreatedAt :: go_time

record upgrade_run =
  uu_RunID :: string
  uu_Cluster :: string
  uu_TargetVersion :: string
  uu_Port :: int
  uu_Status :: string
  uu_CurrentStage :: string
  uu_Error :: string
  uu_OriginalPrimaryMachineID :: string
  uu_TemporaryPrimaryMachineID :: string
  uu_Nodes :: "upgrade_node list"
  uu_Stages :: "upgrade_stage list"
  uu_ArchitectureRunIDs :: "string list"
  uu_SwitchAwayRunID :: string
  uu_SwitchBackRunID :: string
  uu_CreatedAt :: go_time
  uu_UpdatedAt :: go_time
  uu_FinishedAt :: "go_time option"

record upgrade_probe =
  ub_MachineID :: string
  ub_Hostname :: string
  ub_Version :: string
  ub_ServerID :: int
  ub_ReadOnly :: bool
  ub_SuperReadOnly :: bool
  ub_GTIDMode :: string
  ub_SourceHost :: string
  ub_SourcePort :: int
  ub_ReceiverState :: string
  ub_ApplierState :: string
  ub_ChannelCount :: int
  ub_DelaySeconds :: int

definition stage_codes :: "string list" where
  "stage_codes = [''cluster_preflight'', ''precheck_all_nodes'', ''upgrade_replicas'', ''verify_replicas'',
     ''switch_to_upgraded_replica'', ''upgrade_original_primary'', ''verify_original_primary'',
     ''switch_back_original_primary'', ''final_cluster_verify'', ''release_maintenance_lock'']"

definition clusterUpgradeStages :: "upgrade_stage list" where
  "clusterUpgradeStages = map (\<lambda>code. \<lparr>ug_Code = code, ug_Status = ''pending'', ug_Message = [], ug_StartedAt = None, ug_FinishedAt = None\<rparr>) stage_codes"

subsection \<open>Stages, nodes and their order\<close>

text \<open>The first stage with the code, changed in place.\<close>

fun update_stage :: "string \<Rightarrow> (upgrade_stage \<Rightarrow> upgrade_stage) \<Rightarrow> upgrade_stage list \<Rightarrow> upgrade_stage list" where
  "update_stage code f [] = []"
| "update_stage code f (st # sts) = (if ug_Code st = code then f st # sts else st # update_stage code f sts)"

definition find_stage :: "string \<Rightarrow> upgrade_stage list \<Rightarrow> upgrade_stage option" where
  "find_stage code sts = find (\<lambda>st. ug_Code st = code) sts"

definition clusterUpgradeNode :: "upgrade_run \<Rightarrow> string \<Rightarrow> upgrade_node option" where
  "clusterUpgradeNode run mid = find (\<lambda>n. un_MachineID n = mid) (uu_Nodes run)"

fun update_node :: "string \<Rightarrow> (upgrade_node \<Rightarrow> upgrade_node) \<Rightarrow> upgrade_node list \<Rightarrow> upgrade_node list" where
  "update_node mid f [] = []"
| "update_node mid f (n # ns) = (if un_MachineID n = mid then f n # ns else n # update_node mid f ns)"

definition clusterUpgradeNodeName :: "upgrade_run \<Rightarrow> string \<Rightarrow> string" where
  "clusterUpgradeNodeName run mid = (case clusterUpgradeNode run mid of Some n \<Rightarrow> un_Machine n | None \<Rightarrow> mid)"

definition mergeClusterUpgradeTasks :: "upgrade_node list \<Rightarrow> upgrade_node list \<Rightarrow> upgrade_node list" where
  "mergeClusterUpgradeTasks new previous =
     (let old = map_of (rev (map (\<lambda>n. (un_MachineID n, n)) previous))
      in map (\<lambda>n. case old (un_MachineID n) of None \<Rightarrow> n
           | Some item \<Rightarrow> n\<lparr>un_PrecheckTaskID := un_PrecheckTaskID item, un_UpgradeTaskID := un_UpgradeTaskID item\<rparr>) new)"

definition replica_before :: "string \<Rightarrow> string \<Rightarrow> string \<Rightarrow> bool" where
  "replica_before temporary a b = (if a = temporary then False else if b = temporary then True else a < b)"

definition clusterUpgradeReplicaOrder :: "upgrade_run \<Rightarrow> string list" where
  "clusterUpgradeReplicaOrder run =
     stable_sort (replica_before (uu_TemporaryPrimaryMachineID run))
       (map un_MachineID (filter (\<lambda>n. un_MachineID n \<noteq> uu_OriginalPrimaryMachineID run) (uu_Nodes run)))"

definition boolPriority :: "bool \<Rightarrow> int" where
  "boolPriority b = (if b then 1000 else 0)"

definition switchover_node :: "string \<Rightarrow> upgrade_node \<Rightarrow> arch_node" where
  "switchover_node newPrimary n = \<lparr>an_MachineID = un_MachineID n, an_Port = un_Port n,
     an_Role = (if un_MachineID n = newPrimary then ''M'' else ''S''),
     an_SourceMachineID = (if un_MachineID n = newPrimary then [] else newPrimary),
     an_DelaySeconds = un_DelaySeconds n, an_ElectionPriority = boolPriority (un_MachineID n = newPrimary)\<rparr>"

definition empty_request :: arch_request where
  "empty_request = \<lparr>ar_Architecture = [], ar_CurrentArchitecture = [], ar_CurrentMasterMachineID = [],
     ar_PreferredNewMasterMachineID = [], ar_MoveVIP = False, ar_InitializeVIP = False, ar_VIPOnly = False,
     ar_ForceAfterTimeout = False, ar_ManagementUsers = [], ar_RootPassword = [], ar_RootPasswords = [],
     ar_MaintenanceDetachedMachineIDs = [], ar_ReplicationUser = [], ar_ReplicationPassword = [], ar_Nodes = []\<rparr>"

definition clusterUpgradeSwitchoverRequest :: "upgrade_run \<Rightarrow> string \<Rightarrow> string \<Rightarrow> bool \<Rightarrow> arch_request" where
  "clusterUpgradeSwitchoverRequest run currentPrimary newPrimary detach = empty_request\<lparr>
     ar_Architecture := ArchitectureMasterSlave, ar_CurrentArchitecture := ArchitectureMasterSlave,
     ar_CurrentMasterMachineID := currentPrimary, ar_PreferredNewMasterMachineID := newPrimary, ar_MoveVIP := True,
     ar_MaintenanceDetachedMachineIDs := (if detach then [currentPrimary] else []),
     ar_Nodes := map (switchover_node newPrimary) (uu_Nodes run)\<rparr>"

subsection \<open>The probe of a node\<close>

abbreviation probeMarker :: string where "probeMarker \<equiv> ''GMHA_CLUSTER_UPGRADE_NODE'' @ [CHR 0x09]"

fun from_first :: "string \<Rightarrow> string \<Rightarrow> string option" where
  "from_first p [] = (if p = [] then Some [] else None)"
| "from_first p (c # cs) = (if has_prefix (c # cs) p then Some (c # cs) else from_first p cs)"

definition marked_line :: "string \<Rightarrow> string \<Rightarrow> string" where
  "marked_line content marker = (case from_first probeMarker content of
     None \<Rightarrow> marker | Some rest \<Rightarrow> hd (split_n2 (CHR 0x0A) rest))"

definition probe_marker :: "task_detail \<Rightarrow> string" where
  "probe_marker d = fold marked_line (td_Steps d) (fold marked_line (td_Events d) [])"

definition mysqlBool :: "string \<Rightarrow> bool" where
  "mysqlBool value0 = (let value = to_lower (trim_space value0) in value \<in> {''1'', ''on'', ''true'', ''yes''})"

definition atoi_zero :: "string \<Rightarrow> int" where
  "atoi_zero s = (case atoi s of None \<Rightarrow> 0 | Some n \<Rightarrow> n)"

definition parse_probe :: "string \<Rightarrow> string \<Rightarrow> upgrade_probe option" where
  "parse_probe mid marker =
     (let parts = split_on (CHR 0x09) (trim_space marker)
      in if length parts < 13 then None
         else Some \<lparr>ub_MachineID = mid, ub_Hostname = parts ! 1, ub_Version = parts ! 2, ub_ServerID = atoi_zero (parts ! 3),
                ub_ReadOnly = mysqlBool (parts ! 4), ub_SuperReadOnly = mysqlBool (parts ! 5), ub_GTIDMode = parts ! 6,
                ub_SourceHost = parts ! 7, ub_SourcePort = atoi_zero (parts ! 8), ub_ReceiverState = parts ! 9,
                ub_ApplierState = parts ! 10, ub_ChannelCount = atoi_zero (parts ! 11), ub_DelaySeconds = atoi_zero (parts ! 12)\<rparr>)"

definition probe_sql :: string where
  "probe_sql = shtx (''SELECT CONCAT(#GMHA_CLUSTER_UPGRADE_NODE?t#,@@hostname,#?t#,@@version,#?t#,@@server_id,#?t#,@@read_only,#?t#,@@super_read_only,#?t#,@@global.gtid_mode,#?t#,'' @
     ''COALESCE((SELECT HOST FROM performance_schema.replication_connection_configuration ORDER BY CHANNEL_NAME LIMIT 1),##),#?t#,'' @
     ''COALESCE((SELECT PORT FROM performance_schema.replication_connection_configuration ORDER BY CHANNEL_NAME LIMIT 1),0),#?t#,'' @
     ''COALESCE((SELECT SERVICE_STATE FROM performance_schema.replication_connection_status ORDER BY CHANNEL_NAME LIMIT 1),##),#?t#,'' @
     ''COALESCE((SELECT SERVICE_STATE FROM performance_schema.replication_applier_status ORDER BY CHANNEL_NAME LIMIT 1),##),#?t#,'' @
     ''(SELECT COUNT(*) FROM performance_schema.replication_connection_configuration),#?t#,'' @
     ''COALESCE((SELECT DESIRED_DELAY FROM performance_schema.replication_applier_configuration ORDER BY CHANNEL_NAME LIMIT 1),0));'')"

definition probe_command :: "instance_rec \<Rightarrow> string" where
  "probe_command inst = upgradeShellQuote (inst_BaseDir inst @ ''/bin/mysql'') @ '' --defaults-extra-file='' @ mysqlDefaultsFilePlaceholder @
     tcp_options (inst_Port inst) @ '' --batch --raw --skip-column-names --execute='' @ upgradeShellQuote probe_sql"

definition probeNode :: "agent \<Rightarrow> machine \<Rightarrow> instance_rec \<Rightarrow> string \<Rightarrow> upgrade_probe act" where
  "probeNode ag m inst parent =
     on_ok (send ag (ExecTask (mach_IP m) (probe_command inst) parent ''mysql_cluster_upgrade_probe''
              ''probe the topology of the cluster upgrade'' ''read the live version and replication state'' (45 * second))) (\<lambda>r.
     on_ok (of_result (rp_Create r)) (\<lambda>_.
     on_ok (of_result (rp_Wait r)) (\<lambda>d.
       if td_Status d \<noteq> StatusSuccess then fail_with (Errorf ''probe task failed: %s'' [emptyTaskError d])
       else case parse_probe (mach_ID m) (probe_marker d) of
         None \<Rightarrow> fail_with (Error ''live topology probe returned malformed output'')
       | Some p \<Rightarrow> ret p)))"

subsection \<open>The state of the service\<close>

record tracking_step =
  ts_Code :: string
  ts_Status :: string
  ts_Message :: string
  ts_StartedAt :: "go_time option"
  ts_FinishedAt :: "go_time option"

record tracking_task =
  tk_ID :: string
  tk_Cluster :: string
  tk_Status :: string
  tk_CurrentStep :: string
  tk_Progress :: int
  tk_Run :: upgrade_run
  tk_StartedAt :: "go_time option"
  tk_FinishedAt :: "go_time option"
  tk_CreatedAt :: go_time
  tk_Steps :: "tracking_step list"

text \<open>\<open>us_run\<close> is the variable \<open>run\<close> of the goroutine, \<open>us_active\<close> the map \<open>active\<close> of the service, \<open>us_next\<close>
  counts the random ids drawn.\<close>

record upgrade_state = task_world +
  us_run :: upgrade_run
  us_tracking :: "tracking_task list"
  us_active :: "(string \<times> string) list"
  us_next :: nat
  us_released :: bool
  us_renewed :: go_time
  us_lock_error :: "go_error option"

type_synonym 'a upg = "(upgrade_state, 'a) op"

definition us_now :: "upgrade_state \<Rightarrow> go_time" where
  "us_now s = w_clock (tw_world s)"

definition us_statement :: "(upgrade_state \<Rightarrow> upgrade_state) \<Rightarrow> unit upg" where
  "us_statement f = on_ok (on_tw db_call) (\<lambda>_. modify f)"

definition us_query :: "(upgrade_state \<Rightarrow> 'a) \<Rightarrow> 'a upg" where
  "us_query f = on_ok (on_tw db_call) (\<lambda>_. gets f)"

definition set_upgrade :: "(go_time \<Rightarrow> upgrade_run \<Rightarrow> upgrade_run) \<Rightarrow> unit upg" where
  "set_upgrade f = modify (\<lambda>s. s\<lparr>us_run := f (us_now s) (us_run s)\<rparr>)"

definition set_node :: "string \<Rightarrow> (upgrade_node \<Rightarrow> upgrade_node) \<Rightarrow> unit upg" where
  "set_node mid f = set_upgrade (\<lambda>_ run. run\<lparr>uu_Nodes := update_node mid f (uu_Nodes run)\<rparr>)"

definition fresh_id :: "upgrade_env \<Rightarrow> string upg" where
  "fresh_id env s = (Inr (ue_ids env (us_next s)), s\<lparr>us_next := us_next s + 1\<rparr>)"

subsection \<open>The tracking task\<close>

definition tracking_of :: "upgrade_run \<Rightarrow> tracking_task" where
  "tracking_of run = \<lparr>tk_ID = uu_RunID run, tk_Cluster = uu_Cluster run, tk_Status = clusterUpgradePending, tk_CurrentStep = ''waiting_start'',
     tk_Progress = 0, tk_Run = run, tk_StartedAt = None, tk_FinishedAt = None, tk_CreatedAt = uu_CreatedAt run,
     tk_Steps = map (\<lambda>st. \<lparr>ts_Code = ug_Code st, ts_Status = ''pending'', ts_Message = [], ts_StartedAt = None, ts_FinishedAt = None\<rparr>) (uu_Stages run)\<rparr>"

text \<open>The task, its steps and its first event are inserted in one transaction.\<close>

definition createTrackingTask :: "unit upg" where
  "createTrackingTask = us_statement (\<lambda>s. s\<lparr>us_tracking := us_tracking s @ [tracking_of (us_run s)]\<rparr>)"

definition ended_stages :: "upgrade_run \<Rightarrow> int" where
  "ended_stages run = int (length (filter (\<lambda>st. ug_Status st = ''success'' \<or> ug_Status st = ''failed'') (uu_Stages run)))"

definition synced_task :: "upgrade_run \<Rightarrow> tracking_task \<Rightarrow> tracking_task" where
  "synced_task run task =
     (let progress = ended_stages run * 100 div int (length (uu_Stages run));
          task = task\<lparr>tk_Run := run, tk_CurrentStep := uu_CurrentStage run\<rparr>
      in if uu_Status run = clusterUpgradeSucceeded then task\<lparr>tk_Status := ''success'', tk_Progress := 100, tk_FinishedAt := uu_FinishedAt run\<rparr>
         else if uu_Status run = clusterUpgradeFailed then task\<lparr>tk_Status := ''failed'', tk_FinishedAt := uu_FinishedAt run, tk_Progress := progress\<rparr>
         else if uu_Status run = clusterUpgradeRunning
         then task\<lparr>tk_Status := ''running'', tk_Progress := progress,
                tk_StartedAt := (if tk_StartedAt task = None then Some (uu_UpdatedAt run) else tk_StartedAt task)\<rparr>
         else task\<lparr>tk_Status := ''pending'', tk_Progress := progress\<rparr>)"

definition synced_step :: "upgrade_run \<Rightarrow> tracking_step \<Rightarrow> tracking_step" where
  "synced_step run step =
     (case find_stage (ts_Code step) (uu_Stages run) of
        None \<Rightarrow> step\<lparr>ts_StartedAt := None, ts_FinishedAt := None, ts_Message := [], ts_Status := ''pending''\<rparr>
      | Some st \<Rightarrow> step\<lparr>ts_StartedAt := ug_StartedAt st, ts_FinishedAt := ug_FinishedAt st, ts_Message := ug_Message st,
          ts_Status := (if ug_Status st \<in> {''running'', ''success'', ''failed''} then ug_Status st else ''pending'')\<rparr>)"

definition change_task :: "string \<Rightarrow> (tracking_task \<Rightarrow> tracking_task) \<Rightarrow> upgrade_state \<Rightarrow> upgrade_state" where
  "change_task tid f s = s\<lparr>us_tracking := map (\<lambda>t. if tk_ID t = tid then f t else t) (us_tracking s)\<rparr>"

definition change_step :: "tracking_step \<Rightarrow> tracking_task \<Rightarrow> tracking_task" where
  "change_step step t = t\<lparr>tk_Steps := map (\<lambda>x. if ts_Code x = ts_Code step then step else x) (tk_Steps t)\<rparr>"

definition get_tracking :: "string \<Rightarrow> tracking_task option upg" where
  "get_tracking tid = us_query (\<lambda>s. find (\<lambda>t. tk_ID t = tid) (us_tracking s))"

definition syncRun :: "unit upg" where
  "syncRun = on_ok (gets us_run) (\<lambda>run.
     on_ok (get_tracking (uu_RunID run)) (\<lambda>found. case found of
       None \<Rightarrow> fail_with (Error ''cluster upgrade tracking task not found'')
     | Some task \<Rightarrow>
         on_ok (us_statement (change_task (uu_RunID run) (synced_task run))) (\<lambda>_.
         on_ok (us_query (\<lambda>s. case find (\<lambda>t. tk_ID t = uu_RunID run) (us_tracking s) of None \<Rightarrow> [] | Some t \<Rightarrow> tk_Steps t)) (\<lambda>steps.
           for_ok (\<lambda>step. us_statement (change_task (uu_RunID run) (change_step (synced_step run step)))) steps))))"

text \<open>The texts of the events are left out; writing one is a database call whose error is dropped.\<close>

definition appendRunEvent :: "unit upg" where
  "appendRunEvent = ignore_error (on_tw db_call)"

end
