(* ===== verification/Upgrade_Plan.thy ===== *)
theory Upgrade_Plan
  imports Upgrade_Domain
begin

text \<open>
  The plan of a rolling upgrade (\<open>buildPlan\<close> of \<open>internal/app/cluster_upgrade_service.go\<close>): every machine of the cluster is
  probeobed live, and whatever speaks against the upgrade is collected as a blocking reason. The reasons are English.
\<close>

subsection \<open>One machine\<close>

definition block_upgrade :: "string \<Rightarrow> upgrade_plan \<Rightarrow> upgrade_plan" where
  "block_upgrade reason plan = plan\<lparr>ul_Executable := False, ul_BlockingReasons := ul_BlockingReasons plan @ [reason]\<rparr>"

definition block_when :: "bool \<Rightarrow> string \<Rightarrow> upgrade_plan \<Rightarrow> upgrade_plan" where
  "block_when b reason plan = (if b then block_upgrade reason plan else plan)"

definition node_role :: "upgrade_probe \<Rightarrow> string" where
  "node_role p = (if ub_SourceHost p = [] \<and> \<not> ub_ReadOnly p \<and> \<not> ub_SuperReadOnly p then ''primary''
     else if ub_SourceHost p \<noteq> [] \<and> ub_ReadOnly p \<and> ub_SuperReadOnly p then ''replica'' else ''invalid'')"

definition planned_node :: "machine \<Rightarrow> instance_rec \<Rightarrow> upgrade_probe \<Rightarrow> package \<Rightarrow> upgrade_node" where
  "planned_node m inst p target = \<lparr>un_MachineID = mach_ID m, un_Machine = mach_Name m, un_Hostname = ub_Hostname p, un_IP = mach_IP m,
     un_Port = inst_Port inst, un_Role = node_role p, un_SourceHost = ub_SourceHost p, un_SourcePort = ub_SourcePort p,
     un_CurrentVersion = ub_Version p, un_TargetVersion = pk_Version target, un_PackageName = pk_FileName target,
     un_ReadOnly = ub_ReadOnly p, un_SuperReadOnly = ub_SuperReadOnly p, un_ReceiverState = ub_ReceiverState p,
     un_ApplierState = ub_ApplierState p, un_DelaySeconds = ub_DelaySeconds p, un_PrecheckTaskID = [], un_UpgradeTaskID = [],
     un_Status = ''ready'', un_Error = []\<rparr>"

type_synonym plan_acc = "upgrade_plan \<times> (string \<times> upgrade_probe) list \<times> (int \<times> string) list"

definition check_server_id :: "machine \<Rightarrow> upgrade_probe \<Rightarrow> (int \<times> string) list \<Rightarrow> upgrade_plan \<Rightarrow> upgrade_plan \<times> (int \<times> string) list" where
  "check_server_id m p owners plan =
     (if ub_ServerID p \<le> 0 then (block_upgrade (''invalid server_id on '' @ mach_Name m) plan, owners)
      else let owner = map_get [] (map_of owners) (ub_ServerID p)
           in if owner \<noteq> [] then (block_upgrade (mach_Name m @ '' and '' @ owner @ '' use the same server_id'') plan, owners)
              else (plan, AList.update (ub_ServerID p) (mach_Name m) owners))"

definition probed_machine :: "upgrade_env \<Rightarrow> string \<Rightarrow> machine \<Rightarrow> instance_rec \<Rightarrow> upgrade_probe \<Rightarrow> plan_acc \<Rightarrow> plan_acc" where
  "probed_machine env version m inst p acc = (case acc of (plan0, probes0, owners0) \<Rightarrow>
     let probes = AList.update (mach_ID m) p probes0;
         plan1 = block_when (\<not> equal_fold (trim_space (ub_GTIDMode p)) ''ON'') (''GTID is off on '' @ mach_Name m) plan0
     in case check_server_id m p owners0 plan1 of (plan, owners) \<Rightarrow>
        (case ue_infos env (mach_ID m) of
           Inr (Some info) \<Rightarrow>
             (case SelectVersionArchitecture (ue_selector env) (ue_listing env) info version [] of
                Inl e \<Rightarrow> (block_upgrade (''no compatible package for '' @ mach_Name m @ '': '' @ error_text e) plan, probes, owners)
              | Inr target \<Rightarrow>
                  let plan = (case ValidateUpgradeCompatibility (ub_Version p) (pk_Version target) of
                        None \<Rightarrow> plan | Some e \<Rightarrow> block_upgrade (''version path of '' @ mach_Name m @ '': '' @ error_text e) plan)
                  in (plan\<lparr>ul_Nodes := ul_Nodes plan @ [planned_node m inst p target]\<rparr>, probes, owners))
         | _ \<Rightarrow> (block_upgrade (''no collected information about '' @ mach_Name m) plan, probes, owners)))"

definition plan_machine :: "upgrade_env \<Rightarrow> string \<Rightarrow> string \<Rightarrow> (string \<times> instance_rec) list \<Rightarrow> machine \<Rightarrow> plan_acc \<Rightarrow> plan_acc act" where
  "plan_machine env version parent instances m acc = (case acc of (plan, rest) \<Rightarrow>
     case map_of instances (mach_ID m) of
       None \<Rightarrow> ret (block_upgrade (mach_Name m @ '' has no registered MySQL instance on the port'') plan, rest)
     | Some inst \<Rightarrow>
         (case MachineCapability (mach_ID m) CapabilityMySQLDefaultsFile (ue_channels env) of (ok, reason) \<Rightarrow>
            if \<not> ok then ret (block_upgrade (mach_Name m @ '' cannot be upgraded safely: '' @ reason) plan, rest)
            else with_result (probeNode (ue_agent env) m inst parent) (\<lambda>r. case r of
              Inl e \<Rightarrow> ret (block_upgrade (''live probe of '' @ mach_Name m @ '' failed: '' @ error_text e) plan, rest)
            | Inr p \<Rightarrow> ret (probed_machine env version m inst p acc))))"

subsection \<open>The topology\<close>

definition role_nodes :: "string \<Rightarrow> upgrade_plan \<Rightarrow> upgrade_node list" where
  "role_nodes role plan = filter (\<lambda>n. un_Role n = role) (ul_Nodes plan)"

definition check_roles :: "upgrade_plan \<Rightarrow> upgrade_plan" where
  "check_roles plan = fold (\<lambda>n. block_when (un_Role n \<noteq> ''primary'' \<and> un_Role n \<noteq> ''replica'')
     (un_Machine n @ '' is neither the writable primary nor a read-only replica'')) (ul_Nodes plan) plan"

definition follows_primary :: "upgrade_node \<Rightarrow> upgrade_probe \<Rightarrow> upgrade_probe \<Rightarrow> bool" where
  "follows_primary primary primaryProbe pr \<longleftrightarrow>
     (equal_fold (trim_space (ub_SourceHost pr)) (trim_space (un_IP primary)) \<or>
      equal_fold (trim_space (ub_SourceHost pr)) (trim_space (ub_Hostname primaryProbe)) \<or>
      equal_fold (trim_space (ub_SourceHost pr)) (trim_space (un_Machine primary))) \<and>
     \<not> (ub_SourcePort pr > 0 \<and> ub_SourcePort pr \<noteq> un_Port primary)"

definition replication_healthy :: "upgrade_probe \<Rightarrow> bool" where
  "replication_healthy p \<longleftrightarrow> ub_ChannelCount p = 1 \<and> equal_fold (ub_ReceiverState p) ''ON'' \<and> equal_fold (ub_ApplierState p) ''ON''"

definition no_probe :: upgrade_probe where
  "no_probe = \<lparr>ub_MachineID = [], ub_Hostname = [], ub_Version = [], ub_ServerID = 0, ub_ReadOnly = False, ub_SuperReadOnly = False,
     ub_GTIDMode = [], ub_SourceHost = [], ub_SourcePort = 0, ub_ReceiverState = [], ub_ApplierState = [], ub_ChannelCount = 0, ub_DelaySeconds = 0\<rparr>"

definition add_warning :: "bool \<Rightarrow> string \<Rightarrow> upgrade_plan \<Rightarrow> upgrade_plan" where
  "add_warning b text plan = (if b then plan\<lparr>ul_Warnings := ul_Warnings plan @ [text]\<rparr> else plan)"

definition check_replica :: "upgrade_node \<Rightarrow> (string \<times> upgrade_probe) list \<Rightarrow> upgrade_node \<Rightarrow> upgrade_plan \<Rightarrow> upgrade_plan" where
  "check_replica primary probes n plan =
     (let pr = map_get no_probe (map_of probes) (un_MachineID n);
          primaryProbe = map_get no_probe (map_of probes) (un_MachineID primary)
      in add_warning (ub_DelaySeconds pr > 0) (un_Machine n @ '' is delayed and will not become the temporary primary'')
           (block_when (\<not> replication_healthy pr) (''replication of '' @ un_Machine n @ '' is not healthy'')
             (block_when (\<not> follows_primary primary primaryProbe pr) (un_Machine n @ '' does not follow the primary'') plan)))"

definition with_primary :: "(string \<times> upgrade_probe) list \<Rightarrow> upgrade_plan \<Rightarrow> upgrade_plan" where
  "with_primary probes plan = (case role_nodes ''primary'' plan of
     [primary] \<Rightarrow> fold (check_replica primary probes) (role_nodes ''replica'' plan)
       (plan\<lparr>ul_OriginalPrimaryMachineID := un_MachineID primary\<rparr>)
   | _ \<Rightarrow> plan)"

definition replica_first :: "upgrade_node \<Rightarrow> upgrade_node \<Rightarrow> bool" where
  "replica_first a b = (if un_DelaySeconds a \<noteq> un_DelaySeconds b then un_DelaySeconds a < un_DelaySeconds b else un_Machine a < un_Machine b)"

definition temporary_primary :: "upgrade_plan \<Rightarrow> string" where
  "temporary_primary plan = (case find (\<lambda>n. un_DelaySeconds n = 0) (stable_sort replica_first (role_nodes ''replica'' plan)) of
     None \<Rightarrow> [] | Some n \<Rightarrow> un_MachineID n)"

definition judge_topology :: "nat \<Rightarrow> (string \<times> upgrade_probe) list \<Rightarrow> upgrade_plan \<Rightarrow> upgrade_plan" where
  "judge_topology machines probes plan0 =
     (let plan1 = check_roles (if length (ul_Nodes plan0) \<noteq> machines then plan0\<lparr>ul_Executable := False\<rparr> else plan0);
          plan2 = block_when (length (role_nodes ''primary'' plan1) \<noteq> 1) ''a rolling upgrade needs exactly one writable primary'' plan1;
          plan3 = block_when (role_nodes ''replica'' plan2 = []) ''a rolling upgrade needs a healthy replica'' plan2;
          plan4 = with_primary probes plan3;
          plan5 = plan4\<lparr>ul_TemporaryPrimaryMachineID := temporary_primary plan4\<rparr>
      in block_when (ul_TemporaryPrimaryMachineID plan5 = []) ''no undelayed replica can be promoted'' plan5)"

subsection \<open>The VIPs\<close>

definition vip_at_primary :: "string \<Rightarrow> vip_binding list \<Rightarrow> string \<Rightarrow> bool" where
  "vip_at_primary primary states address =
     (case find (\<lambda>st. vb_VIPAddress st = address) (rev states) of
        None \<Rightarrow> False
      | Some st \<Rightarrow> vb_VIPStatus st = VipStatusBound \<and> vb_CurrentHolderMachineID st = primary)"

definition check_vips :: "upgrade_env \<Rightarrow> string \<Rightarrow> upgrade_plan \<Rightarrow> upgrade_plan act" where
  "check_vips env cluster plan =
     with_result (ListVIPConfigs (trim_space cluster)) (\<lambda>r. case r of
       Inl e \<Rightarrow> ret (block_upgrade (''the VIP configuration cannot be read: '' @ error_text e) plan)
     | Inr vips \<Rightarrow>
         let enabled = map vc_VIPAddress (filter vc_Enabled vips)
         in if enabled = [] then ret (block_upgrade ''a rolling upgrade needs an enabled VIP'' plan)
            else if ul_OriginalPrimaryMachineID plan = [] then ret plan
            else with_result (Scan (Some (ue_agent env)) cluster) (\<lambda>r. case r of
              Inl e \<Rightarrow> ret (block_upgrade (''the VIP holders cannot be confirmed: '' @ error_text e) plan)
            | Inr states \<Rightarrow> ret (fold (\<lambda>address. block_when (\<not> vip_at_primary (ul_OriginalPrimaryMachineID plan) states address)
                (''VIP '' @ address @ '' is not bound to the primary alone'')) (remdups enabled) plan)))"

subsection \<open>The plan\<close>

definition machine_first :: "machine \<Rightarrow> machine \<Rightarrow> bool" where
  "machine_first a b = (if mach_Name a \<noteq> mach_Name b then mach_Name a < mach_Name b else mach_IP a < mach_IP b)"

definition ListClusterMachines :: "string \<Rightarrow> machine list act" where
  "ListClusterMachines cluster0 =
     (let cluster = trim_space cluster0
      in if cluster = [] then fail_with (Error ''at least one cluster is required'')
         else on_ok machines_List (\<lambda>items.
           let result = filter (\<lambda>m. mach_Cluster m = cluster) items
           in if result = [] then fail_with (Error ''no machines found in selected clusters'') else ret result))"

definition port_instances :: "int \<Rightarrow> instance_rec list \<Rightarrow> (string \<times> instance_rec) list" where
  "port_instances port instances = rev (map (\<lambda>i. (inst_MachineID i, i)) (filter (\<lambda>i. inst_Port i = port) instances))"

definition new_plan :: "string \<Rightarrow> string \<Rightarrow> int \<Rightarrow> go_time \<Rightarrow> upgrade_plan" where
  "new_plan cluster version port now = \<lparr>ul_Cluster = cluster, ul_TargetVersion = version, ul_Port = port, ul_Executable = True,
     ul_BlockingReasons = [], ul_Warnings = [], ul_OriginalPrimaryMachineID = [], ul_TemporaryPrimaryMachineID = [], ul_Nodes = [],
     ul_CreatedAt = now\<rparr>"

definition closing_warnings :: "string list" where
  "closing_warnings = [''the replicas restart one after the other while one primary stays writable'',
     ''both switchovers freeze the old primary and move the VIP, clients have to reconnect'',
     ''a failed step stops all further changes, nothing is switched by force'']"

definition buildPlan :: "upgrade_env \<Rightarrow> upgrade_request \<Rightarrow> string \<Rightarrow> upgrade_plan act" where
  "buildPlan env req parent =
     (let cluster = trim_space (uq_Cluster req); version = trim_space (uq_TargetVersion req); port = uq_Port req
      in if cluster = [] \<or> version = [] then fail_with (Error ''cluster and target_version are required'')
         else if port \<le> 0 \<or> port > 65535 then fail_with (Error ''valid MySQL port is required'')
         else on_ok (gets w_clock) (\<lambda>now.
              on_ok (ListClusterMachines cluster) (\<lambda>found.
              on_ok instances_List (\<lambda>instances.
              let machines = stable_sort machine_first found
              in on_ok (fold_ok (plan_machine env version parent (port_instances port instances)) machines (new_plan cluster version port now, [], [])) (\<lambda>(plan, probes, owners).
                 on_ok (check_vips env cluster (judge_topology (length machines) probes plan)) (\<lambda>plan.
                   ret (plan\<lparr>ul_Warnings := ul_Warnings plan @ closing_warnings\<rparr>)))))))"

definition Plan_upgrade :: "upgrade_env \<Rightarrow> upgrade_request \<Rightarrow> upgrade_plan act" where
  "Plan_upgrade env req = buildPlan env req []"

end
