(* ===== verification/Upgrade_Run.thy ===== *)
theory Upgrade_Run
  imports Upgrade_Plan
begin

text \<open>
  The rolling upgrade itself (\<open>internal/app/cluster_upgrade_service.go\<close>): the ten stages, the goroutine that runs them under the
  cluster lock, its start, the recovery after a restart of the manager and reading a run. The goroutine runs right
  after the call that starts it; the architecture run of a switchover runs to its end when it is started, and nobody
  confirms a forced switchover in the second before the upgrade looks at the run. The lease is renewed where the code looks at
  the outcome of the renewals.
\<close>

subsection \<open>Stages\<close>

definition begin_stage :: "string \<Rightarrow> go_time \<Rightarrow> upgrade_run \<Rightarrow> upgrade_run" where
  "begin_stage code now run = run\<lparr>uu_CurrentStage := code, uu_Status := clusterUpgradeRunning, uu_UpdatedAt := now,
     uu_Stages := update_stage code (\<lambda>st. st\<lparr>ug_Status := ''running'', ug_StartedAt := Some now, ug_FinishedAt := None\<rparr>) (uu_Stages run)\<rparr>"

definition fail_stage :: "string \<Rightarrow> go_error \<Rightarrow> go_time \<Rightarrow> upgrade_run \<Rightarrow> upgrade_run" where
  "fail_stage code err now run = run\<lparr>uu_UpdatedAt := now, uu_Status := clusterUpgradeFailed, uu_Error := error_text err, uu_FinishedAt := Some now,
     uu_Stages := update_stage code (\<lambda>st. st\<lparr>ug_Status := ''failed'', ug_Message := error_text err, ug_FinishedAt := Some now\<rparr>) (uu_Stages run)\<rparr>"

definition end_stage :: "string \<Rightarrow> string \<Rightarrow> go_time \<Rightarrow> upgrade_run \<Rightarrow> upgrade_run" where
  "end_stage code message now run = run\<lparr>uu_UpdatedAt := now,
     uu_Stages := update_stage code (\<lambda>st. st\<lparr>ug_Status := ''success'', ug_Message := message, ug_FinishedAt := Some now\<rparr>) (uu_Stages run)\<rparr>"

text \<open>The bodies give an empty message with an error, so the error is the message of a failed stage.\<close>

definition runStage :: "string \<Rightarrow> string upg \<Rightarrow> unit upg" where
  "runStage code execute =
     on_ok (gets (\<lambda>s. find_stage code (uu_Stages (us_run s)))) (\<lambda>st.
       if st = None then fail_with (Errorf ''unknown cluster upgrade stage %s'' [code])
       else on_ok (set_upgrade (begin_stage code)) (\<lambda>_.
            on_ok (ignore_error syncRun) (\<lambda>_.
            on_ok appendRunEvent (\<lambda>_.
            with_result execute (\<lambda>r. case r of
              Inl e \<Rightarrow> on_ok (set_upgrade (fail_stage code e)) (\<lambda>_. on_ok (ignore_error syncRun) (\<lambda>_. on_ok appendRunEvent (\<lambda>_. fail_with e)))
            | Inr message \<Rightarrow> on_ok (set_upgrade (end_stage code message)) (\<lambda>_. on_ok (ignore_error syncRun) (\<lambda>_. appendRunEvent)))))))"

definition failed_upgrade :: "string \<Rightarrow> go_error \<Rightarrow> go_time \<Rightarrow> upgrade_run \<Rightarrow> upgrade_run" where
  "failed_upgrade code err now run = run\<lparr>uu_Status := clusterUpgradeFailed, uu_CurrentStage := code, uu_Error := error_text err,
     uu_UpdatedAt := now, uu_FinishedAt := Some now,
     uu_Stages := update_stage code (\<lambda>st. st\<lparr>ug_Status := ''failed'', ug_Message := error_text err, ug_FinishedAt := Some now,
        ug_StartedAt := (if ug_StartedAt st = None then Some now else ug_StartedAt st)\<rparr>) (uu_Stages run)\<rparr>"

definition failRun :: "string \<Rightarrow> go_error \<Rightarrow> unit upg" where
  "failRun code err = on_ok (set_upgrade (failed_upgrade code err)) (\<lambda>_. on_ok (ignore_error syncRun) (\<lambda>_. appendRunEvent))"

subsection \<open>Checks of nodes\<close>

definition mark_node :: "string \<Rightarrow> string \<Rightarrow> string \<Rightarrow> unit upg" where
  "mark_node mid status err = set_node mid (\<lambda>n. n\<lparr>un_Status := status, un_Error := err\<rparr>)"

definition touch_run :: "unit upg" where
  "touch_run = on_ok (set_upgrade (\<lambda>now run. run\<lparr>uu_UpdatedAt := now\<rparr>)) (\<lambda>_. ignore_error syncRun)"

definition probe_member :: "upgrade_env \<Rightarrow> upgrade_node \<Rightarrow> upgrade_probe upg" where
  "probe_member env n =
     on_ok (gets (uu_RunID \<circ> us_run)) (\<lambda>runID.
       on_tw (on_ok (ResolveMySQLInstance (un_MachineID n) (un_Port n)) (\<lambda>(m, inst). probeNode (ue_agent env) m inst runID)))"

definition replica_safe :: "upgrade_node \<Rightarrow> upgrade_probe \<Rightarrow> bool" where
  "replica_safe primary p \<longleftrightarrow>
     (equal_fold (ub_SourceHost p) (un_IP primary) \<or> equal_fold (ub_SourceHost p) (un_Machine primary) \<or> equal_fold (ub_SourceHost p) (un_Hostname primary)) \<and>
     ub_SourcePort p = un_Port primary \<and> ub_ReadOnly p \<and> ub_SuperReadOnly p \<and> replication_healthy p"

definition as_replica :: "upgrade_probe \<Rightarrow> upgrade_node \<Rightarrow> upgrade_node" where
  "as_replica p n = n\<lparr>un_Role := ''replica'', un_SourceHost := ub_SourceHost p, un_SourcePort := ub_SourcePort p, un_CurrentVersion := ub_Version p,
     un_ReadOnly := ub_ReadOnly p, un_SuperReadOnly := ub_SuperReadOnly p, un_ReceiverState := ub_ReceiverState p, un_ApplierState := ub_ApplierState p\<rparr>"

definition verifyReplicaNode :: "upgrade_env \<Rightarrow> string \<Rightarrow> string \<Rightarrow> bool \<Rightarrow> unit upg" where
  "verifyReplicaNode env mid expectedPrimary requireTarget =
     on_ok (gets us_run) (\<lambda>run. case (clusterUpgradeNode run mid, clusterUpgradeNode run expectedPrimary) of
       (Some n, Some primary) \<Rightarrow>
         on_ok (probe_member env n) (\<lambda>p.
           if \<not> replica_safe primary p then fail_with (Errorf ''the replication state of %s is not safe'' [un_Machine n])
           else if requireTarget \<and> ub_Version p \<noteq> uu_TargetVersion run
           then fail_with (Errorf ''%s runs version %s, not the target version %s'' [un_Machine n, ub_Version p, uu_TargetVersion run])
           else set_node mid (as_replica p))
     | _ \<Rightarrow> fail_with (Error ''replica or expected primary node not found''))"

definition as_primary :: "upgrade_probe \<Rightarrow> upgrade_node \<Rightarrow> upgrade_node" where
  "as_primary p n = n\<lparr>un_Role := ''primary'', un_SourceHost := [], un_CurrentVersion := ub_Version p,
     un_ReadOnly := ub_ReadOnly p, un_SuperReadOnly := ub_SuperReadOnly p\<rparr>"

definition verifyPrimaryNode :: "upgrade_env \<Rightarrow> string \<Rightarrow> bool \<Rightarrow> unit upg" where
  "verifyPrimaryNode env mid requireTarget =
     on_ok (gets us_run) (\<lambda>run. case clusterUpgradeNode run mid of
       None \<Rightarrow> fail_with (Error ''primary node not found'')
     | Some n \<Rightarrow>
         on_ok (probe_member env n) (\<lambda>p.
           if ub_SourceHost p \<noteq> [] \<or> ub_ReadOnly p \<or> ub_SuperReadOnly p then fail_with (Errorf ''%s is not the writable primary'' [un_Machine n])
           else if requireTarget \<and> ub_Version p \<noteq> uu_TargetVersion run
           then fail_with (Errorf ''%s runs version %s, not the target version %s'' [un_Machine n, ub_Version p, uu_TargetVersion run])
           else set_node mid (as_primary p)))"

definition isolated :: "upgrade_probe \<Rightarrow> bool" where
  "isolated p \<longleftrightarrow> ub_ReadOnly p \<and> ub_SuperReadOnly p \<and> ub_SourceHost p = [] \<and> ub_ChannelCount p = 0"

definition verifyDetachedOriginalPrimary :: "upgrade_env \<Rightarrow> unit upg" where
  "verifyDetachedOriginalPrimary env =
     on_ok (gets us_run) (\<lambda>run. case clusterUpgradeNode run (uu_OriginalPrimaryMachineID run) of
       None \<Rightarrow> fail_with (Error ''original primary node not found'')
     | Some n \<Rightarrow>
         on_ok (probe_member env n) (\<lambda>p.
           if \<not> isolated p then fail_with (Errorf ''%s must stay isolated, read-only and without a replication source'' [un_Machine n])
           else set_node (un_MachineID n) (\<lambda>n. n\<lparr>un_Role := ''detached'', un_SourceHost := [], un_SourcePort := 0,
                  un_ReadOnly := ub_ReadOnly p, un_SuperReadOnly := ub_SuperReadOnly p\<rparr>)))"

subsection \<open>Prechecks and upgrades\<close>

definition wait_success :: "upgrade_env \<Rightarrow> string \<Rightarrow> duration \<Rightarrow> unit upg" where
  "wait_success env tid timeout =
     on_ok (tw_send env (WaitTask tid timeout)) (\<lambda>r. on_ok (of_result (rp_Wait r)) (\<lambda>d.
       if td_Status d \<noteq> StatusSuccess then fail_with (Error (emptyTaskError d)) else ret ()))"

definition order_of :: "upgrade_node \<Rightarrow> string \<Rightarrow> upgrade_order" where
  "order_of n runID = \<lparr>uo_Machine = un_MachineID n, uo_Port = un_Port n, uo_PackageName = un_PackageName n,
     uo_PrecheckTaskID = un_PrecheckTaskID n, uo_Force = False, uo_RiskAcknowledged = True, uo_ParentTaskID = runID\<rparr>"

definition precheck_of :: "upgrade_node \<Rightarrow> string \<Rightarrow> upgrade_order" where
  "precheck_of n runID = \<lparr>uo_Machine = un_MachineID n, uo_Port = un_Port n, uo_PackageName = un_PackageName n,
     uo_PrecheckTaskID = [], uo_Force = False, uo_RiskAcknowledged = False, uo_ParentTaskID = runID\<rparr>"

definition node_failed :: "string \<Rightarrow> string \<Rightarrow> go_error \<Rightarrow> 'a upg" where
  "node_failed mid what e = on_ok (mark_node mid ''failed'' (error_text e)) (\<lambda>_. fail_with (Wrap ''%s: %w'' [what] e))"

definition or_node_failed :: "string \<Rightarrow> string \<Rightarrow> 'a upg \<Rightarrow> 'a upg" where
  "or_node_failed mid what m = with_result m (\<lambda>r. case r of Inl e \<Rightarrow> node_failed mid what e | Inr x \<Rightarrow> ret x)"

text \<open>The loops over \<open>run.Nodes\<close> work on positions; here a node is named by its machine, of which a cluster has one node each.\<close>

definition start_precheck :: "upgrade_env \<Rightarrow> string \<Rightarrow> unit upg" where
  "start_precheck env mid =
     on_ok (gets us_run) (\<lambda>run. case clusterUpgradeNode run mid of
       None \<Rightarrow> ret ()
     | Some n \<Rightarrow>
         if un_PrecheckTaskID n \<noteq> [] then ret ()
         else on_ok (or_node_failed mid ''the precheck cannot be created'' (CreateMySQLUpgradePrecheck env (precheck_of n (uu_RunID run)))) (\<lambda>tid.
              on_ok (set_node mid (\<lambda>n. n\<lparr>un_PrecheckTaskID := tid, un_Status := ''prechecking''\<rparr>)) (\<lambda>_. touch_run)))"

definition finish_precheck :: "upgrade_env \<Rightarrow> string \<Rightarrow> unit upg" where
  "finish_precheck env mid =
     on_ok (gets us_run) (\<lambda>run. case clusterUpgradeNode run mid of
       None \<Rightarrow> ret ()
     | Some n \<Rightarrow>
         on_ok (or_node_failed mid ''the precheck did not pass'' (wait_success env (un_PrecheckTaskID n) (30 * minute))) (\<lambda>_.
         on_ok (mark_node mid ''precheck_passed'' []) (\<lambda>_. touch_run)))"

definition run_members :: "upgrade_run \<Rightarrow> string list" where
  "run_members run = map un_MachineID (uu_Nodes run)"

definition executeAllPrechecks :: "upgrade_env \<Rightarrow> string upg" where
  "executeAllPrechecks env =
     on_ok (gets (run_members \<circ> us_run)) (\<lambda>mids.
     on_ok (for_ok (start_precheck env) mids) (\<lambda>_.
     on_ok (for_ok (finish_precheck env) mids) (\<lambda>_. ret ''the prechecks of all nodes passed'')))"

definition upgradeOneNode :: "upgrade_env \<Rightarrow> string \<Rightarrow> unit upg" where
  "upgradeOneNode env mid =
     on_ok (gets us_run) (\<lambda>run. case clusterUpgradeNode run mid of
       None \<Rightarrow> fail_with (Errorf ''upgrade node %s not found'' [mid])
     | Some n \<Rightarrow>
         on_ok (if un_UpgradeTaskID n \<noteq> [] then ret (un_UpgradeTaskID n)
                else on_ok (or_node_failed mid ''the upgrade task cannot be created'' (CreateMySQLUpgradeTask env (order_of n (uu_RunID run)))) (\<lambda>tid.
                     on_ok (set_node mid (\<lambda>n. n\<lparr>un_UpgradeTaskID := tid, un_Status := ''upgrading''\<rparr>)) (\<lambda>_.
                     on_ok touch_run (\<lambda>_. ret tid)))) (\<lambda>tid.
         on_ok (or_node_failed mid ''the upgrade failed'' (wait_success env tid (120 * minute))) (\<lambda>_.
         on_ok (set_node mid (\<lambda>n. n\<lparr>un_Status := ''upgraded'', un_Error := [], un_CurrentVersion := uu_TargetVersion run\<rparr>)) (\<lambda>_. touch_run))))"

definition executeReplicaUpgrades :: "upgrade_env \<Rightarrow> string upg" where
  "executeReplicaUpgrades env =
     on_ok (gets us_run) (\<lambda>run.
     on_ok (for_ok (\<lambda>mid. on_ok (upgradeOneNode env mid) (\<lambda>_. verifyReplicaNode env mid (uu_OriginalPrimaryMachineID run) True))
              (clusterUpgradeReplicaOrder run)) (\<lambda>_. ret ''the replicas were upgraded one by one''))"

definition other_members :: "upgrade_run \<Rightarrow> string list" where
  "other_members run = filter (\<lambda>mid. mid \<noteq> uu_OriginalPrimaryMachineID run) (run_members run)"

definition verify_replicas :: "upgrade_env \<Rightarrow> unit upg" where
  "verify_replicas env = on_ok (gets us_run) (\<lambda>run.
     for_ok (\<lambda>mid. verifyReplicaNode env mid (uu_OriginalPrimaryMachineID run) True) (other_members run))"

definition verifyUpgradedReplicas :: "upgrade_env \<Rightarrow> string upg" where
  "verifyUpgradedReplicas env = on_ok (verify_replicas env) (\<lambda>_. ret ''all upgraded replicas follow the original primary'')"

subsection \<open>Switchovers\<close>

definition idle_operator :: "'a act \<Rightarrow> 'a act" where
  "idle_operator m w = (case m (w\<lparr>w_operator := []\<rparr>) of (r, w') \<Rightarrow> (r, w'\<lparr>w_operator := w_operator w\<rparr>))"

definition startArchitectureAdjustmentWithLock :: "upgrade_env \<Rightarrow> string \<Rightarrow> string \<Rightarrow> string \<Rightarrow> arch_request \<Rightarrow> string \<Rightarrow> arch_run act" where
  "startArchitectureAdjustmentWithLock env planID newid clusterID req lockID =
     (if trim_space lockID = [] then fail_with (Error ''existing maintenance lock id is required'')
      else on_ok (startArchitectureAdjustment (ue_agent env) (ue_channels env) planID newid clusterID req) (\<lambda>(run, req).
           on_ok (idle_operator (executeArchitectureAdjustment (ue_agent env) run req (trim_space lockID))) (\<lambda>_. ret run)))"

fun await_switchover :: "string \<Rightarrow> string \<Rightarrow> nat \<Rightarrow> unit act" where
  "await_switchover cluster runID 0 = fail_with (Error ''waiting for the switchover timed out'')"
| "await_switchover cluster runID (Suc n) =
     on_ok (HA_GetArchitectureRun cluster runID) (\<lambda>found. case found of
       None \<Rightarrow> fail_with (Error ''architecture switchover run disappeared'')
     | Some item \<Rightarrow>
         if rn_Status item = ArchitectureRunSucceeded then ret ()
         else if rn_Status item = ArchitectureRunFailed then fail_with (Error (rn_Error item))
         else if rn_Status item = ArchitectureRunWaitingForce
         then fail_with (Error ''replication did not catch up; a rolling upgrade never forces a switchover'')
         else on_ok (modify (\<lambda>w. w\<lparr>w_clock := w_clock w + second\<rparr>)) (\<lambda>_. await_switchover cluster runID n))"

text \<open>Twenty minutes, one look a second.\<close>

definition switchover_looks :: nat where
  "switchover_looks = 20 * 60"

definition attach_children :: "upgrade_env \<Rightarrow> string list \<Rightarrow> unit upg" where
  "attach_children env ids = on_ok (gets (uu_RunID \<circ> us_run)) (\<lambda>runID. ignore_error (tw_send env (AttachTasks runID ids)))"

definition note_switchover :: "string \<Rightarrow> string \<Rightarrow> go_time \<Rightarrow> upgrade_run \<Rightarrow> upgrade_run" where
  "note_switchover newPrimary runID now run =
     (let run = run\<lparr>uu_ArchitectureRunIDs := uu_ArchitectureRunIDs run @ [runID], uu_UpdatedAt := now\<rparr>
      in if newPrimary = uu_OriginalPrimaryMachineID run then run\<lparr>uu_SwitchBackRunID := runID\<rparr> else run\<lparr>uu_SwitchAwayRunID := runID\<rparr>)"

definition known_switchover :: "string \<Rightarrow> upgrade_run \<Rightarrow> string" where
  "known_switchover newPrimary run =
     (if newPrimary = uu_OriginalPrimaryMachineID run then uu_SwitchBackRunID run else uu_SwitchAwayRunID run)"

definition start_switchover :: "upgrade_env \<Rightarrow> string \<Rightarrow> arch_request \<Rightarrow> string upg" where
  "start_switchover env newPrimary request =
     on_ok (gets us_run) (\<lambda>run.
     on_ok (fresh_id env) (\<lambda>planID.
     on_ok (fresh_id env) (\<lambda>newid.
     on_ok (on_tw (startArchitectureAdjustmentWithLock env planID newid (uu_Cluster run) request (uu_RunID run))) (\<lambda>archRun.
     on_ok (set_upgrade (note_switchover newPrimary (rn_RunID archRun))) (\<lambda>_.
     on_ok (attach_children env [rn_RunID archRun]) (\<lambda>_.
     on_ok (ignore_error syncRun) (\<lambda>_. ret (rn_RunID archRun))))))))"

definition executeSwitchover :: "upgrade_env \<Rightarrow> string \<Rightarrow> string \<Rightarrow> bool \<Rightarrow> unit upg" where
  "executeSwitchover env currentPrimary newPrimary detach =
     on_ok (gets us_run) (\<lambda>run.
     on_ok (if known_switchover newPrimary run \<noteq> [] then ret (known_switchover newPrimary run)
            else start_switchover env newPrimary (clusterUpgradeSwitchoverRequest run currentPrimary newPrimary detach)) (\<lambda>runID.
       on_tw (await_switchover (uu_Cluster run) runID switchover_looks)))"

definition switchToTemporaryPrimary :: "upgrade_env \<Rightarrow> string upg" where
  "switchToTemporaryPrimary env =
     on_ok (gets us_run) (\<lambda>run.
     on_ok (executeSwitchover env (uu_OriginalPrimaryMachineID run) (uu_TemporaryPrimaryMachineID run) True) (\<lambda>_.
       ret ''the VIP moved to the temporary primary''))"

definition switchBackOriginalPrimary :: "upgrade_env \<Rightarrow> string upg" where
  "switchBackOriginalPrimary env =
     on_ok (gets us_run) (\<lambda>run.
     on_ok (executeSwitchover env (uu_TemporaryPrimaryMachineID run) (uu_OriginalPrimaryMachineID run) False) (\<lambda>_.
       ret ''the VIP moved back to the original primary''))"

subsection \<open>The original primary\<close>

definition attach_request :: "upgrade_node \<Rightarrow> upgrade_node \<Rightarrow> string \<Rightarrow> string \<Rightarrow> arch_request" where
  "attach_request temporary original user password = empty_request\<lparr>
     ar_Architecture := ArchitectureMasterSlave, ar_CurrentArchitecture := ArchitectureMasterSlave,
     ar_CurrentMasterMachineID := un_MachineID temporary, ar_PreferredNewMasterMachineID := un_MachineID temporary,
     ar_ReplicationUser := user, ar_ReplicationPassword := password,
     ar_Nodes := [\<lparr>an_MachineID = un_MachineID temporary, an_Port = un_Port temporary, an_Role = ''M'', an_SourceMachineID = [],
                   an_DelaySeconds = 0, an_ElectionPriority = 1000\<rparr>,
                  \<lparr>an_MachineID = un_MachineID original, an_Port = un_Port original, an_Role = ''S'', an_SourceMachineID = un_MachineID temporary,
                   an_DelaySeconds = 0, an_ElectionPriority = 0\<rparr>]\<rparr>"

text \<open>The ids of the tasks a command creates are attached to the run, also when it fails.\<close>

definition attached :: "upgrade_env \<Rightarrow> unit cmd \<Rightarrow> unit upg" where
  "attached env m = on_ok (on_tw (collect m)) (\<lambda>(res, ids). on_ok (attach_children env ids) (\<lambda>_. of_result res))"

definition attachOriginalPrimaryAsReplica :: "upgrade_env \<Rightarrow> unit upg" where
  "attachOriginalPrimaryAsReplica env =
     on_ok (gets us_run) (\<lambda>run.
       case (clusterUpgradeNode run (uu_TemporaryPrimaryMachineID run), clusterUpgradeNode run (uu_OriginalPrimaryMachineID run)) of
         (Some temporary, Some original) \<Rightarrow>
           on_ok (on_tw architectureManagementAccount) (\<lambda>(user, password).
           let req = attach_request temporary original user password
           in on_ok (on_tw (architectureMachines req)) (\<lambda>machines.
              on_ok (attached env (configureArchitectureTopology (ue_agent env) req (un_MachineID temporary) machines)) (\<lambda>_.
              on_ok (attached env (verifyArchitectureDataWithPT (ue_agent env) req (un_MachineID temporary) machines)) (\<lambda>_.
                attached env (resumeArchitectureBusinessConnections (ue_agent env) (req\<lparr>ar_Nodes := [ar_Nodes req ! 1]\<rparr>) machines)))))
       | _ \<Rightarrow> fail_with (Error ''temporary or original primary node not found''))"

definition wrap_error :: "string \<Rightarrow> 'a upg \<Rightarrow> 'a upg" where
  "wrap_error what m = map_error (Wrap ''%s: %w'' [what]) m"

definition upgradeOriginalPrimary :: "upgrade_env \<Rightarrow> string upg" where
  "upgradeOriginalPrimary env =
     on_ok (wrap_error ''the original primary is not isolated'' (verifyDetachedOriginalPrimary env)) (\<lambda>_.
     on_ok (gets us_run) (\<lambda>run.
     on_ok (upgradeOneNode env (uu_OriginalPrimaryMachineID run)) (\<lambda>_.
     on_ok (wrap_error ''the upgraded primary could not be attached again'' (attachOriginalPrimaryAsReplica env)) (\<lambda>_.
       ret ''the original primary was upgraded and follows the temporary primary''))))"

definition verifyOriginalPrimary :: "upgrade_env \<Rightarrow> string upg" where
  "verifyOriginalPrimary env =
     on_ok (gets us_run) (\<lambda>run.
     on_ok (verifyReplicaNode env (uu_OriginalPrimaryMachineID run) (uu_TemporaryPrimaryMachineID run) True) (\<lambda>_.
       ret ''the original primary runs the target version''))"

subsection \<open>The first and the last checks\<close>

definition executeClusterPreflight :: "upgrade_env \<Rightarrow> string upg" where
  "executeClusterPreflight env =
     on_ok (gets us_run) (\<lambda>run.
     on_ok (on_tw (buildPlan env \<lparr>uq_Cluster = uu_Cluster run, uq_TargetVersion = uu_TargetVersion run, uq_Port = uu_Port run,
                     uq_RiskAcknowledged = True\<rparr> (uu_RunID run))) (\<lambda>plan.
       if \<not> ul_Executable plan then fail_with (Error (join ''; '' (ul_BlockingReasons plan)))
       else if ul_OriginalPrimaryMachineID plan \<noteq> uu_OriginalPrimaryMachineID run \<or> ul_TemporaryPrimaryMachineID plan \<noteq> uu_TemporaryPrimaryMachineID run
       then fail_with (Error ''the roles of the cluster have changed since the start'')
       else on_ok (set_upgrade (\<lambda>_ run. run\<lparr>uu_Nodes := mergeClusterUpgradeTasks (ul_Nodes plan) (uu_Nodes run)\<rparr>)) (\<lambda>_.
            ret ''the topology, the VIPs and the packages were confirmed'')))"

definition enabled_addresses :: "vip_config list \<Rightarrow> string list" where
  "enabled_addresses configs = remdups (map vc_VIPAddress (filter vc_Enabled configs))"

definition final_vips :: "string \<Rightarrow> vip_config list \<Rightarrow> vip_binding list \<Rightarrow> go_error option" where
  "final_vips primary configs states =
     (let enabled = enabled_addresses configs; relevant = filter (\<lambda>st. vb_VIPAddress st \<in> set enabled) states
      in case find (\<lambda>st. vb_VIPStatus st \<noteq> VipStatusBound \<or> vb_CurrentHolderMachineID st \<noteq> primary) relevant of
           Some st \<Rightarrow> Some (Errorf ''VIP %s is not bound to the original primary alone'' [vb_VIPAddress st])
         | None \<Rightarrow> if enabled = [] \<or> length relevant \<noteq> length enabled
                   then Some (Error ''the last scan did not report every enabled VIP'') else None)"

definition finalClusterVerify :: "upgrade_env \<Rightarrow> string upg" where
  "finalClusterVerify env =
     on_ok (gets us_run) (\<lambda>run.
     on_ok (verifyPrimaryNode env (uu_OriginalPrimaryMachineID run) True) (\<lambda>_.
     on_ok (verify_replicas env) (\<lambda>_.
     on_ok (wrap_error ''the last VIP scan failed'' (on_tw (Scan (Some (ue_agent env)) (uu_Cluster run)))) (\<lambda>states.
     on_ok (wrap_error ''the VIP configuration cannot be read'' (on_tw (ListVIPConfigs (trim_space (uu_Cluster run))))) (\<lambda>configs.
     on_ok (of_error (final_vips (uu_OriginalPrimaryMachineID run) configs states)) (\<lambda>_. ret ''all nodes run the target version''))))))"

subsection \<open>The lock\<close>

abbreviation upgradeLockTTL :: duration where "upgradeLockTTL \<equiv> 10 * minute"

definition upgrade_renew_at :: "string \<Rightarrow> string \<Rightarrow> go_time \<Rightarrow> unit act" where
  "upgrade_renew_at cid lockID t = on_ok db_call (\<lambda>_ w.
     case renew_lock t cid lockID upgradeLockTTL (w_locks w) of Inl e \<Rightarrow> (Inl e, w) | Inr tab \<Rightarrow> (Inr (), w\<lparr>w_locks := tab\<rparr>))"

definition renew_lease :: "unit upg" where
  "renew_lease s =
     (if us_released s \<or> us_lock_error s \<noteq> None then (Inr (), s)
      else let ticks = renewal_ticks (us_renewed s) (us_now s)
           in case on_tw (for_ok (upgrade_renew_at (uu_Cluster (us_run s)) (uu_RunID (us_run s))) ticks) s of
                (r, s') \<Rightarrow> (Inr (), s'\<lparr>us_lock_error := (case r of Inl e \<Rightarrow> Some e | Inr _ \<Rightarrow> None),
                   us_renewed := us_renewed s + int (length ticks) * minute\<rparr>))"

definition release_lease :: "unit upg" where
  "release_lease = on_ok (gets us_released) (\<lambda>released.
     if released then ret ()
     else on_ok (gets us_run) (\<lambda>run.
          on_ok (on_tw (ReleaseFailoverLock (uu_Cluster run) (uu_RunID run))) (\<lambda>_. modify (\<lambda>s. s\<lparr>us_released := True\<rparr>))))"

subsection \<open>The goroutine\<close>

definition stage_body :: "upgrade_env \<Rightarrow> string \<Rightarrow> string upg" where
  "stage_body env code =
     (if code = ''cluster_preflight'' then executeClusterPreflight env
      else if code = ''precheck_all_nodes'' then executeAllPrechecks env
      else if code = ''upgrade_replicas'' then executeReplicaUpgrades env
      else if code = ''verify_replicas'' then verifyUpgradedReplicas env
      else if code = ''switch_to_upgraded_replica'' then switchToTemporaryPrimary env
      else if code = ''upgrade_original_primary'' then upgradeOriginalPrimary env
      else if code = ''verify_original_primary'' then verifyOriginalPrimary env
      else if code = ''switch_back_original_primary'' then switchBackOriginalPrimary env
      else if code = ''final_cluster_verify'' then finalClusterVerify env
      else on_ok release_lease (\<lambda>_. ret ''the maintenance lock was released''))"

definition stage_done :: "string \<Rightarrow> upgrade_run \<Rightarrow> bool" where
  "stage_done code run = (case find_stage code (uu_Stages run) of None \<Rightarrow> False | Some st \<Rightarrow> ug_Status st = ''success'')"

definition execute_stage :: "upgrade_env \<Rightarrow> string \<Rightarrow> unit upg" where
  "execute_stage env code =
     on_ok (gets (stage_done code \<circ> us_run)) (\<lambda>already.
       if already then ret ()
       else on_ok renew_lease (\<lambda>_. on_ok (gets us_lock_error) (\<lambda>err. case err of
              Some e \<Rightarrow> on_ok (failRun code (Wrap ''the lease of the maintenance lock was not renewed: %w'' [] e)) (\<lambda>_. fail_with e)
            | None \<Rightarrow> runStage code (stage_body env code))))"

definition succeeded_upgrade :: "go_time \<Rightarrow> upgrade_run \<Rightarrow> upgrade_run" where
  "succeeded_upgrade now run = run\<lparr>uu_Status := clusterUpgradeSucceeded, uu_CurrentStage := ''release_maintenance_lock'', uu_Error := [],
     uu_UpdatedAt := now, uu_FinishedAt := Some now\<rparr>"

definition run_stages :: "upgrade_env \<Rightarrow> unit upg" where
  "run_stages env =
     on_ok (set_upgrade (\<lambda>now run. run\<lparr>uu_Status := clusterUpgradeRunning, uu_UpdatedAt := now\<rparr>)) (\<lambda>_.
     on_ok (ignore_error syncRun) (\<lambda>_.
     on_ok (for_ok (execute_stage env) stage_codes) (\<lambda>_.
     on_ok (set_upgrade succeeded_upgrade) (\<lambda>_.
     on_ok (ignore_error syncRun) (\<lambda>_. appendRunEvent)))))"

definition clearActive :: "upgrade_run \<Rightarrow> unit upg" where
  "clearActive run = modify (\<lambda>s. if map_of (us_active s) (uu_Cluster run) = Some (uu_RunID run)
     then s\<lparr>us_active := AList.delete (uu_Cluster run) (us_active s)\<rparr> else s)"

definition execute_upgrade :: "upgrade_env \<Rightarrow> unit upg" where
  "execute_upgrade env =
     on_ok (gets us_run) (\<lambda>run.
     on_ok (with_result (on_tw (AcquireFailoverLock (uu_Cluster run) (uu_RunID run) ''gmha-cluster-upgrade'' upgradeLockTTL)) (\<lambda>r. case r of
         Inl e \<Rightarrow> failRun ''cluster_preflight'' (Wrap ''the maintenance lock was not acquired: %w'' [] e)
       | Inr _ \<Rightarrow>
           on_ok (modify (\<lambda>s. s\<lparr>us_released := False, us_renewed := us_now s, us_lock_error := None\<rparr>)) (\<lambda>_.
           on_ok (ignore_error (run_stages env)) (\<lambda>_.
           on_ok renew_lease (\<lambda>_. ignore_error release_lease))))) (\<lambda>_.
       clearActive run))"

subsection \<open>The service\<close>

definition new_upgrade :: "string \<Rightarrow> upgrade_plan \<Rightarrow> go_time \<Rightarrow> upgrade_run" where
  "new_upgrade newid plan now = \<lparr>uu_RunID = ''cluster-upgrade-'' @ trim_prefix newid ''fo-'', uu_Cluster = ul_Cluster plan,
     uu_TargetVersion = ul_TargetVersion plan, uu_Port = ul_Port plan, uu_Status = clusterUpgradePending, uu_CurrentStage = [], uu_Error = [],
     uu_OriginalPrimaryMachineID = ul_OriginalPrimaryMachineID plan, uu_TemporaryPrimaryMachineID = ul_TemporaryPrimaryMachineID plan,
     uu_Nodes = ul_Nodes plan, uu_Stages = clusterUpgradeStages, uu_ArchitectureRunIDs = [], uu_SwitchAwayRunID = [], uu_SwitchBackRunID = [],
     uu_CreatedAt = now, uu_UpdatedAt = now, uu_FinishedAt = None\<rparr>"

definition Start_upgrade :: "upgrade_env \<Rightarrow> upgrade_request \<Rightarrow> upgrade_run upg" where
  "Start_upgrade env req =
     (if \<not> uq_RiskAcknowledged req then fail_with (Error ''a backup and the short reconnects have to be acknowledged'')
      else on_ok (on_tw (buildPlan env req [])) (\<lambda>plan.
        if \<not> ul_Executable plan then fail_with (Errorf ''the precheck of the rolling upgrade did not pass: %s'' [join ''; '' (ul_BlockingReasons plan)])
        else on_ok (gets us_active) (\<lambda>active.
          let other = map_get [] (map_of active) (ul_Cluster plan)
          in if other \<noteq> [] then fail_with (Errorf ''cluster %s already has the rolling upgrade %s'' [ul_Cluster plan, other])
             else on_ok (fresh_id env) (\<lambda>newid. on_ok (gets us_now) (\<lambda>now.
               let run = new_upgrade newid plan now
               in on_ok (modify (\<lambda>s. s\<lparr>us_run := run, us_active := AList.update (uu_Cluster run) (uu_RunID run) active\<rparr>)) (\<lambda>_.
                  with_result createTrackingTask (\<lambda>r. case r of
                    Inl e \<Rightarrow> on_ok (clearActive run) (\<lambda>_. fail_with e)
                  | Inr _ \<Rightarrow> on_ok (execute_upgrade env) (\<lambda>_. ret run))))))))"

definition Get_upgrade :: "string \<Rightarrow> upgrade_run option upg" where
  "Get_upgrade runID = on_ok (get_tracking (trim_space runID)) (\<lambda>found. ret (map_option tk_Run found))"

text \<open>A restart of the manager ends every stored upgrade that is not over.\<close>

definition recover_task :: "tracking_task \<Rightarrow> unit upg" where
  "recover_task task =
     (let run = tk_Run task; stage = trim_space (uu_CurrentStage run)
      in if uu_RunID run = [] then ret ()
         else on_ok (ignore_error (on_tw (ReleaseFailoverLock (uu_Cluster run) (uu_RunID run)))) (\<lambda>_.
              on_ok (modify (\<lambda>s. s\<lparr>us_run := run\<rparr>)) (\<lambda>_.
                failRun (if stage = [] then ''cluster_preflight'' else stage) (Error ''the manager restarted during the rolling upgrade''))))"

definition RecoverInterrupted :: "unit upg" where
  "RecoverInterrupted =
     for_ok (\<lambda>status. on_ok (us_query (\<lambda>s. take 1000 (filter (\<lambda>t. tk_Status t = status) (us_tracking s)))) (for_ok recover_task))
       [clusterUpgradePending, clusterUpgradeRunning]"

end
