(* ===== verification/Upgrade_Plan_Facts.thy ===== *)
theory Upgrade_Plan_Facts
  imports Upgrade_Plan "HOL-Library.Sublist"
begin

text \<open>
  What a plan of a rolling upgrade says about the cluster: the invariant of the loop over the machines, and what the
  checks of the topology and of the VIPs add to it. A plan is executable exactly when nothing blocks it.
\<close>

subsection \<open>Blocking\<close>

lemma block_when_fields [simp]:
  "ul_Nodes (block_when b r p) = ul_Nodes p" "ul_OriginalPrimaryMachineID (block_when b r p) = ul_OriginalPrimaryMachineID p"
  "ul_TemporaryPrimaryMachineID (block_when b r p) = ul_TemporaryPrimaryMachineID p"
  "ul_Nodes (block_upgrade r p) = ul_Nodes p" "ul_OriginalPrimaryMachineID (block_upgrade r p) = ul_OriginalPrimaryMachineID p"
  "ul_TemporaryPrimaryMachineID (block_upgrade r p) = ul_TemporaryPrimaryMachineID p"
  "ul_Nodes (add_warning b r p) = ul_Nodes p" "ul_OriginalPrimaryMachineID (add_warning b r p) = ul_OriginalPrimaryMachineID p"
  "ul_TemporaryPrimaryMachineID (add_warning b r p) = ul_TemporaryPrimaryMachineID p"
  "ul_Executable (add_warning b r p) = ul_Executable p" "ul_BlockingReasons (add_warning b r p) = ul_BlockingReasons p"
  by (simp_all add: block_when_def block_upgrade_def add_warning_def)

lemma block_when_executable [simp]:
  "ul_Executable (block_when b r p) \<longleftrightarrow> \<not> b \<and> ul_Executable p" "ul_Executable (block_upgrade r p) = False"
  "ul_BlockingReasons (block_when b r p) = [] \<longleftrightarrow> \<not> b \<and> ul_BlockingReasons p = []" "ul_BlockingReasons (block_upgrade r p) \<noteq> []"
  by (simp_all add: block_when_def block_upgrade_def)

lemma fold_keeps: "(\<And>x p. f (g x p) = f p) \<Longrightarrow> f (fold g xs p) = f p"
  by (induction xs arbitrary: p) simp_all

lemma fold_holds: "(\<And>x p. P (g x p) \<longleftrightarrow> Q x \<and> P p) \<Longrightarrow> P (fold g xs p) \<longleftrightarrow> (\<forall>x \<in> set xs. Q x) \<and> P p"
  by (induction xs arbitrary: p) auto

subsection \<open>The loop over the machines\<close>

definition of_probe :: "upgrade_probe \<Rightarrow> upgrade_node \<Rightarrow> bool" where
  "of_probe p n \<longleftrightarrow> un_Role n = node_role p \<and> un_Hostname n = ub_Hostname p \<and> un_SourceHost n = ub_SourceHost p \<and> un_SourcePort n = ub_SourcePort p \<and>
     un_CurrentVersion n = ub_Version p \<and> un_ReadOnly n = ub_ReadOnly p \<and> un_SuperReadOnly n = ub_SuperReadOnly p \<and>
     un_ReceiverState n = ub_ReceiverState p \<and> un_ApplierState n = ub_ApplierState p \<and> un_DelaySeconds n = ub_DelaySeconds p \<and>
     un_UpgradeTaskID n = []"

definition planned :: "machine list \<Rightarrow> plan_acc \<Rightarrow> bool" where
  "planned ms acc \<longleftrightarrow> (case acc of (plan, probes, owners) \<Rightarrow>
     subseq (map un_MachineID (ul_Nodes plan)) (map mach_ID ms) \<and> dom (map_of probes) \<subseteq> mach_ID ` set ms \<and>
     (\<forall>n \<in> set (ul_Nodes plan). \<exists>p. map_of probes (un_MachineID n) = Some p \<and> of_probe p n) \<and>
     (ul_Executable plan \<longleftrightarrow> ul_BlockingReasons plan = []) \<and> ul_OriginalPrimaryMachineID plan = [] \<and>
     (ul_Executable plan \<longrightarrow> length (ul_Nodes plan) = length ms \<and>
        (\<forall>n \<in> set (ul_Nodes plan). ValidateUpgradeCompatibility (un_CurrentVersion n) (un_TargetVersion n) = None)))"

lemma planned_skip:
  "planned ms (plan, probes, owners) \<Longrightarrow> planned (ms @ [m]) (block_upgrade r plan, probes, owners)"
  by (auto simp: planned_def intro: list_emb_append2 subseq_rev_drop_many)

lemma planned_block:
  "planned ms (plan, probes, owners) \<Longrightarrow> planned ms (block_when b r plan, probes, owners')"
  by (auto simp: planned_def)

lemma planned_server_id:
  assumes "planned ms (plan, probes, owners)" and "check_server_id m p owners' plan = (plan', owners'')"
  shows "planned ms (plan', probes, owners'')"
proof -
  have "planned ms (block_upgrade r plan, probes, owners'')" for r
    using planned_block [OF assms(1), of True] by (simp add: block_when_def)
  moreover have "planned ms (plan, probes, owners'')" using assms(1) by (simp add: planned_def)
  ultimately show ?thesis using assms(2) by (auto simp: check_server_id_def Let_def split: if_splits)
qed

lemma planned_probe:
  assumes "planned ms (plan, probes, owners)" and "mid \<notin> mach_ID ` set ms"
  shows "planned ms (plan, probes, owners) \<and> (\<forall>n \<in> set (ul_Nodes plan). un_MachineID n \<noteq> mid)"
  using assms by (force simp: planned_def dom_def)

lemma planned_add:
  assumes acc: "planned ms (plan, probes, owners)" and new: "mach_ID m \<notin> mach_ID ` set ms"
    and ok: "ul_Executable plan \<longrightarrow> ValidateUpgradeCompatibility (ub_Version p) (pk_Version target) = None"
  shows "planned (ms @ [m]) (plan\<lparr>ul_Nodes := ul_Nodes plan @ [planned_node m inst p target]\<rparr>, AList.update (mach_ID m) p probes, owners)"
proof -
  have "\<forall>n \<in> set (ul_Nodes plan). un_MachineID n \<noteq> mach_ID m" using planned_probe [OF acc new] by simp
  moreover have "of_probe p (planned_node m inst p target)" "un_MachineID (planned_node m inst p target) = mach_ID m"
    "un_CurrentVersion (planned_node m inst p target) = ub_Version p" "un_TargetVersion (planned_node m inst p target) = pk_Version target"
    by (simp_all add: planned_node_def of_probe_def)
  ultimately show ?thesis
    using acc ok by (auto simp: planned_def AList.update_conv' intro: list_emb_append_mono)
qed

lemma planned_blocked:
  assumes acc: "planned ms (plan, probes, owners)" and new: "mach_ID m \<notin> mach_ID ` set ms"
  shows "planned (ms @ [m]) (block_upgrade r plan, AList.update (mach_ID m) p probes, owners)"
proof -
  have "\<forall>n \<in> set (ul_Nodes plan). un_MachineID n \<noteq> mach_ID m" using planned_probe [OF acc new] by simp
  with acc show ?thesis
    by (auto simp: planned_def AList.update_conv' intro: list_emb_append2 subseq_rev_drop_many)
qed

lemma planned_machine:
  assumes "planned ms (plan, probes, owners)" and "mach_ID m \<notin> mach_ID ` set ms"
  shows "planned (ms @ [m]) (probed_machine env version m inst p (plan, probes, owners))"
proof -
  let ?plan1 = "block_when (\<not> equal_fold (trim_space (ub_GTIDMode p)) ''ON'') (''GTID is off on '' @ mach_Name m) plan"
  obtain plan2 owners2 where id: "check_server_id m p owners ?plan1 = (plan2, owners2)" by (metis prod.collapse)
  have two: "planned ms (plan2, probes, owners2)"
    by (rule planned_server_id [OF planned_block [OF assms(1)] id])
  have blocked: "planned ms (block_upgrade r plan2, probes, owners2)" for r
    using planned_block [OF two, of True] by (simp add: block_when_def)
  have without: "planned (ms @ [m]) (block_upgrade r plan2, AList.update (mach_ID m) p probes, owners2)" for r
    by (rule planned_blocked [OF two assms(2)])
  have incompatible: "planned (ms @ [m]) ((block_upgrade r plan2)\<lparr>ul_Nodes := ul_Nodes (block_upgrade r plan2) @ [planned_node m inst p target]\<rparr>,
      AList.update (mach_ID m) p probes, owners2)" for r target
    by (rule planned_add [OF blocked assms(2)]) simp
  have compatible: "planned (ms @ [m]) (plan2\<lparr>ul_Nodes := ul_Nodes plan2 @ [planned_node m inst p target]\<rparr>,
      AList.update (mach_ID m) p probes, owners2)" if "ValidateUpgradeCompatibility (ub_Version p) (pk_Version target) = None" for target
    by (rule planned_add [OF two assms(2)]) (simp add: that)
  show ?thesis
    unfolding probed_machine_def Let_def prod.case id
    by (simp split: sum.splits option.splits add: without incompatible compatible del: block_when_fields(4))
qed

lemma planned_step:
  assumes "planned ms acc" and "mach_ID m \<notin> mach_ID ` set ms" and "plan_machine env version parent instances m acc w = (Inr acc', w')"
  shows "planned (ms @ [m]) acc'"
proof -
  obtain plan probes owners where acc: "acc = (plan, probes, owners)" by (metis prod_cases3)
  show ?thesis
    using assms planned_skip planned_machine unfolding acc plan_machine_def
    by (auto simp: with_result_def split: option.splits prod.splits if_splits sum.splits)
qed

lemma planned_all:
  assumes "fold_ok (plan_machine env version parent instances) ms acc w = (Inr acc', w')"
    and "planned done' acc" and "distinct (map mach_ID (done' @ ms))"
  shows "planned (done' @ ms) acc'"
  using assms
proof (induction ms arbitrary: done' acc w)
  case Nil
  then show ?case by simp
next
  case (Cons m ms)
  then obtain acc1 v where step: "plan_machine env version parent instances m acc w = (Inr acc1, v)"
    and rest: "fold_ok (plan_machine env version parent instances) ms acc1 v = (Inr acc', w')"
    by (auto dest: on_ok_InrD)
  have "planned (done' @ [m]) acc1" using planned_step [OF Cons.prems(2) _ step] Cons.prems(3) by auto
  from Cons.IH [OF rest this] Cons.prems(3) show ?case by simp
qed

subsection \<open>The topology\<close>

lemma role_nodes_block [simp]: "role_nodes r (block_when b x p) = role_nodes r p" "role_nodes r (p\<lparr>ul_Executable := e\<rparr>) = role_nodes r p"
    "role_nodes r (check_roles p) = role_nodes r p" "ul_Nodes (check_roles p) = ul_Nodes p"
    "ul_OriginalPrimaryMachineID (check_roles p) = ul_OriginalPrimaryMachineID p"
  by (simp_all add: role_nodes_def check_roles_def fold_keeps [where f = ul_Nodes] fold_keeps [where f = ul_OriginalPrimaryMachineID])

abbreviation known_role :: "upgrade_node \<Rightarrow> bool" where
  "known_role n \<equiv> un_Role n = ''primary'' \<or> un_Role n = ''replica''"

lemma check_roles_executable [simp]:
  "ul_Executable (check_roles p) \<longleftrightarrow> (\<forall>n \<in> set (ul_Nodes p). known_role n) \<and> ul_Executable p"
  unfolding check_roles_def by (rule fold_holds) auto

lemma check_roles_reasons [simp]:
  "ul_BlockingReasons (check_roles p) = [] \<longleftrightarrow> (\<forall>n \<in> set (ul_Nodes p). known_role n) \<and> ul_BlockingReasons p = []"
  unfolding check_roles_def by (rule fold_holds [where P = "\<lambda>p. ul_BlockingReasons p = []"]) auto

definition replica_ok :: "upgrade_node \<Rightarrow> (string \<times> upgrade_probe) list \<Rightarrow> upgrade_node \<Rightarrow> bool" where
  "replica_ok primary probes n \<longleftrightarrow> replication_healthy (map_get no_probe (map_of probes) (un_MachineID n)) \<and>
     follows_primary primary (map_get no_probe (map_of probes) (un_MachineID primary)) (map_get no_probe (map_of probes) (un_MachineID n))"

lemma check_replica_fields [simp]:
  "ul_Nodes (check_replica primary probes n p) = ul_Nodes p" "ul_OriginalPrimaryMachineID (check_replica primary probes n p) = ul_OriginalPrimaryMachineID p"
  "ul_Executable (check_replica primary probes n p) \<longleftrightarrow> replica_ok primary probes n \<and> ul_Executable p"
  "ul_BlockingReasons (check_replica primary probes n p) = [] \<longleftrightarrow> replica_ok primary probes n \<and> ul_BlockingReasons p = []"
  by (auto simp: check_replica_def Let_def replica_ok_def)

lemma with_primary_fields:
  assumes "role_nodes ''primary'' p = [primary]"
  shows "ul_Nodes (with_primary probes p) = ul_Nodes p" "ul_OriginalPrimaryMachineID (with_primary probes p) = un_MachineID primary"
    "ul_Executable (with_primary probes p) \<longleftrightarrow> (\<forall>n \<in> set (role_nodes ''replica'' p). replica_ok primary probes n) \<and> ul_Executable p"
    "ul_BlockingReasons (with_primary probes p) = [] \<longleftrightarrow> (\<forall>n \<in> set (role_nodes ''replica'' p). replica_ok primary probes n) \<and> ul_BlockingReasons p = []"
proof -
  let ?p = "p\<lparr>ul_OriginalPrimaryMachineID := un_MachineID primary\<rparr>" and ?f = "check_replica primary probes"
  have w: "with_primary probes p = fold ?f (role_nodes ''replica'' p) ?p" using assms by (simp add: with_primary_def)
  show "ul_Nodes (with_primary probes p) = ul_Nodes p" "ul_OriginalPrimaryMachineID (with_primary probes p) = un_MachineID primary"
    by (simp_all add: w fold_keeps [where f = ul_Nodes] fold_keeps [where f = ul_OriginalPrimaryMachineID])
  show "ul_Executable (with_primary probes p) \<longleftrightarrow> (\<forall>n \<in> set (role_nodes ''replica'' p). replica_ok primary probes n) \<and> ul_Executable p"
    unfolding w by (subst fold_holds [where P = ul_Executable and Q = "replica_ok primary probes"]) simp_all
  show "ul_BlockingReasons (with_primary probes p) = [] \<longleftrightarrow> (\<forall>n \<in> set (role_nodes ''replica'' p). replica_ok primary probes n) \<and> ul_BlockingReasons p = []"
    unfolding w by (subst fold_holds [where P = "\<lambda>p. ul_BlockingReasons p = []" and Q = "replica_ok primary probes"]) simp_all
qed

lemma with_primary_none: "length (role_nodes ''primary'' p) \<noteq> 1 \<Longrightarrow> with_primary probes p = p"
  by (auto simp: with_primary_def split: list.splits)

definition has_primary :: "(string \<times> upgrade_probe) list \<Rightarrow> upgrade_node list \<Rightarrow> string \<Rightarrow> bool" where
  "has_primary probes nodes mid \<longleftrightarrow> (\<exists>primary. filter (\<lambda>n. un_Role n = ''primary'') nodes = [primary] \<and> un_MachineID primary = mid \<and>
     (\<forall>n \<in> set nodes. un_Role n = ''replica'' \<longrightarrow> replica_ok primary probes n))"

definition has_temporary :: "upgrade_node list \<Rightarrow> string \<Rightarrow> bool" where
  "has_temporary nodes mid \<longleftrightarrow> mid \<noteq> [] \<and> (\<exists>t \<in> set nodes. un_MachineID t = mid \<and> un_Role t = ''replica'' \<and> un_DelaySeconds t = 0)"

lemma find_SomeD: "find P xs = Some x \<Longrightarrow> P x" "find P xs = Some x \<Longrightarrow> x \<in> set xs"
  by (induction xs) (auto split: if_splits)

lemma temporary_primary_some: "temporary_primary p \<noteq> [] \<Longrightarrow> has_temporary (ul_Nodes p) (temporary_primary p)"
proof -
  assume t: "temporary_primary p \<noteq> []"
  then obtain n where n: "find (\<lambda>n. un_DelaySeconds n = 0) (stable_sort replica_first (role_nodes ''replica'' p)) = Some n"
    by (auto simp: temporary_primary_def split: option.splits)
  then have "un_DelaySeconds n = 0" "n \<in> set (stable_sort replica_first (role_nodes ''replica'' p))"
    using find_SomeD [OF n] by simp_all
  with n t show ?thesis by (auto simp: temporary_primary_def has_temporary_def role_nodes_def)
qed

lemma length_one: "length xs = 1 \<Longrightarrow> \<exists>x. xs = [x]"
  by (cases xs) simp_all

lemma judged:
  fixes probes p0 k
  defines "p \<equiv> judge_topology k probes p0"
  shows "ul_Nodes p = ul_Nodes p0"
    and "ul_Executable p \<Longrightarrow> ul_Executable p0 \<and> length (ul_Nodes p) = k \<and> (\<forall>n \<in> set (ul_Nodes p). known_role n) \<and>
      has_primary probes (ul_Nodes p) (ul_OriginalPrimaryMachineID p) \<and> has_temporary (ul_Nodes p) (ul_TemporaryPrimaryMachineID p)"
    and "(ul_Executable p0 \<longleftrightarrow> ul_BlockingReasons p0 = []) \<Longrightarrow> (ul_Executable p0 \<Longrightarrow> length (ul_Nodes p0) = k) \<Longrightarrow>
      ul_Executable p \<longleftrightarrow> ul_BlockingReasons p = []"
proof -
  define p1 where "p1 = check_roles (if length (ul_Nodes p0) \<noteq> k then p0\<lparr>ul_Executable := False\<rparr> else p0)"
  define p3 where "p3 = block_when (role_nodes ''replica'' (block_when (length (role_nodes ''primary'' p1) \<noteq> 1) ''a rolling upgrade needs exactly one writable primary'' p1) = [])
    ''a rolling upgrade needs a healthy replica'' (block_when (length (role_nodes ''primary'' p1) \<noteq> 1) ''a rolling upgrade needs exactly one writable primary'' p1)"
  define p4 where "p4 = with_primary probes p3"
  have p: "p = block_when (temporary_primary p4 = []) ''no undelayed replica can be promoted'' (p4\<lparr>ul_TemporaryPrimaryMachineID := temporary_primary p4\<rparr>)"
    by (simp add: p_def judge_topology_def Let_def p4_def p3_def p1_def)
  have n3: "ul_Nodes p3 = ul_Nodes p0" by (simp add: p3_def p1_def)
  have roles: "role_nodes r p3 = filter (\<lambda>n. un_Role n = r) (ul_Nodes p0)" for r by (simp add: role_nodes_def n3)
  have e3: "ul_Executable p3 \<longleftrightarrow> ul_Executable p0 \<and> length (ul_Nodes p0) = k \<and> (\<forall>n \<in> set (ul_Nodes p0). known_role n) \<and>
      length (role_nodes ''primary'' p3) = 1 \<and> role_nodes ''replica'' p3 \<noteq> []"
    unfolding p3_def p1_def by simp blast
  have r3: "ul_BlockingReasons p3 = [] \<longleftrightarrow> ul_BlockingReasons p0 = [] \<and> (\<forall>n \<in> set (ul_Nodes p0). known_role n) \<and>
      length (role_nodes ''primary'' p3) = 1 \<and> role_nodes ''replica'' p3 \<noteq> []"
    unfolding p3_def p1_def by simp blast
  consider (one) primary where "role_nodes ''primary'' p3 = [primary]" | (other) "length (role_nodes ''primary'' p3) \<noteq> 1"
    using length_one [of "role_nodes ''primary'' p3"] by blast
  note c = this
  have n4: "ul_Nodes p4 = ul_Nodes p0"
    using c by cases (simp_all add: p4_def with_primary_fields with_primary_none n3)
  then show "ul_Nodes p = ul_Nodes p0" by (simp add: p)
  have t: "has_temporary (ul_Nodes p) (ul_TemporaryPrimaryMachineID p)" if "ul_Executable p"
    using that temporary_primary_some [of p4] by (simp add: p)
  show "ul_Executable p0 \<and> length (ul_Nodes p) = k \<and> (\<forall>n \<in> set (ul_Nodes p). known_role n) \<and>
      has_primary probes (ul_Nodes p) (ul_OriginalPrimaryMachineID p) \<and> has_temporary (ul_Nodes p) (ul_TemporaryPrimaryMachineID p)"
    if exec: "ul_Executable p"
    using c
  proof cases
    case (one primary)
    with exec have "ul_Executable p3" and ok: "\<forall>n \<in> set (role_nodes ''replica'' p3). replica_ok primary probes n"
      by (simp_all add: p p4_def with_primary_fields)
    with e3 t [OF exec] one show ?thesis
      by (auto simp: p p4_def with_primary_fields n3 has_primary_def roles)
  next
    case other
    with exec e3 show ?thesis by (simp add: p p4_def with_primary_none)
  qed
  show "ul_Executable p \<longleftrightarrow> ul_BlockingReasons p = []"
    if "ul_Executable p0 \<longleftrightarrow> ul_BlockingReasons p0 = []" "ul_Executable p0 \<Longrightarrow> length (ul_Nodes p0) = k"
    using c
  proof cases
    case one
    with that e3 r3 show ?thesis by (auto simp: p p4_def with_primary_fields)
  next
    case other
    with that e3 r3 show ?thesis by (auto simp: p p4_def with_primary_none)
  qed
qed

subsection \<open>The VIPs\<close>

lemma check_vips_InrD:
  assumes "check_vips env cluster p0 w = (Inr p, w')"
  shows "ul_Nodes p = ul_Nodes p0 \<and> ul_OriginalPrimaryMachineID p = ul_OriginalPrimaryMachineID p0 \<and>
    ul_TemporaryPrimaryMachineID p = ul_TemporaryPrimaryMachineID p0 \<and> (ul_Executable p \<longrightarrow> ul_Executable p0) \<and>
    ((ul_Executable p0 \<longleftrightarrow> ul_BlockingReasons p0 = []) \<longrightarrow> (ul_Executable p \<longleftrightarrow> ul_BlockingReasons p = []))"
proof -
  have vips: "ul_Nodes (fold (\<lambda>a. block_when (b a) (t a)) xs p0) = ul_Nodes p0"
    "ul_OriginalPrimaryMachineID (fold (\<lambda>a. block_when (b a) (t a)) xs p0) = ul_OriginalPrimaryMachineID p0"
    "ul_TemporaryPrimaryMachineID (fold (\<lambda>a. block_when (b a) (t a)) xs p0) = ul_TemporaryPrimaryMachineID p0"
    "ul_Executable (fold (\<lambda>a. block_when (b a) (t a)) xs p0) \<longleftrightarrow> (\<forall>a \<in> set xs. \<not> b a) \<and> ul_Executable p0"
    "ul_BlockingReasons (fold (\<lambda>a. block_when (b a) (t a)) xs p0) = [] \<longleftrightarrow> (\<forall>a \<in> set xs. \<not> b a) \<and> ul_BlockingReasons p0 = []"
    for b t and xs :: "string list"
    by (rule fold_keeps [where f = ul_Nodes], simp, rule fold_keeps [where f = ul_OriginalPrimaryMachineID], simp,
      rule fold_keeps [where f = ul_TemporaryPrimaryMachineID], simp, rule fold_holds, simp,
      rule fold_holds [where P = "\<lambda>p. ul_BlockingReasons p = []"], simp)
  from assms show ?thesis
    by (auto simp: check_vips_def with_result_def Let_def vips split: prod.splits sum.splits if_splits)
qed

subsection \<open>The plan\<close>

text \<open>The pieces of a plan: the machines, what the loop made of them, the judged plan.\<close>

lemma buildPlan_InrD:
  assumes "buildPlan env req parent w = (Inr plan, w')" and "distinct (map mach_ID (w_machines w))"
  obtains machines plan0 probes owners where
    "mset machines = mset (filter (\<lambda>m. mach_Cluster m = trim_space (uq_Cluster req)) (w_machines w))"
    "planned machines (plan0, probes, owners)"
    "ul_Nodes plan = ul_Nodes plan0"
    "ul_Executable plan \<Longrightarrow> ul_Executable plan0 \<and> length (ul_Nodes plan) = length machines \<and> (\<forall>n \<in> set (ul_Nodes plan). known_role n) \<and>
       has_primary probes (ul_Nodes plan) (ul_OriginalPrimaryMachineID plan) \<and> has_temporary (ul_Nodes plan) (ul_TemporaryPrimaryMachineID plan)"
    "ul_Executable plan \<longleftrightarrow> ul_BlockingReasons plan = []"
proof -
  let ?cluster = "trim_space (uq_Cluster req)"
  from assms(1) obtain found v instances acc u p v2 v3 where
    list: "ListClusterMachines ?cluster w = (Inr found, v)"
    and acc: "fold_ok (plan_machine env (trim_space (uq_TargetVersion req)) parent (port_instances (uq_Port req) instances))
       (stable_sort machine_first found) (new_plan ?cluster (trim_space (uq_TargetVersion req)) (uq_Port req) (w_clock w), [], []) v2 = (Inr acc, v3)"
    and vips: "check_vips env ?cluster (judge_topology (length found) (fst (snd acc)) (fst acc)) v3 = (Inr p, u)"
    and plan: "plan = p\<lparr>ul_Warnings := ul_Warnings p @ closing_warnings\<rparr>"
    unfolding buildPlan_def Let_def
    by (auto split: if_splits prod.splits dest!: on_ok_InrD)
  obtain plan0 probes owners where a: "acc = (plan0, probes, owners)" by (metis prod_cases3)
  let ?ms = "stable_sort machine_first found"
  have found: "mset found = mset (filter (\<lambda>m. mach_Cluster m = ?cluster) (w_machines w))"
    using list unfolding ListClusterMachines_def machines_List_def Let_def
    by (auto split: if_splits dest!: on_ok_InrD elim!: query_cases)
  have "distinct (map mach_ID found)"
    using assms(2) mset_eq_imp_distinct_iff [of "map mach_ID found" "map mach_ID (filter (\<lambda>m. mach_Cluster m = ?cluster) (w_machines w))"]
    by (simp add: found distinct_map_filter)
  moreover have "mset (map mach_ID ?ms) = mset (map mach_ID found)" by simp
  ultimately have ms: "distinct (map mach_ID ?ms)" using mset_eq_imp_distinct_iff by blast
  have "planned [] (new_plan ?cluster (trim_space (uq_TargetVersion req)) (uq_Port req) (w_clock w), [], [])"
    by (simp add: planned_def new_plan_def)
  from planned_all [OF acc this] ms have pl: "planned ?ms (plan0, probes, owners)" by (simp add: a)
  then have iff: "ul_Executable plan0 \<longleftrightarrow> ul_BlockingReasons plan0 = []" "ul_Executable plan0 \<Longrightarrow> length (ul_Nodes plan0) = length found"
    by (simp_all add: planned_def)
  note j = judged [where k = "length found" and probes = probes and ?p0.0 = plan0]
  note v = check_vips_InrD [OF vips [unfolded a fst_conv snd_conv]]
  have same: "ul_Nodes plan = ul_Nodes (judge_topology (length found) probes plan0)"
    "ul_OriginalPrimaryMachineID plan = ul_OriginalPrimaryMachineID (judge_topology (length found) probes plan0)"
    "ul_TemporaryPrimaryMachineID plan = ul_TemporaryPrimaryMachineID (judge_topology (length found) probes plan0)"
    "ul_Executable plan \<Longrightarrow> ul_Executable (judge_topology (length found) probes plan0)"
    using v by (simp_all add: plan)
  show ?thesis
  proof (rule that)
    show "mset ?ms = mset (filter (\<lambda>m. mach_Cluster m = ?cluster) (w_machines w))" by (simp add: found)
    show "planned ?ms (plan0, probes, owners)" by (rule pl)
    show "ul_Nodes plan = ul_Nodes plan0" by (simp only: same(1) j(1))
    show "ul_Executable plan \<longleftrightarrow> ul_BlockingReasons plan = []" using j(3) [OF iff] v by (simp add: plan)
    show "ul_Executable plan0 \<and> length (ul_Nodes plan) = length ?ms \<and> (\<forall>n \<in> set (ul_Nodes plan). known_role n) \<and>
       has_primary probes (ul_Nodes plan) (ul_OriginalPrimaryMachineID plan) \<and> has_temporary (ul_Nodes plan) (ul_TemporaryPrimaryMachineID plan)"
      if "ul_Executable plan"
      using j(2) [OF same(4) [OF that]] unfolding same(1-3) by simp
  qed
qed

lemma mem_filter_one: "filter P xs = [x] \<Longrightarrow> y \<in> set xs \<and> P y \<longleftrightarrow> y = x"
proof -
  assume "filter P xs = [x]"
  then have "set (filter P xs) = {x}" by simp
  then show ?thesis by auto
qed

lemma primary_of_probe: "of_probe p n \<Longrightarrow> un_Role n = ''primary'' \<Longrightarrow> \<not> un_ReadOnly n \<and> \<not> un_SuperReadOnly n \<and> un_SourceHost n = []"
  by (auto simp: of_probe_def node_role_def split: if_splits)

lemma replica_of_probe: "of_probe p n \<Longrightarrow> un_Role n = ''replica'' \<Longrightarrow> un_ReadOnly n \<and> un_SuperReadOnly n"
  by (auto simp: of_probe_def node_role_def split: if_splits)

text \<open>The replica names one of the primary's addresses as its source, and its port unless it names none.\<close>

definition follows_node :: "upgrade_node \<Rightarrow> upgrade_node \<Rightarrow> bool" where
  "follows_node primary n \<longleftrightarrow>
     (\<exists>name \<in> {un_IP primary, un_Hostname primary, un_Machine primary}. equal_fold (trim_space (un_SourceHost n)) (trim_space name)) \<and>
     (un_SourcePort n \<le> 0 \<or> un_SourcePort n = un_Port primary)"

lemma replica_following:
  assumes "\<exists>p. map_of probes (un_MachineID n) = Some p \<and> of_probe p n" and "un_Role n = ''replica''" and "replica_ok primary probes n"
    and "\<exists>p. map_of probes (un_MachineID primary) = Some p \<and> of_probe p primary"
  shows "un_ReadOnly n \<and> un_SuperReadOnly n \<and> equal_fold (un_ReceiverState n) ''ON'' \<and> equal_fold (un_ApplierState n) ''ON'' \<and>
    follows_node primary n"
proof -
  obtain q where q: "map_of probes (un_MachineID n) = Some q" "of_probe q n" using assms(1) by blast
  obtain p where p: "map_of probes (un_MachineID primary) = Some p" "of_probe p primary" using assms(4) by blast
  have "replication_healthy q" and follow: "follows_primary primary p q"
    using assms(3) p(1) q(1) by (simp_all add: replica_ok_def map_get_def)
  moreover have "follows_node primary n"
    using follow p(2) q(2) by (auto simp: follows_primary_def follows_node_def of_probe_def)
  ultimately show ?thesis
    using replica_of_probe [OF q(2) assms(2)] q(2) by (auto simp: replication_healthy_def of_probe_def)
qed

text \<open>C8: A plan that is executable has nothing that blocks it and holds one node for every machine of the cluster. One of them
  is the writable primary; every other one is a read-only replica with running threads whose source host is
  the address, the probed host name or the machine name of that primary (up to case and surrounding space)
  and whose source port, when it reports one, is the primary's; the
  temporary primary is an undelayed replica; and every node may be upgraded to its target version.\<close>

theorem upgrade_plan_sound:
  assumes "buildPlan env req parent w = (Inr plan, w')" and "distinct (map mach_ID (w_machines w))" and "ul_Executable plan"
  shows "ul_BlockingReasons plan = [] \<and>
    mset (map un_MachineID (ul_Nodes plan)) = mset (map mach_ID (filter (\<lambda>m. mach_Cluster m = trim_space (uq_Cluster req)) (w_machines w))) \<and>
    (\<exists>primary \<in> set (ul_Nodes plan). un_MachineID primary = ul_OriginalPrimaryMachineID plan \<and> un_Role primary = ''primary'' \<and>
       \<not> un_ReadOnly primary \<and> \<not> un_SuperReadOnly primary \<and> un_SourceHost primary = [] \<and>
       (\<forall>n \<in> set (ul_Nodes plan). n = primary \<or> un_Role n = ''replica'' \<and> un_ReadOnly n \<and> un_SuperReadOnly n \<and>
          equal_fold (un_ReceiverState n) ''ON'' \<and> equal_fold (un_ApplierState n) ''ON'' \<and>
          (equal_fold (trim_space (un_SourceHost n)) (trim_space (un_IP primary)) \<or>
           equal_fold (trim_space (un_SourceHost n)) (trim_space (un_Hostname primary)) \<or>
           equal_fold (trim_space (un_SourceHost n)) (trim_space (un_Machine primary))) \<and>
          (un_SourcePort n \<le> 0 \<or> un_SourcePort n = un_Port primary))) \<and>
    (\<exists>t \<in> set (ul_Nodes plan). un_MachineID t = ul_TemporaryPrimaryMachineID plan \<and> un_Role t = ''replica'' \<and> un_DelaySeconds t = 0) \<and>
    (\<forall>n \<in> set (ul_Nodes plan). ValidateUpgradeCompatibility (un_CurrentVersion n) (un_TargetVersion n) = None)"
proof -
  obtain machines plan0 probes owners where
    ms: "mset machines = mset (filter (\<lambda>m. mach_Cluster m = trim_space (uq_Cluster req)) (w_machines w))"
    and pl: "planned machines (plan0, probes, owners)" and nodes: "ul_Nodes plan = ul_Nodes plan0"
    and ok: "ul_Executable plan0" "length (ul_Nodes plan) = length machines" "\<forall>n \<in> set (ul_Nodes plan). known_role n"
      "has_primary probes (ul_Nodes plan) (ul_OriginalPrimaryMachineID plan)" "has_temporary (ul_Nodes plan) (ul_TemporaryPrimaryMachineID plan)"
    and blocked: "ul_BlockingReasons plan = []"
    using buildPlan_InrD [OF assms(1,2)] assms(3) by metis
  have "map un_MachineID (ul_Nodes plan) = map mach_ID machines"
    using pl ok(2) by (intro subseq_same_length) (simp_all add: planned_def nodes)
  moreover have "mset (map mach_ID machines) = mset (map mach_ID (filter (\<lambda>m. mach_Cluster m = trim_space (uq_Cluster req)) (w_machines w)))"
    by (simp add: ms)
  ultimately have all: "mset (map un_MachineID (ul_Nodes plan)) = mset (map mach_ID (filter (\<lambda>m. mach_Cluster m = trim_space (uq_Cluster req)) (w_machines w)))"
    by simp
  have probe_of: "\<exists>p. map_of probes (un_MachineID n) = Some p \<and> of_probe p n" if "n \<in> set (ul_Nodes plan)" for n
    using pl that by (simp add: planned_def nodes)
  from ok(4) obtain primary where p: "filter (\<lambda>n. un_Role n = ''primary'') (ul_Nodes plan) = [primary]"
      "un_MachineID primary = ul_OriginalPrimaryMachineID plan"
      "\<And>n. n \<in> set (ul_Nodes plan) \<Longrightarrow> un_Role n = ''replica'' \<Longrightarrow> replica_ok primary probes n"
    unfolding has_primary_def by blast
  then have mem: "primary \<in> set (ul_Nodes plan)" "un_Role primary = ''primary''"
    using mem_filter_one [OF p(1)] by blast+
  have primary: "\<not> un_ReadOnly primary \<and> \<not> un_SuperReadOnly primary \<and> un_SourceHost primary = []"
    using probe_of [OF mem(1)] primary_of_probe mem(2) by blast
  have others: "n = primary \<or> un_Role n = ''replica'' \<and> un_ReadOnly n \<and> un_SuperReadOnly n \<and>
      equal_fold (un_ReceiverState n) ''ON'' \<and> equal_fold (un_ApplierState n) ''ON'' \<and> follows_node primary n" if n: "n \<in> set (ul_Nodes plan)" for n
  proof (cases "un_Role n = ''primary''")
    case True
    then show ?thesis using mem_filter_one [OF p(1)] n by blast
  next
    case False
    then have r: "un_Role n = ''replica''" using ok(3) n by blast
    from replica_following [OF probe_of [OF n] r p(3) [OF n r] probe_of [OF mem(1)]] r show ?thesis by blast
  qed
  have versions: "\<forall>n \<in> set (ul_Nodes plan). ValidateUpgradeCompatibility (un_CurrentVersion n) (un_TargetVersion n) = None"
    using pl ok(1) by (simp add: planned_def nodes)
  show ?thesis
    using blocked all mem primary others versions ok(5) p(2) unfolding has_temporary_def follows_node_def by blast
qed

definition upgrade_machine :: "string \<Rightarrow> string \<Rightarrow> machine" where
  "upgrade_machine mid ip = no_machine\<lparr>mach_ID := mid, mach_Name := ''host-'' @ mid, mach_IP := ip, mach_Cluster := ''c1''\<rparr>"

lemma upgrade_machine_simps [simp]:
  "mach_ID (upgrade_machine mid ip) = mid" "mach_IP (upgrade_machine mid ip) = ip" "mach_Cluster (upgrade_machine mid ip) = ''c1''"
  by (simp_all add: upgrade_machine_def)

definition upgrade_instance :: "string \<Rightarrow> instance_rec" where
  "upgrade_instance mid = a_running_instance\<lparr>inst_MachineID := mid, inst_Port := 3306, inst_BaseDir := ''/mysql'', inst_Version := ''8.0.36''\<rparr>"

definition upgrade_world :: world where
  "upgrade_world = (empty_world 0)\<lparr>w_machines := [upgrade_machine ''m1'' ''1'', upgrade_machine ''m2'' ''2''],
     w_instances := [upgrade_instance ''m1'', upgrade_instance ''m2''],
     w_configs := [no_config\<lparr>vc_ID := 1, vc_ClusterID := ''c1'', vc_VIPAddress := ''9'', vc_Enabled := True\<rparr>]\<rparr>"

definition probe_reply :: "string \<Rightarrow> string" where
  "probe_reply ip = join [CHR 0x09] (if ip = ''1''
     then [''GMHA_CLUSTER_UPGRADE_NODE'', ''h1'', ''8.0.36'', ''1'', ''0'', ''0'', ''ON'', [], ''0'', [], [], ''0'', ''0'']
     else [''GMHA_CLUSTER_UPGRADE_NODE'', ''h2'', ''8.0.36'', ''2'', ''1'', ''1'', ''ON'', ''1'', ''3306'', ''ON'', ''ON'', ''1'', ''0''])"

definition upgrade_agent :: agent where
  "upgrade_agent log call = \<lparr>rp_Create = Inr ''t'',
     rp_Wait = Inr \<lparr>td_Status = StatusSuccess, td_Steps = [case call of
         ExecTask ip _ _ operation _ _ _ \<Rightarrow> if operation = ''vip_scan'' then (if ip = ''1'' then vipScanMarker @ ''eth0'' else []) else probe_reply ip
       | _ \<Rightarrow> []], td_Events = []\<rparr>,
     rp_Elapsed = 0\<rparr>"

definition upgrade_sample :: upgrade_env where
  "upgrade_sample = \<lparr>ue_agent = upgrade_agent, ue_channels = RegisterAgentForMachineWithCapabilities ''a2'' ''m2'' 2 [CapabilityMySQLDefaultsFile]
       (RegisterAgentForMachineWithCapabilities ''a1'' ''m1'' 1 [CapabilityMySQLDefaultsFile] no_channels),
     ue_infos = (\<lambda>_. Inr (Some old_host)), ue_selector = \<lparr>ps_softwareDir = ''/opt''\<rparr>, ue_listing = Inr software_dir,
     ue_stat = (\<lambda>_. None), ue_ids = (\<lambda>n. ''fo-'' @ show_nat n)\<rparr>"

definition upgrade_request_sample :: upgrade_request where
  "upgrade_request_sample = \<lparr>uq_Cluster = ''c1'', uq_TargetVersion = ''8.0.40'', uq_Port = 3306, uq_RiskAcknowledged = True\<rparr>"

definition sample_probe :: "string \<Rightarrow> upgrade_probe" where
  "sample_probe ip = (case parse_probe (if ip = ''1'' then ''m1'' else ''m2'')
     (probe_marker \<lparr>td_Status = StatusSuccess, td_Steps = [probe_reply ip], td_Events = []\<rparr>) of Some p \<Rightarrow> p | None \<Rightarrow> no_probe)"

lemma sample_parse:
  "parse_probe ''m1'' (probe_marker \<lparr>td_Status = StatusSuccess, td_Steps = [probe_reply ''1''], td_Events = []\<rparr>) = Some (sample_probe ''1'')"
  "parse_probe ''m2'' (probe_marker \<lparr>td_Status = StatusSuccess, td_Steps = [probe_reply ''2''], td_Events = []\<rparr>) = Some (sample_probe ''2'')"
  by code_simp+

lemma sample_send: "send upgrade_agent call w = (Inr (upgrade_agent [] call), w\<lparr>w_agent_log := w_agent_log w @ [(call, upgrade_agent [] call)]\<rparr>)"
proof -
  have "upgrade_agent log call = upgrade_agent [] call" for log by (simp add: upgrade_agent_def)
  moreover have "rp_Elapsed (upgrade_agent log call) = 0" for log by (simp add: upgrade_agent_def)
  ultimately show ?thesis by (cases w) (auto simp: send_def Let_def)
qed

lemma sample_reply:
  "rp_Create (upgrade_agent [] call) = Inr ''t''"
  "rp_Wait (upgrade_agent [] (ExecTask ip command p ''vip_scan'' d e t)) =
     Inr \<lparr>td_Status = StatusSuccess, td_Steps = [if ip = ''1'' then vipScanMarker @ ''eth0'' else []], td_Events = []\<rparr>"
  "rp_Wait (upgrade_agent [] (ExecTask ip command p ''mysql_cluster_upgrade_probe'' d e t)) =
     Inr \<lparr>td_Status = StatusSuccess, td_Steps = [probe_reply ip], td_Events = []\<rparr>"
  by (simp_all add: upgrade_agent_def)

lemma sample_probing:
  "\<exists>l. probeNode upgrade_agent (upgrade_machine ''m1'' ''1'') inst parent w = (Inr (sample_probe ''1''), w\<lparr>w_agent_log := l\<rparr>)"
  "\<exists>l. probeNode upgrade_agent (upgrade_machine ''m2'' ''2'') inst parent w = (Inr (sample_probe ''2''), w\<lparr>w_agent_log := l\<rparr>)"
proof -
  have run: "\<exists>l. probeNode upgrade_agent m inst parent w = (Inr p, w\<lparr>w_agent_log := l\<rparr>)"
    if "parse_probe (mach_ID m) (probe_marker \<lparr>td_Status = StatusSuccess, td_Steps = [probe_reply (mach_IP m)], td_Events = []\<rparr>) = Some p" for m p
    using that by (auto simp: probeNode_def on_ok_def of_result_def sample_send sample_reply)
  show "\<exists>l. probeNode upgrade_agent (upgrade_machine ''m1'' ''1'') inst parent w = (Inr (sample_probe ''1''), w\<lparr>w_agent_log := l\<rparr>)"
    "\<exists>l. probeNode upgrade_agent (upgrade_machine ''m2'' ''2'') inst parent w = (Inr (sample_probe ''2''), w\<lparr>w_agent_log := l\<rparr>)"
    by (rule run, simp add: upgrade_machine_def sample_parse)+
qed

definition sample_instances :: "(string \<times> instance_rec) list" where
  "sample_instances = [(''m2'', upgrade_instance ''m2''), (''m1'', upgrade_instance ''m1'')]"

definition sample_acc :: plan_acc where
  "sample_acc = probed_machine upgrade_sample ''8.0.40'' (upgrade_machine ''m2'' ''2'') (upgrade_instance ''m2'') (sample_probe ''2'')
     (probed_machine upgrade_sample ''8.0.40'' (upgrade_machine ''m1'' ''1'') (upgrade_instance ''m1'') (sample_probe ''1'')
       (new_plan ''c1'' ''8.0.40'' 3306 0, [], []))"

lemma sample_capable:
  "MachineCapability ''m1'' CapabilityMySQLDefaultsFile (ue_channels upgrade_sample) = (True, [])"
  "MachineCapability ''m2'' CapabilityMySQLDefaultsFile (ue_channels upgrade_sample) = (True, [])"
  by code_simp+

lemma sample_loop:
  "\<exists>l. fold_ok (plan_machine upgrade_sample ''8.0.40'' parent sample_instances) [upgrade_machine ''m1'' ''1'', upgrade_machine ''m2'' ''2'']
     (new_plan ''c1'' ''8.0.40'' 3306 0, [], []) w = (Inr sample_acc, w\<lparr>w_agent_log := l\<rparr>)"
proof -
  obtain l1 where one: "probeNode upgrade_agent (upgrade_machine ''m1'' ''1'') (upgrade_instance ''m1'') parent w = (Inr (sample_probe ''1''), w\<lparr>w_agent_log := l1\<rparr>)"
    using sample_probing(1) by blast
  obtain l2 where two: "probeNode upgrade_agent (upgrade_machine ''m2'' ''2'') (upgrade_instance ''m2'') parent (w\<lparr>w_agent_log := l1\<rparr>) =
      (Inr (sample_probe ''2''), w\<lparr>w_agent_log := l2\<rparr>)"
    using sample_probing(2) [of _ _ "w\<lparr>w_agent_log := l1\<rparr>"] by fastforce
  have ag: "ue_agent upgrade_sample = upgrade_agent" by (simp add: upgrade_sample_def)
  let ?acc = "probed_machine upgrade_sample ''8.0.40'' (upgrade_machine ''m1'' ''1'') (upgrade_instance ''m1'') (sample_probe ''1'') (new_plan ''c1'' ''8.0.40'' 3306 0, [], [])"
  have "plan_machine upgrade_sample ''8.0.40'' parent sample_instances (upgrade_machine ''m1'' ''1'') (new_plan ''c1'' ''8.0.40'' 3306 0, [], []) w =
      (Inr ?acc, w\<lparr>w_agent_log := l1\<rparr>)"
    by (simp add: plan_machine_def sample_instances_def sample_capable with_result_def ag one)
  moreover have "plan_machine upgrade_sample ''8.0.40'' parent sample_instances (upgrade_machine ''m2'' ''2'') ?acc (w\<lparr>w_agent_log := l1\<rparr>) =
      (Inr sample_acc, w\<lparr>w_agent_log := l2\<rparr>)"
    by (cases ?acc) (simp add: plan_machine_def sample_instances_def sample_capable with_result_def ag two sample_acc_def)
  ultimately show ?thesis by (auto simp: on_ok_def)
qed

definition sample_judged :: upgrade_plan where
  "sample_judged = (case sample_acc of (plan, probes, owners) \<Rightarrow> judge_topology 2 probes plan)"

lemma sample_judged_facts: "ul_Executable sample_judged" "ul_OriginalPrimaryMachineID sample_judged = ''m1''" "ul_TemporaryPrimaryMachineID sample_judged = ''m2''"
  by code_simp+

lemma sample_scan_machine:
  "\<exists>l c'. scan_machine upgrade_agent parent ''9'' (upgrade_machine mid ip) hs (w, c) =
     (Inr (hs @ (if ip = ''1'' then [(mid, ''eth0'')] else [])), (w\<lparr>w_agent_log := l\<rparr>, c'))"
proof -
  have iface: "vipScanInterface [vipScanMarker @ ''eth0''] = ''eth0''" "vipScanInterface [[]] = []" by code_simp+
  obtain a b where c: "c = (a, b)" by (cases c)
  let ?call = "ExecTask ip (vipScanCommand ''9'') parent ''vip_scan'' (''detect VIP '' @ ''9'') ''check the addresses of the machine'' (30 * second)"
  have "scan_machine upgrade_agent parent ''9'' (upgrade_machine mid ip) hs (w, c) =
     (Inr (hs @ (if ip = ''1'' then [(mid, ''eth0'')] else [])), (w\<lparr>w_agent_log := w_agent_log w @ [(?call, upgrade_agent [] ?call)]\<rparr>, (Suc a, b)))"
    by (cases "ip = ''1''")
      (simp_all add: c scan_machine_def in_world_def on_ok_def sample_send sample_reply count_created_def iface [simplified] Let_def)
  then show ?thesis by (intro exI)
qed

lemma sample_scan:
  assumes "w_faults w = []" and "w_machines w = w_machines upgrade_world" and "w_configs w = w_configs upgrade_world" and "w_bindings w = []"
  shows "\<exists>st w'. Scan (Some upgrade_agent) ''c1'' w = (Inr [st], w') \<and>
     vb_VIPAddress st = ''9'' \<and> vb_VIPStatus st = VipStatusBound \<and> vb_CurrentHolderMachineID st = ''m1'' \<and> w_faults w' = []"
proof -
  let ?cfg = "no_config\<lparr>vc_ID := 1, vc_ClusterID := ''c1'', vc_VIPAddress := ''9'', vc_Enabled := True\<rparr>"
  let ?ms = "[upgrade_machine ''m1'' ''1'', upgrade_machine ''m2'' ''2'']"
  have c1: "trim_space ''c1'' = ''c1''" by code_simp
  have configs: "ListVIPConfigs ''c1'' w = (Inr [?cfg], w)"
    using assms by (simp add: ListVIPConfigs_def upgrade_world_def c1)
  have machines: "machines_List w = (Inr ?ms, w)"
    using assms by (simp_all add: machines_List_def upgrade_world_def upgrade_machine_def)
  let ?call = "TrackingTask ''vip_scan'' ''scan the VIP bindings of the cluster'' ''c1''"
  let ?w = "w\<lparr>w_agent_log := w_agent_log w @ [(?call, upgrade_agent [] ?call)]\<rparr>"
  obtain l1 k1 where one: "scan_machine upgrade_agent ''t'' ''9'' (upgrade_machine ''m1'' ''1'') [] (?w, 0, 0) = (Inr [(''m1'', ''eth0'')], (w\<lparr>w_agent_log := l1\<rparr>, k1))"
    using sample_scan_machine [of "''t''" "''m1''" "''1''" "[]" ?w "(0, 0)"] by auto
  obtain l2 k2 where two: "scan_machine upgrade_agent ''t'' ''9'' (upgrade_machine ''m2'' ''2'') [(''m1'', ''eth0'')] (w\<lparr>w_agent_log := l1\<rparr>, k1) =
      (Inr [(''m1'', ''eth0'')], (w\<lparr>w_agent_log := l2\<rparr>, k2))"
    using sample_scan_machine [of "''t''" "''m2''" "''2''" "[(''m1'', ''eth0'')]" "w\<lparr>w_agent_log := l1\<rparr>" k1] by auto
  let ?st = "scan_result ''c1'' ?cfg ''t'' (expected_holder [] ''9'') (w_clock w) [(''m1'', ''eth0'')]"
  have prev: "GetVIPBindingStates ''c1'' ?w = (Inr [], ?w)" using assms by (simp add: GetVIPBindingStates_def)
  have "\<exists>v k. scan_config upgrade_agent ''c1'' ?ms [] ''t'' ?cfg [] (?w, 0, 0) = (Inr [?st], (v, k)) \<and> w_faults v = []"
    using assms by (simp add: scan_config_def on_ok_def with_result_def in_world_def one two UpsertVIPBindingState_def
        InsertVIPOperationLog_def upsert_binding_row_def Let_def)
  then obtain v a b where body: "scan_body upgrade_agent ''c1'' [?cfg] ?ms ''t'' (?w, 0, 0) = (Inr [?st], (v, a, b))" "w_faults v = []"
    by (auto simp: scan_body_def with_result_def in_world_def prev on_ok_def)
  have "Scan (Some upgrade_agent) ''c1'' w = (Inr [?st], snd (send upgrade_agent (FinalizeTracking ''t'' a b) v))"
    by (simp add: Scan_def on_ok_def configs machines sample_send sample_reply with_counts_def body)
  moreover have "vb_VIPAddress ?st = ''9''" "vb_VIPStatus ?st = VipStatusBound" "vb_CurrentHolderMachineID ?st = ''m1''"
    by (simp_all add: scan_result_def Let_def scan_status_def expected_holder_def no_binding_def)
  moreover have "w_faults (snd (send upgrade_agent (FinalizeTracking ''t'' a b) v)) = []"
    by (simp add: sample_send body)
  ultimately show ?thesis by blast
qed

lemma sample_buildPlan: "\<exists>plan w'. buildPlan upgrade_sample upgrade_request_sample [] upgrade_world = (Inr plan, w') \<and> ul_Executable plan \<and>
    ul_OriginalPrimaryMachineID plan = ''m1'' \<and> ul_TemporaryPrimaryMachineID plan = ''m2'' \<and> w_faults w' = []"
proof -
  let ?ms = "[upgrade_machine ''m1'' ''1'', upgrade_machine ''m2'' ''2'']"
  have trims: "trim_space ''c1'' = ''c1''" "trim_space ''8.0.40'' = ''8.0.40''" by code_simp+
  have list: "ListClusterMachines ''c1'' upgrade_world = (Inr ?ms, upgrade_world)"
    by (simp add: ListClusterMachines_def trims on_ok_def machines_List_def upgrade_world_def empty_world_def) (simp add: upgrade_machine_def no_machine_def)
  have insts: "instances_List upgrade_world = (Inr [upgrade_instance ''m1'', upgrade_instance ''m2''], upgrade_world)"
    by (simp add: instances_List_def upgrade_world_def empty_world_def upgrade_instance_def)
  have first: "\<not> machine_first (upgrade_machine ''m2'' ''2'') (upgrade_machine ''m1'' ''1'')" "port_instances 3306 [upgrade_instance ''m1'', upgrade_instance ''m2''] = sample_instances"
    by code_simp+
  obtain l where loop: "fold_ok (plan_machine upgrade_sample ''8.0.40'' [] sample_instances) ?ms (new_plan ''c1'' ''8.0.40'' 3306 0, [], []) upgrade_world =
      (Inr sample_acc, upgrade_world\<lparr>w_agent_log := l\<rparr>)"
    using sample_loop by blast
  obtain plan0 probes owners where acc: "sample_acc = (plan0, probes, owners)" by (metis prod_cases3)
  let ?w = "upgrade_world\<lparr>w_agent_log := l\<rparr>"
  obtain st w' where scan: "Scan (Some upgrade_agent) ''c1'' ?w = (Inr [st], w')"
      and st: "vb_VIPAddress st = ''9''" "vb_VIPStatus st = VipStatusBound" "vb_CurrentHolderMachineID st = ''m1''" "w_faults w' = []"
    using sample_scan [of ?w] by (auto simp: upgrade_world_def empty_world_def)
  have enabled: "ListVIPConfigs ''c1'' ?w = (Inr [no_config\<lparr>vc_ID := 1, vc_ClusterID := ''c1'', vc_VIPAddress := ''9'', vc_Enabled := True\<rparr>], ?w)"
    by (simp add: ListVIPConfigs_def upgrade_world_def empty_world_def trims)
  have ag: "ue_agent upgrade_sample = upgrade_agent" by (simp add: upgrade_sample_def)
  have bound: "vip_at_primary ''m1'' [st] ''9''" by (simp add: vip_at_primary_def st)
  have "check_vips upgrade_sample ''c1'' sample_judged ?w = (Inr sample_judged, w')"
    by (simp add: check_vips_def trims with_result_def enabled ag scan sample_judged_facts bound block_when_def)
  moreover have "buildPlan upgrade_sample upgrade_request_sample [] upgrade_world = 
      on_ok (check_vips upgrade_sample ''c1'' sample_judged) (\<lambda>plan. ret (plan\<lparr>ul_Warnings := ul_Warnings plan @ closing_warnings\<rparr>)) ?w"
  proof -
    have clock: "w_clock upgrade_world = 0" by (simp add: upgrade_world_def empty_world_def)
    show ?thesis
      by (simp add: buildPlan_def Let_def upgrade_request_sample_def trims clock)
        (simp add: on_ok_def list insts first loop acc sample_judged_def numeral_2_eq_2 del: fold_ok.simps)
  qed
  ultimately show ?thesis using sample_judged_facts st(4) by (auto simp: on_ok_def)
qed

theorem upgrade_plan_sound_witness:
  "\<exists>plan w'. buildPlan upgrade_sample upgrade_request_sample [] upgrade_world = (Inr plan, w') \<and> ul_BlockingReasons plan = [] \<and>
     (\<exists>t \<in> set (ul_Nodes plan). un_MachineID t = ''m2'' \<and> un_DelaySeconds t = 0)"
proof -
  obtain plan w' where plan: "buildPlan upgrade_sample upgrade_request_sample [] upgrade_world = (Inr plan, w')" "ul_Executable plan"
      "ul_TemporaryPrimaryMachineID plan = ''m2''"
    using sample_buildPlan by blast
  have "distinct (map mach_ID (w_machines upgrade_world))" by (simp add: upgrade_world_def)
  from upgrade_plan_sound [OF plan(1) this plan(2)] plan(1,3) show ?thesis by metis
qed

end
