(* ===== verification/Upgrade_Facts.thy ===== *)
theory Upgrade_Facts
  imports Upgrade_Run Upgrade_Plan_Facts Arch_Invariant
begin

text \<open>
  What a rolling upgrade promises. The machines an upgrade task was sent for are read off the agent log; every other
  operation of the upgrade, the switchovers included, leaves them alone: the frame is an instance of
  \<open>execution_invariant\<close>, lifted to the state of the upgrade. The order of the upgrades follows from the
  triples of the stages.
\<close>

lemmas op_steps = preserves_on_ok preserves_with_result preserves_fold_ok preserves_for_ok preserves_if preserves_case_option
  preserves_case_sum preserves_case_prod

subsection \<open>The frame\<close>

definition upgrade_sent :: "agent_call \<Rightarrow> string list" where
  "upgrade_sent call = (case call of UpgradeTask mid _ _ _ _ _ _ _ \<Rightarrow> [mid] | _ \<Rightarrow> [])"

definition upgraded :: "world \<Rightarrow> string list" where
  "upgraded w = concat (map (upgrade_sent \<circ> fst) (w_agent_log w))"

definition steady :: "string list \<Rightarrow> machine list \<Rightarrow> world \<Rightarrow> bool" where
  "steady U M w \<longleftrightarrow> upgraded w = U \<and> w_machines w = M"

named_theorems upgrade_rules \<open>operations that send no upgrade task\<close>

interpretation upgrade_frame: execution_invariant "steady U M" "\<lambda>_. True" for U M
proof
  show "steady U M (w\<lparr>w_agent_log := w_agent_log w @ [(call, r)], w_clock := t\<rparr>)" if "steady U M w" "run_call (\<lambda>_. True) call" for w call r t
    using that by (cases call) (simp_all add: steady_def upgraded_def upgrade_sent_def run_call_def)
qed (auto simp: steady_def upgraded_def upsert_binding_row_def upsert_run_row_def Let_def)

lemma frame_send: "upgrade_sent call = [] \<Longrightarrow> preserves (steady U M) (send ag call)"
  by (rule validI) (auto simp: send_def Let_def steady_def upgraded_def)

text \<open>What a triple of a world says about a state over it.\<close>

lemma valid_on_tw:
  assumes "valid I m Q" and "\<And>s w. K (s\<lparr>tw_world := w\<rparr>) = K s"
  shows "valid (\<lambda>s. I (tw_world s) \<and> K s) (on_tw m) (\<lambda>r s. Q r (tw_world s) \<and> K s)"
  by (rule validI) (auto simp: on_tw_def assms(2) split: prod.splits dest: validD [OF assms(1)])

text \<open>The run's part: the machines, the two primaries, the machines not upgraded yet and the stages still to come.\<close>

definition roles :: "string list \<Rightarrow> string \<Rightarrow> string \<Rightarrow> string list \<Rightarrow> string list \<Rightarrow> upgrade_run \<Rightarrow> bool" where
  "roles ids orig tmp todo codes run \<longleftrightarrow> run_members run = ids \<and> uu_OriginalPrimaryMachineID run = orig \<and>
     uu_TemporaryPrimaryMachineID run = tmp \<and> uu_Status run \<noteq> clusterUpgradeSucceeded \<and> (\<forall>n \<in> set (uu_Nodes run). un_MachineID n \<in> set todo \<longrightarrow> un_UpgradeTaskID n = []) \<and>
     (\<forall>c \<in> set codes. \<not> stage_done c run)"

definition progress :: "string list \<Rightarrow> machine list \<Rightarrow> string list \<Rightarrow> string \<Rightarrow> string \<Rightarrow> string list \<Rightarrow> string list \<Rightarrow> upgrade_state \<Rightarrow> bool" where
  "progress U M ids orig tmp todo codes = (\<lambda>s. steady U M (tw_world s) \<and> roles ids orig tmp todo codes (us_run s))"

lemma progress_on_tw [upgrade_rules]:
  "preserves (steady U M) m \<Longrightarrow> preserves (progress U M ids orig tmp todo codes) (on_tw m)"
  unfolding progress_def by (rule valid_on_tw) simp_all

lemma progress_modify:
  "(\<And>s. tw_world (f s) = tw_world s) \<Longrightarrow> (\<And>s. us_run (f s) = us_run s) \<Longrightarrow> preserves (progress U M ids orig tmp todo codes) (modify f)"
  by (rule valid_modify) (simp add: progress_def)

lemma progress_db [upgrade_rules]: "preserves (progress U M ids orig tmp todo codes) (on_tw db_call)"
  by (intro upgrade_rules preserves_db_call exec_rules)

lemma progress_store [upgrade_rules]:
  "preserves (progress U M ids orig tmp todo codes) (us_query h)"
  "preserves (progress U M ids orig tmp todo codes) (us_statement (change_task tid f))"
  "preserves (progress U M ids orig tmp todo codes) (fresh_id env)"
  "preserves (progress U M ids orig tmp todo codes) (clearActive run)"
  unfolding us_query_def us_statement_def fresh_id_def clearActive_def
  by (intro op_rules upgrade_rules progress_modify exec_rules; simp add: change_task_def)+
    (rule validI, auto simp: progress_def)+

lemma progress_set_upgrade:
  "(\<And>now run. roles ids orig tmp todo codes run \<Longrightarrow> roles ids orig tmp todo codes (f now run)) \<Longrightarrow>
   preserves (progress U M ids orig tmp todo codes) (set_upgrade f)"
  unfolding set_upgrade_def by (rule valid_modify) (simp add: progress_def)

lemma update_node_members: "(\<And>n. un_MachineID (f n) = un_MachineID n) \<Longrightarrow> map un_MachineID (update_node mid f ns) = map un_MachineID ns"
  by (induction ns) auto

lemma update_node_in: "n \<in> set (update_node mid f ns) \<Longrightarrow> n \<in> set ns \<or> (\<exists>n' \<in> set ns. un_MachineID n' = mid \<and> n = f n')"
  by (induction ns) (auto split: if_splits)

lemma progress_set_node:
  "(\<And>n. un_MachineID (f n) = un_MachineID n) \<Longrightarrow> (\<And>n. un_UpgradeTaskID (f n) = un_UpgradeTaskID n) \<Longrightarrow>
   preserves (progress U M ids orig tmp todo codes) (set_node mid f)"
  unfolding set_node_def
  by (rule progress_set_upgrade) (auto simp: roles_def run_members_def update_node_members stage_done_def dest!: update_node_in)

lemma progress_sync [upgrade_rules]:
  "preserves (progress U M ids orig tmp todo codes) syncRun" "preserves (progress U M ids orig tmp todo codes) appendRunEvent"
  unfolding syncRun_def appendRunEvent_def get_tracking_def by (intro op_rules upgrade_rules exec_rules)+

lemma progress_touch [upgrade_rules]:
  "preserves (progress U M ids orig tmp todo codes) touch_run" "preserves (progress U M ids orig tmp todo codes) (mark_node mid status err)"
  unfolding touch_run_def mark_node_def
  by (intro op_rules upgrade_rules exec_rules progress_set_upgrade progress_set_node; simp add: roles_def run_members_def stage_done_def)+

lemma progress_control [upgrade_rules]:
  "preserves (progress U M ids orig tmp todo codes) m \<Longrightarrow> preserves (progress U M ids orig tmp todo codes) (or_node_failed mid what m)"
  "preserves J m' \<Longrightarrow> preserves J (wrap_error what m')"
  unfolding or_node_failed_def node_failed_def wrap_error_def
  by (intro op_rules upgrade_rules exec_rules | assumption)+

subsection \<open>Operations that send no upgrade task\<close>

lemma inv_of_error [upgrade_rules]: "preserves J (of_error e)"
  unfolding of_error_def by (intro op_rules exec_rules)

lemma frame_resolve [upgrade_rules]: "preserves (steady U M) (ResolveMySQLInstance sel port)"
  unfolding ResolveMySQLInstance_def by (intro op_rules exec_rules)

lemma frame_resolve_upgrade [upgrade_rules]: "preserves (steady U M) (resolveMySQLUpgrade env name port package)"
  unfolding resolveMySQLUpgrade_def Let_def
  by (intro op_rules exec_rules upgrade_rules)

lemma frame_probe [upgrade_rules]: "preserves (steady U M) (probeNode ag m inst parent)"
  unfolding probeNode_def by (intro op_rules exec_rules upgrade_frame.inv_send) simp

lemma frame_plan [upgrade_rules]: "preserves (steady U M) (buildPlan env req parent)"
  unfolding buildPlan_def check_vips_def plan_machine_def ListClusterMachines_def Let_def
  by (intro op_rules exec_rules upgrade_rules)

lemma frame_switch [upgrade_rules]:
  "preserves (steady U M) (startArchitectureAdjustmentWithLock env planID newid cid req lockID)"
  unfolding startArchitectureAdjustmentWithLock_def
proof (intro preserves_if exec_rules valid_on_ok [where R = "\<lambda>_. steady U M"] preserves_case_prod)
  show "preserves (steady U M) (startArchitectureAdjustment ag channels planID newid cid req)" for ag channels
    using upgrade_frame.inv_started by (blast intro: validI)
  have idle: "preserves (steady U M) (idle_operator m)" if "preserves (steady U M) m" for m :: "'a act"
  proof (rule validI)
    fix w r w'
    assume w: "steady U M w" and run: "idle_operator m w = (r, w')"
    obtain q v where m: "m (w\<lparr>w_operator := []\<rparr>) = (q, v)" by (metis prod.collapse)
    have "steady U M v" using w by (intro validD [OF that _ m]) (simp add: steady_def upgraded_def)
    with run m show "steady U M w'" by (auto simp: idle_operator_def steady_def upgraded_def)
  qed
  show "preserves (steady U M) (idle_operator (executeArchitectureAdjustment ag run req' lid))" for ag run req' lid
    by (intro idle upgrade_frame.inv_execute TrueI)
qed

lemma frame_await [upgrade_rules]: "preserves (steady U M) (await_switchover cid rid n)"
proof (induction n)
  case 0
  show ?case unfolding await_switchover.simps by (rule exec_rules)
next
  case (Suc n)
  show ?case unfolding await_switchover.simps HA_GetArchitectureRun_def Let_def
    by (intro op_rules exec_rules Suc) (simp add: steady_def upgraded_def)
qed

lemma progress_send:
  "upgrade_sent call = [] \<Longrightarrow> preserves (progress U M ids orig tmp todo codes) (tw_send env call)"
  unfolding tw_send_def by (intro upgrade_rules frame_send)

lemma progress_wait [upgrade_rules]: "preserves (progress U M ids orig tmp todo codes) (wait_success env tid t)"
  unfolding wait_success_def by (intro op_rules upgrade_rules exec_rules progress_send) (simp add: upgrade_sent_def)

lemma progress_attach [upgrade_rules]: "preserves (progress U M ids orig tmp todo codes) (attach_children env tids)"
  unfolding attach_children_def by (intro op_rules upgrade_rules exec_rules progress_send) (simp add: upgrade_sent_def)

lemma progress_verify [upgrade_rules]:
  "preserves (progress U M ids orig tmp todo codes) (verifyReplicaNode env mid p t)"
  "preserves (progress U M ids orig tmp todo codes) (verifyPrimaryNode env mid t)"
  "preserves (progress U M ids orig tmp todo codes) (verifyDetachedOriginalPrimary env)"
  unfolding verifyReplicaNode_def verifyPrimaryNode_def verifyDetachedOriginalPrimary_def probe_member_def as_replica_def as_primary_def
  by (intro op_rules upgrade_rules exec_rules progress_set_node; simp)+

lemma progress_verify_replicas [upgrade_rules]:
  "preserves (progress U M ids orig tmp todo codes) (verify_replicas env)"
  "preserves (progress U M ids orig tmp todo codes) (verifyUpgradedReplicas env)"
  "preserves (progress U M ids orig tmp todo codes) (verifyOriginalPrimary env)"
  unfolding verifyUpgradedReplicas_def verify_replicas_def verifyOriginalPrimary_def by (intro op_rules upgrade_rules exec_rules)+

lemma progress_final [upgrade_rules]: "preserves (progress U M ids orig tmp todo codes) (finalClusterVerify env)"
  unfolding finalClusterVerify_def by (intro op_rules upgrade_rules exec_rules)

lemma progress_switchover [upgrade_rules]: "preserves (progress U M ids orig tmp todo codes) (executeSwitchover env a b d)"
  unfolding executeSwitchover_def start_switchover_def
  by (intro op_rules upgrade_rules exec_rules progress_set_upgrade)
    (auto simp: note_switchover_def Let_def roles_def run_members_def stage_done_def)

lemma progress_switchovers [upgrade_rules]:
  "preserves (progress U M ids orig tmp todo codes) (switchToTemporaryPrimary env)"
  "preserves (progress U M ids orig tmp todo codes) (switchBackOriginalPrimary env)"
  unfolding switchToTemporaryPrimary_def switchBackOriginalPrimary_def by (intro op_rules upgrade_rules exec_rules)+

lemma progress_reattach [upgrade_rules]: "preserves (progress U M ids orig tmp todo codes) (attachOriginalPrimaryAsReplica env)"
  unfolding attachOriginalPrimaryAsReplica_def attached_def Let_def
  by (intro op_rules upgrade_rules exec_rules upgrade_frame.inv_collect)

lemma renew_frame:
  assumes "\<And>s w e t. K (s\<lparr>tw_world := w, us_lock_error := e, us_renewed := t\<rparr>) = K s"
  shows "preserves (\<lambda>s. steady U M (tw_world s) \<and> K s) renew_lease"
proof -
  have "preserves (steady U M) (upgrade_renew_at cid lid t)" for cid lid t
    unfolding upgrade_renew_at_def
    by (intro preserves_on_ok preserves_db_call exec_rules) (rule validI, auto simp: steady_def upgraded_def split: sum.splits)
  then have ticks: "preserves (steady U M) (for_ok (upgrade_renew_at cid lid) ts)" for cid lid ts
    by (intro op_rules)
  show ?thesis
  proof (rule validI)
    fix s r s'
    assume s: "steady U M (tw_world s) \<and> K s" and run: "renew_lease s = (r, s')"
    obtain q v where on: "for_ok (upgrade_renew_at (uu_Cluster (us_run s)) (uu_RunID (us_run s))) (renewal_ticks (us_renewed s) (us_now s)) (tw_world s) = (q, v)"
      by (metis prod.collapse)
    have "steady U M v" using validD [OF ticks _ on] s by simp
    with s run on assms show "steady U M (tw_world s') \<and> K s'"
      by (auto simp: renew_lease_def Let_def on_tw_def split: if_splits)
  qed
qed

lemma progress_renew [upgrade_rules]: "preserves (progress U M ids orig tmp todo codes) renew_lease"
  unfolding progress_def by (rule renew_frame) simp

lemma progress_release [upgrade_rules]: "preserves (progress U M ids orig tmp todo codes) release_lease"
  unfolding release_lease_def by (intro preserves_on_ok preserves_if upgrade_rules exec_rules progress_modify) simp_all

lemma progress_capability [upgrade_rules]: "preserves (progress U M ids orig tmp todo codes) (require_capability env m)"
  unfolding require_capability_def by (intro op_steps exec_rules)

lemma progress_create_precheck [upgrade_rules]: "preserves (progress U M ids orig tmp todo codes) (CreateMySQLUpgradePrecheck env req)"
  unfolding CreateMySQLUpgradePrecheck_def
  by (intro op_steps upgrade_rules exec_rules progress_send progress_modify) (simp_all add: upgrade_sent_def)

lemma progress_prechecks [upgrade_rules]: "preserves (progress U M ids orig tmp todo codes) (executeAllPrechecks env)"
proof -
  have "preserves (progress U M ids orig tmp todo codes) (start_precheck env mid)" for mid
    unfolding start_precheck_def by (intro op_steps upgrade_rules exec_rules progress_set_node) simp_all
  moreover have "preserves (progress U M ids orig tmp todo codes) (finish_precheck env mid)" for mid
    unfolding finish_precheck_def by (intro op_steps upgrade_rules exec_rules)
  ultimately show ?thesis unfolding executeAllPrechecks_def by (intro op_steps exec_rules)
qed

subsection \<open>The upgrade task of a machine\<close>

text \<open>The id is the primary key of a machine; no machine has the id of another as its name or address.\<close>

definition plain_machines :: "machine list \<Rightarrow> bool" where
  "plain_machines M \<longleftrightarrow> distinct (map mach_ID M) \<and>
     (\<forall>m \<in> set M. trim_space (mach_ID m) = mach_ID m \<and> (\<forall>m' \<in> set M. machine_selected (mach_ID m) m' \<longrightarrow> mach_ID m' = mach_ID m))"

lemma plain_machinesD:
  assumes "plain_machines M" and "mid \<in> mach_ID ` set M"
  shows "trim_space mid = mid" and "m \<in> set M \<Longrightarrow> machine_selected mid m \<Longrightarrow> mach_ID m = mid"
proof -
  from assms obtain x where x: "x \<in> set M" "mid = mach_ID x" by blast
  from assms(1) have all: "\<forall>m \<in> set M. trim_space (mach_ID m) = mach_ID m \<and> (\<forall>m' \<in> set M. machine_selected (mach_ID m) m' \<longrightarrow> mach_ID m' = mach_ID m)"
    unfolding plain_machines_def by (rule conjunct2)
  from bspec [OF all x(1)] x(2) show "trim_space mid = mid" "m \<in> set M \<Longrightarrow> machine_selected mid m \<Longrightarrow> mach_ID m = mid" by simp_all
qed

lemma machines_ListD: "machines_List w = (Inr items, w') \<Longrightarrow> set items = set (w_machines w) \<and> w_machines w' = w_machines w"
  unfolding machines_List_def by (elim query_cases) auto

lemma of_error_InrD: "of_error e w = (Inr x, w') \<Longrightarrow> e = None \<and> w' = w"
  by (auto simp: of_error_def split: option.splits)

lemma ResolveMySQLInstance_InrD:
  assumes "ResolveMySQLInstance sel port w = (Inr (m, inst), w')"
  shows "m \<in> set (w_machines w) \<and> machine_selected sel m \<and> inst_MachineID inst = mach_ID m \<and> inst_Port inst = port"
proof -
  from assms obtain items v where list: "machines_List w = (Inr items, v)"
    and rest: "(case find (machine_selected sel) items of
       None \<Rightarrow> fail_with (Errorf ''machine %s not found'' [sel])
     | Some m \<Rightarrow> on_ok (instances_Get (mach_ID m) port) (\<lambda>found. case found of
         None \<Rightarrow> fail_with (Error ''mysql instance not found'')
       | Some inst \<Rightarrow> ret (m, inst))) v = (Inr (m, inst), w')"
    unfolding ResolveMySQLInstance_def by (blast dest: on_ok_InrD)
  from rest have m: "find (machine_selected sel) items = Some m" and inst: "instances_Get (mach_ID m) port v = (Inr (Some inst), w')"
    by (auto split: option.splits dest!: on_ok_InrD)
  from inst have "inst_MachineID inst = mach_ID m \<and> inst_Port inst = port"
    unfolding instances_Get_def by (elim query_cases) (auto dest!: sym [where s = "Some inst"] simp: find_Some_iff)
  moreover have "m \<in> set items \<and> machine_selected sel m"
    using m by (auto simp: find_Some_iff)
  ultimately show ?thesis using machines_ListD [OF list] by simp
qed

lemma resolveMySQLUpgrade_InrD:
  assumes "resolveMySQLUpgrade env name port package w = (Inr (m, inst, target, version), w')"
  shows "m \<in> set (w_machines w) \<and> machine_selected (trim_space name) m \<and> inst_MachineID inst = mach_ID m \<and> inst_Port inst = port \<and>
    ValidateUpgradeCompatibility version (pk_Version target) = None"
  using assms unfolding resolveMySQLUpgrade_def Let_def
  by (auto split: if_splits dest!: on_ok_InrD of_result_InrD of_error_InrD ResolveMySQLInstance_InrD)

lemma progress_send_upgrade:
  "valid (progress U M ids orig tmp todo codes) (tw_send env (UpgradeTask mid ip port package pre parent cmds rb))
     (\<lambda>_. progress (U @ [mid]) M ids orig tmp todo codes)"
  unfolding tw_send_def
  by (rule validI) (auto simp: on_tw_def send_def Let_def progress_def steady_def upgraded_def upgrade_sent_def)

text \<open>An operation that may send one upgrade task more, and has when it succeeds.\<close>

definition one_more :: "string list \<Rightarrow> string \<Rightarrow> (string list \<Rightarrow> upgrade_state \<Rightarrow> bool) \<Rightarrow> 'a result \<Rightarrow> upgrade_state \<Rightarrow> bool" where
  "one_more U mid P r s \<longleftrightarrow> P (U @ [mid]) s \<or> \<not> is_ok r \<and> P U s"

lemma one_more_simps [simp]:
  "one_more U mid P (Inr x) s \<longleftrightarrow> P (U @ [mid]) s" "one_more U mid P (Inl e) s \<longleftrightarrow> P (U @ [mid]) s \<or> P U s"
  by (auto simp: one_more_def)

lemma one_more_then:
  assumes "valid P m (one_more U mid Q)" and "\<And>x. preserves (Q (U @ [mid])) (f x)"
  shows "valid P (on_ok m f) (one_more U mid Q)"
  by (rule valid_on_ok [OF assms(1)]) (auto simp: one_more_def intro: valid_weaken [OF assms(2)])

lemma valid_seq: "preserves P m \<Longrightarrow> (\<And>x. valid P (f x) Q) \<Longrightarrow> (\<And>e s. P s \<Longrightarrow> Q (Inl e) s) \<Longrightarrow> valid P (on_ok m f) Q"
  by (rule valid_on_ok [where R = "\<lambda>_. P"])

lemma order_upgrade_sends:
  "valid (progress U M ids orig tmp todo codes) (order_upgrade env req m inst target)
     (one_more U (mach_ID m) (\<lambda>V. progress V M ids orig tmp todo codes))"
proof -
  have snt: "valid (progress U M ids orig tmp todo codes) (on_ok (tw_send env (UpgradeTask mid ip port package pre parent cmds rb)) (\<lambda>r. of_result (rp_Create r)))
      (one_more U mid (\<lambda>V. progress V M ids orig tmp todo codes))" for mid ip port package pre parent cmds rb
    by (rule valid_on_ok [OF progress_send_upgrade]) (auto simp: valid_def of_result_def split: sum.splits)
  show ?thesis unfolding order_upgrade_def
    by (rule valid_seq) (auto simp: Let_def intro: exec_rules snt split: prod.splits)
qed

lemma valid_pure: "(C \<Longrightarrow> valid P m Q) \<Longrightarrow> valid (\<lambda>s. P s \<and> C) m Q"
  unfolding valid_def by blast

lemma valid_case4:
  "(\<And>a b c d. x = (a, b, c, d) \<Longrightarrow> valid P (f a b c d) Q) \<Longrightarrow> valid P (case x of (a, b, c, d) \<Rightarrow> f a b c d) Q"
  by (cases x) simp

lemma valid_if: "(b \<Longrightarrow> valid P m Q) \<Longrightarrow> (\<not> b \<Longrightarrow> valid P m' Q) \<Longrightarrow> valid P (if b then m else m') Q"
  by simp

lemma create_upgrade_sends:
  assumes "plain_machines M" and "mid \<in> mach_ID ` set M" and "uo_Machine req = mid"
  shows "valid (progress U M ids orig tmp todo codes) (CreateMySQLUpgradeTask env req)
    (one_more U mid (\<lambda>V. progress V M ids orig tmp todo codes))"
proof -
  let ?P = "\<lambda>V. progress V M ids orig tmp todo codes"
  let ?resolve = "resolveMySQLUpgrade env (uo_Machine req) (uo_Port req) (uo_PackageName req)"
  have own: "valid (steady U M) ?resolve (\<lambda>r w. steady U M w \<and> (\<forall>m i t v. r = Inr (m, i, t, v) \<longrightarrow> mach_ID m = mid))"
  proof (rule validI)
    fix w r w'
    assume w: "steady U M w" and run: "?resolve w = (r, w')"
    have "mach_ID m = mid" if r: "r = Inr (m, i, t, v)" for m i t v
    proof -
      from run r have "?resolve w = (Inr (m, i, t, v), w')" by simp
      from resolveMySQLUpgrade_InrD [OF this] have "m \<in> set M" "machine_selected (trim_space mid) m"
        using w assms(3) by (simp_all add: steady_def)
      with plain_machinesD [OF assms(1,2)] show ?thesis by simp
    qed
    moreover have "steady U M w'" using validD [OF frame_resolve_upgrade w run] .
    ultimately show "steady U M w' \<and> (\<forall>m i t v. r = Inr (m, i, t, v) \<longrightarrow> mach_ID m = mid)" by blast
  qed
  have resolved: "valid (?P U) (on_tw ?resolve) (\<lambda>r s. ?P U s \<and> (\<forall>m i t v. r = Inr (m, i, t, v) \<longrightarrow> mach_ID m = mid))"
    unfolding progress_def
    by (rule valid_weaken [OF valid_on_tw [OF own, where K = "\<lambda>s. roles ids orig tmp todo codes (us_run s)"]]) auto
  have checks: "preserves (?P U) (validateMySQLUpgradePrecheck env tid m port package parent)" for tid m port package parent
    unfolding validateMySQLUpgradePrecheck_def by (intro op_steps upgrade_rules exec_rules progress_send) (simp add: upgrade_sent_def)
  have rest: "valid (?P U) (on_ok (require_capability env m) (\<lambda>_.
            on_ok (if uo_Force req then ret ()
                   else validateMySQLUpgradePrecheck env (uo_PrecheckTaskID req) (mach_ID m) (inst_Port inst) (pk_FileName target) (uo_ParentTaskID req)) (\<lambda>_.
              order_upgrade env req m inst target))) (one_more U mid ?P)" if "mach_ID m = mid" for m inst target
    unfolding that [symmetric]
    by (rule valid_seq, rule progress_capability, rule valid_seq, intro op_steps exec_rules checks, rule order_upgrade_sends) simp_all
  show ?thesis
    unfolding CreateMySQLUpgradeTask_def
    by (rule valid_on_ok [OF resolved], rule valid_pure, rule valid_case4, rule valid_if, rule valid_fail, simp,
        rule rest, blast, simp)
qed

lemma roles_weaken: "roles ids orig tmp todo codes run \<Longrightarrow> set todo' \<subseteq> set todo \<Longrightarrow> set codes' \<subseteq> set codes \<Longrightarrow> roles ids orig tmp todo' codes' run"
  unfolding roles_def by blast

lemma progress_weaken:
  "progress U M ids orig tmp todo codes s \<Longrightarrow> set todo' \<subseteq> set todo \<Longrightarrow> set codes' \<subseteq> set codes \<Longrightarrow> progress U M ids orig tmp todo' codes' s"
  unfolding progress_def by (blast intro: roles_weaken)

lemma preserves_disj: "preserves A m \<Longrightarrow> preserves B m \<Longrightarrow> preserves (\<lambda>s. A s \<or> B s) m"
  unfolding valid_def by blast

lemma one_more_failing:
  assumes "valid (progress U M ids orig tmp todo codes) m (one_more U mid (\<lambda>V. progress V M ids orig tmp todo codes))"
  shows "valid (progress U M ids orig tmp todo codes) (or_node_failed mid' what m) (one_more U mid (\<lambda>V. progress V M ids orig tmp todo codes))"
  unfolding or_node_failed_def
proof (rule valid_with_result [OF assms])
  fix r :: "'a result"
  let ?P = "\<lambda>V. progress V M ids orig tmp todo codes"
  have failing: "preserves (?P V) (node_failed mid' what e :: 'a upg)" for V e
    unfolding node_failed_def by (intro op_steps upgrade_rules exec_rules)
  have bad: "\<not> is_ok q" if "(node_failed mid' what e :: 'a upg) s = (q, s')" for e s q s'
    using that by (auto simp: node_failed_def on_ok_def split: prod.splits sum.splits)
  have "valid (\<lambda>s. ?P (U @ [mid]) s \<or> ?P U s) (node_failed mid' what e :: 'a upg) (one_more U mid ?P)" for e
  proof (rule validI)
    fix s q s'
    assume "?P (U @ [mid]) s \<or> ?P U s" and run: "(node_failed mid' what e :: 'a upg) s = (q, s')"
    then have "?P (U @ [mid]) s' \<or> ?P U s'" using validD [OF failing] by blast
    with bad [OF run] show "one_more U mid ?P q s'" by (simp add: one_more_def)
  qed
  then show "valid (one_more U mid ?P r) (case r of Inl e \<Rightarrow> node_failed mid' what e | Inr x \<Rightarrow> ret x) (one_more U mid ?P)"
    by (cases r) (simp_all add: one_more_def valid_def)
qed

text \<open>One machine: its task id was empty, so its task is sent now; the other machines keep theirs.\<close>

lemma upgrade_one_sends:
  assumes "plain_machines M" and "set ids \<subseteq> mach_ID ` set M" and "mid \<notin> set todo"
  shows "valid (progress U M ids orig tmp (mid # todo) codes) (upgradeOneNode env mid)
    (one_more U mid (\<lambda>V. progress V M ids orig tmp todo codes))"
proof (rule validI)
  let ?P = "\<lambda>V. progress V M ids orig tmp todo codes"
  fix s r s'
  assume s: "progress U M ids orig tmp (mid # todo) codes s" and run: "upgradeOneNode env mid s = (r, s')"
  show "one_more U mid ?P r s'"
  proof (cases "clusterUpgradeNode (us_run s) mid")
    case None
    with run have "\<not> is_ok r" "s' = s" by (auto simp: upgradeOneNode_def)
    moreover have "?P U s" by (rule progress_weaken [OF s]) auto
    ultimately show ?thesis by (simp add: one_more_def)
  next
    case (Some n)
    then have n: "n \<in> set (uu_Nodes (us_run s))" "un_MachineID n = mid" by (auto simp: clusterUpgradeNode_def find_Some_iff)
    with s have fresh: "un_UpgradeTaskID n = []" and "mid \<in> set ids"
      by (auto simp: progress_def roles_def run_members_def)
    then have mid: "mid \<in> mach_ID ` set M" using assms(2) by blast
    let ?create = "CreateMySQLUpgradeTask env (order_of n (uu_RunID (us_run s))) :: string upg"
    have create: "valid (?P U) (or_node_failed mid ''the upgrade task cannot be created'' ?create) (one_more U mid ?P)"
      by (rule one_more_failing, rule create_upgrade_sends [OF assms(1) mid]) (simp add: order_of_def n)
    have rest: "preserves (?P (U @ [mid])) (on_ok (set_node mid (\<lambda>n. n\<lparr>un_UpgradeTaskID := tid, un_Status := ''upgrading''\<rparr>)) (\<lambda>_.
         on_ok touch_run (\<lambda>_. ret tid)))"
      "preserves (?P (U @ [mid])) (on_ok (or_node_failed mid ''the upgrade failed'' (wait_success env tid (120 * minute))) (\<lambda>_.
         on_ok (set_node mid (\<lambda>n. n\<lparr>un_Status := ''upgraded'', un_Error := [], un_CurrentVersion := v\<rparr>)) (\<lambda>_. touch_run)))" for tid v
      using assms(3) unfolding set_node_def
      by (intro op_steps upgrade_rules exec_rules progress_set_upgrade;
        auto simp: roles_def run_members_def update_node_members stage_done_def dest!: update_node_in)+
    have "valid (?P U) (on_ok (on_ok (or_node_failed mid ''the upgrade task cannot be created'' ?create)
        (\<lambda>tid. on_ok (set_node mid (\<lambda>n. n\<lparr>un_UpgradeTaskID := tid, un_Status := ''upgrading''\<rparr>)) (\<lambda>_. on_ok touch_run (\<lambda>_. ret tid))))
        (\<lambda>tid. on_ok (or_node_failed mid ''the upgrade failed'' (wait_success env tid (120 * minute))) (\<lambda>_.
         on_ok (set_node mid (\<lambda>n. n\<lparr>un_Status := ''upgraded'', un_Error := [], un_CurrentVersion := uu_TargetVersion (us_run s)\<rparr>)) (\<lambda>_. touch_run))))
       (one_more U mid ?P)"
      by (intro one_more_then create rest)
    from validD [OF this, of s r s'] progress_weaken [OF s] run fresh Some show ?thesis
      by (simp add: upgradeOneNode_def subset_insertI)
  qed
qed

subsection \<open>The order of the upgrades\<close>

definition replica_order :: "string list \<Rightarrow> string \<Rightarrow> string \<Rightarrow> string list" where
  "replica_order ids orig tmp = stable_sort (replica_before tmp) (filter (\<lambda>mid. mid \<noteq> orig) ids)"

lemma replica_order_eq:
  "clusterUpgradeReplicaOrder run = replica_order (run_members run) (uu_OriginalPrimaryMachineID run) (uu_TemporaryPrimaryMachineID run)"
  by (simp add: clusterUpgradeReplicaOrder_def replica_order_def run_members_def filter_map comp_def)

text \<open>Some of the machines, from the first one on; all of them when the operation succeeds.\<close>

definition partly :: "string list \<Rightarrow> string list \<Rightarrow> (string list \<Rightarrow> upgrade_state \<Rightarrow> bool) \<Rightarrow> 'a result \<Rightarrow> upgrade_state \<Rightarrow> bool" where
  "partly U V P r s \<longleftrightarrow> (\<exists>k. P (U @ take k V) s \<and> (is_ok r \<longrightarrow> length V \<le> k))"

lemma replicas_in_order:
  assumes "plain_machines M" and "set ids \<subseteq> mach_ID ` set M" and "distinct mids" and "set mids \<inter> set todo = {}"
  shows "valid (progress U M ids orig tmp (mids @ todo) codes)
    (for_ok (\<lambda>mid. on_ok (upgradeOneNode env mid) (\<lambda>_. verifyReplicaNode env mid p t)) mids)
    (partly U mids (\<lambda>V. progress V M ids orig tmp todo codes))"
  using assms(3,4)
proof (induction mids arbitrary: U)
  case Nil
  then show ?case by (auto simp: partly_def valid_def)
next
  case (Cons mid mids)
  let ?P = "\<lambda>V. progress V M ids orig tmp todo codes" and ?P' = "\<lambda>V. progress V M ids orig tmp (mids @ todo) codes"
  have weaken: "?P' V s \<Longrightarrow> ?P V s" for V s by (erule progress_weaken) auto
  have "valid (progress U M ids orig tmp (mid # mids @ todo) codes) (upgradeOneNode env mid) (one_more U mid ?P')"
    using Cons.prems by (intro upgrade_one_sends assms) auto
  then have one: "valid (progress U M ids orig tmp (mid # mids @ todo) codes) (on_ok (upgradeOneNode env mid) (\<lambda>_. verifyReplicaNode env mid p t))
      (one_more U mid ?P')"
    by (rule one_more_then) (rule upgrade_rules)
  have first: "partly U (mid # mids) ?P (Inl e :: unit result) s" if "one_more U mid ?P' (Inl e :: unit result) s" for e s
  proof -
    from that consider "?P' (U @ take 1 (mid # mids)) s" | "?P' (U @ take 0 (mid # mids)) s" by auto
    moreover have "\<not> is_ok (Inl e :: unit result)" by simp
    ultimately show ?thesis unfolding partly_def by (blast dest: weaken)
  qed
  have IH: "valid (progress (U @ [mid]) M ids orig tmp (mids @ todo) codes)
    (for_ok (\<lambda>mid. on_ok (upgradeOneNode env mid) (\<lambda>_. verifyReplicaNode env mid p t)) mids) (partly (U @ [mid]) mids ?P)"
    using Cons.prems by (intro Cons.IH) auto
  have shift: "partly (U @ [mid]) mids ?P r s \<Longrightarrow> partly U (mid # mids) ?P r s" for r :: "unit result" and s
    unfolding partly_def by (metis append.assoc append_Cons append_Nil length_Cons not_less_eq_eq take_Suc_Cons)
  show ?case
    unfolding for_ok_simps append_Cons
  proof (rule valid_on_ok [OF one])
    fix x :: unit
    show "valid (one_more U mid ?P' (Inr x)) (for_ok (\<lambda>mid. on_ok (upgradeOneNode env mid) (\<lambda>_. verifyReplicaNode env mid p t)) mids)
        (partly U (mid # mids) ?P)"
      by (rule valid_weaken [OF IH]) (simp_all add: shift)
  qed (rule first)
qed

definition good_members :: "machine list \<Rightarrow> string list \<Rightarrow> bool" where
  "good_members M ids \<longleftrightarrow> distinct ids \<and> set ids \<subseteq> mach_ID ` set M"

lemma replica_stage:
  assumes "plain_machines M" and "good_members M ids"
  shows "valid (progress U M ids orig tmp (orig # ids) codes) (executeReplicaUpgrades env)
    (partly U (replica_order ids orig tmp) (\<lambda>V. progress V M ids orig tmp [orig] codes))"
proof (rule validI)
  let ?order = "replica_order ids orig tmp" and ?P = "\<lambda>V. progress V M ids orig tmp [orig] codes"
  fix s r s'
  assume s: "progress U M ids orig tmp (orig # ids) codes s" and run: "executeReplicaUpgrades env s = (r, s')"
  have order: "clusterUpgradeReplicaOrder (us_run s) = ?order" "uu_OriginalPrimaryMachineID (us_run s) = orig"
    using s by (simp_all add: replica_order_eq progress_def roles_def)
  have "mset ?order = mset (filter (\<lambda>mid. mid \<noteq> orig) ids)" by (simp add: replica_order_def)
  then have "distinct ?order" using assms(2) mset_eq_imp_distinct_iff by (metis distinct_filter good_members_def)
  then have ord: "distinct ?order" "set ?order \<inter> set [orig] = {}" by (auto simp: replica_order_def)
  have s': "progress U M ids orig tmp (?order @ [orig]) codes s"
    by (rule progress_weaken [OF s]) (auto simp: replica_order_def)
  from run obtain q where "for_ok (\<lambda>mid. on_ok (upgradeOneNode env mid) (\<lambda>_. verifyReplicaNode env mid orig True)) ?order s = (q, s')" "is_ok r = is_ok q"
    by (auto simp: executeReplicaUpgrades_def order on_ok_def split: prod.splits sum.splits)
  with validD [OF replicas_in_order [OF assms(1) _ ord] s'] assms(2) show "partly U ?order ?P r s'"
    by (simp add: partly_def good_members_def)
qed

subsection \<open>Stages\<close>

text \<open>An operation framed for some stages keeps everything \<open>progress\<close> speaks of and leaves them to come.\<close>

definition framed :: "string list \<Rightarrow> 'a upg \<Rightarrow> bool" where
  "framed codes m \<longleftrightarrow> (\<forall>U M ids orig tmp todo. preserves (progress U M ids orig tmp todo codes) m)"

lemma framedI: "(\<And>U M ids orig tmp todo. preserves (progress U M ids orig tmp todo codes) m) \<Longrightarrow> framed codes m"
  by (simp add: framed_def)

lemma framedD: "framed codes m \<Longrightarrow> preserves (progress U M ids orig tmp todo codes) m"
  by (simp add: framed_def)

definition upgrade_phase :: "(string list \<Rightarrow> string list) \<Rightarrow> (string list \<Rightarrow> string list) \<Rightarrow> (string list \<Rightarrow> bool) \<Rightarrow> machine list \<Rightarrow> string \<Rightarrow> string \<Rightarrow>
    string list \<Rightarrow> upgrade_state \<Rightarrow> bool" where
  "upgrade_phase snt todo C M orig tmp codes s \<longleftrightarrow>
     (\<exists>ids. good_members M ids \<and> C ids \<and> progress (snt ids) M ids orig tmp (todo ids) codes s)"

definition upgrade_stopped :: "string list \<Rightarrow> machine list \<Rightarrow> string \<Rightarrow> string \<Rightarrow> upgrade_state \<Rightarrow> bool" where
  "upgrade_stopped U M orig tmp s \<longleftrightarrow>
     (\<exists>ids k. good_members M ids \<and> progress (U @ take k (replica_order ids orig tmp @ [orig])) M ids orig tmp [] [] s)"

lemma phase_framed: "framed codes m \<Longrightarrow> preserves (upgrade_phase snt todo C M orig tmp codes) m"
  unfolding upgrade_phase_def framed_def valid_def by blast

lemma stopped_framed: "framed [] m \<Longrightarrow> preserves (upgrade_stopped U M orig tmp) m"
  unfolding upgrade_stopped_def framed_def valid_def by blast

lemma phase_weaken: "upgrade_phase snt todo C M orig tmp (c # codes) s \<Longrightarrow> upgrade_phase snt todo C M orig tmp codes s"
  unfolding upgrade_phase_def
  by (elim exE conjE, intro exI conjI, assumption, assumption, erule progress_weaken) auto

lemma phase_pending: "upgrade_phase snt todo C M orig tmp (c # codes) s \<Longrightarrow> \<not> stage_done c (us_run s)"
  by (auto simp: upgrade_phase_def progress_def roles_def)

text \<open>Each phase is a stop of the whole upgrade.\<close>

definition prefix_phase :: "string list \<Rightarrow> string \<Rightarrow> string \<Rightarrow> (string list \<Rightarrow> string list) \<Rightarrow> bool" where
  "prefix_phase U orig tmp snt \<longleftrightarrow> (\<forall>ids. \<exists>k. snt ids = U @ take k (replica_order ids orig tmp @ [orig]))"

lemma phase_stops: "prefix_phase U orig tmp snt \<Longrightarrow> upgrade_phase snt todo C M orig tmp codes s \<Longrightarrow> upgrade_stopped U M orig tmp s"
proof -
  assume pre: "prefix_phase U orig tmp snt" and "upgrade_phase snt todo C M orig tmp codes s"
  then obtain ids where ids: "good_members M ids" "progress (snt ids) M ids orig tmp (todo ids) codes s" by (auto simp: upgrade_phase_def)
  from pre obtain k where "snt ids = U @ take k (replica_order ids orig tmp @ [orig])" by (auto simp: prefix_phase_def)
  moreover have "progress (snt ids) M ids orig tmp [] [] s" by (rule progress_weaken [OF ids(2)]) simp_all
  ultimately show ?thesis using ids(1) unfolding upgrade_stopped_def by auto
qed

definition stage_post :: "(upgrade_state \<Rightarrow> bool) \<Rightarrow> (upgrade_state \<Rightarrow> bool) \<Rightarrow> 'a result \<Rightarrow> upgrade_state \<Rightarrow> bool" where
  "stage_post Q E r s \<longleftrightarrow> (if is_ok r then Q s else E s)"

lemma stage_post_simps [simp]: "stage_post Q E (Inr x) = Q" "stage_post Q E (Inl e) = E"
  by (simp_all add: stage_post_def fun_eq_iff)

lemma framed_parts [upgrade_rules]:
  "framed codes syncRun" "framed codes appendRunEvent" "framed codes renew_lease" "framed codes (ret x)" "framed codes (gets h)" "framed codes (fail_with e)"
  by (rule framedI, intro upgrade_rules exec_rules)+

lemma find_update_stage:
  assumes "\<And>st. ug_Code (f st) = ug_Code st"
  shows "find_stage c (update_stage code f sts) = (if c = code then map_option f (find_stage c sts) else find_stage c sts)"
  by (induction sts) (auto simp: find_stage_def assms)

lemma framed_set_upgrade:
  assumes "\<And>now run. uu_Nodes (f now run) = uu_Nodes run" "\<And>now run. uu_OriginalPrimaryMachineID (f now run) = uu_OriginalPrimaryMachineID run"
    "\<And>now run. uu_TemporaryPrimaryMachineID (f now run) = uu_TemporaryPrimaryMachineID run"
    "\<And>now run. uu_Status (f now run) = clusterUpgradeSucceeded \<Longrightarrow> uu_Status run = clusterUpgradeSucceeded"
    "\<And>now run c. c \<in> set codes \<Longrightarrow> stage_done c (f now run) \<Longrightarrow> stage_done c run"
  shows "framed codes (set_upgrade f)"
  by (rule framedI, rule progress_set_upgrade) (use assms in \<open>auto simp: roles_def run_members_def\<close>)

lemma framed_marks:
  "code \<notin> set codes \<Longrightarrow> framed codes (set_upgrade (begin_stage code))"
  "code \<notin> set codes \<Longrightarrow> framed codes (set_upgrade (end_stage code message))"
  "framed [] (set_upgrade (fail_stage code e))" "framed [] (set_upgrade (failed_upgrade code e))"
  by (rule framed_set_upgrade; simp add: begin_stage_def end_stage_def fail_stage_def failed_upgrade_def stage_done_def
      find_update_stage split: if_splits option.splits)+

lemma framed_seq: "framed codes m \<Longrightarrow> (\<And>x. framed codes (f x)) \<Longrightarrow> framed codes (on_ok m f)" "framed codes m \<Longrightarrow> framed codes (ignore_error m)"
  unfolding framed_def by (intro allI op_steps exec_rules; simp)+

lemma framed_failRun: "framed [] (failRun code e)"
  unfolding failRun_def by (intro framed_seq framed_marks upgrade_rules)

lemma preserves_stage_post: "preserves Q m \<Longrightarrow> (\<And>s. Q s \<Longrightarrow> E s) \<Longrightarrow> valid Q m (stage_post Q E)"
  unfolding valid_def stage_post_def by auto

lemma run_stage:
  assumes prefix: "prefix_phase U orig tmp snt" "prefix_phase U orig tmp snt'"
    and body: "valid (upgrade_phase snt todo C M orig tmp cs) body (stage_post (upgrade_phase snt' todo' C' M orig tmp cs) (upgrade_stopped U M orig tmp))"
    and code: "code \<notin> set cs"
  shows "valid (upgrade_phase snt todo C M orig tmp cs) (runStage code body)
    (stage_post (upgrade_phase snt' todo' C' M orig tmp cs) (upgrade_stopped U M orig tmp))"
proof -
  let ?X = "upgrade_phase snt todo C M orig tmp cs" and ?Y = "upgrade_phase snt' todo' C' M orig tmp cs" and ?E = "upgrade_stopped U M orig tmp"
  have good: "valid ?Y (on_ok (set_upgrade (end_stage code message)) (\<lambda>_. on_ok (ignore_error syncRun) (\<lambda>_. appendRunEvent))) (stage_post ?Y ?E)" for message
    by (rule preserves_stage_post, rule phase_framed, intro framed_seq framed_marks upgrade_rules code, rule phase_stops [OF prefix(2)])
  have bad: "valid ?E (on_ok (set_upgrade (fail_stage code e)) (\<lambda>_. on_ok (ignore_error syncRun) (\<lambda>_. on_ok appendRunEvent (\<lambda>_. fail_with e)))) (stage_post ?Y ?E)" for e
    by (rule valid_seq, rule stopped_framed, rule framed_marks, rule valid_seq, rule stopped_framed, intro framed_seq upgrade_rules,
      rule valid_seq, rule stopped_framed, rule upgrade_rules, rule valid_fail) simp_all
  have "valid ?X (with_result body (\<lambda>r. case r of
        Inl e \<Rightarrow> on_ok (set_upgrade (fail_stage code e)) (\<lambda>_. on_ok (ignore_error syncRun) (\<lambda>_. on_ok appendRunEvent (\<lambda>_. fail_with e)))
      | Inr message \<Rightarrow> on_ok (set_upgrade (end_stage code message)) (\<lambda>_. on_ok (ignore_error syncRun) (\<lambda>_. appendRunEvent)))) (stage_post ?Y ?E)"
    by (rule valid_with_result [OF body]) (auto split: sum.split intro: valid_weaken [OF good] valid_weaken [OF bad])
  moreover have "valid ?X (fail_with e) (stage_post ?Y ?E)" for e :: go_error
    by (rule valid_fail) (simp add: phase_stops [OF prefix(1)])
  ultimately show ?thesis
    unfolding runStage_def
    by (intro valid_seq valid_if phase_framed framed_seq framed_marks upgrade_rules code) (simp_all add: phase_stops [OF prefix(1)])
qed

lemma execute_stage_phase:
  assumes prefix: "prefix_phase U orig tmp snt" "prefix_phase U orig tmp snt'"
    and body: "valid (upgrade_phase snt todo C M orig tmp cs) (stage_body env code)
      (stage_post (upgrade_phase snt' todo' C' M orig tmp cs) (upgrade_stopped U M orig tmp))"
    and code: "code \<notin> set cs"
  shows "valid (upgrade_phase snt todo C M orig tmp (code # cs)) (execute_stage env code)
    (stage_post (upgrade_phase snt' todo' C' M orig tmp cs) (upgrade_stopped U M orig tmp))"
proof (rule validI)
  let ?X = "upgrade_phase snt todo C M orig tmp" and ?post = "stage_post (upgrade_phase snt' todo' C' M orig tmp cs) (upgrade_stopped U M orig tmp)"
  fix s r s'
  assume s: "?X (code # cs) s" and run: "execute_stage env code s = (r, s')"
  let ?rest = "on_ok renew_lease (\<lambda>_. on_ok (gets us_lock_error) (\<lambda>err. case err of
              Some e \<Rightarrow> on_ok (failRun code (Wrap ''the lease of the maintenance lock was not renewed: %w'' [] e)) (\<lambda>_. fail_with e)
            | None \<Rightarrow> runStage code (stage_body env code)))"
  have "valid (upgrade_stopped U M orig tmp) (on_ok (failRun code err) (\<lambda>_. fail_with e)) ?post" for err e
    by (rule valid_seq, rule stopped_framed, rule framed_failRun, rule valid_fail) simp_all
  then have lost: "valid (?X cs) (on_ok (failRun code err) (\<lambda>_. fail_with e)) ?post" for err e
    by (rule valid_weaken) (simp_all add: phase_stops [OF prefix(1)])
  have "valid (?X cs) (case err of
              Some e \<Rightarrow> on_ok (failRun code (Wrap ''the lease of the maintenance lock was not renewed: %w'' [] e)) (\<lambda>_. fail_with e)
            | None \<Rightarrow> runStage code (stage_body env code)) ?post" for err
    using lost run_stage [OF prefix body code] by (cases err) (simp_all only: option.case)
  then have rest: "valid (?X cs) ?rest ?post"
    by (intro valid_seq phase_framed upgrade_rules) (simp_all add: phase_stops [OF prefix(1)])
  have "execute_stage env code s = ?rest s"
    unfolding execute_stage_def on_ok_gets comp_def if_not_P [OF phase_pending [OF s]] ..
  with run have "?rest s = (r, s')" by (rule back_subst [where P = "\<lambda>x. x = (r, s')"])
  from validD [OF rest phase_weaken [OF s] this] show "?post r s'" .
qed

subsection \<open>The three phases\<close>

abbreviation before_phase :: "string list \<Rightarrow> machine list \<Rightarrow> string \<Rightarrow> string \<Rightarrow> string list \<Rightarrow> upgrade_state \<Rightarrow> bool" where
  "before_phase U M orig tmp \<equiv> upgrade_phase (\<lambda>_. U) (\<lambda>ids. orig # ids) (\<lambda>_. True) M orig tmp"

abbreviation replicas_phase :: "string list \<Rightarrow> machine list \<Rightarrow> string \<Rightarrow> string \<Rightarrow> string list \<Rightarrow> upgrade_state \<Rightarrow> bool" where
  "replicas_phase U M orig tmp \<equiv> upgrade_phase (\<lambda>ids. U @ replica_order ids orig tmp) (\<lambda>_. [orig]) (\<lambda>_. True) M orig tmp"

abbreviation all_phase :: "string list \<Rightarrow> machine list \<Rightarrow> string \<Rightarrow> string \<Rightarrow> string list \<Rightarrow> upgrade_state \<Rightarrow> bool" where
  "all_phase U M orig tmp \<equiv> upgrade_phase (\<lambda>ids. U @ replica_order ids orig tmp @ [orig]) (\<lambda>_. []) (\<lambda>ids. orig \<in> set ids) M orig tmp"

lemma prefixes:
  "prefix_phase U orig tmp (\<lambda>_. U)" "prefix_phase U orig tmp (\<lambda>ids. U @ replica_order ids orig tmp)"
  "prefix_phase U orig tmp (\<lambda>ids. U @ replica_order ids orig tmp @ [orig])"
proof -
  show "prefix_phase U orig tmp (\<lambda>_. U)" unfolding prefix_phase_def by (metis append_Nil2 take0)
  show "prefix_phase U orig tmp (\<lambda>ids. U @ replica_order ids orig tmp)"
    unfolding prefix_phase_def by (metis append_eq_conv_conj)
  show "prefix_phase U orig tmp (\<lambda>ids. U @ replica_order ids orig tmp @ [orig])"
    unfolding prefix_phase_def by (metis take_all order_refl)
qed

lemma framed_body:
  assumes "prefix_phase U orig tmp snt" and "framed cs m"
  shows "valid (upgrade_phase snt todo C M orig tmp cs) m (stage_post (upgrade_phase snt todo C M orig tmp cs) (upgrade_stopped U M orig tmp))"
  by (rule preserves_stage_post, rule phase_framed, rule assms, rule phase_stops, rule assms)

lemma subseq_members: "subseq xs ys \<Longrightarrow> set xs \<subseteq> set ys \<and> (distinct ys \<longrightarrow> distinct xs)"
  by (induction rule: list_emb.induct) auto

lemma plan_members:
  assumes "buildPlan env req parent w = (Inr plan, w')" and "distinct (map mach_ID (w_machines w))"
  shows "good_members (w_machines w) (map un_MachineID (ul_Nodes plan)) \<and> (\<forall>n \<in> set (ul_Nodes plan). un_UpgradeTaskID n = [])"
proof -
  obtain machines plan0 probes owners where ms: "mset machines = mset (filter (\<lambda>m. mach_Cluster m = trim_space (uq_Cluster req)) (w_machines w))"
    and pl: "planned machines (plan0, probes, owners)" and nodes: "ul_Nodes plan = ul_Nodes plan0"
    using buildPlan_InrD [OF assms] by metis
  have "mset (map mach_ID machines) = mset (map mach_ID (filter (\<lambda>m. mach_Cluster m = trim_space (uq_Cluster req)) (w_machines w)))" by (simp add: ms)
  then have "distinct (map mach_ID machines)"
    using mset_eq_imp_distinct_iff assms(2) distinct_map_filter by blast
  moreover have sub: "subseq (map un_MachineID (ul_Nodes plan)) (map mach_ID machines)" using pl by (simp add: planned_def nodes)
  ultimately have "distinct (map un_MachineID (ul_Nodes plan))" using subseq_members [OF sub] by blast
  moreover have "mach_ID ` set machines \<subseteq> mach_ID ` set (w_machines w)" using mset_eq_setD [OF ms] by auto
  then have "set (map un_MachineID (ul_Nodes plan)) \<subseteq> mach_ID ` set (w_machines w)" using subseq_members [OF sub] by (simp only: set_map) blast
  moreover have "\<forall>n \<in> set (ul_Nodes plan). un_UpgradeTaskID n = []" using pl by (auto simp: planned_def nodes of_probe_def)
  ultimately show ?thesis unfolding good_members_def by blast
qed

lemma preflight_body:
  assumes "distinct (map mach_ID M)"
  shows "valid (before_phase U M orig tmp cs) (executeClusterPreflight env) (stage_post (before_phase U M orig tmp cs) (upgrade_stopped U M orig tmp))"
proof (rule validI)
  let ?X = "before_phase U M orig tmp cs"
  fix s r s'
  assume s: "?X s" and run: "executeClusterPreflight env s = (r, s')"
  from s obtain ids where ids: "progress U M ids orig tmp (orig # ids) cs s" by (auto simp: upgrade_phase_def)
  let ?plan = "on_tw (buildPlan env \<lparr>uq_Cluster = uu_Cluster (us_run s), uq_TargetVersion = uu_TargetVersion (us_run s), uq_Port = uu_Port (us_run s),
                     uq_RiskAcknowledged = True\<rparr> (uu_RunID (us_run s)))"
  obtain q v where plan: "?plan s = (q, v)" by (metis prod.collapse)
  have "framed cs ?plan" by (rule framedI, intro upgrade_rules)
  from validD [OF phase_framed [OF this] s plan] have v: "?X v" .
  have v': "progress U M ids orig tmp (orig # ids) cs v" using validD [OF framedD [OF \<open>framed cs ?plan\<close>] ids plan] .
  note stop = phase_stops [OF prefixes(1) v]
  show "stage_post ?X (upgrade_stopped U M orig tmp) r s'"
  proof (cases "is_ok r")
    case False
    with run plan v stop show ?thesis
      by (auto simp: executeClusterPreflight_def on_ok_def stage_post_def set_upgrade_def split: sum.splits if_splits)
  next
    case True
    with run plan obtain p where q: "q = Inr p" and s': "s' = v\<lparr>us_run := (us_run v)\<lparr>uu_Nodes := mergeClusterUpgradeTasks (ul_Nodes p) (uu_Nodes (us_run v))\<rparr>\<rparr>"
      by (auto simp: executeClusterPreflight_def on_ok_def set_upgrade_def split: sum.splits if_splits)
    have "w_machines (tw_world s) = M" using ids by (simp add: progress_def steady_def)
    with assms plan q have p: "good_members M (map un_MachineID (ul_Nodes p))" "\<forall>n \<in> set (ul_Nodes p). un_UpgradeTaskID n = []"
      using plan_members by (auto simp: on_tw_def split: prod.splits)
    have old: "\<forall>n \<in> set (uu_Nodes (us_run v)). un_UpgradeTaskID n = []"
      using v' by (auto simp: progress_def roles_def run_members_def)
    have "run_members (us_run s') = map un_MachineID (ul_Nodes p)"
      by (simp add: s' run_members_def mergeClusterUpgradeTasks_def Let_def split: option.split cong: map_cong)
    moreover have "\<forall>n \<in> set (uu_Nodes (us_run s')). un_UpgradeTaskID n = []"
      using p(2) old by (auto simp: s' mergeClusterUpgradeTasks_def Let_def dest!: map_of_SomeD split: option.splits)
    ultimately have "progress U M (map un_MachineID (ul_Nodes p)) orig tmp (orig # map un_MachineID (ul_Nodes p)) cs s'"
      using v' by (auto simp: progress_def roles_def s' stage_done_def)
    with p(1) True show ?thesis by (auto simp: stage_post_def upgrade_phase_def)
  qed
qed

lemma replicas_body:
  assumes "plain_machines M"
  shows "valid (before_phase U M orig tmp cs) (executeReplicaUpgrades env) (stage_post (replicas_phase U M orig tmp cs) (upgrade_stopped U M orig tmp))"
proof (rule validI)
  fix s r s'
  assume "before_phase U M orig tmp cs s" and run: "executeReplicaUpgrades env s = (r, s')"
  then obtain ids where ids: "good_members M ids" "progress U M ids orig tmp (orig # ids) cs s" by (auto simp: upgrade_phase_def)
  let ?order = "replica_order ids orig tmp"
  from validD [OF replica_stage [OF assms ids(1)] ids(2) run]
  obtain k where k: "progress (U @ take k ?order) M ids orig tmp [orig] cs s'" "is_ok r \<longrightarrow> length ?order \<le> k"
    by (auto simp: partly_def)
  show "stage_post (replicas_phase U M orig tmp cs) (upgrade_stopped U M orig tmp) r s'"
  proof (cases "is_ok r")
    case True
    with k have "progress (U @ ?order) M ids orig tmp [orig] cs s'" by simp
    with True ids(1) show ?thesis by (auto simp: stage_post_def upgrade_phase_def)
  next
    case False
    have "take k ?order = take (min k (length ?order)) (?order @ [orig])" by (cases "k \<le> length ?order") simp_all
    moreover have "progress (U @ take k ?order) M ids orig tmp [] [] s'" by (rule progress_weaken [OF k(1)]) simp_all
    ultimately have "progress (U @ take (min k (length ?order)) (?order @ [orig])) M ids orig tmp [] [] s'" by (simp only:)
    with False ids(1) show ?thesis unfolding stage_post_def upgrade_stopped_def if_not_P [OF False] by blast
  qed
qed

lemma original_found:
  assumes "verifyDetachedOriginalPrimary env s = (Inr x, s')" and "progress U M ids orig tmp todo cs s"
  shows "orig \<in> set ids"
proof -
  from assms(1) obtain n where "clusterUpgradeNode (us_run s) (uu_OriginalPrimaryMachineID (us_run s)) = Some n"
    by (auto simp: verifyDetachedOriginalPrimary_def split: option.splits)
  then have "n \<in> set (uu_Nodes (us_run s))" "un_MachineID n = uu_OriginalPrimaryMachineID (us_run s)"
    unfolding clusterUpgradeNode_def by (auto dest: find_SomeD)
  with assms(2) show ?thesis by (force simp: progress_def roles_def run_members_def)
qed

lemma original_body:
  assumes "plain_machines M"
  shows "valid (replicas_phase U M orig tmp cs) (upgradeOriginalPrimary env) (stage_post (all_phase U M orig tmp cs) (upgrade_stopped U M orig tmp))"
proof (rule validI)
  fix s r s'
  assume s: "replicas_phase U M orig tmp cs s" and run: "upgradeOriginalPrimary env s = (r, s')"
  then obtain ids where ids: "good_members M ids" "progress (U @ replica_order ids orig tmp) M ids orig tmp [orig] cs s"
    by (auto simp: upgrade_phase_def)
  let ?V = "U @ replica_order ids orig tmp" and ?check = "wrap_error ''the original primary is not isolated'' (verifyDetachedOriginalPrimary env)"
  let ?rest = "on_ok (upgradeOneNode env orig) (\<lambda>_.
     on_ok (wrap_error ''the upgraded primary could not be attached again'' (attachOriginalPrimaryAsReplica env)) (\<lambda>_.
       ret ''the original primary was upgraded and follows the temporary primary''))"
  obtain q v where check: "?check s = (q, v)" by (metis prod.collapse)
  have "preserves (progress ?V M ids orig tmp [orig] cs) ?check" by (intro upgrade_rules)
  from validD [OF this ids(2) check] have v: "progress ?V M ids orig tmp [orig] cs v" .
  have rest: "valid (progress ?V M ids orig tmp [orig] cs) ?rest (one_more ?V orig (\<lambda>V. progress V M ids orig tmp [] cs))"
  proof (rule one_more_then)
    show "valid (progress ?V M ids orig tmp [orig] cs) (upgradeOneNode env orig) (one_more ?V orig (\<lambda>V. progress V M ids orig tmp [] cs))"
      using ids(1) by (intro upgrade_one_sends assms) (simp_all add: good_members_def)
  qed (intro op_steps upgrade_rules exec_rules)
  show "stage_post (all_phase U M orig tmp cs) (upgrade_stopped U M orig tmp) r s'"
  proof (cases q)
    case (Inl e)
    with run check have "r = Inl e" "s' = v" by (simp_all add: upgradeOriginalPrimary_def on_ok_def)
    moreover have "replicas_phase U M orig tmp cs v" using ids(1) v unfolding upgrade_phase_def by blast
    ultimately show ?thesis using phase_stops [OF prefixes(2)] by simp
  next
    case (Inr x)
    with check have "orig \<in> set ids" using original_found [OF _ ids(2)]
      by (auto simp: wrap_error_def map_error_def with_result_def split: prod.splits sum.splits)
    moreover have "uu_OriginalPrimaryMachineID (us_run v) = orig" using v by (simp add: progress_def roles_def)
    with run check Inr have "?rest v = (r, s')" by (simp add: upgradeOriginalPrimary_def on_ok_def)
    from validD [OF rest v this] have "progress (?V @ [orig]) M ids orig tmp [] cs s' \<or> \<not> is_ok r \<and> progress ?V M ids orig tmp [] cs s'"
      by (simp add: one_more_def)
    ultimately have "all_phase U M orig tmp cs s' \<or> \<not> is_ok r \<and> upgrade_phase (\<lambda>ids. U @ replica_order ids orig tmp) (\<lambda>_. []) (\<lambda>_. True) M orig tmp cs s'"
      using ids(1) unfolding upgrade_phase_def by auto
    then show ?thesis using phase_stops [OF prefixes(2)] phase_stops [OF prefixes(3)] by (auto simp: stage_post_def)
  qed
qed

text \<open>The ten stages one after the other.\<close>

lemma then_stages:
  assumes "valid P (f c) (stage_post Q E)" and "valid Q (for_ok f cs) (stage_post R E)"
  shows "valid P (for_ok f (c # cs)) (stage_post R E)"
  unfolding for_ok_simps by (rule valid_on_ok [OF assms(1)]) (simp_all add: assms(2))

lemma body_of:
  "stage_body env ''cluster_preflight'' = executeClusterPreflight env" "stage_body env ''precheck_all_nodes'' = executeAllPrechecks env"
  "stage_body env ''upgrade_replicas'' = executeReplicaUpgrades env" "stage_body env ''verify_replicas'' = verifyUpgradedReplicas env"
  "stage_body env ''switch_to_upgraded_replica'' = switchToTemporaryPrimary env" "stage_body env ''upgrade_original_primary'' = upgradeOriginalPrimary env"
  "stage_body env ''verify_original_primary'' = verifyOriginalPrimary env" "stage_body env ''switch_back_original_primary'' = switchBackOriginalPrimary env"
  "stage_body env ''final_cluster_verify'' = finalClusterVerify env"
  "stage_body env ''release_maintenance_lock'' = on_ok release_lease (\<lambda>_. ret ''the maintenance lock was released'')"
  by (simp_all add: stage_body_def)

lemma framed_bodies:
  "framed cs (executeAllPrechecks env)" "framed cs (verifyUpgradedReplicas env)" "framed cs (switchToTemporaryPrimary env)"
  "framed cs (verifyOriginalPrimary env)" "framed cs (switchBackOriginalPrimary env)" "framed cs (finalClusterVerify env)"
  "framed cs (on_ok release_lease (\<lambda>_. ret msg))"
  by (rule framedI, intro op_steps upgrade_rules exec_rules)+

lemma stages_phase:
  assumes "plain_machines M"
  shows "valid (before_phase U M orig tmp stage_codes) (for_ok (execute_stage env) stage_codes)
    (stage_post (all_phase U M orig tmp []) (upgrade_stopped U M orig tmp))"
proof -
  let ?E = "upgrade_stopped U M orig tmp"
  have ids: "distinct (map mach_ID M)" using assms by (simp add: plain_machines_def)
  note step = execute_stage_phase [OF prefixes(1) prefixes(1)] execute_stage_phase [OF prefixes(1) prefixes(2)]
    execute_stage_phase [OF prefixes(2) prefixes(2)] execute_stage_phase [OF prefixes(2) prefixes(3)] execute_stage_phase [OF prefixes(3) prefixes(3)]
  note fb = framed_body [OF prefixes(1)] framed_body [OF prefixes(2)] framed_body [OF prefixes(3)]
  have nil: "valid (all_phase U M orig tmp []) (for_ok (execute_stage env) []) (stage_post (all_phase U M orig tmp []) ?E)"
    by (auto simp: valid_def)
  show ?thesis
    unfolding stage_codes_def
    by (rule then_stages [OF step(1)], unfold body_of, rule preflight_body [OF ids], simp,
      rule then_stages [OF step(1)], unfold body_of, rule fb(1), rule framed_bodies, simp,
      rule then_stages [OF step(2)], unfold body_of, rule replicas_body [OF assms], simp,
      rule then_stages [OF step(3)], unfold body_of, rule fb(2), rule framed_bodies, simp,
      rule then_stages [OF step(3)], unfold body_of, rule fb(2), rule framed_bodies, simp,
      rule then_stages [OF step(4)], unfold body_of, rule original_body [OF assms], simp,
      rule then_stages [OF step(5)], unfold body_of, rule fb(3), rule framed_bodies, simp,
      rule then_stages [OF step(5)], unfold body_of, rule fb(3), rule framed_bodies, simp,
      rule then_stages [OF step(5)], unfold body_of, rule fb(3), rule framed_bodies, simp,
      rule then_stages [OF step(5)], unfold body_of, rule fb(3), rule framed_bodies, simp, rule nil)
qed

subsection \<open>From the start to the end\<close>

text \<open>What follows the stages touches neither the agents nor the run.\<close>

definition run_kept :: "string list \<Rightarrow> machine list \<Rightarrow> upgrade_run \<Rightarrow> upgrade_state \<Rightarrow> bool" where
  "run_kept U M run = (\<lambda>s. steady U M (tw_world s) \<and> us_run s = run)"

lemma run_kept_tw [upgrade_rules]: "preserves (steady U M) m \<Longrightarrow> preserves (run_kept U M run) (on_tw m)"
  unfolding run_kept_def by (rule valid_on_tw) simp_all

lemma run_kept_db [upgrade_rules]: "preserves (run_kept U M run) (on_tw db_call)"
  by (intro upgrade_rules preserves_db_call exec_rules)

lemma run_kept_modify: "(\<And>s. tw_world (f s) = tw_world s) \<Longrightarrow> (\<And>s. us_run (f s) = us_run s) \<Longrightarrow> preserves (run_kept U M run) (modify f)"
  by (rule valid_modify) (simp add: run_kept_def)

lemma run_kept_ends [upgrade_rules]:
  "preserves (run_kept U M run) syncRun" "preserves (run_kept U M run) appendRunEvent" "preserves (run_kept U M run) release_lease"
  "preserves (run_kept U M run) (clearActive run')" "preserves (run_kept U M run) createTrackingTask"
  unfolding syncRun_def appendRunEvent_def get_tracking_def us_query_def us_statement_def release_lease_def clearActive_def createTrackingTask_def
  by (intro op_steps upgrade_rules exec_rules run_kept_modify; simp add: change_task_def)+

lemma run_kept_renew [upgrade_rules]: "preserves (run_kept U M run) renew_lease"
  unfolding run_kept_def by (rule renew_frame) simp

definition upgrade_finished :: "string list \<Rightarrow> machine list \<Rightarrow> string \<Rightarrow> string \<Rightarrow> upgrade_state \<Rightarrow> bool" where
  "upgrade_finished U M orig tmp s \<longleftrightarrow> (\<exists>ids run. good_members M ids \<and> orig \<in> set ids \<and> run_members run = ids \<and>
     uu_OriginalPrimaryMachineID run = orig \<and> uu_TemporaryPrimaryMachineID run = tmp \<and>
     run_kept (U @ replica_order ids orig tmp @ [orig]) M run s)"

definition upgrade_ended :: "string list \<Rightarrow> machine list \<Rightarrow> string \<Rightarrow> string \<Rightarrow> upgrade_state \<Rightarrow> bool" where
  "upgrade_ended U M orig tmp s \<longleftrightarrow> upgrade_stopped U M orig tmp s \<or> upgrade_finished U M orig tmp s"

lemma ended_keeps:
  assumes "\<And>V run. preserves (run_kept V M run) m" and "framed [] m"
  shows "preserves (upgrade_ended U M orig tmp) m"
proof -
  have "preserves (upgrade_finished U M orig tmp) m"
    using assms(1) unfolding upgrade_finished_def valid_def by blast
  then show ?thesis unfolding upgrade_ended_def by (intro preserves_disj stopped_framed assms(2))
qed

lemma ended_rules [upgrade_rules]:
  "preserves (upgrade_ended U M orig tmp) (ignore_error syncRun)" "preserves (upgrade_ended U M orig tmp) appendRunEvent"
  "preserves (upgrade_ended U M orig tmp) renew_lease" "preserves (upgrade_ended U M orig tmp) (ignore_error release_lease)"
  "preserves (upgrade_ended U M orig tmp) (clearActive run)"
  by (rule ended_keeps; intro framedI exec_rules upgrade_rules)+

lemma run_stages_ended:
  assumes "plain_machines M"
  shows "valid (before_phase U M orig tmp stage_codes) (run_stages env) (\<lambda>_. upgrade_ended U M orig tmp)"
proof -
  have finish: "valid (all_phase U M orig tmp []) (set_upgrade succeeded_upgrade) (\<lambda>_. upgrade_ended U M orig tmp)"
    unfolding set_upgrade_def
    by (rule valid_modify) (auto simp: upgrade_phase_def upgrade_ended_def upgrade_finished_def run_kept_def progress_def roles_def run_members_def succeeded_upgrade_def)
  have start: "framed stage_codes (set_upgrade (\<lambda>now run. run\<lparr>uu_Status := clusterUpgradeRunning, uu_UpdatedAt := now\<rparr>))"
    by (rule framed_set_upgrade) (simp_all add: stage_done_def)
  have stops: "before_phase U M orig tmp stage_codes s \<Longrightarrow> upgrade_ended U M orig tmp s" for s
    using phase_stops [OF prefixes(1)] by (auto simp: upgrade_ended_def)
  have tail: "valid (all_phase U M orig tmp []) (on_ok (set_upgrade succeeded_upgrade) (\<lambda>_. on_ok (ignore_error syncRun) (\<lambda>_. appendRunEvent)))
      (\<lambda>_. upgrade_ended U M orig tmp)"
    by (rule valid_on_ok [OF finish], intro op_steps upgrade_rules)
  show ?thesis
    unfolding run_stages_def
    by (rule valid_seq [OF phase_framed [OF start]], rule valid_seq [OF phase_framed], intro framed_seq upgrade_rules,
        rule valid_on_ok [OF stages_phase [OF assms]])
      (simp_all add: tail stops, simp add: upgrade_ended_def)
qed

lemma execute_upgrade_ended:
  assumes "plain_machines M"
  shows "valid (before_phase U M orig tmp stage_codes) (execute_upgrade env) (\<lambda>_. upgrade_ended U M orig tmp)"
proof -
  let ?X = "before_phase U M orig tmp stage_codes" and ?E = "upgrade_ended U M orig tmp"
  have stops: "?X s \<Longrightarrow> upgrade_stopped U M orig tmp s" for s by (rule phase_stops [OF prefixes(1)])
  have acquire: "preserves ?X (on_tw (AcquireFailoverLock cid lid own ttl))" for cid lid own ttl
    by (rule phase_framed, rule framedI, intro upgrade_rules exec_rules)
  have refused: "valid ?X (failRun code err) (\<lambda>_. ?E)" for code err
    by (rule valid_weaken [OF stopped_framed [OF framed_failRun]]) (auto simp: stops upgrade_ended_def)
  have taken: "preserves ?X (modify (\<lambda>s. s\<lparr>us_released := False, us_renewed := us_now s, us_lock_error := None\<rparr>))"
    by (rule phase_framed, rule framedI, rule progress_modify) simp_all
  have stages: "valid ?X (ignore_error (run_stages env)) (\<lambda>_. ?E)"
    unfolding ignore_error_def by (rule valid_with_result [OF run_stages_ended [OF assms]], rule valid_ret)
  have held: "valid ?X (on_ok (modify (\<lambda>s. s\<lparr>us_released := False, us_renewed := us_now s, us_lock_error := None\<rparr>)) (\<lambda>_.
       on_ok (ignore_error (run_stages env)) (\<lambda>_. on_ok renew_lease (\<lambda>_. ignore_error release_lease)))) (\<lambda>_. ?E)"
    by (rule valid_seq [OF taken], rule valid_on_ok [OF stages], intro op_steps upgrade_rules) (auto simp: stops upgrade_ended_def)
  have inner: "valid ?X (with_result (on_tw (AcquireFailoverLock cid lid own ttl)) (\<lambda>r. case r of
        Inl e \<Rightarrow> failRun code (Wrap msg [] e)
      | Inr _ \<Rightarrow> on_ok (modify (\<lambda>s. s\<lparr>us_released := False, us_renewed := us_now s, us_lock_error := None\<rparr>)) (\<lambda>_.
           on_ok (ignore_error (run_stages env)) (\<lambda>_. on_ok renew_lease (\<lambda>_. ignore_error release_lease))))) (\<lambda>_. ?E)" for cid lid own ttl code msg
    by (rule valid_with_result [OF acquire]) (use refused held in \<open>auto split: sum.split\<close>)
  show ?thesis
    unfolding execute_upgrade_def
    by (rule valid_seq, rule phase_framed, rule upgrade_rules, rule valid_on_ok [OF inner], rule upgrade_rules)
      (auto simp: stops upgrade_ended_def)
qed

lemma new_upgrade_phase:
  assumes "good_members M (map un_MachineID (ul_Nodes plan))" and "\<forall>n \<in> set (ul_Nodes plan). un_UpgradeTaskID n = []"
    and "steady U M (tw_world s)" and "us_run s = new_upgrade newid plan now"
  shows "before_phase U M (ul_OriginalPrimaryMachineID plan) (ul_TemporaryPrimaryMachineID plan) stage_codes s"
proof -
  have "\<not> stage_done c (us_run s)" for c
    by (auto simp: assms(4) stage_done_def new_upgrade_def find_stage_def clusterUpgradeStages_def dest!: find_SomeD split: option.splits)
  with assms show ?thesis
    by (auto simp: upgrade_phase_def progress_def roles_def run_members_def new_upgrade_def)
qed

definition plan_ready :: "string list \<Rightarrow> machine list \<Rightarrow> upgrade_plan \<Rightarrow> bool" where
  "plan_ready U M plan \<longleftrightarrow> good_members M (map un_MachineID (ul_Nodes plan)) \<and> (\<forall>n \<in> set (ul_Nodes plan). un_UpgradeTaskID n = [])"

definition start_ended :: "string list \<Rightarrow> machine list \<Rightarrow> 'a result \<Rightarrow> upgrade_state \<Rightarrow> bool" where
  "start_ended U M r s \<longleftrightarrow> (is_ok r \<longrightarrow> (\<exists>orig tmp. upgrade_ended U M orig tmp s))"

lemma valid_start_fails: "valid P (fail_with e) (start_ended U M)"
  by (auto simp: valid_def fail_with_def start_ended_def)

lemma start_ended_Inl [simp]: "start_ended U M (Inl e) s"
  by (simp add: start_ended_def)

lemma start_upgrade_ended:
  assumes "plain_machines M"
  shows "valid (\<lambda>s. steady U M (tw_world s)) (Start_upgrade env req) (start_ended U M)"
proof -
  let ?I = "\<lambda>s :: upgrade_state. steady U M (tw_world s)"
  have planned: "valid ?I (on_tw (buildPlan env req parent)) 
      (\<lambda>r s. ?I s \<and> (case r of Inl _ \<Rightarrow> True | Inr plan \<Rightarrow> plan_ready U M plan))" for parent
  proof (rule validI)
    fix s r s'
    assume s: "?I s" and run: "on_tw (buildPlan env req parent) s = (r, s')"
    from run have plan: "buildPlan env req parent (tw_world s) = (r, tw_world s')"
      by (auto simp: on_tw_def split: prod.splits)
    have "plan_ready U M p" if "r = Inr p" for p
      using plan_members [OF plan [unfolded that]] assms s by (simp add: plan_ready_def plain_machines_def steady_def)
    with validD [OF frame_plan s plan] show "?I s' \<and> (case r of Inl _ \<Rightarrow> True | Inr plan \<Rightarrow> plan_ready U M plan)" by (auto split: sum.split)
  qed
  have executed: "valid (run_kept U M (new_upgrade newid plan now)) (on_ok (execute_upgrade env) (\<lambda>_. ret run)) (start_ended U M)"
    if "plan_ready U M plan" for newid plan now run
  proof (rule valid_on_ok)
    show "valid (run_kept U M (new_upgrade newid plan now)) (execute_upgrade env)
        (\<lambda>_. upgrade_ended U M (ul_OriginalPrimaryMachineID plan) (ul_TemporaryPrimaryMachineID plan))"
      by (rule valid_weaken [OF execute_upgrade_ended [OF assms]])
        (use that in \<open>auto simp: plan_ready_def run_kept_def intro: new_upgrade_phase\<close>)
  qed (auto simp: valid_def ret_def start_ended_def)
  have created: "valid (run_kept U M (new_upgrade newid plan now)) (with_result createTrackingTask (\<lambda>r. case r of
        Inl e \<Rightarrow> on_ok (clearActive run) (\<lambda>_. fail_with e)
      | Inr _ \<Rightarrow> on_ok (execute_upgrade env) (\<lambda>_. ret run))) (start_ended U M)"
    if "plan_ready U M plan" for newid plan now run
    by (rule valid_with_result [OF run_kept_ends(5)])
      (auto split: sum.split intro!: executed [OF that] valid_seq [OF run_kept_ends(4)] valid_start_fails)
  have noted: "valid ?I (modify (\<lambda>s. s\<lparr>us_run := run, us_active := active\<rparr>)) (\<lambda>_. run_kept U M run)" for run active
    by (rule valid_modify) (simp add: run_kept_def)
  have named: "preserves ?I (fresh_id env)" by (rule validI) (auto simp: fresh_id_def)
  have read: "preserves ?I (gets f)" for f :: "upgrade_state \<Rightarrow> 'b" by (rule exec_rules)
  have read_now: "preserves ?I (gets us_now)" by (rule exec_rules)
  show ?thesis
    unfolding Start_upgrade_def Let_def
    by (rule valid_if, rule valid_start_fails, rule valid_on_ok [OF planned], simp only: sum.case, rule valid_pure,
         rule valid_if, rule valid_start_fails, rule valid_seq [OF read], rule valid_if, rule valid_start_fails,
        rule valid_seq [OF named], rule valid_seq [OF read_now], rule valid_on_ok [OF noted], rule created, simp_all)
qed

lemma filter_eq_one: "distinct xs \<Longrightarrow> x \<in> set xs \<Longrightarrow> filter (\<lambda>y. y = x) xs = [x]"
  by (induction xs) (auto simp: filter_empty_conv)

lemma ended_order:
  assumes "upgrade_ended U M orig tmp s"
  defines "order \<equiv> clusterUpgradeReplicaOrder (us_run s) @ [uu_OriginalPrimaryMachineID (us_run s)]"
  shows "\<exists>k. upgraded (tw_world s) = U @ take k order" and "distinct (run_members (us_run s))"
    and "uu_Status (us_run s) = clusterUpgradeSucceeded \<Longrightarrow> upgraded (tw_world s) = U @ order \<and> mset order = mset (run_members (us_run s))"
proof -
  have all: "mset (replica_order ids orig tmp @ [orig]) = mset ids" if "good_members M ids" "orig \<in> set ids" for ids
  proof -
    have "mset (filter (\<lambda>mid. mid = orig) ids) = {#orig#}"
      using filter_eq_one [of ids orig] that by (simp add: good_members_def del: mset_filter)
    then have "mset ids = mset (filter (\<lambda>mid. mid \<noteq> orig) ids) + {#orig#}"
      using multiset_partition [of "mset ids" "\<lambda>mid. mid \<noteq> orig"] by (simp only: not_not mset_filter)
    then show ?thesis by (simp only: replica_order_def mset_append mset_stable_sort mset.simps add_0)
  qed
  let ?P = "(\<exists>k. upgraded (tw_world s) = U @ take k order) \<and> distinct (run_members (us_run s)) \<and>
    (uu_Status (us_run s) = clusterUpgradeSucceeded \<longrightarrow> upgraded (tw_world s) = U @ order \<and> mset order = mset (run_members (us_run s)))"
  have "upgrade_stopped U M orig tmp s \<Longrightarrow> ?P"
    unfolding upgrade_stopped_def order_def replica_order_eq
    by (elim exE conjE) (auto simp: progress_def roles_def steady_def good_members_def simp del: take_append)
  moreover have ?P if "upgrade_finished U M orig tmp s"
  proof -
    from that have run: "good_members M (run_members (us_run s))" "orig \<in> set (run_members (us_run s))"
      "uu_OriginalPrimaryMachineID (us_run s) = orig" "upgraded (tw_world s) = U @ order"
      by (auto simp: upgrade_finished_def run_kept_def steady_def order_def replica_order_eq)
    have "mset order = mset (run_members (us_run s))"
      using all [OF run(1,2)] by (simp only: order_def replica_order_eq run(3)) (simp add: replica_order_def)
    moreover have "upgraded (tw_world s) = U @ take (length order) order" using run(4) by simp
    ultimately show ?thesis using run(1,4) by (blast intro: good_members_def [THEN iffD1, THEN conjunct1])
  qed
  ultimately have ?P using assms(1) unfolding upgrade_ended_def by blast
  then show "\<exists>k. upgraded (tw_world s) = U @ take k order" "distinct (run_members (us_run s))"
    "uu_Status (us_run s) = clusterUpgradeSucceeded \<Longrightarrow> upgraded (tw_world s) = U @ order \<and> mset order = mset (run_members (us_run s))"
    by blast+
qed

subsection \<open>The promises\<close>

interpretation replica_ranking: weak_order "replica_before tmp" for tmp
  by unfold_locales (auto simp: replica_before_def split: if_splits)

lemma sorted_wrt_last: "sorted_wrt R xs \<Longrightarrow> x \<in> set xs \<Longrightarrow> x = last xs \<or> R x (last xs)"
  by (induction xs) auto

lemma temporary_last:
  "uu_TemporaryPrimaryMachineID run \<in> set (clusterUpgradeReplicaOrder run) \<Longrightarrow>
   last (clusterUpgradeReplicaOrder run) = uu_TemporaryPrimaryMachineID run"
  unfolding clusterUpgradeReplicaOrder_def
  by (drule sorted_wrt_last [OF replica_ranking.sorted_stable_sort]) (auto simp: replica_before_def split: if_splits)

text \<open>The goroutine always comes to its end.\<close>

lemma ignore_error_ret: "\<exists>w'. ignore_error m w = (Inr (), w')"
  by (auto simp: ignore_error_def with_result_def ret_def split: prod.split)

lemma on_ok_returns: "(\<And>w. \<exists>x w'. m w = (Inr x, w')) \<Longrightarrow> (\<And>x w. \<exists>y w'. f x w = (Inr y, w')) \<Longrightarrow> \<exists>y w'. on_ok m f w = (Inr y, w')"
  unfolding on_ok_def by (metis (mono_tags, lifting) case_prod_conv old.sum.simps(6))

lemma execute_upgrade_returns: "\<exists>s'. execute_upgrade env s = (Inr (), s')"
proof -
  have basic: "\<exists>x s'. gets f s = (Inr x, s')" "\<exists>x s'. modify h s = (Inr x, s')" "\<exists>x s'. ignore_error m s = (Inr x, s')"
    for f :: "upgrade_state \<Rightarrow> 'b" and h m and s :: upgrade_state
    using ignore_error_ret by (auto simp: gets_def modify_def)
  have event: "\<exists>x s'. appendRunEvent s = (Inr x, s')" for s unfolding appendRunEvent_def by (rule basic)
  have failing: "\<exists>x s'. failRun code err s = (Inr x, s')" for code err s
    unfolding failRun_def set_upgrade_def by (intro on_ok_returns basic event)
  have renew: "\<exists>x s'. renew_lease s = (Inr x, s')" for s
    by (auto simp: renew_lease_def Let_def split: prod.split)
  have stages: "\<exists>x s'. on_ok (modify h) (\<lambda>_. on_ok (ignore_error m) (\<lambda>_. on_ok renew_lease (\<lambda>_. ignore_error m'))) s = (Inr x, s')" for h m m' s
    by (intro on_ok_returns basic renew)
  have locked: "\<exists>x s'. with_result m (\<lambda>r. case r of Inl e \<Rightarrow> failRun code (Wrap msg [] e)
      | Inr _ \<Rightarrow> on_ok (modify h) (\<lambda>_. on_ok (ignore_error m1) (\<lambda>_. on_ok renew_lease (\<lambda>_. ignore_error m2)))) s = (Inr x, s')"
    for m :: "unit upg" and code msg h m1 m2 s
  proof -
    obtain q v where m: "m s = (q, v)" by (metis prod.collapse)
    show ?thesis by (cases q) (simp_all only: with_result_def m prod.case sum.case failing stages)
  qed
  have "\<exists>x s'. execute_upgrade env s = (Inr x, s')"
    unfolding execute_upgrade_def clearActive_def by (intro on_ok_returns basic locked)
  then show ?thesis by simp
qed

text \<open>C6: A rolling upgrade sends its upgrade tasks in one order: the replicas one after the other, the temporary primary as
  the last of them, and only then the original primary. However the run ends, the machines upgraded are the first ones of
  this order, each of them once, and an upgrade that reports success upgraded every node of the run.\<close>

theorem rolling_upgrade_order:
  assumes "plain_machines (w_machines (tw_world s))" and "Start_upgrade env req s = (Inr run, s')"
  shows "let end = us_run s'; order = clusterUpgradeReplicaOrder end @ [uu_OriginalPrimaryMachineID end]
    in (\<exists>k. upgraded (tw_world s') = upgraded (tw_world s) @ take k order) \<and> distinct (run_members end) \<and>
       (uu_Status end = clusterUpgradeSucceeded \<longrightarrow>
          upgraded (tw_world s') = upgraded (tw_world s) @ order \<and> mset order = mset (run_members end)) \<and>
       (uu_TemporaryPrimaryMachineID end \<in> set (clusterUpgradeReplicaOrder end) \<longrightarrow>
          last (clusterUpgradeReplicaOrder end) = uu_TemporaryPrimaryMachineID end)"
proof -
  have "steady (upgraded (tw_world s)) (w_machines (tw_world s)) (tw_world s)" by (simp add: steady_def)
  from validD [OF start_upgrade_ended [OF assms(1)] this assms(2)]
  obtain orig tmp where "upgrade_ended (upgraded (tw_world s)) (w_machines (tw_world s)) orig tmp s'"
    by (auto simp: start_ended_def)
  from ended_order [OF this] show ?thesis unfolding Let_def by (blast intro: temporary_last)
qed

definition upgrade_state_sample :: upgrade_state where
  "upgrade_state_sample = task_world.extend \<lparr>tw_world = upgrade_world, tw_prechecks = []\<rparr>
     (upgrade_state.fields (new_upgrade [] (new_plan ''c1'' ''8.0.40'' 3306 0) 0) [] [] 0 True 0 None)"

theorem rolling_upgrade_order_witness:
  "\<exists>run s'. Start_upgrade upgrade_sample upgrade_request_sample upgrade_state_sample = (Inr run, s') \<and> distinct (run_members (us_run s'))"
proof -
  have world: "tw_world upgrade_state_sample = upgrade_world" "us_active upgrade_state_sample = []"
    by (simp_all add: upgrade_state_sample_def task_world.defs upgrade_state.defs)
  obtain plan w' where plan: "buildPlan upgrade_sample upgrade_request_sample [] upgrade_world = (Inr plan, w')" "ul_Executable plan" "w_faults w' = []"
    using sample_buildPlan by blast
  have risk: "uq_RiskAcknowledged upgrade_request_sample" by (simp add: upgrade_request_sample_def)
  have runs: "\<exists>x s'. on_ok (execute_upgrade upgrade_sample) (\<lambda>_. ret run) s = (Inr x, s')" for run s
    using execute_upgrade_returns [of upgrade_sample s] by (auto simp: on_ok_def ret_def)
  have ids: "on_ok (fresh_id env) f s = f (ue_ids env (us_next s)) (s\<lparr>us_next := us_next s + 1\<rparr>)" for env s and f :: "string \<Rightarrow> upgrade_run upg"
    by (simp add: on_ok_def fresh_id_def)
  have db: "on_ok (on_tw db_call) f s = f () s" if "w_faults (tw_world s) = []" for s and f :: "unit \<Rightarrow> unit upg"
    using that by (simp add: on_ok_def on_tw_def db_call_def)
  have "\<exists>x s'. Start_upgrade upgrade_sample upgrade_request_sample upgrade_state_sample = (Inr x, s')"
    by (simp add: Start_upgrade_def Let_def risk on_tw_def world plan map_get_def on_ok_def [of "on_tw _"] ids db with_result_def createTrackingTask_def
      us_statement_def runs)
  then obtain run s' where start: "Start_upgrade upgrade_sample upgrade_request_sample upgrade_state_sample = (Inr run, s')"
    by blast
  have "plain_machines (w_machines (tw_world upgrade_state_sample))"
    unfolding world(1) upgrade_world_def by code_simp
  from rolling_upgrade_order [OF this start] start show ?thesis unfolding Let_def by blast
qed

end
