(* ===== verification/Upgrade_Gate.thy ===== *)
theory Upgrade_Gate
  imports Upgrade_Facts Arch_Guard
begin

text \<open>
  When a server is upgraded at all: what an upgrade task needs, and in which state the original primary of a rolling
  upgrade is when its turn comes.
\<close>

subsection \<open>What an upgrade task needs\<close>

text \<open>A method that changed something got past its first step when that step changes nothing.\<close>

lemma on_ok_changes:
  assumes "on_ok m f w = (r, w')" and "g w' \<noteq> g w" and "\<forall>q v. m w = (q, v) \<longrightarrow> g v = g w"
  obtains x v where "m w = (Inr x, v)" and "f x v = (r, w')" and "g v = g w"
proof -
  obtain q v where m: "m w = (q, v)" by (metis prod.collapse)
  show ?thesis
  proof (cases q)
    case (Inl e)
    with assms(1) m have "w' = v" by (simp add: on_ok_def)
    with assms(2,3) m show ?thesis by blast
  next
    case (Inr x)
    with assms(1) m that assms(3) show ?thesis by (simp add: on_ok_def)
  qed
qed

lemma on_tw_steady:
  assumes "\<And>U M. preserves (steady U M) m" and "on_tw m s = (q, v)"
  shows "upgraded (tw_world v) = upgraded (tw_world s)"
proof -
  obtain w where m: "m (tw_world s) = (q, w)" "v = s\<lparr>tw_world := w\<rparr>"
    using assms(2) by (auto simp: on_tw_def split: prod.splits)
  have "steady (upgraded (tw_world s)) (w_machines (tw_world s)) w"
    by (rule validD [OF assms(1) _ m(1)]) (simp add: steady_def)
  then show ?thesis by (simp add: m(2) steady_def)
qed

lemma require_capability_same: "require_capability env m s = (q, v) \<Longrightarrow> v = s"
  by (auto simp: require_capability_def ret_def fail_with_def split: prod.splits if_splits)

lemma require_capabilityD: "require_capability env m s = (Inr x, v) \<Longrightarrow> fst (MachineCapability (mach_ID m) CapabilityMySQLDefaultsFile (ue_channels env))"
  by (auto simp: require_capability_def ret_def fail_with_def split: prod.splits if_splits)

definition precheck_fits :: "(string \<times> precheck_row) list \<Rightarrow> go_time \<Rightarrow> upgrade_order \<Rightarrow> string \<Rightarrow> int \<Rightarrow> string \<Rightarrow> bool" where
  "precheck_fits rows now req mid port package \<longleftrightarrow>
     (\<exists>row. map_of rows (trim_space (uo_PrecheckTaskID req)) = Some row \<and> precheck_matches row mid port package \<and>
        (uo_ParentTaskID req \<noteq> [] \<longrightarrow> pc_Parent row = uo_ParentTaskID req) \<and> now - pc_CreatedAt row \<le> precheck_max_age (uo_ParentTaskID req))"

lemma tw_send_read:
  assumes "tw_send env call s = (q, v)" and "upgrade_sent call = []"
  shows "upgraded (tw_world v) = upgraded (tw_world s)" and "w_clock (tw_world s) \<le> w_clock (tw_world v)" and "tw_prechecks v = tw_prechecks s"
  using assms by (auto simp: tw_send_def on_tw_def send_def Let_def upgraded_def)

lemma validate_sends_nothing:
  assumes "validateMySQLUpgradePrecheck env tid mid port package parent s = (q, v)"
  shows "upgraded (tw_world v) = upgraded (tw_world s)"
proof -
  let ?I = "\<lambda>t. upgraded (tw_world t) = upgraded (tw_world s)"
  have send: "preserves ?I (tw_send env (ReadTask t))" for t
    by (rule validI) (auto dest: tw_send_read(1) simp: upgrade_sent_def)
  have "preserves ?I (validateMySQLUpgradePrecheck env tid mid port package parent)"
    unfolding validateMySQLUpgradePrecheck_def by (intro op_steps exec_rules send)
  from validD [OF this _ assms] show ?thesis by simp
qed

lemma validateD:
  assumes "validateMySQLUpgradePrecheck env (uo_PrecheckTaskID req) mid port package (uo_ParentTaskID req) s = (Inr x, v)"
  shows "precheck_fits (tw_prechecks s) (w_clock (tw_world s)) req mid port package"
proof -
  from assms obtain r u where read: "tw_send env (ReadTask (trim_space (uo_PrecheckTaskID req))) s = (Inr r, u)"
    and rest: "\<exists>row now. map_of (tw_prechecks u) (trim_space (uo_PrecheckTaskID req)) = Some row \<and> precheck_matches row mid port package \<and>
        (uo_ParentTaskID req \<noteq> [] \<longrightarrow> pc_Parent row = uo_ParentTaskID req) \<and> w_clock (tw_world u) - pc_CreatedAt row \<le> precheck_max_age (uo_ParentTaskID req)"
    unfolding validateMySQLUpgradePrecheck_def
    by (fastforce simp: gets_def fail_with_def ret_def split: if_splits option.splits dest!: on_ok_InrD of_result_InrD)
  from tw_send_read(2,3) [OF read] rest show ?thesis by (fastforce simp: upgrade_sent_def precheck_fits_def)
qed

lemma resolve_clock: "resolveMySQLUpgrade env name port package w = (q, v) \<Longrightarrow> w_clock v = w_clock w \<and> w_machines v = w_machines w"
proof -
  let ?I = "\<lambda>v. w_clock v = w_clock w \<and> w_machines v = w_machines w"
  have "preserves ?I db_call" by (rule validI) (auto simp: db_call_def split: list.splits option.splits)
  then have query: "preserves ?I (query h)" for h :: "world \<Rightarrow> 'b" unfolding query_def by (intro op_steps exec_rules)
  have "preserves ?I db_call" by (rule validI) (auto simp: db_call_def split: list.splits option.splits)
  then have machines: "preserves ?I machines_List" and instances: "preserves ?I (instances_Get mid p)" for mid p
    unfolding machines_List_def instances_Get_def query_def by (intro op_steps exec_rules | assumption)+
  have "preserves ?I (resolveMySQLUpgrade env name port package)"
    unfolding resolveMySQLUpgrade_def ResolveMySQLInstance_def Let_def
    by (intro op_steps exec_rules inv_of_error machines instances)
  from validD [OF this] show "resolveMySQLUpgrade env name port package w = (q, v) \<Longrightarrow> ?I v" by blast
qed

text \<open>The target and the versions the two tasks work with.\<close>

definition upgrade_target :: "upgrade_env \<Rightarrow> upgrade_order \<Rightarrow> machine \<Rightarrow> instance_rec \<Rightarrow> package \<Rightarrow> bool" where
  "upgrade_target env req m inst target \<longleftrightarrow> inst_MachineID inst = mach_ID m \<and> inst_Port inst = uo_Port req \<and>
     (\<exists>info. ue_infos env (mach_ID m) = Inr (Some info) \<and>
        SelectNamed (ue_selector env) (ue_stat env) info (trim_space (uo_PackageName req)) = Inr target) \<and>
     (\<exists>version. current_version inst = Inr version \<and> ValidateUpgradeCompatibility version (pk_Version target) = None)"

lemma resolve_target:
  assumes "resolveMySQLUpgrade env (uo_Machine req) (uo_Port req) (uo_PackageName req) w = (Inr (m, inst, target, version), w')"
  shows "upgrade_target env req m inst target"
proof -
  have "inst_MachineID inst = mach_ID m \<and> inst_Port inst = uo_Port req" using resolveMySQLUpgrade_InrD [OF assms] by blast
  moreover have "collected_info env (mach_ID m) = Inr info \<Longrightarrow> ue_infos env (mach_ID m) = Inr (Some info)" for info
    by (auto simp: collected_info_def split: sum.splits option.splits)
  moreover have "(\<exists>info. collected_info env (mach_ID m) = Inr info \<and>
        SelectNamed (ue_selector env) (ue_stat env) info (trim_space (uo_PackageName req)) = Inr target) \<and>
      current_version inst = Inr version \<and> ValidateUpgradeCompatibility version (pk_Version target) = None"
    using assms unfolding resolveMySQLUpgrade_def Let_def
    by (auto split: if_splits dest!: on_ok_InrD of_result_InrD of_error_InrD)
  ultimately show ?thesis unfolding upgrade_target_def by blast
qed

lemma order_upgrade_appends:
  assumes "order_upgrade env req m inst target s = (r, s')" and "upgraded (tw_world s') \<noteq> upgraded (tw_world s)"
  shows "upgraded (tw_world s') = upgraded (tw_world s) @ [mach_ID m]"
  using assms unfolding order_upgrade_def
  by (auto simp: on_ok_def of_result_def tw_send_def on_tw_def send_def Let_def upgraded_def upgrade_sent_def ret_def fail_with_def
      split: sum.splits prod.splits)

text \<open>What has to be passed between the resolution of the request and the task.\<close>

lemma gates_passed:
  assumes "(if \<not> uo_RiskAcknowledged req then fail_with (Error refusal)
       else on_ok (require_capability env m) (\<lambda>_.
            on_ok (if uo_Force req then ret ()
                   else validateMySQLUpgradePrecheck env (uo_PrecheckTaskID req) (mach_ID m) (inst_Port inst) (pk_FileName target) (uo_ParentTaskID req)) (\<lambda>_.
              order_upgrade env req m inst target))) u = (r, s')"
    and changed: "upgraded (tw_world s') \<noteq> upgraded (tw_world u)"
  shows "uo_RiskAcknowledged req \<and> fst (MachineCapability (mach_ID m) CapabilityMySQLDefaultsFile (ue_channels env)) \<and>
    upgraded (tw_world s') = upgraded (tw_world u) @ [mach_ID m] \<and>
    (uo_Force req \<or> precheck_fits (tw_prechecks u) (w_clock (tw_world u)) req (mach_ID m) (inst_Port inst) (pk_FileName target))"
proof -
  let ?g = "\<lambda>s. upgraded (tw_world s)"
  have risk: "uo_RiskAcknowledged req"
  proof (rule ccontr)
    assume "\<not> uo_RiskAcknowledged req"
    then have "s' = u" using assms(1) by (simp only: not_not if_True if_False fail_with_def prod.inject simp_thms)
    with changed show False by simp
  qed
  let ?gate = "if uo_Force req then ret () else validateMySQLUpgradePrecheck env (uo_PrecheckTaskID req) (mach_ID m) (inst_Port inst) (pk_FileName target) (uo_ParentTaskID req)"
  have first: "on_ok (require_capability env m) (\<lambda>_. on_ok ?gate (\<lambda>_. order_upgrade env req m inst target)) u = (r, s')"
    using assms(1) by (simp only: risk not_True_eq_False if_False)
  have "\<forall>q v. require_capability env m u = (q, v) \<longrightarrow> ?g v = ?g u" by (auto dest: require_capability_same)
  from on_ok_changes [OF first changed this] obtain x v where able: "require_capability env m u = (Inr x, v)" and
    second: "on_ok ?gate (\<lambda>_. order_upgrade env req m inst target) v = (r, s')"
    by blast
  have v: "v = u" by (rule require_capability_same [OF able])
  have quiet: "\<forall>q t. ?gate u = (q, t) \<longrightarrow> ?g t = ?g u"
    by (auto simp: ret_def split: if_splits dest: validate_sends_nothing)
  from on_ok_changes [OF second [unfolded v] changed quiet] obtain y t where gate: "?gate u = (Inr y, t)" and
    last: "order_upgrade env req m inst target t = (r, s')" and t: "?g t = ?g u" by blast
  have "?g s' = ?g u @ [mach_ID m]" using order_upgrade_appends [OF last] changed t by simp
  moreover have "uo_Force req \<or> precheck_fits (tw_prechecks u) (w_clock (tw_world u)) req (mach_ID m) (inst_Port inst) (pk_FileName target)"
    using gate validateD [of env req "mach_ID m" "inst_Port inst" "pk_FileName target" u y t] by (auto split: if_splits)
  ultimately show ?thesis using risk require_capabilityD [OF able] by blast
qed

text \<open>C7: An upgrade task is sent for a registered machine the request selects and for no other, and only when the request
  acknowledges the risk, the agent can handle the credentials, the package fits the machine and may follow the installed
  version and, unless the upgrade is forced, the request names a precheck of the same machine, port and package that is recent enough and belongs
  to the same rolling upgrade (what this says of a precheck is \<open>precheck_fits\<close>; its outcome is not part of it).\<close>

theorem upgrade_task_gated:
  "let s' = snd (CreateMySQLUpgradeTask env req s)
   in upgraded (tw_world s') = upgraded (tw_world s) \<or>
      (\<exists>m inst target. m \<in> set (w_machines (tw_world s)) \<and> machine_selected (trim_space (uo_Machine req)) m \<and>
         upgraded (tw_world s') = upgraded (tw_world s) @ [mach_ID m] \<and> uo_RiskAcknowledged req \<and>
         fst (MachineCapability (mach_ID m) CapabilityMySQLDefaultsFile (ue_channels env)) \<and>
         upgrade_target env req m inst target \<and>
         (uo_Force req \<or> precheck_fits (tw_prechecks s) (w_clock (tw_world s)) req (mach_ID m) (uo_Port req) (pk_FileName target)))"
proof -
  let ?g = "\<lambda>s. upgraded (tw_world s)"
  obtain r s' where run: "CreateMySQLUpgradeTask env req s = (r, s')" by (metis prod.collapse)
  show ?thesis
  proof (cases "?g s' = ?g s")
    case False
    have resolve: "on_tw (resolveMySQLUpgrade env (uo_Machine req) (uo_Port req) (uo_PackageName req)) s = (q, v) \<longrightarrow> ?g v = ?g s" for q v
      using on_tw_steady [OF frame_resolve_upgrade] by blast
    then have resolved: "\<forall>q v. on_tw (resolveMySQLUpgrade env (uo_Machine req) (uo_Port req) (uo_PackageName req)) s = (q, v) \<longrightarrow> ?g v = ?g s" by blast
    from on_ok_changes [OF run [unfolded CreateMySQLUpgradeTask_def] False resolved]
    obtain x u where x: "on_tw (resolveMySQLUpgrade env (uo_Machine req) (uo_Port req) (uo_PackageName req)) s = (Inr x, u)"
      and then_x: "(case x of (m, inst, target, version) \<Rightarrow>
       if \<not> uo_RiskAcknowledged req then fail_with (Error ''a backup and the risks of downtime and compatibility have to be acknowledged'')
       else on_ok (require_capability env m) (\<lambda>_.
            on_ok (if uo_Force req then ret ()
                   else validateMySQLUpgradePrecheck env (uo_PrecheckTaskID req) (mach_ID m) (inst_Port inst) (pk_FileName target) (uo_ParentTaskID req)) (\<lambda>_.
              order_upgrade env req m inst target))) u = (r, s')" and u: "?g u = ?g s"
      by blast
    obtain m inst target version where parts: "x = (m, inst, target, version)" by (rule prod_cases4)
    note target = x [unfolded parts] and gates = then_x [unfolded parts prod.case]
    from target have found: "resolveMySQLUpgrade env (uo_Machine req) (uo_Port req) (uo_PackageName req) (tw_world s) = (Inr (m, inst, target, version), tw_world u)"
      "tw_prechecks u = tw_prechecks s" by (auto simp: on_tw_def split: prod.splits)
    note machine = resolveMySQLUpgrade_InrD [OF found(1)] resolve_clock [OF found(1)]
    have "?g s' \<noteq> ?g u" using False u by simp
    note passed = gates_passed [OF gates this]
    have "uo_Force req \<or> precheck_fits (tw_prechecks s) (w_clock (tw_world s)) req (mach_ID m) (uo_Port req) (pk_FileName target)"
      using passed machine found(2) by simp
    then show ?thesis
      using passed machine u resolve_target [OF found(1)] unfolding run Let_def snd_conv by metis
  qed (simp add: run)
qed

subsection \<open>The original primary\<close>

lemma steady_probe: "probe_member env n s = (q, v) \<Longrightarrow> upgraded (tw_world v) = upgraded (tw_world s)"
proof -
  assume run: "probe_member env n s = (q, v)"
  have "preserves (steady U M) (on_ok (ResolveMySQLInstance a b) (\<lambda>(m, inst). probeNode (ue_agent env) m inst c))" for U M a b c
    by (intro op_steps upgrade_rules)
  from on_tw_steady [OF this] run show ?thesis unfolding probe_member_def by (auto simp: on_ok_def gets_def)
qed

text \<open>C19: The original primary of a rolling upgrade is upgraded only after a live probe in the same stage has shown it isolated:
  read-only, super-read-only and without a replication channel.\<close>

theorem original_primary_upgraded_isolated:
  "let s' = snd (upgradeOriginalPrimary env s)
   in upgraded (tw_world s') = upgraded (tw_world s) \<or>
      (\<exists>n p v. clusterUpgradeNode (us_run s) (uu_OriginalPrimaryMachineID (us_run s)) = Some n \<and>
         probe_member env n s = (Inr p, v) \<and> upgraded (tw_world v) = upgraded (tw_world s) \<and>
         ub_ReadOnly p \<and> ub_SuperReadOnly p \<and> ub_SourceHost p = [] \<and> ub_ChannelCount p = 0)"
proof -
  let ?g = "\<lambda>s. upgraded (tw_world s)"
  obtain r s' where run: "upgradeOriginalPrimary env s = (r, s')" by (metis prod.collapse)
  have check: "verifyDetachedOriginalPrimary env s = (q, v) \<Longrightarrow> ?g v = ?g s" for q v
    by (auto simp: verifyDetachedOriginalPrimary_def on_ok_def gets_def fail_with_def set_node_def set_upgrade_def modify_def
        split: option.splits prod.splits sum.splits if_splits dest: steady_probe)
  show ?thesis
  proof (cases "?g s' = ?g s")
    case False
    have wrapped: "wrap_error ''the original primary is not isolated'' (verifyDetachedOriginalPrimary env) s = (q, v) \<longrightarrow> ?g v = ?g s" for q v
      by (auto simp: wrap_error_def map_error_def with_result_def ret_def fail_with_def split: prod.splits sum.splits dest: check)
    then have "\<forall>q v. wrap_error ''the original primary is not isolated'' (verifyDetachedOriginalPrimary env) s = (q, v) \<longrightarrow> ?g v = ?g s" by blast
    from on_ok_changes [OF run [unfolded upgradeOriginalPrimary_def] False this]
    obtain x u where "wrap_error ''the original primary is not isolated'' (verifyDetachedOriginalPrimary env) s = (Inr x, u)" by blast
    then have "verifyDetachedOriginalPrimary env s = (Inr x, u)"
      by (auto simp: wrap_error_def map_error_def with_result_def ret_def fail_with_def split: prod.splits sum.splits)
    then obtain n p v where "clusterUpgradeNode (us_run s) (uu_OriginalPrimaryMachineID (us_run s)) = Some n" "probe_member env n s = (Inr p, v)" "isolated p"
      by (auto simp: verifyDetachedOriginalPrimary_def on_ok_def gets_def fail_with_def split: option.splits prod.splits sum.splits if_splits)
    with run show ?thesis unfolding Let_def isolated_def by (auto dest: steady_probe)
  qed (simp add: run)
qed

subsection \<open>The maintenance lock\<close>

definition turned_away :: "agent_log \<Rightarrow> lock_table \<Rightarrow> upgrade_state \<Rightarrow> bool" where
  "turned_away log locks s \<longleftrightarrow> uu_Status (us_run s) = clusterUpgradeFailed \<and> uu_CurrentStage (us_run s) = ''cluster_preflight'' \<and>
     w_agent_log (tw_world s) = log \<and> w_locks (tw_world s) = locks"

lemma turned_away_ends:
  "preserves (turned_away log locks) (ignore_error syncRun)" "preserves (turned_away log locks) appendRunEvent"
  "preserves (turned_away log locks) (clearActive run)"
proof -
  have "preserves (\<lambda>w. w_agent_log w = log \<and> w_locks w = locks) db_call"
    by (rule validI) (auto simp: db_call_def split: list.splits option.splits)
  then have db: "preserves (turned_away log locks) (on_tw db_call)"
    unfolding turned_away_def
    by (rule valid_weaken [OF valid_on_tw [where K = "\<lambda>s. uu_Status (us_run s) = clusterUpgradeFailed \<and> uu_CurrentStage (us_run s) = ''cluster_preflight''"]]) simp_all
  have keep: "preserves (turned_away log locks) (modify f)" if "\<And>s. tw_world (f s) = tw_world s" "\<And>s. us_run (f s) = us_run s" for f
    by (rule valid_modify) (simp add: turned_away_def that)
  show "preserves (turned_away log locks) (ignore_error syncRun)" "preserves (turned_away log locks) appendRunEvent"
    "preserves (turned_away log locks) (clearActive run)"
    unfolding syncRun_def appendRunEvent_def get_tracking_def us_query_def us_statement_def clearActive_def
    by (intro op_steps exec_rules db keep; simp add: change_task_def)+
qed

text \<open>C20: While another execution holds the lock of the cluster with an unexpired lease, a rolling upgrade of it ends as failed
  in its first stage: nothing is sent to any node and the lock stays as it is.\<close>

theorem upgrade_needs_the_lock:
  assumes "w_locks (tw_world s) (uu_Cluster (us_run s)) = Some row"
    and "lease_live (unix_sec (w_clock (tw_world s))) (lr_expires_at row)" and "execute_upgrade env s = (r, s')"
  shows "uu_Status (us_run s') = clusterUpgradeFailed \<and> uu_CurrentStage (us_run s') = ''cluster_preflight'' \<and>
    w_agent_log (tw_world s') = w_agent_log (tw_world s) \<and> w_locks (tw_world s') = w_locks (tw_world s)"
proof -
  let ?R = "turned_away (w_agent_log (tw_world s)) (w_locks (tw_world s))"
  obtain e fs where refused: "AcquireFailoverLock (uu_Cluster (us_run s)) (uu_RunID (us_run s)) ''gmha-cluster-upgrade'' upgradeLockTTL (tw_world s) =
      (Inl e, tw_world s\<lparr>w_faults := fs\<rparr>)"
    using acquire_refused [OF assms(1,2)] by blast
  let ?s = "s\<lparr>tw_world := tw_world s\<lparr>w_faults := fs\<rparr>\<rparr>" and ?e = "Wrap ''the maintenance lock was not acquired: %w'' [] e"
  have "execute_upgrade env s = on_ok (failRun ''cluster_preflight'' ?e) (\<lambda>_. clearActive (us_run s)) ?s"
    by (simp only: execute_upgrade_def on_ok_def [of "gets us_run"] gets_def prod.case sum.case on_ok_def [of "with_result _ _"] on_ok_def [of "failRun _ _"]
        with_result_def on_tw_def refused)
  moreover have "valid ((=) ?s) (failRun ''cluster_preflight'' ?e) (\<lambda>_. ?R)"
    unfolding failRun_def set_upgrade_def
    by (rule valid_on_ok [where R = "\<lambda>_. ?R"], rule valid_modify, simp add: turned_away_def failed_upgrade_def)
      (intro op_steps turned_away_ends, simp)
  ultimately have "?R s'"
    using validD [OF valid_on_ok [where R = "\<lambda>_. ?R" and Q = "\<lambda>_. ?R" and f = "\<lambda>_. clearActive (us_run s)"], of "(=) ?s" "failRun ''cluster_preflight'' ?e" ?s r s']
      turned_away_ends(3) assms(3) by simp
  then show ?thesis by (simp add: turned_away_def)
qed

definition locked_sample :: upgrade_state where
  "locked_sample = upgrade_state_sample\<lparr>tw_world := upgrade_world\<lparr>w_locks := lock_insert 0 ''c1'' ''op-1'' ''gmha-manager'' (300 * second) (\<lambda>_. None)\<rparr>\<rparr>"

theorem upgrade_needs_the_lock_witness:
  "let s' = snd (execute_upgrade upgrade_sample locked_sample)
   in uu_Status (us_run s') = clusterUpgradeFailed \<and> w_agent_log (tw_world s') = []"
proof -
  obtain r s' where run: "execute_upgrade upgrade_sample locked_sample = (r, s')" by (metis prod.collapse)
  let ?row = "\<lparr>lr_failover_id = ''op-1'', lr_lock_owner = ''gmha-manager'', lr_locked_at = 0, lr_expires_at = Some 300\<rparr>"
  have "uu_Cluster (us_run locked_sample) = ''c1''"
    by (simp add: locked_sample_def upgrade_state_sample_def task_world.defs upgrade_state.defs new_upgrade_def new_plan_def)
  then have "w_locks (tw_world locked_sample) (uu_Cluster (us_run locked_sample)) = Some ?row"
    by (simp add: locked_sample_def lock_insert_def unix_sec_def)
  moreover have "lease_live (unix_sec (w_clock (tw_world locked_sample))) (lr_expires_at ?row)"
    by (simp add: locked_sample_def upgrade_world_def empty_world_def unix_sec_def)
  moreover have "w_agent_log (tw_world locked_sample) = []" by (simp add: locked_sample_def upgrade_world_def empty_world_def)
  ultimately show ?thesis using upgrade_needs_the_lock [OF _ _ run] by (simp add: run)
qed

end
