(* ===== verification/Spec2Isabelle.thy ===== *)
theory Spec2Isabelle
  imports GM_Prelude Gtid_Set HA_Lock Candidate_Selection Net_IP HA_Repo Shell_Commands VIP_Service
    VIP_Config VIP_Scan_Log VIP_Safety VIP_Rebind Failover_Service Mysql_Version Mysql_Package Mysql_Accounts Task_Channels Arch_Plan Arch_Choice Arch_Commands
    Arch_Election Arch_VIP Arch_Topology Arch_Execute Arch_Refine Arch_Guard Heartbeat_Laws Recovery_Facts Upgrade_Gate
begin

text \<open>
  Verification library of GMHA-MySQL, a manager for MySQL clusters written in Go.

  \<^bold>\<open>The program.\<close> One manager process keeps an inventory of machines and MySQL instances in SQLite, holds a connection to an
  agent on each machine, and changes clusters by sending the agents shell commands. The library models the services of
  \<open>internal/app\<close> that decide and order these changes:

  \<^item> \<open>HAService\<close> and \<open>VIPService\<close> (\<open>ha_service.go\<close>, \<open>vip_driver.go\<close>): virtual IPs, the offline choice of a candidate and
    the failover entry points;
  \<^item> the architecture planner and executor (\<open>architecture_planner.go\<close>, \<open>architecture_executor.go\<close>): switchovers,
    conversions, bootstrap and attachment of nodes as runs with a step list;
  \<^item> \<open>ClusterUpgradeService\<close> (\<open>cluster_upgrade_service.go\<close>) and the instance upgrade tasks of \<open>TaskService\<close>
    (\<open>task_service.go\<close>): rolling upgrades, which start architecture runs under their own lock;
  \<^item> \<open>HeartbeatService\<close> and \<open>RecoveryService\<close>: the state of the agents and their restart over SSH;
  \<^item> the pure rules of \<open>internal/mysql\<close>: versions, package selection and accounts;
  \<^item> the repositories of \<open>internal/infrastructure/persistence/sqlite\<close> these services use.

  The services meet in three places: the cluster lock of \<open>ha_repo.go\<close>, which failover, VIP operations, architecture runs and
  rolling upgrades take; the agents, which the VIP operations, runs and upgrades command; and the tables.

  \<^bold>\<open>Theories.\<close> In the order the code depends on itself:

  \<^item> \<open>GM_Prelude\<close>: Go's string, number, error and time functions, stable sorting with the locale \<open>weak_order\<close>.
    \<open>Op_Monad\<close>: methods as functions from a state to a result and a state, loops over them, and the triples \<open>valid\<close> and
    \<open>preserves\<close> all state lemmas are stated with.
  \<^item> \<open>Gtid_Set\<close>: \<open>parseGTIDSet\<close> and \<open>gtidSetSubset\<close> on 64-bit words, against the denoted sets of transactions.
  \<^item> \<open>HA_Domain\<close>, \<open>HA_Lock\<close>, \<open>HA_Repo\<close>: the entities of \<open>internal/domain/ha\<close>, the failover lock (locale
    \<open>lease_lock\<close>), and \<open>world\<close>, the state of the HA services, with the statements of the repositories.
  \<^item> \<open>Candidate_Selection\<close>, \<open>Net_IP\<close>, \<open>Shell_Commands\<close>: offline candidate scores, the \<open>net\<close> package, and the texts of
    the commands with readers of shell words and SQL literals.
  \<^item> \<open>VIP_Service\<close>, \<open>VIP_Config\<close>: scan, bind, remove, adopt and the configuration API. \<open>VIP_Scan_Log\<close>: the calls a scan
    leaves in the agent log and what its verdict says about the replies; \<open>VIP_Safety\<close>, \<open>VIP_Rebind\<close>: what the operations guarantee. \<open>Failover_Service\<close>: the failover entry points.
  \<^item> \<open>Mysql_Version\<close>, \<open>Mysql_Package\<close>, \<open>Mysql_Accounts\<close>: \<open>version_compatibility.go\<close>, \<open>package_selector.go\<close>,
    \<open>accounts.go\<close>.
  \<^item> \<open>Task_Channels\<close>: the agent connections and capabilities of \<open>TaskService\<close>.
  \<^item> \<open>Arch_Plan\<close>, \<open>Arch_Choice\<close>: \<open>architecture_planner.go\<close> and what its plans guarantee.
  \<^item> \<open>Arch_Commands\<close>, \<open>Arch_Run\<close>, \<open>Arch_Election\<close>, \<open>Arch_VIP\<close>, \<open>Arch_Topology\<close>, \<open>Arch_Execute\<close>:
    \<open>architecture_executor.go\<close>, from its command texts to \<open>startArchitectureAdjustment\<close> and the goroutine it starts.
    \<open>Arch_Refine\<close>: the steps a run records against the plan it was shown. \<open>Arch_Invariant\<close>: the locale
    \<open>execution_invariant\<close>, which carries an invariant of the world through a whole run; \<open>Arch_Guard\<close> interprets it for the
    secrecy of credentials and adds the lock.
  \<^item> \<open>Heartbeat_Domain\<close>, \<open>Heartbeat\<close>, \<open>Heartbeat_Facts\<close>, \<open>Heartbeat_Laws\<close>: \<open>heartbeat_service.go\<close>,
    \<open>heartbeat_repo.go\<close>. \<open>Recovery\<close>, \<open>Recovery_Facts\<close>: \<open>recovery_service.go\<close>, \<open>recovery_repo.go\<close>,
    \<open>recovery_executor.go\<close>.
  \<^item> \<open>Mysql_Upgrade\<close>: the precheck and upgrade tasks of an instance. \<open>Upgrade_Domain\<close>, \<open>Upgrade_Plan\<close>, \<open>Upgrade_Run\<close>:
    \<open>cluster_upgrade_service.go\<close>. \<open>Upgrade_Plan_Facts\<close>, \<open>Upgrade_Facts\<close>, \<open>Upgrade_Gate\<close>: what they guarantee; a second
    interpretation of \<open>execution_invariant\<close> shows that a switchover upgrades nothing.

  \<^bold>\<open>How the code is modelled.\<close> A struct is a record with a prefix per type, an error is a value of \<open>go_error\<close>, a method is an
  operation on \<open>world\<close>, \<open>monitor\<close> (heartbeats and recovery), \<open>exec_state\<close> (a run) or \<open>upgrade_state\<close> (a rolling upgrade).
  Words are used where the width matters (the \<open>uint64\<close> of GTID intervals); other Go integers are unbounded, since the code
  only counts and compares them. Maps are association lists or functions; where the code ranges over a map the model
  fixes an order. Time is an integer of nanoseconds in \<open>w_clock\<close>; the database keeps
  seconds.

  What the code cannot decide is an argument or part of the state: an agent is a function from the calls so far to the
  reply and the time it takes; every database call takes its outcome from the list \<open>w_faults\<close> (an empty list means no
  failure); the operator's confirmations are \<open>w_operator\<close>, one entry per second waited; SSH answers, directory
  listings and machine information are functions. Contexts are deadlines. A goroutine runs right after the call that starts
  it, and the ticking renewals of a lease are done where the code looks at their outcome. Interleavings of executions
  are explicit where they matter: \<open>HA_Lock\<close> and \<open>Recovery_Facts\<close> quantify over sequences of operations of several
  executions, the heartbeat laws over histories of heartbeats, ticks and queries. Texts for people (names of steps,
  Chinese messages) are left out or in English; commands and SQL are written out.

  \<^bold>\<open>Bounds.\<close> Loops over lists are structural. The polling loops have a number of looks computed from their deadline, one look
  per second: \<open>looks\<close> for the heartbeats, proved sufficient (\<open>wait_online_looks\<close>); \<open>switchover_looks\<close>, the 20 minutes of
  \<open>executeSwitchover\<close>; the waits of a run end with the entries of \<open>w_operator\<close>, and those of a recovery with the arrivals its
  script holds.

  \<^bold>\<open>What is proved.\<close> The candidate chosen offline, in a plan and live is eligible and unbeaten, and the live
  winner holds every transaction of the other candidates and of the target replicas other than the current master (the replicas
  are not compared when a cluster is put together from independent nodes). A VIP is bound, and its configuration removed, only
  after it was withdrawn everywhere and a scan of all machines found it nowhere; a bind that is not confirmed is rolled back.
  Executions exclude each other by the lock. A run carries out the script its plan showed, in its order, and stores no credential.
  A rolling upgrade upgrades the replicas, then the temporary primary, then the isolated original primary, each once, and stops at
  the first failure. The masters of a multi-master target replicate in one ring with offsets of their own. The agents' states
  follow the state machine, silence is detected at its bound, the restarts of the scans are spaced as long as no manual recovery
  intervenes, and an execution frees its machine unless the deadline of its context has passed. The management account gets the
  privileges topology management needs. Command texts resist injection. Several theorems state behaviour that is a defect of the
  code, each with its entry in the list of findings: a rebind to another machine fails even when no command and no statement does,
  one unhealthy agent blinds recovery, an interrupted recovery is never retried, backslashes pass \<open>sqlLiteral\<close>.

  \<^bold>\<open>Not modelled.\<close> The task service beyond the connections and upgrade tasks (an agent is its interface), the agents
  themselves, SSH bootstrap and installation, alerts, backups, binlog analysis, SQL diagnostics, histograms, flame graphs,
  performance samples, the AI assistant, the manager's own runtime and failover, HTTP and menus: I/O, display, or services the
  modelled ones do not depend on. \<open>ProcessHeartbeat\<close> is modelled without the alert service observing it, and the metric queries
  of the heartbeat service are left out. What MySQL and the shell do with a command is the agent's reply, apart from the
  quoting rules of \<open>Shell_Commands\<close>.
\<close>

end
